(* ===== verification/Prelude.thy ===== *)
theory Prelude
  imports Main "HOL-Library.Monad_Syntax" "HOL-Library.Char_ord" "HOL-Library.List_Lexorder"
    "HOL-Library.Code_Target_Nat"
begin

text \<open>
  What every component shares: the representation of the Rust types of the source, the two kinds of
  failure, the ordered map of the standard library, and the generic lemmas on lists and options.

  \<^item> \<open>usize\<close> is \<open>nat\<close>. Offsets, indices and counts of the modelled code are bounded by the length of a
    string or a vector, which Rust keeps below \<open>isize::MAX\<close>, so their sums do not wrap.
  \<^item> \<open>&str\<close>, \<open>String\<close> and \<open>[u8]\<close> are \<open>string\<close>: the list of the UTF-8 bytes, a HOL \<open>char\<close> being a byte.
  \<^item> a Rust \<open>char\<close> (a Unicode scalar value) is a \<open>nat\<close>, see theory \<open>Utf8\<close>.
  \<^item> \<open>Result<T, E>\<close> is \<open>'e + 't\<close>, with \<open>Inl\<close> for \<open>Err\<close> and \<open>Inr\<close> for \<open>Ok\<close>.
  \<^item> a function that can panic (a failed \<open>expect\<close>, \<open>assert!\<close> or index) has result type \<open>'t option\<close>, with
    \<open>None\<close> for the panic; \<open>do\<close> blocks thread it.
  \<^item> \<open>BTreeMap<K, V>\<close> is the list of its entries in key order.
\<close>

section \<open>Collections of facts\<close>

named_theorems utf8_facts \<open>validity, boundaries and widths of UTF-8 text\<close>
named_theorems lexer_facts \<open>specifications of the lexer's token functions\<close>
named_theorems step_defs \<open>definitions of the guards and updates of state machines\<close>

section \<open>Result\<close>

definition and_then :: "'e + 'a \<Rightarrow> ('a \<Rightarrow> 'e + 'b) \<Rightarrow> 'e + 'b" where
  "and_then r f = (case r of Inl e \<Rightarrow> Inl e | Inr x \<Rightarrow> f x)"

definition map_err :: "('e \<Rightarrow> 'f) \<Rightarrow> 'e + 'a \<Rightarrow> 'f + 'a" where
  "map_err f r = (case r of Inl e \<Rightarrow> Inl (f e) | Inr x \<Rightarrow> Inr x)"

definition ok_or :: "'e \<Rightarrow> 'a option \<Rightarrow> 'e + 'a" where
  "ok_or e x = (case x of None \<Rightarrow> Inl e | Some y \<Rightarrow> Inr y)"

definition expect_ok :: "'e + 'a \<Rightarrow> 'a option" where
  "expect_ok r = (case r of Inl _ \<Rightarrow> None | Inr x \<Rightarrow> Some x)"

lemma and_then_simps [simp]:
  "and_then (Inl e) f = Inl e"
  "and_then (Inr x) f = f x"
  by (simp_all add: and_then_def)

lemma and_then_eq_Inr [simp]:
  "and_then r f = Inr y \<longleftrightarrow> (\<exists>x. r = Inr x \<and> f x = Inr y)"
  by (cases r) simp_all

lemma map_err_simps [simp]:
  "map_err f (Inl e) = Inl (f e)"
  "map_err f (Inr x) = Inr x"
  by (simp_all add: map_err_def)

lemma map_err_eq_Inr [simp]: "map_err f r = Inr x \<longleftrightarrow> r = Inr x"
  by (cases r) simp_all

lemma ok_or_eq_Inr [simp]: "ok_or e x = Inr y \<longleftrightarrow> x = Some y"
  by (cases x) (simp_all add: ok_or_def)

lemma ok_or_simps [simp]:
  "ok_or e None = Inl e"
  "ok_or e (Some x) = Inr x"
  by (simp_all add: ok_or_def)

lemma expect_ok_simps [simp]:
  "expect_ok (Inl e) = None"
  "expect_ok (Inr x) = Some x"
  by (simp_all add: expect_ok_def)

lemma and_then_cong [fundef_cong]:
  "r = r' \<Longrightarrow> (\<And>x. r' = Inr x \<Longrightarrow> f x = g x) \<Longrightarrow> and_then r f = and_then r' g"
  by (cases r') simp_all

text \<open>\<open>iterator.map(f).collect::<Result<Vec<_>, _>>()\<close>: the first error wins.\<close>

fun try_map :: "('a \<Rightarrow> 'e + 'b) \<Rightarrow> 'a list \<Rightarrow> 'e + 'b list" where
  "try_map f [] = Inr []"
| "try_map f (x # xs) = and_then (f x) (\<lambda>y. and_then (try_map f xs) (\<lambda>ys. Inr (y # ys)))"

lemma try_map_Inr_iff:
  "try_map f xs = Inr ys \<longleftrightarrow> list_all2 (\<lambda>x y. f x = Inr y) xs ys"
  by (induction xs arbitrary: ys) (auto simp: list_all2_Cons1)

text \<open>
  A function that can panic and can return an error has type \<open>('e + 'a) option\<close>: \<open>try_bind\<close> is the \<open>?\<close>
  of such a call, \<open>try_each\<close> a loop of them that collects what each returns.
\<close>

definition try_bind :: "('e + 'a) option \<Rightarrow> ('a \<Rightarrow> ('e + 'b) option) \<Rightarrow> ('e + 'b) option" where
  "try_bind m f = (case m of None \<Rightarrow> None | Some (Inl e) \<Rightarrow> Some (Inl e) | Some (Inr x) \<Rightarrow> f x)"

fun try_each :: "('a \<Rightarrow> ('e + 'b) option) \<Rightarrow> 'a list \<Rightarrow> ('e + 'b list) option" where
  "try_each f [] = Some (Inr [])"
| "try_each f (x # xs) = try_bind (f x) (\<lambda>y. try_bind (try_each f xs) (\<lambda>ys. Some (Inr (y # ys))))"

lemma try_bind_simps [simp]:
  "try_bind None f = None"
  "try_bind (Some (Inl e)) f = Some (Inl e)"
  "try_bind (Some (Inr x)) f = f x"
  by (simp_all add: try_bind_def)

lemma try_bind_not_None:
  "m \<noteq> None \<Longrightarrow> (\<And>x. m = Some (Inr x) \<Longrightarrow> f x \<noteq> None) \<Longrightarrow> try_bind m f \<noteq> None"
  by (auto simp: try_bind_def split: option.splits sum.splits)

lemma try_bind_eq_Inr [simp]:
  "try_bind m f = Some (Inr y) \<longleftrightarrow> (\<exists>x. m = Some (Inr x) \<and> f x = Some (Inr y))"
  by (auto simp: try_bind_def split: option.splits sum.splits)

lemma try_bind_cong [fundef_cong]:
  "m = m' \<Longrightarrow> (\<And>x. m' = Some (Inr x) \<Longrightarrow> f x = g x) \<Longrightarrow> try_bind m f = try_bind m' g"
  by (auto simp: try_bind_def split: option.splits sum.splits)

lemma try_each_not_None: "(\<And>x. x \<in> set xs \<Longrightarrow> f x \<noteq> None) \<Longrightarrow> try_each f xs \<noteq> None"
  by (induction xs) (simp, simp add: try_bind_not_None del: not_None_eq)

lemma try_each_ex_Inr:
  "\<forall>x \<in> set xs. \<exists>y. f x = Some (Inr y) \<Longrightarrow> \<exists>ys. try_each f xs = Some (Inr ys)"
  by (induction xs) auto

lemma try_map_ex_Inr: "(\<exists>ys. try_map f xs = Inr ys) \<longleftrightarrow> (\<forall>x \<in> set xs. \<exists>y. f x = Inr y)"
  by (induction xs) auto

lemma try_each_Inr_iff:
  "try_each f xs = Some (Inr ys) \<longleftrightarrow> list_all2 (\<lambda>x y. f x = Some (Inr y)) xs ys"
  by (induction xs arbitrary: ys) (auto simp: list_all2_Cons1)

section \<open>Positions in lists\<close>

text \<open>\<open>iter().position(p)\<close>, \<open>iter().rposition(p)\<close>, \<open>iter().find(p)\<close> and \<open>iter().find_map(f)\<close>.\<close>

fun position :: "('a \<Rightarrow> bool) \<Rightarrow> 'a list \<Rightarrow> nat option" where
  "position p [] = None"
| "position p (x # xs) = (if p x then Some 0 else map_option Suc (position p xs))"

fun rposition :: "('a \<Rightarrow> bool) \<Rightarrow> 'a list \<Rightarrow> nat option" where
  "rposition p [] = None"
| "rposition p (x # xs) =
     (case rposition p xs of Some i \<Rightarrow> Some (Suc i) | None \<Rightarrow> if p x then Some 0 else None)"

fun find_map :: "('a \<Rightarrow> 'b option) \<Rightarrow> 'a list \<Rightarrow> 'b option" where
  "find_map f [] = None"
| "find_map f (x # xs) = (case f x of Some y \<Rightarrow> Some y | None \<Rightarrow> find_map f xs)"

text \<open>\<open>slice.get(i)\<close>.\<close>

definition get_nth :: "'a list \<Rightarrow> nat \<Rightarrow> 'a option" where
  "get_nth xs i = (if i < length xs then Some (xs ! i) else None)"

lemma get_nth_eq_Some [simp]: "get_nth xs i = Some x \<longleftrightarrow> i < length xs \<and> xs ! i = x"
  by (auto simp: get_nth_def)

lemma get_nth_eq_None [simp]: "get_nth xs i = None \<longleftrightarrow> length xs \<le> i"
  by (auto simp: get_nth_def)

lemma position_eq_Some_iff:
  "position p xs = Some i \<longleftrightarrow> i < length xs \<and> p (xs ! i) \<and> (\<forall>j < i. \<not> p (xs ! j))"
proof (induction xs arbitrary: i)
  case (Cons x xs)
  show ?case
  proof (cases i)
    case 0
    then show ?thesis by auto
  next
    case (Suc k)
    have "(\<forall>j < Suc k. \<not> p ((x # xs) ! j)) \<longleftrightarrow> \<not> p x \<and> (\<forall>j < k. \<not> p (xs ! j))"
      by (auto simp: less_Suc_eq_0_disj)
    with Suc Cons.IH show ?thesis by auto
  qed
qed simp

lemma position_eq_None_iff: "position p xs = None \<longleftrightarrow> (\<forall>x \<in> set xs. \<not> p x)"
  by (induction xs) auto

lemma rposition_eq_None_iff: "rposition p xs = None \<longleftrightarrow> (\<forall>x \<in> set xs. \<not> p x)"
  by (induction xs) (auto split: option.splits)

lemma rposition_SomeD:
  "rposition p xs = Some i \<Longrightarrow>
     i < length xs \<and> p (xs ! i) \<and> (\<forall>j. i < j \<and> j < length xs \<longrightarrow> \<not> p (xs ! j))"
proof (induction xs arbitrary: i)
  case (Cons x xs)
  show ?case
  proof (cases "rposition p xs")
    case None
    then have "\<forall>j < length xs. \<not> p (xs ! j)" by (simp add: rposition_eq_None_iff)
    with None Cons.prems show ?thesis by (auto simp: nth_Cons' split: if_splits)
  next
    case (Some k)
    with Cons.prems have "i = Suc k" by simp
    with Cons.IH [OF Some] show ?thesis by (auto simp: nth_Cons split: nat.splits)
  qed
qed simp

lemma find_map_eq_SomeD: "find_map f xs = Some y \<Longrightarrow> \<exists>x \<in> set xs. f x = Some y"
  by (induction xs) (auto split: option.splits)

lemma find_map_eq_None_iff: "find_map f xs = None \<longleftrightarrow> (\<forall>x \<in> set xs. f x = None)"
  by (induction xs) (auto split: option.splits)

section \<open>Strings\<close>

abbreviation NUL :: char where "NUL \<equiv> CHR 0x00"
abbreviation TAB :: char where "TAB \<equiv> CHR 0x09"
abbreviation NL :: char where "NL \<equiv> CHR 0x0A"
abbreviation CR :: char where "CR \<equiv> CHR 0x0D"
abbreviation DQUOTE :: char where "DQUOTE \<equiv> CHR 0x22"
abbreviation SQUOTE :: char where "SQUOTE \<equiv> CHR 0x27"
abbreviation BSLASH :: char where "BSLASH \<equiv> CHR 0x5C"

text \<open>\<open>starts_with\<close>, \<open>ends_with\<close>, \<open>strip_prefix\<close> and \<open>strip_suffix\<close> of \<open>str\<close>.\<close>

fun starts_with :: "string \<Rightarrow> string \<Rightarrow> bool" where
  "starts_with s [] = True"
| "starts_with [] (y # ys) = False"
| "starts_with (x # xs) (y # ys) = (x = y \<and> starts_with xs ys)"

definition ends_with :: "string \<Rightarrow> string \<Rightarrow> bool" where
  "ends_with s t = starts_with (rev s) (rev t)"

definition strip_prefix :: "string \<Rightarrow> string \<Rightarrow> string option" where
  "strip_prefix p s = (if starts_with s p then Some (drop (length p) s) else None)"

definition strip_suffix :: "string \<Rightarrow> string \<Rightarrow> string option" where
  "strip_suffix p s = (if ends_with s p then Some (take (length s - length p) s) else None)"

lemma starts_with_iff: "starts_with s t \<longleftrightarrow> (\<exists>r. s = t @ r)"
  by (induction s t rule: starts_with.induct) auto

lemma starts_with_length: "starts_with s t \<Longrightarrow> length t \<le> length s"
  by (auto simp: starts_with_iff)

lemma ends_with_iff: "ends_with s t \<longleftrightarrow> (\<exists>r. s = r @ t)"
  unfolding ends_with_def starts_with_iff
  by (metis rev_append rev_rev_ident)

text \<open>\<open>&text[a..b]\<close> on a range that has been checked.\<close>

definition cut :: "nat \<Rightarrow> nat \<Rightarrow> 'a list \<Rightarrow> 'a list" where
  "cut a b s = take (b - a) (drop a s)"

lemma length_cut [simp]: "a \<le> b \<Longrightarrow> b \<le> length s \<Longrightarrow> length (cut a b s) = b - a"
  by (simp add: cut_def)

lemma cut_append:
  assumes "a \<le> b" and "b \<le> c"
  shows "cut a b s @ cut b c s = cut a c s"
proof -
  have "drop (b - a) (drop a s) = drop b s" using assms by simp
  moreover have "c - a = (b - a) + (c - b)" using assms by simp
  ultimately show ?thesis unfolding cut_def by (metis take_add)
qed

lemma cut_full [simp]: "cut 0 (length s) s = s"
  by (simp add: cut_def)

lemma cut_self [simp]: "cut a a s = []"
  by (simp add: cut_def)

text \<open>Decimal rendering of an unsigned number (\<open>{}\<close> of \<open>usize\<close> and its kin).\<close>

definition digit_char :: "nat \<Rightarrow> char" where
  "digit_char d = char_of (48 + d)"

fun show_nat :: "nat \<Rightarrow> string" where
  "show_nat n = (if n < 10 then [digit_char n] else show_nat (n div 10) @ [digit_char (n mod 10)])"

declare show_nat.simps [simp del]

lemma show_nat_neq_Nil [simp]: "show_nat n \<noteq> []"
  by (subst show_nat.simps) simp

text \<open>Padding of \<open>{:>width$}\<close> with spaces on the left.\<close>

definition pad_left :: "nat \<Rightarrow> string \<Rightarrow> string" where
  "pad_left w s = replicate (w - length s) (CHR '' '') @ s"

section \<open>Ordered maps\<close>

text \<open>\<open>BTreeMap\<close>: \<open>insert\<close>, \<open>get\<close>, \<open>contains_key\<close> and the iteration order.\<close>

fun bt_insert :: "'k::linorder \<Rightarrow> 'v \<Rightarrow> ('k \<times> 'v) list \<Rightarrow> ('k \<times> 'v) list" where
  "bt_insert k v [] = [(k, v)]"
| "bt_insert k v ((k', v') # m) =
     (if k < k' then (k, v) # (k', v') # m
      else if k = k' then (k, v) # m
      else (k', v') # bt_insert k v m)"

fun bt_of_list :: "('k::linorder \<times> 'v) list \<Rightarrow> ('k \<times> 'v) list \<Rightarrow> ('k \<times> 'v) list" where
  "bt_of_list m [] = m"
| "bt_of_list m ((k, v) # xs) = bt_of_list (bt_insert k v m) xs"

definition bt_sorted :: "('k::linorder \<times> 'v) list \<Rightarrow> bool" where
  "bt_sorted m \<longleftrightarrow> sorted_wrt (<) (map fst m)"

lemma bt_sorted_Nil [simp]: "bt_sorted []"
  by (simp add: bt_sorted_def)

lemma fst_set_bt_insert [simp]: "fst ` set (bt_insert k v m) = insert k (fst ` set m)"
  by (induction k v m rule: bt_insert.induct) auto

lemma bt_sorted_insert [simp]: "bt_sorted m \<Longrightarrow> bt_sorted (bt_insert k v m)"
  unfolding bt_sorted_def
proof (induction k v m rule: bt_insert.induct)
  case (2 k v k' v' m)
  have keys: "set (map fst (bt_insert k v m)) = insert k (fst ` set m)" by simp
  from 2 keys show ?case by auto
qed simp

lemma map_of_bt_insert [simp]: "bt_sorted m \<Longrightarrow> map_of (bt_insert k v m) = (map_of m)(k \<mapsto> v)"
  unfolding bt_sorted_def
  by (induction k v m rule: bt_insert.induct)
     (auto simp: fun_eq_iff map_of_eq_None_iff intro!: map_of_eq_None_iff[THEN iffD2, symmetric])

lemma bt_sorted_distinct: "bt_sorted m \<Longrightarrow> distinct (map fst m)"
  by (simp add: bt_sorted_def strict_sorted_iff)

lemma bt_sorted_of_list [simp]: "bt_sorted m \<Longrightarrow> bt_sorted (bt_of_list m xs)"
  by (induction m xs rule: bt_of_list.induct) simp_all

lemma map_of_bt_of_list: "bt_sorted m \<Longrightarrow> map_of (bt_of_list m xs) = map_of m ++ map_of (rev xs)"
  by (induction m xs rule: bt_of_list.induct) (auto simp: map_add_def fun_eq_iff split: option.splits)

lemma fst_set_bt_of_list [simp]: "fst ` set (bt_of_list m xs) = fst ` set m \<union> fst ` set xs"
  by (induction m xs rule: bt_of_list.induct) auto

text \<open>Updating the value of a present key, as \<open>get_mut\<close> and \<open>values_mut\<close> do.\<close>

definition bt_update :: "'k \<Rightarrow> 'v \<Rightarrow> ('k \<times> 'v) list \<Rightarrow> ('k \<times> 'v) list" where
  "bt_update k v m = map (\<lambda>(k', v'). (k', if k' = k then v else v')) m"

lemma map_fst_bt_update [simp]: "map fst (bt_update k v m) = map fst m"
  by (induction m) (auto simp: bt_update_def)

lemma bt_sorted_update [simp]: "bt_sorted (bt_update k v m) = bt_sorted m"
  by (simp add: bt_sorted_def)

lemma map_of_bt_update:
  "map_of (bt_update k v m) = (\<lambda>x. if x = k \<and> map_of m k \<noteq> None then Some v else map_of m x)"
  by (induction m) (auto simp: bt_update_def fun_eq_iff)

section \<open>Deterministic machines\<close>

text \<open>
  A component with operations is a step function on its state. An invariant that the initial state
  has and every operation keeps holds after any sequence of operations.
\<close>

fun run_ops :: "('s \<Rightarrow> 'op \<Rightarrow> 's) \<Rightarrow> 's \<Rightarrow> 'op list \<Rightarrow> 's" where
  "run_ops step s [] = s"
| "run_ops step s (x # xs) = run_ops step (step s x) xs"

lemma run_ops_append [simp]: "run_ops step s (xs @ ys) = run_ops step (run_ops step s xs) ys"
  by (induction xs arbitrary: s) simp_all

locale machine =
  fixes init :: 's
    and step :: "'s \<Rightarrow> 'op \<Rightarrow> 's"
    and inv :: "'s \<Rightarrow> bool"
  assumes inv_init: "inv init"
    and inv_step: "inv s \<Longrightarrow> inv (step s x)"
begin

lemma inv_run_from: "inv s \<Longrightarrow> inv (run_ops step s xs)"
  by (induction xs arbitrary: s) (simp_all add: inv_step)

lemma inv_run: "inv (run_ops step init xs)"
  by (rule inv_run_from) (rule inv_init)

end

section \<open>Codecs\<close>

text \<open>A pair of an encoder and a fallible decoder that inverts it on the well-formed values.\<close>

locale codec =
  fixes enc :: "'a \<Rightarrow> 'b"
    and dec :: "'b \<Rightarrow> 'e + 'a"
    and wf :: "'a \<Rightarrow> bool"
  assumes dec_enc: "wf x \<Longrightarrow> dec (enc x) = Inr x"
begin

lemma enc_inject: "wf x \<Longrightarrow> wf y \<Longrightarrow> enc x = enc y \<longleftrightarrow> x = y"
  by (metis dec_enc sum.inject(2))

lemma dec_list: "list_all wf xs \<Longrightarrow> try_map dec (map enc xs) = Inr xs"
  by (induction xs) (simp_all add: dec_enc)

end

end
