(* ===== verification/Utf8.thy ===== *)
theory Utf8
  imports Prelude
begin

text \<open>
  The part of Rust's \<open>str\<close> and \<open>char\<close> that the code uses: UTF-8 validity as \<open>core::str::from_utf8\<close>
  decides it (with \<open>valid_up_to\<close> and \<open>error_len\<close> of its error), character boundaries, decoding into
  scalar values, \<open>len_utf8\<close> and \<open>len_utf16\<close>. Nothing here is code of the repository: the theory gives
  the standard library's documented meaning, and the lemmas that the components share.
\<close>

type_synonym scalar = nat

definition byte_val :: "char \<Rightarrow> nat" where
  "byte_val b = of_char b"

definition ch :: "char \<Rightarrow> scalar" where
  "ch b = of_char b"

lemma byte_val_lt [simp]: "byte_val b < 256"
  by (simp add: byte_val_def)

lemma byte_val_char_of [simp]: "n < 256 \<Longrightarrow> byte_val (char_of n) = n"
  by (simp add: byte_val_def)

lemma char_of_byte_val [simp]: "char_of (byte_val b) = b"
  by (simp add: byte_val_def)

lemma byte_val_inject [simp]: "byte_val a = byte_val b \<longleftrightarrow> a = b"
  by (metis char_of_byte_val)

section \<open>Bytes\<close>

definition is_cont :: "char \<Rightarrow> bool" where
  "is_cont b \<longleftrightarrow> 128 \<le> byte_val b \<and> byte_val b < 192"

definition is_ascii :: "char \<Rightarrow> bool" where
  "is_ascii b \<longleftrightarrow> byte_val b < 128"

definition utf8_width :: "char \<Rightarrow> nat" where
  "utf8_width b =
     (if byte_val b < 128 then 1 else if byte_val b < 224 then 2
      else if byte_val b < 240 then 3 else 4)"

lemma utf8_width_pos [simp]: "0 < utf8_width b"
  by (simp add: utf8_width_def)

lemma utf8_width_ascii [simp]: "is_ascii b \<Longrightarrow> utf8_width b = 1"
  by (simp add: utf8_width_def is_ascii_def)

lemma is_ascii_not_cont [simp]: "is_ascii b \<Longrightarrow> \<not> is_cont b"
  by (simp add: is_ascii_def is_cont_def)

text \<open>The ASCII classes of \<open>u8\<close>.\<close>

definition is_ascii_digit :: "char \<Rightarrow> bool" where
  "is_ascii_digit b \<longleftrightarrow> 48 \<le> byte_val b \<and> byte_val b \<le> 57"

definition is_ascii_alphabetic :: "char \<Rightarrow> bool" where
  "is_ascii_alphabetic b \<longleftrightarrow>
     (65 \<le> byte_val b \<and> byte_val b \<le> 90) \<or> (97 \<le> byte_val b \<and> byte_val b \<le> 122)"

definition is_ascii_alphanumeric :: "char \<Rightarrow> bool" where
  "is_ascii_alphanumeric b \<longleftrightarrow> is_ascii_alphabetic b \<or> is_ascii_digit b"

definition is_ascii_hexdigit :: "char \<Rightarrow> bool" where
  "is_ascii_hexdigit b \<longleftrightarrow> is_ascii_digit b \<or>
     (65 \<le> byte_val b \<and> byte_val b \<le> 70) \<or> (97 \<le> byte_val b \<and> byte_val b \<le> 102)"

lemma ascii_classes [simp]:
  "is_ascii_digit b \<Longrightarrow> is_ascii b"
  "is_ascii_alphabetic b \<Longrightarrow> is_ascii b"
  "is_ascii_alphanumeric b \<Longrightarrow> is_ascii b"
  "is_ascii_hexdigit b \<Longrightarrow> is_ascii b"
  by (auto simp: is_ascii_def is_ascii_digit_def is_ascii_alphabetic_def is_ascii_alphanumeric_def
      is_ascii_hexdigit_def)

section \<open>Scalar values\<close>

definition is_scalar :: "nat \<Rightarrow> bool" where
  "is_scalar c \<longleftrightarrow> c < 0xD800 \<or> (0xE000 \<le> c \<and> c < 0x110000)"

definition utf8_encode :: "scalar \<Rightarrow> string" where
  "utf8_encode c =
     (if c < 0x80 then [char_of c]
      else if c < 0x800 then [char_of (192 + c div 64), char_of (128 + c mod 64)]
      else if c < 0x10000 then
        [char_of (224 + c div 4096), char_of (128 + c div 64 mod 64), char_of (128 + c mod 64)]
      else
        [char_of (240 + c div 262144), char_of (128 + c div 4096 mod 64),
         char_of (128 + c div 64 mod 64), char_of (128 + c mod 64)])"

definition len_utf8 :: "scalar \<Rightarrow> nat" where
  "len_utf8 c = (if c < 0x80 then 1 else if c < 0x800 then 2 else if c < 0x10000 then 3 else 4)"

definition len_utf16 :: "scalar \<Rightarrow> nat" where
  "len_utf16 c = (if c < 0x10000 then 1 else 2)"

lemma length_utf8_encode [simp]: "length (utf8_encode c) = len_utf8 c"
  by (simp add: utf8_encode_def len_utf8_def)

lemma len_utf8_pos [simp]: "0 < len_utf8 c"
  by (simp add: len_utf8_def)

lemma len_utf16_pos [simp]: "0 < len_utf16 c"
  by (simp add: len_utf16_def)

lemma utf8_encode_neq_Nil [simp]: "utf8_encode c \<noteq> []"
  by (simp add: utf8_encode_def)

lemma utf8_encode_shape:
  assumes "is_scalar c"
  shows "\<exists>b cs. utf8_encode c = b # cs \<and> \<not> is_cont b \<and> (\<forall>x \<in> set cs. is_cont x) \<and>
    utf8_width b = Suc (length cs)"
proof -
  have "c div 64 < 32" if "c < 0x800" using that by simp
  moreover have "2 \<le> c div 64" if "0x80 \<le> c" using that by simp
  moreover have "c div 4096 < 16" if "c < 0x10000" using that by simp
  moreover have "c div 262144 < 5" using assms by (auto simp: is_scalar_def)
  ultimately show ?thesis
    by (auto simp: utf8_encode_def is_cont_def utf8_width_def)
qed

section \<open>Decoding one scalar value\<close>

definition second3 :: "nat \<Rightarrow> nat \<Rightarrow> bool" where
  "second3 x y \<longleftrightarrow> 128 \<le> y \<and> y < 192 \<and> (x = 224 \<longrightarrow> 160 \<le> y) \<and> (x = 237 \<longrightarrow> y < 160)"

definition second4 :: "nat \<Rightarrow> nat \<Rightarrow> bool" where
  "second4 x y \<longleftrightarrow> 128 \<le> y \<and> y < 192 \<and> (x = 240 \<longrightarrow> 144 \<le> y) \<and> (x = 244 \<longrightarrow> y < 144)"

text \<open>
  One step of the validator: \<open>Inr (c, w)\<close> for a scalar value of \<open>w\<close> bytes, \<open>Inl e\<close> for an error whose
  \<open>error_len\<close> is \<open>e\<close> (\<open>None\<close> when the text ends inside a sequence that more bytes could complete).
\<close>

fun utf8_head :: "string \<Rightarrow> nat option + (scalar \<times> nat)" where
  "utf8_head [] = Inl None"
| "utf8_head (a # s) =
     (let x = byte_val a in
      if x < 128 then Inr (x, 1)
      else if 194 \<le> x \<and> x < 224 then
        (case s of
           [] \<Rightarrow> Inl None
         | b # _ \<Rightarrow>
             if is_cont b then Inr ((x - 192) * 64 + (byte_val b - 128), 2) else Inl (Some 1))
      else if 224 \<le> x \<and> x < 240 then
        (case s of
           [] \<Rightarrow> Inl None
         | b # s' \<Rightarrow>
             if \<not> second3 x (byte_val b) then Inl (Some 1)
             else (case s' of
                     [] \<Rightarrow> Inl None
                   | c # _ \<Rightarrow>
                       if is_cont c
                       then Inr ((x - 224) * 4096 + (byte_val b - 128) * 64 + (byte_val c - 128), 3)
                       else Inl (Some 2)))
      else if 240 \<le> x \<and> x < 245 then
        (case s of
           [] \<Rightarrow> Inl None
         | b # s' \<Rightarrow>
             if \<not> second4 x (byte_val b) then Inl (Some 1)
             else (case s' of
                     [] \<Rightarrow> Inl None
                   | c # s'' \<Rightarrow>
                       if \<not> is_cont c then Inl (Some 2)
                       else (case s'' of
                               [] \<Rightarrow> Inl None
                             | d # _ \<Rightarrow>
                                 if is_cont d
                                 then Inr ((x - 240) * 262144 + (byte_val b - 128) * 4096
                                           + (byte_val c - 128) * 64 + (byte_val d - 128), 4)
                                 else Inl (Some 3))))
      else Inl (Some 1))"

lemma utf8_split2:
  assumes "(y::nat) < 64"
  shows "(p * 64 + y) div 64 = p" and "(p * 64 + y) mod 64 = y"
  using assms by simp_all

lemma utf8_split3:
  assumes "(y::nat) < 64" and "z < 64"
  shows "(p * 4096 + y * 64 + z) div 4096 = p"
    and "(p * 4096 + y * 64 + z) div 64 mod 64 = y"
    and "(p * 4096 + y * 64 + z) mod 64 = z"
proof -
  have eq: "p * 4096 + y * 64 + z = (p * 64 + y) * 64 + z" by simp
  have "(p * 4096 + y * 64 + z) div 64 = p * 64 + y"
    unfolding eq using assms by (simp only: utf8_split2)
  then show "(p * 4096 + y * 64 + z) div 64 mod 64 = y" using assms by simp
  show "(p * 4096 + y * 64 + z) mod 64 = z" unfolding eq using assms by (simp only: utf8_split2)
  have "y * 64 + z < 4096" using assms by simp
  then show "(p * 4096 + y * 64 + z) div 4096 = p" by (simp add: add.assoc)
qed

lemma utf8_split4:
  assumes "(y::nat) < 64" and "z < 64" and "w < 64"
  shows "(p * 262144 + y * 4096 + z * 64 + w) div 262144 = p"
    and "(p * 262144 + y * 4096 + z * 64 + w) div 4096 mod 64 = y"
    and "(p * 262144 + y * 4096 + z * 64 + w) div 64 mod 64 = z"
    and "(p * 262144 + y * 4096 + z * 64 + w) mod 64 = w"
proof -
  have eq: "p * 262144 + y * 4096 + z * 64 + w = (p * 64 + y) * 4096 + z * 64 + w" by simp
  show "(p * 262144 + y * 4096 + z * 64 + w) div 64 mod 64 = z"
    and "(p * 262144 + y * 4096 + z * 64 + w) mod 64 = w"
    unfolding eq using assms by (simp_all only: utf8_split3)
  have "(p * 262144 + y * 4096 + z * 64 + w) div 4096 = p * 64 + y"
    unfolding eq using assms by (simp only: utf8_split3)
  then show "(p * 262144 + y * 4096 + z * 64 + w) div 4096 mod 64 = y" using assms by simp
  have "y * 4096 + z * 64 + w < 262144" using assms by simp
  then show "(p * 262144 + y * 4096 + z * 64 + w) div 262144 = p" by (simp add: add.assoc)
qed

lemma byte_shift: "k \<le> byte_val b \<Longrightarrow> char_of (k + (byte_val b - k)) = b"
  by simp

lemma is_contD:
  assumes "is_cont b"
  shows "byte_val b - 128 < 64" and "char_of (128 + (byte_val b - 128)) = b"
  using assms by (auto simp: is_cont_def)

text \<open>A decoded value is a scalar value, and encoding it gives back the bytes.\<close>

lemma utf8_head_two:
  assumes "194 \<le> byte_val a" and "byte_val a < 224" and b: "is_cont b"
  defines "c \<equiv> (byte_val a - 192) * 64 + (byte_val b - 128)"
  shows "is_scalar c \<and> utf8_encode c = [a, b]"
proof -
  note b' = is_contD [OF b]
  have "c div 64 = byte_val a - 192" "c mod 64 = byte_val b - 128"
    unfolding c_def using b'(1) by (simp_all only: utf8_split2)
  moreover have "0x80 \<le> c" "c < 0x800" unfolding c_def using assms(1,2) b'(1) by simp_all
  ultimately show ?thesis using assms(1,2) b'(2) by (simp add: utf8_encode_def is_scalar_def)
qed

lemma utf8_head_three:
  assumes "224 \<le> byte_val a" and "byte_val a < 240" and b: "second3 (byte_val a) (byte_val b)"
    and d: "is_cont d"
  defines "c \<equiv> (byte_val a - 224) * 4096 + (byte_val b - 128) * 64 + (byte_val d - 128)"
  shows "is_scalar c \<and> utf8_encode c = [a, b, d]"
proof -
  have bc: "is_cont b" using b by (simp add: second3_def is_cont_def)
  note b' = is_contD [OF bc] and d' = is_contD [OF d]
  have "c div 4096 = byte_val a - 224" "c div 64 mod 64 = byte_val b - 128"
    "c mod 64 = byte_val d - 128"
    unfolding c_def using b'(1) d'(1) by (simp_all only: utf8_split3)
  moreover have "0x800 \<le> c" "c < 0x10000"
    unfolding c_def using assms(1,2) b b'(1) d'(1) by (auto simp: second3_def)
  moreover have "c < 0xD800 \<or> 0xE000 \<le> c"
  proof (cases "byte_val a = 237")
    case True
    with b have "byte_val b - 128 < 32" by (auto simp: second3_def)
    with True d'(1) show ?thesis unfolding c_def by simp
  next
    case False
    then have "byte_val a - 224 \<le> 12 \<or> 14 \<le> byte_val a - 224" by linarith
    then show ?thesis unfolding c_def using b'(1) d'(1) by linarith
  qed
  ultimately show ?thesis
    using assms(1,2) b'(2) d'(2) by (simp add: utf8_encode_def is_scalar_def)
qed

lemma utf8_head_four:
  assumes "240 \<le> byte_val a" and "byte_val a < 245" and b: "second4 (byte_val a) (byte_val b)"
    and d: "is_cont d" and e: "is_cont e"
  defines "c \<equiv> (byte_val a - 240) * 262144 + (byte_val b - 128) * 4096 + (byte_val d - 128) * 64
    + (byte_val e - 128)"
  shows "is_scalar c \<and> utf8_encode c = [a, b, d, e]"
proof -
  have bc: "is_cont b" using b by (simp add: second4_def is_cont_def)
  note b' = is_contD [OF bc] and d' = is_contD [OF d] and e' = is_contD [OF e]
  have "c div 262144 = byte_val a - 240" "c div 4096 mod 64 = byte_val b - 128"
    "c div 64 mod 64 = byte_val d - 128" "c mod 64 = byte_val e - 128"
    unfolding c_def using b'(1) d'(1) e'(1) by (simp_all only: utf8_split4)
  moreover have "0x10000 \<le> c" "c < 0x110000"
    unfolding c_def using assms(1,2) b b'(1) d'(1) e'(1) by (auto simp: second4_def)
  ultimately show ?thesis
    using assms(1,2) b'(2) d'(2) e'(2) by (simp add: utf8_encode_def is_scalar_def)
qed

lemma utf8_headD:
  assumes "utf8_head s = Inr (c, w)"
  shows "is_scalar c \<and> w = len_utf8 c \<and> (\<exists>r. s = utf8_encode c @ r)"
proof -
  from assms obtain a t where s: "s = a # t" by (cases s) auto
  consider (one) "byte_val a < 128" | (two) "194 \<le> byte_val a" "byte_val a < 224"
    | (three) "224 \<le> byte_val a" "byte_val a < 240"
    | (four) "240 \<le> byte_val a" "byte_val a < 245"
    | (bad) "128 \<le> byte_val a" "byte_val a < 194 \<or> 245 \<le> byte_val a"
    by linarith
  then have "is_scalar c \<and> (\<exists>r. s = utf8_encode c @ r) \<and> w = length (utf8_encode c)"
  proof cases
    case one
    with assms s have "c = byte_val a" "w = 1" by simp_all
    with one s show ?thesis by (simp add: is_scalar_def utf8_encode_def)
  next
    case two
    with assms s obtain b r where "t = b # r" "is_cont b" "w = 2"
      "c = (byte_val a - 192) * 64 + (byte_val b - 128)"
      by (cases t) (simp_all split: if_splits)
    with utf8_head_two [OF two \<open>is_cont b\<close>] s show ?thesis by simp
  next
    case three
    with assms s obtain b d r where "t = b # d # r" "second3 (byte_val a) (byte_val b)" "is_cont d"
      "w = 3" "c = (byte_val a - 224) * 4096 + (byte_val b - 128) * 64 + (byte_val d - 128)"
      by (auto simp: Let_def split: if_splits list.splits)
    with utf8_head_three [OF three \<open>second3 _ _\<close> \<open>is_cont d\<close>] s show ?thesis by simp
  next
    case four
    with assms s obtain b d e r where "t = b # d # e # r" "second4 (byte_val a) (byte_val b)"
      "is_cont d" "is_cont e" "w = 4"
      "c = (byte_val a - 240) * 262144 + (byte_val b - 128) * 4096 + (byte_val d - 128) * 64
        + (byte_val e - 128)"
      by (auto simp: Let_def split: if_splits list.splits)
    with utf8_head_four [OF four \<open>second4 _ _\<close> \<open>is_cont d\<close> \<open>is_cont e\<close>] s
    show ?thesis by simp
  next
    case bad
    with assms s show ?thesis by auto
  qed
  then show ?thesis by simp
qed

lemma utf8_join2: "(c::nat) div 64 * 64 + c mod 64 = c"
  by (rule div_mult_mod_eq)

lemma utf8_join3: "(c::nat) div 4096 * 4096 + c div 64 mod 64 * 64 + c mod 64 = c"
proof -
  have "c div 4096 = c div 64 div 64" by (simp add: div_mult2_eq [symmetric])
  then have "c div 4096 * 64 + c div 64 mod 64 = c div 64" by (simp only: utf8_join2)
  moreover have "c div 64 * 64 + c mod 64 = c" by (rule utf8_join2)
  ultimately show ?thesis by linarith
qed

lemma utf8_join4:
  "(c::nat) div 262144 * 262144 + c div 4096 mod 64 * 4096 + c div 64 mod 64 * 64 + c mod 64 = c"
proof -
  have "c div 262144 = c div 4096 div 64" by (simp add: div_mult2_eq [symmetric])
  then have "c div 262144 * 64 + c div 4096 mod 64 = c div 4096" by (simp only: utf8_join2)
  moreover have "c div 4096 * 4096 + c div 64 mod 64 * 64 + c mod 64 = c" by (rule utf8_join3)
  ultimately show ?thesis by linarith
qed

lemma utf8_head_encode:
  assumes "is_scalar c"
  shows "utf8_head (utf8_encode c @ r) = Inr (c, len_utf8 c)"
proof -
  consider (one) "c < 0x80" | (two) "0x80 \<le> c" "c < 0x800" | (three) "0x800 \<le> c" "c < 0x10000"
    | (four) "0x10000 \<le> c" "c < 0x110000"
    using assms unfolding is_scalar_def by linarith
  then show ?thesis
  proof cases
    case one
    then show ?thesis by (simp add: utf8_encode_def len_utf8_def)
  next
    case two
    then have "2 \<le> c div 64" "c div 64 < 32" by simp_all
    with two show ?thesis
      by (simp add: utf8_encode_def len_utf8_def is_cont_def utf8_join2)
  next
    case three
    let ?p = "c div 4096" and ?q = "c div 64 mod 64" and ?r = "c mod 64"
    have p: "?p < 16" using three by simp
    have join: "?p * 4096 + ?q * 64 + ?r = c" by (rule utf8_join3)
    have bounds: "?q < 64" "?r < 64" by simp_all
    have low: "?p = 0 \<longrightarrow> 32 \<le> ?q" using join three(1) bounds by linarith
    have mid: "?p = 13 \<longrightarrow> ?q < 32"
    proof
      assume "?p = 13"
      with join bounds have "c < 0xE000" by linarith
      with assms have "c < 0xD800" by (auto simp: is_scalar_def)
      with join \<open>?p = 13\<close> show "?q < 32" by linarith
    qed
    have "second3 (224 + ?p) (128 + ?q)" using low mid bounds by (auto simp: second3_def)
    moreover have "utf8_encode c = [char_of (224 + ?p), char_of (128 + ?q), char_of (128 + ?r)]"
      "len_utf8 c = 3" using three by (simp_all add: utf8_encode_def len_utf8_def)
    ultimately show ?thesis using p bounds join by (simp add: is_cont_def)
  next
    case four
    let ?p = "c div 262144" and ?q = "c div 4096 mod 64" and ?r = "c div 64 mod 64" and ?s = "c mod 64"
    have p: "?p < 5" using four by simp
    have join: "?p * 262144 + ?q * 4096 + ?r * 64 + ?s = c" by (rule utf8_join4)
    have bounds: "?q < 64" "?r < 64" "?s < 64" by simp_all
    have low: "?p = 0 \<longrightarrow> 16 \<le> ?q" using join four(1) bounds by linarith
    have high: "?p = 4 \<longrightarrow> ?q < 16" using join four(2) bounds by linarith
    have "second4 (240 + ?p) (128 + ?q)" using low high bounds by (auto simp: second4_def)
    moreover have "utf8_encode c =
        [char_of (240 + ?p), char_of (128 + ?q), char_of (128 + ?r), char_of (128 + ?s)]"
      "len_utf8 c = 4" using four by (simp_all add: utf8_encode_def len_utf8_def)
    ultimately show ?thesis using p bounds join by (simp add: is_cont_def)
  qed
qed

section \<open>Whole texts\<close>

text \<open>
  The error of \<open>from_utf8\<close>, as \<open>(valid_up_to, error_len)\<close>, or \<open>None\<close> for a valid text; and the scalar
  values of the valid prefix (\<open>chars()\<close> of a valid text).
\<close>

lemma utf8_head_width_pos [termination_simp]: "utf8_head s = Inr (c, w) \<Longrightarrow> 0 < w"
  by (auto dest: utf8_headD)

declare utf8_head.simps(2) [simp del]

function utf8_error :: "string \<Rightarrow> (nat \<times> nat option) option" where
  "utf8_error s =
     (if s = [] then None
      else case utf8_head s of
             Inl e \<Rightarrow> Some (0, e)
           | Inr (c, w) \<Rightarrow> map_option (\<lambda>(n, e). (w + n, e)) (utf8_error (drop w s)))"
  by pat_completeness auto
termination
  by (relation "measure length") (auto dest: utf8_head_width_pos)

declare utf8_error.simps [simp del]

function chars :: "string \<Rightarrow> scalar list" where
  "chars s = (case utf8_head s of Inl _ \<Rightarrow> [] | Inr (c, w) \<Rightarrow> c # chars (drop w s))"
  by pat_completeness auto
termination
proof (relation "measure length", goal_cases)
  case (2 s)
  then show ?case by (cases s) (auto dest: utf8_head_width_pos)
qed simp

declare chars.simps [simp del]

definition utf8_valid :: "string \<Rightarrow> bool" where
  "utf8_valid s \<longleftrightarrow> utf8_error s = None"

definition from_utf8 :: "string \<Rightarrow> (nat \<times> nat option) + string" where
  "from_utf8 s = (case utf8_error s of None \<Rightarrow> Inr s | Some e \<Rightarrow> Inl e)"

definition string_of_scalars :: "scalar list \<Rightarrow> string" where
  "string_of_scalars cs = concat (map utf8_encode cs)"

lemma utf8_error_Nil [simp]: "utf8_error [] = None"
  by (simp add: utf8_error.simps)

lemma utf8_error_encode [simp]:
  "is_scalar c \<Longrightarrow> utf8_error (utf8_encode c @ s) =
     map_option (\<lambda>(n, e). (len_utf8 c + n, e)) (utf8_error s)"
  by (simp add: utf8_error.simps [of "utf8_encode c @ s"] utf8_head_encode)

lemma chars_Nil [simp]: "chars [] = []"
  by (simp add: chars.simps)

lemma chars_encode [simp]: "is_scalar c \<Longrightarrow> chars (utf8_encode c @ s) = c # chars s"
  by (simp add: chars.simps [of "utf8_encode c @ s"] utf8_head_encode)

text \<open>The same equations by the shape of the text, which kernel evaluation can follow.\<close>

lemma utf8_error_code [code]:
  "utf8_error [] = None"
  "utf8_error (a # s) =
     (case utf8_head (a # s) of
        Inl e \<Rightarrow> Some (0, e)
      | Inr (c, w) \<Rightarrow> map_option (\<lambda>(n, e). (w + n, e)) (utf8_error (drop w (a # s))))"
  by simp (simp add: utf8_error.simps [of "a # s"])

lemma chars_code [code]:
  "chars [] = []"
  "chars (a # s) =
     (case utf8_head (a # s) of Inl _ \<Rightarrow> [] | Inr (c, w) \<Rightarrow> c # chars (drop w (a # s)))"
  by simp (simp add: chars.simps [of "a # s"])

lemma utf8_valid_Nil [simp]: "utf8_valid []"
  by (simp add: utf8_valid_def)

lemma utf8_valid_encode [simp]:
  "is_scalar c \<Longrightarrow> utf8_valid (utf8_encode c @ s) \<longleftrightarrow> utf8_valid s"
  by (simp add: utf8_valid_def)

lemma utf8_valid_encode_single [simp]: "is_scalar c \<Longrightarrow> utf8_valid (utf8_encode c)"
  using utf8_valid_encode [of c "[]"] by simp

lemma chars_encode_single [simp]: "is_scalar c \<Longrightarrow> chars (utf8_encode c) = [c]"
  using chars_encode [of c "[]"] by simp

text \<open>A valid text is empty, or one encoded scalar value followed by a valid text.\<close>

lemma utf8_valid_cases:
  assumes "utf8_valid s" and "s \<noteq> []"
  obtains c r where "is_scalar c" and "s = utf8_encode c @ r" and "utf8_valid r"
proof -
  from assms obtain c w where hd: "utf8_head s = Inr (c, w)"
    by (cases "utf8_head s") (auto simp: utf8_valid_def utf8_error.simps [of s])
  then obtain r where "is_scalar c" "s = utf8_encode c @ r" by (auto dest: utf8_headD)
  with assms that show thesis by simp
qed

lemma utf8_valid_induct [consumes 1, case_names Nil Encode]:
  assumes "utf8_valid s" and "P []"
    and step: "\<And>c s. is_scalar c \<Longrightarrow> utf8_valid s \<Longrightarrow> P s \<Longrightarrow> P (utf8_encode c @ s)"
  shows "P s"
  using assms(1)
proof (induction s rule: length_induct)
  case (1 s)
  show ?case
  proof (cases "s = []")
    case True
    then show ?thesis using assms(2) by simp
  next
    case False
    with "1.prems" obtain c r where r: "is_scalar c" "s = utf8_encode c @ r" "utf8_valid r"
      by (rule utf8_valid_cases)
    then have "length r < length s" by simp
    with "1.IH" r(3) have "P r" by blast
    with r step show ?thesis by simp
  qed
qed

lemma utf8_valid_append [utf8_facts]:
  "utf8_valid s \<Longrightarrow> utf8_valid t \<Longrightarrow> utf8_valid (s @ t)"
  by (induction s rule: utf8_valid_induct) simp_all

lemma chars_append [utf8_facts]:
  "utf8_valid s \<Longrightarrow> utf8_valid t \<Longrightarrow> chars (s @ t) = chars s @ chars t"
  by (induction s rule: utf8_valid_induct) simp_all

lemma chars_scalar [utf8_facts]: "utf8_valid s \<Longrightarrow> c \<in> set (chars s) \<Longrightarrow> is_scalar c"
  by (induction s rule: utf8_valid_induct) auto

lemma string_of_scalars_simps [simp]:
  "string_of_scalars [] = []"
  "string_of_scalars (c # cs) = utf8_encode c @ string_of_scalars cs"
  "string_of_scalars (cs @ ds) = string_of_scalars cs @ string_of_scalars ds"
  by (simp_all add: string_of_scalars_def)

lemma string_of_scalars_chars [simp]: "utf8_valid s \<Longrightarrow> string_of_scalars (chars s) = s"
  by (induction s rule: utf8_valid_induct) simp_all

lemma chars_string_of_scalars [simp]:
  "\<forall>c \<in> set cs. is_scalar c \<Longrightarrow> chars (string_of_scalars cs) = cs"
  by (induction cs) simp_all

lemma utf8_valid_string_of_scalars [simp]:
  "\<forall>c \<in> set cs. is_scalar c \<Longrightarrow> utf8_valid (string_of_scalars cs)"
  by (induction cs) simp_all

lemma length_string_of_scalars [simp]:
  "length (string_of_scalars cs) = sum_list (map len_utf8 cs)"
  by (induction cs) simp_all

lemma length_sum_chars: "utf8_valid s \<Longrightarrow> length s = sum_list (map len_utf8 (chars s))"
  by (induction s rule: utf8_valid_induct) simp_all

lemma chars_eq_Nil [simp]: "utf8_valid s \<Longrightarrow> chars s = [] \<longleftrightarrow> s = []"
  by (metis chars_Nil string_of_scalars_chars string_of_scalars_simps(1))

section \<open>Character boundaries\<close>

definition is_char_boundary :: "string \<Rightarrow> nat \<Rightarrow> bool" where
  "is_char_boundary s i \<longleftrightarrow> i = 0 \<or> i = length s \<or> (i < length s \<and> \<not> is_cont (s ! i))"

lemma is_char_boundary_le: "is_char_boundary s i \<Longrightarrow> i \<le> length s"
  by (auto simp: is_char_boundary_def)

lemma is_char_boundary_0 [simp]: "is_char_boundary s 0"
  by (simp add: is_char_boundary_def)

lemma is_char_boundary_length [simp]: "is_char_boundary s (length s)"
  by (simp add: is_char_boundary_def)

lemma utf8_valid_hd_not_cont: "utf8_valid s \<Longrightarrow> s \<noteq> [] \<Longrightarrow> \<not> is_cont (hd s)"
  by (erule utf8_valid_cases) (auto dest: utf8_encode_shape)

lemma is_char_boundary_valid_append:
  assumes "utf8_valid t"
  shows "is_char_boundary (s @ t) (length s)"
  using utf8_valid_hd_not_cont [OF assms]
  by (cases t) (auto simp: is_char_boundary_def nth_append)

lemma is_char_boundary_encode:
  assumes "is_scalar c" and "is_char_boundary (utf8_encode c @ s) i" and "0 < i"
  shows "len_utf8 c \<le> i \<and> is_char_boundary s (i - len_utf8 c)"
proof -
  obtain b cs where enc: "utf8_encode c = b # cs" "\<forall>x \<in> set cs. is_cont x"
    using utf8_encode_shape [OF assms(1)] by blast
  have len: "len_utf8 c = Suc (length cs)" using enc(1) length_utf8_encode [of c] by simp
  have "len_utf8 c \<le> i"
  proof (rule ccontr)
    assume "\<not> len_utf8 c \<le> i"
    with assms(3) len have "(utf8_encode c @ s) ! i = cs ! (i - 1)" "i - 1 < length cs"
      by (auto simp: enc(1) nth_append nth_Cons')
    with enc(2) have "is_cont ((utf8_encode c @ s) ! i)" by simp
    with assms(2,3) \<open>\<not> len_utf8 c \<le> i\<close> show False
      by (auto simp: is_char_boundary_def)
  qed
  with assms(2) show ?thesis by (auto simp: is_char_boundary_def nth_append)
qed

lemma utf8_valid_split:
  assumes "utf8_valid s" and "is_char_boundary s i"
  shows "utf8_valid (take i s) \<and> utf8_valid (drop i s)"
  using assms
proof (induction s arbitrary: i rule: utf8_valid_induct)
  case (Encode c s)
  show ?case
  proof (cases "i = 0")
    case True
    with Encode show ?thesis by simp
  next
    case False
    with is_char_boundary_encode [OF Encode.hyps(1) Encode.prems]
    have i: "len_utf8 c \<le> i" "is_char_boundary s (i - len_utf8 c)" by auto
    from Encode.IH [OF i(2)] Encode.hyps i(1) show ?thesis by simp
  qed
qed simp

lemma is_char_boundary_iff:
  "utf8_valid s \<Longrightarrow>
     is_char_boundary s i \<longleftrightarrow> i \<le> length s \<and> utf8_valid (take i s) \<and> utf8_valid (drop i s)"
  using utf8_valid_split [of s i] is_char_boundary_valid_append [of "drop i s" "take i s"]
  by (auto simp: min_def dest: is_char_boundary_le split: if_splits)

lemma utf8_valid_take [utf8_facts]: "utf8_valid s \<Longrightarrow> is_char_boundary s i \<Longrightarrow> utf8_valid (take i s)"
  by (simp add: utf8_valid_split)

lemma utf8_valid_drop [utf8_facts]: "utf8_valid s \<Longrightarrow> is_char_boundary s i \<Longrightarrow> utf8_valid (drop i s)"
  by (simp add: utf8_valid_split)

lemma is_char_boundary_drop:
  assumes "is_char_boundary s j" and "i \<le> j"
  shows "is_char_boundary (drop i s) (j - i)"
  using assms by (auto simp: is_char_boundary_def)

lemma utf8_valid_cut [utf8_facts]:
  assumes "utf8_valid s" and "is_char_boundary s a" and "is_char_boundary s b" and "a \<le> b"
  shows "utf8_valid (cut a b s)"
  unfolding cut_def
  using assms by (intro utf8_valid_take utf8_valid_drop is_char_boundary_drop)

text \<open>One scalar value forward from a boundary is a boundary again.\<close>

lemma advance_boundary:
  assumes "utf8_valid s" and "is_char_boundary s i" and "i < length s"
  shows "i + utf8_width (s ! i) \<le> length s \<and> is_char_boundary s (i + utf8_width (s ! i))"
proof -
  have split: "utf8_valid (take i s)" "utf8_valid (drop i s)" using assms utf8_valid_split by auto
  moreover have "drop i s \<noteq> []" using assms(3) by simp
  ultimately obtain c r where c: "is_scalar c" "drop i s = utf8_encode c @ r" "utf8_valid r"
    by (blast elim: utf8_valid_cases)
  obtain b cs where enc: "utf8_encode c = b # cs" "utf8_width b = Suc (length cs)"
    using utf8_encode_shape [OF c(1)] by blast
  have "s ! i = b" using c(2) enc(1) assms(3) by (metis append_Cons hd_drop_conv_nth list.sel(1))
  then have w: "utf8_width (s ! i) = length (utf8_encode c)" using enc by simp
  have s: "s = (take i s @ utf8_encode c) @ r" using c(2) by (metis append.assoc append_take_drop_id)
  have "length (take i s @ utf8_encode c) = i + utf8_width (s ! i)" using w assms(3) by simp
  with is_char_boundary_valid_append [OF c(3), of "take i s @ utf8_encode c"] s
  show ?thesis by (metis is_char_boundary_le)
qed

lemma advance_ascii:
  assumes "utf8_valid s" and "i < length s" and "is_ascii (s ! i)"
  shows "is_char_boundary s (Suc i)"
proof -
  have "is_char_boundary s i" using assms(2,3) by (simp add: is_char_boundary_def)
  from advance_boundary [OF assms(1) this assms(2)] assms(3) show ?thesis by simp
qed

lemma advance_ascii_prefix:
  assumes "utf8_valid s" and "is_char_boundary s i" and "drop i s = t @ r" and "list_all is_ascii t"
  shows "is_char_boundary s (i + length t)"
proof (cases t rule: rev_cases)
  case Nil
  with assms show ?thesis by simp
next
  case (snoc u b)
  have i: "i \<le> length s" using assms(2) by (rule is_char_boundary_le)
  have len: "length s - i = length u + Suc (length r)"
    using arg_cong [OF assms(3), of length] snoc by simp
  have "drop i s ! length u = b" using assms(3) snoc by simp
  with i len have "s ! (i + length u) = b" "i + length u < length s" by (simp_all add: nth_drop)
  with advance_ascii [OF assms(1), of "i + length u"] assms(4) snoc show ?thesis by simp
qed

lemma advance_starts_with:
  assumes "utf8_valid s" and "is_char_boundary s i" and "starts_with (drop i s) t"
    and "list_all is_ascii t"
  shows "is_char_boundary s (i + length t) \<and> i + length t \<le> length s"
proof -
  from assms(3) obtain r where "drop i s = t @ r" by (auto simp: starts_with_iff)
  from advance_ascii_prefix [OF assms(1,2) this assms(4)] show ?thesis
    by (simp add: is_char_boundary_le)
qed

lemma advance_takeWhile:
  assumes "utf8_valid s" and "is_char_boundary s i" and "\<And>b. P b \<Longrightarrow> is_ascii b"
  shows "is_char_boundary s (i + length (takeWhile P (drop i s)))"
proof (rule advance_ascii_prefix [OF assms(1,2)])
  show "drop i s = takeWhile P (drop i s) @ dropWhile P (drop i s)" by simp
  show "list_all is_ascii (takeWhile P (drop i s))"
    using assms(3) by (auto simp: list_all_iff dest: set_takeWhileD)
qed

text \<open>\<open>&text[a..b]\<close> on a range that nothing has checked: \<open>None\<close> is the panic.\<close>

definition slice_str :: "string \<Rightarrow> nat \<Rightarrow> nat \<Rightarrow> string option" where
  "slice_str s a b =
     (if a \<le> b \<and> is_char_boundary s a \<and> is_char_boundary s b then Some (cut a b s) else None)"

lemma slice_str_eq_Some [simp]:
  "slice_str s a b = Some t \<longleftrightarrow>
     a \<le> b \<and> is_char_boundary s a \<and> is_char_boundary s b \<and> t = cut a b s"
  by (auto simp: slice_str_def)

text \<open>ASCII text is valid, and its bytes are its scalar values.\<close>

lemma utf8_encode_ascii: "is_ascii b \<Longrightarrow> utf8_encode (byte_val b) = [b]"
  by (simp add: utf8_encode_def is_ascii_def)

lemma utf8_valid_Cons_ascii [simp]: "is_ascii b \<Longrightarrow> utf8_valid (b # s) = utf8_valid s"
  using utf8_valid_encode [of "byte_val b" s]
  by (simp add: utf8_encode_ascii) (simp add: is_scalar_def is_ascii_def)

lemma chars_Cons_ascii [simp]: "is_ascii b \<Longrightarrow> chars (b # s) = byte_val b # chars s"
  using chars_encode [of "byte_val b" s]
  by (simp add: utf8_encode_ascii) (simp add: is_scalar_def is_ascii_def)

lemma utf8_valid_ascii [simp]: "list_all is_ascii s \<Longrightarrow> utf8_valid s"
  by (induction s) simp_all

text \<open>\<open>u32::from_str_radix(text, 16)\<close>: one leading plus sign is accepted, overflow is an error.\<close>

definition hex_value :: "char \<Rightarrow> nat" where
  "hex_value b =
     (if byte_val b \<le> 57 then byte_val b - 48
      else if byte_val b \<le> 70 then byte_val b - 55 else byte_val b - 87)"

definition hex_number :: "string \<Rightarrow> nat" where
  "hex_number s = foldl (\<lambda>n b. n * 16 + hex_value b) 0 s"

definition u32_from_hex :: "string \<Rightarrow> nat option" where
  "u32_from_hex s =
     (let ds = (case s of [] \<Rightarrow> [] | b # r \<Rightarrow> if b = CHR ''+'' \<and> r \<noteq> [] then r else s)
      in if ds = [] \<or> \<not> list_all is_ascii_hexdigit ds then None
         else if hex_number ds < 2 ^ 32 then Some (hex_number ds) else None)"

end
