(* ===== verification/Source.thy ===== *)
theory Source
  imports Utf8 "HOL-Library.Word"
begin

text \<open>
  \<open>crates/flash-syntax/src/source.rs\<close>: source identities, half-open byte spans, the line index and the
  conversions between byte offsets, one-based locations and zero-based editor positions.

  The line index is computed by \<open>line_scan\<close>, one recursion over the bytes as in the constructor's
  loop. The lemmas give the starts of the lines (after the newlines), show that every line's bounds
  are character boundaries (so no slice of the file panics), identify the line of an offset with the
  number of newlines before it, and prove that a byte offset survives the trip to an editor position
  and back under both encodings.
\<close>

section \<open>Identities, spans and positions\<close>

datatype source_id = SourceId (source_id_get: "32 word")

instantiation source_id :: linorder
begin

definition less_eq_source_id :: "source_id \<Rightarrow> source_id \<Rightarrow> bool" where
  "less_eq_source_id a b \<longleftrightarrow> source_id_get a \<le> source_id_get b"

definition less_source_id :: "source_id \<Rightarrow> source_id \<Rightarrow> bool" where
  "less_source_id a b \<longleftrightarrow> source_id_get a < source_id_get b"

instance
  by standard
    (auto simp: less_eq_source_id_def less_source_id_def intro: source_id.expand)

end

record span =
  span_source_id :: source_id
  span_start :: nat
  span_end :: nat

definition span_len :: "span \<Rightarrow> nat" where
  "span_len s = span_end s - span_start s"

definition span_is_empty :: "span \<Rightarrow> bool" where
  "span_is_empty s \<longleftrightarrow> span_start s = span_end s"

record line_column =
  lc_line :: nat
  lc_column :: nat

datatype position_encoding = EncUtf8 | EncUtf16

record text_position =
  tp_line :: nat
  tp_character :: nat

record text_range =
  tr_start :: text_position
  tr_end :: text_position

record line =
  line_start :: nat
  content_end :: nat

record line_index =
  lines :: "line list"

record source_file =
  sf_id :: source_id
  sf_name :: string
  sf_text :: string
  sf_line_index :: line_index

datatype span_error =
    Reversed nat nat
  | OutOfBounds nat nat
  | NotCharBoundary nat
  | WrongSource source_id source_id

datatype position_error =
    ByteOutOfBounds nat nat
  | NotUtf8Boundary nat
  | LineOutOfBounds nat nat
  | CharacterOutOfBounds nat nat nat
  | InsideUtf16Scalar nat nat
  | InvalidSpan span_error

section \<open>The line index\<close>

text \<open>The loop of \<open>LineIndex::new\<close>: \<open>st\<close> is the start of the current line, \<open>i\<close> the current byte.\<close>

fun line_scan :: "string \<Rightarrow> nat \<Rightarrow> nat \<Rightarrow> string \<Rightarrow> line list" where
  "line_scan text st i [] = [\<lparr>line_start = st, content_end = length text\<rparr>]"
| "line_scan text st i (b # bs) =
     (if b \<noteq> NL then line_scan text st (Suc i) bs
      else
        (let e = (if st < i \<and> text ! (i - 1) = CR then i - 1 else i)
         in \<lparr>line_start = st, content_end = e\<rparr> # line_scan text (Suc i) (Suc i) bs))"

definition line_index_new :: "string \<Rightarrow> line_index" where
  "line_index_new text = \<lparr>lines = line_scan text 0 0 text\<rparr>"

definition line_count :: "line_index \<Rightarrow> nat" where
  "line_count ix = length (lines ix)"

definition validate_offset :: "string \<Rightarrow> nat \<Rightarrow> span_error + unit" where
  "validate_offset text offset =
     (if length text < offset then Inl (OutOfBounds offset (length text))
      else if \<not> is_char_boundary text offset then Inl (NotCharBoundary offset)
      else Inr ())"

text \<open>\<open>partition_point(|line| line.start <= offset).saturating_sub(1)\<close>.\<close>

definition line_of_offset :: "line_index \<Rightarrow> nat \<Rightarrow> nat" where
  "line_of_offset ix offset = length (takeWhile (\<lambda>l. line_start l \<le> offset) (lines ix)) - 1"

definition index_location :: "line_index \<Rightarrow> string \<Rightarrow> nat \<Rightarrow> span_error + line_column" where
  "index_location ix text offset =
     and_then (validate_offset text offset) (\<lambda>_.
       let n = line_of_offset ix offset;
           line = lines ix ! n;
           column_end = min offset (content_end line)
       in Inr \<lparr>lc_line = n + 1,
               lc_column = length (chars (cut (line_start line) column_end text)) + 1\<rparr>)"

definition index_line :: "line_index \<Rightarrow> nat \<Rightarrow> line option" where
  "index_line ix one_based = (if one_based = 0 then None else get_nth (lines ix) (one_based - 1))"

definition index_text_position ::
  "line_index \<Rightarrow> string \<Rightarrow> nat \<Rightarrow> position_encoding \<Rightarrow> position_error + text_position" where
  "index_text_position ix text offset enc =
     (if length text < offset then Inl (ByteOutOfBounds offset (length text))
      else if \<not> is_char_boundary text offset then Inl (NotUtf8Boundary offset)
      else
        (let n = line_of_offset ix offset;
             line = lines ix ! n;
             prefix = cut (line_start line) (min offset (content_end line)) text
         in Inr \<lparr>tp_line = n,
                 tp_character =
                   (case enc of
                      EncUtf8 \<Rightarrow> length prefix
                    | EncUtf16 \<Rightarrow> sum_list (map len_utf16 (chars prefix)))\<rparr>))"

text \<open>The UTF-16 loop over \<open>char_indices\<close>: \<open>Inl\<close> leaves the function, \<open>Inr\<close> is the final count.\<close>

fun utf16_scan ::
  "nat \<Rightarrow> nat \<Rightarrow> nat \<Rightarrow> nat \<Rightarrow> nat \<Rightarrow> scalar list \<Rightarrow> (position_error + nat) + nat" where
  "utf16_scan n target start units byte [] = Inr units"
| "utf16_scan n target start units byte (c # cs) =
     (if units = target then Inl (Inr (start + byte))
      else if target < units + len_utf16 c then Inl (Inl (InsideUtf16Scalar n target))
      else utf16_scan n target start (units + len_utf16 c) (byte + len_utf8 c) cs)"

definition index_byte_offset ::
  "line_index \<Rightarrow> string \<Rightarrow> text_position \<Rightarrow> position_encoding \<Rightarrow> position_error + nat" where
  "index_byte_offset ix text pos enc =
     (case get_nth (lines ix) (tp_line pos) of
        None \<Rightarrow> Inl (LineOutOfBounds (tp_line pos) (length (lines ix)))
      | Some line \<Rightarrow>
          (let line_text = cut (line_start line) (content_end line) text in
           case enc of
             EncUtf8 \<Rightarrow>
               (if length line_text < tp_character pos then
                  Inl (CharacterOutOfBounds (tp_line pos) (tp_character pos) (length line_text))
                else
                  (let offset = line_start line + tp_character pos in
                   if \<not> is_char_boundary text offset then Inl (NotUtf8Boundary offset)
                   else Inr offset))
           | EncUtf16 \<Rightarrow>
               (case utf16_scan (tp_line pos) (tp_character pos) (line_start line) 0 0
                       (chars line_text) of
                  Inl r \<Rightarrow> r
                | Inr units \<Rightarrow>
                    if units = tp_character pos then Inr (content_end line)
                    else Inl (CharacterOutOfBounds (tp_line pos) (tp_character pos) units))))"

section \<open>Source files\<close>

definition source_file_new :: "source_id \<Rightarrow> string \<Rightarrow> string \<Rightarrow> source_file" where
  "source_file_new i name text =
     \<lparr>sf_id = i, sf_name = name, sf_text = text, sf_line_index = line_index_new text\<rparr>"

definition source_from_bytes ::
  "source_id \<Rightarrow> string \<Rightarrow> string \<Rightarrow> (nat \<times> nat option) + source_file" where
  "source_from_bytes i name bytes =
     and_then (from_utf8 bytes) (\<lambda>text. Inr (source_file_new i name text))"

definition source_len :: "source_file \<Rightarrow> nat" where
  "source_len f = length (sf_text f)"

definition source_is_empty :: "source_file \<Rightarrow> bool" where
  "source_is_empty f \<longleftrightarrow> sf_text f = []"

definition source_span :: "source_file \<Rightarrow> nat \<Rightarrow> nat \<Rightarrow> span_error + span" where
  "source_span f a b =
     (if b < a then Inl (Reversed a b)
      else if length (sf_text f) < b then Inl (OutOfBounds b (length (sf_text f)))
      else
        and_then (validate_offset (sf_text f) a) (\<lambda>_.
          and_then (validate_offset (sf_text f) b) (\<lambda>_.
            Inr \<lparr>span_source_id = sf_id f, span_start = a, span_end = b\<rparr>)))"

definition validate_span :: "source_file \<Rightarrow> span \<Rightarrow> span_error + unit" where
  "validate_span f s =
     (if span_source_id s \<noteq> sf_id f then Inl (WrongSource (sf_id f) (span_source_id s))
      else if span_end s < span_start s then Inl (Reversed (span_start s) (span_end s))
      else if length (sf_text f) < span_end s then
        Inl (OutOfBounds (span_end s) (length (sf_text f)))
      else
        and_then (validate_offset (sf_text f) (span_start s)) (\<lambda>_.
          validate_offset (sf_text f) (span_end s)))"

definition source_slice :: "source_file \<Rightarrow> span \<Rightarrow> span_error + string" where
  "source_slice f s =
     and_then (validate_span f s) (\<lambda>_. Inr (cut (span_start s) (span_end s) (sf_text f)))"

definition source_location :: "source_file \<Rightarrow> nat \<Rightarrow> span_error + line_column" where
  "source_location f offset = index_location (sf_line_index f) (sf_text f) offset"

definition source_text_position ::
  "source_file \<Rightarrow> nat \<Rightarrow> position_encoding \<Rightarrow> position_error + text_position" where
  "source_text_position f offset enc = index_text_position (sf_line_index f) (sf_text f) offset enc"

definition source_byte_offset ::
  "source_file \<Rightarrow> text_position \<Rightarrow> position_encoding \<Rightarrow> position_error + nat" where
  "source_byte_offset f pos enc = index_byte_offset (sf_line_index f) (sf_text f) pos enc"

definition source_text_range ::
  "source_file \<Rightarrow> span \<Rightarrow> position_encoding \<Rightarrow> position_error + text_range" where
  "source_text_range f s enc =
     and_then (map_err InvalidSpan (validate_span f s)) (\<lambda>_.
       and_then (source_text_position f (span_start s) enc) (\<lambda>a.
         and_then (source_text_position f (span_end s) enc) (\<lambda>b.
           Inr \<lparr>tr_start = a, tr_end = b\<rparr>)))"

definition line_text :: "source_file \<Rightarrow> nat \<Rightarrow> string option" where
  "line_text f one_based =
     map_option (\<lambda>l. cut (line_start l) (content_end l) (sf_text f))
       (index_line (sf_line_index f) one_based)"

definition source_line_start :: "source_file \<Rightarrow> nat \<Rightarrow> nat option" where
  "source_line_start f one_based = map_option line_start (index_line (sf_line_index f) one_based)"

definition source_line_content_end :: "source_file \<Rightarrow> nat \<Rightarrow> nat option" where
  "source_line_content_end f one_based =
     map_option content_end (index_line (sf_line_index f) one_based)"

section \<open>Messages\<close>

fun show_span_error :: "span_error \<Rightarrow> string" where
  "show_span_error (Reversed a b) =
     ''span start '' @ show_nat a @ '' is after its end '' @ show_nat b"
| "show_span_error (OutOfBounds b n) =
     ''byte offset '' @ show_nat b @ '' exceeds source length '' @ show_nat n"
| "show_span_error (NotCharBoundary i) =
     ''byte offset '' @ show_nat i @ '' is not a UTF-8 character boundary''"
| "show_span_error (WrongSource expected actual) =
     ''span belongs to source '' @ show_nat (unat (source_id_get actual)) @ '', not source ''
     @ show_nat (unat (source_id_get expected))"

fun show_position_error :: "position_error \<Rightarrow> string" where
  "show_position_error (ByteOutOfBounds offset n) =
     ''byte offset '' @ show_nat offset @ '' exceeds source length '' @ show_nat n"
| "show_position_error (NotUtf8Boundary offset) =
     ''byte offset '' @ show_nat offset @ '' is not a UTF-8 character boundary''"
| "show_position_error (LineOutOfBounds n c) =
     ''zero-based line '' @ show_nat n @ '' exceeds the source'' @ [SQUOTE] @ ''s '' @ show_nat c @ '' lines''"
| "show_position_error (CharacterOutOfBounds n c m) =
     ''character '' @ show_nat c @ '' exceeds line '' @ show_nat n @ [SQUOTE] @ ''s maximum '' @ show_nat m"
| "show_position_error (InsideUtf16Scalar n c) =
     ''UTF-16 character '' @ show_nat c @ '' on line '' @ show_nat n @ '' splits a scalar''"
| "show_position_error (InvalidSpan e) = show_span_error e"

section \<open>The lines of a text\<close>

lemma line_scan_neq_Nil [simp]: "line_scan t st i bs \<noteq> []"
  by (induction bs arbitrary: st i) (auto simp: Let_def)

lemma lines_new_neq_Nil [simp]: "lines (line_index_new t) \<noteq> []"
  by (simp add: line_index_new_def)

lemma line_scan_starts:
  "bs = drop i t \<Longrightarrow> i \<le> length t \<Longrightarrow>
     map line_start (line_scan t st i bs) = st # map Suc [k \<leftarrow> [i..<length t]. t ! k = NL]"
proof (induction bs arbitrary: st i)
  case (Cons b bs)
  then have i: "i < length t" by (metis drop_all linorder_not_less list.distinct(1))
  with Cons.prems have b: "t ! i = b" "bs = drop (Suc i) t"
    by (metis Cons_nth_drop_Suc list.inject)+
  from Cons.IH [OF b(2)] i have IH: "map line_start (line_scan t st' (Suc i) bs)
      = st' # map Suc [k \<leftarrow> [Suc i..<length t]. t ! k = NL]" for st' by simp
  from i have "[i..<length t] = i # [Suc i..<length t]" by (rule upt_conv_Cons)
  with b(1) IH show ?case by (simp add: Let_def)
qed simp

theorem line_starts:
  "map line_start (lines (line_index_new t)) = 0 # map Suc [k \<leftarrow> [0..<length t]. t ! k = NL]"
  using line_scan_starts [of t 0 t 0] by (simp add: line_index_new_def)

definition line_ok :: "string \<Rightarrow> line \<Rightarrow> bool" where
  "line_ok t l \<longleftrightarrow> line_start l \<le> content_end l \<and> is_char_boundary t (line_start l) \<and>
     is_char_boundary t (content_end l)"

lemma newline_ascii [simp]: "is_ascii NL" "is_ascii CR"
  by (simp_all add: is_ascii_def byte_val_def)

lemma ascii_boundary: "i < length t \<Longrightarrow> is_ascii (t ! i) \<Longrightarrow> is_char_boundary t i"
  by (simp add: is_char_boundary_def)

lemma line_scan_ok:
  "utf8_valid t \<Longrightarrow> bs = drop i t \<Longrightarrow> i \<le> length t \<Longrightarrow> st \<le> i \<Longrightarrow> is_char_boundary t st \<Longrightarrow>
     l \<in> set (line_scan t st i bs) \<Longrightarrow> line_ok t l"
proof (induction bs arbitrary: st i)
  case Nil
  then show ?case by (auto simp: line_ok_def)
next
  case (Cons b bs)
  then have i: "i < length t" by (metis drop_all linorder_not_less list.distinct(1))
  with Cons.prems have b: "t ! i = b" "bs = drop (Suc i) t"
    by (metis Cons_nth_drop_Suc list.inject)+
  show ?case
  proof (cases "b = NL")
    case False
    with Cons.prems(6) have l: "l \<in> set (line_scan t st (Suc i) bs)" by simp
    show ?thesis by (rule Cons.IH [OF Cons.prems(1) b(2) _ _ Cons.prems(5) l])
        (use i Cons.prems(4) in simp_all)
  next
    case True
    with b i have nl: "is_char_boundary t i" "is_char_boundary t (Suc i)"
      by (auto intro: ascii_boundary advance_ascii [OF Cons.prems(1)])
    from Cons.prems(6) True consider
        (first) "line_start l = st" "content_end l = (if st < i \<and> t ! (i - 1) = CR then i - 1 else i)"
      | (later) "l \<in> set (line_scan t (Suc i) (Suc i) bs)"
      by (auto simp: Let_def)
    then show ?thesis
    proof cases
      case first
      moreover have "is_char_boundary t (i - 1)" if "t ! (i - 1) = CR"
        using ascii_boundary [of "i - 1" t] that i by simp
      ultimately show ?thesis using Cons.prems(4,5) nl(1) by (auto simp: line_ok_def)
    next
      case later
      with Cons.IH [OF Cons.prems(1) b(2), of "Suc i"] i nl(2) show ?thesis by simp
    qed
  qed
qed

lemma line_index_ok: "utf8_valid t \<Longrightarrow> l \<in> set (lines (line_index_new t)) \<Longrightarrow> line_ok t l"
  using line_scan_ok [of t t 0 0 l] by (simp add: line_index_new_def)

section \<open>The line of an offset\<close>

lemma takeWhile_map_Suc_le:
  assumes "sorted_wrt (<) ks"
  shows "length (takeWhile (\<lambda>k. Suc k \<le> x) ks) = length [k \<leftarrow> ks. k < x]"
  using assms by (induction ks) (auto simp: filter_empty_conv)

lemma count_newlines_take:
  assumes "x \<le> length t"
  shows "length [k \<leftarrow> [0..<length t]. t ! k = c \<and> k < x] = count_list (take x t) c"
proof -
  have "[k \<leftarrow> [0..<length t]. t ! k = c \<and> k < x] = [k \<leftarrow> [0..<x]. t ! k = c]"
  proof -
    have "[0..<length t] = [0..<x] @ [x..<length t]"
      using assms by (metis le0 le_add_diff_inverse upt_add_eq_append)
    moreover have "[k \<leftarrow> [x..<length t]. t ! k = c \<and> k < x] = []" by (auto simp: filter_empty_conv)
    moreover have "[k \<leftarrow> [0..<x]. t ! k = c \<and> k < x] = [k \<leftarrow> [0..<x]. t ! k = c]"
      by (rule filter_cong) auto
    ultimately show ?thesis by simp
  qed
  moreover have "take x t = map (nth t) [0..<x]"
    by (rule nth_equalityI) (use assms in simp_all)
  ultimately show ?thesis
    by (simp add: count_list_eq_length_filter filter_map o_def eq_commute [of c])
qed

lemma line_of_offset_count:
  assumes "x \<le> length t"
  shows "line_of_offset (line_index_new t) x = count_list (take x t) NL"
    and "line_of_offset (line_index_new t) x < length (lines (line_index_new t))"
    and "line_start (lines (line_index_new t) ! line_of_offset (line_index_new t) x) \<le> x"
proof -
  let ?L = "lines (line_index_new t)"
  let ?ks = "[k \<leftarrow> [0..<length t]. t ! k = NL]"
  have "length (takeWhile (\<lambda>l. line_start l \<le> x) ?L) = length (takeWhile (\<lambda>s. s \<le> x) (map line_start ?L))"
    by (simp add: takeWhile_map o_def)
  also have "\<dots> = Suc (length (takeWhile (\<lambda>k. Suc k \<le> x) ?ks))"
    unfolding line_starts by (simp add: takeWhile_map o_def)
  also have "\<dots> = Suc (count_list (take x t) NL)"
    using assms by (simp add: takeWhile_map_Suc_le count_newlines_take sorted_wrt_filter)
  finally have len: "length (takeWhile (\<lambda>l. line_start l \<le> x) ?L) = Suc (count_list (take x t) NL)" .
  then show "line_of_offset (line_index_new t) x = count_list (take x t) NL"
    by (simp add: line_of_offset_def)
  let ?n = "line_of_offset (line_index_new t) x"
  have n: "?n < length (takeWhile (\<lambda>l. line_start l \<le> x) ?L)"
    using len by (simp add: line_of_offset_def)
  then show "?n < length ?L" using length_takeWhile_le less_le_trans by blast
  show "line_start (?L ! ?n) \<le> x"
    using nth_mem [OF n] takeWhile_nth [OF n] by (auto dest: set_takeWhileD)
qed

lemma line_scan_gap:
  "i \<le> length t \<Longrightarrow> bs = drop i t \<Longrightarrow> Suc n < length (line_scan t st i bs) \<Longrightarrow>
     content_end (line_scan t st i bs ! n) < line_start (line_scan t st i bs ! Suc n)"
proof (induction bs arbitrary: st i n)
  case (Cons b bs)
  then have i: "i < length t" by (metis drop_all linorder_not_less list.distinct(1))
  with Cons.prems have b: "bs = drop (Suc i) t" by (metis Cons_nth_drop_Suc list.inject)
  have first: "line_start (line_scan t (Suc i) (Suc i) bs ! 0) = Suc i"
    using arg_cong [OF line_scan_starts [OF b, of "Suc i"], of hd] i
    by (simp add: hd_map hd_conv_nth)
  show ?case
  proof (cases "b = NL")
    case False
    with Cons.IH [OF _ b, of n st] Cons.prems(3) i show ?thesis by simp
  next
    case True
    with Cons.IH [OF _ b, of "n - 1" "Suc i"] Cons.prems(3) i first show ?thesis
      by (cases n) (auto simp: Let_def)
  qed
qed simp

lemma line_starts_less:
  assumes "i < j" and "j < length (lines (line_index_new t))"
  shows "line_start (lines (line_index_new t) ! i) < line_start (lines (line_index_new t) ! j)"
proof -
  have "sorted_wrt (<) (map line_start (lines (line_index_new t)))"
    unfolding line_starts by (auto simp: sorted_wrt_map sorted_wrt_filter)
  with assms show ?thesis by (auto simp: sorted_wrt_iff_nth_less)
qed

lemma line_of_offset_eq:
  assumes n: "n < length (lines (line_index_new t))"
    and lo: "line_start (lines (line_index_new t) ! n) \<le> x"
    and hi: "x \<le> content_end (lines (line_index_new t) ! n)"
  shows "line_of_offset (line_index_new t) x = n"
proof -
  let ?L = "lines (line_index_new t)"
  have "takeWhile (\<lambda>l. line_start l \<le> x) ?L = take (Suc n) ?L"
  proof (rule takeWhile_eq_take_P_nth)
    fix i assume "i < Suc n"
    with lo line_starts_less [of i n t] n show "line_start (?L ! i) \<le> x"
      by (cases "i = n") auto
  next
    assume "Suc n < length ?L"
    then have "content_end (?L ! n) < line_start (?L ! Suc n)"
      using line_scan_gap [of 0 t t n 0] by (simp add: line_index_new_def)
    with hi show "\<not> line_start (?L ! Suc n) \<le> x" by simp
  qed
  with n show ?thesis by (simp add: line_of_offset_def)
qed

section \<open>The UTF-16 scan\<close>

lemma utf16_scan_prefix:
  "target = units + sum_list (map len_utf16 xs) \<Longrightarrow>
     utf16_scan n target start units byte (xs @ ys) =
       (if ys = [] then Inr target else Inl (Inr (start + byte + sum_list (map len_utf8 xs))))"
proof (induction xs arbitrary: units byte)
  case Nil
  then show ?case by (cases ys) simp_all
next
  case (Cons c xs)
  then have "units \<noteq> target" "\<not> target < units + len_utf16 c" using len_utf16_pos [of c] by auto
  then have "utf16_scan n target start units byte ((c # xs) @ ys)
      = utf16_scan n target start (units + len_utf16 c) (byte + len_utf8 c) (xs @ ys)"
    by simp
  also have "\<dots> = (if ys = [] then Inr target
      else Inl (Inr (start + (byte + len_utf8 c) + sum_list (map len_utf8 xs))))"
    by (rule Cons.IH) (use Cons.prems in simp)
  finally show ?case by (simp only: sum_list.Cons list.map add.assoc)
qed

lemma utf16_scan_InlInr:
  "utf16_scan n target start units byte cs = Inl (Inr off) \<Longrightarrow>
     \<exists>xs ys. cs = xs @ ys \<and> target = units + sum_list (map len_utf16 xs) \<and>
       off = start + byte + sum_list (map len_utf8 xs)"
proof (induction cs arbitrary: units byte)
  case (Cons c cs)
  show ?case
  proof (cases "units = target")
    case True
    with Cons.prems show ?thesis by (intro exI [of _ "[]"] exI [of _ "c # cs"]) simp
  next
    case False
    with Cons.prems have "utf16_scan n target start (units + len_utf16 c) (byte + len_utf8 c) cs
        = Inl (Inr off)"
      by (simp split: if_splits)
    from Cons.IH [OF this] obtain xs ys where "cs = xs @ ys"
      "target = units + len_utf16 c + sum_list (map len_utf16 xs)"
      "off = start + (byte + len_utf8 c) + sum_list (map len_utf8 xs)" by blast
    then show ?thesis by (intro exI [of _ "c # xs"] exI [of _ ys]) simp
  qed
qed simp

lemma utf16_scan_Inr:
  "utf16_scan n target start units byte cs = Inr u \<Longrightarrow> u = units + sum_list (map len_utf16 cs)"
proof (induction cs arbitrary: units byte)
  case (Cons c cs)
  from Cons.prems have "utf16_scan n target start (units + len_utf16 c) (byte + len_utf8 c) cs = Inr u"
    by (simp split: if_splits)
  from Cons.IH [OF this] show ?case by simp
qed simp

section \<open>Well-formed source files\<close>

definition source_ok :: "source_file \<Rightarrow> bool" where
  "source_ok f \<longleftrightarrow> utf8_valid (sf_text f) \<and> sf_line_index f = line_index_new (sf_text f)"

lemma source_file_new_sel [simp]:
  "sf_id (source_file_new i n t) = i"
  "sf_name (source_file_new i n t) = n"
  "sf_text (source_file_new i n t) = t"
  "sf_line_index (source_file_new i n t) = line_index_new t"
  by (simp_all add: source_file_new_def)

lemma source_ok_new [simp]: "source_ok (source_file_new i n t) \<longleftrightarrow> utf8_valid t"
  by (simp add: source_ok_def)

lemma validate_offset_Inr [simp]:
  "validate_offset t x = Inr u \<longleftrightarrow> is_char_boundary t x"
  by (auto simp: validate_offset_def dest: is_char_boundary_le)

lemma source_span_Inr_iff:
  "source_span f a b = Inr s \<longleftrightarrow>
     a \<le> b \<and> is_char_boundary (sf_text f) a \<and> is_char_boundary (sf_text f) b \<and>
     s = \<lparr>span_source_id = sf_id f, span_start = a, span_end = b\<rparr>"
  by (auto simp: source_span_def dest: is_char_boundary_le)

lemma validate_span_Inr_iff:
  "validate_span f s = Inr u \<longleftrightarrow>
     span_source_id s = sf_id f \<and> span_start s \<le> span_end s \<and>
     is_char_boundary (sf_text f) (span_start s) \<and> is_char_boundary (sf_text f) (span_end s)"
  by (auto simp: validate_span_def dest: is_char_boundary_le)

lemma source_slice_Inr_iff:
  "source_slice f s = Inr t \<longleftrightarrow>
     validate_span f s = Inr () \<and> t = cut (span_start s) (span_end s) (sf_text f)"
  by (auto simp: source_slice_def)

text \<open>Every span that a file hands out can be cut from it, and the piece is again valid text.\<close>

lemma source_span_slice:
  assumes "source_ok f" and "source_span f a b = Inr s"
  shows "source_slice f s = Inr (cut a b (sf_text f)) \<and> utf8_valid (cut a b (sf_text f))"
  using assms
  by (simp add: source_span_Inr_iff source_slice_Inr_iff validate_span_Inr_iff source_ok_def
      utf8_valid_cut)

text \<open>The line of an accepted offset: its bounds are boundaries, so none of the cuts can panic.\<close>

lemma offset_line:
  assumes ok: "source_ok f" and x: "is_char_boundary (sf_text f) x"
  defines "n \<equiv> line_of_offset (sf_line_index f) x"
  defines "l \<equiv> lines (sf_line_index f) ! n"
  shows "n < length (lines (sf_line_index f))" and "line_start l \<le> x" and "line_ok (sf_text f) l"
    and "line_start l \<le> min x (content_end l)"
    and "is_char_boundary (sf_text f) (min x (content_end l))"
proof -
  have t: "utf8_valid (sf_text f)" and ix: "sf_line_index f = line_index_new (sf_text f)"
    using ok by (simp_all add: source_ok_def)
  note len = is_char_boundary_le [OF x]
  show n: "n < length (lines (sf_line_index f))" and le: "line_start l \<le> x"
    unfolding n_def l_def ix using line_of_offset_count [OF len] by simp_all
  show lok: "line_ok (sf_text f) l"
    using line_index_ok [OF t, of l] nth_mem [OF n] by (simp add: l_def ix)
  show "line_start l \<le> min x (content_end l)" using le lok by (simp add: line_ok_def)
  show "is_char_boundary (sf_text f) (min x (content_end l))"
    using x lok by (simp add: line_ok_def min_def)
qed

section \<open>Conversions between offsets and editor positions\<close>

definition encoded_len :: "position_encoding \<Rightarrow> string \<Rightarrow> nat" where
  "encoded_len enc s =
     (case enc of EncUtf8 \<Rightarrow> length s | EncUtf16 \<Rightarrow> sum_list (map len_utf16 (chars s)))"

lemma source_text_position_eq:
  assumes "is_char_boundary (sf_text f) x"
  shows "source_text_position f x enc =
    (let n = line_of_offset (sf_line_index f) x; l = lines (sf_line_index f) ! n
     in Inr \<lparr>tp_line = n,
             tp_character = encoded_len enc (cut (line_start l) (min x (content_end l)) (sf_text f))\<rparr>)"
  using assms is_char_boundary_le [OF assms]
  by (simp add: source_text_position_def index_text_position_def encoded_len_def Let_def)

text \<open>The offset of the prefix \<open>[start, y)\<close> of a line is \<open>y\<close>.\<close>

lemma byte_offset_of_prefix:
  assumes ok: "source_ok f" and n: "n < length (lines (sf_line_index f))"
  defines "l \<equiv> lines (sf_line_index f) ! n"
  assumes y: "line_start l \<le> y" "y \<le> content_end l" "is_char_boundary (sf_text f) y"
  shows "source_byte_offset f
    \<lparr>tp_line = n, tp_character = encoded_len enc (cut (line_start l) y (sf_text f))\<rparr> enc = Inr y"
proof -
  let ?t = "sf_text f"
  have t: "utf8_valid ?t" and ix: "sf_line_index f = line_index_new ?t"
    using ok by (simp_all add: source_ok_def)
  have lok: "line_ok ?t l" using line_index_ok [OF t, of l] nth_mem [OF n] by (simp add: l_def ix)
  then have ends: "content_end l \<le> length ?t" by (simp add: line_ok_def is_char_boundary_le)
  have split: "cut (line_start l) (content_end l) ?t
      = cut (line_start l) y ?t @ cut y (content_end l) ?t"
    using y by (simp add: cut_append)
  have valid: "utf8_valid (cut (line_start l) y ?t)" "utf8_valid (cut y (content_end l) ?t)"
    using t y lok by (simp_all add: line_ok_def utf8_valid_cut)
  have lens: "length (cut (line_start l) y ?t) = y - line_start l"
    "length (cut y (content_end l) ?t) = content_end l - y"
    using y ends by simp_all
  show ?thesis
  proof (cases enc)
    case EncUtf8
    have "length (cut (line_start l) (content_end l) ?t) = content_end l - line_start l"
      using y ends by simp
    then show ?thesis
      using EncUtf8 n y lens(1)
      by (simp add: source_byte_offset_def index_byte_offset_def encoded_len_def get_nth_def
          l_def [symmetric] Let_def)
  next
    case EncUtf16
    let ?xs = "chars (cut (line_start l) y ?t)" and ?ys = "chars (cut y (content_end l) ?t)"
    let ?u = "sum_list (map len_utf16 ?xs)"
    have cs: "chars (cut (line_start l) (content_end l) ?t) = ?xs @ ?ys"
      unfolding split using valid by (rule chars_append)
    have "cut y (content_end l) ?t = [] \<longleftrightarrow> content_end l - y = 0"
      unfolding lens(2) [symmetric] by simp
    with valid(2) y(2) have last: "?ys = [] \<longleftrightarrow> y = content_end l" by auto
    have "sum_list (map len_utf8 ?xs) = y - line_start l"
      using length_sum_chars [OF valid(1)] lens(1) by simp
    then have "utf16_scan n ?u (line_start l) 0 0 (chars (cut (line_start l) (content_end l) ?t))
        = (if y = content_end l then Inr ?u else Inl (Inr y))"
      unfolding cs last [symmetric] using y(1) by (subst utf16_scan_prefix) simp_all
    then show ?thesis
      using n
      by (simp add: EncUtf16 source_byte_offset_def index_byte_offset_def encoded_len_def get_nth_def
          l_def [symmetric] Let_def del: utf16_scan.simps)
  qed
qed

text \<open>C17: a byte offset survives the trip to an editor position and back: every character boundary has
  a position in either encoding, and the position's offset is the same boundary, or the end of the
  line's content for an offset inside the line terminator.\<close>

theorem text_position_roundtrip:
  assumes ok: "source_ok f" and x: "is_char_boundary (sf_text f) x"
  shows "\<exists>pos e. source_text_position f x enc = Inr pos \<and>
    source_line_content_end f (Suc (tp_line pos)) = Some e \<and>
    source_byte_offset f pos enc = Inr (min x e)"
proof -
  let ?n = "line_of_offset (sf_line_index f) x"
  let ?l = "lines (sf_line_index f) ! ?n"
  note line = offset_line [OF ok x]
  have "source_byte_offset f \<lparr>tp_line = ?n, tp_character =
      encoded_len enc (cut (line_start ?l) (min x (content_end ?l)) (sf_text f))\<rparr> enc
      = Inr (min x (content_end ?l))"
    using line by (intro byte_offset_of_prefix [OF ok]) simp_all
  with line(1) show ?thesis
    by (simp add: source_text_position_eq [OF x] Let_def source_line_content_end_def index_line_def
        get_nth_def)
qed

text \<open>A prefix of the scalar values of a piece ends on a boundary, and is itself a piece.\<close>

lemma cut_scalar_prefix:
  assumes t: "utf8_valid t" and a: "is_char_boundary t a" and b: "is_char_boundary t b" "a \<le> b"
    and cs: "chars (cut a b t) = xs @ ys"
  defines "x \<equiv> a + sum_list (map len_utf8 xs)"
  shows "is_char_boundary t x \<and> x \<le> b \<and> chars (cut a x t) = xs"
proof -
  let ?u = "string_of_scalars xs" and ?v = "string_of_scalars ys"
  have valid: "utf8_valid (cut a b t)" using t a b by (rule utf8_valid_cut)
  have sc: "\<forall>c \<in> set xs. is_scalar c" "\<forall>c \<in> set ys. is_scalar c"
    using chars_scalar [OF valid] cs by auto
  have uv: "cut a b t = ?u @ ?v" using string_of_scalars_chars [OF valid] cs by simp
  have blen: "b \<le> length t" using b(1) by (rule is_char_boundary_le)
  have len: "x = a + length ?u" by (simp add: x_def)
  have lb: "b = x + length ?v" using arg_cong [OF uv, of length] b(2) blen len by simp
  have tab: "t = take a t @ ?u @ ?v @ drop b t"
    using uv b(2) by (metis append.assoc append_take_drop_id cut_def drop_drop le_add_diff_inverse2)
  have "take x t = take a t @ ?u"
    using arg_cong [OF tab, of "take x"] len b(2) blen by simp
  moreover have "cut a x t = drop a (take x t)" by (simp add: cut_def drop_take)
  ultimately have cutx: "cut a x t = ?u" using b(2) blen by simp
  have dropx: "drop x t = ?v @ drop b t"
    using arg_cong [OF tab, of "drop x"] len b(2) blen by simp
  have "utf8_valid (drop x t)"
    unfolding dropx using t b(1) sc by (intro utf8_valid_append utf8_valid_drop) simp_all
  moreover have "t = take x t @ drop x t" by simp
  moreover have "length (take x t) = x" using lb blen by simp
  ultimately have "is_char_boundary t x" by (metis is_char_boundary_valid_append)
  with cutx lb sc show ?thesis by simp
qed

lemma byte_offset_boundary:
  assumes ok: "source_ok f" and off: "source_byte_offset f pos enc = Inr x"
  defines "l \<equiv> lines (sf_line_index f) ! tp_line pos"
  shows "tp_line pos < length (lines (sf_line_index f)) \<and> is_char_boundary (sf_text f) x \<and>
    line_start l \<le> x \<and> x \<le> content_end l \<and>
    tp_character pos = encoded_len enc (cut (line_start l) x (sf_text f))"
proof -
  let ?t = "sf_text f"
  have t: "utf8_valid ?t" and ix: "sf_line_index f = line_index_new ?t"
    using ok by (simp_all add: source_ok_def)
  from off have n: "tp_line pos < length (lines (sf_line_index f))"
    by (auto simp: source_byte_offset_def index_byte_offset_def split: option.splits)
  have lok: "line_ok ?t l" using line_index_ok [OF t, of l] nth_mem [OF n] by (simp add: l_def ix)
  then have ends: "line_start l \<le> content_end l" "content_end l \<le> length ?t"
    by (simp_all add: line_ok_def is_char_boundary_le)
  show ?thesis
  proof (cases enc)
    case EncUtf8
    with off n have "tp_character pos \<le> content_end l - line_start l"
      "x = line_start l + tp_character pos" "is_char_boundary ?t x"
      using ends by (auto simp: source_byte_offset_def index_byte_offset_def get_nth_def l_def Let_def
          split: if_splits)
    with EncUtf8 n ends show ?thesis by (simp add: encoded_len_def)
  next
    case EncUtf16
    let ?cs = "chars (cut (line_start l) (content_end l) ?t)"
    have valid: "utf8_valid (cut (line_start l) (content_end l) ?t)"
      using t lok by (simp add: line_ok_def utf8_valid_cut)
    from EncUtf16 off n have scan:
      "utf16_scan (tp_line pos) (tp_character pos) (line_start l) 0 0 ?cs = Inl (Inr x) \<or>
       utf16_scan (tp_line pos) (tp_character pos) (line_start l) 0 0 ?cs = Inr (tp_character pos) \<and>
       x = content_end l"
      by (auto simp: source_byte_offset_def index_byte_offset_def get_nth_def l_def Let_def
          split: sum.splits if_splits)
    then obtain xs ys where cs: "?cs = xs @ ys" "tp_character pos = sum_list (map len_utf16 xs)"
      "x = line_start l + sum_list (map len_utf8 xs)"
    proof
      assume "utf16_scan (tp_line pos) (tp_character pos) (line_start l) 0 0 ?cs = Inl (Inr x)"
      from utf16_scan_InlInr [OF this] that show thesis by auto
    next
      assume "utf16_scan (tp_line pos) (tp_character pos) (line_start l) 0 0 ?cs
        = Inr (tp_character pos) \<and> x = content_end l"
      moreover from this have "tp_character pos = sum_list (map len_utf16 ?cs)"
        by (auto dest: utf16_scan_Inr)
      moreover have "content_end l = line_start l + sum_list (map len_utf8 ?cs)"
        using length_sum_chars [OF valid] ends by simp
      ultimately show thesis using that [of ?cs "[]"] by simp
    qed
    from lok have lb: "is_char_boundary ?t (line_start l)" "is_char_boundary ?t (content_end l)"
      by (simp_all add: line_ok_def)
    from cut_scalar_prefix [OF t lb ends(1) cs(1)] cs(2,3) EncUtf16 n show ?thesis
      by (simp add: encoded_len_def)
  qed
qed

text \<open>C18: an editor position that has a byte offset is the position of that offset: \<open>byte_offset\<close> and
  \<open>text_position\<close> are inverse on every position the file accepts, in either encoding.\<close>

theorem byte_offset_roundtrip:
  assumes ok: "source_ok f" and off: "source_byte_offset f pos enc = Inr x"
  shows "source_text_position f x enc = Inr pos"
proof -
  let ?L = "lines (sf_line_index f)"
  have ix: "sf_line_index f = line_index_new (sf_text f)" using ok by (simp add: source_ok_def)
  note b = byte_offset_boundary [OF ok off]
  have n: "line_of_offset (sf_line_index f) x = tp_line pos"
    unfolding ix by (rule line_of_offset_eq) (use b ix in simp_all)
  have "min x (content_end (?L ! tp_line pos)) = x" using b by simp
  with b n show ?thesis by (simp add: source_text_position_eq Let_def)
qed

text \<open>the location of an offset counts the newlines before it, and exists for exactly the offsets
  that are character boundaries of the text; its line is always one the file can show.\<close>

lemma location_line:
  assumes "source_ok f"
  shows "(case source_location f x of
      Inl e \<Rightarrow> \<not> is_char_boundary (sf_text f) x
    | Inr lc \<Rightarrow> is_char_boundary (sf_text f) x \<and>
        lc_line lc = Suc (count_list (take x (sf_text f)) NL) \<and>
        line_text f (lc_line lc) \<noteq> None \<and> 0 < lc_column lc)"
proof -
  have ix: "sf_line_index f = line_index_new (sf_text f)" using assms by (simp add: source_ok_def)
  show ?thesis
  proof (cases "is_char_boundary (sf_text f) x")
    case True
    then have v: "validate_offset (sf_text f) x = Inr ()" by simp
    note len = is_char_boundary_le [OF True]
    from line_of_offset_count [OF len] True show ?thesis
      by (simp add: v source_location_def index_location_def ix Let_def line_text_def index_line_def
          get_nth_def)
  next
    case False
    then have "validate_offset (sf_text f) x \<noteq> Inr ()" by simp
    then show ?thesis using False
      by (cases "validate_offset (sf_text f) x") (simp_all add: source_location_def index_location_def)
  qed
qed

text \<open>The positions of the example file of the module's tests: two lines, the first ends in a carriage
  return and a newline, and holds a scalar value of two UTF-16 units.\<close>

definition sample_file :: source_file where
  "sample_file = source_file_new (SourceId 3) ''sample.fl''
     ([CHR ''a'', CHR 0xF0, CHR 0x9F, CHR 0x99, CHR 0x82, CR, NL, CHR ''b''])"

lemma sample_file_ok: "source_ok sample_file"
  by (simp add: sample_file_def) code_simp

lemma text_position_roundtrip_witness:
  "\<exists>pos e. source_text_position sample_file 6 EncUtf16 = Inr pos \<and>
     source_line_content_end sample_file (Suc (tp_line pos)) = Some e \<and>
     source_byte_offset sample_file pos EncUtf16 = Inr (min 6 e)"
  by (rule text_position_roundtrip [OF sample_file_ok]) code_simp

lemma byte_offset_roundtrip_witness:
  "source_text_position sample_file 5 EncUtf16 = Inr \<lparr>tp_line = 0, tp_character = 3\<rparr>"
  by (rule byte_offset_roundtrip [OF sample_file_ok]) code_simp

end
