(* ===== verification/Diagnostic.thy ===== *)
theory Diagnostic
  imports Source
begin

text \<open>
  \<open>crates/flash-syntax/src/diagnostic.rs\<close>: the diagnostic values and their rendering with source
  excerpts. A rendering that panics is \<open>None\<close>: the slices of the excerpt and the three lookups of the
  line are checked. The lemmas show that no rendering panics on well-formed sources, decide exactly
  when one succeeds, and place the markers under the labelled text.
\<close>

datatype severity = SevError | SevWarning | SevNote

fun show_severity :: "severity \<Rightarrow> string" where
  "show_severity SevError = ''error''"
| "show_severity SevWarning = ''warning''"
| "show_severity SevNote = ''note''"

datatype label_style = Primary | Secondary

record label =
  label_style :: label_style
  label_span :: span
  label_message :: string

record diagnostic =
  dg_severity :: severity
  dg_code :: string
  dg_message :: string
  dg_labels :: "label list"
  dg_notes :: "string list"

definition diagnostic_new :: "severity \<Rightarrow> string \<Rightarrow> string \<Rightarrow> diagnostic" where
  "diagnostic_new sev code msg =
     \<lparr>dg_severity = sev, dg_code = code, dg_message = msg, dg_labels = [], dg_notes = []\<rparr>"

definition with_primary :: "span \<Rightarrow> string \<Rightarrow> diagnostic \<Rightarrow> diagnostic" where
  "with_primary sp msg d =
     d\<lparr>dg_labels := dg_labels d @ [\<lparr>label_style = Primary, label_span = sp, label_message = msg\<rparr>]\<rparr>"

definition with_secondary :: "span \<Rightarrow> string \<Rightarrow> diagnostic \<Rightarrow> diagnostic" where
  "with_secondary sp msg d =
     d\<lparr>dg_labels := dg_labels d @ [\<lparr>label_style = Secondary, label_span = sp, label_message = msg\<rparr>]\<rparr>"

definition with_note :: "string \<Rightarrow> diagnostic \<Rightarrow> diagnostic" where
  "with_note note d = d\<lparr>dg_notes := dg_notes d @ [note]\<rparr>"

datatype render_error =
    MissingPrimaryLabel
  | MissingSource source_id
  | RenderInvalidSpan span_error

fun show_render_error :: "render_error \<Rightarrow> string" where
  "show_render_error MissingPrimaryLabel = ''diagnostic has no primary label''"
| "show_render_error (MissingSource i) =
     ''diagnostic source '' @ show_nat (unat (source_id_get i)) @ '' is not available''"
| "show_render_error (RenderInvalidSpan e) = ''invalid diagnostic label: '' @ show_span_error e"

section \<open>Rendering\<close>

definition decimal_width :: "nat \<Rightarrow> nat" where
  "decimal_width n = length (show_nat n)"

definition marker_prefix :: "string \<Rightarrow> string" where
  "marker_prefix t = map (\<lambda>c. if c = 9 then TAB else CHR '' '') (chars t)"

text \<open>\<open>sources.iter().find(|source| source.id() == id).ok_or(MissingSource(id))\<close>.\<close>

definition find_source :: "source_file list \<Rightarrow> source_id \<Rightarrow> render_error + source_file" where
  "find_source srcs i = ok_or (MissingSource i) (find (\<lambda>s. sf_id s = i) srcs)"

definition source_for_span :: "source_file list \<Rightarrow> span \<Rightarrow> render_error + source_file" where
  "source_for_span srcs sp = find_source srcs (span_source_id sp)"

definition marker_count :: "source_file \<Rightarrow> span \<Rightarrow> nat \<Rightarrow> nat option" where
  "marker_count src sp marked_end =
     (if span_is_empty sp \<or> marked_end \<le> span_start sp then Some 1
      else do {
        t \<leftarrow> slice_str (sf_text src) (span_start sp) marked_end;
        Some (max (length (chars t)) 1)
      })"

text \<open>What \<open>render_label\<close> appends to the output.\<close>

definition render_label :: "source_file \<Rightarrow> label \<Rightarrow> nat \<Rightarrow> (render_error + string) option" where
  "render_label src lab gutter =
     (let sp = label_span lab in
      try_bind (Some (map_err RenderInvalidSpan (source_location src (span_start sp)))) (\<lambda>location.
        let n = lc_line location in
        do {
          text \<leftarrow> line_text src n;
          ls \<leftarrow> source_line_start src n;
          le \<leftarrow> source_line_content_end src n;
          pre \<leftarrow> slice_str (sf_text src) ls (min (span_start sp) le);
          count \<leftarrow> marker_count src sp (min (span_end sp) le);
          Some (Inr
            (pad_left gutter (show_nat n) @ '' | '' @ text @ [NL] @
             pad_left gutter [] @ '' | '' @ marker_prefix pre @
             replicate count (case label_style lab of Primary \<Rightarrow> CHR ''^'' | Secondary \<Rightarrow> CHR ''-'') @
             (if label_message lab = [] then [] else '' '' @ label_message lab) @ [NL]))
        }))"

fun source_order :: "source_id list \<Rightarrow> label list \<Rightarrow> source_id list" where
  "source_order acc [] = acc"
| "source_order acc (l # ls) =
     (let i = span_source_id (label_span l)
      in source_order (if i \<in> set acc then acc else acc @ [i]) ls)"

definition max_or_one :: "nat list \<Rightarrow> nat" where
  "max_or_one ws = (case ws of [] \<Rightarrow> 1 | w # ws' \<Rightarrow> fold max ws' w)"

definition location_lines :: "string \<Rightarrow> source_file \<Rightarrow> line_column \<Rightarrow> string" where
  "location_lines arrow src location =
     arrow @ sf_name src @ '':'' @ show_nat (lc_line location) @ '':'' @ show_nat (lc_column location)
     @ [NL] @ ''  |'' @ [NL]"

text \<open>One iteration of the loop over the sources of a diagnostic.\<close>

definition render_source ::
  "source_file list \<Rightarrow> diagnostic \<Rightarrow> nat \<times> source_id \<Rightarrow> (render_error + string) option" where
  "render_source srcs d = (\<lambda>(k, i).
     try_bind (Some (find_source srcs i)) (\<lambda>src.
       let labels = filter (\<lambda>l. span_source_id (label_span l) = i) (dg_labels d) in
       try_bind (Some (map_err RenderInvalidSpan
                   (try_map (\<lambda>l. validate_span src (label_span l)) labels))) (\<lambda>_.
       try_bind (Some (map_err RenderInvalidSpan
                   (try_map (\<lambda>l. source_location src (span_start (label_span l))) labels))) (\<lambda>locations.
         let gutter = max_or_one (map (\<lambda>lc. decimal_width (lc_line lc)) locations) in
         try_bind
           (if k = 0 then Some (Inr [])
            else (case labels of
                    [] \<Rightarrow> None
                  | first # _ \<Rightarrow>
                      try_bind (Some (map_err RenderInvalidSpan
                          (source_location src (span_start (label_span first))))) (\<lambda>location.
                        Some (Inr (location_lines '' ::: '' src location)))))
           (\<lambda>header.
             try_bind (try_each (\<lambda>l. render_label src l gutter) labels) (\<lambda>blocks.
               Some (Inr (header @ concat blocks))))))))"

definition render_diagnostic_sources ::
  "source_file list \<Rightarrow> diagnostic \<Rightarrow> (render_error + string) option" where
  "render_diagnostic_sources srcs d =
     try_bind (Some (ok_or MissingPrimaryLabel (find (\<lambda>l. label_style l = Primary) (dg_labels d))))
       (\<lambda>primary.
     try_bind (Some (source_for_span srcs (label_span primary))) (\<lambda>src.
     try_bind (Some (map_err RenderInvalidSpan (validate_span src (label_span primary)))) (\<lambda>_.
     try_bind (Some (map_err RenderInvalidSpan
                 (source_location src (span_start (label_span primary))))) (\<lambda>location.
       let order = source_order [span_source_id (label_span primary)] (dg_labels d) in
       try_bind (try_each (render_source srcs d) (zip [0..<length order] order)) (\<lambda>blocks.
         Some (Inr
           (show_severity (dg_severity d) @ ''['' @ dg_code d @ '']: '' @ dg_message d @ [NL] @
            location_lines '' --> '' src location @ concat blocks @
            concat (map (\<lambda>note. ''  = note: '' @ note @ [NL]) (dg_notes d)))))))))"

definition render_diagnostic :: "source_file \<Rightarrow> diagnostic \<Rightarrow> (render_error + string) option" where
  "render_diagnostic src d = render_diagnostic_sources [src] d"

section \<open>Labels\<close>

lemma location_of_boundary:
  assumes ok: "source_ok src" and x: "is_char_boundary (sf_text src) x"
  defines "n \<equiv> line_of_offset (sf_line_index src) x"
  defines "l \<equiv> lines (sf_line_index src) ! n"
  shows "source_location src x = Inr \<lparr>lc_line = Suc n, lc_column =
      Suc (length (chars (cut (line_start l) (min x (content_end l)) (sf_text src))))\<rparr>"
    and "line_text src (Suc n) = Some (cut (line_start l) (content_end l) (sf_text src))"
    and "source_line_start src (Suc n) = Some (line_start l)"
    and "source_line_content_end src (Suc n) = Some (content_end l)"
proof -
  have v: "validate_offset (sf_text src) x = Inr ()" using x by simp
  have n: "n < length (lines (sf_line_index src))" using offset_line(1) [OF ok x] by (simp add: n_def)
  show "source_location src x = Inr \<lparr>lc_line = Suc n, lc_column =
      Suc (length (chars (cut (line_start l) (min x (content_end l)) (sf_text src))))\<rparr>"
    by (simp add: source_location_def index_location_def v Let_def n_def l_def)
  show "line_text src (Suc n) = Some (cut (line_start l) (content_end l) (sf_text src))"
    "source_line_start src (Suc n) = Some (line_start l)"
    "source_line_content_end src (Suc n) = Some (content_end l)"
    using n by (simp_all add: line_text_def source_line_start_def source_line_content_end_def
        index_line_def get_nth_def l_def)
qed

text \<open>The marked text of a label: from its start to its end or the end of the line.\<close>

definition marked_text :: "source_file \<Rightarrow> span \<Rightarrow> nat \<Rightarrow> string" where
  "marked_text src sp e = cut (span_start sp) (min (span_end sp) e) (sf_text src)"

lemma marker_count_Some:
  assumes ok: "source_ok src" and v: "validate_span src sp = Inr ()"
    and e: "is_char_boundary (sf_text src) e"
  shows "marker_count src sp (min (span_end sp) e) = Some (max 1 (length (chars (marked_text src sp e))))"
proof -
  from v have sp: "span_start sp \<le> span_end sp" "is_char_boundary (sf_text src) (span_start sp)"
    "is_char_boundary (sf_text src) (span_end sp)" by (auto simp: validate_span_Inr_iff)
  let ?m = "min (span_end sp) e"
  have m: "is_char_boundary (sf_text src) ?m" using sp e by (simp add: min_def)
  show ?thesis
  proof (cases "span_is_empty sp \<or> ?m \<le> span_start sp")
    case True
    then have "marked_text src sp e = []"
      using sp by (auto simp: marked_text_def cut_def span_is_empty_def min_def)
    with True show ?thesis by (simp add: marker_count_def)
  next
    case False
    then have "\<not> ?m \<le> span_start sp" by blast
    then have "span_start sp \<le> ?m" by linarith
    then have cut: "slice_str (sf_text src) (span_start sp) ?m = Some (marked_text src sp e)"
      using sp m by (simp add: marked_text_def)
    with False show ?thesis by (simp add: marker_count_def cut max.commute del: slice_str_eq_Some)
  qed
qed

lemma length_marker_prefix [simp]: "length (marker_prefix t) = length (chars t)"
  by (simp add: marker_prefix_def)

definition marker_line :: "source_file \<Rightarrow> label \<Rightarrow> nat \<Rightarrow> nat \<Rightarrow> string \<Rightarrow> string" where
  "marker_line src lab w e pre =
     pad_left w [] @ '' | '' @ pre @
     replicate (max 1 (length (chars (marked_text src (label_span lab) e))))
       (case label_style lab of Primary \<Rightarrow> CHR ''^'' | Secondary \<Rightarrow> CHR ''-'') @
     (if label_message lab = [] then [] else '' '' @ label_message lab) @ [NL]"

lemma render_label_eq:
  assumes ok: "source_ok src" and v: "validate_span src (label_span lab) = Inr ()"
  defines "x \<equiv> span_start (label_span lab)"
  defines "n \<equiv> line_of_offset (sf_line_index src) x"
  defines "l \<equiv> lines (sf_line_index src) ! n"
  defines "pre \<equiv> cut (line_start l) (min x (content_end l)) (sf_text src)"
  shows "render_label src lab w = Some (Inr
      (pad_left w (show_nat (Suc n)) @ '' | '' @ cut (line_start l) (content_end l) (sf_text src) @ [NL] @
       marker_line src lab w (content_end l) (marker_prefix pre)))"
proof -
  have x: "is_char_boundary (sf_text src) x" using v by (simp add: x_def validate_span_Inr_iff)
  note loc = location_of_boundary [OF ok x, folded n_def, folded l_def]
    and line = offset_line [OF ok x, folded n_def, folded l_def]
  have e: "is_char_boundary (sf_text src) (content_end l)"
    and b: "is_char_boundary (sf_text src) (line_start l)"
    using line(3) by (simp_all add: line_ok_def)
  have cut: "slice_str (sf_text src) (line_start l) (min x (content_end l)) = Some pre"
    using line(4,5) b by (simp add: pre_def)
  show ?thesis
    by (simp add: render_label_def Let_def x_def [symmetric] marker_line_def loc cut
        marker_count_Some [OF ok v e])
qed

text \<open>the excerpt of a label. For every span that belongs to the file, rendering writes the line of
  the span's start with its number, and below it as many blanks as there are scalar values before
  the column of the start, then one marker per labelled scalar value of the line, at least one: the
  markers stand under the labelled text.\<close>

lemma label_excerpt:
  assumes ok: "source_ok src" and v: "validate_span src (label_span lab) = Inr ()"
  shows "\<exists>loc text e pre. source_location src (span_start (label_span lab)) = Inr loc \<and>
    line_text src (lc_line loc) = Some text \<and>
    source_line_content_end src (lc_line loc) = Some e \<and>
    length pre = lc_column loc - 1 \<and> set pre \<subseteq> {TAB, CHR '' ''} \<and>
    render_label src lab w = Some (Inr
      (pad_left w (show_nat (lc_line loc)) @ '' | '' @ text @ [NL] @ marker_line src lab w e pre))"
proof -
  have x: "is_char_boundary (sf_text src) (span_start (label_span lab))"
    using v by (simp add: validate_span_Inr_iff)
  let ?l = "lines (sf_line_index src) ! line_of_offset (sf_line_index src) (span_start (label_span lab))"
  let ?pre = "cut (line_start ?l) (min (span_start (label_span lab)) (content_end ?l)) (sf_text src)"
  have "set (marker_prefix ?pre) \<subseteq> {TAB, CHR '' ''}" by (auto simp: marker_prefix_def)
  with render_label_eq [OF ok v, of w] location_of_boundary [OF ok x] show ?thesis
    by (intro exI [of _ "marker_prefix ?pre"] exI conjI) auto
qed

section \<open>Whole diagnostics\<close>

lemma find_source_Inr_iff: "find_source srcs i = Inr src \<longleftrightarrow> find (\<lambda>s. sf_id s = i) srcs = Some src"
  by (simp add: find_source_def)

lemma find_source_mem: "find_source srcs i = Inr src \<Longrightarrow> src \<in> set srcs \<and> sf_id src = i"
  by (auto simp: find_source_Inr_iff find_Some_iff)

text \<open>A label can be rendered when the first source with its identity accepts its span.\<close>

definition label_renderable :: "source_file list \<Rightarrow> label \<Rightarrow> bool" where
  "label_renderable srcs l \<longleftrightarrow>
     (\<exists>src. source_for_span srcs (label_span l) = Inr src \<and> validate_span src (label_span l) = Inr ())"

lemma source_order_set:
  "set (source_order acc ls) = set acc \<union> (\<lambda>l. span_source_id (label_span l)) ` set ls"
  by (induction acc ls rule: source_order.induct) (auto simp: Let_def)

lemma render_source_cases:
  assumes ok: "\<forall>s \<in> set srcs. source_ok s"
    and mem: "\<exists>l \<in> set (dg_labels d). span_source_id (label_span l) = i"
  shows "\<exists>r. render_source srcs d (k, i) = Some r \<and>
    ((\<exists>out. r = Inr out) \<longleftrightarrow>
       (\<forall>l \<in> set (dg_labels d). span_source_id (label_span l) = i \<longrightarrow> label_renderable srcs l))"
proof (cases "find_source srcs i")
  case (Inl e)
  with mem show ?thesis by (auto simp: render_source_def label_renderable_def source_for_span_def)
next
  case (Inr src)
  let ?ls = "filter (\<lambda>l. span_source_id (label_span l) = i) (dg_labels d)"
  have src: "source_ok src" using ok find_source_mem [OF Inr] by blast
  have ren: "label_renderable srcs l \<longleftrightarrow> validate_span src (label_span l) = Inr ()"
    if "l \<in> set ?ls" for l
    using that Inr by (simp add: label_renderable_def source_for_span_def)
  show ?thesis
  proof (cases "\<forall>l \<in> set ?ls. validate_span src (label_span l) = Inr ()")
    case False
    then have "\<not> (\<exists>ys. try_map (\<lambda>l. validate_span src (label_span l)) ?ls = Inr ys)"
      by (auto simp: try_map_ex_Inr)
    then obtain e where "try_map (\<lambda>l. validate_span src (label_span l)) ?ls = Inl e"
      by (cases "try_map (\<lambda>l. validate_span src (label_span l)) ?ls") auto
    with Inr False ren show ?thesis by (auto simp: render_source_def Let_def)
  next
    case True
    then obtain us where us: "try_map (\<lambda>l. validate_span src (label_span l)) ?ls = Inr us"
      using try_map_ex_Inr [of "\<lambda>l. validate_span src (label_span l)" ?ls] by auto
    have loc: "\<exists>lc. source_location src (span_start (label_span l)) = Inr lc" if "l \<in> set ?ls" for l
      using True that location_of_boundary(1) [OF src] by (auto simp: validate_span_Inr_iff)
    then obtain lcs where lcs: "try_map (\<lambda>l. source_location src (span_start (label_span l))) ?ls = Inr lcs"
      using try_map_ex_Inr [of "\<lambda>l. source_location src (span_start (label_span l))" ?ls] by blast
    have "?ls \<noteq> []" using mem by (auto simp: filter_empty_conv)
    then obtain l0 ls' where ls: "?ls = l0 # ls'" by (cases ?ls) auto
    with loc [of l0] obtain lc where lc: "source_location src (span_start (label_span l0)) = Inr lc"
      by auto
    have "\<exists>bs. try_each (\<lambda>l. render_label src l w) ?ls = Some (Inr bs)" for w
      by (rule try_each_ex_Inr) (use True render_label_eq [OF src] in blast)
    then obtain bs where bs: "try_each (\<lambda>l. render_label src l
        (max_or_one (map (\<lambda>lc. decimal_width (lc_line lc)) lcs))) ?ls = Some (Inr bs)" by blast
    have header: "(case ?ls of [] \<Rightarrow> None | first # _ \<Rightarrow>
          try_bind (Some (map_err RenderInvalidSpan
              (source_location src (span_start (label_span first))))) (\<lambda>location.
            Some (Inr (location_lines '' ::: '' src location))))
        = (Some (Inr (location_lines '' ::: '' src lc)) :: (render_error + string) option)"
      by (simp add: ls lc)
    have "render_source srcs d (k, i) = Some (Inr
        ((if k = 0 then [] else location_lines '' ::: '' src lc) @ concat bs))"
      unfolding render_source_def prod.case Inr Let_def map_err_simps try_bind_simps us lcs bs header
      by simp
    with True ren show ?thesis by auto
  qed
qed

lemma render_sources_each:
  assumes each: "\<forall>x \<in> set xs. \<exists>r. f x = Some r \<and> ((\<exists>out. r = Inr out) \<longleftrightarrow> P x)"
  shows "\<exists>r. try_each f xs = Some r \<and> ((\<exists>ys. r = Inr ys) \<longleftrightarrow> (\<forall>x \<in> set xs. P x))"
  using each
proof (induction xs)
  case (Cons x xs)
  then obtain r where "f x = Some r" "(\<exists>out. r = Inr out) \<longleftrightarrow> P x" by auto
  moreover from Cons obtain r' where "try_each f xs = Some r'"
    "(\<exists>ys. r' = Inr ys) \<longleftrightarrow> (\<forall>x \<in> set xs. P x)" by auto
  ultimately show ?case by (cases r; cases r') auto
qed simp

text \<open>C19: rendering a diagnostic never panics on well-formed sources, and it succeeds exactly when the
  diagnostic has a primary label and the source of every label is present and accepts its span; any
  other diagnostic is an error value.\<close>

theorem render_outcome:
  assumes ok: "\<forall>s \<in> set srcs. source_ok s"
  shows "\<exists>r. render_diagnostic_sources srcs d = Some r \<and>
    ((\<exists>out. r = Inr out) \<longleftrightarrow>
       (\<exists>l \<in> set (dg_labels d). label_style l = Primary) \<and>
       (\<forall>l \<in> set (dg_labels d). label_renderable srcs l))"
proof (cases "find (\<lambda>l. label_style l = Primary) (dg_labels d)")
  case None
  moreover from this have "\<forall>l \<in> set (dg_labels d). label_style l \<noteq> Primary"
    by (simp add: find_None_iff)
  ultimately show ?thesis by (simp add: render_diagnostic_sources_def)
next
  case (Some primary)
  then have p: "primary \<in> set (dg_labels d)" "label_style primary = Primary"
    by (auto simp: find_Some_iff)
  let ?i = "span_source_id (label_span primary)"
  let ?order = "source_order [?i] (dg_labels d)"
  let ?xs = "zip [0..<length ?order] ?order"
  show ?thesis
  proof (cases "label_renderable srcs primary")
    case False
    have "\<exists>e. render_diagnostic_sources srcs d = Some (Inl e)"
    proof (cases "source_for_span srcs (label_span primary)")
      case (Inl e)
      then show ?thesis by (simp add: render_diagnostic_sources_def Some)
    next
      case (Inr src)
      with False obtain e where e: "validate_span src (label_span primary) = Inl e"
        by (cases "validate_span src (label_span primary)") (auto simp: label_renderable_def)
      show ?thesis by (simp add: render_diagnostic_sources_def Some Inr e)
    qed
    with False p show ?thesis by auto
  next
    case True
    then obtain src where src: "source_for_span srcs (label_span primary) = Inr src"
      "validate_span src (label_span primary) = Inr ()" by (auto simp: label_renderable_def)
    then have sok: "source_ok src"
      using ok find_source_mem [of srcs ?i src] by (simp add: source_for_span_def)
    from src(2) have "is_char_boundary (sf_text src) (span_start (label_span primary))"
      by (simp add: validate_span_Inr_iff)
    then obtain lc where lc: "source_location src (span_start (label_span primary)) = Inr lc"
      using location_of_boundary(1) [OF sok] by blast
    have ids: "snd ` set ?xs = (\<lambda>l. span_source_id (label_span l)) ` set (dg_labels d)"
    proof -
      have "snd ` set ?xs = set ?order" by (metis map_snd_zip length_upt diff_zero set_map)
      with p(1) show ?thesis by (auto simp: source_order_set)
    qed
    define Q where "Q = (\<lambda>x::nat \<times> source_id. \<forall>l \<in> set (dg_labels d).
        span_source_id (label_span l) = snd x \<longrightarrow> label_renderable srcs l)"
    have "\<exists>r. try_each (render_source srcs d) ?xs = Some r \<and>
        ((\<exists>ys. r = Inr ys) \<longleftrightarrow> (\<forall>x \<in> set ?xs. Q x))"
    proof (rule render_sources_each, rule ballI)
      fix x assume "x \<in> set ?xs"
      then have "snd x \<in> (\<lambda>l. span_source_id (label_span l)) ` set (dg_labels d)"
        using ids by blast
      then have "\<exists>l \<in> set (dg_labels d). span_source_id (label_span l) = snd x" by auto
      from render_source_cases [OF ok this, of "fst x"]
      show "\<exists>r. render_source srcs d x = Some r \<and> ((\<exists>out. r = Inr out) \<longleftrightarrow> Q x)"
        by (simp add: Q_def)
    qed
    then obtain r where r: "try_each (render_source srcs d) ?xs = Some r"
      "(\<exists>ys. r = Inr ys) \<longleftrightarrow> (\<forall>x \<in> set ?xs. Q x)" by blast
    have "(\<forall>x \<in> set ?xs. Q x) \<longleftrightarrow> (\<forall>l \<in> set (dg_labels d). label_renderable srcs l)"
    proof
      assume Q: "\<forall>x \<in> set ?xs. Q x"
      show "\<forall>l \<in> set (dg_labels d). label_renderable srcs l"
      proof
        fix l assume l: "l \<in> set (dg_labels d)"
        then have "span_source_id (label_span l) \<in> snd ` set ?xs" using ids by simp
        then obtain x where "x \<in> set ?xs" "snd x = span_source_id (label_span l)" by auto
        with Q l show "label_renderable srcs l" by (auto simp: Q_def)
      qed
    qed (simp add: Q_def)
    with r(2) have "(\<exists>ys. r = Inr ys) \<longleftrightarrow> (\<forall>l \<in> set (dg_labels d). label_renderable srcs l)" by simp
    moreover have "\<exists>r'. render_diagnostic_sources srcs d = Some r' \<and> ((\<exists>out. r' = Inr out) \<longleftrightarrow> (\<exists>ys. r = Inr ys))"
      by (cases r) (simp_all add: render_diagnostic_sources_def Let_def Some src lc r(1))
    ultimately show ?thesis using p by blast
  qed
qed

definition sample_diagnostic :: diagnostic where
  "sample_diagnostic = with_note ''help'' (with_primary
     \<lparr>span_source_id = SourceId 3, span_start = 0, span_end = 1\<rparr> ''here''
     (diagnostic_new SevError ''X001'' ''broken''))"

lemma render_outcome_witness:
  "\<exists>r. render_diagnostic_sources [sample_file] sample_diagnostic = Some r \<and>
    ((\<exists>out. r = Inr out) \<longleftrightarrow>
       (\<exists>l \<in> set (dg_labels sample_diagnostic). label_style l = Primary) \<and>
       (\<forall>l \<in> set (dg_labels sample_diagnostic). label_renderable [sample_file] l))"
  by (rule render_outcome) (simp add: sample_file_ok)

end
