(* ===== verification/Lexer.thy ===== *)
theory Lexer
  imports Source
begin

text \<open>
  \<open>crates/flash-syntax/src/lexer.rs\<close>: the lossless lexer of both language majors. Each \<open>lex_*\<close> method is
  a function \<open>lexer \<Rightarrow> (bool \<times> lexer) option\<close>: \<open>None\<close> is a panic (the \<open>expect\<close> of \<open>push\<close> and of
  \<open>advance_scalar\<close>, the \<open>debug_assert!\<close> of \<open>push\<close>), the Boolean is the method's result. The position of
  the lexer is a character boundary whenever the code slices the text at it; the lemmas of theory
  \<open>Lexer_Proofs\<close> establish that for every state of a run.
\<close>

section \<open>Tokens\<close>

datatype keyword =
    KwAction | KwBreak | KwCatch | KwContinue | KwDef | KwElse | KwEnum | KwExport | KwFalse | KwFor
  | KwIf | KwImport | KwIn | KwLanguage | KwLet | KwMatch | KwMut | KwNull | KwReturn | KwTask
  | KwThrow | KwTrue | KwTry | KwType | KwUnset | KwWhile

datatype number_kind = NumInteger | NumFloat

datatype operator =
    OpSemicolon | OpPipe | OpPipeBoth | OpBackground | OpAnd | OpOr | OpAppend | OpDuplicate
  | OpAssign | OpEqual | OpNotEqual | OpLess | OpLessEqual | OpGreater | OpGreaterEqual | OpPlus
  | OpMinus | OpStar | OpSlash | OpPercent | OpBang | OpRange | OpRangeInclusive | OpSpread
  | OpArrow | OpMatchArrow | OpDot | OpComma | OpColon | OpCaret

datatype delimiter =
    DlLeftParenthesis | DlRightParenthesis | DlLeftBrace | DlRightBrace | DlLeftBracket
  | DlRightBracket

datatype invalid_token_kind =
    IvNul | IvLoneCarriageReturn | IvUnknownDoubleEscape | IvEmptyUnicodeEscape
  | IvUnicodeSurrogate | IvUnicodeOutOfRange | IvMalformedUnicodeEscape

datatype token_kind =
    TkWhitespace | TkNewline | TkLineContinuation | TkComment | TkDocumentationComment
  | TkIdentifier | TkKeyword keyword | TkNumber number_kind | TkWordText | TkBareEscape
  | TkSingleQuoted | TkDoubleQuoteStart | TkDoubleText | TkDoubleEscape | TkDoubleQuoteEnd
  | TkVariable | TkBracedExpansionStart | TkCommandSubstitutionStart
  | TkOperator operator | TkDelimiter delimiter | TkInvalid invalid_token_kind

record token =
  tk_kind :: token_kind
  tk_span :: span

definition token_text :: "source_file \<Rightarrow> token \<Rightarrow> span_error + string" where
  "token_text src tok = source_slice src (tk_span tok)"

definition is_adjacent_to :: "token \<Rightarrow> token \<Rightarrow> bool" where
  "is_adjacent_to tok next' \<longleftrightarrow>
     span_source_id (tk_span tok) = span_source_id (tk_span next') \<and>
     span_end (tk_span tok) = span_start (tk_span next')"

section \<open>The state of the lexer\<close>

datatype lex_language = LexV1 | LexV2

datatype lex_context = CxNormal | CxDoubleQuoted | CxBraced nat | CxCommand nat

record lexer =
  lx_source :: source_file
  lx_language :: lex_language
  lx_position :: nat
  lx_tokens :: "token list"
  lx_contexts :: "lex_context list"

definition lexer_new :: "source_file \<Rightarrow> lex_language \<Rightarrow> lexer" where
  "lexer_new src lang =
     \<lparr>lx_source = src, lx_language = lang, lx_position = 0, lx_tokens = [], lx_contexts = [CxNormal]\<rparr>"

definition advance :: "nat \<Rightarrow> lexer \<Rightarrow> lexer" where
  "advance n L = L\<lparr>lx_position := lx_position L + n\<rparr>"

definition rest :: "lexer \<Rightarrow> string" where
  "rest L = drop (lx_position L) (sf_text (lx_source L))"

definition looking_at :: "lexer \<Rightarrow> string \<Rightarrow> bool" where
  "looking_at L s = starts_with (rest L) s"

definition in_bounds :: "lexer \<Rightarrow> bool" where
  "in_bounds L \<longleftrightarrow> lx_position L < source_len (lx_source L)"

definition peek_byte :: "nat \<Rightarrow> lexer \<Rightarrow> char option" where
  "peek_byte n L = get_nth (sf_text (lx_source L)) (lx_position L + n)"

definition current_byte :: "lexer \<Rightarrow> char option" where
  "current_byte L = get_nth (sf_text (lx_source L)) (lx_position L)"

text \<open>\<open>byte.is_some_and(p)\<close>.\<close>

definition is_some_and :: "('a \<Rightarrow> bool) \<Rightarrow> 'a option \<Rightarrow> bool" where
  "is_some_and p x = (case x of None \<Rightarrow> False | Some y \<Rightarrow> p y)"

definition is_lone_carriage_return :: "lexer \<Rightarrow> bool" where
  "is_lone_carriage_return L \<longleftrightarrow> looking_at L [CR] \<and> \<not> looking_at L [CR, NL]"

definition is_identifier_start :: "char \<Rightarrow> bool" where
  "is_identifier_start b \<longleftrightarrow> is_ascii_alphabetic b \<or> b = CHR ''_''"

definition is_identifier_continue :: "char \<Rightarrow> bool" where
  "is_identifier_continue b \<longleftrightarrow> is_identifier_start b \<or> is_ascii_digit b"

definition is_blank :: "char \<Rightarrow> bool" where
  "is_blank b \<longleftrightarrow> b = CHR '' '' \<or> b = TAB"

text \<open>The panics: decoding past the end, a span off the boundaries, an empty token.\<close>

definition advance_scalar :: "lexer \<Rightarrow> lexer option" where
  "advance_scalar L =
     (case chars (rest L) of [] \<Rightarrow> None | c # _ \<Rightarrow> Some (advance (len_utf8 c) L))"

definition push :: "token_kind \<Rightarrow> nat \<Rightarrow> lexer \<Rightarrow> lexer option" where
  "push k start L = do {
     sp \<leftarrow> expect_ok (source_span (lx_source L) start (lx_position L));
     (if span_is_empty sp then None
      else Some (L\<lparr>lx_tokens := lx_tokens L @ [\<lparr>tk_kind = k, tk_span = sp\<rparr>]\<rparr>))
   }"

text \<open>A call of a \<open>lex_*\<close> method that emits one token of kind \<open>k\<close> after moving to \<open>L\<close>.\<close>

definition emit :: "token_kind \<Rightarrow> nat \<Rightarrow> lexer \<Rightarrow> (bool \<times> lexer) option" where
  "emit k start L = map_option (Pair True) (push k start L)"

definition decline :: "lexer \<Rightarrow> (bool \<times> lexer) option" where
  "decline L = Some (False, L)"

definition enter :: "lex_context \<Rightarrow> lexer \<Rightarrow> lexer" where
  "enter c L = L\<lparr>lx_contexts := lx_contexts L @ [c]\<rparr>"

definition leave :: "lexer \<Rightarrow> lexer" where
  "leave L = L\<lparr>lx_contexts := butlast (lx_contexts L)\<rparr>"

text \<open>The two kinds of loops: over bytes that satisfy a predicate, and over scalar values until a stop
  condition of the state.\<close>

definition skip_bytes :: "(char \<Rightarrow> bool) \<Rightarrow> lexer \<Rightarrow> lexer" where
  "skip_bytes p L = advance (length (takeWhile p (rest L))) L"

lemma advance_sel [simp]:
  "lx_source (advance n L) = lx_source L"
  "lx_language (advance n L) = lx_language L"
  "lx_position (advance n L) = lx_position L + n"
  "lx_tokens (advance n L) = lx_tokens L"
  "lx_contexts (advance n L) = lx_contexts L"
  by (simp_all add: advance_def)

lemma advance_scalar_SomeD:
  "advance_scalar L = Some L' \<Longrightarrow> \<exists>n. 0 < n \<and> L' = advance n L"
  using len_utf8_pos by (auto simp: advance_scalar_def split: list.splits intro: exI [of _ "len_utf8 c" for c])

function scan_scalars :: "(lexer \<Rightarrow> bool) \<Rightarrow> lexer \<Rightarrow> lexer option" where
  "scan_scalars stop L =
     (if in_bounds L \<and> \<not> stop L
      then (case advance_scalar L of None \<Rightarrow> None | Some L' \<Rightarrow> scan_scalars stop L')
      else Some L)"
  by pat_completeness auto
termination
  by (relation "measure (\<lambda>(_, L). source_len (lx_source L) - lx_position L)")
    (auto simp: in_bounds_def dest!: advance_scalar_SomeD)

declare scan_scalars.simps [simp del]

section \<open>The tables\<close>

definition keyword_of :: "string \<Rightarrow> lex_language \<Rightarrow> keyword option" where
  "keyword_of t lang =
     (if t = ''action'' \<and> lang = LexV2 then Some KwAction
      else if t = ''break'' then Some KwBreak
      else if t = ''catch'' then Some KwCatch
      else if t = ''continue'' then Some KwContinue
      else if t = ''def'' then Some KwDef
      else if t = ''else'' then Some KwElse
      else if t = ''enum'' \<and> lang = LexV2 then Some KwEnum
      else if t = ''export'' then Some KwExport
      else if t = ''false'' then Some KwFalse
      else if t = ''for'' then Some KwFor
      else if t = ''if'' then Some KwIf
      else if t = ''import'' then Some KwImport
      else if t = ''in'' then Some KwIn
      else if t = ''language'' \<and> lang = LexV2 then Some KwLanguage
      else if t = ''let'' then Some KwLet
      else if t = ''match'' then Some KwMatch
      else if t = ''mut'' then Some KwMut
      else if t = ''null'' then Some KwNull
      else if t = ''return'' then Some KwReturn
      else if t = ''task'' \<and> lang = LexV2 then Some KwTask
      else if t = ''throw'' then Some KwThrow
      else if t = ''true'' then Some KwTrue
      else if t = ''try'' then Some KwTry
      else if t = ''type'' \<and> lang = LexV2 then Some KwType
      else if t = ''unset'' then Some KwUnset
      else if t = ''while'' then Some KwWhile
      else None)"

definition operators :: "(string \<times> operator) list" where
  "operators =
     [(''...'', OpSpread), (''..='', OpRangeInclusive), (''&&'', OpAnd), (''||'', OpOr),
      (''|&'', OpPipeBoth), (''>>'', OpAppend), (''>&'', OpDuplicate), (''->'', OpArrow),
      (''=>'', OpMatchArrow), (''=='', OpEqual), (''!='', OpNotEqual), (''<='', OpLessEqual),
      (''>='', OpGreaterEqual), (''..'', OpRange), ('';'', OpSemicolon), (''|'', OpPipe),
      (''&'', OpBackground), (''<'', OpLess), (''>'', OpGreater), (''='', OpAssign),
      (''+'', OpPlus), (''-'', OpMinus), (''*'', OpStar), (''/'', OpSlash), (''%'', OpPercent),
      (''!'', OpBang), (''.'', OpDot), ('','', OpComma), ('':'', OpColon), (''^'', OpCaret)]"

definition delimiter_of_byte :: "char \<Rightarrow> delimiter option" where
  "delimiter_of_byte b =
     (if b = CHR ''('' then Some DlLeftParenthesis
      else if b = CHR '')'' then Some DlRightParenthesis
      else if b = CHR ''{'' then Some DlLeftBrace
      else if b = CHR ''}'' then Some DlRightBrace
      else if b = CHR ''['' then Some DlLeftBracket
      else if b = CHR '']'' then Some DlRightBracket
      else None)"

definition operator_or_delimiter_starts_here :: "lexer \<Rightarrow> bool" where
  "operator_or_delimiter_starts_here L =
     is_some_and (\<lambda>b. b \<in> set '';|&<>(){}[]=+-*/%!.,:^'') (current_byte L)"

definition unicode_escape_error :: "string \<Rightarrow> invalid_token_kind option" where
  "unicode_escape_error spelling =
     (case Option.bind (strip_prefix (BSLASH # ''u{'') spelling) (strip_suffix ''}'') of
        None \<Rightarrow> Some IvMalformedUnicodeEscape
      | Some hexadecimal \<Rightarrow>
          if hexadecimal = [] then Some IvEmptyUnicodeEscape
          else if 6 < length hexadecimal then Some IvMalformedUnicodeEscape
          else (case u32_from_hex hexadecimal of
                  None \<Rightarrow> Some IvMalformedUnicodeEscape
                | Some v \<Rightarrow>
                    if 0x10FFFF < v then Some IvUnicodeOutOfRange
                    else if 0xD800 \<le> v \<and> v \<le> 0xDFFF then Some IvUnicodeSurrogate
                    else None))"

section \<open>Boundaries of words and comments\<close>

definition boundary_kind :: "token_kind \<Rightarrow> bool" where
  "boundary_kind k =
     (case k of
        TkWhitespace \<Rightarrow> True
      | TkNewline \<Rightarrow> True
      | TkOperator o' \<Rightarrow>
          o' \<in> {OpSemicolon, OpPipe, OpPipeBoth, OpBackground, OpAnd, OpOr, OpLess, OpGreater,
               OpAppend, OpDuplicate}
      | TkBracedExpansionStart \<Rightarrow> True
      | TkCommandSubstitutionStart \<Rightarrow> True
      | TkDelimiter _ \<Rightarrow> True
      | _ \<Rightarrow> False)"

definition is_token_boundary :: "lexer \<Rightarrow> bool" where
  "is_token_boundary L \<longleftrightarrow>
     lx_position L = 0 \<or> (lx_tokens L \<noteq> [] \<and> boundary_kind (tk_kind (last (lx_tokens L))))"

definition is_expansion_start :: "lexer \<Rightarrow> bool" where
  "is_expansion_start L \<longleftrightarrow>
     looking_at L ''$'' \<and>
     (looking_at L ''${'' \<or> looking_at L ''$('' \<or> is_some_and is_identifier_start (peek_byte 1 L))"

text \<open>\<open>text[..start].rfind('\n')\<close> gives the start of the line of the comment.\<close>

definition starts_documentation_comment :: "lexer \<Rightarrow> nat \<Rightarrow> bool" where
  "starts_documentation_comment L start =
     (let text = sf_text (lx_source L);
          line_start' = (case rposition (\<lambda>b. b = NL) (take start text) of None \<Rightarrow> 0 | Some i \<Rightarrow> i + 1)
      in starts_with (drop start text) ''##'' \<and> list_all is_blank (cut line_start' start text))"

definition exponent_has_digits :: "lexer \<Rightarrow> bool" where
  "exponent_has_digits L =
     (let offset = (if is_some_and (\<lambda>b. b = CHR ''+'' \<or> b = CHR ''-'') (peek_byte 1 L) then 2 else 1)
      in is_some_and is_ascii_digit (peek_byte offset L))"

definition consume_digits :: "(char \<Rightarrow> bool) \<Rightarrow> lexer \<Rightarrow> lexer" where
  "consume_digits accepts L = skip_bytes (\<lambda>b. accepts b \<or> b = CHR ''_'') L"

section \<open>The token functions\<close>

definition lex_invalid_source_character :: "lexer \<Rightarrow> (bool \<times> lexer) option" where
  "lex_invalid_source_character L =
     (if looking_at L [NUL] then emit (TkInvalid IvNul) (lx_position L) (advance 1 L)
      else if is_lone_carriage_return L then
        emit (TkInvalid IvLoneCarriageReturn) (lx_position L) (advance 1 L)
      else decline L)"

definition lex_horizontal_trivia :: "lexer \<Rightarrow> (bool \<times> lexer) option" where
  "lex_horizontal_trivia L =
     (if \<not> is_some_and is_blank (current_byte L) then decline L
      else emit TkWhitespace (lx_position L) (skip_bytes is_blank L))"

definition lex_newline :: "lexer \<Rightarrow> (bool \<times> lexer) option" where
  "lex_newline L =
     (if looking_at L [CR, NL] then emit TkNewline (lx_position L) (advance 2 L)
      else if looking_at L [NL] then emit TkNewline (lx_position L) (advance 1 L)
      else decline L)"

definition lex_bare_escape :: "lexer \<Rightarrow> (bool \<times> lexer) option" where
  "lex_bare_escape L =
     (if \<not> looking_at L [BSLASH] then decline L
      else
        (let start = lx_position L; M = advance 1 L in
         if looking_at M [CR, NL] then emit TkLineContinuation start (advance 2 M)
         else if looking_at M [NL] then emit TkLineContinuation start (advance 1 M)
         else if in_bounds M \<and> \<not> looking_at M [NUL] \<and> \<not> is_lone_carriage_return M
         then do { N \<leftarrow> advance_scalar M; emit TkBareEscape start N }
         else emit TkBareEscape start M))"

definition lex_comment :: "lexer \<Rightarrow> (bool \<times> lexer) option" where
  "lex_comment L =
     (if \<not> looking_at L ''#'' \<or> \<not> is_token_boundary L then decline L
      else do {
        M \<leftarrow> scan_scalars (\<lambda>M. looking_at M [NL] \<or> looking_at M [CR, NL] \<or>
               is_lone_carriage_return M \<or> looking_at M [NUL]) L;
        emit (if starts_documentation_comment M (lx_position L) then TkDocumentationComment
              else TkComment) (lx_position L) M
      })"

definition lex_single_quoted :: "lexer \<Rightarrow> (bool \<times> lexer) option" where
  "lex_single_quoted L =
     (if \<not> looking_at L [SQUOTE] then decline L
      else do {
        M \<leftarrow> scan_scalars (\<lambda>M. looking_at M [SQUOTE] \<or> looking_at M [NUL] \<or>
               is_lone_carriage_return M) (advance 1 L);
        emit TkSingleQuoted (lx_position L)
          (if in_bounds M \<and> looking_at M [SQUOTE] then advance 1 M else M)
      })"

definition lex_double_quote_start :: "lexer \<Rightarrow> (bool \<times> lexer) option" where
  "lex_double_quote_start L =
     (if \<not> looking_at L [DQUOTE] then decline L
      else do {
        M \<leftarrow> push TkDoubleQuoteStart (lx_position L) (advance 1 L);
        Some (True, enter CxDoubleQuoted M)
      })"

definition lex_double_escape :: "lexer \<Rightarrow> (bool \<times> lexer) option" where
  "lex_double_escape L =
     (if \<not> looking_at L [BSLASH] then decline L
      else
        (let start = lx_position L; M = advance 1 L in
         if looking_at M [CR, NL] then emit TkLineContinuation start (advance 2 M)
         else if looking_at M [NL] then emit TkLineContinuation start (advance 1 M)
         else if looking_at M ''u{'' then
           (let N = skip_bytes is_ascii_hexdigit (advance 2 M);
                E = (if looking_at N ''}'' then advance 1 N else N);
                spelling = cut start (lx_position E) (sf_text (lx_source E))
            in emit (case unicode_escape_error spelling of None \<Rightarrow> TkDoubleEscape
                     | Some e \<Rightarrow> TkInvalid e) start E)
         else
           (case current_byte M of
              None \<Rightarrow> emit (TkInvalid IvUnknownDoubleEscape) start M
            | Some b \<Rightarrow>
                if b \<in> {BSLASH, DQUOTE, CHR ''$'', CHR ''n'', CHR ''r'', CHR ''t'', CHR ''0''}
                then emit TkDoubleEscape start (advance 1 M)
                else do { N \<leftarrow> advance_scalar M; emit (TkInvalid IvUnknownDoubleEscape) start N })))"

text \<open>\<open>text.get(position + 1..)\<close> is \<open>None\<close> off a boundary.\<close>

definition lex_expansion_start :: "lexer \<Rightarrow> (bool \<times> lexer) option" where
  "lex_expansion_start L =
     (let start = lx_position L in
      if \<not> looking_at L ''$'' then decline L
      else if looking_at L ''${'' then do {
        M \<leftarrow> push TkBracedExpansionStart start (advance 2 L);
        Some (True, enter (CxBraced 0) M)
      }
      else if looking_at L ''$('' then do {
        M \<leftarrow> push TkCommandSubstitutionStart start (advance 2 L);
        Some (True, enter (CxCommand 0) M)
      }
      else if is_char_boundary (sf_text (lx_source L)) (start + 1) \<and>
          is_some_and is_identifier_start (peek_byte 1 L)
      then emit TkVariable start (skip_bytes is_identifier_continue (advance 2 L))
      else decline L)"

definition close_interpolation_if_needed :: "lexer \<Rightarrow> (bool \<times> lexer) option" where
  "close_interpolation_if_needed L =
     (let top = (if lx_contexts L = [] then None else Some (last (lx_contexts L))) in
      if (top = Some (CxBraced 0) \<and> current_byte L = Some (CHR ''}'')) \<or>
         (top = Some (CxCommand 0) \<and> current_byte L = Some (CHR '')''))
      then do {
        M \<leftarrow> push (TkDelimiter (if current_byte L = Some (CHR ''}'') then DlRightBrace
                                else DlRightParenthesis)) (lx_position L) (advance 1 L);
        Some (True, leave M)
      }
      else decline L)"

fun nest_context :: "delimiter \<Rightarrow> lex_context \<Rightarrow> lex_context" where
  "nest_context DlLeftBrace (CxBraced n) = CxBraced (n + 1)"
| "nest_context DlLeftParenthesis (CxCommand n) = CxCommand (n + 1)"
| "nest_context DlRightBrace (CxBraced n) = (if 0 < n then CxBraced (n - 1) else CxBraced n)"
| "nest_context DlRightParenthesis (CxCommand n) = (if 0 < n then CxCommand (n - 1) else CxCommand n)"
| "nest_context _ c = c"

definition note_nested_interpolation :: "delimiter \<Rightarrow> lexer \<Rightarrow> lexer" where
  "note_nested_interpolation d L =
     (if lx_contexts L = [] then L
      else L\<lparr>lx_contexts := butlast (lx_contexts L) @ [nest_context d (last (lx_contexts L))]\<rparr>)"

definition lex_operator_or_delimiter :: "lexer \<Rightarrow> (bool \<times> lexer) option" where
  "lex_operator_or_delimiter L =
     (case close_interpolation_if_needed L of
        None \<Rightarrow> None
      | Some (True, M) \<Rightarrow> Some (True, M)
      | Some (False, _) \<Rightarrow>
          (case find (\<lambda>(spelling, _). looking_at L spelling) operators of
             Some (spelling, o') \<Rightarrow> emit (TkOperator o') (lx_position L) (advance (length spelling) L)
           | None \<Rightarrow>
               (case Option.bind (current_byte L) delimiter_of_byte of
                  None \<Rightarrow> decline L
                | Some d \<Rightarrow>
                    emit (TkDelimiter d) (lx_position L) (advance 1 (note_nested_interpolation d L)))))"

definition lex_identifier :: "lexer \<Rightarrow> (bool \<times> lexer) option" where
  "lex_identifier L =
     (if \<not> is_some_and is_identifier_start (current_byte L) then decline L
      else
        (let M = skip_bytes is_identifier_continue (advance 1 L);
             t = cut (lx_position L) (lx_position M) (sf_text (lx_source M))
         in emit (case keyword_of t (lx_language L) of None \<Rightarrow> TkIdentifier | Some k \<Rightarrow> TkKeyword k)
              (lx_position L) M))"

definition lex_fraction :: "lexer \<Rightarrow> number_kind \<times> lexer" where
  "lex_fraction M =
     (if current_byte M = Some (CHR ''.'') \<and> is_some_and is_ascii_digit (peek_byte 1 M)
      then (NumFloat, consume_digits is_ascii_digit (advance 1 M))
      else (NumInteger, M))"

definition lex_exponent :: "number_kind \<times> lexer \<Rightarrow> number_kind \<times> lexer" where
  "lex_exponent = (\<lambda>(kind, M).
     if is_some_and (\<lambda>b. b = CHR ''e'' \<or> b = CHR ''E'') (current_byte M) \<and> exponent_has_digits M
     then
       (let N = advance 1 M;
            N' = (if is_some_and (\<lambda>b. b = CHR ''+'' \<or> b = CHR ''-'') (current_byte N)
                  then advance 1 N else N)
        in (NumFloat, consume_digits is_ascii_digit N'))
     else (kind, M))"

definition lex_number :: "lexer \<Rightarrow> (bool \<times> lexer) option" where
  "lex_number L =
     (let start = lx_position L in
      if \<not> is_some_and is_ascii_digit (current_byte L) then decline L
      else if looking_at L ''0x'' \<or> looking_at L ''0X'' then
        emit (TkNumber NumInteger) start (consume_digits is_ascii_hexdigit (advance 2 L))
      else if looking_at L ''0o'' \<or> looking_at L ''0O'' then
        emit (TkNumber NumInteger) start
          (consume_digits (\<lambda>b. b \<in> set ''01234567'') (advance 2 L))
      else if looking_at L ''0b'' \<or> looking_at L ''0B'' then
        emit (TkNumber NumInteger) start
          (consume_digits (\<lambda>b. b = CHR ''0'' \<or> b = CHR ''1'') (advance 2 L))
      else
        (let (kind, M) = lex_exponent (lex_fraction (consume_digits is_ascii_digit L))
         in emit (TkNumber kind) start M))"

definition word_stop :: "lexer \<Rightarrow> bool" where
  "word_stop M \<longleftrightarrow>
     is_some_and (\<lambda>b. b \<in> {CHR '' '', TAB, NL, CR, BSLASH, SQUOTE, DQUOTE}) (current_byte M) \<or>
     is_expansion_start M \<or> operator_or_delimiter_starts_here M \<or>
     (current_byte M = Some (CHR ''#'') \<and> is_token_boundary M) \<or> current_byte M = Some NUL"

definition lex_word_text :: "lexer \<Rightarrow> lexer option" where
  "lex_word_text L = do {
     M \<leftarrow> scan_scalars word_stop L;
     N \<leftarrow> (if lx_position M = lx_position L then advance_scalar M else Some M);
     push TkWordText (lx_position L) N
   }"

section \<open>The run\<close>

fun first_lexer :: "(lexer \<Rightarrow> (bool \<times> lexer) option) list \<Rightarrow> lexer \<Rightarrow> (bool \<times> lexer) option" where
  "first_lexer [] L = decline L"
| "first_lexer (f # fs) L =
     (case f L of
        None \<Rightarrow> None
      | Some (b, M) \<Rightarrow> if b then Some (True, M) else first_lexer fs M)"

definition lex_normal :: "lexer \<Rightarrow> lexer option" where
  "lex_normal L =
     (case first_lexer
        [lex_invalid_source_character, lex_horizontal_trivia, lex_newline, lex_bare_escape,
         lex_comment, lex_single_quoted, lex_double_quote_start, lex_expansion_start,
         lex_operator_or_delimiter, lex_identifier, lex_number] L of
        None \<Rightarrow> None
      | Some (b, M) \<Rightarrow> if b then Some M else lex_word_text M)"

definition double_text_stop :: "lexer \<Rightarrow> bool" where
  "double_text_stop M \<longleftrightarrow>
     looking_at M [DQUOTE] \<or> looking_at M [BSLASH] \<or> is_expansion_start M \<or> looking_at M [NUL] \<or>
     is_lone_carriage_return M"

definition lex_double_quoted :: "lexer \<Rightarrow> lexer option" where
  "lex_double_quoted L =
     (if looking_at L [DQUOTE] then
        map_option leave (push TkDoubleQuoteEnd (lx_position L) (advance 1 L))
      else
        (case first_lexer [lex_invalid_source_character, lex_double_escape, lex_expansion_start] L of
           None \<Rightarrow> None
         | Some (b, M) \<Rightarrow>
             if b then Some M
             else do {
               N \<leftarrow> scan_scalars double_text_stop M;
               push TkDoubleText (lx_position M) N
             }))"

definition lex_step :: "lexer \<Rightarrow> lexer option" where
  "lex_step L =
     (case (if lx_contexts L = [] then CxNormal else last (lx_contexts L)) of
        CxDoubleQuoted \<Rightarrow> lex_double_quoted L
      | CxNormal \<Rightarrow> lex_normal L
      | CxBraced _ \<Rightarrow> lex_normal L
      | CxCommand _ \<Rightarrow> lex_normal L)"

text \<open>No token function touches the source or the language; the run below terminates by it.\<close>

lemma advance_scalar_keeps:
  "advance_scalar L = Some M \<Longrightarrow> lx_source M = lx_source L \<and> lx_language M = lx_language L"
  by (auto dest: advance_scalar_SomeD)

lemma scan_scalars_keeps:
  "scan_scalars stop L = Some M \<Longrightarrow> lx_source M = lx_source L \<and> lx_language M = lx_language L"
proof (induction stop L rule: scan_scalars.induct)
  case (1 stop L)
  then show ?case
    by (subst (asm) (2) scan_scalars.simps)
      (auto split: if_splits option.splits dest: advance_scalar_keeps)
qed

lemma push_keeps:
  "push k start L = Some M \<Longrightarrow> lx_source M = lx_source L \<and> lx_language M = lx_language L"
  by (auto simp: push_def Option.bind_eq_Some_conv split: if_splits)

lemma emit_keeps:
  "emit k start L = Some (b, M) \<Longrightarrow> lx_source M = lx_source L \<and> lx_language M = lx_language L"
  by (auto simp: emit_def dest: push_keeps)

definition keeps_source :: "(lexer \<Rightarrow> (bool \<times> lexer) option) \<Rightarrow> bool" where
  "keeps_source f \<longleftrightarrow>
     (\<forall>L b M. f L = Some (b, M) \<longrightarrow> lx_source M = lx_source L \<and> lx_language M = lx_language L)"

lemma skip_bytes_sel [simp]:
  "lx_source (skip_bytes p L) = lx_source L" "lx_language (skip_bytes p L) = lx_language L"
  "lx_source (consume_digits p L) = lx_source L" "lx_language (consume_digits p L) = lx_language L"
  by (simp_all add: skip_bytes_def consume_digits_def)

lemma context_sel [simp]:
  "lx_source (enter c L) = lx_source L" "lx_language (enter c L) = lx_language L"
  "lx_source (leave L) = lx_source L" "lx_language (leave L) = lx_language L"
  "lx_source (note_nested_interpolation d L) = lx_source L"
  "lx_language (note_nested_interpolation d L) = lx_language L"
  by (simp_all add: enter_def leave_def note_nested_interpolation_def)

lemma number_parts_keep [simp]:
  "lx_source (snd (lex_fraction L)) = lx_source L"
  "lx_language (snd (lex_fraction L)) = lx_language L"
  "lx_source (snd (lex_exponent p)) = lx_source (snd p)"
  "lx_language (snd (lex_exponent p)) = lx_language (snd p)"
  by (auto simp: lex_fraction_def lex_exponent_def Let_def split: prod.splits)

lemmas keeps_dests = emit_keeps push_keeps scan_scalars_keeps advance_scalar_keeps

lemma lex_invalid_source_character_keeps: "keeps_source lex_invalid_source_character"
  unfolding keeps_source_def lex_invalid_source_character_def decline_def Let_def
  by (auto simp: Option.bind_eq_Some_conv split: if_splits option.splits dest!: keeps_dests)

lemma lex_horizontal_trivia_keeps: "keeps_source lex_horizontal_trivia"
  unfolding keeps_source_def lex_horizontal_trivia_def decline_def Let_def
  by (auto simp: Option.bind_eq_Some_conv split: if_splits option.splits dest!: keeps_dests)

lemma lex_newline_keeps: "keeps_source lex_newline"
  unfolding keeps_source_def lex_newline_def decline_def Let_def
  by (auto simp: Option.bind_eq_Some_conv split: if_splits option.splits dest!: keeps_dests)

lemma lex_bare_escape_keeps: "keeps_source lex_bare_escape"
  unfolding keeps_source_def lex_bare_escape_def decline_def Let_def
  by (auto simp: Option.bind_eq_Some_conv split: if_splits option.splits dest!: keeps_dests)

lemma lex_comment_keeps: "keeps_source lex_comment"
  unfolding keeps_source_def lex_comment_def decline_def Let_def
  by (auto simp: Option.bind_eq_Some_conv split: if_splits option.splits dest!: keeps_dests)

lemma lex_single_quoted_keeps: "keeps_source lex_single_quoted"
  unfolding keeps_source_def lex_single_quoted_def decline_def Let_def
  by (auto simp: Option.bind_eq_Some_conv split: if_splits option.splits dest!: keeps_dests)

lemma lex_double_quote_start_keeps: "keeps_source lex_double_quote_start"
  unfolding keeps_source_def lex_double_quote_start_def decline_def Let_def
  by (auto simp: Option.bind_eq_Some_conv split: if_splits option.splits dest!: keeps_dests)

lemma if_keeps:
  "(if c then x else y) = Some p \<Longrightarrow> (c \<Longrightarrow> x = Some p \<Longrightarrow> P) \<Longrightarrow> (\<not> c \<Longrightarrow> y = Some p \<Longrightarrow> P) \<Longrightarrow> P"
  by (cases c) simp_all

lemma lex_double_escape_keeps: "keeps_source lex_double_escape"
proof -
  have E: "lx_source (if c then advance n N else N) = lx_source N"
    "lx_language (if c then advance n N else N) = lx_language N" for c n and N :: lexer
    by simp_all
  have "lx_source M = lx_source L \<and> lx_language M = lx_language L"
    if "lex_double_escape L = Some (b, M)" for L b M
    using that unfolding lex_double_escape_def decline_def Let_def
    by (elim if_keeps)
      (auto simp: Option.bind_eq_Some_conv E split: option.split_asm elim!: if_keeps
        dest!: emit_keeps advance_scalar_keeps)
  then show ?thesis by (simp add: keeps_source_def)
qed

lemma lex_expansion_start_keeps: "keeps_source lex_expansion_start"
  unfolding keeps_source_def lex_expansion_start_def decline_def Let_def
  by (auto simp: Option.bind_eq_Some_conv split: if_splits option.splits dest!: keeps_dests)

lemma close_interpolation_if_needed_keeps: "keeps_source close_interpolation_if_needed"
  unfolding keeps_source_def close_interpolation_if_needed_def decline_def Let_def
  by (auto simp: Option.bind_eq_Some_conv split: if_splits option.splits dest!: keeps_dests)

lemma lex_identifier_keeps: "keeps_source lex_identifier"
  unfolding keeps_source_def lex_identifier_def decline_def Let_def
  by (auto simp: Option.bind_eq_Some_conv split: if_splits option.splits dest!: keeps_dests)

lemmas token_functions_keep_source =
  lex_invalid_source_character_keeps lex_horizontal_trivia_keeps lex_newline_keeps lex_bare_escape_keeps lex_comment_keeps lex_single_quoted_keeps lex_double_quote_start_keeps lex_double_escape_keeps lex_expansion_start_keeps close_interpolation_if_needed_keeps lex_identifier_keeps

lemma lex_operator_or_delimiter_keeps_source: "keeps_source lex_operator_or_delimiter"
proof -
  have close: "lx_source M = lx_source L \<and> lx_language M = lx_language L"
    if "close_interpolation_if_needed L = Some (b, M)" for L b M
    using that close_interpolation_if_needed_keeps by (auto simp: keeps_source_def)
  show ?thesis
    unfolding keeps_source_def lex_operator_or_delimiter_def decline_def
    by (auto split: option.splits prod.splits bool.splits dest!: close emit_keeps)
qed

lemma lex_number_keeps_source: "keeps_source lex_number"
proof -
  have exponent: "lx_source M = lx_source L \<and> lx_language M = lx_language L"
    if "lex_exponent (lex_fraction L) = (k, M)" for L k M
    using that number_parts_keep(1,2) [of L] number_parts_keep(3,4) [of "lex_fraction L"] by simp
  show ?thesis
    unfolding keeps_source_def lex_number_def decline_def Let_def
    by (auto split: if_splits prod.splits dest!: exponent emit_keeps)
qed

lemma first_lexer_keeps:
  "list_all keeps_source fs \<Longrightarrow> first_lexer fs L = Some (b, M) \<Longrightarrow>
     lx_source M = lx_source L \<and> lx_language M = lx_language L"
proof (induction fs arbitrary: L)
  case Nil
  then show ?case by (simp add: decline_def)
next
  case (Cons f fs)
  then obtain b' N where N: "f L = Some (b', N)" by (auto split: option.splits)
  with Cons.prems(1) have "lx_source N = lx_source L \<and> lx_language N = lx_language L"
    by (auto simp: keeps_source_def)
  with Cons N show ?case by (cases b') auto
qed

lemma lex_step_keeps:
  assumes "lex_step L = Some M"
  shows "lx_source M = lx_source L \<and> lx_language M = lx_language L"
proof -
  have word: "lx_source M = lx_source L \<and> lx_language M = lx_language L"
    if "lex_word_text L = Some M" for L M
    using that by (auto simp: lex_word_text_def Option.bind_eq_Some_conv split: if_splits
        dest!: keeps_dests)
  have normal: "lx_source M = lx_source L \<and> lx_language M = lx_language L"
    if "lex_normal L = Some M" for L M
    using that token_functions_keep_source lex_operator_or_delimiter_keeps_source lex_number_keeps_source
    by (auto simp: lex_normal_def simp del: first_lexer.simps split: option.splits if_splits
        dest!: word first_lexer_keeps [rotated])
  have quoted: "lx_source M = lx_source L \<and> lx_language M = lx_language L"
    if "lex_double_quoted L = Some M" for L M
    using that token_functions_keep_source
    by (auto simp: lex_double_quoted_def Option.bind_eq_Some_conv simp del: first_lexer.simps
        split: option.splits if_splits dest!: push_keeps scan_scalars_keeps first_lexer_keeps [rotated])
  from assms normal quoted show ?thesis
    by (auto simp: lex_step_def split: if_splits lex_context.splits)
qed

text \<open>
  \<open>run_with_control\<close>: \<open>cancelled n\<close> is the answer of the \<open>n\<close>-th call of \<open>is_cancelled\<close>. The outer option is
  the panic (also that of the progress assertion), the inner one the code's result.
\<close>

function lex_loop :: "(nat \<Rightarrow> bool) \<Rightarrow> nat \<Rightarrow> lexer \<Rightarrow> token list option option" where
  "lex_loop cancelled n L =
     (if in_bounds L then
        (if cancelled n then Some None
         else (case lex_step L of
                 None \<Rightarrow> None
               | Some M \<Rightarrow>
                   if lx_position L < lx_position M then lex_loop cancelled (Suc n) M else None))
      else Some (if cancelled n then None else Some (lx_tokens L)))"
  by pat_completeness auto
termination
  by (relation "measure (\<lambda>(_, _, L). source_len (lx_source L) - lx_position L)")
    (auto simp: in_bounds_def dest!: lex_step_keeps)

declare lex_loop.simps [simp del]

definition lex_with_control :: "lex_language \<Rightarrow> source_file \<Rightarrow> (nat \<Rightarrow> bool) \<Rightarrow> token list option option" where
  "lex_with_control lang src cancelled = lex_loop cancelled 0 (lexer_new src lang)"

text \<open>\<open>lex\<close> and \<open>lex_v2\<close>: the \<open>expect\<close> on a run that nothing cancels is the outer \<open>None\<close> again.\<close>

definition lex_language_tokens :: "lex_language \<Rightarrow> source_file \<Rightarrow> token list option" where
  "lex_language_tokens lang src =
     (case lex_with_control lang src (\<lambda>_. False) of None \<Rightarrow> None | Some r \<Rightarrow> r)"

definition lex :: "source_file \<Rightarrow> token list option" where
  "lex src = lex_language_tokens LexV1 src"

definition lex_v2 :: "source_file \<Rightarrow> token list option" where
  "lex_v2 src = lex_language_tokens LexV2 src"

end
