(* ===== verification/Lexer_Proofs.thy ===== *)
theory Lexer_Proofs
  imports Lexer
begin

text \<open>
  What the lexer guarantees. A token function either declines and leaves the lexer alone, or emits
  one nonempty token whose text has the shape of its kind and moves to the end of it (\<open>emits\<close>); the
  contexts change as the automaton \<open>context_after\<close> over token kinds says. From this: no panic, the
  tokens tile the source, the token kinds determine the mode of the lexer, and the two language
  majors differ in the reserved words only.
\<close>

section \<open>Positions on a valid source\<close>

definition lexer_ok :: "lexer \<Rightarrow> bool" where
  "lexer_ok L \<longleftrightarrow>
     utf8_valid (sf_text (lx_source L)) \<and> is_char_boundary (sf_text (lx_source L)) (lx_position L)"

lemma advance_0 [simp]: "advance 0 L = L"
  by (simp add: advance_def)

lemma advance_add [simp]: "advance m (advance n L) = advance (n + m) L"
  by (simp add: advance_def add.assoc)

lemma rest_advance [simp]: "rest (advance n L) = drop n (rest L)"
  by (simp add: rest_def add.commute)

lemma in_bounds_rest: "in_bounds L \<longleftrightarrow> rest L \<noteq> []"
  by (simp add: in_bounds_def rest_def source_len_def not_le)

lemma current_byte_rest: "current_byte L = (case rest L of [] \<Rightarrow> None | b # _ \<Rightarrow> Some b)"
proof (cases "lx_position L < length (sf_text (lx_source L))")
  case True
  then show ?thesis by (simp add: current_byte_def rest_def get_nth_def Cons_nth_drop_Suc [symmetric])
qed (simp add: current_byte_def rest_def get_nth_def)

lemma peek_byte_rest: "peek_byte n L = get_nth (rest L) n"
  by (auto simp: peek_byte_def rest_def get_nth_def nth_drop add.commute)

lemma looking_at_rest: "looking_at L s \<longleftrightarrow> (\<exists>r. rest L = s @ r)"
  by (simp add: looking_at_def starts_with_iff)

lemma lexer_ok_rest: "lexer_ok L \<Longrightarrow> utf8_valid (rest L)"
  by (simp add: lexer_ok_def rest_def utf8_valid_drop)

lemma lexer_ok_advance:
  assumes ok: "lexer_ok L" and r: "rest L = t @ r" and v: "utf8_valid r"
  shows "lexer_ok (advance (length t) L)"
proof -
  let ?s = "sf_text (lx_source L)"
  have len: "lx_position L \<le> length ?s" using ok by (simp add: lexer_ok_def is_char_boundary_le)
  have s: "?s = (take (lx_position L) ?s @ t) @ r"
    using r unfolding rest_def by (metis append.assoc append_take_drop_id)
  have "is_char_boundary ((take (lx_position L) ?s @ t) @ r) (length (take (lx_position L) ?s @ t))"
    using v by (rule is_char_boundary_valid_append)
  with s len have "is_char_boundary ?s (lx_position L + length t)" by simp
  with ok show ?thesis by (simp add: lexer_ok_def)
qed

lemma lexer_ok_ascii:
  "lexer_ok L \<Longrightarrow> rest L = t @ r \<Longrightarrow> list_all is_ascii t \<Longrightarrow> lexer_ok (advance (length t) L) \<and> utf8_valid r"
proof (induction t arbitrary: L)
  case Nil
  then show ?case using lexer_ok_rest [of L] by simp
next
  case (Cons b t)
  have "utf8_valid (t @ r)" using lexer_ok_rest [OF Cons.prems(1)] Cons.prems(2,3) by simp
  with Cons.prems have "lexer_ok (advance 1 L)" using lexer_ok_advance [of L "[b]" "t @ r"] by simp
  from Cons.IH [OF this] Cons.prems(2,3) show ?case by simp
qed

lemma cut_rest:
  assumes "rest L = t @ r"
  shows "cut (lx_position L) (lx_position L + length t) (sf_text (lx_source L)) = t"
  using assms by (simp add: cut_def rest_def [symmetric])

section \<open>Emitting a token\<close>

definition is_number_byte :: "char \<Rightarrow> bool" where
  "is_number_byte b \<longleftrightarrow> is_ascii_alphanumeric b \<or> b \<in> {CHR ''_'', CHR ''.'', CHR ''+'', CHR ''-''}"

definition token_shape :: "lex_language \<Rightarrow> token_kind \<Rightarrow> string \<Rightarrow> bool" where
  "token_shape lang k t =
     (case k of
        TkWhitespace \<Rightarrow> list_all is_blank t
      | TkNewline \<Rightarrow> t = [NL] \<or> t = [CR, NL]
      | TkLineContinuation \<Rightarrow> t = [BSLASH, NL] \<or> t = [BSLASH, CR, NL]
      | TkComment \<Rightarrow> hd t = CHR ''#'' \<and> NL \<notin> set t \<and> NUL \<notin> set t
      | TkDocumentationComment \<Rightarrow> starts_with t ''##'' \<and> NL \<notin> set t \<and> NUL \<notin> set t
      | TkIdentifier \<Rightarrow>
          is_identifier_start (hd t) \<and> list_all is_identifier_continue t \<and> keyword_of t lang = None
      | TkKeyword w \<Rightarrow> keyword_of t lang = Some w
      | TkNumber _ \<Rightarrow> is_ascii_digit (hd t) \<and> list_all is_number_byte t
      | TkWordText \<Rightarrow> True
      | TkBareEscape \<Rightarrow> hd t = BSLASH
      | TkSingleQuoted \<Rightarrow> hd t = SQUOTE \<and> NUL \<notin> set t \<and> SQUOTE \<notin> set (butlast (tl t))
      | TkDoubleQuoteStart \<Rightarrow> t = [DQUOTE]
      | TkDoubleText \<Rightarrow> DQUOTE \<notin> set t \<and> BSLASH \<notin> set t \<and> NUL \<notin> set t
      | TkDoubleEscape \<Rightarrow>
          (\<exists>b \<in> {BSLASH, DQUOTE, CHR ''$'', CHR ''n'', CHR ''r'', CHR ''t'', CHR ''0''}. t = [BSLASH, b]) \<or>
          unicode_escape_error t = None
      | TkDoubleQuoteEnd \<Rightarrow> t = [DQUOTE]
      | TkVariable \<Rightarrow>
          hd t = CHR ''$'' \<and> tl t \<noteq> [] \<and> is_identifier_start (hd (tl t)) \<and>
          list_all is_identifier_continue (tl t)
      | TkBracedExpansionStart \<Rightarrow> t = ''${''
      | TkCommandSubstitutionStart \<Rightarrow> t = ''$(''
      | TkOperator o' \<Rightarrow> (t, o') \<in> set operators
      | TkDelimiter d \<Rightarrow> \<exists>b. t = [b] \<and> delimiter_of_byte b = Some d
      | TkInvalid IvNul \<Rightarrow> t = [NUL]
      | TkInvalid IvLoneCarriageReturn \<Rightarrow> t = [CR]
      | TkInvalid IvUnknownDoubleEscape \<Rightarrow> hd t = BSLASH
      | TkInvalid e \<Rightarrow> unicode_escape_error t = Some e)"

text \<open>The contexts as a stack automaton that reads the kinds of the tokens.\<close>

definition context_after :: "token_kind \<Rightarrow> lex_context list \<Rightarrow> lex_context list" where
  "context_after k cs =
     (case k of
        TkDoubleQuoteStart \<Rightarrow> cs @ [CxDoubleQuoted]
      | TkDoubleQuoteEnd \<Rightarrow> butlast cs
      | TkBracedExpansionStart \<Rightarrow> cs @ [CxBraced 0]
      | TkCommandSubstitutionStart \<Rightarrow> cs @ [CxCommand 0]
      | TkDelimiter d \<Rightarrow>
          (if cs = [] then []
           else if (d = DlRightBrace \<and> last cs = CxBraced 0) \<or>
                   (d = DlRightParenthesis \<and> last cs = CxCommand 0)
           then butlast cs
           else butlast cs @ [nest_context d (last cs)])
      | _ \<Rightarrow> cs)"

definition token_at :: "lexer \<Rightarrow> token_kind \<Rightarrow> nat \<Rightarrow> token" where
  "token_at L k n =
     \<lparr>tk_kind = k, tk_span = \<lparr>span_source_id = sf_id (lx_source L), span_start = lx_position L,
        span_end = lx_position L + n\<rparr>\<rparr>"

text \<open>\<open>emitted L k t\<close> is \<open>L\<close> after a token of kind \<open>k\<close> with text \<open>t\<close>.\<close>

definition emitted :: "lexer \<Rightarrow> token_kind \<Rightarrow> string \<Rightarrow> lexer" where
  "emitted L k t =
     L\<lparr>lx_position := lx_position L + length t,
       lx_tokens := lx_tokens L @ [token_at L k (length t)],
       lx_contexts := context_after k (lx_contexts L)\<rparr>"

definition emits :: "lexer \<Rightarrow> lexer \<Rightarrow> bool" where
  "emits L M \<longleftrightarrow>
     (\<exists>k t r. rest L = t @ r \<and> t \<noteq> [] \<and> utf8_valid r \<and> token_shape (lx_language L) k t \<and>
        M = emitted L k t)"

text \<open>The result of a token function in a state on a boundary.\<close>

definition lexes :: "(lexer \<Rightarrow> (bool \<times> lexer) option) \<Rightarrow> lexer \<Rightarrow> bool" where
  "lexes f L \<longleftrightarrow>
     f L = Some (False, L) \<or> (\<exists>M. f L = Some (True, M) \<and> emits L M)"

lemma lexes_decline [simp]: "lexes decline L"
  by (simp add: lexes_def decline_def)

lemma lexesI_decline: "f L = decline L \<Longrightarrow> lexes f L"
  by (simp add: lexes_def decline_def)

lemma push_eq:
  assumes ok: "lexer_ok L" and r: "rest L = t @ r" and t: "t \<noteq> []" and v: "utf8_valid r"
  shows "push k (lx_position L) (advance (length t) L)
    = Some ((advance (length t) L)\<lparr>lx_tokens := lx_tokens L @ [token_at L k (length t)]\<rparr>)"
proof -
  have "lexer_ok (advance (length t) L)" using lexer_ok_advance [OF ok r v] .
  with ok have "source_span (lx_source L) (lx_position L) (lx_position L + length t)
      = Inr \<lparr>span_source_id = sf_id (lx_source L), span_start = lx_position L,
             span_end = lx_position L + length t\<rparr>"
    by (simp add: source_span_Inr_iff lexer_ok_def)
  with t show ?thesis by (simp add: push_def token_at_def span_is_empty_def del: source_span_Inr_iff)
qed

lemma push_lexes:
  assumes ok: "lexer_ok L" and r: "rest L = t @ r" and t: "t \<noteq> []" and v: "utf8_valid r"
    and shape: "token_shape (lx_language L) k t"
    and f: "\<And>M. push k (lx_position L) (advance (length t) L) = Some M \<Longrightarrow> lx_contexts M = lx_contexts L \<Longrightarrow>
      f L = Some (True, M\<lparr>lx_contexts := context_after k (lx_contexts L)\<rparr>)"
  shows "lexes f L"
proof -
  let ?M = "(advance (length t) L)\<lparr>lx_tokens := lx_tokens L @ [token_at L k (length t)]\<rparr>"
  have "f L = Some (True, ?M\<lparr>lx_contexts := context_after k (lx_contexts L)\<rparr>)"
    by (rule f [OF push_eq [OF ok r t v]]) simp
  also have "?M\<lparr>lx_contexts := context_after k (lx_contexts L)\<rparr> = emitted L k t"
    by (simp add: emitted_def advance_def)
  finally have "f L = Some (True, emitted L k t)" .
  moreover have "emits L (emitted L k t)" using r t v shape unfolding emits_def by blast
  ultimately show ?thesis by (simp add: lexes_def)
qed

lemma emit_lexes:
  assumes ok: "lexer_ok L" and r: "rest L = t @ r" and t: "t \<noteq> []" and v: "utf8_valid r"
    and shape: "token_shape (lx_language L) k t" and same: "context_after k (lx_contexts L) = lx_contexts L"
    and f: "f L = emit k (lx_position L) (advance (length t) L)"
  shows "lexes f L"
proof (rule push_lexes [OF ok r t v shape])
  fix M assume "push k (lx_position L) (advance (length t) L) = Some M" "lx_contexts M = lx_contexts L"
  with same f show "f L = Some (True, M\<lparr>lx_contexts := context_after k (lx_contexts L)\<rparr>)"
    by (simp add: emit_def)
qed

text \<open>The case of an ASCII token.\<close>

lemma emit_lexes_ascii:
  assumes "lexer_ok L" and "rest L = t @ r" and "t \<noteq> []" and "list_all is_ascii t"
    and "token_shape (lx_language L) k t" and "context_after k (lx_contexts L) = lx_contexts L"
    and "f L = emit k (lx_position L) (advance (length t) L)"
  shows "lexes f L"
proof (rule emit_lexes [where f = f, OF assms(1,2,3) _ assms(5,6,7)])
  show "utf8_valid r" using lexer_ok_ascii [OF assms(1,2,4)] by simp
qed

section \<open>The loops\<close>

lemma skip_bytes_eq: "skip_bytes p L = advance (length (takeWhile p (rest L))) L"
  by (simp add: skip_bytes_def)

lemma advance_scalar_eq:
  assumes "lexer_ok L" and "rest L \<noteq> []"
  obtains c r where "is_scalar c" and "rest L = utf8_encode c @ r" and "utf8_valid r"
    and "advance_scalar L = Some (advance (length (utf8_encode c)) L)"
proof -
  from utf8_valid_cases [OF lexer_ok_rest [OF assms(1)] assms(2)]
  obtain c r where c: "is_scalar c" "rest L = utf8_encode c @ r" "utf8_valid r" .
  moreover from c have "advance_scalar L = Some (advance (length (utf8_encode c)) L)"
    by (simp add: advance_scalar_def)
  ultimately show thesis by (rule that)
qed

lemma encode_ascii_single:
  assumes "is_scalar c" and "i < length (utf8_encode c)" and "is_ascii (utf8_encode c ! i)"
  shows "i = 0"
proof -
  obtain b cs where enc: "utf8_encode c = b # cs" "\<forall>x \<in> set cs. is_cont x"
    using utf8_encode_shape [OF assms(1)] by blast
  show ?thesis
  proof (cases i)
    case (Suc j)
    with assms(2) enc have "is_cont (utf8_encode c ! i)" by simp
    with assms(3) show ?thesis using is_ascii_not_cont by blast
  qed simp
qed

lemma scan_scalars_eq:
  assumes "lexer_ok L"
  shows "\<exists>t r. rest L = t @ r \<and> utf8_valid r \<and> scan_scalars stop L = Some (advance (length t) L) \<and>
    (r = [] \<or> stop (advance (length t) L)) \<and>
    (\<forall>i < length t. is_ascii (t ! i) \<longrightarrow> \<not> stop (advance i L)) \<and> (t = [] \<longleftrightarrow> rest L = [] \<or> stop L)"
  using assms
proof (induction stop L rule: scan_scalars.induct)
  case (1 stop L)
  show ?case
  proof (cases "in_bounds L \<and> \<not> stop L")
    case False
    then have "scan_scalars stop L = Some L" by (subst scan_scalars.simps) auto
    with False lexer_ok_rest [OF "1.prems"] show ?thesis
      by (intro exI [of _ "[]"] exI [of _ "rest L"]) (auto simp: in_bounds_rest)
  next
    case True
    then have "rest L \<noteq> []" by (simp add: in_bounds_rest)
    from advance_scalar_eq [OF "1.prems" this] obtain c r where c: "is_scalar c"
      "rest L = utf8_encode c @ r" "utf8_valid r"
      and adv: "advance_scalar L = Some (advance (length (utf8_encode c)) L)" .
    let ?n = "length (utf8_encode c)"
    have "lexer_ok (advance ?n L)" by (rule lexer_ok_advance [OF "1.prems" c(2,3)])
    from "1.IH" [OF True adv this] obtain t r' where IH: "rest (advance ?n L) = t @ r'" "utf8_valid r'"
      "scan_scalars stop (advance ?n L) = Some (advance (length t) (advance ?n L))"
      "r' = [] \<or> stop (advance (length t) (advance ?n L))"
      "\<forall>i < length t. is_ascii (t ! i) \<longrightarrow> \<not> stop (advance i (advance ?n L))" by blast
    let ?t = "utf8_encode c @ t"
    have eq: "scan_scalars stop L = Some (advance (length ?t) L)"
      using True adv IH(3) by (subst scan_scalars.simps) simp
    have no_stop: "\<not> stop (advance i L)" if i: "i < length ?t" "is_ascii (?t ! i)" for i
    proof (cases "i < ?n")
      case True
      with i have "i = 0" using encode_ascii_single [OF c(1)] by (simp add: nth_append)
      with \<open>in_bounds L \<and> \<not> stop L\<close> show ?thesis by simp
    next
      case False
      with i IH(5) [rule_format, of "i - ?n"] show ?thesis by (simp add: nth_append)
    qed
    have "rest L = ?t @ r'" using IH(1) c(2) by simp
    moreover have "r' = [] \<or> stop (advance (length ?t) L)" using IH(4) by simp
    moreover have "?t \<noteq> []" using utf8_encode_shape [OF c(1)] by auto
    ultimately show ?thesis using eq no_stop IH(2) True by (intro exI [of _ ?t] exI [of _ r']) (auto simp: in_bounds_rest)
  qed
qed

section \<open>The token functions\<close>

lemma plain_context [simp]:
  "context_after TkWhitespace cs = cs" "context_after TkNewline cs = cs"
  "context_after TkLineContinuation cs = cs" "context_after TkComment cs = cs"
  "context_after TkDocumentationComment cs = cs" "context_after TkIdentifier cs = cs"
  "context_after (TkKeyword w) cs = cs" "context_after (TkNumber n) cs = cs"
  "context_after TkWordText cs = cs" "context_after TkBareEscape cs = cs"
  "context_after TkSingleQuoted cs = cs" "context_after TkDoubleText cs = cs"
  "context_after TkDoubleEscape cs = cs" "context_after TkVariable cs = cs"
  "context_after (TkOperator p) cs = cs" "context_after (TkInvalid e) cs = cs"
  by (simp_all add: context_after_def)

lemma ascii_bytes [simp]:
  "is_ascii NUL" "is_ascii BSLASH" "is_ascii SQUOTE" "is_ascii DQUOTE" "is_ascii TAB"
  "is_ascii (CHR '' '')" "is_ascii (CHR ''#'')" "is_ascii (CHR ''$'')" "is_ascii (CHR ''{'')"
  "is_ascii (CHR ''('')" "is_ascii (CHR ''}'')" "is_ascii (CHR '')'')" "is_ascii (CHR ''u'')"
  "is_ascii (CHR ''_'')" "is_ascii (CHR ''['')" "is_ascii (CHR '']'')" "is_ascii (CHR ''n'')"
  "is_ascii (CHR ''r'')" "is_ascii (CHR ''t'')" "is_ascii (CHR ''0'')"
  by (simp_all add: is_ascii_def byte_val_def)

lemma blank_ascii: "is_blank b \<Longrightarrow> is_ascii b"
  by (auto simp: is_blank_def)

lemma identifier_ascii: "is_identifier_continue b \<Longrightarrow> is_ascii b"
  by (auto simp: is_identifier_continue_def is_identifier_start_def is_ascii_alphabetic_def
      is_ascii_digit_def is_ascii_def byte_val_def)

lemma list_all_takeWhile: "list_all p (takeWhile p s)"
  by (auto simp: list_all_iff dest: set_takeWhileD)

lemma list_all_mono_ascii: "list_all p t \<Longrightarrow> (\<And>b. p b \<Longrightarrow> is_ascii b) \<Longrightarrow> list_all is_ascii t"
  by (auto simp: list_all_iff)

lemma lex_invalid_source_character_lexes [lexer_facts]:
  assumes ok: "lexer_ok L" shows "lexes lex_invalid_source_character L"
proof -
  consider (nul) r where "rest L = [NUL] @ r" | (cr) r where "rest L = [CR] @ r"
      "is_lone_carriage_return L" "\<not> looking_at L [NUL]"
    | (none) "\<not> looking_at L [NUL]" "\<not> is_lone_carriage_return L"
    by (auto simp: is_lone_carriage_return_def looking_at_rest)
  then show ?thesis
  proof cases
    case nul
    then show ?thesis
      by (intro emit_lexes_ascii [OF ok nul, where k = "TkInvalid IvNul"])
        (simp_all add: token_shape_def lex_invalid_source_character_def looking_at_rest)
  next
    case cr
    then show ?thesis
      by (intro emit_lexes_ascii [OF ok cr(1), where k = "TkInvalid IvLoneCarriageReturn"])
        (simp_all add: token_shape_def lex_invalid_source_character_def)
  next
    case none
    then show ?thesis by (intro lexesI_decline) (simp add: lex_invalid_source_character_def)
  qed
qed

lemma lex_horizontal_trivia_lexes [lexer_facts]:
  assumes ok: "lexer_ok L" shows "lexes lex_horizontal_trivia L"
proof (cases "is_some_and is_blank (current_byte L)")
  case True
  then have "takeWhile is_blank (rest L) \<noteq> []"
    by (auto simp: current_byte_rest is_some_and_def split: list.splits)
  moreover have "list_all is_ascii (takeWhile is_blank (rest L))"
    by (rule list_all_mono_ascii [OF list_all_takeWhile]) (rule blank_ascii)
  ultimately show ?thesis using True
    by (intro emit_lexes_ascii [OF ok takeWhile_dropWhile_id [symmetric], where k = TkWhitespace])
      (simp_all add: token_shape_def lex_horizontal_trivia_def skip_bytes_eq list_all_takeWhile)
qed (intro lexesI_decline, simp add: lex_horizontal_trivia_def)

lemma lex_newline_lexes [lexer_facts]:
  assumes ok: "lexer_ok L" shows "lexes lex_newline L"
proof -
  consider (two) r where "rest L = [CR, NL] @ r" | (one) r where "rest L = [NL] @ r"
    | (none) "\<not> looking_at L [CR, NL]" "\<not> looking_at L [NL]"
    by (auto simp: looking_at_rest)
  then show ?thesis
  proof cases
    case two
    then show ?thesis
      by (intro emit_lexes_ascii [OF ok two, where k = TkNewline])
        (simp_all add: token_shape_def lex_newline_def looking_at_rest eval_nat_numeral)
  next
    case one
    then show ?thesis
      by (intro emit_lexes_ascii [OF ok one, where k = TkNewline])
        (simp_all add: token_shape_def lex_newline_def looking_at_rest eval_nat_numeral)
  next
    case none
    then show ?thesis by (intro lexesI_decline) (simp add: lex_newline_def)
  qed
qed

lemma lex_bare_escape_lexes [lexer_facts]:
  assumes ok: "lexer_ok L" shows "lexes lex_bare_escape L"
proof (cases "looking_at L [BSLASH]")
  case False
  then show ?thesis by (intro lexesI_decline) (simp add: lex_bare_escape_def)
next
  case True
  then obtain r where r: "rest L = [BSLASH] @ r" by (auto simp: looking_at_rest)
  have ok1: "lexer_ok (advance 1 L)" and v: "utf8_valid r"
    using lexer_ok_ascii [OF ok r] by simp_all
  let ?M = "advance 1 L"
  consider (two) u where "r = [CR, NL] @ u" | (one) u where "r = [NL] @ u"
    | (scalar) "\<not> looking_at ?M [CR, NL]" "\<not> looking_at ?M [NL]" "in_bounds ?M" "\<not> looking_at ?M [NUL]"
        "\<not> is_lone_carriage_return ?M"
    | (bare) "\<not> looking_at ?M [CR, NL]" "\<not> looking_at ?M [NL]"
        "\<not> (in_bounds ?M \<and> \<not> looking_at ?M [NUL] \<and> \<not> is_lone_carriage_return ?M)"
    using r by (auto simp: looking_at_rest)
  then show ?thesis
  proof cases
    case two
    then show ?thesis
      using r True
      by (intro emit_lexes_ascii [OF ok, where k = TkLineContinuation and t = "[BSLASH, CR, NL]" and r = u])
        (simp_all add: token_shape_def lex_bare_escape_def looking_at_rest eval_nat_numeral)
  next
    case one
    then show ?thesis
      using r True
      by (intro emit_lexes_ascii [OF ok, where k = TkLineContinuation and t = "[BSLASH, NL]" and r = u])
        (simp_all add: token_shape_def lex_bare_escape_def looking_at_rest eval_nat_numeral)
  next
    case scalar
    then have "rest ?M \<noteq> []" by (simp add: in_bounds_rest)
    from advance_scalar_eq [OF ok1 this] obtain c u where c: "is_scalar c" "rest ?M = utf8_encode c @ u"
      "utf8_valid u" "advance_scalar ?M = Some (advance (length (utf8_encode c)) ?M)" .
    with r True scalar show ?thesis
      by (intro emit_lexes [OF ok, where k = TkBareEscape and t = "BSLASH # utf8_encode c" and r = u])
        (simp_all add: token_shape_def lex_bare_escape_def Let_def)
  next
    case bare
    with r True v show ?thesis
      by (intro emit_lexes [OF ok r, where k = TkBareEscape])
        (auto simp: token_shape_def lex_bare_escape_def Let_def)
  qed
qed

lemma looking_at_byte: "rest L = t @ r \<Longrightarrow> i < length t \<Longrightarrow> looking_at (advance i L) [t ! i]"
  by (simp add: looking_at_rest Cons_nth_drop_Suc [symmetric])

text \<open>A scan that stops at an ASCII byte passes over no such byte.\<close>

lemma scan_avoids:
  assumes r: "rest L = t @ r"
    and free: "\<forall>i < length t. is_ascii (t ! i) \<longrightarrow> \<not> stop (advance i L)"
    and b: "is_ascii b" and stop: "\<And>M. looking_at M [b] \<Longrightarrow> stop M"
  shows "b \<notin> set t"
proof
  assume "b \<in> set t"
  then obtain i where i: "i < length t" "t ! i = b" by (auto simp: in_set_conv_nth)
  with looking_at_byte [OF r i(1)] have "stop (advance i L)" using stop by simp
  with free i b show False by blast
qed

lemma comment_text:
  assumes r: "rest L = t @ r" and stop: "r = [] \<or> (\<exists>b u. r = b # u \<and> (b = NL \<or> b = CR \<or> b = NUL))"
    and hash: "starts_with (rest L) ''##''"
  shows "starts_with t ''##''"
proof -
  from hash obtain u where u: "rest L = ''##'' @ u" by (auto simp: starts_with_iff)
  show ?thesis
  proof (cases t)
    case Nil
    with u r stop show ?thesis by auto
  next
    case (Cons a t')
    with u r stop show ?thesis by (cases t') auto
  qed
qed

lemma lex_comment_lexes [lexer_facts]:
  assumes ok: "lexer_ok L" shows "lexes lex_comment L"
proof (cases "looking_at L ''#'' \<and> is_token_boundary L")
  case False
  then show ?thesis by (intro lexesI_decline) (auto simp: lex_comment_def)
next
  case True
  let ?stop = "\<lambda>M. looking_at M [NL] \<or> looking_at M [CR, NL] \<or> is_lone_carriage_return M \<or>
    looking_at M [NUL]"
  from True obtain u where u: "rest L = ''#'' @ u" by (auto simp: looking_at_rest)
  from scan_scalars_eq [OF ok, of ?stop] obtain t r where t: "rest L = t @ r" "utf8_valid r"
    "scan_scalars ?stop L = Some (advance (length t) L)" "r = [] \<or> ?stop (advance (length t) L)"
    "\<forall>i < length t. is_ascii (t ! i) \<longrightarrow> \<not> ?stop (advance i L)"
    "t = [] \<longleftrightarrow> rest L = [] \<or> ?stop L" by blast
  have "t \<noteq> []" using t(6) u by (simp add: looking_at_rest is_lone_carriage_return_def)
  then have hd: "hd t = CHR ''#''" using t(1) u by (cases t) auto
  have free: "NL \<notin> set t" "NUL \<notin> set t" using scan_avoids [OF t(1,5)] by simp_all
  have stop: "r = [] \<or> (\<exists>b u. r = b # u \<and> (b = NL \<or> b = CR \<or> b = NUL))"
    using t(1,4) by (auto simp: looking_at_rest is_lone_carriage_return_def)
  let ?k = "if starts_documentation_comment (advance (length t) L) (lx_position L)
    then TkDocumentationComment else TkComment"
  have "token_shape (lx_language L) ?k t"
    using hd free comment_text [OF t(1) stop]
    by (auto simp: token_shape_def starts_documentation_comment_def rest_def Let_def)
  moreover have "context_after ?k (lx_contexts L) = lx_contexts L" by simp
  ultimately show ?thesis
    using t(1,2,3) \<open>t \<noteq> []\<close> True
    by (intro emit_lexes [OF ok t(1), where k = ?k]) (simp_all add: lex_comment_def)
qed

lemma lex_single_quoted_lexes [lexer_facts]:
  assumes ok: "lexer_ok L" shows "lexes lex_single_quoted L"
proof (cases "looking_at L [SQUOTE]")
  case False
  then show ?thesis by (intro lexesI_decline) (simp add: lex_single_quoted_def)
next
  case True
  then obtain u where u: "rest L = [SQUOTE] @ u" by (auto simp: looking_at_rest)
  let ?stop = "\<lambda>M. looking_at M [SQUOTE] \<or> looking_at M [NUL] \<or> is_lone_carriage_return M"
  have ok1: "lexer_ok (advance 1 L)" using lexer_ok_ascii [OF ok u] by simp
  from scan_scalars_eq [OF ok1, of ?stop] obtain t r where t: "rest (advance 1 L) = t @ r" "utf8_valid r"
    "scan_scalars ?stop (advance 1 L) = Some (advance (length t) (advance 1 L))"
    "\<forall>i < length t. is_ascii (t ! i) \<longrightarrow> \<not> ?stop (advance i (advance 1 L))" by blast
  have free: "SQUOTE \<notin> set t" "NUL \<notin> set t" using scan_avoids [OF t(1,4)] by simp_all
  have rest: "rest L = (SQUOTE # t) @ r" using u t(1) by simp
  let ?M = "advance (length t) (advance 1 L)"
  show ?thesis
  proof (cases "looking_at ?M [SQUOTE]")
    case True
    moreover have "rest ?M = r" using rest by simp
    ultimately obtain v where v: "r = SQUOTE # v" by (auto simp only: looking_at_rest append_Cons append_Nil)
    have "utf8_valid v" using t(2) v by simp
    then show ?thesis
      using rest v \<open>looking_at L [SQUOTE]\<close> t(1,3) True free
      by (intro emit_lexes [OF ok, where t = "SQUOTE # t @ [SQUOTE]" and r = v and k = TkSingleQuoted])
        (simp_all add: token_shape_def lex_single_quoted_def in_bounds_rest)
  next
    case False
    then show ?thesis
      using rest \<open>looking_at L [SQUOTE]\<close> t(2,3) free
      by (intro emit_lexes [OF ok rest, where k = TkSingleQuoted])
        (auto simp add: token_shape_def lex_single_quoted_def dest: in_set_butlastD)
  qed
qed

lemma lex_double_quote_start_lexes [lexer_facts]:
  assumes ok: "lexer_ok L" shows "lexes lex_double_quote_start L"
proof (cases "looking_at L [DQUOTE]")
  case False
  then show ?thesis by (intro lexesI_decline) (simp add: lex_double_quote_start_def)
next
  case True
  then obtain r where r: "rest L = [DQUOTE] @ r" by (auto simp: looking_at_rest)
  have "utf8_valid r" using lexer_ok_ascii [OF ok r] by simp
  then show ?thesis
    using True
    by (intro push_lexes [OF ok r, where k = TkDoubleQuoteStart])
      (simp_all add: token_shape_def lex_double_quote_start_def enter_def context_after_def)
qed

text \<open>Ahead over ASCII bytes of one class.\<close>

definition moves :: "(char \<Rightarrow> bool) \<Rightarrow> lexer \<Rightarrow> lexer \<Rightarrow> bool" where
  "moves p L M \<longleftrightarrow> (\<exists>t r. rest L = t @ r \<and> list_all p t \<and> M = advance (length t) L)"

lemma moves_refl [simp]: "moves p L L"
  unfolding moves_def by (intro exI [of _ "[]"] exI [of _ "rest L"]) simp

lemma moves_trans [trans]:
  assumes "moves p L M" and "moves p M N"
  shows "moves p L N"
proof -
  from assms(1) obtain t r where t: "rest L = t @ r" "list_all p t" "M = advance (length t) L"
    by (auto simp: moves_def)
  from assms(2) obtain u v where u: "rest M = u @ v" "list_all p u" "N = advance (length u) M"
    by (auto simp: moves_def)
  have "rest L = (t @ u) @ v" using t u(1) by simp
  moreover have "N = advance (length (t @ u)) L" using t(3) u(3) by simp
  ultimately show ?thesis using t(2) u(2) unfolding moves_def
    by (intro exI [of _ "t @ u"] exI [of _ v]) simp
qed

lemma moves_skip: "(\<And>b. q b \<Longrightarrow> p b) \<Longrightarrow> moves p L (skip_bytes q L)"
  unfolding moves_def skip_bytes_eq
  by (intro exI [of _ "takeWhile q (rest L)"] exI [of _ "dropWhile q (rest L)"])
    (auto simp: list_all_iff dest: set_takeWhileD)

lemma moves_advance: "rest L = t @ r \<Longrightarrow> list_all p t \<Longrightarrow> moves p L (advance (length t) L)"
  unfolding moves_def by blast

lemma moves_current: "is_some_and p (current_byte L) \<Longrightarrow> moves p L (advance 1 L)"
  using moves_advance [of L "[hd (rest L)]" "tl (rest L)" p]
  by (auto simp: is_some_and_def current_byte_rest split: list.splits)

lemma lex_double_escape_lexes [lexer_facts]:
  assumes ok: "lexer_ok L" shows "lexes lex_double_escape L"
proof (cases "looking_at L [BSLASH]")
  case False
  then show ?thesis by (intro lexesI_decline) (simp add: lex_double_escape_def)
next
  case True
  then obtain r where r: "rest L = [BSLASH] @ r" by (auto simp: looking_at_rest)
  have ok1: "lexer_ok (advance 1 L)" and v: "utf8_valid r"
    using lexer_ok_ascii [OF ok r] by simp_all
  let ?M = "advance 1 L"
  have restM: "rest ?M = r" using r by simp
  consider (two) u where "r = [CR, NL] @ u" | (one) u where "r = [NL] @ u"
    | (unicode) u where "\<not> looking_at ?M [CR, NL]" "\<not> looking_at ?M [NL]" "r = ''u{'' @ u"
    | (other) "\<not> looking_at ?M [CR, NL]" "\<not> looking_at ?M [NL]" "\<not> looking_at ?M ''u{''"
    unfolding looking_at_rest restM by blast
  then show ?thesis
  proof cases
    case two
    then show ?thesis
      using r True
      by (intro emit_lexes_ascii [OF ok, where k = TkLineContinuation and t = "[BSLASH, CR, NL]" and r = u])
        (simp_all add: token_shape_def lex_double_escape_def looking_at_rest eval_nat_numeral)
  next
    case one
    then show ?thesis
      using r True
      by (intro emit_lexes_ascii [OF ok, where k = TkLineContinuation and t = "[BSLASH, NL]" and r = u])
        (simp_all add: token_shape_def lex_double_escape_def looking_at_rest eval_nat_numeral)
  next
    case unicode
    let ?N = "skip_bytes is_ascii_hexdigit (advance 2 ?M)"
    let ?E = "if looking_at ?N ''}'' then advance 1 ?N else ?N"
    have "moves is_ascii ?M (advance (length ''u{'') ?M)"
      using moves_advance [of ?M "''u{''" u is_ascii] restM unicode(3) by simp
    then have "moves is_ascii ?M (advance 2 ?M)" by (simp add: eval_nat_numeral)
    also have "moves is_ascii (advance 2 ?M) ?N" by (rule moves_skip) simp
    also have "moves is_ascii ?N ?E"
      using moves_advance [of ?N "''}''" _ is_ascii] by (auto simp: looking_at_rest)
    finally obtain t w where t: "rest ?M = t @ w" "list_all is_ascii t" "?E = advance (length t) ?M"
      by (auto simp: moves_def)
    let ?t = "BSLASH # t"
    have rest: "rest L = ?t @ w" using r restM t(1) by simp
    have E: "?E = advance (length ?t) L" using t(3) by simp
    let ?k = "case unicode_escape_error ?t of None \<Rightarrow> TkDoubleEscape | Some e \<Rightarrow> TkInvalid e"
    have "token_shape (lx_language L) ?k ?t"
      by (auto simp: token_shape_def unicode_escape_error_def split: option.splits if_splits)
    moreover have "context_after ?k (lx_contexts L) = lx_contexts L" by (simp split: option.splits)
    moreover have "lex_double_escape L = emit ?k (lx_position L) (advance (length ?t) L)"
    proof -
      have c: "looking_at L [BSLASH] = True" "looking_at ?M [CR, NL] = False"
        "looking_at ?M [NL] = False" "looking_at ?M ''u{'' = True"
        using True unicode restM by (simp_all add: looking_at_rest)
      have "cut (lx_position L) (lx_position (advance (length ?t) L))
          (sf_text (lx_source (advance (length ?t) L))) = ?t"
        using cut_rest [OF rest] by simp
      then show ?thesis
        by (simp only: lex_double_escape_def Let_def c E if_True if_False not_True_eq_False)
    qed
    ultimately show ?thesis using t(2) rest
      by (intro emit_lexes_ascii [OF ok rest, where k = ?k]) simp_all
  next
    case other
    have f: "lex_double_escape L = (case current_byte ?M of
        None \<Rightarrow> emit (TkInvalid IvUnknownDoubleEscape) (lx_position L) ?M
      | Some b \<Rightarrow>
          if b \<in> {BSLASH, DQUOTE, CHR ''$'', CHR ''n'', CHR ''r'', CHR ''t'', CHR ''0''}
          then emit TkDoubleEscape (lx_position L) (advance 1 ?M)
          else do { N \<leftarrow> advance_scalar ?M; emit (TkInvalid IvUnknownDoubleEscape) (lx_position L) N })"
      using True other
      by (simp only: lex_double_escape_def Let_def not_True_eq_False if_True if_False)
    show ?thesis
    proof (cases r)
      case Nil
      with f r restM show ?thesis
        by (intro emit_lexes_ascii [OF ok r, where k = "TkInvalid IvUnknownDoubleEscape"])
          (simp_all add: token_shape_def current_byte_rest)
    next
      case (Cons b u)
      show ?thesis
      proof (cases "b \<in> {BSLASH, DQUOTE, CHR ''$'', CHR ''n'', CHR ''r'', CHR ''t'', CHR ''0''}")
        case True
        then have "is_ascii b" by auto
        with True f r restM Cons show ?thesis
          by (intro emit_lexes_ascii [OF ok, where t = "[BSLASH, b]" and r = u and k = TkDoubleEscape])
            (simp_all add: token_shape_def current_byte_rest eval_nat_numeral)
      next
        case False
        have "rest ?M \<noteq> []" using restM Cons by simp
        from advance_scalar_eq [OF ok1 this] obtain c w where c: "is_scalar c" "rest ?M = utf8_encode c @ w"
          "utf8_valid w" "advance_scalar ?M = Some (advance (length (utf8_encode c)) ?M)" .
        have "lex_double_escape L = emit (TkInvalid IvUnknownDoubleEscape) (lx_position L)
            (advance (length (utf8_encode c)) ?M)"
          using f False Cons c(4) restM by (simp add: current_byte_rest)
        with c r restM show ?thesis
          by (intro emit_lexes [OF ok, where t = "BSLASH # utf8_encode c" and r = w
                and k = "TkInvalid IvUnknownDoubleEscape"]) (simp_all add: token_shape_def)
      qed
    qed
  qed
qed

lemma lex_expansion_start_lexes [lexer_facts]:
  assumes ok: "lexer_ok L" shows "lexes lex_expansion_start L"
proof -
  have b: "is_char_boundary (sf_text (lx_source L)) (lx_position L + 1)" if "looking_at L ''$''"
    using that lexer_ok_ascii [OF ok, of "''$''"] by (auto simp: looking_at_rest lexer_ok_def)
  consider (none) "\<not> looking_at L ''$''"
    | (brace) r where "rest L = ''${'' @ r" | (paren) r where "rest L = ''$('' @ r"
    | (name) c r where "rest L = CHR ''$'' # c # r" "is_identifier_start c"
    | (other) u where "rest L = CHR ''$'' # u"
        "u = [] \<or> (\<exists>c r. u = c # r \<and> c \<noteq> CHR ''{'' \<and> c \<noteq> CHR ''('' \<and> \<not> is_identifier_start c)"
  proof (cases "looking_at L ''$''")
    case True
    then obtain u where "rest L = CHR ''$'' # u" by (auto simp: looking_at_rest)
    with brace paren name other show ?thesis by (cases u) auto
  qed (rule none)
  then show ?thesis
  proof cases
    case none
    then show ?thesis by (intro lexesI_decline) (simp add: lex_expansion_start_def)
  next
    case brace
    have "utf8_valid r" using lexer_ok_ascii [OF ok brace] by simp
    with brace show ?thesis
      by (intro push_lexes [OF ok brace, where k = TkBracedExpansionStart])
        (simp_all add: token_shape_def lex_expansion_start_def enter_def context_after_def
          looking_at_rest eval_nat_numeral)
  next
    case paren
    have "utf8_valid r" using lexer_ok_ascii [OF ok paren] by simp
    with paren show ?thesis
      by (intro push_lexes [OF ok paren, where k = TkCommandSubstitutionStart])
        (simp_all add: token_shape_def lex_expansion_start_def enter_def context_after_def
          looking_at_rest eval_nat_numeral)
  next
    case name
    have nb: "c \<noteq> CHR ''{''" "c \<noteq> CHR ''(''"
      using name(2) by (auto simp: is_identifier_start_def is_ascii_alphabetic_def byte_val_def)
    let ?u = "takeWhile is_identifier_continue r"
    let ?t = "CHR ''$'' # c # ?u"
    have rest: "rest L = ?t @ dropWhile is_identifier_continue r" using name(1) by simp
    have skip: "skip_bytes is_identifier_continue (advance 2 L) = advance (length ?t) L"
      using name(1) by (simp add: skip_bytes_eq eval_nat_numeral)
    have c: "is_identifier_continue c" using name(2) by (simp add: is_identifier_continue_def)
    have ids: "list_all is_identifier_continue (c # ?u)" using c by (simp add: list_all_takeWhile)
    then have "list_all is_ascii ?t"
      using list_all_mono_ascii [OF ids identifier_ascii] by simp
    moreover have "lex_expansion_start L =
        emit TkVariable (lx_position L) (skip_bytes is_identifier_continue (advance 2 L))"
      using name nb b
      by (simp add: lex_expansion_start_def looking_at_rest peek_byte_rest get_nth_def is_some_and_def)
    ultimately show ?thesis
      using ids name(2) skip
      by (intro emit_lexes_ascii [OF ok rest, where k = TkVariable]) (simp_all add: token_shape_def)
  next
    case other
    then show ?thesis
      by (intro lexesI_decline)
        (auto simp: lex_expansion_start_def Let_def looking_at_rest peek_byte_rest get_nth_def
          is_some_and_def)
  qed
qed

lemma push_contexts:
  "push k start (L\<lparr>lx_contexts := cs\<rparr>) = map_option (\<lambda>M. M\<lparr>lx_contexts := cs\<rparr>) (push k start L)"
  by (cases "source_span (lx_source L) start (lx_position L)") (simp_all add: push_def)

lemma operators_spelling:
  assumes "find (\<lambda>(spelling, _). looking_at L spelling) operators = Some (t, p)"
  shows "(t, p) \<in> set operators" and "looking_at L t" and "t \<noteq> []" and "list_all is_ascii t"
proof -
  show mem: "(t, p) \<in> set operators" and "looking_at L t" using assms by (auto simp: find_Some_iff in_set_conv_nth)
  have "list_all (\<lambda>(t, p). t \<noteq> [] \<and> list_all is_ascii t) operators" by code_simp
  with mem show "t \<noteq> []" and "list_all is_ascii t" by (auto simp: list_all_iff)
qed

lemma close_interpolation_if_needed_lexes:
  assumes ok: "lexer_ok L" shows "lexes close_interpolation_if_needed L"
proof -
  have brace: ?thesis
    if r: "rest L = [CHR ''}''] @ r" and cs: "lx_contexts L \<noteq> []" "last (lx_contexts L) = CxBraced 0" for r
  proof -
    have v: "utf8_valid r" using lexer_ok_ascii [OF ok r] by simp
    have c: "current_byte L = Some (CHR ''}'')" using r by (simp add: current_byte_rest)
    show ?thesis
      using cs c v
      by (intro push_lexes [OF ok r, where k = "TkDelimiter DlRightBrace"])
        (simp_all add: token_shape_def close_interpolation_if_needed_def leave_def context_after_def
          delimiter_of_byte_def)
  qed
  have paren: ?thesis
    if r: "rest L = [CHR '')''] @ r" and cs: "lx_contexts L \<noteq> []" "last (lx_contexts L) = CxCommand 0" for r
  proof -
    have v: "utf8_valid r" using lexer_ok_ascii [OF ok r] by simp
    have c: "current_byte L = Some (CHR '')'')" using r by (simp add: current_byte_rest)
    show ?thesis
      using cs c v
      by (intro push_lexes [OF ok r, where k = "TkDelimiter DlRightParenthesis"])
        (simp_all add: token_shape_def close_interpolation_if_needed_def leave_def context_after_def
          delimiter_of_byte_def)
  qed
  show ?thesis
  proof (cases "lx_contexts L \<noteq> [] \<and>
      (last (lx_contexts L) = CxBraced 0 \<and> current_byte L = Some (CHR ''}'') \<or>
       last (lx_contexts L) = CxCommand 0 \<and> current_byte L = Some (CHR '')''))")
    case True
    then show ?thesis using brace paren by (auto simp: current_byte_rest split: list.splits)
  next
    case False
    then show ?thesis by (intro lexesI_decline) (auto simp: close_interpolation_if_needed_def Let_def)
  qed
qed

lemma close_interpolation_declined:
  assumes "close_interpolation_if_needed L = decline L" and "lx_contexts L \<noteq> []"
    and "current_byte L = Some b" and "delimiter_of_byte b = Some d"
  shows "context_after (TkDelimiter d) (lx_contexts L)
    = butlast (lx_contexts L) @ [nest_context d (last (lx_contexts L))]"
  using assms
  by (auto simp: close_interpolation_if_needed_def decline_def context_after_def Let_def
      delimiter_of_byte_def Option.bind_eq_Some_conv split: if_splits)

lemma lex_operator_or_delimiter_lexes [lexer_facts]:
  assumes ok: "lexer_ok L" shows "lexes lex_operator_or_delimiter L"
proof -
  from close_interpolation_if_needed_lexes [OF ok]
  consider (closed) M where "close_interpolation_if_needed L = Some (True, M)" "emits L M"
    | (declined) "close_interpolation_if_needed L = decline L"
    by (auto simp: lexes_def decline_def)
  then show ?thesis
  proof cases
    case closed
    then show ?thesis by (simp add: lexes_def lex_operator_or_delimiter_def)
  next
    case declined
    show ?thesis
    proof (cases "find (\<lambda>(spelling, _). looking_at L spelling) operators")
      case (Some tp)
      obtain t p where tp: "tp = (t, p)" by (cases tp)
      note op = operators_spelling [OF Some [unfolded tp]]
      from op(2) obtain r where r: "rest L = t @ r" by (auto simp: looking_at_rest)
      show ?thesis
        using Some tp op declined
        by (intro emit_lexes_ascii [OF ok r, where k = "TkOperator p"])
          (simp_all add: token_shape_def lex_operator_or_delimiter_def decline_def)
    next
      case None
      show ?thesis
      proof (cases "Option.bind (current_byte L) delimiter_of_byte")
        case None2: None
        with None declined show ?thesis
          by (intro lexesI_decline) (simp add: lex_operator_or_delimiter_def decline_def)
      next
        case (Some d)
        then obtain b where b: "current_byte L = Some b" "delimiter_of_byte b = Some d"
          by (auto simp: Option.bind_eq_Some_conv)
        then obtain r where r: "rest L = [b] @ r" by (auto simp: current_byte_rest split: list.splits)
        have ascii: "is_ascii b" using b(2) by (auto simp: delimiter_of_byte_def split: if_splits)
        then have v: "utf8_valid r" using lexer_ok_ascii [OF ok r] by simp
        have f: "lex_operator_or_delimiter L = emit (TkDelimiter d) (lx_position L)
            (advance 1 (note_nested_interpolation d L))"
          using declined None Some by (simp add: lex_operator_or_delimiter_def decline_def)
        show ?thesis
        proof (rule push_lexes [OF ok r])
          show "token_shape (lx_language L) (TkDelimiter d) [b]" using b(2) by (simp add: token_shape_def)
          fix M
          assume M: "push (TkDelimiter d) (lx_position L) (advance (length [b]) L) = Some M"
            and cs: "lx_contexts M = lx_contexts L"
          show "lex_operator_or_delimiter L =
              Some (True, M\<lparr>lx_contexts := context_after (TkDelimiter d) (lx_contexts L)\<rparr>)"
          proof (cases "lx_contexts L = []")
            case True
            with f M cs show ?thesis
              by (simp add: note_nested_interpolation_def emit_def context_after_def)
          next
            case False
            let ?cs = "context_after (TkDelimiter d) (lx_contexts L)"
            have "advance 1 (note_nested_interpolation d L) = (advance 1 L)\<lparr>lx_contexts := ?cs\<rparr>"
              using close_interpolation_declined [OF declined False b] False
              by (simp add: note_nested_interpolation_def advance_def)
            with f M show ?thesis by (simp add: emit_def push_contexts)
          qed
        qed (use v in simp_all)
      qed
    qed
  qed
qed

lemma lex_identifier_lexes [lexer_facts]:
  assumes ok: "lexer_ok L" shows "lexes lex_identifier L"
proof (cases "is_some_and is_identifier_start (current_byte L)")
  case False
  then show ?thesis by (intro lexesI_decline) (simp add: lex_identifier_def)
next
  case True
  then obtain b u where u: "rest L = b # u" "is_identifier_start b"
    by (auto simp: is_some_and_def current_byte_rest split: list.splits)
  let ?t = "b # takeWhile is_identifier_continue u"
  have rest: "rest L = ?t @ dropWhile is_identifier_continue u" using u(1) by simp
  have M: "skip_bytes is_identifier_continue (advance 1 L) = advance (length ?t) L"
    using u(1) by (simp add: skip_bytes_eq)
  have ids: "list_all is_identifier_continue ?t"
    using u(2) by (simp add: list_all_takeWhile is_identifier_continue_def)
  let ?k = "case keyword_of ?t (lx_language L) of None \<Rightarrow> TkIdentifier | Some k \<Rightarrow> TkKeyword k"
  have "token_shape (lx_language L) ?k ?t"
    using ids u(2) by (simp add: token_shape_def split: option.splits)
  moreover have "context_after ?k (lx_contexts L) = lx_contexts L" by (simp split: option.splits)
  moreover have "lex_identifier L = emit ?k (lx_position L) (advance (length ?t) L)"
  proof -
    have "cut (lx_position L) (lx_position (advance (length ?t) L))
        (sf_text (lx_source (advance (length ?t) L))) = ?t"
      using cut_rest [OF rest] by simp
    with True show ?thesis
      by (simp only: lex_identifier_def Let_def M not_True_eq_False if_False)
  qed
  moreover have "list_all is_ascii ?t" by (rule list_all_mono_ascii [OF ids identifier_ascii])
  ultimately show ?thesis by (intro emit_lexes_ascii [OF ok rest, where k = ?k]) simp_all
qed

lemma number_byte:
  "is_ascii_digit b \<Longrightarrow> is_number_byte b" "is_ascii_hexdigit b \<Longrightarrow> is_number_byte b"
  "is_number_byte b \<Longrightarrow> is_ascii b"
  by (auto simp: is_number_byte_def is_ascii_hexdigit_def is_ascii_alphanumeric_def is_ascii_digit_def
      is_ascii_alphabetic_def is_ascii_def byte_val_def)

lemma number_signs [simp]:
  "is_number_byte (CHR ''e'')" "is_number_byte (CHR ''E'')" "is_number_byte (CHR ''+'')"
  "is_number_byte (CHR ''-'')" "is_number_byte (CHR ''.'')" "is_number_byte (CHR ''_'')"
  "is_number_byte (CHR ''0'')" "is_number_byte (CHR ''1'')"
  by code_simp+

lemma moves_consume:
  "(\<And>b. accepts b \<Longrightarrow> is_number_byte b) \<Longrightarrow> moves is_number_byte L (consume_digits accepts L)"
  unfolding consume_digits_def by (rule moves_skip) (auto simp: is_number_byte_def)

lemma moves_number_byte: "current_byte L = Some b \<Longrightarrow> is_number_byte b \<Longrightarrow> moves is_number_byte L (advance 1 L)"
  by (rule moves_current) (simp add: is_some_and_def)

lemma moves_fraction: "moves is_number_byte L (snd (lex_fraction L))"
proof (cases "current_byte L = Some (CHR ''.'') \<and> is_some_and is_ascii_digit (peek_byte 1 L)")
  case True
  then have "moves is_number_byte L (advance 1 L)"
    by (intro moves_number_byte) auto
  also have "moves is_number_byte (advance 1 L) (consume_digits is_ascii_digit (advance 1 L))"
    by (rule moves_consume) (rule number_byte)
  finally show ?thesis using True by (simp add: lex_fraction_def)
qed (auto simp: lex_fraction_def)

lemma moves_exponent: "moves is_number_byte M (snd (lex_exponent (k, M)))"
proof (cases "is_some_and (\<lambda>b. b = CHR ''e'' \<or> b = CHR ''E'') (current_byte M) \<and> exponent_has_digits M")
  case True
  let ?N = "advance 1 M"
  let ?O = "if is_some_and (\<lambda>b. b = CHR ''+'' \<or> b = CHR ''-'') (current_byte ?N) then advance 1 ?N else ?N"
  from True have "moves is_number_byte M ?N"
    by (intro moves_current)
      (auto simp: is_some_and_def split: option.splits)
  also have "moves is_number_byte ?N ?O"
  proof (cases "is_some_and (\<lambda>b. b = CHR ''+'' \<or> b = CHR ''-'') (current_byte ?N)")
    case True
    then have "is_some_and is_number_byte (current_byte ?N)"
      by (auto simp: is_some_and_def split: option.splits)
    from moves_current [OF this] True show ?thesis by simp
  next
    case False
    then show ?thesis by simp
  qed
  also have "moves is_number_byte ?O (consume_digits is_ascii_digit ?O)"
    by (rule moves_consume) (rule number_byte)
  also have "consume_digits is_ascii_digit ?O = snd (lex_exponent (k, M))"
    using True by (simp only: lex_exponent_def Let_def prod.case simp_thms if_True snd_conv)
  finally show ?thesis .
qed (auto simp: lex_exponent_def)

lemma number_lexes:
  assumes ok: "lexer_ok L" and d: "is_some_and is_ascii_digit (current_byte L)"
    and M: "moves is_number_byte L M" "lx_position L < lx_position M"
    and f: "lex_number L = emit (TkNumber k) (lx_position L) M"
  shows "lexes lex_number L"
proof -
  from M(1) obtain t r where t: "rest L = t @ r" "list_all is_number_byte t" "M = advance (length t) L"
    by (auto simp: moves_def)
  with M(2) have "t \<noteq> []" by auto
  then have "is_ascii_digit (hd t)"
    using d t(1) by (cases t) (auto simp: is_some_and_def current_byte_rest)
  with t f \<open>t \<noteq> []\<close> show ?thesis
    by (intro emit_lexes_ascii [OF ok t(1), where k = "TkNumber k"])
      (auto simp: token_shape_def intro: list_all_mono_ascii number_byte)
qed

lemma moves_le: "moves p L M \<Longrightarrow> lx_position L \<le> lx_position M"
  by (auto simp: moves_def)

lemma lex_number_lexes [lexer_facts]:
  assumes ok: "lexer_ok L" shows "lexes lex_number L"
proof (cases "is_some_and is_ascii_digit (current_byte L)")
  case False
  then show ?thesis by (intro lexesI_decline) (simp add: lex_number_def Let_def)
next
  case True
  have prefixed: "moves is_number_byte L (consume_digits q (advance 2 L)) \<and>
      lx_position L < lx_position (consume_digits q (advance 2 L))"
    if at: "looking_at L [CHR ''0'', x]" and x: "is_number_byte x" and q: "\<And>b. q b \<Longrightarrow> is_number_byte b" for x q
  proof -
    from at x have "moves is_number_byte L (advance 2 L)"
      using moves_advance [of L "[CHR ''0'', x]" _ is_number_byte]
      by (auto simp: looking_at_rest eval_nat_numeral)
    moreover have m: "moves is_number_byte (advance 2 L) (consume_digits q (advance 2 L))"
      by (rule moves_consume) (rule q)
    ultimately show ?thesis using moves_trans moves_le [OF m] by auto
  qed
  have letters: "is_number_byte x" if "x \<in> set ''xXoObB''" for x
  proof -
    have "list_all is_number_byte ''xXoObB''" by code_simp
    with that show ?thesis unfolding list_all_iff by blast
  qed
  have octal: "is_number_byte b" if "b \<in> set ''01234567''" for b
  proof -
    have "list_all is_number_byte ''01234567''" by code_simp
    with that show ?thesis unfolding list_all_iff by blast
  qed
  let ?hex = "looking_at L ''0x'' \<or> looking_at L ''0X''"
    and ?oct = "looking_at L ''0o'' \<or> looking_at L ''0O''"
    and ?bin = "looking_at L ''0b'' \<or> looking_at L ''0B''"
  consider (hex) ?hex | (oct) "\<not> ?hex" ?oct | (bin) "\<not> ?hex" "\<not> ?oct" ?bin
    | (decimal) "\<not> ?hex" "\<not> ?oct" "\<not> ?bin"
    by argo
  then show ?thesis
  proof cases
    case hex
    have f: "lex_number L = emit (TkNumber NumInteger) (lx_position L)
        (consume_digits is_ascii_hexdigit (advance 2 L))"
      using True hex by (simp add: lex_number_def)
    from hex obtain x where x: "looking_at L [CHR ''0'', x]" "is_number_byte x" using letters by auto
    from prefixed [OF x number_byte(2)] show ?thesis
      by (intro number_lexes [OF ok True _ _ f]) simp_all
  next
    case oct
    have f: "lex_number L = emit (TkNumber NumInteger) (lx_position L)
        (consume_digits (\<lambda>b. b \<in> set ''01234567'') (advance 2 L))"
      using True oct by (simp add: lex_number_def)
    from oct obtain x where x: "looking_at L [CHR ''0'', x]" "is_number_byte x" using letters by auto
    from prefixed [OF x octal] show ?thesis
      by (intro number_lexes [OF ok True _ _ f]) simp_all
  next
    case bin
    have f: "lex_number L = emit (TkNumber NumInteger) (lx_position L)
        (consume_digits (\<lambda>b. b = CHR ''0'' \<or> b = CHR ''1'') (advance 2 L))"
      using True bin by (simp add: lex_number_def)
    from bin obtain x where x: "looking_at L [CHR ''0'', x]" "is_number_byte x" using letters by auto
    have "is_number_byte b" if "b = CHR ''0'' \<or> b = CHR ''1''" for b using that by auto
    from prefixed [OF x this] show ?thesis
      by (intro number_lexes [OF ok True _ _ f]) simp_all
  next
    case decimal
    let ?A = "consume_digits is_ascii_digit L"
    obtain k M where kM: "lex_exponent (lex_fraction ?A) = (k, M)" by (cases "lex_exponent (lex_fraction ?A)")
    have f: "lex_number L = emit (TkNumber k) (lx_position L) M"
      using True decimal kM by (simp add: lex_number_def)
    have A: "moves is_number_byte L ?A" by (rule moves_consume) (rule number_byte)
    have "moves is_number_byte ?A (snd (lex_fraction ?A))" by (rule moves_fraction)
    also have "moves is_number_byte \<dots> (snd (lex_exponent (lex_fraction ?A)))"
      using moves_exponent [of "snd (lex_fraction ?A)" "fst (lex_fraction ?A)"] by simp
    finally have AM: "moves is_number_byte ?A M" using kM by simp
    have "lx_position L < lx_position ?A"
      using True by (auto simp: consume_digits_def skip_bytes_eq is_some_and_def current_byte_rest
          split: list.splits)
    with moves_le [OF AM] moves_trans [OF A AM] show ?thesis by (intro number_lexes [OF ok True _ _ f]) simp_all
  qed
qed

section \<open>A step of the lexer\<close>

lemma lexes_SomeD: "lexes (\<lambda>L. map_option (Pair True) (g L)) L \<Longrightarrow> \<exists>M. g L = Some M \<and> emits L M"
  by (auto simp: lexes_def)

lemma lex_word_text_emits:
  assumes ok: "lexer_ok L" and nonempty: "rest L \<noteq> []"
  shows "\<exists>M. lex_word_text L = Some M \<and> emits L M"
proof (rule lexes_SomeD)
  from scan_scalars_eq [OF ok, of word_stop] obtain t r where t: "rest L = t @ r" "utf8_valid r"
    "scan_scalars word_stop L = Some (advance (length t) L)" by blast
  show "lexes (\<lambda>L. map_option (Pair True) (lex_word_text L)) L"
  proof (cases "t = []")
    case True
    from advance_scalar_eq [OF ok nonempty] obtain c u where c: "is_scalar c" "rest L = utf8_encode c @ u"
      "utf8_valid u" "advance_scalar L = Some (advance (length (utf8_encode c)) L)" .
    have "utf8_encode c \<noteq> []" using utf8_encode_shape [OF c(1)] by auto
    with c t True show ?thesis
      by (intro emit_lexes [OF ok c(2), where k = TkWordText])
        (simp_all add: token_shape_def lex_word_text_def emit_def)
  next
    case False
    with t show ?thesis
      by (intro emit_lexes [OF ok t(1), where k = TkWordText])
        (simp_all add: token_shape_def lex_word_text_def emit_def)
  qed
qed

lemma first_lexer_lexes:
  "list_all (\<lambda>f. lexes f L) fs \<Longrightarrow> lexes (first_lexer fs) L"
proof (induction fs)
  case (Cons f fs)
  then have "lexes f L" "lexes (first_lexer fs) L" by simp_all
  then show ?case by (auto simp: lexes_def)
qed (simp add: lexes_def decline_def)

lemma lex_normal_emits:
  assumes ok: "lexer_ok L" and nonempty: "rest L \<noteq> []"
  shows "\<exists>M. lex_normal L = Some M \<and> emits L M"
proof -
  let ?fs = "[lex_invalid_source_character, lex_horizontal_trivia, lex_newline, lex_bare_escape,
         lex_comment, lex_single_quoted, lex_double_quote_start, lex_expansion_start,
         lex_operator_or_delimiter, lex_identifier, lex_number]"
  have "lexes (first_lexer ?fs) L" by (rule first_lexer_lexes) (simp add: lexer_facts ok)
  then show ?thesis
    using lex_word_text_emits [OF ok nonempty]
    by (auto simp: lex_normal_def lexes_def simp del: first_lexer.simps)
qed

lemma expansion_start_lexed:
  assumes "is_expansion_start L" and "lexer_ok L"
  shows "\<not> lex_expansion_start L = decline L"
proof -
  have b: "is_char_boundary (sf_text (lx_source L)) (lx_position L + 1)" if "looking_at L ''$''"
    using that lexer_ok_ascii [OF assms(2), of "''$''"] by (auto simp: looking_at_rest lexer_ok_def)
  with assms(1) show ?thesis
    by (auto simp: lex_expansion_start_def is_expansion_start_def decline_def emit_def Let_def
        Option.bind_eq_Some_conv)
qed

lemma emit_not_False [simp]: "emit k start M \<noteq> Some (False, N)"
  by (simp add: emit_def)

lemma escape_lexed: "looking_at L [BSLASH] \<Longrightarrow> lex_double_escape L \<noteq> Some (False, N)"
  by (auto simp: lex_double_escape_def Let_def Option.bind_eq_Some_conv split: option.splits)

lemma lex_double_quoted_emits:
  assumes ok: "lexer_ok L" and nonempty: "rest L \<noteq> []" and top: "lx_contexts L \<noteq> []"
  shows "\<exists>M. lex_double_quoted L = Some M \<and> emits L M"
proof (cases "looking_at L [DQUOTE]")
  case True
  then obtain r where r: "rest L = [DQUOTE] @ r" by (auto simp: looking_at_rest)
  have "utf8_valid r" using lexer_ok_ascii [OF ok r] by simp
  then have "lexes (\<lambda>L. map_option (Pair True) (lex_double_quoted L)) L"
    using True
    by (intro push_lexes [OF ok r, where k = TkDoubleQuoteEnd])
      (simp_all add: token_shape_def lex_double_quoted_def leave_def context_after_def)
  then show ?thesis by (rule lexes_SomeD)
next
  case False
  let ?fs = "[lex_invalid_source_character, lex_double_escape, lex_expansion_start]"
  have "lexes (first_lexer ?fs) L" by (rule first_lexer_lexes) (simp add: lexer_facts ok)
  then consider M where "first_lexer ?fs L = Some (True, M)" "emits L M"
    | "first_lexer ?fs L = Some (False, L)"
    by (auto simp: lexes_def)
  then show ?thesis
  proof cases
    case 1
    with False show ?thesis by (simp add: lex_double_quoted_def del: first_lexer.simps)
  next
    case 2
    have l: "lexes lex_invalid_source_character L" "lexes lex_double_escape L" "lexes lex_expansion_start L"
      using ok by (simp_all add: lexer_facts)
    with 2 have d: "lex_invalid_source_character L = decline L" "lex_double_escape L = decline L"
      "lex_expansion_start L = decline L"
      by (auto simp: lexes_def decline_def split: option.splits if_splits)
    have stop: "\<not> double_text_stop L"
      using False d expansion_start_lexed [OF _ ok] escape_lexed [of L]
      by (auto simp: double_text_stop_def lex_invalid_source_character_def decline_def split: if_splits)
    from scan_scalars_eq [OF ok, of double_text_stop] obtain t r where t: "rest L = t @ r" "utf8_valid r"
      "scan_scalars double_text_stop L = Some (advance (length t) L)"
      "\<forall>i < length t. is_ascii (t ! i) \<longrightarrow> \<not> double_text_stop (advance i L)"
      "t = [] \<longleftrightarrow> rest L = [] \<or> double_text_stop L" by blast
    have "t \<noteq> []" using t(5) nonempty stop by simp
    have "DQUOTE \<notin> set t" "BSLASH \<notin> set t" "NUL \<notin> set t"
      using scan_avoids [OF t(1,4)] by (simp_all add: double_text_stop_def)
    with 2 False t \<open>t \<noteq> []\<close>
    have "lexes (\<lambda>L. map_option (Pair True) (lex_double_quoted L)) L"
      by (intro emit_lexes [OF ok t(1), where k = TkDoubleText])
        (simp_all add: token_shape_def lex_double_quoted_def emit_def del: first_lexer.simps)
    then show ?thesis by (rule lexes_SomeD)
  qed
qed

lemma lex_step_emits:
  assumes ok: "lexer_ok L" and nonempty: "rest L \<noteq> []"
  shows "\<exists>M. lex_step L = Some M \<and> emits L M"
  using lex_normal_emits [OF ok nonempty] lex_double_quoted_emits [OF ok nonempty]
  by (auto simp: lex_step_def split: lex_context.splits)

lemma emits_ok:
  assumes "lexer_ok L" and "emits L M"
  shows "lexer_ok M \<and> lx_source M = lx_source L \<and> lx_language M = lx_language L \<and>
    lx_position L < lx_position M"
proof -
  from assms(2) obtain k t r where e: "rest L = t @ r" "t \<noteq> []" "utf8_valid r" "M = emitted L k t"
    by (auto simp: emits_def)
  have "lexer_ok (advance (length t) L)" by (rule lexer_ok_advance [OF assms(1) e(1,3)])
  with e show ?thesis by (simp add: emitted_def lexer_ok_def)
qed

section \<open>Runs\<close>

text \<open>A stream of tokens that tiles the bytes from \<open>a\<close> on: each begins where the one before ended.\<close>

fun tiles :: "source_file \<Rightarrow> lex_language \<Rightarrow> nat \<Rightarrow> token list \<Rightarrow> nat \<Rightarrow> bool" where
  "tiles src lang a [] b \<longleftrightarrow> a = b"
| "tiles src lang a (tok # toks) b \<longleftrightarrow>
     span_start (tk_span tok) = a \<and> a < span_end (tk_span tok) \<and>
     (\<exists>t. token_text src tok = Inr t \<and> token_shape lang (tk_kind tok) t) \<and>
     tiles src lang (span_end (tk_span tok)) toks b"

lemma tiles_snoc:
  "tiles src lang a (toks @ [tok]) c \<longleftrightarrow>
     (\<exists>b. tiles src lang a toks b \<and> span_start (tk_span tok) = b \<and> b < span_end (tk_span tok) \<and>
       (\<exists>t. token_text src tok = Inr t \<and> token_shape lang (tk_kind tok) t) \<and>
       span_end (tk_span tok) = c)"
  by (induction toks arbitrary: a) auto

definition run_inv :: "source_file \<Rightarrow> lex_language \<Rightarrow> lexer \<Rightarrow> bool" where
  "run_inv src lang L \<longleftrightarrow>
     lexer_ok L \<and> lx_source L = src \<and> lx_language L = lang \<and>
     tiles src lang 0 (lx_tokens L) (lx_position L) \<and>
     lx_contexts L = fold context_after (map tk_kind (lx_tokens L)) [CxNormal]"

lemma run_inv_new: "utf8_valid (sf_text src) \<Longrightarrow> run_inv src lang (lexer_new src lang)"
  by (simp add: run_inv_def lexer_new_def lexer_ok_def)

lemma run_inv_step:
  assumes inv: "run_inv src lang L" and e: "emits L M"
  shows "run_inv src lang M"
proof -
  from e obtain k t r where e': "rest L = t @ r" "t \<noteq> []" "utf8_valid r"
    "token_shape (lx_language L) k t" "M = emitted L k t" by (auto simp: emits_def)
  have ok: "lexer_ok L" "lexer_ok M" using inv emits_ok [OF _ e] by (simp_all add: run_inv_def)
  have "token_text src (token_at L k (length t)) = Inr t"
    using ok inv e' cut_rest [OF e'(1)]
    by (simp add: token_text_def source_slice_Inr_iff validate_span_Inr_iff token_at_def run_inv_def
        lexer_ok_def emitted_def)
  with e' inv ok(2) show ?thesis
    by (auto simp: run_inv_def emitted_def tiles_snoc token_at_def)
qed

text \<open>
  A run without cancellation, as the code's loop without its polls; a run with polls is cut short by
  the first of its polls, one for each token and a last one, that answers true.
\<close>

lemma ex_le_Suc: "(\<exists>i \<le> Suc m. p (n + i)) \<longleftrightarrow> p (n + 0) \<or> (\<exists>i \<le> m. p (Suc n + i))"
proof
  assume "\<exists>i \<le> Suc m. p (n + i)"
  then obtain i where i: "i \<le> Suc m" "p (n + i)" by blast
  then show "p (n + 0) \<or> (\<exists>i \<le> m. p (Suc n + i))" by (cases i) auto
next
  assume "p (n + 0) \<or> (\<exists>i \<le> m. p (Suc n + i))"
  then show "\<exists>i \<le> Suc m. p (n + i)"
  proof
    assume "\<exists>i \<le> m. p (Suc n + i)"
    then obtain i where "i \<le> m" "p (n + Suc i)" by auto
    then show ?thesis by (intro exI [of _ "Suc i"]) simp
  qed (intro exI [of _ 0], simp)
qed

lemma lex_loop_run:
  assumes "run_inv src lang L"
  shows "\<exists>M. run_inv src lang M \<and> rest M = [] \<and> length (lx_tokens L) \<le> length (lx_tokens M) \<and>
    (\<forall>cancelled n. lex_loop cancelled n L = Some
      (if \<exists>i \<le> length (lx_tokens M) - length (lx_tokens L). cancelled (n + i) then None
       else Some (lx_tokens M)))"
  using assms
proof (induction "length (rest L)" arbitrary: L rule: less_induct)
  case less
  show ?case
  proof (cases "in_bounds L")
    case False
    then have "lex_loop cancelled n L = Some (if cancelled n then None else Some (lx_tokens L))" for cancelled n
      by (subst lex_loop.simps) simp
    with False less.prems show ?thesis by (intro exI [of _ L]) (simp add: in_bounds_rest)
  next
    case True
    with less.prems obtain M where M: "lex_step L = Some M" "emits L M"
      using lex_step_emits [of L] by (auto simp: in_bounds_rest run_inv_def)
    then obtain k t r where e: "rest L = t @ r" "t \<noteq> []" "M = emitted L k t" by (auto simp: emits_def)
    have "rest M = r" using e(1) rest_advance [of "length t" L] by (simp add: e(3) emitted_def rest_def)
    then have "length (rest M) < length (rest L)" using e by simp
    from less.hyps [OF this run_inv_step [OF less.prems M(2)]] obtain N where N: "run_inv src lang N"
      "rest N = []" "length (lx_tokens M) \<le> length (lx_tokens N)"
      "\<forall>cancelled n. lex_loop cancelled n M = Some
        (if \<exists>i \<le> length (lx_tokens N) - length (lx_tokens M). cancelled (n + i) then None
         else Some (lx_tokens N))" by blast
    have len: "length (lx_tokens M) = Suc (length (lx_tokens L))" by (simp add: e(3) emitted_def)
    have "lex_loop cancelled n L = Some
        (if \<exists>i \<le> length (lx_tokens N) - length (lx_tokens L). cancelled (n + i) then None
         else Some (lx_tokens N))" for cancelled n
    proof -
      have "lx_position L < lx_position M" using e(2) by (simp add: e(3) emitted_def)
      with True M(1) have "lex_loop cancelled n L
          = (if cancelled n then Some None else lex_loop cancelled (Suc n) M)"
        by (subst lex_loop.simps) simp
      moreover have "(\<exists>i \<le> length (lx_tokens N) - length (lx_tokens L). cancelled (n + i)) \<longleftrightarrow>
          cancelled n \<or> (\<exists>i \<le> length (lx_tokens N) - length (lx_tokens M). cancelled (Suc n + i))"
      proof -
        have "length (lx_tokens N) - length (lx_tokens L) = Suc (length (lx_tokens N) - length (lx_tokens M))"
          using len N(3) by simp
        then show ?thesis by (simp only: ex_le_Suc) simp
      qed
      ultimately show ?thesis using N(4) by simp
    qed
    with N len show ?thesis by (intro exI [of _ N]) simp
  qed
qed

lemma lex_run:
  assumes "utf8_valid (sf_text src)"
  obtains M where "run_inv src lang M" and "rest M = []"
    and "\<And>cancelled. lex_with_control lang src cancelled = Some
      (if \<exists>i \<le> length (lx_tokens M). cancelled i then None else Some (lx_tokens M))"
    and "lex_language_tokens lang src = Some (lx_tokens M)"
proof -
  from lex_loop_run [OF run_inv_new [OF assms, of lang]] obtain M where M: "run_inv src lang M" "rest M = []"
    "\<forall>cancelled n. lex_loop cancelled n (lexer_new src lang) = Some
      (if \<exists>i \<le> length (lx_tokens M) - length (lx_tokens (lexer_new src lang)). cancelled (n + i) then None
       else Some (lx_tokens M))" by blast
  have "lex_with_control lang src cancelled = Some
      (if \<exists>i \<le> length (lx_tokens M). cancelled i then None else Some (lx_tokens M))" for cancelled
    using M(3) [rule_format, of cancelled 0] by (simp add: lex_with_control_def lexer_new_def)
  moreover from this have "lex_language_tokens lang src = Some (lx_tokens M)"
    by (simp add: lex_language_tokens_def)
  ultimately show thesis using M(1,2) that by blast
qed

lemma lex_language_tiles:
  assumes "utf8_valid (sf_text src)"
  shows "\<exists>toks. lex_language_tokens lang src = Some toks \<and> tiles src lang 0 toks (source_len src)"
proof -
  from lex_run [OF assms, of lang] obtain M where M: "run_inv src lang M" "rest M = []"
    "lex_language_tokens lang src = Some (lx_tokens M)" .
  have "lx_position M = source_len src"
    using M(1,2) by (auto simp: run_inv_def lexer_ok_def rest_def source_len_def dest: is_char_boundary_le)
  with M(1,3) show ?thesis by (simp add: run_inv_def)
qed

lemma lex_tiles:
  assumes "utf8_valid (sf_text src)"
  obtains toks where "lex src = Some toks" and "tiles src LexV1 0 toks (source_len src)"
  using lex_language_tiles [OF assms, of LexV1] that by (auto simp: lex_def)

lemma tiles_concat:
  assumes "tiles src lang a toks b"
  shows "a \<le> b \<and> concat (map (\<lambda>tok. projr (token_text src tok)) toks) = cut a b (sf_text src)"
  using assms
proof (induction toks arbitrary: a)
  case (Cons tok toks)
  from Cons.prems obtain t where tok: "span_start (tk_span tok) = a" "a < span_end (tk_span tok)"
    "token_text src tok = Inr t" and tl: "tiles src lang (span_end (tk_span tok)) toks b" by auto
  from tok have t: "t = cut a (span_end (tk_span tok)) (sf_text src)"
    by (auto simp: token_text_def source_slice_Inr_iff)
  from Cons.IH [OF tl] tok t show ?case by (simp add: cut_append)
qed simp

text \<open>C1: lexing is total and lossless. On every valid text and in either language the lexer returns
  without a panic; its tokens are nonempty, tile the text from its first to its last byte, and each
  token's text has the lexical shape of its kind. The texts in order are the source.\<close>

theorem lex_lossless:
  assumes "utf8_valid (sf_text src)"
  shows "\<exists>toks. lex_language_tokens lang src = Some toks \<and>
    tiles src lang 0 toks (source_len src) \<and>
    concat (map (\<lambda>tok. projr (token_text src tok)) toks) = sf_text src"
  using lex_language_tiles [OF assms, of lang] tiles_concat [of src lang 0]
  by (auto simp: source_len_def)

text \<open>C15: cancellation. A controlled run never panics: it returns nothing exactly when one of its polls,
  one before each token and one at the end, answers true, and otherwise the tokens of the
  uncontrolled run.\<close>

theorem lex_cancellation:
  assumes "utf8_valid (sf_text src)"
  shows "\<exists>toks. lex_language_tokens lang src = Some toks \<and>
    lex_with_control lang src cancelled =
      Some (if \<exists>i \<le> length toks. cancelled i then None else Some toks)"
  using lex_run [OF assms, of lang] by metis

text \<open>A source that goes through every mode of the lexer.\<close>

definition lex_sample :: source_file where
  "lex_sample = source_file_new (SourceId 1) ''a.fl''
     (''let x = 1.5 # hi'' @ [NL] @ ''echo '' @ [DQUOTE] @ ''a${task}$(b)'' @ [BSLASH] @ ''u{41}'' @ [DQUOTE])"

lemma lex_sample_valid: "utf8_valid (sf_text lex_sample)"
  by code_simp

lemma lex_lossless_witness:
  "\<exists>toks. lex_language_tokens LexV1 lex_sample = Some toks \<and>
    tiles lex_sample LexV1 0 toks (source_len lex_sample) \<and>
    concat (map (\<lambda>tok. projr (token_text lex_sample tok)) toks) = sf_text lex_sample"
  by (rule lex_lossless [OF lex_sample_valid])

lemma lex_cancellation_witness:
  "\<exists>toks. lex_language_tokens LexV2 lex_sample = Some toks \<and>
    lex_with_control LexV2 lex_sample (\<lambda>i. i = 4) =
      Some (if \<exists>i \<le> length toks. i = 4 then None else Some toks)"
  by (rule lex_cancellation [OF lex_sample_valid])

end
