(* ===== verification/Lexer_Languages.thy ===== *)
theory Lexer_Languages
  imports Lexer_Proofs
begin

text \<open>
  The two lexers of \<open>crates/flash-syntax/src/lexer.rs\<close> compared: \<open>lex_v2\<close> is \<open>lex\<close> followed by the
  reservation of the words of the major version 2. The proof is a simulation: \<open>reserved\<close> maps a state
  of the version 1 lexer to one of version 2, and every token function commutes with it.
\<close>

definition reserve_kind :: "source_file \<Rightarrow> token \<Rightarrow> token_kind" where
  "reserve_kind src tok =
     (case tk_kind tok of
        TkIdentifier \<Rightarrow>
          (case token_text src tok of
             Inl _ \<Rightarrow> TkIdentifier
           | Inr t \<Rightarrow> (case keyword_of t LexV2 of None \<Rightarrow> TkIdentifier | Some k \<Rightarrow> TkKeyword k))
      | k \<Rightarrow> k)"

definition reserve_token :: "source_file \<Rightarrow> token \<Rightarrow> token" where
  "reserve_token src tok = tok\<lparr>tk_kind := reserve_kind src tok\<rparr>"

definition reserved :: "lexer \<Rightarrow> lexer" where
  "reserved L =
     L\<lparr>lx_language := LexV2, lx_tokens := map (reserve_token (lx_source L)) (lx_tokens L)\<rparr>"

section \<open>The parts of the state that stay\<close>

lemma reserved_sel [simp]:
  "lx_source (reserved L) = lx_source L" "lx_position (reserved L) = lx_position L"
  "lx_contexts (reserved L) = lx_contexts L" "lx_language (reserved L) = LexV2"
  by (simp_all add: reserved_def)

lemma reserved_looks [simp]:
  "rest (reserved L) = rest L" "looking_at (reserved L) s = looking_at L s"
  "in_bounds (reserved L) = in_bounds L" "peek_byte n (reserved L) = peek_byte n L"
  "current_byte (reserved L) = current_byte L"
  "is_lone_carriage_return (reserved L) = is_lone_carriage_return L"
  "is_expansion_start (reserved L) = is_expansion_start L"
  "operator_or_delimiter_starts_here (reserved L) = operator_or_delimiter_starts_here L"
  "starts_documentation_comment (reserved L) n = starts_documentation_comment L n"
  "exponent_has_digits (reserved L) = exponent_has_digits L"
  by (simp_all add: rest_def looking_at_def in_bounds_def peek_byte_def current_byte_def
      is_lone_carriage_return_def is_expansion_start_def operator_or_delimiter_starts_here_def
      starts_documentation_comment_def exponent_has_digits_def)

lemma reserve_boundary_kind [simp]: "boundary_kind (reserve_kind src tok) = boundary_kind (tk_kind tok)"
  by (auto simp: reserve_kind_def boundary_kind_def split: token_kind.splits sum.splits option.splits)

lemma reserved_boundary [simp]: "is_token_boundary (reserved L) = is_token_boundary L"
  by (auto simp: is_token_boundary_def reserved_def last_map reserve_token_def)

lemma reserved_moves [simp]:
  "advance n (reserved L) = reserved (advance n L)"
  "skip_bytes p (reserved L) = reserved (skip_bytes p L)"
  "consume_digits p (reserved L) = reserved (consume_digits p L)"
  "enter c (reserved L) = reserved (enter c L)" "leave (reserved L) = reserved (leave L)"
  "note_nested_interpolation d (reserved L) = reserved (note_nested_interpolation d L)"
  by (simp_all add: reserved_def advance_def skip_bytes_def consume_digits_def enter_def leave_def
      note_nested_interpolation_def rest_def)

lemma reserved_advance_scalar [simp]:
  "advance_scalar (reserved L) = map_option reserved (advance_scalar L)"
  by (simp add: advance_scalar_def split: list.splits)

lemma reserved_scan:
  assumes "\<And>M. stop (reserved M) = stop M"
  shows "scan_scalars stop (reserved L) = map_option reserved (scan_scalars stop L)"
proof (induction "length (rest L)" arbitrary: L rule: less_induct)
  case less
  show ?case
  proof (cases "in_bounds L \<and> \<not> stop L")
    case False
    with assms show ?thesis by (subst (1 2) scan_scalars.simps) auto
  next
    case True
    show ?thesis
    proof (cases "advance_scalar L")
      case None
      with True assms show ?thesis by (subst (1 2) scan_scalars.simps) simp
    next
      case (Some M)
      then obtain n where "0 < n" "M = advance n L" by (blast dest: advance_scalar_SomeD)
      with True have "length (rest M) < length (rest L)" by (auto simp: in_bounds_rest)
      from less [OF this] True Some assms show ?thesis by (subst (1 2) scan_scalars.simps) simp
    qed
  qed
qed

section \<open>Emitting\<close>

lemma reserve_token_other: "tk_kind tok \<noteq> TkIdentifier \<Longrightarrow> reserve_token src tok = tok"
  by (simp add: reserve_token_def reserve_kind_def split: token_kind.splits)

lemma reserved_push:
  "k \<noteq> TkIdentifier \<Longrightarrow> push k start (reserved L) = map_option reserved (push k start L)"
  by (cases "source_span (lx_source L) start (lx_position L)")
    (simp_all add: push_def reserved_def reserve_token_other)

lemma reserved_emit:
  "k \<noteq> TkIdentifier \<Longrightarrow>
     emit k start (reserved L) = map_option (map_prod id reserved) (emit k start L)"
  by (simp add: emit_def reserved_push option.map_comp o_def)

lemma reserved_emit_word:
  fixes L start
  defines "t \<equiv> cut start (lx_position L) (sf_text (lx_source L))"
  shows "emit (case keyword_of t LexV2 of None \<Rightarrow> TkIdentifier | Some k \<Rightarrow> TkKeyword k) start (reserved L)
    = map_option (map_prod id reserved)
        (emit (case keyword_of t LexV1 of None \<Rightarrow> TkIdentifier | Some k \<Rightarrow> TkKeyword k) start L)"
proof (cases "source_span (lx_source L) start (lx_position L)")
  case (Inl e)
  then show ?thesis by (simp add: emit_def push_def)
next
  case (Inr sp)
  then have sp: "source_slice (lx_source L) sp = Inr t"
    by (auto simp: source_span_Inr_iff source_slice_Inr_iff validate_span_Inr_iff t_def)
  have same: "keyword_of t LexV1 = Some k \<Longrightarrow> keyword_of t LexV2 = Some k" for k
    by (simp add: keyword_of_def split: if_splits)
  show ?thesis
    using Inr sp same
    by (cases "keyword_of t LexV1")
      (auto simp: emit_def push_def reserved_def reserve_token_def reserve_kind_def token_text_def
        simp del: source_span_Inr_iff split: option.splits)
qed

section \<open>The token functions\<close>

definition commutes :: "(lexer \<Rightarrow> (bool \<times> lexer) option) \<Rightarrow> bool" where
  "commutes f \<longleftrightarrow>
     (\<forall>L. lx_language L = LexV1 \<longrightarrow> f (reserved L) = map_option (map_prod id reserved) (f L))"

lemma reserved_decline [simp]: "decline (reserved L) = map_option (map_prod id reserved) (decline L)"
  by (simp add: decline_def)

lemma bind_map_option: "Option.bind (map_option g x) f = Option.bind x (\<lambda>y. f (g y))"
  by (cases x) simp_all

lemma map_option_bind: "map_option g (Option.bind x f) = Option.bind x (\<lambda>y. map_option g (f y))"
  by (cases x) simp_all

lemma reserved_if [simp]:
  "(if c then reserved L else reserved M) = reserved (if c then L else M)"
  "(if c then advance n (reserved L) else reserved M) = reserved (if c then advance n L else M)"
  by simp_all

lemmas commuting = commutes_def Let_def reserved_emit reserved_push reserved_scan bind_map_option
  map_option_bind

lemma commuting_token_functions:
  "commutes lex_invalid_source_character" "commutes lex_horizontal_trivia" "commutes lex_newline"
  "commutes lex_bare_escape" "commutes lex_comment" "commutes lex_double_quote_start"
  by (simp_all add: commuting lex_invalid_source_character_def lex_horizontal_trivia_def
      lex_newline_def lex_bare_escape_def lex_comment_def lex_double_quote_start_def)

lemma lex_single_quoted_commutes: "commutes lex_single_quoted"
  by (simp add: commuting lex_single_quoted_def)

lemma lex_expansion_start_commutes: "commutes lex_expansion_start"
  by (simp add: commuting lex_expansion_start_def)

lemma unicode_kind_plain:
  "(case unicode_escape_error t of None \<Rightarrow> TkDoubleEscape | Some e \<Rightarrow> TkInvalid e) \<noteq> TkIdentifier"
  by (simp split: option.splits)

lemma lex_double_escape_commutes: "commutes lex_double_escape"
  by (simp add: commuting lex_double_escape_def unicode_kind_plain split: option.splits)

lemma close_interpolation_commutes: "commutes close_interpolation_if_needed"
  by (simp add: commuting close_interpolation_if_needed_def)

lemma lex_operator_or_delimiter_commutes: "commutes lex_operator_or_delimiter"
  using close_interpolation_commutes
  by (auto simp: commuting lex_operator_or_delimiter_def split: option.splits prod.splits bool.splits)

lemma lex_identifier_commutes: "commutes lex_identifier"
proof -
  have "lex_identifier (reserved L) = map_option (map_prod id reserved) (lex_identifier L)"
    if "lx_language L = LexV1" for L
    using that reserved_emit_word [of "lx_position L" "skip_bytes is_identifier_continue (advance 1 L)"]
    by (simp add: lex_identifier_def Let_def)
  then show ?thesis by (simp add: commutes_def)
qed

lemma lex_fraction_reserved: "lex_fraction (reserved L) = map_prod id reserved (lex_fraction L)"
  by (simp add: lex_fraction_def)

lemma lex_exponent_reserved:
  "lex_exponent (map_prod id reserved p) = map_prod id reserved (lex_exponent p)"
  by (cases p) (simp add: lex_exponent_def Let_def)

lemma lex_number_commutes: "commutes lex_number"
  by (simp add: commuting lex_number_def lex_fraction_reserved lex_exponent_reserved split: prod.splits)

section \<open>Steps and runs\<close>

lemma first_lexer_commutes:
  assumes "list_all commutes fs" and "list_all keeps_source fs" and "lx_language L = LexV1"
  shows "first_lexer fs (reserved L) = map_option (map_prod id reserved) (first_lexer fs L)"
  using assms
proof (induction fs arbitrary: L)
  case (Cons f fs)
  then have f: "f (reserved L) = map_option (map_prod id reserved) (f L)" by (simp add: commutes_def)
  show ?case
  proof (cases "f L")
    case None
    with f show ?thesis by simp
  next
    case (Some bM)
    obtain b M where bM: "bM = (b, M)" by (cases bM)
    with Cons.prems Some have "lx_language M = LexV1" by (auto simp: keeps_source_def)
    with Cons Some f bM show ?thesis by simp
  qed
qed simp

lemma lex_word_text_commutes: "lex_word_text (reserved L) = map_option reserved (lex_word_text L)"
proof -
  have stop: "word_stop (reserved M) = word_stop M" for M by (simp add: word_stop_def)
  show ?thesis
  proof (cases "scan_scalars word_stop L")
    case (Some M)
    then show ?thesis
      by (simp add: lex_word_text_def reserved_scan [where stop = word_stop, OF stop] bind_map_option
          map_option_bind reserved_push)
  qed (simp add: lex_word_text_def reserved_scan [where stop = word_stop, OF stop])
qed

lemma lex_normal_commutes:
  assumes "lx_language L = LexV1"
  shows "lex_normal (reserved L) = map_option reserved (lex_normal L)"
  using first_lexer_commutes [OF _ _ assms, of "[lex_invalid_source_character, lex_horizontal_trivia,
      lex_newline, lex_bare_escape, lex_comment, lex_single_quoted, lex_double_quote_start,
      lex_expansion_start, lex_operator_or_delimiter, lex_identifier, lex_number]"]
    token_functions_keep_source lex_operator_or_delimiter_keeps_source lex_number_keeps_source
  by (auto simp: lex_normal_def commuting_token_functions lex_single_quoted_commutes
      lex_expansion_start_commutes lex_operator_or_delimiter_commutes lex_identifier_commutes
      lex_number_commutes lex_word_text_commutes simp del: first_lexer.simps split: option.splits)

lemma lex_double_quoted_commutes:
  assumes "lx_language L = LexV1"
  shows "lex_double_quoted (reserved L) = map_option reserved (lex_double_quoted L)"
proof -
  have stop: "double_text_stop (reserved M) = double_text_stop M" for M by (simp add: double_text_stop_def)
  show ?thesis
    using first_lexer_commutes [OF _ _ assms, of "[lex_invalid_source_character, lex_double_escape,
      lex_expansion_start]"] token_functions_keep_source
    by (auto simp: lex_double_quoted_def commuting_token_functions lex_double_escape_commutes
        lex_expansion_start_commutes reserved_push reserved_scan [where stop = double_text_stop, OF stop] bind_map_option map_option_bind
        option.map_comp o_def simp del: first_lexer.simps split: option.splits)
qed

lemma lex_step_commutes:
  "lx_language L = LexV1 \<Longrightarrow> lex_step (reserved L) = map_option reserved (lex_step L)"
  by (simp add: lex_step_def lex_normal_commutes lex_double_quoted_commutes split: lex_context.split)

lemma lex_loop_commutes:
  "lx_language L = LexV1 \<Longrightarrow>
     lex_loop cancelled n (reserved L) =
       map_option (map_option (map (reserve_token (lx_source L)))) (lex_loop cancelled n L)"
proof (induction cancelled n L rule: lex_loop.induct)
  case (1 cancelled n L)
  show ?case
  proof (cases "in_bounds L \<and> \<not> cancelled n")
    case False
    have "lx_tokens (reserved L) = map (reserve_token (lx_source L)) (lx_tokens L)"
      by (simp add: reserved_def)
    with False show ?thesis by (subst (1 2) lex_loop.simps) auto
  next
    case True
    show ?thesis
    proof (cases "lex_step L")
      case None
      with True "1.prems" show ?thesis by (subst (1 2) lex_loop.simps) (simp add: lex_step_commutes)
    next
      case (Some M)
      note keeps = lex_step_keeps [OF Some]
      with 1 True Some show ?thesis
        by (subst (1 2) lex_loop.simps) (auto simp: lex_step_commutes)
    qed
  qed
qed

text \<open>C16: the version 2 lexer reserves its words and changes nothing else: on every source, \<open>lex_v2\<close> gives
  the tokens of \<open>lex\<close> with the same spans and kinds, except that an identifier spelled as a word of
  the version 2 vocabulary is that keyword. In particular both lexers panic on the same sources.\<close>

theorem lex_v2_reserves:
  "lex_v2 src = map_option (map (reserve_token src)) (lex src)"
proof -
  have "lexer_new src LexV2 = reserved (lexer_new src LexV1)"
    by (simp add: lexer_new_def reserved_def)
  then have "lex_with_control LexV2 src c =
      map_option (map_option (map (reserve_token src))) (lex_with_control LexV1 src c)" for c
    using lex_loop_commutes [of "lexer_new src LexV1" c 0]
    by (simp add: lex_with_control_def lexer_new_def)
  then show ?thesis by (simp add: lex_v2_def lex_def lex_language_tokens_def split: option.splits)
qed

end
