(* ===== verification/Classification.thy ===== *)
theory Classification
  imports Lexer Diagnostic
begin

text \<open>
  \<open>crates/flash-syntax/src/classification.rs\<close>: whether a token stream is complete, incomplete or
  invalid before any parsing. The delimiter stack of the code is a list with its top first. The
  specification is the Dyck language \<open>balanced\<close> over token kinds: a stream is complete exactly when its
  kinds are balanced (and no quote or operator is left open), and it is rejected for a closing
  delimiter exactly when no continuation could balance it.
\<close>

section \<open>Classifications\<close>

datatype incomplete_reason =
    UnmatchedSingleQuote | UnmatchedDoubleQuote | TrailingBackslash | UnmatchedBracedInterpolation
  | UnmatchedCommandSubstitution | PipelineStage | RedirectionTarget | FunctionBlock | ClosureBody
  | InCall | InParenthesis | InBracket | InBrace | InExpression | TypeReference | ConditionalOperand

fun reason_message :: "incomplete_reason \<Rightarrow> string" where
  "reason_message UnmatchedSingleQuote = ''unmatched single quote''"
| "reason_message UnmatchedDoubleQuote = ''unmatched double quote''"
| "reason_message TrailingBackslash = ''explicit continuation requires more source''"
| "reason_message UnmatchedBracedInterpolation = ''unmatched braced interpolation''"
| "reason_message UnmatchedCommandSubstitution = ''unmatched command substitution''"
| "reason_message PipelineStage = ''pipeline operator requires another stage''"
| "reason_message RedirectionTarget = ''redirection operator requires one target word''"
| "reason_message FunctionBlock = ''function block requires a closing brace''"
| "reason_message ClosureBody = ''closure requires a body and closing brace''"
| "reason_message InCall = ''call requires a closing parenthesis''"
| "reason_message InParenthesis = ''opening parenthesis requires a closing parenthesis''"
| "reason_message InBracket = ''opening bracket requires a closing bracket''"
| "reason_message InBrace = ''opening brace requires a closing brace''"
| "reason_message InExpression = ''expression requires another operand''"
| "reason_message TypeReference = ''type annotation requires a type''"
| "reason_message ConditionalOperand = ''conditional operator requires another pipeline''"

record incomplete_input =
  ii_reason :: incomplete_reason
  ii_span :: span

datatype syntax_classification =
    ScComplete
  | ScIncomplete incomplete_input
  | ScInvalid diagnostic

datatype frame_kind =
    FkDoubleQuote | FkBracedExpansion | FkCommandSubstitution
  | FkParenthesis bool \<comment> \<open>call\<close>
  | FkBracket
  | FkBrace bool bool \<comment> \<open>closure, function\<close>

record frame =
  fr_kind :: frame_kind
  fr_span :: span

definition incomplete :: "incomplete_reason \<Rightarrow> span \<Rightarrow> syntax_classification" where
  "incomplete reason sp = ScIncomplete \<lparr>ii_reason = reason, ii_span = sp\<rparr>"

definition unexpected_closer :: "span \<Rightarrow> syntax_classification" where
  "unexpected_closer sp =
     (let message = ''unexpected closing delimiter''
      in ScInvalid (with_primary sp message (diagnostic_new SevError ''FS0002'' message)))"

fun invalid_message :: "invalid_token_kind \<Rightarrow> string" where
  "invalid_message IvNul = ''NUL byte is not valid source''"
| "invalid_message IvLoneCarriageReturn = ''lone carriage return is not a valid line ending''"
| "invalid_message IvUnknownDoubleEscape = ''unknown double-quoted escape''"
| "invalid_message IvEmptyUnicodeEscape = ''Unicode escape requires hexadecimal digits''"
| "invalid_message IvUnicodeSurrogate = ''Unicode escape cannot encode a surrogate''"
| "invalid_message IvUnicodeOutOfRange = ''Unicode escape exceeds the scalar range''"
| "invalid_message IvMalformedUnicodeEscape = ''malformed Unicode escape''"

definition invalid_token_diagnostic :: "token \<Rightarrow> invalid_token_kind \<Rightarrow> diagnostic" where
  "invalid_token_diagnostic tok k =
     with_primary (tk_span tok) (invalid_message k) (diagnostic_new SevError ''FS0001'' (invalid_message k))"

section \<open>The passes\<close>

definition can_end_callee :: "token_kind \<Rightarrow> bool" where
  "can_end_callee k \<longleftrightarrow>
     k \<in> {TkIdentifier, TkVariable, TkDelimiter DlRightParenthesis, TkDelimiter DlRightBracket}"

definition is_significant :: "token_kind \<Rightarrow> bool" where
  "is_significant k \<longleftrightarrow> k \<notin> {TkWhitespace, TkNewline, TkComment, TkDocumentationComment}"

definition statement_contains_keyword :: "token list \<Rightarrow> nat \<Rightarrow> keyword \<Rightarrow> bool" where
  "statement_contains_keyword tokens bound w =
     list_ex (\<lambda>tok. tk_kind tok = TkKeyword w)
       (takeWhile (\<lambda>tok. tk_kind tok \<notin> {TkNewline, TkOperator OpSemicolon}) (rev (take bound tokens)))"

text \<open>\<open>pop_where\<close>: the popped stack, or \<open>None\<close> when the top frame does not match.\<close>

definition pop_where :: "(frame_kind \<Rightarrow> bool) \<Rightarrow> frame list \<Rightarrow> frame list option" where
  "pop_where matches' frames =
     (case frames of [] \<Rightarrow> None | f # fs \<Rightarrow> if matches' (fr_kind f) then Some fs else None)"

definition pop_matching :: "frame_kind \<Rightarrow> frame list \<Rightarrow> frame list option" where
  "pop_matching expected = pop_where (\<lambda>k. k = expected)"

fun is_parenthesis_frame :: "frame_kind \<Rightarrow> bool" where
  "is_parenthesis_frame (FkParenthesis _) = True"
| "is_parenthesis_frame FkCommandSubstitution = True"
| "is_parenthesis_frame _ = False"

fun is_brace_frame :: "frame_kind \<Rightarrow> bool" where
  "is_brace_frame (FkBrace _ _) = True"
| "is_brace_frame FkBracedExpansion = True"
| "is_brace_frame _ = False"

definition frame_for :: "token \<Rightarrow> frame_kind \<Rightarrow> frame" where
  "frame_for tok k = \<lparr>fr_kind = k, fr_span = tk_span tok\<rparr>"

text \<open>A closing token: the classification that ends the pass, or the popped stack.\<close>

definition close_with :: "token \<Rightarrow> frame list option \<Rightarrow> syntax_classification + frame list" where
  "close_with tok popped =
     (case popped of None \<Rightarrow> Inl (unexpected_closer (tk_span tok)) | Some fs \<Rightarrow> Inr fs)"

definition classify_delimiter ::
  "token list \<Rightarrow> nat \<Rightarrow> token \<Rightarrow> delimiter \<Rightarrow> nat option \<Rightarrow> frame list \<Rightarrow>
     syntax_classification + frame list" where
  "classify_delimiter tokens index tok d previous frames =
     (case d of
        DlLeftParenthesis \<Rightarrow>
          (let call = is_some_and can_end_callee (map_option (\<lambda>i. tk_kind (tokens ! i)) previous)
           in Inr (frame_for tok (FkParenthesis call) # frames))
      | DlLeftBracket \<Rightarrow> Inr (frame_for tok FkBracket # frames)
      | DlLeftBrace \<Rightarrow>
          (let closure = is_some_and
                 (\<lambda>next'. is_adjacent_to tok next' \<and>
                    tk_kind next' \<in> {TkOperator OpPipe, TkOperator OpOr})
                 (get_nth tokens (index + 1));
               function' = statement_contains_keyword tokens index KwDef
           in Inr (frame_for tok (FkBrace closure function') # frames))
      | DlRightParenthesis \<Rightarrow> close_with tok (pop_where is_parenthesis_frame frames)
      | DlRightBracket \<Rightarrow> close_with tok (pop_matching FkBracket frames)
      | DlRightBrace \<Rightarrow> close_with tok (pop_where is_brace_frame frames))"

text \<open>What one token does to the stack; \<open>Inl\<close> leaves the pass with a classification.\<close>

definition classify_token ::
  "source_file \<Rightarrow> token list \<Rightarrow> nat \<Rightarrow> token \<Rightarrow> nat option \<Rightarrow> frame list \<Rightarrow>
     span_error + (syntax_classification + frame list)" where
  "classify_token src tokens index tok previous frames =
     (case tk_kind tok of
        TkSingleQuoted \<Rightarrow>
          and_then (token_text src tok) (\<lambda>text.
            if length text < 2 \<or> \<not> ends_with text [SQUOTE]
            then Inr (Inl (incomplete UnmatchedSingleQuote (tk_span tok)))
            else Inr (Inr frames))
      | TkDoubleQuoteStart \<Rightarrow> Inr (Inr (frame_for tok FkDoubleQuote # frames))
      | TkDoubleQuoteEnd \<Rightarrow> Inr (close_with tok (pop_matching FkDoubleQuote frames))
      | TkBracedExpansionStart \<Rightarrow> Inr (Inr (frame_for tok FkBracedExpansion # frames))
      | TkCommandSubstitutionStart \<Rightarrow> Inr (Inr (frame_for tok FkCommandSubstitution # frames))
      | TkDelimiter d \<Rightarrow> Inr (classify_delimiter tokens index tok d previous frames)
      | _ \<Rightarrow> Inr (Inr frames))"

fun classify_scan ::
  "source_file \<Rightarrow> token list \<Rightarrow> nat \<Rightarrow> token list \<Rightarrow> nat option \<Rightarrow> frame list \<Rightarrow>
     span_error + (syntax_classification + (frame list \<times> nat option))" where
  "classify_scan src tokens index [] previous frames = Inr (Inr (frames, previous))"
| "classify_scan src tokens index (tok # toks) previous frames =
     and_then (classify_token src tokens index tok previous frames) (\<lambda>r.
       case r of
         Inl c \<Rightarrow> Inr (Inl c)
       | Inr frames' \<Rightarrow>
           classify_scan src tokens (index + 1) toks
             (if is_significant (tk_kind tok) then Some index else previous) frames')"

fun first_invalid :: "source_file \<Rightarrow> token list \<Rightarrow> span_error + diagnostic option" where
  "first_invalid src [] = Inr None"
| "first_invalid src (tok # toks) =
     and_then (token_text src tok) (\<lambda>_.
       case tk_kind tok of
         TkInvalid k \<Rightarrow> Inr (Some (invalid_token_diagnostic tok k))
       | _ \<Rightarrow> first_invalid src toks)"

fun frame_reason :: "frame_kind \<Rightarrow> incomplete_reason" where
  "frame_reason FkDoubleQuote = UnmatchedDoubleQuote"
| "frame_reason FkBracedExpansion = UnmatchedBracedInterpolation"
| "frame_reason FkCommandSubstitution = UnmatchedCommandSubstitution"
| "frame_reason (FkParenthesis call) = (if call then InCall else InParenthesis)"
| "frame_reason FkBracket = InBracket"
| "frame_reason (FkBrace closure function') =
     (if closure then ClosureBody else if function' then FunctionBlock else InBrace)"

definition trailing_requirement :: "source_file \<Rightarrow> token \<Rightarrow> span_error + incomplete_reason option" where
  "trailing_requirement src tok =
     (case tk_kind tok of
        TkBareEscape \<Rightarrow>
          and_then (token_text src tok) (\<lambda>text.
            Inr (if text = [BSLASH] then Some TrailingBackslash else None))
      | TkLineContinuation \<Rightarrow>
          Inr (if span_end (tk_span tok) = source_len src then Some TrailingBackslash else None)
      | TkOperator p \<Rightarrow>
          Inr (if p \<in> {OpPipe, OpPipeBoth} then Some PipelineStage
               else if p \<in> {OpLess, OpGreater, OpAppend, OpDuplicate} then Some RedirectionTarget
               else None)
      | _ \<Rightarrow> Inr None)"

definition classify_tokens :: "source_file \<Rightarrow> token list \<Rightarrow> span_error + syntax_classification" where
  "classify_tokens src tokens =
     and_then (first_invalid src tokens) (\<lambda>invalid.
       case invalid of
         Some d \<Rightarrow> Inr (ScInvalid d)
       | None \<Rightarrow>
           and_then (classify_scan src tokens 0 tokens None []) (\<lambda>r.
             case r of
               Inl c \<Rightarrow> Inr c
             | Inr (frames, previous) \<Rightarrow>
                 (case frames of
                    f # _ \<Rightarrow> Inr (incomplete (frame_reason (fr_kind f)) (fr_span f))
                  | [] \<Rightarrow>
                      (case previous of
                         None \<Rightarrow> Inr ScComplete
                       | Some i \<Rightarrow>
                           and_then (trailing_requirement src (tokens ! i)) (\<lambda>t.
                             case t of
                               Some reason \<Rightarrow> Inr (incomplete reason (tk_span (tokens ! i)))
                             | None \<Rightarrow> Inr ScComplete)))))"

section \<open>Balanced token kinds\<close>

definition bracket_pairs :: "(token_kind \<times> token_kind) list" where
  "bracket_pairs =
     [(TkDoubleQuoteStart, TkDoubleQuoteEnd),
      (TkBracedExpansionStart, TkDelimiter DlRightBrace),
      (TkCommandSubstitutionStart, TkDelimiter DlRightParenthesis),
      (TkDelimiter DlLeftParenthesis, TkDelimiter DlRightParenthesis),
      (TkDelimiter DlLeftBracket, TkDelimiter DlRightBracket),
      (TkDelimiter DlLeftBrace, TkDelimiter DlRightBrace)]"

definition closes :: "token_kind \<Rightarrow> token_kind \<Rightarrow> bool" where
  "closes a c \<longleftrightarrow> (a, c) \<in> set bracket_pairs"

definition opener :: "token_kind \<Rightarrow> bool" where
  "opener k \<longleftrightarrow> k \<in> fst ` set bracket_pairs"

definition closer :: "token_kind \<Rightarrow> bool" where
  "closer c \<longleftrightarrow> c \<in> snd ` set bracket_pairs"

inductive balanced :: "token_kind list \<Rightarrow> bool" where
  nothing: "balanced []"
| plain: "\<not> opener k \<Longrightarrow> \<not> closer k \<Longrightarrow> balanced ks \<Longrightarrow> balanced (k # ks)"
| nest: "closes a c \<Longrightarrow> balanced ks \<Longrightarrow> balanced ls \<Longrightarrow> balanced (a # ks @ c # ls)"

text \<open>The stack automaton of the pass, on kinds alone.\<close>

fun scan_kinds :: "token_kind list \<Rightarrow> token_kind list \<Rightarrow> token_kind list option" where
  "scan_kinds st [] = Some st"
| "scan_kinds st (k # ks) =
     (if opener k then scan_kinds (k # st) ks
      else if closer k then
        (case st of a # st' \<Rightarrow> if closes a k then scan_kinds st' ks else None | [] \<Rightarrow> None)
      else scan_kinds st ks)"

lemma closesD: "closes a c \<Longrightarrow> opener a \<and> closer c"
  by (force simp: closes_def opener_def closer_def)

lemma closer_not_opener: "closer c \<Longrightarrow> \<not> opener c"
  by (auto simp: opener_def closer_def bracket_pairs_def)

lemma opener_closes: "opener a \<Longrightarrow> \<exists>c. closes a c"
  by (force simp: closes_def opener_def)

lemma balanced_append: "balanced ks \<Longrightarrow> balanced ls \<Longrightarrow> balanced (ks @ ls)"
  by (induction ks rule: balanced.induct) (simp_all add: balanced.intros)

lemma scan_kinds_append:
  "scan_kinds st (ks @ ls) = (case scan_kinds st ks of None \<Rightarrow> None | Some st' \<Rightarrow> scan_kinds st' ls)"
  by (induction st ks rule: scan_kinds.induct) (auto split: list.splits)

lemma scan_kinds_balanced: "balanced ks \<Longrightarrow> scan_kinds st ks = Some st"
proof (induction ks arbitrary: st rule: balanced.induct)
  case (nest a c ks ls)
  then have "opener a" "closer c" "\<not> opener c" using closesD closer_not_opener by blast+
  with nest show ?case by (simp add: scan_kinds_append)
qed simp_all

text \<open>What is left to read when the openers \<open>st\<close> are open.\<close>

fun completes :: "token_kind list \<Rightarrow> token_kind list \<Rightarrow> bool" where
  "completes [] ks \<longleftrightarrow> balanced ks"
| "completes (a # st) ks \<longleftrightarrow>
     (\<exists>ls c ms. ks = ls @ c # ms \<and> balanced ls \<and> closes a c \<and> completes st ms)"

lemma completes_prefix: "balanced ks \<Longrightarrow> completes st ls \<Longrightarrow> completes st (ks @ ls)"
proof (cases st)
  case (Cons a st')
  assume ks: "balanced ks" and "completes st ls"
  with Cons obtain ls' c ms where "ls = ls' @ c # ms" "balanced ls'" "closes a c" "completes st' ms" by auto
  with ks Cons show ?thesis
    by (auto intro!: exI [of _ "ks @ ls'"] balanced_append)
qed (simp add: balanced_append)

lemma scan_kinds_completes: "scan_kinds st ks = Some [] \<Longrightarrow> completes st ks"
proof (induction st ks rule: scan_kinds.induct)
  case (1 st)
  then show ?case by (simp add: balanced.intros)
next
  case (2 st k ks)
  consider (opens) "opener k" | (close) "\<not> opener k" "closer k" | (plain) "\<not> opener k" "\<not> closer k" by blast
  then show ?case
  proof cases
    case opens
    with 2 have "completes (k # st) ks" by simp
    then obtain ls c ms where ks: "ks = ls @ c # ms" "balanced ls" "closes k c" "completes st ms" by auto
    have "balanced (k # ls @ [c])" using balanced.nest [OF ks(3,2) balanced.nothing] by simp
    with completes_prefix [OF this ks(4)] ks(1) show ?thesis by simp
  next
    case close
    with 2 obtain a st' where st: "st = a # st'" "closes a k" "scan_kinds st' ks = Some []"
      by (auto split: list.splits if_splits)
    with 2 close have "completes st' ks" by simp
    with st show ?thesis by (auto intro!: exI [of _ "[]"] balanced.intros)
  next
    case plain
    with 2 have "completes st ks" by simp
    moreover have "balanced [k]" using plain by (intro balanced.intros) simp_all
    ultimately show ?thesis using completes_prefix [of "[k]" st ks] by simp
  qed
qed

lemma balanced_iff_scan: "balanced ks \<longleftrightarrow> scan_kinds [] ks = Some []"
  using scan_kinds_completes [of "[]" ks] scan_kinds_balanced [of ks "[]"] by auto

lemma scan_kinds_openers: "scan_kinds st ks = Some st' \<Longrightarrow> list_all opener st \<Longrightarrow> list_all opener st'"
  by (induction st ks rule: scan_kinds.induct) (auto split: list.splits if_splits)

lemma close_openers: "list_all opener st \<Longrightarrow> \<exists>ls. scan_kinds st ls = Some []"
proof (induction st)
  case Nil
  show ?case by (rule exI [of _ "[]"]) simp
next
  case (Cons a st)
  then obtain ls where "scan_kinds st ls = Some []" by auto
  moreover obtain c where "closes a c" using Cons.prems opener_closes [of a] by auto
  ultimately have "scan_kinds (a # st) (c # ls) = Some []"
    using closesD [of a c] closer_not_opener [of c] by simp
  then show ?case by blast
qed

text \<open>A prefix of the automaton fails exactly when no continuation is balanced.\<close>

lemma scan_kinds_None_iff: "scan_kinds [] ks = None \<longleftrightarrow> (\<forall>ls. \<not> balanced (ks @ ls))"
proof
  assume "scan_kinds [] ks = None"
  then show "\<forall>ls. \<not> balanced (ks @ ls)" by (simp add: balanced_iff_scan scan_kinds_append)
next
  assume no: "\<forall>ls. \<not> balanced (ks @ ls)"
  show "scan_kinds [] ks = None"
  proof (cases "scan_kinds [] ks")
    case (Some st)
    then have "list_all opener st" using scan_kinds_openers by fastforce
    then obtain ls where "scan_kinds st ls = Some []" using close_openers by blast
    with Some no show ?thesis by (simp add: balanced_iff_scan scan_kinds_append)
  qed simp
qed

section \<open>The pass and the automaton\<close>

fun frame_opener :: "frame_kind \<Rightarrow> token_kind" where
  "frame_opener FkDoubleQuote = TkDoubleQuoteStart"
| "frame_opener FkBracedExpansion = TkBracedExpansionStart"
| "frame_opener FkCommandSubstitution = TkCommandSubstitutionStart"
| "frame_opener (FkParenthesis _) = TkDelimiter DlLeftParenthesis"
| "frame_opener FkBracket = TkDelimiter DlLeftBracket"
| "frame_opener (FkBrace _ _) = TkDelimiter DlLeftBrace"

definition open_kinds :: "frame list \<Rightarrow> token_kind list" where
  "open_kinds frames = map (\<lambda>f. frame_opener (fr_kind f)) frames"

lemma open_kinds_simps [simp]:
  "open_kinds [] = []"
  "open_kinds (f # fs) = frame_opener (fr_kind f) # open_kinds fs"
  by (simp_all add: open_kinds_def)

definition quote_closed :: "source_file \<Rightarrow> token \<Rightarrow> bool" where
  "quote_closed src tok \<longleftrightarrow>
     (tk_kind tok = TkSingleQuoted \<longrightarrow>
       (\<exists>text. token_text src tok = Inr text \<and> 2 \<le> length text \<and> ends_with text [SQUOTE]))"

lemma pop_where_closes:
  assumes "\<And>f. p f \<longleftrightarrow> closes (frame_opener f) c"
  shows "(case open_kinds frames of [] \<Rightarrow> pop_where p frames = None
    | a # st \<Rightarrow> (if closes a c then \<exists>fs. pop_where p frames = Some fs \<and> open_kinds fs = st
                 else pop_where p frames = None))"
  using assms by (cases frames) (auto simp: pop_where_def open_kinds_def)

lemma closing_frames:
  "f = FkDoubleQuote \<longleftrightarrow> closes (frame_opener f) TkDoubleQuoteEnd"
  "f = FkBracket \<longleftrightarrow> closes (frame_opener f) (TkDelimiter DlRightBracket)"
  "is_parenthesis_frame f \<longleftrightarrow> closes (frame_opener f) (TkDelimiter DlRightParenthesis)"
  "is_brace_frame f \<longleftrightarrow> closes (frame_opener f) (TkDelimiter DlRightBrace)"
  by (cases f; simp add: closes_def bracket_pairs_def)+

text \<open>The stack after one token of a kind.\<close>

definition kind_step :: "token_kind \<Rightarrow> token_kind list \<Rightarrow> token_kind list option" where
  "kind_step k st =
     (if opener k then Some (k # st)
      else if closer k then
        (case st of [] \<Rightarrow> None | a # st' \<Rightarrow> if closes a k then Some st' else None)
      else Some st)"

lemma scan_kinds_step: "scan_kinds st (k # ks) = Option.bind (kind_step k st) (\<lambda>st'. scan_kinds st' ks)"
  by (simp add: kind_step_def split: list.split)

definition token_result ::
  "token \<Rightarrow> token_kind list option \<Rightarrow> syntax_classification + frame list \<Rightarrow> bool" where
  "token_result tok st r =
     (case st of
        None \<Rightarrow> r = Inl (unexpected_closer (tk_span tok))
      | Some st' \<Rightarrow> \<exists>fs. r = Inr fs \<and> open_kinds fs = st')"

lemma close_with_result:
  assumes p: "\<And>f. p f \<longleftrightarrow> closes (frame_opener f) c" and c: "closer c"
  shows "token_result tok (kind_step c (open_kinds frames)) (close_with tok (pop_where p frames))"
  using pop_where_closes [OF p, of frames] closer_not_opener [OF c] c
  by (auto simp: token_result_def kind_step_def close_with_def split: list.splits if_splits)

lemma closers:
  "closer TkDoubleQuoteEnd" "closer (TkDelimiter DlRightBracket)"
  "closer (TkDelimiter DlRightParenthesis)" "closer (TkDelimiter DlRightBrace)"
  by (simp_all add: closer_def bracket_pairs_def)

lemma opener_kind_step: "opener k \<Longrightarrow> kind_step k st = Some (k # st)"
  by (simp add: kind_step_def)

lemma openers:
  "opener TkDoubleQuoteStart" "opener TkBracedExpansionStart" "opener TkCommandSubstitutionStart"
  "opener (TkDelimiter DlLeftParenthesis)" "opener (TkDelimiter DlLeftBracket)"
  "opener (TkDelimiter DlLeftBrace)"
  by (simp_all add: opener_def bracket_pairs_def)

lemma plain_kind_step:
  assumes "\<And>d. k \<noteq> TkDelimiter d"
    and "k \<notin> {TkDoubleQuoteStart, TkDoubleQuoteEnd, TkBracedExpansionStart, TkCommandSubstitutionStart}"
  shows "kind_step k st = Some st"
  using assms by (auto simp: kind_step_def opener_def closer_def bracket_pairs_def)

lemma classify_delimiter_result:
  "token_result tok (kind_step (TkDelimiter d) (open_kinds frames))
     (classify_delimiter tokens index tok d previous frames)"
proof -
  note close = close_with_result [OF closing_frames(2) closers(2)]
    close_with_result [OF closing_frames(3) closers(3)] close_with_result [OF closing_frames(4) closers(4)]
  show ?thesis
    by (cases d)
      (simp_all add: classify_delimiter_def close pop_matching_def opener_kind_step openers
        token_result_def [of tok "Some _"] frame_for_def Let_def)
qed

lemma classify_token_result:
  assumes "quote_closed src tok"
  shows "\<exists>r. classify_token src tokens index tok previous frames = Inr r \<and>
    token_result tok (kind_step (tk_kind tok) (open_kinds frames)) r"
proof -
  have plain: "token_result tok (kind_step k (open_kinds frames)) (Inr frames)"
    if "\<And>d. k \<noteq> TkDelimiter d" "k \<notin> {TkDoubleQuoteStart, TkDoubleQuoteEnd,
      TkBracedExpansionStart, TkCommandSubstitutionStart}" for k
    using plain_kind_step [OF that] by (simp add: token_result_def)
  have opens: "token_result tok (kind_step k (open_kinds frames)) (Inr (frame_for tok f # frames))"
    if "opener k" "frame_opener f = k" for k f
    using that by (simp add: opener_kind_step token_result_def frame_for_def)
  show ?thesis
  proof (cases "tk_kind tok = TkSingleQuoted")
    case True
    with assms obtain t where "token_text src tok = Inr t" "2 \<le> length t"
      "ends_with t [SQUOTE]" by (auto simp: quote_closed_def)
    then have "classify_token src tokens index tok previous frames = Inr (Inr frames)"
      by (simp add: classify_token_def True del: and_then_eq_Inr)
    with True show ?thesis by (auto intro!: plain)
  next
    case False
    then show ?thesis
      using close_with_result [OF closing_frames(1) closers(1), of tok frames]
      by (cases "tk_kind tok")
        (auto simp: classify_token_def pop_matching_def classify_delimiter_result openers
          intro!: opens plain)
  qed
qed

lemma classify_token_quote:
  "classify_token src tokens index tok previous frames = Inr (Inr fs) \<Longrightarrow> quote_closed src tok"
  by (auto simp: classify_token_def quote_closed_def split: if_splits token_kind.splits)

text \<open>The index of the last significant token.\<close>

fun last_significant :: "nat \<Rightarrow> token list \<Rightarrow> nat option \<Rightarrow> nat option" where
  "last_significant index [] previous = previous"
| "last_significant index (tok # toks) previous =
     last_significant (index + 1) toks (if is_significant (tk_kind tok) then Some index else previous)"

lemma classify_scan_result:
  assumes "\<forall>tok \<in> set toks. quote_closed src tok"
  shows "(case scan_kinds (open_kinds frames) (map tk_kind toks) of
      None \<Rightarrow> \<exists>tok \<in> set toks. classify_scan src tokens index toks previous frames
                = Inr (Inl (unexpected_closer (tk_span tok)))
    | Some st \<Rightarrow> \<exists>fs. open_kinds fs = st \<and>
        classify_scan src tokens index toks previous frames
          = Inr (Inr (fs, last_significant index toks previous)))"
  using assms
proof (induction toks arbitrary: index previous frames)
  case (Cons tok toks)
  then obtain r where r: "classify_token src tokens index tok previous frames = Inr r"
    "token_result tok (kind_step (tk_kind tok) (open_kinds frames)) r"
    using classify_token_result by (metis list.set_intros(1))
  show ?case
  proof (cases "kind_step (tk_kind tok) (open_kinds frames)")
    case None
    with r show ?thesis by (simp add: scan_kinds_step token_result_def del: scan_kinds.simps and_then_eq_Inr)
  next
    case (Some st)
    with r obtain fs where fs: "r = Inr fs" "open_kinds fs = st" by (auto simp: token_result_def)
    from Cons.prems have "\<forall>tok \<in> set toks. quote_closed src tok" by simp
    from Cons.IH [OF this, where frames = fs and index = "index + 1"
        and previous = "if is_significant (tk_kind tok) then Some index else previous"]
    show ?thesis using Some fs r(1)
      by (cases "is_significant (tk_kind tok)")
        (auto simp: scan_kinds_step simp del: scan_kinds.simps and_then_eq_Inr split: option.splits)
  qed
qed simp

lemma classify_scan_quotes:
  "classify_scan src tokens index toks previous frames = Inr (Inr r) \<Longrightarrow>
     \<forall>tok \<in> set toks. quote_closed src tok"
proof (induction toks arbitrary: index previous frames)
  case (Cons tok toks)
  then obtain q where q: "classify_token src tokens index tok previous frames = Inr q" by auto
  with Cons.prems obtain fs where fs: "classify_token src tokens index tok previous frames = Inr (Inr fs)"
    by (cases q) simp_all
  moreover from fs Cons have "\<forall>tok \<in> set toks. quote_closed src tok" by auto
  ultimately show ?case using classify_token_quote by auto
qed simp

lemma classify_scan_not_complete:
  "classify_scan src tokens index toks previous frames \<noteq> Inr (Inl ScComplete)"
proof (induction toks arbitrary: index previous frames)
  case (Cons tok toks)
  have "classify_token src tokens index tok previous frames \<noteq> Inr (Inl ScComplete)"
    by (auto simp: classify_token_def classify_delimiter_def close_with_def incomplete_def
        unexpected_closer_def Let_def split: token_kind.splits delimiter.splits option.splits if_splits)
  with Cons show ?case by (auto split: sum.split_asm)
qed simp

definition not_invalid :: "token \<Rightarrow> bool" where
  "not_invalid tok \<longleftrightarrow> (case tk_kind tok of TkInvalid _ \<Rightarrow> False | _ \<Rightarrow> True)"

lemma first_invalid_result:
  assumes "\<forall>tok \<in> set toks. \<exists>t. token_text src tok = Inr t"
  shows "\<exists>d. first_invalid src toks = Inr d \<and> (d = None \<longleftrightarrow> (\<forall>tok \<in> set toks. not_invalid tok))"
  using assms
proof (induction toks)
  case (Cons tok toks)
  then obtain d t where "first_invalid src toks = Inr d" "d = None \<longleftrightarrow> (\<forall>tok \<in> set toks. not_invalid tok)"
    "token_text src tok = Inr t" by auto
  then show ?case by (auto simp: not_invalid_def simp del: and_then_eq_Inr split: token_kind.splits)
qed simp

text \<open>The operator or escape at the end of a stream that needs more input.\<close>

definition wants_more :: "source_file \<Rightarrow> token list \<Rightarrow> bool" where
  "wants_more src tokens \<longleftrightarrow>
     (case last_significant 0 tokens None of
        None \<Rightarrow> False
      | Some i \<Rightarrow> trailing_requirement src (tokens ! i) \<noteq> Inr None)"

lemma last_significant_bound:
  "last_significant index toks previous = Some i \<Longrightarrow> previous = Some i \<or> index \<le> i \<and> i < index + length toks"
  by (induction index toks previous rule: last_significant.induct) (auto split: if_splits)

lemma trailing_requirement_Inr:
  "token_text src tok = Inr t \<Longrightarrow> \<exists>r. trailing_requirement src tok = Inr r"
  by (cases "tk_kind tok") (simp_all add: trailing_requirement_def del: and_then_eq_Inr)

lemma classify_not_invalid:
  assumes t: "\<forall>tok \<in> set tokens. \<exists>t. token_text src tok = Inr t"
    and inv: "\<forall>tok \<in> set tokens. not_invalid tok"
  shows "classify_tokens src tokens =
    and_then (classify_scan src tokens 0 tokens None []) (\<lambda>r.
      case r of
        Inl c \<Rightarrow> Inr c
      | Inr (frames, previous) \<Rightarrow>
          (case frames of
             f # _ \<Rightarrow> Inr (incomplete (frame_reason (fr_kind f)) (fr_span f))
           | [] \<Rightarrow>
               (case previous of
                  None \<Rightarrow> Inr ScComplete
                | Some i \<Rightarrow>
                    and_then (trailing_requirement src (tokens ! i)) (\<lambda>t.
                      case t of
                        Some reason \<Rightarrow> Inr (incomplete reason (tk_span (tokens ! i)))
                      | None \<Rightarrow> Inr ScComplete))))"
proof -
  have "first_invalid src tokens = Inr None" using first_invalid_result [OF t] inv by auto
  then show ?thesis by (simp add: classify_tokens_def del: and_then_eq_Inr)
qed

text \<open>The end of the pass over a balanced stream.\<close>

lemma classify_balanced:
  assumes t: "\<forall>tok \<in> set tokens. \<exists>t. token_text src tok = Inr t"
    and inv: "\<forall>tok \<in> set tokens. not_invalid tok"
    and q: "\<forall>tok \<in> set tokens. quote_closed src tok"
    and st: "scan_kinds [] (map tk_kind tokens) = Some []"
  shows "\<exists>c. classify_tokens src tokens = Inr c \<and> (c = ScComplete \<longleftrightarrow> \<not> wants_more src tokens) \<and>
    (\<forall>d. c \<noteq> ScInvalid d)"
proof -
  have scan: "classify_scan src tokens 0 tokens None [] = Inr (Inr ([], last_significant 0 tokens None))"
    using classify_scan_result [OF q, where frames = "[]" and tokens = tokens and index = 0 and previous = None] st
    by (auto simp: open_kinds_def)
  show ?thesis
  proof (cases "last_significant 0 tokens None")
    case None
    then show ?thesis
      by (simp add: classify_not_invalid [OF t inv] scan wants_more_def del: and_then_eq_Inr)
  next
    case (Some i)
    then have "tokens ! i \<in> set tokens" using last_significant_bound by fastforce
    with t obtain r where r: "trailing_requirement src (tokens ! i) = Inr r"
      using trailing_requirement_Inr by blast
    show ?thesis
      by (cases r)
        (simp_all add: classify_not_invalid [OF t inv] scan Some r wants_more_def incomplete_def
          del: and_then_eq_Inr)
  qed
qed

text \<open>C20: completeness is balance. For tokens that belong to the source, the classification is complete
  exactly when no token is invalid, every single quote is closed, the kinds of the tokens are
  balanced as brackets, and the last significant token does not ask for more.\<close>

theorem classify_complete_iff:
  assumes t: "\<forall>tok \<in> set tokens. \<exists>t. token_text src tok = Inr t"
  shows "classify_tokens src tokens = Inr ScComplete \<longleftrightarrow>
    (\<forall>tok \<in> set tokens. not_invalid tok \<and> quote_closed src tok) \<and>
    balanced (map tk_kind tokens) \<and> \<not> wants_more src tokens"
proof (cases "\<forall>tok \<in> set tokens. not_invalid tok")
  case False
  then obtain d where "first_invalid src tokens = Inr (Some d)"
    using first_invalid_result [OF t] by (metis option.exhaust)
  with False show ?thesis by (auto simp: classify_tokens_def simp del: and_then_eq_Inr)
next
  case inv: True
  show ?thesis
  proof (cases "\<forall>tok \<in> set tokens. quote_closed src tok")
    case q: True
    note scan = classify_scan_result [OF q, where frames = "[]" and tokens = tokens and index = 0
        and previous = None]
    show ?thesis
    proof (cases "scan_kinds [] (map tk_kind tokens)")
      case None
      with scan have "\<exists>sp. classify_scan src tokens 0 tokens None [] = Inr (Inl (unexpected_closer sp))"
        by auto
      then obtain sp where "classify_scan src tokens 0 tokens None [] = Inr (Inl (unexpected_closer sp))" ..
      then have "classify_tokens src tokens \<noteq> Inr ScComplete"
        by (simp add: classify_not_invalid [OF t inv] unexpected_closer_def Let_def del: and_then_eq_Inr)
      with None show ?thesis by (simp add: balanced_iff_scan)
    next
      case (Some st)
      show ?thesis
      proof (cases st)
        case Nil
        from classify_balanced [OF t inv q Some [unfolded Nil]] inv q Some Nil show ?thesis
          by (auto simp: balanced_iff_scan)
      next
        case (Cons a st')
        with scan Some obtain fs where fs: "open_kinds fs = st"
          "classify_scan src tokens 0 tokens None [] = Inr (Inr (fs, last_significant 0 tokens None))"
          by auto
        with Cons obtain f fs' where "fs = f # fs'" by (cases fs) auto
        with fs have "classify_tokens src tokens \<noteq> Inr ScComplete"
          by (simp add: classify_not_invalid [OF t inv] incomplete_def del: and_then_eq_Inr)
        with Some Cons show ?thesis by (simp add: balanced_iff_scan)
      qed
    qed
  next
    case False
    have "classify_tokens src tokens \<noteq> Inr ScComplete"
    proof
      assume c: "classify_tokens src tokens = Inr ScComplete"
      then obtain r where r: "classify_scan src tokens 0 tokens None [] = Inr r"
        by (auto simp: classify_not_invalid [OF t inv])
      with False classify_scan_quotes obtain sc where "r = Inl sc" by (cases r) blast+
      with r c have "classify_scan src tokens 0 tokens None [] = Inr (Inl ScComplete)"
        by (simp add: classify_not_invalid [OF t inv] del: and_then_eq_Inr)
      then show False using classify_scan_not_complete by blast
    qed
    with False show ?thesis by blast
  qed
qed

text \<open>C21: incomplete input is input that can be completed. For a stream without invalid tokens and open
  single quotes, the classification is never an error of the source; it rejects the stream exactly
  when no continuation of its kinds is balanced, and any other stream is complete or incomplete.\<close>

theorem classify_rejects_iff:
  assumes t: "\<forall>tok \<in> set tokens. \<exists>t. token_text src tok = Inr t"
    and inv: "\<forall>tok \<in> set tokens. not_invalid tok"
    and q: "\<forall>tok \<in> set tokens. quote_closed src tok"
  shows "\<exists>c. classify_tokens src tokens = Inr c \<and>
    ((\<exists>d. c = ScInvalid d) \<longleftrightarrow> (\<forall>ks. \<not> balanced (map tk_kind tokens @ ks)))"
proof -
  note scan = classify_scan_result [OF q, where frames = "[]" and tokens = tokens and index = 0
      and previous = None]
  show ?thesis
  proof (cases "scan_kinds [] (map tk_kind tokens)")
    case None
    with scan have "\<exists>sp. classify_scan src tokens 0 tokens None [] = Inr (Inl (unexpected_closer sp))"
      by auto
    then obtain sp where "classify_scan src tokens 0 tokens None [] = Inr (Inl (unexpected_closer sp))" ..
    with None show ?thesis
      by (simp add: classify_not_invalid [OF t inv] unexpected_closer_def Let_def scan_kinds_None_iff
          del: and_then_eq_Inr)
  next
    case (Some st)
    then have ex: "\<not> (\<forall>ks. \<not> balanced (map tk_kind tokens @ ks))"
      using scan_kinds_None_iff [of "map tk_kind tokens"] by simp
    show ?thesis
    proof (cases st)
      case Nil
      from classify_balanced [OF t inv q Some [unfolded Nil]] ex show ?thesis by auto
    next
      case (Cons a st')
      with scan Some obtain fs where fs: "open_kinds fs = st"
        "classify_scan src tokens 0 tokens None [] = Inr (Inr (fs, last_significant 0 tokens None))"
        by auto
      with Cons obtain f fs' where "fs = f # fs'" by (cases fs) auto
      with fs ex show ?thesis
        by (simp add: classify_not_invalid [OF t inv] incomplete_def del: and_then_eq_Inr)
    qed
  qed
qed

text \<open>The tokens of \<open>f({|x| \$(a)})\<close>, written out.\<close>

definition sample_tokens :: "source_file \<times> token list" where
  "sample_tokens =
     (let src = source_file_new (SourceId 0) ''t'' ''f({|x| $(a)})''
      in (src, the (lex src)))"

lemma sample_tokens_ok:
  "list_all (\<lambda>tok. \<not> isl (token_text (fst sample_tokens) tok)) (snd sample_tokens)"
  "list_all (\<lambda>tok. not_invalid tok \<and> tk_kind tok \<noteq> TkSingleQuoted) (snd sample_tokens)"
  by code_simp+

lemma sample_tokens_text: "\<forall>tok \<in> set (snd sample_tokens). \<exists>t. token_text (fst sample_tokens) tok = Inr t"
proof
  fix tok assume "tok \<in> set (snd sample_tokens)"
  with sample_tokens_ok(1) have "\<not> isl (token_text (fst sample_tokens) tok)" by (simp add: list_all_iff)
  then show "\<exists>t. token_text (fst sample_tokens) tok = Inr t"
    by (cases "token_text (fst sample_tokens) tok") simp_all
qed

lemma classify_complete_iff_witness:
  "classify_tokens (fst sample_tokens) (snd sample_tokens) = Inr ScComplete \<longleftrightarrow>
    (\<forall>tok \<in> set (snd sample_tokens). not_invalid tok \<and> quote_closed (fst sample_tokens) tok) \<and>
    balanced (map tk_kind (snd sample_tokens)) \<and> \<not> wants_more (fst sample_tokens) (snd sample_tokens)"
  by (rule classify_complete_iff) (rule sample_tokens_text)

lemma classify_rejects_iff_witness:
  "\<exists>c. classify_tokens (fst sample_tokens) (snd sample_tokens) = Inr c \<and>
    ((\<exists>d. c = ScInvalid d) \<longleftrightarrow> (\<forall>ks. \<not> balanced (map tk_kind (snd sample_tokens) @ ks)))"
proof (rule classify_rejects_iff)
  show "\<forall>tok \<in> set (snd sample_tokens). \<exists>t. token_text (fst sample_tokens) tok = Inr t"
    by (rule sample_tokens_text)
  show "\<forall>tok \<in> set (snd sample_tokens). not_invalid tok"
    "\<forall>tok \<in> set (snd sample_tokens). quote_closed (fst sample_tokens) tok"
    using sample_tokens_ok(2) by (auto simp: list_all_iff quote_closed_def)
qed

end
