(* ===== verification/Language.thy ===== *)
theory Language
  imports Lexer_Proofs Diagnostic
begin

text \<open>
  \<open>crates/flash-syntax/src/language.rs\<close>: detection of the leading \<open>language 2\<close> directive in the tokens
  of the version 1 lexer. A panic (the \<open>expect\<close> of \<open>token_text\<close> and of the directive's spans) is \<open>None\<close>.
  The specification \<open>directive_at\<close> says which token streams carry the directive; the theorems show
  that detection never panics on a valid text and accepts exactly those streams.
\<close>

section \<open>The code\<close>

datatype language_major = MajorV1 | MajorV2

fun language_major_get :: "language_major \<Rightarrow> nat" where
  "language_major_get MajorV1 = 1"
| "language_major_get MajorV2 = 2"

instantiation language_major :: linorder
begin

definition less_eq_language_major :: "language_major \<Rightarrow> language_major \<Rightarrow> bool" where
  "less_eq_language_major a b \<longleftrightarrow> language_major_get a \<le> language_major_get b"

definition less_language_major :: "language_major \<Rightarrow> language_major \<Rightarrow> bool" where
  "less_language_major a b \<longleftrightarrow> language_major_get a < language_major_get b"

instance
proof
  fix a b :: language_major
  show "a \<le> b \<Longrightarrow> b \<le> a \<Longrightarrow> a = b"
    by (cases a; cases b) (simp_all add: less_eq_language_major_def)
qed (auto simp: less_eq_language_major_def less_language_major_def)

end

record language_directive =
  ld_major :: language_major
  ld_span :: span

datatype language_detection =
    DetectedComplete language_directive
  | DetectedInvalid "diagnostic list"

definition is_leading_trivia :: "token \<Rightarrow> bool" where
  "is_leading_trivia tok \<longleftrightarrow>
     tk_kind tok \<in> {TkWhitespace, TkNewline, TkComment, TkDocumentationComment, TkOperator OpSemicolon}"

definition is_directive_terminator :: "token \<Rightarrow> bool" where
  "is_directive_terminator tok \<longleftrightarrow>
     tk_kind tok \<in> {TkNewline, TkComment, TkDocumentationComment, TkOperator OpSemicolon}"

definition expect_token_text :: "source_file \<Rightarrow> token \<Rightarrow> string option" where
  "expect_token_text src tok = expect_ok (token_text src tok)"

definition next_inline_token :: "token list \<Rightarrow> nat \<Rightarrow> nat option" where
  "next_inline_token tokens start =
     (case position (\<lambda>tok. tk_kind tok \<noteq> TkWhitespace) (drop start tokens) of
        None \<Rightarrow> None
      | Some k \<Rightarrow>
          (let index = k + start in
           if is_directive_terminator (tokens ! index) then None else Some index))"

definition is_canonical_decimal_major :: "string \<Rightarrow> bool" where
  "is_canonical_decimal_major t \<longleftrightarrow>
     t \<noteq> [] \<and> list_all is_ascii_digit t \<and> (length t = 1 \<or> \<not> starts_with t ''0'')"

definition missing_directive :: "source_file \<Rightarrow> span option \<Rightarrow> diagnostic option" where
  "missing_directive src sp = do {
     sp \<leftarrow> (case sp of Some s \<Rightarrow> Some s | None \<Rightarrow> expect_ok (source_span src 0 0));
     Some (with_primary sp ''expected `language 2` here''
       (diagnostic_new SevError ''FS2001''
          ''Flash 2 source requires `language 2` as its first statement''))
   }"

definition malformed_directive :: "span \<Rightarrow> diagnostic" where
  "malformed_directive sp =
     with_primary sp ''invalid language directive''
       (diagnostic_new SevError ''FS2002'' ''language directive must be exactly `language 2`'')"

definition unsupported_major :: "span \<Rightarrow> string \<Rightarrow> diagnostic" where
  "unsupported_major sp major =
     with_primary sp ''unsupported language major''
       (diagnostic_new SevError ''FS2003'' (''unsupported language major `'' @ major @ ''`''))"

definition duplicate_diagnostic :: "token \<Rightarrow> diagnostic" where
  "duplicate_diagnostic tok =
     with_primary (tk_span tok) ''duplicate language directive''
       (diagnostic_new SevError ''FS2004'' ''language directive may appear only once'')"

text \<open>The loop of \<open>duplicate_directive\<close>, with its flag; the text is read only at a statement's start.\<close>

fun duplicate_scan :: "source_file \<Rightarrow> bool \<Rightarrow> token list \<Rightarrow> diagnostic option option" where
  "duplicate_scan src at_start [] = Some None"
| "duplicate_scan src at_start (tok # toks) =
     (if tk_kind tok \<in> {TkWhitespace, TkComment, TkDocumentationComment} then
        duplicate_scan src at_start toks
      else if tk_kind tok \<in> {TkNewline, TkOperator OpSemicolon} then duplicate_scan src True toks
      else if tk_kind tok \<in> {TkIdentifier, TkKeyword KwLanguage} \<and> at_start then do {
        t \<leftarrow> expect_token_text src tok;
        (if t = ''language'' then Some (Some (duplicate_diagnostic tok))
         else duplicate_scan src False toks)
      }
      else duplicate_scan src False toks)"

definition duplicate_directive :: "source_file \<Rightarrow> token list \<Rightarrow> diagnostic option option" where
  "duplicate_directive src tokens = duplicate_scan src False tokens"

definition directive_span :: "source_file \<Rightarrow> token \<Rightarrow> token \<Rightarrow> span option" where
  "directive_span src first last' =
     expect_ok (source_span src (span_start (tk_span first)) (span_end (tk_span last')))"

text \<open>\<open>language\<close> has the kind of a word and is spelled \<open>language\<close>.\<close>

definition is_language_word :: "source_file \<Rightarrow> token \<Rightarrow> bool option" where
  "is_language_word src tok =
     (if tk_kind tok \<notin> {TkIdentifier, TkKeyword KwLanguage} then Some False
      else map_option (\<lambda>t. t = ''language'') (expect_token_text src tok))"

text \<open>The end of detection: what follows the major, then the search for a second directive.\<close>

definition finish_directive :: "source_file \<Rightarrow> token list \<Rightarrow> span \<Rightarrow> language_detection option" where
  "finish_directive src rest' sp = do {
     dup \<leftarrow> duplicate_directive src rest';
     Some (case dup of
             Some d \<Rightarrow> DetectedInvalid [d]
           | None \<Rightarrow> DetectedComplete \<lparr>ld_major = MajorV2, ld_span = sp\<rparr>)
   }"

definition after_major :: "source_file \<Rightarrow> token \<Rightarrow> token list \<Rightarrow> span \<Rightarrow> language_detection option" where
  "after_major src language rest' sp =
     (case find (\<lambda>tok. tk_kind tok \<noteq> TkWhitespace) rest' of
        Some next' \<Rightarrow>
          if \<not> is_directive_terminator next' then do {
            sp' \<leftarrow> directive_span src language next';
            Some (DetectedInvalid [malformed_directive sp'])
          }
          else finish_directive src rest' sp
      | None \<Rightarrow> finish_directive src rest' sp)"

definition check_major :: "source_file \<Rightarrow> token \<Rightarrow> token \<Rightarrow> token list \<Rightarrow> language_detection option" where
  "check_major src language major rest' = do {
     t \<leftarrow> expect_token_text src major;
     sp \<leftarrow> directive_span src language major;
     (if tk_kind major \<noteq> TkNumber NumInteger \<or> t \<noteq> ''2'' then
        (if is_canonical_decimal_major t
         then Some (DetectedInvalid [unsupported_major (tk_span major) t])
         else Some (DetectedInvalid [malformed_directive sp]))
      else after_major src language rest' sp)
   }"

definition detect_source_language_tokens :: "source_file \<Rightarrow> token list \<Rightarrow> language_detection option" where
  "detect_source_language_tokens src tokens =
     (case position (\<lambda>tok. \<not> is_leading_trivia tok) tokens of
        None \<Rightarrow> do { d \<leftarrow> missing_directive src None; Some (DetectedInvalid [d]) }
      | Some i \<Rightarrow> do {
          word \<leftarrow> is_language_word src (tokens ! i);
          (if \<not> word then do {
             d \<leftarrow> missing_directive src (Some (tk_span (tokens ! i)));
             Some (DetectedInvalid [d])
           }
           else
             (case next_inline_token tokens (i + 1) of
                None \<Rightarrow> Some (DetectedInvalid [malformed_directive (tk_span (tokens ! i))])
              | Some j \<Rightarrow> check_major src (tokens ! i) (tokens ! j) (drop (j + 1) tokens)))
        })"

definition detect_source_language :: "source_file \<Rightarrow> language_detection option" where
  "detect_source_language src =
     Option.bind (lex src) (\<lambda>tokens. detect_source_language_tokens src tokens)"

section \<open>Statement starts\<close>

definition is_soft :: "token \<Rightarrow> bool" where
  "is_soft tok \<longleftrightarrow> tk_kind tok \<in> {TkWhitespace, TkComment, TkDocumentationComment}"

definition is_separator :: "token \<Rightarrow> bool" where
  "is_separator tok \<longleftrightarrow> tk_kind tok \<in> {TkNewline, TkOperator OpSemicolon}"

definition language_word :: "source_file \<Rightarrow> token \<Rightarrow> bool" where
  "language_word src tok \<longleftrightarrow>
     tk_kind tok \<in> {TkIdentifier, TkKeyword KwLanguage} \<and> token_text src tok = Inr ''language''"

text \<open>After the tokens \<open>p\<close> a statement starts: a separator is the last of them but for blanks and
  comments (or there is no other token and one started before).\<close>

definition statement_start :: "bool \<Rightarrow> token list \<Rightarrow> bool" where
  "statement_start b p \<longleftrightarrow>
     (b \<and> list_all is_soft p) \<or> (\<exists>q z r. p = q @ z # r \<and> is_separator z \<and> list_all is_soft r)"

definition repeats :: "source_file \<Rightarrow> bool \<Rightarrow> token list \<Rightarrow> bool" where
  "repeats src b toks \<longleftrightarrow>
     (\<exists>p tok s. toks = p @ tok # s \<and> language_word src tok \<and> statement_start b p)"

lemma repeatsI: "toks = p @ tok # s \<Longrightarrow> language_word src tok \<Longrightarrow> statement_start b p \<Longrightarrow> repeats src b toks"
  unfolding repeats_def by blast

lemma soft_not_separator: "is_soft tok \<Longrightarrow> \<not> is_separator tok"
  by (auto simp: is_soft_def is_separator_def)

lemma statement_start_Nil [simp]: "statement_start b [] = b"
  by (simp add: statement_start_def)

lemma statement_start_Cons [simp]:
  "statement_start b (tok # p) \<longleftrightarrow>
     statement_start (if is_soft tok then b else is_separator tok) p"
proof -
  have "(\<exists>q z r. tok # p = q @ z # r \<and> is_separator z \<and> list_all is_soft r) \<longleftrightarrow>
      is_separator tok \<and> list_all is_soft p \<or> (\<exists>q z r. p = q @ z # r \<and> is_separator z \<and> list_all is_soft r)"
    by (auto simp: Cons_eq_append_conv)
  then show ?thesis using soft_not_separator by (auto simp: statement_start_def)
qed

lemma repeats_Nil [simp]: "\<not> repeats src b []"
  by (simp add: repeats_def)

lemma repeats_Cons [simp]:
  "repeats src b (tok # toks) \<longleftrightarrow>
     (b \<and> language_word src tok) \<or> repeats src (if is_soft tok then b else is_separator tok) toks"
proof
  assume "repeats src b (tok # toks)"
  then obtain p t s where r: "tok # toks = p @ t # s" "language_word src t" "statement_start b p"
    by (auto simp: repeats_def)
  show "(b \<and> language_word src tok) \<or> repeats src (if is_soft tok then b else is_separator tok) toks"
  proof (cases p)
    case Nil
    with r show ?thesis by simp
  next
    case (Cons a p')
    with r have "toks = p' @ t # s" "statement_start (if is_soft tok then b else is_separator tok) p'"
      by auto
    with r(2) have "repeats src (if is_soft tok then b else is_separator tok) toks"
      unfolding repeats_def by blast
    then show ?thesis ..
  qed
next
  assume "(b \<and> language_word src tok) \<or> repeats src (if is_soft tok then b else is_separator tok) toks"
  then show "repeats src b (tok # toks)"
  proof
    assume "b \<and> language_word src tok"
    then show ?thesis by (intro repeatsI [of _ "[]" tok toks]) simp_all
  next
    assume "repeats src (if is_soft tok then b else is_separator tok) toks"
    then obtain p t s where "toks = p @ t # s" "language_word src t"
      "statement_start (if is_soft tok then b else is_separator tok) p" by (auto simp: repeats_def)
    then show ?thesis by (intro repeatsI [of _ "tok # p" t s]) simp_all
  qed
qed

lemma duplicate_scan_result:
  assumes "\<forall>tok \<in> set toks. \<exists>t. token_text src tok = Inr t"
  shows "\<exists>r. duplicate_scan src b toks = Some r \<and> (r = None \<longleftrightarrow> \<not> repeats src b toks)"
  using assms
proof (induction toks arbitrary: b)
  case (Cons tok toks)
  then have IH: "\<exists>r. duplicate_scan src b toks = Some r \<and> (r = None \<longleftrightarrow> \<not> repeats src b toks)" for b
    by simp
  from Cons.prems obtain t where t: "token_text src tok = Inr t" by auto
  consider (soft) "is_soft tok" | (sep) "\<not> is_soft tok" "is_separator tok"
    | (word) "\<not> is_soft tok" "\<not> is_separator tok" "tk_kind tok \<in> {TkIdentifier, TkKeyword KwLanguage} \<and> b"
    | (other) "\<not> is_soft tok" "\<not> is_separator tok" "\<not> (tk_kind tok \<in> {TkIdentifier, TkKeyword KwLanguage} \<and> b)"
    by blast
  then show ?case
  proof cases
    case soft
    then have "\<not> language_word src tok" by (auto simp: is_soft_def language_word_def)
    with soft IH show ?thesis by (simp add: is_soft_def)
  next
    case sep
    then have "\<not> language_word src tok" by (auto simp: is_separator_def language_word_def)
    moreover have "duplicate_scan src b (tok # toks) = duplicate_scan src True toks"
      using sep by (auto simp: is_soft_def is_separator_def)
    ultimately show ?thesis using sep IH [of True] by simp
  next
    case word
    have f: "duplicate_scan src b (tok # toks) =
        (if t = ''language'' then Some (Some (duplicate_diagnostic tok)) else duplicate_scan src False toks)"
      using word t by (auto simp: is_soft_def is_separator_def expect_token_text_def)
    have "language_word src tok \<longleftrightarrow> t = ''language''" using word t by (auto simp: language_word_def)
    with f word IH [of False] show ?thesis by auto
  next
    case other
    have "duplicate_scan src b (tok # toks) = duplicate_scan src False toks"
      using other by (auto simp: is_soft_def is_separator_def)
    moreover have "\<not> (b \<and> language_word src tok)" using other by (auto simp: language_word_def)
    ultimately show ?thesis using other IH [of False] by simp
  qed
qed simp

section \<open>The directive\<close>

definition is_blank_token :: "token \<Rightarrow> bool" where
  "is_blank_token tok \<longleftrightarrow> tk_kind tok = TkWhitespace"

text \<open>The tokens are trivia, the word \<open>l\<close>, blanks, the major \<open>n\<close>, and a rest that ends the statement and
  has no second directive at the start of a statement.\<close>

definition directive_at :: "source_file \<Rightarrow> token list \<Rightarrow> token \<Rightarrow> token \<Rightarrow> bool" where
  "directive_at src tokens l n \<longleftrightarrow>
     (\<exists>pre ws post. tokens = pre @ l # ws @ n # post \<and> list_all is_leading_trivia pre \<and>
        language_word src l \<and> list_all is_blank_token ws \<and>
        tk_kind n = TkNumber NumInteger \<and> token_text src n = Inr ''2'' \<and>
        (case dropWhile is_blank_token post of [] \<Rightarrow> True | tok # _ \<Rightarrow> is_directive_terminator tok) \<and>
        \<not> repeats src False post)"

lemma find_dropWhile: "find p xs = (case dropWhile (\<lambda>x. \<not> p x) xs of [] \<Rightarrow> None | x # _ \<Rightarrow> Some x)"
  by (induction xs) simp_all

lemma position_append:
  "list_all (\<lambda>x. \<not> p x) xs \<Longrightarrow> p y \<Longrightarrow> position p (xs @ y # ys) = Some (length xs)"
  by (induction xs) simp_all

lemma position_split:
  "position p xs = Some i \<Longrightarrow>
     xs = take i xs @ xs ! i # drop (Suc i) xs \<and> list_all (\<lambda>x. \<not> p x) (take i xs) \<and> p (xs ! i)"
  by (auto simp: position_eq_Some_iff id_take_nth_drop [symmetric] list_all_length)

text \<open>Tokens that tile a valid text have texts, and any two in order span one.\<close>

lemma tiles_text: "tiles src lang a toks b \<Longrightarrow> \<forall>tok \<in> set toks. \<exists>t. token_text src tok = Inr t"
  by (induction toks arbitrary: a) auto

lemma at_split: "xs = us @ y # vs \<Longrightarrow> length us = j \<Longrightarrow> xs ! j = y \<and> drop (j + 1) xs = vs"
  by auto

lemma tiles_order:
  "tiles src lang a (xs @ l # ys @ n # zs) b \<Longrightarrow> span_start (tk_span l) \<le> span_end (tk_span n)"
proof (induction xs arbitrary: a)
  case Nil
  have mono: "tiles src lang c (us @ n # zs) b \<Longrightarrow> c \<le> span_end (tk_span n)" for c us
    by (induction us arbitrary: c) (auto intro: less_imp_le less_le_trans dest: order.strict_trans2)
  from Nil mono [of "span_end (tk_span l)" ys] show ?case by auto
qed auto

lemma directive_span_Some:
  assumes "tiles src lang a (xs @ l # ys @ n # zs) b"
  shows "directive_span src l n = Some \<lparr>span_source_id = sf_id src, span_start = span_start (tk_span l),
    span_end = span_end (tk_span n)\<rparr>"
proof -
  have "\<exists>t. token_text src l = Inr t" "\<exists>t. token_text src n = Inr t" using tiles_text [OF assms] by auto
  then have b: "is_char_boundary (sf_text src) (span_start (tk_span l))"
    "is_char_boundary (sf_text src) (span_end (tk_span n))"
    by (auto simp: token_text_def source_slice_Inr_iff validate_span_Inr_iff)
  have "source_span src (span_start (tk_span l)) (span_end (tk_span n))
      = Inr \<lparr>span_source_id = sf_id src, span_start = span_start (tk_span l), span_end = span_end (tk_span n)\<rparr>"
    using tiles_order [OF assms] b by (simp add: source_span_Inr_iff)
  then show ?thesis by (simp add: directive_span_def del: source_span_Inr_iff)
qed

lemma is_language_word_Some:
  "\<exists>t. token_text src tok = Inr t \<Longrightarrow> is_language_word src tok = Some (language_word src tok)"
  by (auto simp: is_language_word_def language_word_def expect_token_text_def)

definition directive_for :: "source_file \<Rightarrow> token \<Rightarrow> token \<Rightarrow> language_directive" where
  "directive_for src l n =
     \<lparr>ld_major = MajorV2, ld_span = \<lparr>span_source_id = sf_id src, span_start = span_start (tk_span l),
        span_end = span_end (tk_span n)\<rparr>\<rparr>"

lemma finish_directive_result:
  assumes "\<forall>tok \<in> set post. \<exists>t. token_text src tok = Inr t"
  shows "\<exists>r. finish_directive src post sp = Some r \<and>
    (r = DetectedComplete \<lparr>ld_major = MajorV2, ld_span = sp\<rparr> \<longleftrightarrow> \<not> repeats src False post) \<and>
    (\<forall>d. r = DetectedComplete d \<longrightarrow> d = \<lparr>ld_major = MajorV2, ld_span = sp\<rparr>)"
proof -
  from duplicate_scan_result [OF assms, of False] obtain r where
    "duplicate_directive src post = Some r" "r = None \<longleftrightarrow> \<not> repeats src False post"
    by (auto simp: duplicate_directive_def)
  then show ?thesis by (cases r) (simp_all add: finish_directive_def)
qed

lemma after_major_result:
  assumes tiles: "tiles src lang a (xs @ l # ys @ n # post) b"
    and sp: "directive_span src l n = Some sp"
  shows "\<exists>r. after_major src l post sp = Some r \<and>
    ((\<exists>d. r = DetectedComplete d) \<longleftrightarrow>
      (case dropWhile is_blank_token post of [] \<Rightarrow> True | tok # _ \<Rightarrow> is_directive_terminator tok) \<and>
      \<not> repeats src False post) \<and>
    (\<forall>d. r = DetectedComplete d \<longrightarrow> d = \<lparr>ld_major = MajorV2, ld_span = sp\<rparr>)"
proof -
  have texts: "\<forall>tok \<in> set post. \<exists>t. token_text src tok = Inr t" using tiles_text [OF tiles] by simp
  from finish_directive_result [OF texts, of sp] obtain r where r: "finish_directive src post sp = Some r"
    "(\<exists>d. r = DetectedComplete d) \<longleftrightarrow> \<not> repeats src False post"
    "\<forall>d. r = DetectedComplete d \<longrightarrow> d = \<lparr>ld_major = MajorV2, ld_span = sp\<rparr>" by blast
  have find: "find (\<lambda>tok. tk_kind tok \<noteq> TkWhitespace) post
      = (case dropWhile is_blank_token post of [] \<Rightarrow> None | tok # _ \<Rightarrow> Some tok)"
    by (simp add: find_dropWhile is_blank_token_def [abs_def])
  show ?thesis
  proof (cases "dropWhile is_blank_token post")
    case Nil
    have "find (\<lambda>tok. tk_kind tok \<noteq> TkWhitespace) post = None" by (simp only: find Nil list.case)
    with r show ?thesis by (simp only: after_major_def Nil list.case option.case simp_thms) blast
  next
    case (Cons tok us)
    show ?thesis
    proof (cases "is_directive_terminator tok")
      case True
      with find r Cons show ?thesis by (simp add: after_major_def)
    next
      case False
      have "post = takeWhile is_blank_token post @ tok # us" using Cons by (metis takeWhile_dropWhile_id)
      then have "tiles src lang a (xs @ l # (ys @ n # takeWhile is_blank_token post) @ tok # us) b"
        using tiles by simp
      from directive_span_Some [OF this] False find Cons show ?thesis by (simp add: after_major_def)
    qed
  qed
qed

lemma check_major_result:
  assumes tiles: "tiles src lang a (xs @ l # ys @ n # post) b"
  shows "\<exists>r. check_major src l n post = Some r \<and>
    ((\<exists>d. r = DetectedComplete d) \<longleftrightarrow>
      tk_kind n = TkNumber NumInteger \<and> token_text src n = Inr ''2'' \<and>
      (case dropWhile is_blank_token post of [] \<Rightarrow> True | tok # _ \<Rightarrow> is_directive_terminator tok) \<and>
      \<not> repeats src False post) \<and>
    (\<forall>d. r = DetectedComplete d \<longrightarrow> d = directive_for src l n)"
proof -
  obtain t where t: "token_text src n = Inr t" using tiles_text [OF tiles] by auto
  note sp = directive_span_Some [OF tiles]
  show ?thesis
  proof (cases "tk_kind n \<noteq> TkNumber NumInteger \<or> t \<noteq> ''2''")
    case True
    then have "\<exists>r. check_major src l n post = Some r \<and> (\<forall>d. r \<noteq> DetectedComplete d)"
      using t sp by (auto simp: check_major_def expect_token_text_def)
    with True t show ?thesis by auto
  next
    case False
    then have "check_major src l n post = after_major src l post \<lparr>span_source_id = sf_id src,
        span_start = span_start (tk_span l), span_end = span_end (tk_span n)\<rparr>"
      using t sp by (simp add: check_major_def expect_token_text_def)
    with after_major_result [OF tiles sp] t False show ?thesis by (simp add: directive_for_def)
  qed
qed

lemma next_inline_token_result:
  "next_inline_token (pre @ l # rest') (length pre + 1) =
    (case dropWhile is_blank_token rest' of
       [] \<Rightarrow> None
     | tok # _ \<Rightarrow>
         if is_directive_terminator tok then None
         else Some (length pre + 1 + length (takeWhile is_blank_token rest')))"
proof (cases "dropWhile is_blank_token rest'")
  case Nil
  then have "position (\<lambda>tok. tk_kind tok \<noteq> TkWhitespace) rest' = None"
    by (auto simp: position_eq_None_iff is_blank_token_def)
  with Nil show ?thesis by (simp only: next_inline_token_def Nil list.case) simp
next
  case (Cons tok us)
  let ?ws = "takeWhile is_blank_token rest'"
  have r: "rest' = ?ws @ tok # us" using Cons by (metis takeWhile_dropWhile_id)
  have "\<not> is_blank_token tok" using Cons by (metis hd_dropWhile list.distinct(1) list.sel(1))
  then have "position (\<lambda>tok. tk_kind tok \<noteq> TkWhitespace) (?ws @ tok # us) = Some (length ?ws)"
    by (intro position_append) (auto simp: list_all_iff is_blank_token_def dest: set_takeWhileD)
  then have "position (\<lambda>tok. tk_kind tok \<noteq> TkWhitespace) rest' = Some (length ?ws)" using r by simp
  moreover have "(pre @ l # rest') ! (length pre + 1 + length ?ws) = tok"
    by (subst r) (simp add: nth_append)
  ultimately show ?thesis
    by (simp only: next_inline_token_def Cons list.case) (simp add: add.commute add.left_commute)
qed

lemma directive_not_trivia: "language_word src l \<Longrightarrow> \<not> is_leading_trivia l"
  by (auto simp: language_word_def is_leading_trivia_def)

lemma missing_directive_Some: "\<exists>d. missing_directive src sp = Some d"
proof -
  have "source_span src 0 0 = Inr \<lparr>span_source_id = sf_id src, span_start = 0, span_end = 0\<rparr>"
    by (simp add: source_span_Inr_iff)
  then show ?thesis by (cases sp) (simp_all add: missing_directive_def)
qed

lemma detect_tokens_result:
  assumes tiles: "tiles src lang 0 toks b"
  shows "\<exists>r. detect_source_language_tokens src toks = Some r \<and>
    ((\<exists>d. r = DetectedComplete d) \<longleftrightarrow> (\<exists>l n. directive_at src toks l n)) \<and>
    (\<forall>d. r = DetectedComplete d \<longrightarrow> (\<exists>l n. directive_at src toks l n \<and> d = directive_for src l n))"
proof (cases "position (\<lambda>tok. \<not> is_leading_trivia tok) toks")
  case None
  then have "list_all is_leading_trivia toks" by (auto simp: position_eq_None_iff list_all_iff)
  then have "\<not> directive_at src toks l n" for l n
    using directive_not_trivia by (auto simp: directive_at_def)
  with None show ?thesis
    using missing_directive_Some [of src None] by (auto simp: detect_source_language_tokens_def)
next
  case (Some i)
  let ?pre = "take i toks" and ?l = "toks ! i" and ?rest = "drop (Suc i) toks"
  from position_split [OF Some] have split: "toks = ?pre @ ?l # ?rest" "list_all is_leading_trivia ?pre"
    "\<not> is_leading_trivia ?l" by simp_all
  have i: "i = length ?pre" using Some by (auto simp: position_eq_Some_iff)
  have only: "l = ?l \<and> ws @ n # post = ?rest"
    if "toks = pre @ l # ws @ n # post" "list_all is_leading_trivia pre" "language_word src l" for pre l ws n post
  proof -
    have "position (\<lambda>tok. \<not> is_leading_trivia tok) (pre @ l # ws @ n # post) = Some (length pre)"
      using that directive_not_trivia by (intro position_append) simp_all
    with Some that(1) have "length pre = i" by simp
    with that(1) show ?thesis by (auto simp: nth_append)
  qed
  have "?l \<in> set toks" using split(1) by (metis in_set_conv_decomp)
  then have word: "is_language_word src ?l = Some (language_word src ?l)"
    using tiles_text [OF tiles] is_language_word_Some by blast
  show ?thesis
  proof (cases "language_word src ?l")
    case False
    with only have "\<not> directive_at src toks l n" for l n by (auto simp: directive_at_def)
    with False Some word show ?thesis
      using missing_directive_Some [of src "Some (tk_span ?l)"]
      by (auto simp: detect_source_language_tokens_def)
  next
    case True
    let ?ws = "takeWhile is_blank_token ?rest"
    have detect: "detect_source_language_tokens src toks =
        (case next_inline_token (?pre @ ?l # ?rest) (length ?pre + 1) of
           None \<Rightarrow> Some (DetectedInvalid [malformed_directive (tk_span ?l)])
         | Some j \<Rightarrow> check_major src ?l (toks ! j) (drop (j + 1) toks))"
      using Some True word split(1) i by (simp add: detect_source_language_tokens_def)
    have no: "\<not> directive_at src toks l n" if "case dropWhile is_blank_token ?rest of [] \<Rightarrow> True
        | tok # _ \<Rightarrow> tk_kind tok \<noteq> TkNumber NumInteger" for l n
    proof
      assume "directive_at src toks l n"
      then obtain pre ws post where d: "toks = pre @ l # ws @ n # post" "list_all is_leading_trivia pre"
        "language_word src l" "list_all is_blank_token ws" "tk_kind n = TkNumber NumInteger"
        by (auto simp: directive_at_def)
      have "dropWhile is_blank_token (ws @ n # post) = n # post"
        using d(4,5) by (induction ws) (auto simp: is_blank_token_def)
      with only [OF d(1-3)] d(5) that show False by simp
    qed
    show ?thesis
    proof (cases "dropWhile is_blank_token ?rest")
      case Nil
      with no have "\<not> directive_at src toks l n" for l n by (simp only: Nil list.case simp_thms)
      moreover have "detect_source_language_tokens src toks = Some (DetectedInvalid [malformed_directive (tk_span ?l)])"
        unfolding detect next_inline_token_result Nil by simp
      ultimately show ?thesis by simp
    next
      case (Cons n post)
      have r: "?rest = ?ws @ n # post" using Cons by (metis takeWhile_dropWhile_id)
      show ?thesis
      proof (cases "is_directive_terminator n")
        case True
        then have "tk_kind n \<noteq> TkNumber NumInteger" by (auto simp: is_directive_terminator_def)
        with no have "\<not> directive_at src toks l n" for l n by (simp only: Cons list.case simp_thms)
        moreover have "detect_source_language_tokens src toks = Some (DetectedInvalid [malformed_directive (tk_span ?l)])"
          unfolding detect next_inline_token_result Cons using True by simp
        ultimately show ?thesis by simp
      next
        case False
        let ?j = "length ?pre + 1 + length ?ws"
        have whole: "toks = ?pre @ ?l # ?ws @ n # post" using split(1) r by simp
        have len: "length (?pre @ ?l # ?ws) = ?j" by simp
        have "toks = (?pre @ ?l # ?ws) @ n # post" using whole by simp
        note at_split [OF this len]
        then have check: "detect_source_language_tokens src toks = check_major src ?l n post"
          unfolding detect next_inline_token_result Cons using False by simp
        from tiles whole have "tiles src lang 0 (?pre @ ?l # ?ws @ n # post) b" by simp
        from check_major_result [OF this] obtain r where res: "check_major src ?l n post = Some r"
          "(\<exists>d. r = DetectedComplete d) \<longleftrightarrow>
            tk_kind n = TkNumber NumInteger \<and> token_text src n = Inr ''2'' \<and>
            (case dropWhile is_blank_token post of [] \<Rightarrow> True | tok # _ \<Rightarrow> is_directive_terminator tok) \<and>
            \<not> repeats src False post"
          "\<forall>d. r = DetectedComplete d \<longrightarrow> d = directive_for src ?l n" by blast
        have ws: "list_all is_blank_token ?ws" by (rule list_all_takeWhile)
        have fwd: "directive_at src toks ?l n" if "\<exists>d. r = DetectedComplete d"
          using res(2) that whole split(2) True ws unfolding directive_at_def by blast
        have bwd: "\<exists>d. r = DetectedComplete d" if "directive_at src toks l' n'" for l' n'
        proof -
          from that obtain pre ws post' where d: "toks = pre @ l' # ws @ n' # post'"
            "list_all is_leading_trivia pre" "language_word src l'" "list_all is_blank_token ws"
            "tk_kind n' = TkNumber NumInteger" "token_text src n' = Inr ''2''"
            "case dropWhile is_blank_token post' of [] \<Rightarrow> True | tok # _ \<Rightarrow> is_directive_terminator tok"
            "\<not> repeats src False post'" by (auto simp: directive_at_def)
          have "dropWhile is_blank_token (ws @ n' # post') = n' # post'"
            using d(4,5) by (induction ws) (auto simp: is_blank_token_def)
          with only [OF d(1-3)] Cons have "n' = n" "post' = post" by simp_all
          with res(2) d(5-8) show ?thesis by simp
        qed
        have "(\<exists>d. r = DetectedComplete d) \<longleftrightarrow> (\<exists>l n. directive_at src toks l n)"
        proof
          assume "\<exists>d. r = DetectedComplete d"
          from fwd [OF this] show "\<exists>l n. directive_at src toks l n" by blast
        next
          assume "\<exists>l n. directive_at src toks l n"
          then obtain l' n' where "directive_at src toks l' n'" by blast
          from bwd [OF this] show "\<exists>d. r = DetectedComplete d" .
        qed
        moreover have "\<exists>l n. directive_at src toks l n \<and> d = directive_for src l n"
          if "r = DetectedComplete d" for d
        proof -
          from that have "\<exists>d. r = DetectedComplete d" by blast
          from fwd [OF this] res(3) that show ?thesis by blast
        qed
        ultimately show ?thesis using check res(1) by auto
      qed
    qed
  qed
qed

text \<open>C22: language detection. On a valid text detection never panics, and it accepts exactly the sources
  whose tokens carry the directive: leading trivia, the word \<open>language\<close>, blanks, the integer \<open>2\<close>, the
  end of the statement, and no later statement that starts with \<open>language\<close>. The result is version 2
  with the span from the word to the major.\<close>

theorem detect_source_language_iff:
  assumes "utf8_valid (sf_text src)"
  shows "\<exists>toks r. lex src = Some toks \<and> detect_source_language src = Some r \<and>
    ((\<exists>d. r = DetectedComplete d) \<longleftrightarrow> (\<exists>l n. directive_at src toks l n)) \<and>
    (\<forall>d. r = DetectedComplete d \<longrightarrow> (\<exists>l n. directive_at src toks l n \<and> d = directive_for src l n))"
proof -
  from lex_tiles [OF assms] obtain toks where lex: "lex src = Some toks"
    and tiles: "tiles src LexV1 0 toks (source_len src)" .
  have "\<exists>r. detect_source_language_tokens src toks = Some r \<and>
    ((\<exists>d. r = DetectedComplete d) \<longleftrightarrow> (\<exists>l n. directive_at src toks l n)) \<and>
    (\<forall>d. r = DetectedComplete d \<longrightarrow> (\<exists>l n. directive_at src toks l n \<and> d = directive_for src l n))"
    by (rule detect_tokens_result [OF tiles])
  then show ?thesis using lex by (auto simp: detect_source_language_def)
qed

definition language_sample :: source_file where
  "language_sample = source_file_new (SourceId 2) ''m.fl'' (''# head'' @ [NL] @ ''language  2; let x = 1'')"

lemma detect_source_language_iff_witness:
  "\<exists>toks r. lex language_sample = Some toks \<and> detect_source_language language_sample = Some r \<and>
    ((\<exists>d. r = DetectedComplete d) \<longleftrightarrow> (\<exists>l n. directive_at language_sample toks l n)) \<and>
    (\<forall>d. r = DetectedComplete d \<longrightarrow>
      (\<exists>l n. directive_at language_sample toks l n \<and> d = directive_for language_sample l n))"
  by (rule detect_source_language_iff) code_simp

lemma language_sample_accepted:
  "detect_source_language language_sample = Some (DetectedComplete \<lparr>ld_major = MajorV2,
     ld_span = \<lparr>span_source_id = SourceId 2, span_start = 7, span_end = 18\<rparr>\<rparr>)"
  by code_simp

end
