(* ===== verification/Formatter.thy ===== *)
theory Formatter
  imports Lexer_Proofs
begin

text \<open>
  \<open>crates/flash-syntax/src/formatter.rs\<close>: the formatter's pass over the lossless tokens
  (\<open>format_tokens\<close>). A token whose text is not in the source is the panic of the \<open>expect\<close>. The lemmas
  show that the pass keeps the spelling of every token but blanks and line ends, and that the
  indentation is the number of open block braces, so that the saturating subtraction never saturates.
\<close>

datatype open_delimiter = IndentingBrace | ExpansionBrace | OpenParenthesis | OpenBracket

record formatter =
  fm_output :: string
  fm_open :: "open_delimiter list"
  fm_indent :: nat
  fm_at_line_start :: bool
  fm_pending_space :: bool

definition formatter_new :: formatter where
  "formatter_new = \<lparr>fm_output = [], fm_open = [], fm_indent = 0, fm_at_line_start = True,
     fm_pending_space = False\<rparr>"

definition indent_text :: "nat \<Rightarrow> string" where
  "indent_text n = concat (replicate n ''    '')"

definition write_prefix :: "formatter \<Rightarrow> formatter" where
  "write_prefix F =
     (if fm_at_line_start F then
        F\<lparr>fm_output := fm_output F @ indent_text (fm_indent F), fm_at_line_start := False,
          fm_pending_space := False\<rparr>
      else if fm_pending_space F then
        F\<lparr>fm_output := fm_output F @ '' '', fm_pending_space := False\<rparr>
      else F\<lparr>fm_pending_space := False\<rparr>)"

definition opening_delimiter :: "token_kind \<Rightarrow> open_delimiter option" where
  "opening_delimiter k =
     (if k = TkDelimiter DlLeftBrace then Some IndentingBrace
      else if k = TkBracedExpansionStart then Some ExpansionBrace
      else if k = TkDelimiter DlLeftParenthesis \<or> k = TkCommandSubstitutionStart then Some OpenParenthesis
      else if k = TkDelimiter DlLeftBracket then Some OpenBracket
      else None)"

text \<open>The stack is a \<open>Vec\<close> with its top last; \<open>open.pop()\<close> and the push back of what does not match.\<close>

definition pop_expected :: "open_delimiter \<Rightarrow> open_delimiter list \<Rightarrow> open_delimiter list" where
  "pop_expected expected open' =
     (if open' \<noteq> [] \<and> last open' = expected then butlast open' else open')"

definition closes_indenting_brace :: "token_kind \<Rightarrow> open_delimiter list \<Rightarrow> bool \<times> open_delimiter list" where
  "closes_indenting_brace k open' =
     (if k = TkDelimiter DlRightParenthesis then (False, pop_expected OpenParenthesis open')
      else if k = TkDelimiter DlRightBracket then (False, pop_expected OpenBracket open')
      else if k \<noteq> TkDelimiter DlRightBrace then (False, open')
      else if open' = [] then (False, open')
      else if last open' = IndentingBrace then (True, butlast open')
      else if last open' = ExpansionBrace then (False, butlast open')
      else (False, open'))"

definition format_token :: "source_file \<Rightarrow> token \<Rightarrow> formatter \<Rightarrow> formatter option" where
  "format_token src tok F =
     (case tk_kind tok of
        TkWhitespace \<Rightarrow>
          Some (if fm_at_line_start F then F else F\<lparr>fm_pending_space := True\<rparr>)
      | TkNewline \<Rightarrow>
          Some (F\<lparr>fm_output := fm_output F @ [NL], fm_at_line_start := True, fm_pending_space := False\<rparr>)
      | TkLineContinuation \<Rightarrow>
          (let G = write_prefix F in do {
             t \<leftarrow> expect_ok (token_text src tok);
             Some (G\<lparr>fm_output := fm_output G @ t, fm_at_line_start := True, fm_pending_space := False\<rparr>)
           })
      | k \<Rightarrow>
          (let (closes, open') = closes_indenting_brace k (fm_open F);
               G = write_prefix (F\<lparr>fm_open := open',
                     fm_indent := (if closes then fm_indent F - 1 else fm_indent F)\<rparr>)
           in do {
             t \<leftarrow> expect_ok (token_text src tok);
             (let H = G\<lparr>fm_output := fm_output G @ t\<rparr> in
              Some (case opening_delimiter k of
                      None \<Rightarrow> H
                    | Some d \<Rightarrow>
                        H\<lparr>fm_open := fm_open H @ [d],
                          fm_indent := (if d = IndentingBrace then fm_indent H + 1 else fm_indent H)\<rparr>))
           }))"

fun format_all :: "source_file \<Rightarrow> token list \<Rightarrow> formatter \<Rightarrow> formatter option" where
  "format_all src [] F = Some F"
| "format_all src (tok # toks) F = Option.bind (format_token src tok F) (format_all src toks)"

definition format_tokens :: "source_file \<Rightarrow> token list \<Rightarrow> string option" where
  "format_tokens src tokens = do {
     F \<leftarrow> format_all src tokens formatter_new;
     Some (if fm_output F \<noteq> [] \<and> \<not> ends_with (fm_output F) [NL] then fm_output F @ [NL] else fm_output F)
   }"

section \<open>What the pass keeps\<close>

text \<open>The part of a token that reaches the output, after a gap of spaces.\<close>

definition kept_text :: "source_file \<Rightarrow> token \<Rightarrow> string" where
  "kept_text src tok =
     (case tk_kind tok of
        TkWhitespace \<Rightarrow> []
      | TkNewline \<Rightarrow> [NL]
      | _ \<Rightarrow> projr (token_text src tok))"

definition only_spaces :: "string \<Rightarrow> bool" where
  "only_spaces g \<longleftrightarrow> set g \<subseteq> {CHR '' ''}"

fun laid_out :: "source_file \<Rightarrow> token list \<Rightarrow> string \<Rightarrow> bool" where
  "laid_out src [] out \<longleftrightarrow> out = [] \<or> out = [NL]"
| "laid_out src (tok # toks) out \<longleftrightarrow>
     (\<exists>gap rest'. only_spaces gap \<and> out = gap @ kept_text src tok @ rest' \<and> laid_out src toks rest')"

definition formatter_ok :: "formatter \<Rightarrow> bool" where
  "formatter_ok F \<longleftrightarrow> fm_indent F = count_list (fm_open F) IndentingBrace"

lemma only_spaces_simps [simp]: "only_spaces []" "only_spaces '' ''" "only_spaces (indent_text n)"
  by (auto simp: only_spaces_def indent_text_def)

lemma write_prefix_output:
  "\<exists>gap. only_spaces gap \<and> fm_output (write_prefix F) = fm_output F @ gap"
  by (simp add: write_prefix_def)

lemma write_prefix_sel [simp]:
  "fm_open (write_prefix F) = fm_open F" "fm_indent (write_prefix F) = fm_indent F"
  by (simp_all add: write_prefix_def)

lemma count_butlast: "xs \<noteq> [] \<Longrightarrow> count_list xs x = count_list (butlast xs) x + (if last xs = x then 1 else 0)"
  by (cases xs rule: rev_cases) simp_all

lemma closes_indenting_brace_count:
  assumes "closes_indenting_brace k open' = (c, opened)"
  shows "count_list open' IndentingBrace = count_list opened IndentingBrace + (if c then 1 else 0)"
  using assms count_butlast [of open' IndentingBrace]
  by (auto simp: closes_indenting_brace_def pop_expected_def split: if_splits)

lemma format_token_step:
  assumes ok: "formatter_ok F" and t: "\<exists>t. token_text src tok = Inr t"
  shows "\<exists>G gap. format_token src tok F = Some G \<and> formatter_ok G \<and> only_spaces gap \<and>
    fm_output G = fm_output F @ gap @ kept_text src tok"
proof -
  obtain t where t: "token_text src tok = Inr t" using assms(2) by blast
  consider (blank) "tk_kind tok = TkWhitespace" | (newline) "tk_kind tok = TkNewline"
    | (continued) "tk_kind tok = TkLineContinuation"
    | (other) "tk_kind tok \<notin> {TkWhitespace, TkNewline, TkLineContinuation}" by blast
  then show ?thesis
  proof cases
    case blank
    with ok show ?thesis
      by (auto simp: format_token_def formatter_ok_def kept_text_def intro!: exI [of _ "[]"])
  next
    case newline
    with ok show ?thesis
      by (auto simp: format_token_def formatter_ok_def kept_text_def intro!: exI [of _ "[]"])
  next
    case continued
    from write_prefix_output [of F] obtain gap where "only_spaces gap"
      "fm_output (write_prefix F) = fm_output F @ gap" by blast
    with continued ok t show ?thesis
      by (auto simp: format_token_def formatter_ok_def kept_text_def Let_def intro!: exI [of _ gap])
  next
    case other
    obtain c opened where c: "closes_indenting_brace (tk_kind tok) (fm_open F) = (c, opened)"
      by (cases "closes_indenting_brace (tk_kind tok) (fm_open F)")
    let ?F = "F\<lparr>fm_open := opened, fm_indent := (if c then fm_indent F - 1 else fm_indent F)\<rparr>"
    from write_prefix_output [of ?F] obtain gap where gap: "only_spaces gap"
      "fm_output (write_prefix ?F) = fm_output F @ gap" by auto
    let ?H = "(write_prefix ?F)\<lparr>fm_output := fm_output (write_prefix ?F) @ t\<rparr>"
    let ?G = "case opening_delimiter (tk_kind tok) of
        None \<Rightarrow> ?H
      | Some d \<Rightarrow> ?H\<lparr>fm_open := fm_open ?H @ [d],
          fm_indent := (if d = IndentingBrace then fm_indent ?H + 1 else fm_indent ?H)\<rparr>"
    have "format_token src tok F = Some ?G"
      using other c t by (cases "tk_kind tok") (simp_all add: format_token_def Let_def)
    moreover have "formatter_ok ?G"
      using ok closes_indenting_brace_count [OF c] by (auto simp: formatter_ok_def split: option.split)
    moreover have "fm_output ?G = fm_output F @ gap @ kept_text src tok"
      using gap(2) other t by (auto simp: kept_text_def split: option.split token_kind.split)
    ultimately show ?thesis using gap(1) by blast
  qed
qed

lemma format_all_steps:
  assumes "formatter_ok F" and "\<forall>tok \<in> set toks. \<exists>t. token_text src tok = Inr t"
  shows "\<exists>G out. format_all src toks F = Some G \<and> formatter_ok G \<and> fm_output G = fm_output F @ out \<and>
    (\<forall>e. e = [] \<or> e = [NL] \<longrightarrow> laid_out src toks (out @ e))"
  using assms
proof (induction toks arbitrary: F)
  case (Cons tok toks)
  then obtain G gap where G: "format_token src tok F = Some G" "formatter_ok G" "only_spaces gap"
    "fm_output G = fm_output F @ gap @ kept_text src tok"
    using format_token_step [of F src tok] by auto
  from Cons.prems have "\<forall>tok \<in> set toks. \<exists>t. token_text src tok = Inr t" by simp
  from Cons.IH [OF G(2) this] obtain H out where H: "format_all src toks G = Some H" "formatter_ok H"
    "fm_output H = fm_output G @ out" "\<forall>e. e = [] \<or> e = [NL] \<longrightarrow> laid_out src toks (out @ e)" by blast
  have "laid_out src (tok # toks) ((gap @ kept_text src tok @ out) @ e)" if "e = [] \<or> e = [NL]" for e
    unfolding laid_out.simps
    by (rule exI [of _ gap], rule exI [of _ "out @ e"]) (use H(4) [rule_format, OF that] G(3) in simp)
  with G H show ?case by (intro exI [of _ H] exI [of _ "gap @ kept_text src tok @ out"]) simp
qed simp

text \<open>C25: formatting keeps the spelling. On tokens that belong to the source the pass never panics; its
  output is the tokens in order, each exactly as spelled but for blanks (dropped) and line ends
  (one newline), with nothing but spaces before each and at most one newline at the end; and a
  nonempty output ends in a newline.\<close>

theorem format_keeps_spelling:
  assumes "\<forall>tok \<in> set toks. \<exists>t. token_text src tok = Inr t"
  shows "\<exists>out. format_tokens src toks = Some out \<and> laid_out src toks out \<and>
    (out = [] \<or> ends_with out [NL])"
proof -
  have "formatter_ok formatter_new" by (simp add: formatter_ok_def formatter_new_def)
  from format_all_steps [OF this assms] obtain G out where G: "format_all src toks formatter_new = Some G"
    "fm_output G = out" "\<forall>e. e = [] \<or> e = [NL] \<longrightarrow> laid_out src toks (out @ e)"
    by (auto simp: formatter_new_def)
  have "laid_out src toks (out @ [])" "laid_out src toks (out @ [NL])" using G(3) by blast+
  with G(1,2) show ?thesis by (auto simp: format_tokens_def ends_with_iff)
qed

lemma format_token_ok:
  assumes "formatter_ok F" and "format_token src tok F = Some G"
  shows "formatter_ok G"
proof (cases "\<exists>t. token_text src tok = Inr t")
  case True
  from format_token_step [OF assms(1) this] assms(2) show ?thesis by auto
next
  case False
  then obtain e where "token_text src tok = Inl e" by (cases "token_text src tok") auto
  with assms show ?thesis
    by (auto simp: format_token_def formatter_ok_def Let_def split: token_kind.splits prod.splits if_splits)
qed

text \<open>C26: the indentation is the block depth. At every point of a run the indentation is the number of
  block braces among the open delimiters, whatever the tokens are; the saturating subtraction of the
  code never saturates.\<close>

theorem format_indentation:
  "format_all src toks formatter_new = Some F \<Longrightarrow>
     fm_indent F = count_list (fm_open F) IndentingBrace"
proof -
  have "format_all src toks F' = Some F \<Longrightarrow> formatter_ok F' \<Longrightarrow> formatter_ok F" for F'
    by (induction toks arbitrary: F') (auto simp: Option.bind_eq_Some_conv intro: format_token_ok)
  moreover have "formatter_ok formatter_new" by (simp add: formatter_ok_def formatter_new_def)
  moreover assume "format_all src toks formatter_new = Some F"
  ultimately show ?thesis by (simp add: formatter_ok_def)
qed

definition format_sample :: source_file where
  "format_sample = source_file_new (SourceId 0) ''f.fl'' (''def f() {'' @ [NL] @ ''  echo   a'' @ [NL, TAB] @ ''}'')"

lemma format_sample_text:
  "list_all (\<lambda>tok. \<not> isl (token_text format_sample tok)) (the (lex format_sample))"
  by code_simp

lemma format_keeps_spelling_witness:
  "\<exists>out. format_tokens format_sample (the (lex format_sample)) = Some out \<and>
    laid_out format_sample (the (lex format_sample)) out \<and> (out = [] \<or> ends_with out [NL])"
proof (rule format_keeps_spelling, rule ballI)
  fix tok assume "tok \<in> set (the (lex format_sample))"
  with format_sample_text have "\<not> isl (token_text format_sample tok)" by (simp add: list_all_iff)
  then show "\<exists>t. token_text format_sample tok = Inr t"
    by (cases "token_text format_sample tok") simp_all
qed

lemma format_sample_output:
  "format_tokens format_sample (the (lex format_sample)) =
     Some (''def f() {'' @ [NL] @ ''    echo a'' @ [NL] @ ''}'' @ [NL])"
  by code_simp

lemma format_indentation_witness:
  "fm_indent (the (format_all format_sample (take 9 (the (lex format_sample))) formatter_new)) =
     count_list (fm_open (the (format_all format_sample (take 9 (the (lex format_sample))) formatter_new)))
       IndentingBrace"
proof (rule format_indentation [where src = format_sample and toks = "take 9 (the (lex format_sample))"])
  have "format_all format_sample (take 9 (the (lex format_sample))) formatter_new \<noteq> None" by code_simp
  then show "format_all format_sample (take 9 (the (lex format_sample))) formatter_new =
      Some (the (format_all format_sample (take 9 (the (lex format_sample))) formatter_new))"
    by simp
qed

end
