(* ===== verification/Completion_Target.thy ===== *)
theory Completion_Target
  imports Lexer_Proofs
begin

text \<open>
  \<open>crates/flash-syntax/src/completion.rs\<close>: the target of a completion, from the lossless tokens and a
  byte cursor. A result has type \<open>(unit + 'a) option\<close>: \<open>None\<close> is a panic (a slice of the source off its
  boundaries), \<open>Some (Inl ())\<close> the code's \<open>None\<close>. The theorems show that no cursor makes the
  classification panic, and that the replaced range always encloses the cursor.
\<close>

section \<open>Targets\<close>

datatype path_completion_style = StyleBare | StyleSingleQuoted | StyleDoubleQuoted | StyleDoubleQuotedFragment

datatype completion_context =
    CcCommand bool \<comment> \<open>forced external\<close>
  | CcCommandSubstitutionModifier
  | CcExpression
  | CcVariable bool \<comment> \<open>braced\<close>
  | CcFlag string
  | CcPath path_completion_style bool bool \<comment> \<open>style, glob pattern, interpolated\<close>
  | CcNone

record completion_target =
  ct_context :: completion_context
  ct_start :: nat
  ct_end :: nat
  ct_prefix :: string

record active_word =
  aw_start :: nat
  aw_end :: nat
  aw_text :: string
  aw_style :: path_completion_style
  aw_interpolated :: bool

section \<open>Decoding the prefix\<close>

fun decode_bare_chars :: "scalar list \<Rightarrow> scalar list option" where
  "decode_bare_chars [] = Some []"
| "decode_bare_chars (c # cs) =
     (if c = ch BSLASH then
        (case cs of [] \<Rightarrow> None | d # ds \<Rightarrow> map_option ((#) d) (decode_bare_chars ds))
      else map_option ((#) c) (decode_bare_chars cs))"

definition decode_bare :: "string \<Rightarrow> string option" where
  "decode_bare raw = map_option string_of_scalars (decode_bare_chars (chars raw))"

text \<open>The braces of a Unicode escape, after \<open>\u\<close>: the scalar value and what follows.\<close>

definition decode_unicode :: "scalar list \<Rightarrow> (scalar \<times> scalar list) option" where
  "decode_unicode cs =
     (case cs of
        [] \<Rightarrow> None
      | b # body \<Rightarrow>
          if b \<noteq> ch (CHR ''{'') then None
          else
            (case dropWhile (\<lambda>c. c \<noteq> ch (CHR ''}'')) body of
               [] \<Rightarrow> None
             | _ # rest' \<Rightarrow>
                 (case u32_from_hex (string_of_scalars (takeWhile (\<lambda>c. c \<noteq> ch (CHR ''}'')) body)) of
                    None \<Rightarrow> None
                  | Some v \<Rightarrow> if is_scalar v then Some (v, rest') else None)))"

lemma decode_unicode_length: "decode_unicode cs = Some (v, rest') \<Longrightarrow> length rest' < length cs"
proof -
  assume d: "decode_unicode cs = Some (v, rest')"
  then obtain b body x where "cs = b # body" "dropWhile (\<lambda>c. c \<noteq> ch (CHR ''}'')) body = x # rest'"
    by (auto simp: decode_unicode_def split: list.splits if_splits option.splits)
  moreover from this have "length (x # rest') \<le> length body" by (metis length_dropWhile_le)
  ultimately show ?thesis by simp
qed

text \<open>The escapes of one character; a NUL escape and every unknown escape reject the prefix.\<close>

definition simple_escape :: "scalar \<Rightarrow> scalar option" where
  "simple_escape c =
     (if c = ch BSLASH then Some (ch BSLASH)
      else if c = ch DQUOTE then Some (ch DQUOTE)
      else if c = ch (CHR ''$'') then Some (ch (CHR ''$''))
      else if c = ch (CHR ''n'') then Some (ch NL)
      else if c = ch (CHR ''r'') then Some (ch CR)
      else if c = ch (CHR ''t'') then Some (ch TAB)
      else None)"

function decode_double_chars :: "scalar list \<Rightarrow> scalar list option" where
  "decode_double_chars [] = Some []"
| "decode_double_chars (c # cs) =
     (if c \<noteq> ch BSLASH then
        (if c = ch (CHR ''$'') then None else map_option ((#) c) (decode_double_chars cs))
      else
        (case cs of
           [] \<Rightarrow> None
         | e # es \<Rightarrow>
             if e = ch (CHR ''u'') then
               (case decode_unicode es of
                  None \<Rightarrow> None
                | Some (v, rest') \<Rightarrow> map_option ((#) v) (decode_double_chars rest'))
             else
               (case simple_escape e of
                  None \<Rightarrow> None
                | Some d \<Rightarrow> map_option ((#) d) (decode_double_chars es))))"
  by pat_completeness auto
termination
  by (relation "measure length") (auto dest: decode_unicode_length)

definition unwrap_or :: "'a option \<Rightarrow> 'a \<Rightarrow> 'a" where
  "unwrap_or x d = (case x of None \<Rightarrow> d | Some y \<Rightarrow> y)"

definition decode_double :: "string \<Rightarrow> bool \<Rightarrow> string option" where
  "decode_double raw closed =
     (let content = unwrap_or (strip_prefix [DQUOTE] raw) raw;
          content' = (if closed then unwrap_or (strip_suffix [DQUOTE] content) content else content)
      in map_option string_of_scalars (decode_double_chars (chars content')))"

definition decode_path_prefix :: "string \<Rightarrow> path_completion_style \<Rightarrow> bool \<Rightarrow> string option" where
  "decode_path_prefix raw style closed_double =
     (case style of
        StyleBare \<Rightarrow> decode_bare raw
      | StyleSingleQuoted \<Rightarrow>
          (let opened = unwrap_or (strip_prefix [SQUOTE] raw) raw
           in Some (unwrap_or (strip_suffix [SQUOTE] opened) opened))
      | StyleDoubleQuoted \<Rightarrow> decode_double raw closed_double
      | StyleDoubleQuotedFragment \<Rightarrow> decode_double raw closed_double)"

section \<open>Classes of tokens\<close>

definition is_word_component :: "token_kind \<Rightarrow> bool" where
  "is_word_component k =
     (case k of
        TkIdentifier \<Rightarrow> True | TkKeyword _ \<Rightarrow> True | TkNumber _ \<Rightarrow> True | TkWordText \<Rightarrow> True
      | TkBareEscape \<Rightarrow> True | TkSingleQuoted \<Rightarrow> True | TkDoubleQuoteStart \<Rightarrow> True
      | TkDoubleText \<Rightarrow> True | TkDoubleEscape \<Rightarrow> True | TkDoubleQuoteEnd \<Rightarrow> True | TkVariable \<Rightarrow> True
      | TkOperator p \<Rightarrow>
          p \<in> {OpAssign, OpEqual, OpNotEqual, OpPlus, OpMinus, OpStar, OpSlash, OpPercent, OpBang,
               OpRange, OpRangeInclusive, OpArrow, OpMatchArrow, OpDot, OpComma, OpColon}
      | _ \<Rightarrow> False)"

definition is_command_boundary :: "token_kind \<Rightarrow> bool" where
  "is_command_boundary k \<longleftrightarrow>
     k \<in> {TkNewline, TkCommandSubstitutionStart, TkOperator OpSemicolon, TkOperator OpPipe,
          TkOperator OpPipeBoth, TkOperator OpAnd, TkOperator OpOr, TkOperator OpBackground,
          TkDelimiter DlLeftBrace, TkDelimiter DlRightBrace}"

definition is_file_redirect :: "token_kind \<Rightarrow> bool" where
  "is_file_redirect k \<longleftrightarrow> k \<in> {TkOperator OpLess, TkOperator OpGreater, TkOperator OpAppend}"

definition tok_start :: "token \<Rightarrow> nat" where
  "tok_start tok = span_start (tk_span tok)"

definition tok_end :: "token \<Rightarrow> nat" where
  "tok_end tok = span_end (tk_span tok)"

definition significant_before :: "token list \<Rightarrow> nat \<Rightarrow> token list" where
  "significant_before tokens offset =
     filter (\<lambda>tok. tok_end tok \<le> offset \<and>
       tk_kind tok \<notin> {TkWhitespace, TkComment, TkDocumentationComment, TkLineContinuation}) tokens"

definition current_stage :: "token list \<Rightarrow> token list" where
  "current_stage tokens =
     (let start = (case rposition (\<lambda>tok. is_command_boundary (tk_kind tok)) tokens of
                     None \<Rightarrow> 0 | Some i \<Rightarrow> i + 1)
      in drop start tokens)"

definition strip_command_substitution_modifier :: "string \<Rightarrow> token list \<Rightarrow> token list" where
  "strip_command_substitution_modifier source stage =
     (case stage of
        identifier # colon # rest' \<Rightarrow>
          (let contextual =
             tk_kind identifier = TkIdentifier \<and> tk_kind colon = TkOperator OpColon \<and>
             is_adjacent_to identifier colon \<and>
             slice_str source (tok_start identifier) (tok_end identifier) \<in> {Some ''text'', Some ''bytes''}
           in if contextual then rest' else stage)
      | _ \<Rightarrow> stage)"

fun word_end_from :: "nat \<Rightarrow> token list \<Rightarrow> nat" where
  "word_end_from e [] = e"
| "word_end_from e (tok # toks) =
     (if tok_start tok \<noteq> e \<or> \<not> is_word_component (tk_kind tok) then e
      else word_end_from (tok_end tok) toks)"

definition first_word_end :: "token list \<Rightarrow> nat option" where
  "first_word_end tokens =
     (case tokens of
        [] \<Rightarrow> None
      | first # toks \<Rightarrow>
          if \<not> is_word_component (tk_kind first) then None
          else Some (word_end_from (tok_end first) toks))"

section \<open>The active word\<close>

text \<open>The two loops that extend the word over adjacent components.\<close>

fun first_component :: "token list \<Rightarrow> nat \<Rightarrow> nat" where
  "first_component tokens 0 = 0"
| "first_component tokens (Suc i) =
     (if tok_end (tokens ! i) = tok_start (tokens ! Suc i) \<and> is_word_component (tk_kind (tokens ! i))
      then first_component tokens i else Suc i)"

function last_component :: "token list \<Rightarrow> nat \<Rightarrow> nat" where
  "last_component tokens i =
     (if i + 1 < length tokens \<and> tok_end (tokens ! i) = tok_start (tokens ! (i + 1)) \<and>
         is_word_component (tk_kind (tokens ! (i + 1)))
      then last_component tokens (i + 1) else i)"
  by pat_completeness auto
termination
  by (relation "measure (\<lambda>(tokens, i). length tokens - i)") auto

declare last_component.simps [simp del]

definition is_double_part :: "token_kind \<Rightarrow> bool" where
  "is_double_part k \<longleftrightarrow> k \<in> {TkDoubleQuoteStart, TkDoubleText, TkDoubleEscape, TkDoubleQuoteEnd}"

definition word_style :: "token list \<Rightarrow> nat \<Rightarrow> nat \<Rightarrow> path_completion_style" where
  "word_style tokens first last' =
     (if tk_kind (tokens ! first) = TkSingleQuoted then StyleSingleQuoted
      else if list_ex (\<lambda>i. is_double_part (tk_kind (tokens ! i))) [first..<Suc last'] then StyleDoubleQuoted
      else StyleBare)"

definition active_word_in ::
  "string \<Rightarrow> token list \<Rightarrow> nat \<Rightarrow> nat \<Rightarrow> (unit + active_word) option" where
  "active_word_in source tokens cursor index =
     (let first0 = first_component tokens index;
          last' = last_component tokens index;
          (first, inter0) =
            (case find (\<lambda>i. tk_kind (tokens ! i) = TkVariable) (rev [first0..<index]) of
               Some v \<Rightarrow> (v + 1, True) | None \<Rightarrow> (first0, False));
          start = tok_start (tokens ! first);
          end' = tok_end (tokens ! last');
          interpolated =
            (inter0 \<or>
             (0 < first \<and> tok_end (tokens ! (first - 1)) = start \<and>
              tk_kind (tokens ! (first - 1)) \<in> {TkDelimiter DlRightBrace, TkDelimiter DlRightParenthesis}));
          style0 = word_style tokens first last'
      in do {
        raw_prefix \<leftarrow> slice_str source start cursor;
        let closed_double = (tk_kind (tokens ! last') = TkDoubleQuoteEnd \<and> tok_end (tokens ! last') \<le> cursor);
            style = (if interpolated \<and> style0 = StyleDoubleQuoted \<and> \<not> starts_with raw_prefix [DQUOTE]
                     then StyleDoubleQuotedFragment else style0)
        in Some (case decode_path_prefix raw_prefix style closed_double of
                   None \<Rightarrow> Inl ()
                 | Some t \<Rightarrow>
                     Inr \<lparr>aw_start = start, aw_end = end', aw_text = t, aw_style = style,
                          aw_interpolated = interpolated\<rparr>)
      })"

definition active_word_at :: "string \<Rightarrow> token list \<Rightarrow> nat \<Rightarrow> (unit + active_word) option" where
  "active_word_at source tokens cursor =
     (case position (\<lambda>tok. tok_start tok \<le> cursor \<and> cursor \<le> tok_end tok \<and> is_word_component (tk_kind tok))
             tokens of
        None \<Rightarrow>
          (let occupied = list_ex (\<lambda>tok. tok_start tok < cursor \<and> cursor < tok_end tok \<and>
                 tk_kind tok \<notin> {TkWhitespace, TkNewline}) tokens
           in Some (if occupied then Inl ()
                    else Inr \<lparr>aw_start = cursor, aw_end = cursor, aw_text = [], aw_style = StyleBare,
                              aw_interpolated = False\<rparr>))
      | Some index \<Rightarrow>
          if tk_kind (tokens ! index) = TkVariable then do {
            t \<leftarrow> slice_str source (tok_start (tokens ! index)) cursor;
            Some (Inr \<lparr>aw_start = tok_start (tokens ! index), aw_end = tok_end (tokens ! index),
                       aw_text = t, aw_style = StyleBare, aw_interpolated = False\<rparr>)
          }
          else active_word_in source tokens cursor index)"

section \<open>The context of the word\<close>

definition contains_glob_syntax :: "string \<Rightarrow> bool" where
  "contains_glob_syntax t =
     list_ex (\<lambda>c. c = ch (CHR ''*'') \<or> c = ch (CHR ''?'') \<or> c = ch (CHR ''['')) (chars t)"

definition is_path_spelling :: "active_word \<Rightarrow> bool" where
  "is_path_spelling w \<longleftrightarrow>
     aw_style w \<noteq> StyleBare \<or> CHR ''/'' \<in> set (aw_text w) \<or> starts_with (aw_text w) ''.'' \<or>
     starts_with (aw_text w) ''~'' \<or> contains_glob_syntax (aw_text w)"

definition is_glob_argument :: "string \<Rightarrow> token list \<Rightarrow> nat \<Rightarrow> bool" where
  "is_glob_argument source tokens offset =
     (let prior = filter (\<lambda>tok. tok_end tok \<le> offset \<and>
                    tk_kind tok \<notin> {TkWhitespace, TkLineContinuation}) tokens
      in case rposition (\<lambda>tok. tk_kind tok = TkDelimiter DlLeftParenthesis) prior of
           None \<Rightarrow> False
         | Some i \<Rightarrow>
             if i = 0 then False
             else
               (case get_nth prior (i - 1) of
                  None \<Rightarrow> False
                | Some callee \<Rightarrow>
                    tk_kind callee = TkIdentifier \<and>
                    slice_str source (tok_start callee) (tok_end callee) = Some ''glob''))"

definition path_context :: "string \<Rightarrow> token list \<Rightarrow> active_word \<Rightarrow> completion_context" where
  "path_context source tokens w =
     CcPath (aw_style w) (is_glob_argument source tokens (aw_start w)) (aw_interpolated w)"

text \<open>The tail of \<open>classify_context\<close>, once the head of the stage is known.\<close>

definition classify_head ::
  "string \<Rightarrow> token list \<Rightarrow> active_word \<Rightarrow> bool \<Rightarrow> token list \<Rightarrow> completion_context option" where
  "classify_head source tokens w forced_external head_tokens =
     (let as_command = (if is_path_spelling w then path_context source tokens w
                        else CcCommand forced_external)
      in case first_word_end head_tokens of
           None \<Rightarrow> Some as_command
         | Some head_end \<Rightarrow>
             if aw_start w < head_end then Some as_command
             else do {
               command \<leftarrow> slice_str source (tok_start (hd head_tokens)) head_end;
               Some (if starts_with (aw_text w) ''-'' then CcFlag command
                     else if is_glob_argument source tokens (aw_start w) \<or> is_path_spelling w
                     then path_context source tokens w
                     else CcNone)
             })"

definition classify_context ::
  "string \<Rightarrow> token list \<Rightarrow> token list \<Rightarrow> active_word \<Rightarrow> completion_context option" where
  "classify_context source tokens stage w =
     (if starts_with (aw_text w) ''$'' then Some (CcVariable False)
      else if stage \<noteq> [] \<and> is_file_redirect (tk_kind (last stage)) then
        Some (path_context source tokens w)
      else if stage \<noteq> [] \<and> tk_kind (hd stage) = TkOperator OpCaret \<and> tok_end (hd stage) = aw_start w
      then classify_head source tokens w True (tl stage)
      else classify_head source tokens w False stage)"

definition target_context :: "string \<Rightarrow> token list \<Rightarrow> active_word \<Rightarrow> completion_context option" where
  "target_context source tokens active =
     (let prior = significant_before tokens (aw_start active);
          stage = strip_command_substitution_modifier source (current_stage prior)
      in if prior \<noteq> [] \<and> tk_kind (last prior) = TkCommandSubstitutionStart
         then Some CcCommandSubstitutionModifier
         else if prior \<noteq> [] \<and> tk_kind (last prior) = TkBracedExpansionStart
         then Some (CcVariable True)
         else if list_ex (\<lambda>tok. tok_start tok = aw_end active \<and>
                tk_kind tok = TkDelimiter DlLeftParenthesis) tokens
         then Some CcExpression
         else classify_context source tokens stage active)"

definition completion_target_of :: "string \<Rightarrow> nat \<Rightarrow> (unit + completion_target) option" where
  "completion_target_of source cursor =
     (if length source < cursor \<or> \<not> is_char_boundary source cursor then Some (Inl ())
      else do {
        tokens \<leftarrow> lex (source_file_new (SourceId 0) ''<completion>'' source);
        try_bind (active_word_at source tokens cursor) (\<lambda>active. do {
          context' \<leftarrow> target_context source tokens active;
          Some (Inr \<lparr>ct_context = context', ct_start = aw_start active, ct_end = aw_end active,
                     ct_prefix = aw_text active\<rparr>)
        })
      })"

section \<open>Tokens of the source\<close>

text \<open>What the classification needs of the lexer's tokens: they are on boundaries and in order.\<close>

definition tokens_of :: "string \<Rightarrow> token list \<Rightarrow> bool" where
  "tokens_of source tokens \<longleftrightarrow>
     sorted_wrt (\<lambda>a b. tok_end a \<le> tok_start b) tokens \<and>
     (\<forall>tok \<in> set tokens. tok_start tok < tok_end tok \<and> is_char_boundary source (tok_start tok) \<and>
        is_char_boundary source (tok_end tok))"

lemma tiles_bounds: "tiles src lang a toks b \<Longrightarrow> tok \<in> set toks \<Longrightarrow> a \<le> tok_start tok"
  by (induction toks arbitrary: a) (auto simp: tok_start_def intro: less_imp_le le_trans)

lemma tiles_tokens_of: "tiles src lang a toks b \<Longrightarrow> tokens_of (sf_text src) toks"
proof (induction toks arbitrary: a)
  case (Cons tok toks)
  then have t: "tiles src lang (tok_end tok) toks b" by (simp add: tok_end_def)
  from Cons.prems obtain s where "token_text src tok = Inr s" "tok_start tok < tok_end tok"
    by (auto simp: tok_start_def tok_end_def)
  then have "is_char_boundary (sf_text src) (tok_start tok)" "is_char_boundary (sf_text src) (tok_end tok)"
    by (auto simp: token_text_def source_slice_Inr_iff validate_span_Inr_iff tok_start_def tok_end_def)
  with Cons.IH [OF t] tiles_bounds [OF t] \<open>tok_start tok < tok_end tok\<close> show ?case
    by (auto simp: tokens_of_def)
qed (simp add: tokens_of_def)

lemma tokens_of_filter: "tokens_of source tokens \<Longrightarrow> tokens_of source (filter p tokens)"
  by (auto simp: tokens_of_def sorted_wrt_filter)

lemma tokens_of_drop: "tokens_of source tokens \<Longrightarrow> tokens_of source (drop n tokens)"
  by (auto simp: tokens_of_def sorted_wrt_drop dest: in_set_dropD)

lemma tokens_of_nth:
  assumes "tokens_of source tokens" and "i \<le> j" and "j < length tokens"
  shows "tok_start (tokens ! i) \<le> tok_start (tokens ! j)" and "tok_end (tokens ! i) \<le> tok_end (tokens ! j)"
proof -
  have lt: "\<And>k. k < length tokens \<Longrightarrow> tok_start (tokens ! k) < tok_end (tokens ! k)"
    using assms(1) by (auto simp: tokens_of_def)
  have "i < j \<Longrightarrow> tok_end (tokens ! i) \<le> tok_start (tokens ! j)"
    using assms by (auto simp: tokens_of_def sorted_wrt_iff_nth_less)
  with lt [of i] lt [of j] assms(2,3)
  show "tok_start (tokens ! i) \<le> tok_start (tokens ! j)" "tok_end (tokens ! i) \<le> tok_end (tokens ! j)"
    by (cases "i = j"; force)+
qed

lemma first_component_le: "first_component tokens i \<le> i"
  by (induction tokens i rule: first_component.induct) auto

lemma last_component_bounds: "i < length tokens \<Longrightarrow> i \<le> last_component tokens i \<and> last_component tokens i < length tokens"
proof (induction tokens i rule: last_component.induct)
  case (1 tokens i)
  then show ?case by (subst (1 2) last_component.simps) auto
qed

text \<open>The range of an active word encloses the cursor and lies on boundaries.\<close>

definition encloses :: "string \<Rightarrow> nat \<Rightarrow> nat \<Rightarrow> nat \<Rightarrow> bool" where
  "encloses source a cursor b \<longleftrightarrow>
     a \<le> cursor \<and> cursor \<le> b \<and> is_char_boundary source a \<and> is_char_boundary source b"

lemma active_word_in_result:
  assumes toks: "tokens_of source tokens" and cur: "is_char_boundary source cursor"
    and i: "index < length tokens" "tok_start (tokens ! index) \<le> cursor" "cursor \<le> tok_end (tokens ! index)"
  shows "\<exists>r. active_word_in source tokens cursor index = Some r \<and>
    (\<forall>w. r = Inr w \<longrightarrow> encloses source (aw_start w) cursor (aw_end w))"
proof -
  let ?first0 = "first_component tokens index" and ?last = "last_component tokens index"
  let ?found = "find (\<lambda>i. tk_kind (tokens ! i) = TkVariable) (rev [?first0..<index])"
  let ?first = "case ?found of Some v \<Rightarrow> v + 1 | None \<Rightarrow> ?first0"
  have "v < index" if "?found = Some v" for v
    using that by (auto simp: find_Some_iff rev_nth)
  then have first: "?first \<le> index" using first_component_le by (auto split: option.split simp: Suc_le_eq)
  note last = last_component_bounds [OF i(1)]
  have start: "tok_start (tokens ! ?first) \<le> cursor"
    using tokens_of_nth(1) [OF toks first i(1)] i(2) by simp
  have end': "cursor \<le> tok_end (tokens ! ?last)"
    using tokens_of_nth(2) [OF toks, of index ?last] last i(3) by simp
  have mem: "tokens ! ?first \<in> set tokens" "tokens ! ?last \<in> set tokens" using first last i(1) by auto
  then have b: "is_char_boundary source (tok_start (tokens ! ?first))"
    "is_char_boundary source (tok_end (tokens ! ?last))" using toks by (auto simp: tokens_of_def)
  have slice: "slice_str source (tok_start (tokens ! ?first)) cursor =
      Some (cut (tok_start (tokens ! ?first)) cursor source)"
    using start b cur by simp
  have enc: "encloses source (tok_start (tokens ! ?first)) cursor (tok_end (tokens ! ?last))"
    using start end' b by (simp add: encloses_def)
  show ?thesis
  proof (cases ?found)
    case None
    with slice enc show ?thesis
      by (auto simp: active_word_in_def Let_def simp del: slice_str_eq_Some split: option.splits)
  next
    case (Some v)
    with slice enc show ?thesis
      by (auto simp: active_word_in_def Let_def simp del: slice_str_eq_Some split: option.splits)
  qed
qed

lemma active_word_at_result:
  assumes toks: "tokens_of source tokens" and cur: "is_char_boundary source cursor"
  shows "\<exists>r. active_word_at source tokens cursor = Some r \<and>
    (\<forall>w. r = Inr w \<longrightarrow> encloses source (aw_start w) cursor (aw_end w))"
proof (cases "position (\<lambda>tok. tok_start tok \<le> cursor \<and> cursor \<le> tok_end tok \<and>
    is_word_component (tk_kind tok)) tokens")
  case None
  with cur show ?thesis by (auto simp: active_word_at_def Let_def encloses_def)
next
  case (Some index)
  then have i: "index < length tokens" "tok_start (tokens ! index) \<le> cursor" "cursor \<le> tok_end (tokens ! index)"
    by (auto simp: position_eq_Some_iff)
  then have "tokens ! index \<in> set tokens" by simp
  with toks have "is_char_boundary source (tok_start (tokens ! index))"
    "is_char_boundary source (tok_end (tokens ! index))" by (auto simp: tokens_of_def)
  with i cur have v: "slice_str source (tok_start (tokens ! index)) cursor =
      Some (cut (tok_start (tokens ! index)) cursor source)"
    "encloses source (tok_start (tokens ! index)) cursor (tok_end (tokens ! index))"
    by (simp_all add: encloses_def)
  show ?thesis
  proof (cases "tk_kind (tokens ! index) = TkVariable")
    case True
    with Some v show ?thesis by (simp add: active_word_at_def del: slice_str_eq_Some)
  next
    case False
    with Some active_word_in_result [OF toks cur i] show ?thesis by (simp add: active_word_at_def)
  qed
qed

lemma word_end_from_result:
  "\<forall>tok \<in> set toks. tok_start tok < tok_end tok \<and> is_char_boundary source (tok_end tok) \<Longrightarrow>
     is_char_boundary source e \<Longrightarrow> e \<le> word_end_from e toks \<and> is_char_boundary source (word_end_from e toks)"
proof (induction e toks rule: word_end_from.induct)
  case (2 e tok toks)
  then show ?case
    by (cases "tok_start tok = e \<and> is_word_component (tk_kind tok)") auto
qed simp

lemma first_word_end_slice:
  assumes "tokens_of source toks" and "first_word_end toks = Some e"
  shows "\<exists>t. slice_str source (tok_start (hd toks)) e = Some t"
proof -
  from assms(2) obtain tok toks' where toks: "toks = tok # toks'" "e = word_end_from (tok_end tok) toks'"
    by (auto simp: first_word_end_def split: list.splits if_splits)
  have "tok_end tok \<le> e \<and> is_char_boundary source e"
    unfolding toks(2) using assms(1) toks(1) by (intro word_end_from_result) (auto simp: tokens_of_def)
  with assms(1) toks show ?thesis by (auto simp: tokens_of_def)
qed

lemma classify_head_Some:
  assumes "tokens_of source head_tokens"
  shows "\<exists>c. classify_head source tokens w f head_tokens = Some c"
proof (cases "first_word_end head_tokens")
  case None
  then show ?thesis by (simp add: classify_head_def Let_def)
next
  case (Some e)
  then obtain t where t: "slice_str source (tok_start (hd head_tokens)) e = Some t"
    using first_word_end_slice [OF assms] by blast
  show ?thesis
    by (cases "aw_start w < e") (simp_all add: classify_head_def Let_def Some t del: slice_str_eq_Some)
qed

lemma classify_context_Some:
  assumes "tokens_of source stage"
  shows "\<exists>c. classify_context source tokens stage w = Some c"
proof -
  have "tokens_of source (tl stage)" using tokens_of_drop [OF assms, of 1] by (simp add: drop_Suc)
  then show ?thesis
    using classify_head_Some [of source "tl stage" tokens w True] classify_head_Some [OF assms, of tokens w False]
    by (auto simp: classify_context_def)
qed

lemma strip_cases:
  "strip_command_substitution_modifier source stage = stage \<or>
   strip_command_substitution_modifier source stage = drop 2 stage"
  by (cases stage; cases "tl stage") (simp_all add: strip_command_substitution_modifier_def Let_def)

lemma stage_tokens_of:
  assumes "tokens_of source tokens"
  shows "tokens_of source (strip_command_substitution_modifier source (current_stage (significant_before tokens n)))"
proof -
  have stage: "tokens_of source (current_stage (significant_before tokens n))"
    unfolding current_stage_def significant_before_def Let_def
    using assms by (intro tokens_of_drop tokens_of_filter)
  then show ?thesis
    using strip_cases [of source "current_stage (significant_before tokens n)"] tokens_of_drop [OF stage, of 2]
    by auto
qed

lemma target_context_Some:
  assumes "tokens_of source tokens"
  shows "\<exists>c. target_context source tokens w = Some c"
proof -
  obtain c where c: "classify_context source tokens (strip_command_substitution_modifier source
      (current_stage (significant_before tokens (aw_start w)))) w = Some c"
    using classify_context_Some [OF stage_tokens_of [OF assms]] by blast
  show ?thesis by (simp only: target_context_def Let_def c) (simp split: if_split)
qed

text \<open>C27: completion targets. On a valid text no cursor makes the classification panic; a cursor beyond
  the text or inside a character has no target, and a target's replaced range lies on character
  boundaries and encloses the cursor.\<close>

theorem completion_target_encloses:
  assumes "utf8_valid source"
  shows "\<exists>r. completion_target_of source cursor = Some r \<and>
    (\<not> is_char_boundary source cursor \<longrightarrow> r = Inl ()) \<and>
    (\<forall>t. r = Inr t \<longrightarrow> encloses source (ct_start t) cursor (ct_end t))"
proof (cases "is_char_boundary source cursor")
  case False
  then show ?thesis by (simp add: completion_target_of_def)
next
  case True
  let ?src = "source_file_new (SourceId 0) ''<completion>'' source"
  have "utf8_valid (sf_text ?src)" using assms by simp
  from lex_tiles [OF this] obtain toks where lex: "lex ?src = Some toks"
    and "tiles ?src LexV1 0 toks (source_len ?src)" .
  from tiles_tokens_of [OF this(2)] have toks: "tokens_of source toks" by simp
  from active_word_at_result [OF toks True] obtain r where r: "active_word_at source toks cursor = Some r"
    "\<forall>w. r = Inr w \<longrightarrow> encloses source (aw_start w) cursor (aw_end w)" by blast
  have len: "\<not> length source < cursor" using is_char_boundary_le [OF True] by simp
  show ?thesis
  proof (cases r)
    case (Inl u)
    with lex r True len show ?thesis by (simp add: completion_target_of_def)
  next
    case (Inr w)
    obtain c where "target_context source toks w = Some c" using target_context_Some [OF toks] by blast
    with lex r True len Inr show ?thesis by (simp add: completion_target_of_def)
  qed
qed

lemma completion_target_encloses_witness:
  "\<exists>r. completion_target_of ''cat ./a | grep -v'' 7 = Some r \<and>
    (\<not> is_char_boundary ''cat ./a | grep -v'' 7 \<longrightarrow> r = Inl ()) \<and>
    (\<forall>t. r = Inr t \<longrightarrow> encloses ''cat ./a | grep -v'' (ct_start t) 7 (ct_end t))"
  by (rule completion_target_encloses) code_simp

lemma completion_target_path:
  "completion_target_of ''cat ./a | grep -v'' 7 =
     Some (Inr \<lparr>ct_context = CcPath StyleBare False False, ct_start = 4, ct_end = 7, ct_prefix = ''./a''\<rparr>)"
  by code_simp

end
