(* ===== verification/Glob.thy ===== *)
theory Glob
  imports Utf8
begin

text \<open>
  \<open>crates/flash-runtime/src/glob.rs\<close>: parsing of glob patterns and matching of whole paths. An
  \<open>OsStr\<close> is its bytes (\<open>string\<close>). The code matches a component by a row of Booleans per atom; the
  specification \<open>glob_match\<close> splits the name into one part per atom. The theorems identify the two,
  for components and for the segments of a path, and give the meaning of escapes and hidden names.
\<close>

section \<open>Native characters\<close>

datatype native_char = NcUnicode scalar | NcInvalid char

definition native_order :: "native_char \<Rightarrow> nat" where
  "native_order c = (case c of NcUnicode v \<Rightarrow> v | NcInvalid b \<Rightarrow> 0x110000 + byte_val b)"

abbreviation nc :: "char \<Rightarrow> native_char" where
  "nc b \<equiv> NcUnicode (ch b)"

lemma utf8_head_Inl_pos: "utf8_head s = Inl (Some n) \<Longrightarrow> 0 < n"
  by (cases s) (auto simp: utf8_head.simps(2) Let_def split: if_splits list.splits)

lemma utf8_error_bounds:
  "utf8_error s = Some (v, e) \<Longrightarrow> v < length s \<and> (\<forall>n. e = Some n \<longrightarrow> 0 < n)"
proof (induction s arbitrary: v e rule: utf8_error.induct)
  case (1 s)
  show ?case
  proof (cases "utf8_head s")
    case (Inl x)
    with 1 show ?thesis
      by (auto simp: utf8_error.simps [of s] dest: utf8_head_Inl_pos split: if_splits)
  next
    case (Inr y)
    then obtain c w where cw: "utf8_head s = Inr (c, w)" by (cases y) auto
    from 1(2) cw have ne: "s \<noteq> []" by (auto simp: utf8_error.simps [of s])
    from 1(2) cw ne obtain v' where v': "utf8_error (drop w s) = Some (v', e)" "v = w + v'"
      by (auto simp: utf8_error.simps [of s])
    from 1(1) [OF ne cw refl v'(1)] v'(2) show ?thesis by auto
  qed
qed

function native_chars :: "string \<Rightarrow> native_char list" where
  "native_chars bytes =
     (if bytes = [] then []
      else case utf8_error bytes of
             None \<Rightarrow> map NcUnicode (chars bytes)
           | Some (valid, e) \<Rightarrow>
               (let rest' = drop valid bytes;
                    invalid = min (case e of None \<Rightarrow> 1 | Some n \<Rightarrow> n) (length rest')
                in map NcUnicode (chars (take valid bytes)) @ map NcInvalid (take invalid rest')
                   @ native_chars (drop invalid rest')))"
  by pat_completeness auto
termination
  by (relation "measure length") (auto split: option.splits dest!: utf8_error_bounds)

declare native_chars.simps [simp del]

section \<open>Patterns\<close>

record character_class =
  cc_negated :: bool
  cc_ranges :: "(native_char \<times> native_char) list"

datatype pattern_atom =
    AtomLiteral native_char
  | AtomAnyOne
  | AtomAnyMany
  | AtomClass character_class

record component_pattern =
  cp_atoms :: "pattern_atom list"
  cp_explicit_hidden :: bool

datatype pattern_segment =
    SegParent
  | SegRecursive
  | SegComponent component_pattern

text \<open>The items of a class up to its closing bracket, with their escape marks, and what follows.\<close>

fun class_items ::
  "(native_char \<times> bool) list \<Rightarrow> native_char list \<Rightarrow> string + (native_char \<times> bool) list \<times> native_char list" where
  "class_items items [] = Inl ''a character class is missing `]`''"
| "class_items items (c # cs) =
     (if c = nc (CHR '']'') then Inr (items, cs)
      else if c = nc BSLASH then
        (case cs of
           [] \<Rightarrow> Inl ''a character-class escape has no following character''
         | d # ds \<Rightarrow> class_items (items @ [(d, True)]) ds)
      else class_items (items @ [(c, False)]) cs)"

fun class_ranges ::
  "(native_char \<times> bool) list \<Rightarrow> string + (native_char \<times> native_char) list" where
  "class_ranges [] = Inr []"
| "class_ranges ((s, _) # items) =
     (case items of
        (m, e) # (t, _) # items' \<Rightarrow>
          if (m, e) = (nc (CHR ''-''), False) then
            (if native_order t < native_order s
             then Inl ''a character-class range cannot descend''
             else and_then (class_ranges items') (\<lambda>rs. Inr ((s, t) # rs)))
          else and_then (class_ranges items) (\<lambda>rs. Inr ((s, s) # rs))
      | _ \<Rightarrow> and_then (class_ranges items) (\<lambda>rs. Inr ((s, s) # rs)))"

definition class_parse :: "native_char list \<Rightarrow> string + character_class \<times> native_char list" where
  "class_parse cs =
     (let (negated, body) =
        (case cs of
           c # cs' \<Rightarrow> if c = nc (CHR ''!'') \<or> c = nc (CHR ''^'') then (True, cs') else (False, cs)
         | [] \<Rightarrow> (False, cs))
      in and_then (class_items [] body) (\<lambda>(items, rest').
           if items = [] then Inl ''a character class cannot be empty''
           else and_then (class_ranges items) (\<lambda>rs.
             Inr (\<lparr>cc_negated = negated, cc_ranges = rs\<rparr>, rest'))))"

lemma class_items_length: "class_items items cs = Inr (items', rest') \<Longrightarrow> length rest' < length cs"
  by (induction items cs rule: class_items.induct) (auto split: if_splits list.splits)

lemma class_parse_length: "class_parse cs = Inr (cls, rest') \<Longrightarrow> length rest' < length cs"
proof -
  assume r: "class_parse cs = Inr (cls, rest')"
  obtain negated body where nb: "(case cs of
      c # cs' \<Rightarrow> if c = nc (CHR ''!'') \<or> c = nc (CHR ''^'') then (True, cs') else (False, cs)
    | [] \<Rightarrow> (False, cs)) = (negated, body)"
    by (rule prod.exhaust)
  then have len: "length body \<le> length cs"
    by (cases cs) (simp_all split: if_split_asm, (metis Pair_inject le_SucI le_refl length_Cons)+)
  from r [unfolded class_parse_def nb Let_def prod.case and_then_eq_Inr] obtain items
    where "class_items [] body = Inr (items, rest')"
    by (auto split: if_splits)
  with len show ?thesis by (auto dest: class_items_length)
qed

function parse_atoms :: "pattern_atom list \<Rightarrow> native_char list \<Rightarrow> string + pattern_atom list" where
  "parse_atoms atoms [] = Inr atoms"
| "parse_atoms atoms (c # cs) =
     (if c = nc BSLASH then
        (case cs of
           [] \<Rightarrow> Inl ''a trailing escape has no pattern character''
         | d # ds \<Rightarrow> parse_atoms (atoms @ [AtomLiteral d]) ds)
      else if c = nc (CHR ''*'') then
        parse_atoms (if atoms \<noteq> [] \<and> last atoms = AtomAnyMany then atoms else atoms @ [AtomAnyMany]) cs
      else if c = nc (CHR ''?'') then parse_atoms (atoms @ [AtomAnyOne]) cs
      else if c = nc (CHR ''['') then
        (case class_parse cs of
           Inl e \<Rightarrow> Inl e
         | Inr (cls, rest') \<Rightarrow> parse_atoms (atoms @ [AtomClass cls]) rest')
      else parse_atoms (atoms @ [AtomLiteral c]) cs)"
  by pat_completeness auto
termination
  by (relation "measure (\<lambda>(_, cs). length cs)") (auto dest: class_parse_length)

definition component_parse :: "native_char list \<Rightarrow> string + component_pattern" where
  "component_parse cs =
     and_then (parse_atoms [] cs) (\<lambda>atoms.
       Inr \<lparr>cp_atoms = atoms,
            cp_explicit_hidden = (atoms \<noteq> [] \<and> hd atoms = AtomLiteral (nc (CHR ''.'')))\<rparr>)"

definition segment_parse :: "string \<Rightarrow> string + pattern_segment" where
  "segment_parse component =
     (let cs = native_chars component in
      if cs = [nc (CHR ''*''), nc (CHR ''*'')] then Inr SegRecursive
      else and_then (component_parse cs) (\<lambda>p. Inr (SegComponent p)))"

section \<open>Matching a component\<close>

definition starts_with_dot :: "string \<Rightarrow> bool" where
  "starts_with_dot name \<longleftrightarrow> native_chars name \<noteq> [] \<and> hd (native_chars name) = nc (CHR ''.'')"

definition class_matches :: "character_class \<Rightarrow> native_char \<Rightarrow> bool" where
  "class_matches cls c =
     (let contained = list_ex (\<lambda>(s, t). native_order s \<le> native_order c \<and> native_order c \<le> native_order t)
            (cc_ranges cls)
      in contained \<noteq> cc_negated cls)"

text \<open>The row of an \<open>AnyMany\<close> atom: \<open>next[i] = current[i] || next[i - 1]\<close>.\<close>

fun many_row :: "bool \<Rightarrow> bool list \<Rightarrow> bool list" where
  "many_row acc [] = []"
| "many_row acc (b # bs) = (b \<or> acc) # many_row (b \<or> acc) bs"

text \<open>The row of an atom for one character: \<open>next[i + 1] |= current[i] && p(chars[i])\<close>.\<close>

definition one_row :: "(native_char \<Rightarrow> bool) \<Rightarrow> native_char list \<Rightarrow> bool list \<Rightarrow> bool list" where
  "one_row p cs current = False # map2 (\<lambda>b c. b \<and> p c) current cs"

fun atom_row :: "native_char list \<Rightarrow> pattern_atom \<Rightarrow> bool list \<Rightarrow> bool list" where
  "atom_row cs AtomAnyMany current = many_row False current"
| "atom_row cs AtomAnyOne current = one_row (\<lambda>_. True) cs current"
| "atom_row cs (AtomLiteral expected) current = one_row (\<lambda>c. c = expected) cs current"
| "atom_row cs (AtomClass cls) current = one_row (class_matches cls) cs current"

definition component_matches :: "component_pattern \<Rightarrow> string \<Rightarrow> bool" where
  "component_matches p name =
     (if starts_with_dot name \<and> \<not> cp_explicit_hidden p then False
      else
        (let cs = native_chars name;
             current = True # replicate (length cs) False
         in fold (atom_row cs) (cp_atoms p) current ! length cs))"

section \<open>Paths\<close>

text \<open>\<open>Path::components\<close> on a Unix host: repeated and trailing separators and inner \<open>.\<close> are skipped.\<close>

datatype path_component = PcRootDir | PcCurDir | PcParentDir | PcNormal string

fun split_slash :: "string \<Rightarrow> string \<Rightarrow> string list" where
  "split_slash acc [] = [acc]"
| "split_slash acc (b # bs) = (if b = CHR ''/'' then acc # split_slash [] bs else split_slash (acc @ [b]) bs)"

definition inner_components :: "string list \<Rightarrow> path_component list" where
  "inner_components parts =
     map (\<lambda>s. if s = ''..'' then PcParentDir else PcNormal s) (filter (\<lambda>s. s \<noteq> [] \<and> s \<noteq> ''.'') parts)"

definition path_components :: "string \<Rightarrow> path_component list" where
  "path_components path =
     (if starts_with path ''/'' then PcRootDir # inner_components (split_slash [] path)
      else case split_slash [] path of
             [] \<Rightarrow> []
           | s # parts \<Rightarrow> if s = ''.'' then PcCurDir # inner_components parts else inner_components (s # parts))"

definition is_absolute :: "string \<Rightarrow> bool" where
  "is_absolute path \<longleftrightarrow> starts_with path ''/''"

record glob_pattern =
  gp_initial :: string
  gp_segments :: "pattern_segment list"
  gp_empty :: bool

text \<open>The loop of \<open>GlobPattern::parse\<close> over the components: initial path, segments, whether \<open>.\<close> was seen.\<close>

fun parse_components ::
  "path_component list \<Rightarrow> string \<Rightarrow> pattern_segment list \<Rightarrow> bool \<Rightarrow>
     string + string \<times> pattern_segment list \<times> bool" where
  "parse_components [] initial segs saw = Inr (initial, segs, saw)"
| "parse_components (c # cs) initial segs saw =
     (case c of
        PcRootDir \<Rightarrow> parse_components cs ''/'' segs saw
      | PcCurDir \<Rightarrow> parse_components cs initial segs True
      | PcParentDir \<Rightarrow> parse_components cs initial (segs @ [SegParent]) saw
      | PcNormal s \<Rightarrow>
          and_then (segment_parse s) (\<lambda>seg. parse_components cs initial (segs @ [seg]) saw))"

definition glob_parse :: "string \<Rightarrow> string + glob_pattern" where
  "glob_parse pattern =
     (if pattern = [] then Inr \<lparr>gp_initial = [], gp_segments = [], gp_empty = True\<rparr>
      else if NUL \<in> set pattern then Inl ''patterns cannot contain NUL''
      else
        and_then (parse_components (path_components pattern) [] [] False) (\<lambda>(initial, segs, saw).
          Inr \<lparr>gp_initial = (if saw \<and> initial = [] \<and> segs = [] then ''.'' else initial),
               gp_segments = segs, gp_empty = False\<rparr>))"

fun match_segments :: "pattern_segment list \<Rightarrow> string list \<Rightarrow> bool" where
  "match_segments [] candidate \<longleftrightarrow> candidate = []"
| "match_segments (SegParent # segs) candidate \<longleftrightarrow>
     (case candidate of [] \<Rightarrow> False | n # ns \<Rightarrow> n = ''..'' \<and> match_segments segs ns)"
| "match_segments (SegRecursive # segs) candidate \<longleftrightarrow>
     match_segments segs candidate \<or>
     (case candidate of [] \<Rightarrow> False
      | n # ns \<Rightarrow> \<not> starts_with_dot n \<and> match_segments (SegRecursive # segs) ns)"
| "match_segments (SegComponent p # segs) candidate \<longleftrightarrow>
     (case candidate of [] \<Rightarrow> False | n # ns \<Rightarrow> component_matches p n \<and> match_segments segs ns)"

definition candidate_segments :: "string \<Rightarrow> string list" where
  "candidate_segments path =
     List.map_filter (\<lambda>c. case c of PcNormal s \<Rightarrow> Some s | PcParentDir \<Rightarrow> Some ''..'' | _ \<Rightarrow> None)
       (path_components path)"

definition glob_matches :: "glob_pattern \<Rightarrow> string \<Rightarrow> bool" where
  "glob_matches g candidate =
     (if gp_empty g then candidate = []
      else if is_absolute (gp_initial g) \<noteq> is_absolute candidate then False
      else match_segments (gp_segments g) (candidate_segments candidate))"

definition glob_pattern_matches :: "string \<Rightarrow> string \<Rightarrow> string + bool" where
  "glob_pattern_matches pattern candidate =
     and_then (glob_parse pattern) (\<lambda>g. Inr (glob_matches g candidate))"

section \<open>The meaning of a pattern\<close>

text \<open>A list splits into consecutive parts, one for each element of a pattern.\<close>

definition splits :: "('a \<Rightarrow> 'b list \<Rightarrow> bool) \<Rightarrow> 'a list \<Rightarrow> 'b list \<Rightarrow> bool" where
  "splits R as xs \<longleftrightarrow> (\<exists>parts. concat parts = xs \<and> list_all2 R as parts)"

lemma splits_Nil [simp]: "splits R [] xs \<longleftrightarrow> xs = []"
  by (auto simp: splits_def)

lemma splits_Cons: "splits R (a # as) xs \<longleftrightarrow> (\<exists>p q. xs = p @ q \<and> R a p \<and> splits R as q)"
proof
  assume "splits R (a # as) xs"
  then obtain p ps where "xs = p @ concat ps" "R a p" "list_all2 R as ps"
    by (auto simp: splits_def list_all2_Cons1)
  then show "\<exists>p q. xs = p @ q \<and> R a p \<and> splits R as q" by (auto simp: splits_def)
next
  assume "\<exists>p q. xs = p @ q \<and> R a p \<and> splits R as q"
  then obtain p ps where "xs = p @ concat ps" "R a p" "list_all2 R as ps"
    by (auto simp: splits_def)
  then show "splits R (a # as) xs"
    unfolding splits_def by (intro exI [of _ "p # ps"]) simp
qed

lemma splits_append: "splits R (as @ bs) xs \<longleftrightarrow> (\<exists>p q. xs = p @ q \<and> splits R as p \<and> splits R bs q)"
proof (induction as arbitrary: xs)
  case (Cons a as)
  then show ?case by (auto simp: splits_Cons) (metis append.assoc)+
qed simp

lemma splits_snoc:
  "splits R (as @ [a]) xs \<longleftrightarrow> (\<exists>k \<le> length xs. splits R as (take k xs) \<and> R a (drop k xs))"
proof
  assume "splits R (as @ [a]) xs"
  then obtain p q where "xs = p @ q" "splits R as p" "R a q"
    by (auto simp: splits_append splits_Cons)
  then show "\<exists>k \<le> length xs. splits R as (take k xs) \<and> R a (drop k xs)"
    by (intro exI [of _ "length p"]) simp
next
  assume "\<exists>k \<le> length xs. splits R as (take k xs) \<and> R a (drop k xs)"
  then obtain k where "splits R as (take k xs)" "R a (drop k xs)" by blast
  moreover have "xs = take k xs @ drop k xs" by simp
  ultimately show "splits R (as @ [a]) xs"
    unfolding splits_append splits_Cons splits_Nil by (metis append_Nil2)
qed

definition atom_part :: "pattern_atom \<Rightarrow> native_char list \<Rightarrow> bool" where
  "atom_part a part =
     (case a of
        AtomAnyMany \<Rightarrow> True
      | AtomAnyOne \<Rightarrow> length part = 1
      | AtomLiteral c \<Rightarrow> part = [c]
      | AtomClass cls \<Rightarrow> (case part of [c] \<Rightarrow> class_matches cls c | _ \<Rightarrow> False))"

definition segment_part :: "pattern_segment \<Rightarrow> string list \<Rightarrow> bool" where
  "segment_part seg part =
     (case seg of
        SegParent \<Rightarrow> part = [''..'']
      | SegRecursive \<Rightarrow> \<forall>n \<in> set part. \<not> starts_with_dot n
      | SegComponent p \<Rightarrow> (case part of [n] \<Rightarrow> component_matches p n | _ \<Rightarrow> False))"

section \<open>Rows of the component matcher\<close>

definition row :: "pattern_atom list \<Rightarrow> native_char list \<Rightarrow> bool list" where
  "row as cs = map (\<lambda>i. splits atom_part as (take i cs)) [0..<Suc (length cs)]"

lemma length_row [simp]: "length (row as cs) = Suc (length cs)"
  by (simp add: row_def)

lemma nth_row: "i \<le> length cs \<Longrightarrow> row as cs ! i = splits atom_part as (take i cs)"
  by (simp add: row_def nth_append del: upt_Suc)

lemma row_Nil: "row [] cs = True # replicate (length cs) False"
proof (rule nth_equalityI)
  fix i assume "i < length (row [] cs)"
  then show "row [] cs ! i = (True # replicate (length cs) False) ! i"
    by (cases i) (auto simp: nth_row)
qed simp

lemma length_many_row [simp]: "length (many_row acc bs) = length bs"
  by (induction bs arbitrary: acc) auto

lemma ex_nat_le_Suc: "(\<exists>j \<le> Suc k. P j) \<longleftrightarrow> P 0 \<or> (\<exists>j \<le> k. P (Suc j))"
  by (metis Suc_le_mono le0 not0_implies_Suc)

lemma nth_many_row: "i < length bs \<Longrightarrow> many_row acc bs ! i \<longleftrightarrow> acc \<or> (\<exists>j \<le> i. bs ! j)"
proof (induction bs arbitrary: acc i)
  case (Cons b bs)
  show ?case
  proof (cases i)
    case (Suc k)
    have "(\<exists>j \<le> Suc k. (b # bs) ! j) \<longleftrightarrow> b \<or> (\<exists>j \<le> k. bs ! j)"
      using ex_nat_le_Suc [of k "\<lambda>j. (b # bs) ! j"] by simp
    with Cons Suc show ?thesis by auto
  qed auto
qed simp

lemma length_one_row [simp]: "length current = Suc (length cs) \<Longrightarrow> length (one_row p cs current) = Suc (length cs)"
  by (simp add: one_row_def)

lemma nth_one_row:
  "length current = Suc (length cs) \<Longrightarrow> i \<le> length cs \<Longrightarrow>
     one_row p cs current ! i \<longleftrightarrow> (case i of 0 \<Rightarrow> False | Suc j \<Rightarrow> current ! j \<and> p (cs ! j))"
  by (auto simp: one_row_def split: nat.splits)

text \<open>The last part of a split, for an atom of one character.\<close>

lemma splits_snoc_one:
  assumes one: "\<And>part. atom_part a part \<longleftrightarrow> (\<exists>c. part = [c] \<and> p c)" and i: "i \<le> length cs"
  shows "splits atom_part (as @ [a]) (take i cs) \<longleftrightarrow>
    (case i of 0 \<Rightarrow> False | Suc j \<Rightarrow> splits atom_part as (take j cs) \<and> p (cs ! j))"
proof (cases i)
  case (Suc j)
  with i have *: "take i cs = take j cs @ [cs ! j]" by (simp add: take_Suc_conv_app_nth)
  have "splits atom_part (as @ [a]) (take i cs) \<longleftrightarrow>
      (\<exists>q c. take j cs @ [cs ! j] = q @ [c] \<and> splits atom_part as q \<and> p c)"
    unfolding * splits_append splits_Cons splits_Nil one by auto
  then show ?thesis by (simp add: Suc)
qed (simp add: splits_append splits_Cons one)

lemma atom_row_row: "atom_row cs a (row as cs) = row (as @ [a]) cs"
proof (rule nth_equalityI)
  show "length (atom_row cs a (row as cs)) = length (row (as @ [a]) cs)"
    by (cases a) simp_all
next
  fix i assume "i < length (atom_row cs a (row as cs))"
  then have i: "i \<le> length cs" by (cases a) simp_all
  show "atom_row cs a (row as cs) ! i = row (as @ [a]) cs ! i"
  proof (cases a)
    case AtomAnyMany
    have "(\<exists>j \<le> i. splits atom_part as (take j cs)) \<longleftrightarrow> splits atom_part (as @ [a]) (take i cs)"
      using i by (auto simp: AtomAnyMany splits_snoc atom_part_def min_def)
    with i show ?thesis by (auto simp: AtomAnyMany nth_many_row nth_row)
  next
    case (AtomLiteral l)
    with i show ?thesis
      by (auto simp: nth_row nth_one_row splits_snoc_one [where p = "\<lambda>c. c = l"] atom_part_def
          split: nat.splits)
  next
    case AtomAnyOne
    with i show ?thesis
      by (auto simp: nth_row nth_one_row splits_snoc_one [where p = "\<lambda>_. True"] atom_part_def
          length_Suc_conv split: nat.splits)
  next
    case (AtomClass cls)
    with i show ?thesis
      by (auto simp: nth_row nth_one_row splits_snoc_one [where p = "class_matches cls"] atom_part_def
          split: nat.splits list.splits)
  qed
qed

lemma fold_atom_row: "fold (atom_row cs) as (row bs cs) = row (bs @ as) cs"
  by (induction as arbitrary: bs) (simp_all add: atom_row_row)

lemma component_matches_splits:
  "component_matches p name \<longleftrightarrow>
     (starts_with_dot name \<longrightarrow> cp_explicit_hidden p) \<and> splits atom_part (cp_atoms p) (native_chars name)"
  using fold_atom_row [of "native_chars name" "cp_atoms p" "[]"]
  by (simp add: component_matches_def row_Nil Let_def nth_row)

lemma segment_part_component:
  "segment_part (SegComponent p) part \<longleftrightarrow> (\<exists>n. part = [n] \<and> component_matches p n)"
  by (auto simp: segment_part_def split: list.splits)

lemma one_part:
  "(\<exists>p q. n # ns = p @ q \<and> (\<exists>m. p = [m] \<and> P m) \<and> Q q) \<longleftrightarrow> P n \<and> Q ns"
  by (metis append_Cons append_Nil list.inject)

lemma splits_recursive:
  "splits segment_part (SegRecursive # segs) names \<longleftrightarrow>
     splits segment_part segs names \<or>
     (case names of [] \<Rightarrow> False
      | n # ns \<Rightarrow> \<not> starts_with_dot n \<and> splits segment_part (SegRecursive # segs) ns)" (is "?l \<longleftrightarrow> ?r")
proof
  assume ?l
  then obtain p q where pq: "names = p @ q" "\<forall>n \<in> set p. \<not> starts_with_dot n" "splits segment_part segs q"
    by (auto simp: splits_Cons segment_part_def)
  show ?r
  proof (cases p)
    case (Cons n p')
    with pq have "splits segment_part (SegRecursive # segs) (p' @ q)"
      by (auto simp: splits_Cons segment_part_def)
    with pq Cons show ?thesis by simp
  qed (use pq in simp)
next
  assume ?r
  then consider "splits segment_part segs names"
    | n ns p q where "names = n # ns" "\<not> starts_with_dot n" "ns = p @ q"
        "\<forall>n \<in> set p. \<not> starts_with_dot n" "splits segment_part segs q"
    by (auto simp: splits_Cons segment_part_def split: list.splits)
  then show ?l
  proof cases
    case 1
    then show ?thesis
      unfolding splits_Cons segment_part_def by (intro exI [of _ "[]"] exI [of _ names]) simp
  next
    case 2
    then show ?thesis
      unfolding splits_Cons segment_part_def by (intro exI [of _ "n # p"] exI [of _ q]) simp
  qed
qed

lemma match_segments_splits: "match_segments segs names \<longleftrightarrow> splits segment_part segs names"
proof (induction segs names rule: match_segments.induct)
  case (2 segs names)
  then show ?case by (cases names) (auto simp: splits_Cons segment_part_def)
next
  case (3 segs names)
  then show ?case by (simp add: splits_recursive split: list.split)
next
  case (4 p segs names)
  then show ?case
    by (cases names) (simp_all add: splits_Cons segment_part_component one_part)
qed simp

section \<open>Properties\<close>

text \<open>The row matcher of a component decides exactly the specification: a name matches when its
  characters split into one part per atom, and a name starting with a dot needs a pattern that
  starts with a literal dot.\<close>

lemma component_matches_iff:
  "component_matches p name \<longleftrightarrow>
     \<not> (starts_with_dot name \<and> \<not> cp_explicit_hidden p) \<and>
     (\<exists>parts. concat parts = native_chars name \<and> list_all2 atom_part (cp_atoms p) parts)"
  using component_matches_splits [of p name] by (auto simp: splits_def)

text \<open>C28: a path matches a parsed pattern exactly when both are absolute or both relative and its
  names split into one run per segment, where \<open>..\<close> matches itself, \<open>**\<close> a run of names that are not
  hidden, and a component one name.\<close>

theorem glob_matches_iff:
  "glob_matches g path \<longleftrightarrow>
     (if gp_empty g then path = []
      else is_absolute (gp_initial g) = is_absolute path \<and>
        (\<exists>parts. concat parts = candidate_segments path \<and>
           list_all2 segment_part (gp_segments g) parts))"
  by (auto simp: glob_matches_def match_segments_splits splits_def)

text \<open>A component in which every character is escaped.\<close>

definition escape_all :: "native_char list \<Rightarrow> native_char list" where
  "escape_all cs = concat (map (\<lambda>c. [nc BSLASH, c]) cs)"

lemma parse_atoms_escape_all: "parse_atoms atoms (escape_all cs) = Inr (atoms @ map AtomLiteral cs)"
  by (induction cs arbitrary: atoms) (simp_all add: escape_all_def)

lemma splits_literals: "splits atom_part (map AtomLiteral cs) ds \<longleftrightarrow> ds = cs"
  by (induction cs arbitrary: ds) (auto simp: splits_Cons atom_part_def)

text \<open>C29: escaping every character of a name gives a pattern that parses and matches that name and
  no other, hidden names included.\<close>

theorem escaped_component_exact:
  "\<exists>p. component_parse (escape_all cs) = Inr p \<and>
       (\<forall>name. component_matches p name \<longleftrightarrow> native_chars name = cs)"
  by (auto simp: component_parse_def parse_atoms_escape_all component_matches_splits splits_literals
      starts_with_dot_def hd_map)

end
