(* ===== verification/Job.thy ===== *)
theory Job
  imports Prelude
begin

text \<open>
  \<open>crates/flash-runtime/src/job.rs\<close>: the lifecycle of one shell job. An operation returns
  \<open>Some (Inr job)\<close> with the updated job, \<open>Some (Inl error)\<close> when it is refused (the job is then
  unchanged), and \<open>None\<close> where the code panics. The status of a completed process is a type
  parameter: no operation reads it. The members are a \<open>BTreeMap\<close>, an association list sorted by
  process identity.
\<close>

section \<open>Data\<close>

definition job_id_new :: "nat \<Rightarrow> nat option" where
  "job_id_new value = (if value = 0 then None else Some value)"

definition process_id_new :: "nat \<Rightarrow> nat option" where
  "process_id_new value = (if value = 0 then None else Some value)"

datatype job_placement = PlForeground | PlBackground

datatype job_state =
    JsPlanned
  | JsStarting
  | JsForeground
  | JsBackground
  | JsStopped job_placement
  | JsCompleted
  | JsNotified
  | JsReaped

datatype 's job_member_state = MsRunning | MsStopped int | MsCompleted 's

datatype job_transition_error =
    InvalidState string job_state
  | NoMembers
  | DuplicateProcess nat
  | UnknownProcess nat
  | ProcessAlreadyCompleted nat
  | NoPendingNotice

record 's job =
  jb_id :: nat
  jb_state :: job_state
  jb_placement :: "job_placement option"
  jb_members :: "(nat \<times> 's job_member_state) list"
  jb_notice :: bool

type_synonym 's job_result = "(job_transition_error + 's job) option"

definition job_new :: "nat \<Rightarrow> 's job" where
  "job_new i = \<lparr>jb_id = i, jb_state = JsPlanned, jb_placement = None, jb_members = [], jb_notice = False\<rparr>"

definition state_of_placement :: "job_placement \<Rightarrow> job_state" where
  "state_of_placement p = (case p of PlForeground \<Rightarrow> JsForeground | PlBackground \<Rightarrow> JsBackground)"

fun show_placement :: "job_placement \<Rightarrow> string" where
  "show_placement PlForeground = ''Foreground''"
| "show_placement PlBackground = ''Background''"

fun show_job_state :: "job_state \<Rightarrow> string" where
  "show_job_state JsPlanned = ''Planned''"
| "show_job_state JsStarting = ''Starting''"
| "show_job_state JsForeground = ''Foreground''"
| "show_job_state JsBackground = ''Background''"
| "show_job_state (JsStopped p) = ''Stopped { resume: '' @ show_placement p @ '' }''"
| "show_job_state JsCompleted = ''Completed''"
| "show_job_state JsNotified = ''Notified''"
| "show_job_state JsReaped = ''Reaped''"

fun transition_error_message :: "job_transition_error \<Rightarrow> string" where
  "transition_error_message (InvalidState operation state) =
     ''cannot '' @ operation @ '' while job is '' @ show_job_state state"
| "transition_error_message NoMembers = ''cannot start a process-backed job with no members''"
| "transition_error_message (DuplicateProcess p) = ''process '' @ show_nat p @ '' is already in the job''"
| "transition_error_message (UnknownProcess p) = ''process '' @ show_nat p @ '' is not in the job''"
| "transition_error_message (ProcessAlreadyCompleted p) = ''process '' @ show_nat p @ '' has already completed''"
| "transition_error_message NoPendingNotice = ''the job has no pending notice''"

section \<open>Guards\<close>

definition is_completed :: "'s job_member_state \<Rightarrow> bool" where
  "is_completed m = (case m of MsCompleted _ \<Rightarrow> True | _ \<Rightarrow> False)"

definition is_stopped :: "'s job_member_state \<Rightarrow> bool" where
  "is_stopped m = (case m of MsStopped _ \<Rightarrow> True | _ \<Rightarrow> False)"

definition is_stopped_state :: "job_state \<Rightarrow> bool" where
  "is_stopped_state s = (case s of JsStopped _ \<Rightarrow> True | _ \<Rightarrow> False)"

definition require_observable :: "'s job \<Rightarrow> string \<Rightarrow> job_transition_error + unit" where
  "require_observable j operation =
     (if jb_state j \<in> {JsStarting, JsForeground, JsBackground} \<or> is_stopped_state (jb_state j)
      then Inr () else Inl (InvalidState operation (jb_state j)))"

definition require_state :: "'s job \<Rightarrow> string \<Rightarrow> job_state list \<Rightarrow> job_transition_error + unit" where
  "require_state j operation accepted =
     (if jb_state j \<in> set accepted then Inr () else Inl (InvalidState operation (jb_state j)))"

definition member_mut :: "'s job \<Rightarrow> nat \<Rightarrow> job_transition_error + 's job_member_state" where
  "member_mut j process = ok_or (UnknownProcess process) (map_of (jb_members j) process)"

definition reconcile :: "'s job \<Rightarrow> 's job option" where
  "reconcile j =
     (if jb_state j = JsStarting then Some j
      else if list_all (\<lambda>(_, m). is_completed m) (jb_members j) then
        Some (j\<lparr>jb_notice := (if jb_state j \<noteq> JsCompleted then True else jb_notice j),
                jb_state := JsCompleted\<rparr>)
      else if list_all (\<lambda>(_, m). is_stopped m \<or> is_completed m) (jb_members j) then
        (case jb_placement j of
           None \<Rightarrow> None
         | Some resume \<Rightarrow>
             Some (j\<lparr>jb_notice := (if \<not> is_stopped_state (jb_state j) then True else jb_notice j),
                     jb_state := JsStopped resume\<rparr>))
      else
        (case jb_placement j of
           None \<Rightarrow> None
         | Some p \<Rightarrow> Some (j\<lparr>jb_state := state_of_placement p\<rparr>)))"

section \<open>Operations\<close>

text \<open>The guarded operations: an error leaves the job as it is.\<close>

abbreviation guarded :: "job_transition_error + unit \<Rightarrow> 's job_result \<Rightarrow> 's job_result" where
  "guarded g r \<equiv> (case g of Inl e \<Rightarrow> Some (Inl e) | Inr _ \<Rightarrow> r)"

definition begin_starting :: "'s job \<Rightarrow> 's job_result" where
  "begin_starting j =
     guarded (require_state j ''begin startup'' [JsPlanned])
       (Some (Inr (j\<lparr>jb_state := JsStarting\<rparr>)))"

definition add_process :: "nat \<Rightarrow> 's job \<Rightarrow> 's job_result" where
  "add_process process j =
     guarded (require_state j ''register a process'' [JsStarting])
       (if map_of (jb_members j) process \<noteq> None then Some (Inl (DuplicateProcess process))
        else Some (Inr (j\<lparr>jb_members := bt_insert process MsRunning (jb_members j)\<rparr>)))"

definition finish_starting :: "job_placement \<Rightarrow> 's job \<Rightarrow> 's job_result" where
  "finish_starting placement j =
     guarded (require_state j ''finish startup'' [JsStarting])
       (if jb_members j = [] then Some (Inl NoMembers)
        else map_option Inr
          (reconcile (j\<lparr>jb_placement := Some placement, jb_state := state_of_placement placement\<rparr>)))"

definition set_member :: "nat \<Rightarrow> 's job_member_state \<Rightarrow> 's job \<Rightarrow> 's job" where
  "set_member process m j = j\<lparr>jb_members := bt_update process m (jb_members j)\<rparr>"

text \<open>The common part of the three observations: the guards, then the update of the member.\<close>

definition observe ::
  "string \<Rightarrow> nat \<Rightarrow> 's job_member_state \<Rightarrow> ('s job \<Rightarrow> 's job) \<Rightarrow> 's job \<Rightarrow> 's job_result" where
  "observe operation process m update j =
     guarded (require_observable j operation)
       (case member_mut j process of
          Inl e \<Rightarrow> Some (Inl e)
        | Inr old \<Rightarrow>
            if is_completed old then Some (Inl (ProcessAlreadyCompleted process))
            else map_option Inr (reconcile (update (set_member process m j))))"

definition observe_stopped :: "nat \<Rightarrow> int \<Rightarrow> 's job \<Rightarrow> 's job_result" where
  "observe_stopped process signal =
     observe ''observe a stopped process'' process (MsStopped signal) (\<lambda>j. j)"

definition observe_continued :: "nat \<Rightarrow> 's job \<Rightarrow> 's job_result" where
  "observe_continued process =
     observe ''observe a continued process'' process MsRunning
       (\<lambda>j. j\<lparr>jb_placement := (case jb_state j of JsStopped resume \<Rightarrow> Some resume | _ \<Rightarrow> jb_placement j),
              jb_notice := False\<rparr>)"

definition observe_completed :: "nat \<Rightarrow> 's \<Rightarrow> 's job \<Rightarrow> 's job_result" where
  "observe_completed process status =
     observe ''observe a completed process'' process (MsCompleted status) (\<lambda>j. j)"

definition move_to :: "job_placement \<Rightarrow> 's job \<Rightarrow> 's job_result" where
  "move_to placement j =
     guarded (require_state j ''change placement'' [JsForeground, JsBackground])
       (Some (Inr (j\<lparr>jb_placement := Some placement, jb_state := state_of_placement placement\<rparr>)))"

definition continue_in :: "job_placement \<Rightarrow> 's job \<Rightarrow> 's job_result" where
  "continue_in placement j =
     (if \<not> is_stopped_state (jb_state j) then Some (Inl (InvalidState ''continue'' (jb_state j)))
      else Some (Inr (j\<lparr>jb_members := map (\<lambda>(p, m). (p, if is_stopped m then MsRunning else m)) (jb_members j),
                        jb_placement := Some placement,
                        jb_state := state_of_placement placement,
                        jb_notice := False\<rparr>)))"

definition acknowledge_stopped_notice :: "'s job \<Rightarrow> 's job_result" where
  "acknowledge_stopped_notice j =
     (if \<not> is_stopped_state (jb_state j)
      then Some (Inl (InvalidState ''acknowledge a stopped notice'' (jb_state j)))
      else if \<not> jb_notice j then Some (Inl NoPendingNotice)
      else Some (Inr (j\<lparr>jb_notice := False\<rparr>)))"

definition mark_notified :: "'s job \<Rightarrow> 's job_result" where
  "mark_notified j =
     guarded (require_state j ''mark notified'' [JsCompleted])
       (Some (Inr (j\<lparr>jb_state := JsNotified, jb_notice := False\<rparr>)))"

definition mark_reaped :: "'s job \<Rightarrow> 's job_result" where
  "mark_reaped j =
     guarded (require_state j ''mark reaped'' [JsNotified])
       (Some (Inr (j\<lparr>jb_state := JsReaped\<rparr>)))"

definition abort_starting_after_cleanup :: "'s job \<Rightarrow> 's job_result" where
  "abort_starting_after_cleanup j =
     guarded (require_state j ''abort startup'' [JsStarting])
       (Some (Inr (j\<lparr>jb_state := JsReaped, jb_members := []\<rparr>)))"

section \<open>The job as a machine\<close>

datatype 's job_op =
    OpBegin
  | OpAdd nat
  | OpFinish job_placement
  | OpStopped nat int
  | OpContinued nat
  | OpCompleted nat 's
  | OpMove job_placement
  | OpContinue job_placement
  | OpAcknowledge
  | OpNotified
  | OpReaped
  | OpAbort

fun job_apply :: "'s job_op \<Rightarrow> 's job \<Rightarrow> 's job_result" where
  "job_apply OpBegin = begin_starting"
| "job_apply (OpAdd p) = add_process p"
| "job_apply (OpFinish pl) = finish_starting pl"
| "job_apply (OpStopped p s) = observe_stopped p s"
| "job_apply (OpContinued p) = observe_continued p"
| "job_apply (OpCompleted p s) = observe_completed p s"
| "job_apply (OpMove pl) = move_to pl"
| "job_apply (OpContinue pl) = continue_in pl"
| "job_apply OpAcknowledge = acknowledge_stopped_notice"
| "job_apply OpNotified = mark_notified"
| "job_apply OpReaped = mark_reaped"
| "job_apply OpAbort = abort_starting_after_cleanup"

definition job_step :: "'s job \<Rightarrow> 's job_op \<Rightarrow> 's job" where
  "job_step j x = (case job_apply x j of Some (Inr j') \<Rightarrow> j' | _ \<Rightarrow> j)"

text \<open>
  The states as a graph: \<open>published\<close> states are computed from the observations of the members by
  \<open>aggregate\<close>, and the others follow the order of the lifecycle.
\<close>

definition aggregate :: "job_placement \<Rightarrow> 's job_member_state list \<Rightarrow> job_state" where
  "aggregate p ms =
     (if \<forall>m \<in> set ms. is_completed m then JsCompleted
      else if MsRunning \<in> set ms then state_of_placement p
      else JsStopped p)"

abbreviation member_states :: "'s job \<Rightarrow> 's job_member_state list" where
  "member_states j \<equiv> map snd (jb_members j)"

definition published :: "job_state \<Rightarrow> bool" where
  "published s \<longleftrightarrow> s \<in> {JsForeground, JsBackground, JsCompleted} \<or> is_stopped_state s"

definition job_ok :: "'s job \<Rightarrow> bool" where
  "job_ok j \<longleftrightarrow>
     bt_sorted (jb_members j) \<and>
     (published (jb_state j) \<longrightarrow>
        jb_members j \<noteq> [] \<and>
        (\<exists>p. jb_placement j = Some p \<and> jb_state j = aggregate p (member_states j))) \<and>
     (jb_state j = JsNotified \<longrightarrow> (\<forall>m \<in> set (member_states j). is_completed m)) \<and>
     (jb_notice j \<longrightarrow> is_stopped_state (jb_state j) \<or> jb_state j = JsCompleted) \<and>
     (jb_state j = JsCompleted \<longrightarrow> jb_notice j)"

inductive lifecycle :: "job_state \<Rightarrow> job_state \<Rightarrow> bool" where
  stay: "lifecycle s s"
| starts: "lifecycle JsPlanned JsStarting"
| publishes: "published s \<Longrightarrow> lifecycle JsStarting s"
| aborts: "lifecycle JsStarting JsReaped"
| moves: "published s \<Longrightarrow> s \<noteq> JsCompleted \<Longrightarrow> published t \<Longrightarrow> lifecycle s t"
| notifies: "lifecycle JsCompleted JsNotified"
| reaps: "lifecycle JsNotified JsReaped"

inductive_cases lifecycle_ReapedE [elim!]: "lifecycle JsReaped s"
inductive_cases lifecycle_CompletedE [elim]: "lifecycle JsCompleted s"

section \<open>Operations keep the invariant\<close>

lemma published_simps [simp]:
  "published JsForeground" "published JsBackground" "published JsCompleted" "published (JsStopped p)"
  "\<not> published JsPlanned" "\<not> published JsStarting" "\<not> published JsNotified" "\<not> published JsReaped"
  "published (state_of_placement p)"
  by (simp_all add: published_def is_stopped_state_def state_of_placement_def split: job_placement.splits)

lemma published_stopped: "is_stopped_state s \<Longrightarrow> published s"
  by (simp add: published_def)

lemma published_aggregate [simp]: "published (aggregate p ms)"
  by (simp add: aggregate_def)

lemma aggregate_simps [simp]:
  "aggregate p ms \<noteq> JsPlanned" "aggregate p ms \<noteq> JsStarting"
  "aggregate p ms \<noteq> JsNotified" "aggregate p ms \<noteq> JsReaped"
  by (auto simp: aggregate_def state_of_placement_def split: job_placement.splits)

lemma is_stopped_state_simps [simp]:
  "is_stopped_state (JsStopped p)" "\<not> is_stopped_state JsPlanned" "\<not> is_stopped_state JsStarting"
  "\<not> is_stopped_state JsForeground" "\<not> is_stopped_state JsBackground" "\<not> is_stopped_state JsCompleted"
  "\<not> is_stopped_state JsNotified" "\<not> is_stopped_state JsReaped" "\<not> is_stopped_state (state_of_placement p)"
  by (simp_all add: is_stopped_state_def state_of_placement_def split: job_placement.splits)

lemma state_of_placement_neq [simp]:
  "state_of_placement p \<noteq> JsStarting" "state_of_placement p \<noteq> JsCompleted"
  "state_of_placement p \<noteq> JsNotified" "state_of_placement p \<noteq> JsPlanned" "state_of_placement p \<noteq> JsReaped"
  "state_of_placement p \<noteq> JsStopped q"
  by (simp_all add: state_of_placement_def split: job_placement.splits)

lemma member_simps [simp]:
  "is_completed (MsCompleted s)" "\<not> is_completed MsRunning" "\<not> is_completed (MsStopped n)"
  "is_stopped (MsStopped n)" "\<not> is_stopped MsRunning" "\<not> is_stopped (MsCompleted s)"
  by (simp_all add: is_completed_def is_stopped_def)

lemma not_running_iff: "is_stopped m \<or> is_completed m \<longleftrightarrow> m \<noteq> MsRunning"
  by (cases m) simp_all

lemma list_all_snd: "list_all (\<lambda>(_, m). P m) ms \<longleftrightarrow> (\<forall>m \<in> set (map snd ms). P m)"
  by (induction ms) auto

lemma reconcile_published:
  assumes "jb_state j \<noteq> JsStarting" "jb_placement j = Some p"
  shows "\<exists>n. reconcile j = Some (j\<lparr>jb_notice := n, jb_state := aggregate p (member_states j)\<rparr>) \<and>
    (n \<longrightarrow> jb_notice j \<or> MsRunning \<notin> set (member_states j)) \<and>
    (aggregate p (member_states j) = JsCompleted \<longrightarrow> jb_state j = JsCompleted \<longrightarrow> jb_notice j \<longrightarrow> n) \<and>
    (aggregate p (member_states j) = JsCompleted \<longrightarrow> jb_state j \<noteq> JsCompleted \<longrightarrow> n)"
proof -
  consider "\<forall>m \<in> set (member_states j). is_completed m"
    | "\<not> (\<forall>m \<in> set (member_states j). is_completed m)" "MsRunning \<notin> set (member_states j)"
    | "\<not> (\<forall>m \<in> set (member_states j). is_completed m)" "MsRunning \<in> set (member_states j)"
    by blast
  then show ?thesis
  proof cases
    case 1
    then have "MsRunning \<notin> set (member_states j)" by auto
    with 1 assms show ?thesis
      by (intro exI [of _ "jb_state j \<noteq> JsCompleted \<or> jb_notice j"])
         (simp add: reconcile_def aggregate_def list_all_snd del: set_map)
  next
    case 2
    have c: "(\<forall>m \<in> set (member_states j). is_completed m) = False"
      and r: "(\<forall>m \<in> set (member_states j). m \<noteq> MsRunning) = True" using 2 by metis+
    from 2(2) assms show ?thesis
      by (intro exI [of _ "\<not> is_stopped_state (jb_state j) \<or> jb_notice j"])
         (simp add: reconcile_def aggregate_def list_all_snd not_running_iff c r del: set_map)
  next
    case 3
    have c: "(\<forall>m \<in> set (member_states j). is_completed m) = False"
      and r: "(\<forall>m \<in> set (member_states j). m \<noteq> MsRunning) = False" using 3 by metis+
    from 3(2) assms show ?thesis
      by (intro exI [of _ "jb_notice j"])
         (simp add: reconcile_def aggregate_def list_all_snd not_running_iff c r del: set_map)
  qed
qed

definition job_result_ok :: "'s job \<Rightarrow> 's job_result \<Rightarrow> bool" where
  "job_result_ok j r \<longleftrightarrow>
     (\<exists>e. r = Some (Inl e)) \<or>
     (\<exists>j'. r = Some (Inr j') \<and> job_ok j' \<and> lifecycle (jb_state j) (jb_state j') \<and> jb_id j' = jb_id j)"

lemma job_result_okI:
  "job_ok j' \<Longrightarrow> lifecycle (jb_state j) (jb_state j') \<Longrightarrow> jb_id j' = jb_id j \<Longrightarrow> job_result_ok j (Some (Inr j'))"
  by (simp add: job_result_ok_def)

lemma job_result_ok_Inl [simp]: "job_result_ok j (Some (Inl e))"
  by (simp add: job_result_ok_def)

lemma job_result_ok_guarded:
  "(g = Inr () \<Longrightarrow> job_result_ok j r) \<Longrightarrow> job_result_ok j (guarded g r)"
  by (cases g) simp_all

lemma require_state_Inr [simp]: "require_state j op ss = Inr () \<longleftrightarrow> jb_state j \<in> set ss"
  by (simp add: require_state_def)

text \<open>Reconciling a job with a placement and members gives a job that is well formed.\<close>

lemma reconcile_ok:
  assumes "bt_sorted (jb_members k)" "jb_members k \<noteq> []" "jb_placement k = Some p"
    "jb_state k \<noteq> JsStarting" "jb_state k \<noteq> JsCompleted"
    "jb_notice k \<Longrightarrow> MsRunning \<notin> set (member_states k)"
    and l: "\<And>s. published s \<Longrightarrow> lifecycle (jb_state j) s" and "jb_id k = jb_id j"
  shows "job_result_ok j (map_option Inr (reconcile k))"
proof -
  from reconcile_published [OF assms(4,3)] obtain n where
    n: "reconcile k = Some (k\<lparr>jb_notice := n, jb_state := aggregate p (member_states k)\<rparr>)"
      "n \<longrightarrow> jb_notice k \<or> MsRunning \<notin> set (member_states k)"
      "aggregate p (member_states k) = JsCompleted \<longrightarrow> n"
    using assms(5) by blast
  have "n \<Longrightarrow> is_stopped_state (aggregate p (member_states k)) \<or> aggregate p (member_states k) = JsCompleted"
    using n(2) assms(6) by (auto simp: aggregate_def)
  then have "job_ok (k\<lparr>jb_notice := n, jb_state := aggregate p (member_states k)\<rparr>)"
    using assms(1-3) n(3) by (simp add: job_ok_def)
  moreover have "lifecycle (jb_state j) (aggregate p (member_states k))"
    using l [OF published_aggregate] .
  ultimately show ?thesis using n(1) assms(8) by (simp add: job_result_okI)
qed

lemma job_ok_stateD:
  assumes "job_ok j" "published (jb_state j)"
  obtains p where "jb_placement j = Some p" "jb_members j \<noteq> []" "jb_state j = aggregate p (member_states j)"
  using assms by (auto simp: job_ok_def)

lemma aggregate_stopped:
  "is_stopped_state (aggregate p ms) \<Longrightarrow> MsRunning \<notin> set ms \<and> (\<exists>m \<in> set ms. is_stopped m) \<and> aggregate p ms = JsStopped p"
  by (auto simp: aggregate_def not_running_iff split: if_splits) (metis not_running_iff)

lemma aggregate_running:
  "aggregate p ms \<in> {JsForeground, JsBackground} \<Longrightarrow> MsRunning \<in> set ms \<and> aggregate p ms = state_of_placement p"
  by (auto simp: aggregate_def split: if_splits)

lemma set_bt_update: "set (map snd (bt_update k v m)) \<subseteq> insert v (set (map snd m))"
  by (induction m) (auto simp: bt_update_def)

lemma bt_update_Nil [simp]: "bt_update k v m = [] \<longleftrightarrow> m = []"
  by (simp add: bt_update_def)

text \<open>The three observations: \<open>update\<close> may change the placement and clear the notice.\<close>

lemma observe_ok:
  assumes ok: "job_ok j"
    and upd: "\<And>k. jb_members (update k) = jb_members k \<and> jb_state (update k) = jb_state k \<and> jb_id (update k) = jb_id k \<and>
        (jb_state k = JsStarting \<longrightarrow> jb_notice (update k) \<longrightarrow> jb_notice k) \<and>
        (jb_placement k \<noteq> None \<longrightarrow> jb_placement (update k) \<noteq> None)"
    and notice: "\<And>k. jb_notice (update k) \<Longrightarrow> jb_notice k \<and> m \<noteq> MsRunning"
  shows "job_result_ok j (observe op process m update j)"
  unfolding observe_def
proof (rule job_result_ok_guarded)
  assume "require_observable j op = Inr ()"
  then have obs: "jb_state j \<in> {JsStarting, JsForeground, JsBackground} \<or> is_stopped_state (jb_state j)"
    by (simp add: require_observable_def split: if_splits)
  let ?k = "update (set_member process m j)"
  have k: "jb_members ?k = bt_update process m (jb_members j)" "jb_state ?k = jb_state j" "jb_id ?k = jb_id j"
    using upd by (simp_all add: set_member_def)
  have "job_result_ok j (map_option Inr (reconcile ?k))"
  proof (cases "jb_state j = JsStarting")
    case True
    then have r: "reconcile ?k = Some ?k" using k by (simp add: reconcile_def)
    have "\<not> jb_notice ?k" using notice [of "set_member process m j"] ok True by (auto simp: set_member_def job_ok_def)
    then have "job_ok ?k" using ok True k by (simp add: job_ok_def)
    with r k show ?thesis by (simp add: job_result_okI lifecycle.stay)
  next
    case False
    with obs have pub: "published (jb_state j)" by (auto simp: published_def)
    then obtain p where p: "jb_placement j = Some p" "jb_members j \<noteq> []" "jb_state j = aggregate p (member_states j)"
      using job_ok_stateD [OF ok] by blast
    from obs False have nc: "jb_state j \<noteq> JsCompleted" by auto
    obtain q where q: "jb_placement ?k = Some q"
      using upd [of "set_member process m j"] p(1) by (auto simp: set_member_def)
    have "MsRunning \<notin> set (member_states ?k)" if "jb_notice ?k"
    proof -
      have "jb_notice j" "m \<noteq> MsRunning"
        using notice [OF that] by (simp_all add: set_member_def)
      then have "is_stopped_state (jb_state j)" using ok nc by (auto simp: job_ok_def)
      with p(3) have "MsRunning \<notin> set (member_states j)" using aggregate_stopped by metis
      with \<open>m \<noteq> MsRunning\<close> show ?thesis using set_bt_update [of process m "jb_members j"] k(1) by auto
    qed
    then show ?thesis
      using ok p q nc False pub k by (intro reconcile_ok) (auto simp: job_ok_def intro: lifecycle.moves)
  qed
  then show "job_result_ok j (case member_mut j process of Inl e \<Rightarrow> Some (Inl e)
      | Inr old \<Rightarrow> if is_completed old then Some (Inl (ProcessAlreadyCompleted process))
                   else map_option Inr (reconcile ?k))"
    by (simp split: sum.split)
qed

lemma job_apply_ok:
  assumes ok: "job_ok j"
  shows "job_result_ok j (job_apply x j)"
proof (cases x)
  case OpBegin
  have "jb_state j = JsPlanned \<Longrightarrow> job_ok (j\<lparr>jb_state := JsStarting\<rparr>)"
    using ok by (auto simp: job_ok_def)
  then show ?thesis
    by (auto simp: OpBegin begin_starting_def intro!: job_result_ok_guarded job_result_okI lifecycle.starts)
next
  case (OpAdd p)
  have "jb_state j = JsStarting \<Longrightarrow> job_ok (j\<lparr>jb_members := bt_insert p MsRunning (jb_members j)\<rparr>)"
    using ok by (auto simp: job_ok_def)
  then show ?thesis
    by (auto simp: OpAdd add_process_def intro!: job_result_ok_guarded job_result_okI lifecycle.stay)
next
  case (OpFinish pl)
  let ?k = "j\<lparr>jb_placement := Some pl, jb_state := state_of_placement pl\<rparr>"
  have "job_result_ok j (map_option Inr (reconcile ?k))" if "jb_state j = JsStarting" "jb_members j \<noteq> []"
    using that ok by (intro reconcile_ok) (auto simp: job_ok_def intro: lifecycle.publishes)
  then show ?thesis
    by (auto simp: OpFinish finish_starting_def intro!: job_result_ok_guarded)
next
  case (OpStopped p s)
  then show ?thesis by (simp add: observe_stopped_def) (rule observe_ok [OF ok]; simp)
next
  case (OpContinued p)
  then show ?thesis
    by (simp add: observe_continued_def) (rule observe_ok [OF ok]; simp split: job_state.split)
next
  case (OpCompleted p s)
  then show ?thesis by (simp add: observe_completed_def) (rule observe_ok [OF ok]; simp)
next
  case (OpMove pl)
  have "job_ok (j\<lparr>jb_placement := Some pl, jb_state := state_of_placement pl\<rparr>)"
    if s: "jb_state j = JsForeground \<or> jb_state j = JsBackground"
  proof -
    from s have "published (jb_state j)" by auto
    then obtain p where p: "jb_members j \<noteq> []" "jb_state j = aggregate p (member_states j)"
      using job_ok_stateD [OF ok] by metis
    with s have "MsRunning \<in> set (member_states j)" using aggregate_running [of p "member_states j"] by auto
    then have "state_of_placement pl = aggregate pl (member_states j)"
      by (auto simp: aggregate_def simp del: set_map intro: bexI [of _ MsRunning])
    with ok p s show ?thesis by (auto simp: job_ok_def)
  qed
  then show ?thesis
    by (auto simp: OpMove move_to_def intro!: job_result_ok_guarded job_result_okI lifecycle.moves)
next
  case (OpContinue pl)
  have "job_ok (j\<lparr>jb_members := map (\<lambda>(p, m). (p, if is_stopped m then MsRunning else m)) (jb_members j),
      jb_placement := Some pl, jb_state := state_of_placement pl, jb_notice := False\<rparr>)"
    if s: "is_stopped_state (jb_state j)"
  proof -
    from s obtain p where p: "jb_members j \<noteq> []" "jb_state j = aggregate p (member_states j)"
      using job_ok_stateD [OF ok published_stopped] by metis
    with s obtain i m where "(i, m) \<in> set (jb_members j)" "is_stopped m"
      using aggregate_stopped [of p "member_states j"] by auto
    then have run: "MsRunning \<in> set (map snd (map (\<lambda>(p, m). (p, if is_stopped m then MsRunning else m)) (jb_members j)))"
      by (force simp: image_iff)
    then have "state_of_placement pl =
        aggregate pl (map snd (map (\<lambda>(p, m). (p, if is_stopped m then MsRunning else m)) (jb_members j)))"
      by (auto simp: aggregate_def simp del: set_map map_map intro: bexI [of _ MsRunning])
    moreover have "map fst (map (\<lambda>(p, m). (p, if is_stopped m then MsRunning else m)) (jb_members j)) = map fst (jb_members j)"
      by (auto simp: case_prod_beta)
    ultimately show ?thesis
      using ok p by (auto simp: job_ok_def bt_sorted_def simp del: map_map)
  qed
  moreover have "lifecycle (jb_state j) (state_of_placement pl)" if s: "is_stopped_state (jb_state j)"
  proof -
    from s have "jb_state j \<noteq> JsCompleted" by auto
    with published_stopped [OF s] show ?thesis by (simp add: lifecycle.moves)
  qed
  ultimately show ?thesis
    by (simp add: OpContinue continue_in_def job_result_okI)
next
  case OpAcknowledge
  have "is_stopped_state (jb_state j) \<Longrightarrow> job_ok (j\<lparr>jb_notice := False\<rparr>)"
    using ok by (auto simp: job_ok_def)
  then show ?thesis
    by (auto simp: OpAcknowledge acknowledge_stopped_notice_def intro!: job_result_okI lifecycle.stay)
next
  case OpNotified
  have "job_ok (j\<lparr>jb_state := JsNotified, jb_notice := False\<rparr>)" if s: "jb_state j = JsCompleted"
  proof -
    from s have "published (jb_state j)" by simp
    then obtain p where "jb_state j = aggregate p (member_states j)"
      using job_ok_stateD [OF ok] by metis
    with s have "\<forall>m \<in> set (member_states j). is_completed m"
      by (auto simp: aggregate_def split: if_splits)
    with ok show ?thesis by (auto simp: job_ok_def)
  qed
  then show ?thesis
    by (auto simp: OpNotified mark_notified_def intro!: job_result_ok_guarded job_result_okI lifecycle.notifies)
next
  case OpReaped
  have "jb_state j = JsNotified \<Longrightarrow> job_ok (j\<lparr>jb_state := JsReaped\<rparr>)"
    using ok by (auto simp: job_ok_def)
  then show ?thesis
    by (auto simp: OpReaped mark_reaped_def intro!: job_result_ok_guarded job_result_okI lifecycle.reaps)
next
  case OpAbort
  have "jb_state j = JsStarting \<Longrightarrow> job_ok (j\<lparr>jb_state := JsReaped, jb_members := []\<rparr>)"
    using ok by (auto simp: job_ok_def)
  then show ?thesis
    by (auto simp: OpAbort abort_starting_after_cleanup_def intro!: job_result_ok_guarded job_result_okI lifecycle.aborts)
qed

lemma job_ok_new: "job_ok (job_new i)"
  by (simp add: job_ok_def job_new_def)

lemma job_ok_step: "job_ok j \<Longrightarrow> job_ok (job_step j x)"
  using job_apply_ok [of j x] by (auto simp: job_step_def job_result_ok_def split: option.splits sum.splits)

interpretation job: machine "job_new i" job_step job_ok for i
  by unfold_locales (auto intro: job_ok_new job_ok_step)

section \<open>Properties\<close>

text \<open>C30: the state of a job is the summary of its members. After any sequence of operations no
  operation can panic; a published job has members and a placement and its state is computed from the
  latest observations: completed when all members are, stopped when no member runs, running in its
  placement otherwise; and a completion stays announced until it is acknowledged.\<close>

theorem job_state_aggregates:
  assumes j: "j = run_ops job_step (job_new i) ops"
  shows "job_apply x j \<noteq> None \<and>
    (published (jb_state j) \<longrightarrow>
       jb_members j \<noteq> [] \<and> (\<exists>p. jb_placement j = Some p \<and> jb_state j = aggregate p (member_states j))) \<and>
    (jb_state j = JsCompleted \<longrightarrow> jb_notice j)"
proof -
  have ok: "job_ok j" unfolding j by (rule job.inv_run)
  with job_apply_ok [OF ok, of x] show ?thesis
    by (auto simp: job_ok_def job_result_ok_def)
qed

definition job_sample :: "nat job_op list" where
  "job_sample = [OpBegin, OpAdd 7, OpAdd 9, OpFinish PlForeground, OpStopped 7 19, OpCompleted 9 0]"

theorem job_state_aggregates_witness:
  "job_apply (OpContinue PlBackground) (run_ops job_step (job_new 1) job_sample) \<noteq> None \<and>
   jb_state (run_ops job_step (job_new 1) job_sample) = JsStopped PlForeground"
proof
  show "job_apply (OpContinue PlBackground) (run_ops job_step (job_new 1) job_sample) \<noteq> None"
    using job_state_aggregates [OF refl] by blast
  show "jb_state (run_ops job_step (job_new 1) job_sample) = JsStopped PlForeground"
    by code_simp
qed

text \<open>C31: the lifecycle. An accepted operation on a reachable job moves its state along the lifecycle:
  planned, starting, published (where only a completion is final), notified, reaped; the identity
  never changes.\<close>

theorem job_lifecycle:
  assumes "job_apply x (run_ops job_step (job_new i) ops) = Some (Inr j')"
  shows "lifecycle (jb_state (run_ops job_step (job_new i) ops)) (jb_state j') \<and>
         jb_id j' = jb_id (run_ops job_step (job_new i) ops)"
  using assms job_apply_ok [of "run_ops job_step (job_new i) ops" x, OF job.inv_run] by (auto simp: job_result_ok_def)

theorem job_lifecycle_witness:
  "lifecycle (jb_state (run_ops job_step (job_new 1) job_sample)) JsBackground"
proof -
  have "job_apply (OpContinue PlBackground) (run_ops job_step (job_new 1) job_sample) =
      Some (Inr \<lparr>jb_id = 1, jb_state = JsBackground, jb_placement = Some PlBackground,
                 jb_members = [(7, MsRunning), (9, MsCompleted 0)], jb_notice = False\<rparr>)"
    by code_simp
  from job_lifecycle [OF this] show ?thesis by simp
qed

end
