(* ===== verification/Key_Decoder.thy ===== *)
theory Key_Decoder
  imports Utf8
begin

text \<open>
  \<open>crates/flash-cli/src/terminal_editor/key.rs\<close>: the byte-at-a-time decoder of terminal input. A push
  returns the key that the byte completes, if any, and the decoder state after it. The theorems
  bound the buffered bytes for every input stream, decode typed text to its characters, and show
  that an arrow key is recognised whatever came before.
\<close>

section \<open>Data\<close>

definition MAX_PARAMETER_BYTES :: nat where
  "MAX_PARAMETER_BYTES = 16"

datatype key =
    KeyChar scalar
  | KeyBackspace
  | KeyDelete
  | KeyLeft
  | KeyRight
  | KeyUp
  | KeyDown
  | KeyHome
  | KeyEnd
  | KeyKillToEnd
  | KeyKillToStart
  | KeyKillWordBack
  | KeyComplete
  | KeyCancel
  | KeyEndOfFileOrDelete
  | KeyEnter

datatype key_state = KsGround | KsEscape | KsControlSequence | KsUtf8

record key_decoder =
  kd_state :: key_state
  kd_pending :: string
  kd_remaining :: nat

definition key_decoder_new :: key_decoder where
  "key_decoder_new = \<lparr>kd_state = KsGround, kd_pending = [], kd_remaining = 0\<rparr>"

definition kd_reset :: "key_decoder \<Rightarrow> key_decoder" where
  "kd_reset d = d\<lparr>kd_state := KsGround, kd_pending := [], kd_remaining := 0\<rparr>"

section \<open>Steps\<close>

abbreviation ESC :: char where "ESC \<equiv> CHR 0x1B"

definition leader_width :: "char \<Rightarrow> nat option" where
  "leader_width b =
     (let x = byte_val b in
      if 0xC2 \<le> x \<and> x \<le> 0xDF then Some 2
      else if 0xE0 \<le> x \<and> x \<le> 0xEF then Some 3
      else if 0xF0 \<le> x \<and> x \<le> 0xF4 then Some 4
      else None)"

definition begin_utf8 :: "key_decoder \<Rightarrow> char \<Rightarrow> key option \<times> key_decoder" where
  "begin_utf8 d b =
     (case leader_width b of
        None \<Rightarrow> (None, d)
      | Some width \<Rightarrow>
          (None, d\<lparr>kd_pending := [b], kd_remaining := width - 1, kd_state := KsUtf8\<rparr>))"

definition push_ground :: "key_decoder \<Rightarrow> char \<Rightarrow> key option \<times> key_decoder" where
  "push_ground d b =
     (let x = byte_val b in
      if x = 0x1B then (None, d\<lparr>kd_state := KsEscape\<rparr>)
      else if x = 0x01 then (Some KeyHome, d)
      else if x = 0x03 then (Some KeyCancel, d)
      else if x = 0x04 then (Some KeyEndOfFileOrDelete, d)
      else if x = 0x05 then (Some KeyEnd, d)
      else if x = 0x08 \<or> x = 0x7F then (Some KeyBackspace, d)
      else if x = 0x09 then (Some KeyComplete, d)
      else if x = 0x0A \<or> x = 0x0D then (Some KeyEnter, d)
      else if x = 0x0B then (Some KeyKillToEnd, d)
      else if x = 0x15 then (Some KeyKillToStart, d)
      else if x = 0x17 then (Some KeyKillWordBack, d)
      else if x \<le> 0x1F then (None, d)
      else if x \<le> 0x7F then (Some (KeyChar x), d)
      else begin_utf8 d b)"

definition push_utf8 :: "key_decoder \<Rightarrow> char \<Rightarrow> key option \<times> key_decoder" where
  "push_utf8 d b =
     (if \<not> (0x80 \<le> byte_val b \<and> byte_val b \<le> 0xBF) then push_ground (kd_reset d) b
      else
        (let d = d\<lparr>kd_pending := kd_pending d @ [b], kd_remaining := kd_remaining d - 1\<rparr>
         in if 0 < kd_remaining d then (None, d)
            else
              (let decoded =
                 (case from_utf8 (kd_pending d) of
                    Inl _ \<Rightarrow> None
                  | Inr t \<Rightarrow> (case chars t of [] \<Rightarrow> None | c # _ \<Rightarrow> Some c))
               in (map_option KeyChar decoded, kd_reset d))))"

definition push_escape :: "key_decoder \<Rightarrow> char \<Rightarrow> key option \<times> key_decoder" where
  "push_escape d b =
     (if b = CHR ''['' \<or> b = CHR ''O'' then (None, d\<lparr>kd_pending := [], kd_state := KsControlSequence\<rparr>)
      else if b = ESC then (None, d)
      else push_ground (kd_reset d) b)"

definition final_key :: "char \<Rightarrow> string \<Rightarrow> key option" where
  "final_key b parameters =
     (if b = CHR ''A'' then Some KeyUp
      else if b = CHR ''B'' then Some KeyDown
      else if b = CHR ''C'' then Some KeyRight
      else if b = CHR ''D'' then Some KeyLeft
      else if b = CHR ''H'' then Some KeyHome
      else if b = CHR ''F'' then Some KeyEnd
      else if b = CHR ''~'' \<and> (parameters = ''1'' \<or> parameters = ''7'') then Some KeyHome
      else if b = CHR ''~'' \<and> (parameters = ''4'' \<or> parameters = ''8'') then Some KeyEnd
      else if b = CHR ''~'' \<and> parameters = ''3'' then Some KeyDelete
      else None)"

definition is_parameter :: "char \<Rightarrow> bool" where
  "is_parameter b \<longleftrightarrow> is_ascii_digit b \<or> b = CHR '';''"

definition push_control_sequence :: "key_decoder \<Rightarrow> char \<Rightarrow> key option \<times> key_decoder" where
  "push_control_sequence d b =
     (if b = ESC then (None, d\<lparr>kd_pending := [], kd_state := KsEscape\<rparr>)
      else if is_parameter b then
        (if MAX_PARAMETER_BYTES \<le> length (kd_pending d) then (None, kd_reset d)
         else (None, d\<lparr>kd_pending := kd_pending d @ [b]\<rparr>))
      else (final_key b (kd_pending d), kd_reset d))"

definition kd_push :: "key_decoder \<Rightarrow> char \<Rightarrow> key option \<times> key_decoder" where
  "kd_push d b =
     (case kd_state d of
        KsGround \<Rightarrow> push_ground d b
      | KsEscape \<Rightarrow> push_escape d b
      | KsControlSequence \<Rightarrow> push_control_sequence d b
      | KsUtf8 \<Rightarrow> push_utf8 d b)"

text \<open>A stream of bytes: the keys in order and the final state.\<close>

fun kd_run :: "key_decoder \<Rightarrow> string \<Rightarrow> key list \<times> key_decoder" where
  "kd_run d [] = ([], d)"
| "kd_run d (b # bs) =
     (case kd_push d b of (k, d') \<Rightarrow>
       (case kd_run d' bs of (ks, d'') \<Rightarrow> ((case k of None \<Rightarrow> ks | Some k \<Rightarrow> k # ks), d'')))"

lemma kd_run_append:
  "kd_run d (s @ t) = (case kd_run d s of (ks, d') \<Rightarrow> case kd_run d' t of (ks', d'') \<Rightarrow> (ks @ ks', d''))"
  by (induction s arbitrary: d) (auto split: prod.splits option.splits)

section \<open>The invariant of the decoder\<close>

definition kd_ok :: "key_decoder \<Rightarrow> bool" where
  "kd_ok d \<longleftrightarrow>
     (case kd_state d of
        KsGround \<Rightarrow> kd_pending d = [] \<and> kd_remaining d = 0
      | KsEscape \<Rightarrow> kd_pending d = [] \<and> kd_remaining d = 0
      | KsControlSequence \<Rightarrow>
          length (kd_pending d) \<le> MAX_PARAMETER_BYTES \<and> list_all is_parameter (kd_pending d) \<and> kd_remaining d = 0
      | KsUtf8 \<Rightarrow>
          (\<exists>b bs. kd_pending d = b # bs \<and> leader_width b = Some (length (kd_pending d) + kd_remaining d) \<and>
             list_all is_cont bs \<and> 0 < kd_remaining d))"

lemma kd_ok_new: "kd_ok key_decoder_new"
  by (simp add: kd_ok_def key_decoder_new_def)

lemma kd_ok_reset: "kd_ok (kd_reset d)"
  by (simp add: kd_ok_def kd_reset_def)

lemma leader_width_bounds: "leader_width b = Some w \<Longrightarrow> 2 \<le> w \<and> w \<le> 4"
  by (auto simp: leader_width_def Let_def split: if_splits)

lemma kd_ok_ground: "kd_pending d = [] \<Longrightarrow> kd_remaining d = 0 \<Longrightarrow> kd_state d = KsGround \<Longrightarrow> kd_ok (snd (push_ground d b))"
  by (auto simp: push_ground_def begin_utf8_def kd_ok_def Let_def split: option.splits dest: leader_width_bounds)

lemma kd_ok_ground_reset: "kd_ok (snd (push_ground (kd_reset d) b))"
  by (rule kd_ok_ground) (simp_all add: kd_reset_def)

lemma kd_ok_push:
  assumes "kd_ok d"
  shows "kd_ok (snd (kd_push d b))"
proof (cases "kd_state d")
  case KsGround
  with assms have "kd_pending d = []" "kd_remaining d = 0" by (simp_all add: kd_ok_def)
  with KsGround show ?thesis by (simp add: kd_push_def kd_ok_ground)
next
  case KsEscape
  with assms show ?thesis
    by (simp add: kd_push_def push_escape_def kd_ok_ground_reset) (simp add: kd_ok_def)
next
  case KsControlSequence
  with assms show ?thesis
    by (simp add: kd_push_def push_control_sequence_def kd_ok_reset) (auto simp: kd_ok_def)
next
  case KsUtf8
  with assms show ?thesis
    by (auto simp: kd_push_def push_utf8_def Let_def kd_ok_ground_reset kd_ok_reset)
       (auto simp: kd_ok_def is_cont_def)
qed

interpretation key_decoder: machine key_decoder_new "\<lambda>d b. snd (kd_push d b)" kd_ok
  by unfold_locales (auto intro: kd_ok_new kd_ok_push)

lemma snd_kd_run: "snd (kd_run d s) = run_ops (\<lambda>d b. snd (kd_push d b)) d s"
  by (induction s arbitrary: d) (simp_all add: case_prod_beta)

lemma kd_ok_run: "kd_ok (snd (kd_run key_decoder_new s))"
  unfolding snd_kd_run by (rule key_decoder.inv_run)

section \<open>Typed text\<close>

definition typed :: "scalar \<Rightarrow> bool" where
  "typed c \<longleftrightarrow> is_scalar c \<and> 0x20 \<le> c \<and> c \<noteq> 0x7F"

lemma leader_width_encode:
  assumes "is_scalar c" "0x80 \<le> c" "utf8_encode c = b # bs"
  shows "leader_width b = Some (Suc (length bs)) \<and> list_all is_cont bs \<and> 0x80 \<le> byte_val b \<and> \<not> is_cont b"
proof -
  have "c div 64 < 32" if "c < 0x800" using that by simp
  moreover have "2 \<le> c div 64" using assms(2) by simp
  moreover have "c div 4096 < 16" if "c < 0x10000" using that by simp
  moreover have "c div 262144 < 5" using assms(1) by (auto simp: is_scalar_def)
  ultimately show ?thesis
    using assms(2,3) by (auto simp: utf8_encode_def leader_width_def is_cont_def Let_def split: if_splits)
qed

lemma kd_run_continuation:
  assumes "list_all is_cont bs" "bs \<noteq> []"
  shows "kd_run \<lparr>kd_state = KsUtf8, kd_pending = p, kd_remaining = length bs\<rparr> bs =
    (case from_utf8 (p @ bs) of Inl _ \<Rightarrow> [] | Inr t \<Rightarrow> (case chars t of [] \<Rightarrow> [] | c # _ \<Rightarrow> [KeyChar c]),
     key_decoder_new)"
  using assms
proof (induction bs arbitrary: p)
  case (Cons b bs)
  from Cons.prems have b: "0x80 \<le> byte_val b" "byte_val b \<le> 0xBF" by (auto simp: is_cont_def)
  show ?case
  proof (cases "bs = []")
    case True
    with b show ?thesis
      by (simp add: kd_push_def push_utf8_def kd_reset_def key_decoder_new_def split: sum.split list.split)
  next
    case False
    with Cons b show ?thesis
      by (simp add: kd_push_def push_utf8_def)
  qed
qed simp

lemma kd_run_typed:
  assumes "typed c"
  shows "kd_run key_decoder_new (utf8_encode c) = ([KeyChar c], key_decoder_new)"
proof (cases "c < 0x80")
  case True
  with assms have "byte_val (char_of c) = c" by simp
  with True assms show ?thesis
    by (simp add: utf8_encode_def kd_push_def push_ground_def key_decoder_new_def typed_def)
next
  case False
  obtain b bs where e: "utf8_encode c = b # bs" by (metis utf8_encode_neq_Nil list.exhaust)
  from assms have s: "is_scalar c" by (simp add: typed_def)
  from leader_width_encode [OF s _ e] False
  have l: "leader_width b = Some (Suc (length bs))" "list_all is_cont bs" "0x80 \<le> byte_val b" by auto
  then have ne: "bs \<noteq> []" using leader_width_bounds by fastforce
  have p: "kd_push key_decoder_new b = (None, \<lparr>kd_state = KsUtf8, kd_pending = [b], kd_remaining = length bs\<rparr>)"
    using l by (simp add: kd_push_def push_ground_def begin_utf8_def key_decoder_new_def)
  have "from_utf8 (b # bs) = Inr (b # bs)" "chars (b # bs) = [c]"
    using s utf8_valid_encode_single [OF s] chars_encode_single [OF s] e
    by (simp_all add: from_utf8_def utf8_valid_def)
  then show ?thesis by (simp add: e p kd_run_continuation [OF l(2) ne])
qed

lemma kd_run_text:
  "\<forall>c \<in> set cs. typed c \<Longrightarrow> kd_run key_decoder_new (string_of_scalars cs) = (map KeyChar cs, key_decoder_new)"
  by (induction cs) (simp_all add: kd_run_append kd_run_typed)

section \<open>Recovery\<close>

lemma kd_push_ESC:
  assumes "kd_ok d"
  shows "kd_push d ESC = (None, \<lparr>kd_state = KsEscape, kd_pending = [], kd_remaining = 0\<rparr>)"
proof -
  have x: "byte_val ESC = 0x1B" by code_simp
  show ?thesis
    using assms by (cases d)
      (auto simp: kd_push_def kd_ok_def push_ground_def push_escape_def push_control_sequence_def
        push_utf8_def kd_reset_def x split: key_state.splits)
qed

section \<open>Properties\<close>

text \<open>C32: the buffered input is bounded. Whatever bytes a terminal sends, the decoder never holds more
  than 16 pending bytes; inside a character it waits for at least one more byte, so the decrement
  of the remaining count never underflows.\<close>

theorem pending_bounded:
  assumes d: "d = snd (kd_run key_decoder_new s)"
  shows "length (kd_pending d) \<le> MAX_PARAMETER_BYTES \<and>
         (kd_state d = KsUtf8 \<longrightarrow> 0 < kd_remaining d \<and> length (kd_pending d) + kd_remaining d \<le> 4)"
proof -
  have "kd_ok d" unfolding d by (rule kd_ok_run)
  then show ?thesis
    by (cases "kd_state d") (auto simp: kd_ok_def MAX_PARAMETER_BYTES_def dest: leader_width_bounds)
qed

theorem pending_bounded_witness:
  "length (kd_pending (snd (kd_run key_decoder_new (ESC # ''[1;2;3;4;5;6;7;8'')))) \<le> MAX_PARAMETER_BYTES"
  using pending_bounded [OF refl] by blast

text \<open>C33: typing is lossless. The UTF-8 bytes of any text without control characters decode to exactly
  its characters, one key each, and leave the decoder in its initial state.\<close>

theorem typed_text_roundtrip:
  assumes "\<forall>c \<in> set cs. is_scalar c \<and> 0x20 \<le> c \<and> c \<noteq> 0x7F"
  shows "kd_run key_decoder_new (string_of_scalars cs) = (map KeyChar cs, key_decoder_new)"
  using assms by (intro kd_run_text) (simp add: typed_def)

theorem typed_text_roundtrip_witness:
  "kd_run key_decoder_new (string_of_scalars [0x68, 0xE9, 0x20AC, 0x1F600]) =
     (map KeyChar [0x68, 0xE9, 0x20AC, 0x1F600], key_decoder_new)"
  by (rule typed_text_roundtrip) (simp add: is_scalar_def)

text \<open>C34: recovery. After any input, even inside an unfinished character or sequence, an escape
  sequence of an arrow key is recognised as that key and the decoder is back in its initial state.\<close>

theorem arrow_recognised:
  assumes "(b, k) \<in> {(CHR ''A'', KeyUp), (CHR ''B'', KeyDown), (CHR ''C'', KeyRight), (CHR ''D'', KeyLeft)}"
  shows "kd_run key_decoder_new (s @ [ESC, CHR ''['', b]) =
    (fst (kd_run key_decoder_new s) @ [k], key_decoder_new)"
proof -
  obtain ks d where r: "kd_run key_decoder_new s = (ks, d)" by (cases "kd_run key_decoder_new s")
  then have "kd_ok d" using kd_ok_run [of s] by simp
  then have e: "kd_push d ESC = (None, \<lparr>kd_state = KsEscape, kd_pending = [], kd_remaining = 0\<rparr>)"
    by (rule kd_push_ESC)
  have "\<not> is_parameter b" "b \<noteq> ESC" "final_key b [] = Some k"
    using assms by (auto simp: is_parameter_def is_ascii_digit_def byte_val_def final_key_def)
  with e show ?thesis
    by (simp add: kd_run_append r)
       (simp add: kd_push_def push_escape_def push_control_sequence_def kd_reset_def key_decoder_new_def)
qed

theorem arrow_recognised_witness:
  "kd_run key_decoder_new ([char_of (0xE2 :: nat)] @ [ESC, CHR ''['', CHR ''A'']) =
    (fst (kd_run key_decoder_new [char_of (0xE2 :: nat)]) @ [KeyUp], key_decoder_new)"
  by (rule arrow_recognised) simp

end
