(* ===== verification/Char_Classes.thy ===== *)
theory Char_Classes
  imports Utf8
begin

text \<open>
  The Unicode classes of the standard library the sources use: \<open>char::is_whitespace\<close> (the property
  \<open>White_Space\<close>) and \<open>char::is_control\<close> (general category \<open>Cc\<close>); \<open>String::replace_range\<close>; and the
  assumption on the grapheme segmentation of the crate \<open>unicode_segmentation\<close>.
\<close>

definition is_whitespace :: "scalar \<Rightarrow> bool" where
  "is_whitespace c \<longleftrightarrow>
     (9 \<le> c \<and> c \<le> 13) \<or> c = 0x20 \<or> c = 0x85 \<or> c = 0xA0 \<or> c = 0x1680 \<or> (0x2000 \<le> c \<and> c \<le> 0x200A)
     \<or> c = 0x2028 \<or> c = 0x2029 \<or> c = 0x202F \<or> c = 0x205F \<or> c = 0x3000"

definition is_control :: "scalar \<Rightarrow> bool" where
  "is_control c \<longleftrightarrow> c < 0x20 \<or> (0x7F \<le> c \<and> c < 0xA0)"

text \<open>\<open>text.replace_range(a..b, value)\<close>: \<open>None\<close> is the panic outside character boundaries.\<close>

definition replace_range :: "string \<Rightarrow> nat \<Rightarrow> nat \<Rightarrow> string \<Rightarrow> string option" where
  "replace_range s a b v =
     (if a \<le> b \<and> is_char_boundary s a \<and> is_char_boundary s b then Some (take a s @ v @ drop b s) else None)"

text \<open>
  A segmentation cuts a text into nonempty pieces of whole characters. The code relies on this of
  \<open>graphemes(true)\<close>; one piece per character satisfies it.
\<close>

definition segmentation :: "(string \<Rightarrow> string list) \<Rightarrow> bool" where
  "segmentation g \<longleftrightarrow>
     (\<forall>t. utf8_valid t \<longrightarrow> concat (g t) = t \<and> (\<forall>p \<in> set (g t). p \<noteq> [] \<and> utf8_valid p))"

definition char_segments :: "string \<Rightarrow> string list" where
  "char_segments t = map utf8_encode (chars t)"

lemma segmentation_chars: "segmentation char_segments"
  unfolding segmentation_def char_segments_def
proof (intro allI impI conjI)
  fix t assume t: "utf8_valid t"
  have "concat (map utf8_encode (chars t)) = string_of_scalars (chars t)"
    by (simp add: string_of_scalars_def)
  then show "concat (map utf8_encode (chars t)) = t" using t by simp
  show "\<forall>p \<in> set (map utf8_encode (chars t)). p \<noteq> [] \<and> utf8_valid p"
    using t by (auto dest: chars_scalar)
qed

lemma segmentationD:
  assumes "segmentation g" "utf8_valid t"
  shows "concat (g t) = t" "p \<in> set (g t) \<Longrightarrow> p \<noteq> [] \<and> utf8_valid p"
  using assms by (auto simp: segmentation_def)

lemma segmentation_Nil:
  assumes "segmentation g" "utf8_valid t"
  shows "g t = [] \<longleftrightarrow> t = []"
proof
  assume "g t = []"
  then show "t = []" using segmentationD(1) [OF assms] by simp
next
  assume "t = []"
  show "g t = []"
  proof (rule ccontr)
    assume "g t \<noteq> []"
    then obtain p where "p \<in> set (g t)" by (cases "g t") auto
    moreover from this have "p \<noteq> []" using segmentationD(2) [OF assms] by blast
    ultimately show False using segmentationD(1) [OF assms] \<open>t = []\<close> by auto
  qed
qed

lemma utf8_valid_concat: "(\<And>p. p \<in> set ps \<Longrightarrow> utf8_valid p) \<Longrightarrow> utf8_valid (concat ps)"
proof (induction ps)
  case (Cons p ps)
  then have "utf8_valid p" "utf8_valid (concat ps)" by simp_all
  then show ?case by (simp add: utf8_valid_append)
qed simp

end
