(* ===== verification/Edit_Buffer.thy ===== *)
theory Edit_Buffer
  imports Char_Classes
begin

text \<open>
  \<open>crates/flash-cli/src/terminal_editor/buffer.rs\<close>: the text being edited and its cursor, a byte
  offset. \<open>g\<close> is \<open>graphemes(true)\<close> and \<open>w\<close> is \<open>UnicodeWidthStr::width\<close> of the crates
  \<open>unicode_segmentation\<close> and \<open>unicode_width\<close>. \<open>None\<close> is a panic (an index off a character boundary).
  The abstract view is a zipper: the text before and after the cursor.
\<close>

section \<open>Data\<close>

record edit_buffer =
  eb_text :: string
  eb_cursor :: nat

type_synonym segmenter = "string \<Rightarrow> string list"

definition edit_buffer_new :: edit_buffer where
  "edit_buffer_new = \<lparr>eb_text = [], eb_cursor = 0\<rparr>"

definition eb_from_text :: "string \<Rightarrow> edit_buffer" where
  "eb_from_text t = \<lparr>eb_text = t, eb_cursor = length t\<rparr>"

definition eb_before :: "edit_buffer \<Rightarrow> string option" where
  "eb_before b = slice_str (eb_text b) 0 (eb_cursor b)"

definition eb_after :: "edit_buffer \<Rightarrow> string option" where
  "eb_after b = slice_str (eb_text b) (eb_cursor b) (length (eb_text b))"

section \<open>Boundaries\<close>

definition cursor_chars :: "segmenter \<Rightarrow> edit_buffer \<Rightarrow> nat option" where
  "cursor_chars g b = map_option (\<lambda>t. length (g t)) (eb_before b)"

definition previous_boundary :: "segmenter \<Rightarrow> edit_buffer \<Rightarrow> nat option option" where
  "previous_boundary g b =
     map_option (\<lambda>t. if g t = [] then None else Some (length (concat (butlast (g t))))) (eb_before b)"

definition next_boundary :: "segmenter \<Rightarrow> edit_buffer \<Rightarrow> nat option option" where
  "next_boundary g b =
     map_option (\<lambda>t. case g t of [] \<Rightarrow> None | p # _ \<Rightarrow> Some (eb_cursor b + length p)) (eb_after b)"

definition previous_character :: "edit_buffer \<Rightarrow> scalar option option" where
  "previous_character b =
     map_option (\<lambda>t. if chars t = [] then None else Some (last (chars t))) (eb_before b)"

definition line_start_of :: "string \<Rightarrow> nat" where
  "line_start_of t = (case rposition (\<lambda>x. x = NL) t of None \<Rightarrow> 0 | Some i \<Rightarrow> Suc i)"

definition line_end_of :: "string \<Rightarrow> nat" where
  "line_end_of t = (case position (\<lambda>x. x = NL) t of None \<Rightarrow> length t | Some i \<Rightarrow> i)"

definition line_start :: "edit_buffer \<Rightarrow> nat option" where
  "line_start b = map_option line_start_of (eb_before b)"

definition line_end :: "edit_buffer \<Rightarrow> nat option" where
  "line_end b = map_option (\<lambda>t. eb_cursor b + line_end_of t) (eb_after b)"

definition current_line :: "edit_buffer \<Rightarrow> (string \<times> nat \<times> bool) option" where
  "current_line b = do {
     start \<leftarrow> line_start b;
     stop \<leftarrow> line_end b;
     t \<leftarrow> slice_str (eb_text b) start stop;
     Some (t, eb_cursor b - start, start = 0)
   }"

text \<open>\<open>boundary_at_display_column\<close>: the last piece end whose columns stay within the target.\<close>

fun column_scan :: "(string \<Rightarrow> nat) \<Rightarrow> nat \<Rightarrow> nat \<Rightarrow> nat \<Rightarrow> nat \<Rightarrow> nat \<Rightarrow> string list \<Rightarrow> nat" where
  "column_scan w start target boundary column offset [] = boundary"
| "column_scan w start target boundary column offset (p # ps) =
     (if target < column + w p then boundary
      else column_scan w start target (start + offset + length p) (column + w p) (offset + length p) ps)"

definition boundary_at_display_column ::
  "segmenter \<Rightarrow> (string \<Rightarrow> nat) \<Rightarrow> string \<Rightarrow> nat \<Rightarrow> nat \<Rightarrow> nat \<Rightarrow> nat option" where
  "boundary_at_display_column g w t start stop target =
     map_option (\<lambda>s. column_scan w start target start 0 0 (g s)) (slice_str t start stop)"

section \<open>Operations\<close>

definition eb_insert :: "scalar \<Rightarrow> edit_buffer \<Rightarrow> edit_buffer option" where
  "eb_insert c b =
     (if is_char_boundary (eb_text b) (eb_cursor b) then
        Some \<lparr>eb_text = take (eb_cursor b) (eb_text b) @ utf8_encode c @ drop (eb_cursor b) (eb_text b),
              eb_cursor = eb_cursor b + len_utf8 c\<rparr>
      else None)"

definition eb_replace :: "nat \<Rightarrow> nat \<Rightarrow> string \<Rightarrow> edit_buffer \<Rightarrow> (bool \<times> edit_buffer) option" where
  "eb_replace start stop v b =
     (if stop < start \<or> length (eb_text b) < stop \<or> \<not> is_char_boundary (eb_text b) start
         \<or> \<not> is_char_boundary (eb_text b) stop
      then Some (False, b)
      else do {
        t \<leftarrow> replace_range (eb_text b) start stop v;
        Some (True, \<lparr>eb_text = t, eb_cursor = start + length v\<rparr>)
      })"

definition eb_backspace :: "segmenter \<Rightarrow> edit_buffer \<Rightarrow> (bool \<times> edit_buffer) option" where
  "eb_backspace g b = do {
     p \<leftarrow> previous_boundary g b;
     case p of
       None \<Rightarrow> Some (False, b)
     | Some start \<Rightarrow> do {
         t \<leftarrow> replace_range (eb_text b) start (eb_cursor b) [];
         Some (True, \<lparr>eb_text = t, eb_cursor = start\<rparr>)
       }
   }"

definition eb_delete :: "segmenter \<Rightarrow> edit_buffer \<Rightarrow> (bool \<times> edit_buffer) option" where
  "eb_delete g b = do {
     n \<leftarrow> next_boundary g b;
     case n of
       None \<Rightarrow> Some (False, b)
     | Some stop \<Rightarrow> do {
         t \<leftarrow> replace_range (eb_text b) (eb_cursor b) stop [];
         Some (True, b\<lparr>eb_text := t\<rparr>)
       }
   }"

definition eb_left :: "segmenter \<Rightarrow> edit_buffer \<Rightarrow> (bool \<times> edit_buffer) option" where
  "eb_left g b = do {
     p \<leftarrow> previous_boundary g b;
     Some (case p of None \<Rightarrow> (False, b) | Some start \<Rightarrow> (True, b\<lparr>eb_cursor := start\<rparr>))
   }"

definition eb_right :: "segmenter \<Rightarrow> edit_buffer \<Rightarrow> (bool \<times> edit_buffer) option" where
  "eb_right g b = do {
     n \<leftarrow> next_boundary g b;
     Some (case n of None \<Rightarrow> (False, b) | Some stop \<Rightarrow> (True, b\<lparr>eb_cursor := stop\<rparr>))
   }"

definition eb_home :: "edit_buffer \<Rightarrow> edit_buffer option" where
  "eb_home b = map_option (\<lambda>i. b\<lparr>eb_cursor := i\<rparr>) (line_start b)"

definition eb_end :: "edit_buffer \<Rightarrow> edit_buffer option" where
  "eb_end b = map_option (\<lambda>i. b\<lparr>eb_cursor := i\<rparr>) (line_end b)"

definition eb_up :: "segmenter \<Rightarrow> (string \<Rightarrow> nat) \<Rightarrow> edit_buffer \<Rightarrow> (bool \<times> edit_buffer) option" where
  "eb_up g w b = do {
     start \<leftarrow> line_start b;
     if start = 0 then Some (False, b)
     else do {
       above \<leftarrow> slice_str (eb_text b) 0 (start - 1);
       t \<leftarrow> slice_str (eb_text b) start (eb_cursor b);
       cursor \<leftarrow> boundary_at_display_column g w (eb_text b) (line_start_of above) (start - 1) (w t);
       Some (True, b\<lparr>eb_cursor := cursor\<rparr>)
     }
   }"

definition eb_down :: "segmenter \<Rightarrow> (string \<Rightarrow> nat) \<Rightarrow> edit_buffer \<Rightarrow> (bool \<times> edit_buffer) option" where
  "eb_down g w b = do {
     stop \<leftarrow> line_end b;
     if stop = length (eb_text b) then Some (False, b)
     else do {
       below \<leftarrow> slice_str (eb_text b) (stop + 1) (length (eb_text b));
       start \<leftarrow> line_start b;
       t \<leftarrow> slice_str (eb_text b) start (eb_cursor b);
       cursor \<leftarrow> boundary_at_display_column g w (eb_text b) (stop + 1) (stop + 1 + line_end_of below) (w t);
       Some (True, b\<lparr>eb_cursor := cursor\<rparr>)
     }
   }"

definition eb_kill_to_end :: "edit_buffer \<Rightarrow> edit_buffer option" where
  "eb_kill_to_end b =
     (if length (eb_text b) < eb_cursor b then Some b
      else if is_char_boundary (eb_text b) (eb_cursor b) then
        Some (b\<lparr>eb_text := take (eb_cursor b) (eb_text b)\<rparr>)
      else None)"

definition eb_kill_to_start :: "edit_buffer \<Rightarrow> edit_buffer option" where
  "eb_kill_to_start b =
     map_option (\<lambda>t. \<lparr>eb_text = t, eb_cursor = 0\<rparr>) (replace_range (eb_text b) 0 (eb_cursor b) [])"

text \<open>The loops of \<open>kill_word_back\<close> may not end for an arbitrary \<open>g\<close>; \<open>None\<close> is then the result.\<close>

partial_function (option) kill_while :: "segmenter \<Rightarrow> (scalar \<Rightarrow> bool) \<Rightarrow> edit_buffer \<Rightarrow> edit_buffer option" where
  "kill_while g p b =
     Option.bind (previous_character b) (\<lambda>c.
       case c of
         None \<Rightarrow> Some b
       | Some x \<Rightarrow>
           if p x then Option.bind (eb_backspace g b) (\<lambda>r. kill_while g p (snd r)) else Some b)"

definition eb_kill_word_back :: "segmenter \<Rightarrow> edit_buffer \<Rightarrow> edit_buffer option" where
  "eb_kill_word_back g b = do {
     b1 \<leftarrow> kill_while g is_whitespace b;
     kill_while g (\<lambda>x. \<not> is_whitespace x) b1
   }"

definition eb_clear :: "edit_buffer \<Rightarrow> edit_buffer" where
  "eb_clear b = \<lparr>eb_text = [], eb_cursor = 0\<rparr>"

datatype edit_op =
    EdInsert scalar
  | EdReplace nat nat string
  | EdBackspace
  | EdDelete
  | EdLeft
  | EdRight
  | EdHome
  | EdEnd
  | EdUp
  | EdDown
  | EdKillToEnd
  | EdKillToStart
  | EdKillWordBack
  | EdClear

fun eb_apply :: "segmenter \<Rightarrow> (string \<Rightarrow> nat) \<Rightarrow> edit_op \<Rightarrow> edit_buffer \<Rightarrow> edit_buffer option" where
  "eb_apply g w (EdInsert c) b = eb_insert c b"
| "eb_apply g w (EdReplace i j v) b = map_option snd (eb_replace i j v b)"
| "eb_apply g w EdBackspace b = map_option snd (eb_backspace g b)"
| "eb_apply g w EdDelete b = map_option snd (eb_delete g b)"
| "eb_apply g w EdLeft b = map_option snd (eb_left g b)"
| "eb_apply g w EdRight b = map_option snd (eb_right g b)"
| "eb_apply g w EdHome b = eb_home b"
| "eb_apply g w EdEnd b = eb_end b"
| "eb_apply g w EdUp b = map_option snd (eb_up g w b)"
| "eb_apply g w EdDown b = map_option snd (eb_down g w b)"
| "eb_apply g w EdKillToEnd b = eb_kill_to_end b"
| "eb_apply g w EdKillToStart b = eb_kill_to_start b"
| "eb_apply g w EdKillWordBack b = eb_kill_word_back g b"
| "eb_apply g w EdClear b = Some (eb_clear b)"

text \<open>The arguments the editor passes: scalar values and valid texts.\<close>

fun op_ok :: "edit_op \<Rightarrow> bool" where
  "op_ok (EdInsert c) \<longleftrightarrow> is_scalar c"
| "op_ok (EdReplace _ _ v) \<longleftrightarrow> utf8_valid v"
| "op_ok _ \<longleftrightarrow> True"

section \<open>The zipper\<close>

type_synonym zipper = "string \<times> string"

definition at :: "string \<Rightarrow> string \<Rightarrow> edit_buffer" where
  "at l r = \<lparr>eb_text = l @ r, eb_cursor = length l\<rparr>"

definition eb_ok :: "edit_buffer \<Rightarrow> bool" where
  "eb_ok b \<longleftrightarrow> (\<exists>l r. b = at l r \<and> utf8_valid l \<and> utf8_valid r)"

definition zip_of :: "edit_buffer \<Rightarrow> zipper" where
  "zip_of b = (take (eb_cursor b) (eb_text b), drop (eb_cursor b) (eb_text b))"

abbreviation after_last_newline :: "string \<Rightarrow> string" where
  "after_last_newline l \<equiv> rev (takeWhile (\<lambda>x. x \<noteq> NL) (rev l))"

abbreviation up_to_last_newline :: "string \<Rightarrow> string" where
  "up_to_last_newline l \<equiv> rev (dropWhile (\<lambda>x. x \<noteq> NL) (rev l))"

fun zip_apply :: "segmenter \<Rightarrow> edit_op \<Rightarrow> zipper \<Rightarrow> zipper" where
  "zip_apply g (EdInsert c) (l, r) = (l @ utf8_encode c, r)"
| "zip_apply g EdBackspace (l, r) = (concat (butlast (g l)), r)"
| "zip_apply g EdDelete (l, r) = (l, concat (tl (g r)))"
| "zip_apply g EdLeft (l, r) = (concat (butlast (g l)), if l = [] then r else last (g l) @ r)"
| "zip_apply g EdRight (l, r) = (if r = [] then l else l @ hd (g r), concat (tl (g r)))"
| "zip_apply g EdHome (l, r) = (up_to_last_newline l, after_last_newline l @ r)"
| "zip_apply g EdEnd (l, r) = (l @ takeWhile (\<lambda>x. x \<noteq> NL) r, dropWhile (\<lambda>x. x \<noteq> NL) r)"
| "zip_apply g EdKillToEnd (l, r) = (l, [])"
| "zip_apply g EdKillToStart (l, r) = ([], r)"
| "zip_apply g EdClear (l, r) = ([], [])"
| "zip_apply g _ z = z"

text \<open>The operations with a zipper counterpart.\<close>

fun is_zip_op :: "edit_op \<Rightarrow> bool" where
  "is_zip_op (EdReplace _ _ _) \<longleftrightarrow> False"
| "is_zip_op EdUp \<longleftrightarrow> False"
| "is_zip_op EdDown \<longleftrightarrow> False"
| "is_zip_op EdKillWordBack \<longleftrightarrow> False"
| "is_zip_op _ \<longleftrightarrow> True"

section \<open>Slices of a buffer\<close>

declare slice_str_eq_Some [simp del]

lemma at_simps [simp]: "eb_text (at l r) = l @ r" "eb_cursor (at l r) = length l"
  by (simp_all add: at_def)

lemma zip_of_at [simp]: "zip_of (at l r) = (l, r)"
  by (simp add: zip_of_def)

lemma eb_ok_at: "utf8_valid l \<Longrightarrow> utf8_valid r \<Longrightarrow> eb_ok (at l r)"
  by (auto simp: eb_ok_def)

lemma atI: "t = l @ r \<Longrightarrow> n = length l \<Longrightarrow> \<lparr>eb_text = t, eb_cursor = n\<rparr> = at l r"
  by (simp add: at_def)

lemma at_update: "t = l' @ r' \<Longrightarrow> n = length l' \<Longrightarrow> (at l r)\<lparr>eb_text := t, eb_cursor := n\<rparr> = at l' r'"
  "l @ r = l' @ r' \<Longrightarrow> n = length l' \<Longrightarrow> (at l r)\<lparr>eb_cursor := n\<rparr> = at l' r'"
  "(at l r)\<lparr>eb_text := l @ r''\<rparr> = at l r''"
  by (simp_all add: at_def)

lemma boundary_at: "utf8_valid r \<Longrightarrow> t = l @ r \<Longrightarrow> n = length l \<Longrightarrow> is_char_boundary t n"
  by (simp add: is_char_boundary_valid_append)

lemma slice_at:
  assumes "utf8_valid m" "utf8_valid r" "t = l @ m @ r" "i = length l" "j = length l + length m"
  shows "slice_str t i j = Some m"
proof -
  have "is_char_boundary t i"
    by (rule boundary_at [of "m @ r" t l]) (use assms in \<open>simp_all add: utf8_valid_append\<close>)
  moreover have "is_char_boundary t j"
    by (rule boundary_at [of r t "l @ m"]) (use assms in simp_all)
  ultimately show ?thesis using assms by (simp add: cut_def slice_str_eq_Some)
qed

lemma replace_range_at:
  assumes "utf8_valid m" "utf8_valid r" "t = l @ m @ r" "i = length l" "j = length l + length m"
  shows "replace_range t i j v = Some (l @ v @ r)"
proof -
  have "is_char_boundary t i"
    by (rule boundary_at [of "m @ r" t l]) (use assms in \<open>simp_all add: utf8_valid_append\<close>)
  moreover have "is_char_boundary t j"
    by (rule boundary_at [of r t "l @ m"]) (use assms in simp_all)
  ultimately show ?thesis using assms by (simp add: replace_range_def)
qed

lemma eb_before_at: "utf8_valid l \<Longrightarrow> utf8_valid r \<Longrightarrow> eb_before (at l r) = Some l"
  unfolding eb_before_def by (rule slice_at [of l r _ "[]"]) simp_all

lemma eb_after_at: "utf8_valid r \<Longrightarrow> eb_after (at l r) = Some r"
  unfolding eb_after_def by (rule slice_at [of r "[]" _ l]) simp_all

text \<open>A text splits at its last and its first newline into valid texts.\<close>

lemma valid_parts:
  assumes "utf8_valid (u @ v)" "u = [] \<or> last u = NL \<or> v = [] \<or> hd v = NL"
  shows "utf8_valid u \<and> utf8_valid v"
proof -
  have "is_char_boundary (u @ v) (length u)"
  proof (cases "u = [] \<or> v = []")
    case True
    then show ?thesis by auto
  next
    case False
    have nl: "is_ascii NL" "\<not> is_cont NL" by (simp_all add: is_ascii_def is_cont_def byte_val_def)
    from False assms(2) consider "last u = NL" | "hd v = NL" by blast
    then show ?thesis
    proof cases
      case 1
      with False have n: "(u @ v) ! (length u - 1) = NL" "length u - 1 < length (u @ v)"
        by (simp_all add: nth_append last_conv_nth) (cases u; simp)
      from advance_ascii [OF assms(1) n(2)] n(1) nl(1) False show ?thesis by simp
    next
      case 2
      with False nl(2) show ?thesis by (simp add: is_char_boundary_def nth_append hd_conv_nth)
    qed
  qed
  from utf8_valid_split [OF assms(1) this] show ?thesis by simp
qed

lemma newline_parts:
  assumes "utf8_valid l"
  obtains u v where "l = u @ v" "u = up_to_last_newline l" "v = after_last_newline l"
    "utf8_valid u" "utf8_valid v" "u = [] \<or> last u = NL"
proof -
  let ?u = "up_to_last_newline l" and ?v = "after_last_newline l"
  have l: "?u @ ?v = l"
    by (metis rev_append rev_rev_ident takeWhile_dropWhile_id)
  have e: "?u = [] \<or> last ?u = NL"
    using hd_dropWhile [of "\<lambda>x. x \<noteq> NL" "rev l"] by (auto simp: last_rev simp del: dropWhile_eq_Nil_conv)
  have "utf8_valid (?u @ ?v)" using assms by (simp only: l)
  then have "utf8_valid ?u \<and> utf8_valid ?v" by (rule valid_parts) (use e in blast)
  with l e that show thesis by metis
qed

lemma newline_front:
  assumes "utf8_valid r"
  obtains u v where "r = u @ v" "u = takeWhile (\<lambda>x. x \<noteq> NL) r" "v = dropWhile (\<lambda>x. x \<noteq> NL) r"
    "utf8_valid u" "utf8_valid v" "v = [] \<or> hd v = NL"
proof -
  let ?u = "takeWhile (\<lambda>x. x \<noteq> NL) r" and ?v = "dropWhile (\<lambda>x. x \<noteq> NL) r"
  have e: "?v = [] \<or> hd ?v = NL" using hd_dropWhile by blast
  from valid_parts [of ?u ?v] assms e have "utf8_valid ?u \<and> utf8_valid ?v" by simp
  with e that show thesis by (metis takeWhile_dropWhile_id)
qed

lemma rposition_snoc: "rposition p (xs @ [x]) = (if p x then Some (length xs) else rposition p xs)"
  by (induction xs) (auto split: option.splits)

lemma line_start_of_eq: "line_start_of l = length (up_to_last_newline l)"
  unfolding line_start_of_def by (induction l rule: rev_induct) (auto simp: rposition_snoc)

lemma line_end_of_eq: "line_end_of r = length (takeWhile (\<lambda>x. x \<noteq> NL) r)"
  unfolding line_end_of_def by (induction r) (auto split: option.splits)

lemma line_start_at: "utf8_valid l \<Longrightarrow> utf8_valid r \<Longrightarrow> line_start (at l r) = Some (length (up_to_last_newline l))"
  by (simp add: line_start_def eb_before_at line_start_of_eq)

lemma line_end_at:
  "utf8_valid r \<Longrightarrow> line_end (at l r) = Some (length l + length (takeWhile (\<lambda>x. x \<noteq> NL) r))"
  by (simp add: line_end_def eb_after_at line_end_of_eq)

section \<open>Operations on the zipper\<close>

text \<open>The outcome of an operation: no panic, and the zipper \<open>z\<close>, of valid texts.\<close>

definition lands :: "edit_buffer option \<Rightarrow> zipper \<Rightarrow> bool" where
  "lands r z \<longleftrightarrow> utf8_valid (fst z) \<and> utf8_valid (snd z) \<and> r = Some (at (fst z) (snd z))"

lemma landsI: "utf8_valid l \<Longrightarrow> utf8_valid r \<Longrightarrow> x = Some (at l r) \<Longrightarrow> lands x (l, r)"
  by (simp add: lands_def)

lemma last_piece:
  assumes "segmentation g" "utf8_valid l" "l \<noteq> []"
  shows "l = concat (butlast (g l)) @ last (g l)" "utf8_valid (concat (butlast (g l)))"
    "utf8_valid (last (g l))" "last (g l) \<noteq> []" "g l \<noteq> []"
proof -
  show ne: "g l \<noteq> []" using assms by (simp add: segmentation_Nil)
  then have "concat (butlast (g l) @ [last (g l)]) = concat (g l)" by simp
  then show "l = concat (butlast (g l)) @ last (g l)"
    using segmentationD(1) [OF assms(1,2)] by (metis append.right_neutral concat.simps(1,2) concat_append)
  show "utf8_valid (concat (butlast (g l)))"
    by (rule utf8_valid_concat) (metis segmentationD(2) [OF assms(1,2)] in_set_butlastD)
  show "utf8_valid (last (g l))" "last (g l) \<noteq> []"
    using segmentationD(2) [OF assms(1,2)] ne by (simp_all add: last_in_set)
qed

lemma first_piece:
  assumes "segmentation g" "utf8_valid r" "g r = p # ps"
  shows "r = p @ concat ps" "utf8_valid p" "utf8_valid (concat ps)"
  using segmentationD [OF assms(1,2)] assms(3) by (auto intro: utf8_valid_concat)

lemma lands_insert:
  "utf8_valid l \<Longrightarrow> utf8_valid r \<Longrightarrow> is_scalar c \<Longrightarrow> lands (eb_insert c (at l r)) (l @ utf8_encode c, r)"
  using boundary_at [of r "l @ r" l "length l"]
  by (simp add: lands_def eb_insert_def utf8_valid_append atI)

lemma lands_backspace:
  assumes "segmentation g" "utf8_valid l" "utf8_valid r"
  shows "lands (map_option snd (eb_backspace g (at l r))) (concat (butlast (g l)), r)"
proof (cases "l = []")
  case True
  with assms(1) have "g l = []" by (simp add: segmentation_Nil)
  with True assms show ?thesis
    by (simp add: lands_def eb_backspace_def previous_boundary_def eb_before_at)
next
  case False
  note p = last_piece [OF assms(1,2) False]
  have len: "length l = length (concat (butlast (g l))) + length (last (g l))"
    by (rule trans [OF arg_cong [OF p(1), of length] length_append])
  have "l @ r = concat (butlast (g l)) @ last (g l) @ r" using p(1) by (metis append.assoc)
  then have "replace_range (l @ r) (length (concat (butlast (g l)))) (length l) [] = Some (concat (butlast (g l)) @ [] @ r)"
    by (rule replace_range_at [OF p(3) assms(3)]) (simp_all only: len)
  with assms p show ?thesis
    by (simp add: lands_def eb_backspace_def previous_boundary_def eb_before_at atI)
qed

lemma lands_delete:
  assumes "segmentation g" "utf8_valid l" "utf8_valid r"
  shows "lands (map_option snd (eb_delete g (at l r))) (l, concat (tl (g r)))"
proof (cases "g r")
  case Nil
  with assms segmentationD(1) [OF assms(1,3)] show ?thesis
    by (simp add: lands_def eb_delete_def next_boundary_def eb_after_at)
next
  case (Cons p ps)
  note f = first_piece [OF assms(1,3) Cons]
  have "replace_range (l @ r) (length l) (length l + length p) [] = Some (l @ [] @ concat ps)"
    using f by (intro replace_range_at [of p]) simp_all
  with assms f Cons show ?thesis
    by (simp add: lands_def eb_delete_def next_boundary_def eb_after_at at_update)
qed

lemma lands_left:
  assumes "segmentation g" "utf8_valid l" "utf8_valid r"
  shows "lands (map_option snd (eb_left g (at l r)))
    (concat (butlast (g l)), if l = [] then r else last (g l) @ r)"
proof (cases "l = []")
  case True
  with assms(1) have "g l = []" by (simp add: segmentation_Nil)
  with True assms show ?thesis
    by (simp add: lands_def eb_left_def previous_boundary_def eb_before_at)
next
  case False
  note p = last_piece [OF assms(1,2) False]
  have "l @ r = concat (butlast (g l)) @ last (g l) @ r" using p(1) by (metis append.assoc)
  with assms p(2-5) False show ?thesis
    by (simp add: lands_def eb_left_def previous_boundary_def eb_before_at at_update utf8_valid_append)
qed

lemma lands_right:
  assumes "segmentation g" "utf8_valid l" "utf8_valid r"
  shows "lands (map_option snd (eb_right g (at l r))) (if r = [] then l else l @ hd (g r), concat (tl (g r)))"
proof (cases "g r")
  case Nil
  with assms segmentationD(1) [OF assms(1,3)] show ?thesis
    by (simp add: lands_def eb_right_def next_boundary_def eb_after_at)
next
  case (Cons p ps)
  note f = first_piece [OF assms(1,3) Cons]
  from Cons segmentation_Nil [OF assms(1,3)] have "r \<noteq> []" by simp
  with assms f Cons show ?thesis
    by (simp add: lands_def eb_right_def next_boundary_def eb_after_at at_update utf8_valid_append)
qed

lemma lands_home:
  assumes "utf8_valid l" "utf8_valid r"
  shows "lands (eb_home (at l r)) (up_to_last_newline l, after_last_newline l @ r)"
proof -
  obtain u v where uv: "l = u @ v" "u = up_to_last_newline l" "v = after_last_newline l" "utf8_valid u" "utf8_valid v"
    using newline_parts [OF assms(1)] by metis
  have "eb_home (at l r) = Some (at u (v @ r))"
    using at_update(2) [of l r u "v @ r"] line_start_at [OF assms] uv(1)
    unfolding uv(2) [symmetric] by (simp add: eb_home_def)
  with uv(4,5) assms(2) show ?thesis
    unfolding uv(2,3) [symmetric] by (simp add: lands_def utf8_valid_append)
qed

lemma lands_end:
  assumes "utf8_valid l" "utf8_valid r"
  shows "lands (eb_end (at l r)) (l @ takeWhile (\<lambda>x. x \<noteq> NL) r, dropWhile (\<lambda>x. x \<noteq> NL) r)"
proof -
  obtain u v where uv: "r = u @ v" "u = takeWhile (\<lambda>x. x \<noteq> NL) r" "v = dropWhile (\<lambda>x. x \<noteq> NL) r"
    "utf8_valid u" "utf8_valid v"
    using newline_front [OF assms(2)] by metis
  have "eb_end (at l r) = Some (at (l @ u) v)"
    using at_update(2) [of l r "l @ u" v] line_end_at [OF assms(2), of l] uv(1)
    unfolding uv(2) [symmetric] by (simp add: eb_end_def)
  with uv(4,5) assms(1) show ?thesis
    unfolding uv(2,3) [symmetric] by (simp add: lands_def utf8_valid_append)
qed

lemma lands_kill_to_end: "utf8_valid l \<Longrightarrow> utf8_valid r \<Longrightarrow> lands (eb_kill_to_end (at l r)) (l, [])"
  using boundary_at [of r "l @ r" l "length l"]
  by (simp add: lands_def eb_kill_to_end_def at_def)

lemma lands_kill_to_start: "utf8_valid l \<Longrightarrow> utf8_valid r \<Longrightarrow> lands (eb_kill_to_start (at l r)) ([], r)"
  using replace_range_at [of l r "l @ r" "[]" 0 "length l" "[]"]
  by (simp add: lands_def eb_kill_to_start_def at_def)

lemma lands_zip:
  assumes "segmentation g" "utf8_valid l" "utf8_valid r" "op_ok x" "is_zip_op x"
  shows "lands (eb_apply g w x (at l r)) (zip_apply g x (l, r))"
  using assms
  by (cases x) (simp_all add: lands_insert lands_backspace lands_delete lands_left lands_right lands_home
      lands_end lands_kill_to_end lands_kill_to_start, simp add: lands_def eb_clear_def at_def)

section \<open>Lines and words\<close>

text \<open>Vertical movement lands on the end of some of the pieces of the line.\<close>

lemma column_scan_pieces:
  "\<exists>k. column_scan w start target (start + offset) column offset ps =
     start + offset + length (concat (take k ps))"
proof (induction ps arbitrary: offset column)
  case Nil
  then show ?case by simp
next
  case (Cons p ps)
  show ?case
  proof (cases "target < column + w p")
    case True
    then show ?thesis by (intro exI [of _ 0]) simp
  next
    case False
    obtain k where "column_scan w start target (start + (offset + length p)) (column + w p) (offset + length p) ps =
        start + (offset + length p) + length (concat (take k ps))"
      using Cons.IH by blast
    with False show ?thesis by (intro exI [of _ "Suc k"]) (simp add: add.assoc)
  qed
qed

lemma boundary_at_column:
  assumes "segmentation g" "utf8_valid a" "utf8_valid m" "utf8_valid c" "t = a @ m @ c"
  obtains p q where "m = p @ q" "utf8_valid p" "utf8_valid q"
    "boundary_at_display_column g w t (length a) (length a + length m) target = Some (length (a @ p))"
proof -
  have s: "slice_str t (length a) (length a + length m) = Some m"
    by (rule slice_at) (use assms in simp_all)
  obtain k where k: "column_scan w (length a) target (length a) 0 0 (g m) =
      length a + length (concat (take k (g m)))"
    using column_scan_pieces [of w "length a" target 0 0 "g m"] by auto
  note d = segmentationD [OF assms(1,3)]
  have "m = concat (take k (g m)) @ concat (drop k (g m))"
    using d(1) by (metis append_take_drop_id concat_append)
  moreover have "utf8_valid (concat (take k (g m)))" "utf8_valid (concat (drop k (g m)))"
    using d(2) by (auto intro!: utf8_valid_concat dest: in_set_takeD in_set_dropD)
  moreover have "boundary_at_display_column g w t (length a) (length a + length m) target =
      Some (length (a @ concat (take k (g m))))"
    unfolding boundary_at_display_column_def s using k by simp
  ultimately show thesis using that by blast
qed

definition same_text :: "edit_buffer \<Rightarrow> edit_buffer \<Rightarrow> bool" where
  "same_text b b' \<longleftrightarrow> eb_ok b' \<and> eb_text b' = eb_text b"

lemma same_textI: "utf8_valid p \<Longrightarrow> utf8_valid q \<Longrightarrow> eb_text b = p @ q \<Longrightarrow> same_text b (at p q)"
  by (simp add: same_text_def eb_ok_at)

lemma slice_after_newline:
  assumes "utf8_valid u" "utf8_valid v" "utf8_valid r"
  shows "slice_str ((u @ v) @ r) (length u) (length (u @ v)) = Some v"
  using slice_at [OF assms(2,3), of "(u @ v) @ r" u] by simp

lemma eb_up_eq:
  assumes "line_start b = Some start" "start \<noteq> 0" "slice_str (eb_text b) 0 (start - 1) = Some ab"
    "slice_str (eb_text b) start (eb_cursor b) = Some t"
    "boundary_at_display_column g w (eb_text b) (line_start_of ab) (start - 1) (w t) = Some c"
  shows "eb_up g w b = Some (True, b\<lparr>eb_cursor := c\<rparr>)"
  using assms by (simp add: eb_up_def)

lemma eb_down_eq:
  assumes "line_end b = Some stop" "stop \<noteq> length (eb_text b)"
    "slice_str (eb_text b) (stop + 1) (length (eb_text b)) = Some be" "line_start b = Some start"
    "slice_str (eb_text b) start (eb_cursor b) = Some t"
    "boundary_at_display_column g w (eb_text b) (stop + 1) (stop + 1 + line_end_of be) (w t) = Some c"
  shows "eb_down g w b = Some (True, b\<lparr>eb_cursor := c\<rparr>)"
  using assms by (simp add: eb_down_def)

lemma up_same_text:
  assumes g: "segmentation g" and l: "utf8_valid l" and r: "utf8_valid r"
  shows "\<exists>m b'. eb_up g w (at l r) = Some (m, b') \<and> same_text (at l r) b'"
proof -
  obtain u v where uv: "l = u @ v" "u = up_to_last_newline l" "v = after_last_newline l"
    "utf8_valid u" "utf8_valid v" "u = [] \<or> last u = NL"
    using newline_parts [OF l] by metis
  have start: "line_start (at l r) = Some (length u)"
    using line_start_at [OF l r] uv(2) by simp
  show ?thesis
  proof (cases "u = []")
    case True
    with start l r show ?thesis by (intro exI [of _ False]) (simp add: eb_up_def same_textI)
  next
    case False
    with uv(6) obtain a where a: "u = a @ [NL]" by (metis append_butlast_last_id)
    have "utf8_valid a" using valid_parts [of a "[NL]"] uv(4) a by simp
    then obtain a1 a2 where a12: "a = a1 @ a2" "a1 = up_to_last_newline a" "utf8_valid a1" "utf8_valid a2"
      using newline_parts [of a] by metis
    let ?t = "(u @ v) @ r"
    have rest: "utf8_valid (NL # v @ r)" "utf8_valid ([NL] @ v @ r)"
      using uv(5) r by (simp_all add: utf8_valid_append is_ascii_def byte_val_def)
    have s1: "slice_str ?t 0 (length a) = Some a"
      using slice_at [OF \<open>utf8_valid a\<close> rest(1), of ?t "[]"] a by simp
    obtain p q where pq: "a2 = p @ q" "utf8_valid p" "utf8_valid q"
      "boundary_at_display_column g w ?t (length a1) (length a1 + length a2) (w v) = Some (length (a1 @ p))"
      using boundary_at_column [OF g a12(3,4) rest(1), of ?t w "w v"] a a12(1) by auto
    have ls: "line_start_of a = length a1" unfolding a12(2) by (rule line_start_of_eq)
    have "eb_up g w (at l r) = Some (True, (at l r)\<lparr>eb_cursor := length (a1 @ p)\<rparr>)"
    proof (rule eb_up_eq [OF start])
      show "slice_str (eb_text (at l r)) 0 (length u - 1) = Some a" using s1 uv(1) a by simp
      show "slice_str (eb_text (at l r)) (length u) (eb_cursor (at l r)) = Some v"
        using slice_after_newline [OF uv(4,5) r] uv(1) by simp
      show "boundary_at_display_column g w (eb_text (at l r)) (line_start_of a) (length u - 1) (w v) = Some (length (a1 @ p))"
        unfolding ls using pq(4) uv(1) a a12(1) by simp
    qed (use False in simp)
    also have "(at l r)\<lparr>eb_cursor := length (a1 @ p)\<rparr> = at (a1 @ p) (q @ [NL] @ v @ r)"
      by (rule at_update(2)) (simp_all add: uv(1) a a12(1) pq(1))
    finally have "eb_up g w (at l r) = Some (True, at (a1 @ p) (q @ [NL] @ v @ r))" .
    moreover have "same_text (at l r) (at (a1 @ p) (q @ [NL] @ v @ r))"
      using a a12(1,3) pq(1-3) rest(2) uv(1) by (intro same_textI) (simp_all add: utf8_valid_append)
    ultimately show ?thesis by blast
  qed
qed

lemma down_same_text:
  assumes g: "segmentation g" and l: "utf8_valid l" and r: "utf8_valid r"
  shows "\<exists>m b'. eb_down g w (at l r) = Some (m, b') \<and> same_text (at l r) b'"
proof -
  obtain u v where uv: "r = u @ v" "u = takeWhile (\<lambda>x. x \<noteq> NL) r" "utf8_valid u" "utf8_valid v" "v = [] \<or> hd v = NL"
    using newline_front [OF r] by metis
  have stop: "line_end (at l r) = Some (length l + length u)"
    using line_end_at [OF r, of l] uv(2) by simp
  show ?thesis
  proof (cases "v = []")
    case True
    with stop uv(1) l r show ?thesis by (intro exI [of _ False]) (simp add: eb_down_def same_textI)
  next
    case False
    with uv(5) obtain c where c: "v = NL # c" by (cases v) auto
    have vc: "utf8_valid c" using valid_parts [of "[NL]" c] uv(4) c by simp
    obtain c1 c2 where c12: "c = c1 @ c2" "c1 = takeWhile (\<lambda>x. x \<noteq> NL) c" "utf8_valid c1" "utf8_valid c2"
      using newline_front [OF vc] by metis
    obtain x y where xy: "l = x @ y" "x = up_to_last_newline l" "utf8_valid x" "utf8_valid y"
      using newline_parts [OF l] by metis
    have start: "line_start (at l r) = Some (length x)"
      using line_start_at [OF l r] xy(2) by simp
    let ?t = "l @ r" and ?a = "l @ u @ [NL]"
    have va: "utf8_valid ?a"
      using l uv(3) by (simp add: utf8_valid_append is_ascii_def byte_val_def)
    have t: "?t = ?a @ c" using uv(1) c by simp
    have s1: "slice_str ?t (length ?a) (length ?t) = Some c"
      by (rule slice_at [OF vc, of "[]" _ ?a]) (simp_all add: t)
    have s2: "slice_str ?t (length x) (length l) = Some y"
      using slice_after_newline [OF xy(3,4) r] xy(1) by simp
    obtain p q where pq: "c1 = p @ q" "utf8_valid p" "utf8_valid q"
      "boundary_at_display_column g w ?t (length ?a) (length ?a + length c1) (w y) = Some (length (?a @ p))"
      using boundary_at_column [OF g va c12(3,4), of ?t w "w y"] t c12(1) by metis
    have la: "length ?a = Suc (length l + length u)" by simp
    have "eb_down g w (at l r) = Some (True, (at l r)\<lparr>eb_cursor := length (?a @ p)\<rparr>)"
    proof (rule eb_down_eq [OF stop])
      show "line_start (at l r) = Some (length x)" by (rule start)
      show "slice_str (eb_text (at l r)) (length l + length u + 1) (length (eb_text (at l r))) = Some c"
        using s1 la by simp
      show "slice_str (eb_text (at l r)) (length x) (eb_cursor (at l r)) = Some y" using s2 by simp
      show "boundary_at_display_column g w (eb_text (at l r)) (length l + length u + 1)
          (length l + length u + 1 + line_end_of c) (w y) = Some (length (?a @ p))"
        using pq(4) line_end_of_eq [of c] c12(2) [symmetric] la by simp
    qed (simp add: uv(1) c)
    also have "(at l r)\<lparr>eb_cursor := length (?a @ p)\<rparr> = at (?a @ p) (q @ c2)"
      by (rule at_update(2)) (simp_all only: t c12(1) pq(1) append.assoc)
    finally have "eb_down g w (at l r) = Some (True, at (?a @ p) (q @ c2))" .
    moreover have "utf8_valid (?a @ p)" "utf8_valid (q @ c2)"
      by (rule utf8_valid_append [OF va pq(2)], rule utf8_valid_append [OF pq(3) c12(4)])
    then have "same_text (at l r) (at (?a @ p) (q @ c2))"
      by (rule same_textI) (simp only: at_simps t c12(1) pq(1) append.assoc)
    ultimately show ?thesis by blast
  qed
qed

text \<open>The word loops end: each round drops the last piece before the cursor.\<close>

lemma kill_while_lands:
  assumes "segmentation g" "utf8_valid l" "utf8_valid r"
  shows "\<exists>l' m. l = l' @ m \<and> utf8_valid l' \<and> kill_while g p (at l r) = Some (at l' r) \<and>
    (l' = [] \<or> \<not> p (last (chars l')))"
  using assms(2)
proof (induction l rule: length_induct)
  case (1 l)
  have prev: "previous_character (at l r) = Some (if chars l = [] then None else Some (last (chars l)))"
    using 1(2) assms(3) by (simp add: previous_character_def eb_before_at)
  show ?case
  proof (cases "l = [] \<or> \<not> p (last (chars l))")
    case True
    then have "kill_while g p (at l r) = Some (at l r)"
      using prev 1(2) by (subst kill_while.simps) auto
    with True 1(2) show ?thesis by (intro exI [of _ l] exI [of _ "[]"]) simp
  next
    case False
    note pc = last_piece [OF assms(1) 1(2)]
    let ?l = "concat (butlast (g l))"
    obtain m b where b: "eb_backspace g (at l r) = Some (m, b)" "b = at ?l r" "utf8_valid ?l"
      using lands_backspace [OF assms(1) 1(2) assms(3)] by (auto simp: lands_def)
    have "kill_while g p (at l r) = kill_while g p (at ?l r)"
      using prev False 1(2) b by (subst kill_while.simps) simp
    moreover have "length ?l < length l"
      using pc(1,4) False by (metis length_append length_greater_0_conv less_add_same_cancel1)
    then obtain l' m' where "?l = l' @ m'" "utf8_valid l'" "kill_while g p (at ?l r) = Some (at l' r)"
      "l' = [] \<or> \<not> p (last (chars l'))"
      using 1(1) b(3) by blast
    moreover from this(1) pc(1) False have "l = l' @ (m' @ last (g l))" by (metis append.assoc)
    ultimately show ?thesis by metis
  qed
qed

lemma kill_word_back_lands:
  assumes "segmentation g" "utf8_valid l" "utf8_valid r"
  shows "\<exists>l' m. l = l' @ m \<and> utf8_valid l' \<and> eb_kill_word_back g (at l r) = Some (at l' r) \<and>
    (l' = [] \<or> is_whitespace (last (chars l')))"
proof -
  obtain l1 m1 where 1: "l = l1 @ m1" "utf8_valid l1" "kill_while g is_whitespace (at l r) = Some (at l1 r)"
    using kill_while_lands [OF assms] by blast
  obtain l2 m2 where 2: "l1 = l2 @ m2" "utf8_valid l2"
    "kill_while g (\<lambda>x. \<not> is_whitespace x) (at l1 r) = Some (at l2 r)" "l2 = [] \<or> is_whitespace (last (chars l2))"
    using kill_while_lands [OF assms(1) 1(2) assms(3), of "\<lambda>x. \<not> is_whitespace x"] by auto
  show ?thesis
    using 1 2 by (intro exI [of _ l2] exI [of _ "m2 @ m1"]) (simp add: eb_kill_word_back_def)
qed

lemma replace_ok:
  assumes "eb_ok b" "utf8_valid v"
  shows "\<exists>m b'. eb_replace i j v b = Some (m, b') \<and> eb_ok b'"
proof (cases "j < i \<or> length (eb_text b) < j \<or> \<not> is_char_boundary (eb_text b) i \<or> \<not> is_char_boundary (eb_text b) j")
  case True
  with assms show ?thesis by (intro exI [of _ False]) (simp add: eb_replace_def)
next
  case False
  from assms(1) have t: "utf8_valid (eb_text b)" by (auto simp: eb_ok_def utf8_valid_append)
  with False have "utf8_valid (take i (eb_text b))" "utf8_valid (drop j (eb_text b))"
    by (simp_all add: utf8_valid_split)
  with assms(2) have "eb_ok (at (take i (eb_text b) @ v) (drop j (eb_text b)))"
    by (simp add: eb_ok_at utf8_valid_append)
  moreover from False have "length (take i (eb_text b)) = i" by (simp add: is_char_boundary_le)
  ultimately show ?thesis
    using False by (intro exI [of _ True]) (simp add: eb_replace_def replace_range_def at_def)
qed

lemma eb_apply_ok:
  assumes "segmentation g" "eb_ok b" "op_ok x"
  shows "\<exists>b'. eb_apply g w x b = Some b' \<and> eb_ok b'"
proof -
  from assms(2) obtain l r where b: "b = at l r" "utf8_valid l" "utf8_valid r" by (auto simp: eb_ok_def)
  show ?thesis
  proof (cases "is_zip_op x")
    case True
    with lands_zip [OF assms(1) b(2,3) assms(3) True] b(1) show ?thesis
      by (auto simp: lands_def intro: eb_ok_at)
  next
    case False
    then consider i j v where "x = EdReplace i j v" | "x = EdUp" | "x = EdDown" | "x = EdKillWordBack"
      by (cases x) auto
    then show ?thesis
    proof cases
      case (1 i j v)
      with replace_ok [OF assms(2), of v i j] assms(3) show ?thesis by auto
    next
      case 2
      with up_same_text [OF assms(1) b(2,3), of w] b(1) show ?thesis by (auto simp: same_text_def)
    next
      case 3
      with down_same_text [OF assms(1) b(2,3), of w] b(1) show ?thesis by (auto simp: same_text_def)
    next
      case 4
      with kill_word_back_lands [OF assms(1) b(2,3)] b(1,3) show ?thesis by (auto intro: eb_ok_at)
    qed
  qed
qed

fun eb_run :: "segmenter \<Rightarrow> (string \<Rightarrow> nat) \<Rightarrow> edit_op list \<Rightarrow> edit_buffer \<Rightarrow> edit_buffer option" where
  "eb_run g w [] b = Some b"
| "eb_run g w (x # xs) b = Option.bind (eb_apply g w x b) (eb_run g w xs)"

lemma eb_run_ok:
  "segmentation g \<Longrightarrow> eb_ok b \<Longrightarrow> list_all op_ok xs \<Longrightarrow> \<exists>b'. eb_run g w xs b = Some b' \<and> eb_ok b'"
proof (induction xs arbitrary: b)
  case (Cons x xs)
  from Cons.prems eb_apply_ok [of g b x w] obtain b' where "eb_apply g w x b = Some b'" "eb_ok b'" by auto
  with Cons show ?case by simp
qed simp

lemma eb_ok_new: "eb_ok edit_buffer_new"
  using eb_ok_at [of "[]" "[]"] by (simp add: edit_buffer_new_def at_def)

section \<open>Properties\<close>

text \<open>C12: editing never panics. From the empty buffer, any sequence of operations on scalar values and
  valid texts returns, and leaves valid text with the cursor on a character boundary.\<close>

theorem edit_sequence_safe:
  assumes "segmentation g" "list_all op_ok ops"
  shows "\<exists>b. eb_run g w ops edit_buffer_new = Some b \<and> utf8_valid (eb_text b) \<and>
             is_char_boundary (eb_text b) (eb_cursor b)"
proof -
  obtain b where b: "eb_run g w ops edit_buffer_new = Some b" "eb_ok b"
    using eb_run_ok [OF assms(1) eb_ok_new assms(2)] by blast
  from b(2) obtain l r where "b = at l r" "utf8_valid l" "utf8_valid r" by (auto simp: eb_ok_def)
  then have "utf8_valid (eb_text b) \<and> is_char_boundary (eb_text b) (eb_cursor b)"
    by (simp add: utf8_valid_append boundary_at)
  with b(1) show ?thesis by blast
qed

theorem edit_sequence_safe_witness:
  "\<exists>b. eb_run char_segments length
        [EdInsert 0x61, EdInsert 0x0A, EdInsert 0xE9, EdUp, EdKillWordBack, EdDown] edit_buffer_new = Some b \<and>
      utf8_valid (eb_text b) \<and> is_char_boundary (eb_text b) (eb_cursor b)"
  by (rule edit_sequence_safe [OF segmentation_chars]) (simp add: is_scalar_def)

text \<open>C11: the buffer refines a zipper. On a well-formed buffer the byte-offset operations are the
  operations on the pair of texts around the cursor: insertion, deletion and movement by one
  grapheme, to the ends of the line, and killing to either end.\<close>

theorem edit_refines_zipper:
  assumes "segmentation g" "eb_ok b" "op_ok x" "is_zip_op x"
  shows "\<exists>b'. eb_apply g w x b = Some b' \<and> zip_of b' = zip_apply g x (zip_of b)"
proof -
  from assms(2) obtain l r where b: "b = at l r" "utf8_valid l" "utf8_valid r" by (auto simp: eb_ok_def)
  with lands_zip [OF assms(1) b(2,3) assms(3,4)] show ?thesis by (auto simp: lands_def)
qed

theorem edit_refines_zipper_witness:
  "\<exists>b'. eb_apply char_segments length EdLeft (at ''ab'' ''c'') = Some b' \<and>
      zip_of b' = zip_apply char_segments EdLeft (zip_of (at ''ab'' ''c''))"
proof (rule edit_refines_zipper [OF segmentation_chars])
  show "eb_ok (at ''ab'' ''c'')" by (rule eb_ok_at) code_simp+
qed simp_all

text \<open>C35: killing a word returns, keeps the text after the cursor and a prefix of the text before it,
  and stops at the start of the text or behind whitespace.\<close>

theorem kill_word_back_stops:
  assumes "segmentation g" "utf8_valid l" "utf8_valid r"
  shows "\<exists>l' m. l = l' @ m \<and> eb_kill_word_back g (at l r) = Some (at l' r) \<and>
    (l' = [] \<or> is_whitespace (last (chars l')))"
  using kill_word_back_lands [OF assms] by blast

theorem kill_word_back_stops_witness:
  "\<exists>l' m. ''ls -la'' = l' @ m \<and> eb_kill_word_back char_segments (at ''ls -la'' ''x'') = Some (at l' ''x'') \<and>
    (l' = [] \<or> is_whitespace (last (chars l')))"
  by (rule kill_word_back_stops [OF segmentation_chars]) code_simp+

end
