(* ===== verification/History_Ring.thy ===== *)
theory History_Ring
  imports Prelude
begin

text \<open>
  \<open>crates/flash-cli/src/terminal_editor/history.rs\<close>: the submissions one session recalls. The deque is a
  list from oldest to newest. The theorems identify the retained entries with the newest \<open>capacity\<close>
  of the nonempty, adjacent-distinct submissions, and show that a walk back and forth returns every
  entry in order and finally the parked draft.
\<close>

section \<open>Data and operations\<close>

record history_ring =
  hr_entries :: "string list"
  hr_capacity :: nat
  hr_position :: nat
  hr_draft :: string

definition history_ring_new :: "nat \<Rightarrow> history_ring" where
  "history_ring_new capacity =
     \<lparr>hr_entries = [], hr_capacity = max capacity 1, hr_position = 0, hr_draft = []\<rparr>"

definition hr_reset_position :: "history_ring \<Rightarrow> history_ring" where
  "hr_reset_position h = h\<lparr>hr_position := 0, hr_draft := []\<rparr>"

definition hr_record :: "string \<Rightarrow> history_ring \<Rightarrow> history_ring" where
  "hr_record entry h =
     (let h = h\<lparr>hr_position := 0, hr_draft := []\<rparr> in
      if entry = [] then h
      else if hr_entries h \<noteq> [] \<and> last (hr_entries h) = entry then h
      else
        (let kept = (if length (hr_entries h) = hr_capacity h then tl (hr_entries h) else hr_entries h)
         in h\<lparr>hr_entries := kept @ [entry]\<rparr>))"

definition entry_at_position :: "history_ring \<Rightarrow> string option" where
  "entry_at_position h =
     (if length (hr_entries h) < hr_position h then None
      else get_nth (hr_entries h) (length (hr_entries h) - hr_position h))"

definition recall_previous :: "string \<Rightarrow> history_ring \<Rightarrow> string option \<times> history_ring" where
  "recall_previous draft h =
     (if length (hr_entries h) \<le> hr_position h then (None, h)
      else
        (let h = (if hr_position h = 0 then h\<lparr>hr_draft := draft\<rparr> else h);
             h = h\<lparr>hr_position := hr_position h + 1\<rparr>
         in (entry_at_position h, h)))"

definition recall_next :: "history_ring \<Rightarrow> string option \<times> history_ring" where
  "recall_next h =
     (if hr_position h = 0 then (None, h)
      else
        (let h = h\<lparr>hr_position := hr_position h - 1\<rparr> in
         if hr_position h = 0 then (Some (hr_draft h), h\<lparr>hr_draft := []\<rparr>)
         else (entry_at_position h, h)))"

definition hr_len :: "history_ring \<Rightarrow> nat" where
  "hr_len h = length (hr_entries h)"

definition newest_entries :: "history_ring \<Rightarrow> string list" where
  "newest_entries h = rev (hr_entries h)"

definition hr_load :: "string list \<Rightarrow> history_ring \<Rightarrow> history_ring" where
  "hr_load entries h = hr_reset_position (fold hr_record entries (h\<lparr>hr_entries := []\<rparr>))"

datatype history_op = HoRecord string | HoPrevious string | HoNext | HoReset | HoLoad "string list"

fun hr_step :: "history_ring \<Rightarrow> history_op \<Rightarrow> history_ring" where
  "hr_step h (HoRecord e) = hr_record e h"
| "hr_step h (HoPrevious d) = snd (recall_previous d h)"
| "hr_step h HoNext = snd (recall_next h)"
| "hr_step h HoReset = hr_reset_position h"
| "hr_step h (HoLoad es) = hr_load es h"

section \<open>The invariant\<close>

definition hr_ok :: "history_ring \<Rightarrow> bool" where
  "hr_ok h \<longleftrightarrow>
     0 < hr_capacity h \<and> length (hr_entries h) \<le> hr_capacity h \<and> hr_position h \<le> length (hr_entries h) \<and>
     [] \<notin> set (hr_entries h) \<and> distinct_adj (hr_entries h)"

lemma hr_ok_new: "hr_ok (history_ring_new c)"
  by (simp add: hr_ok_def history_ring_new_def)

lemma distinct_adj_tl: "distinct_adj xs \<Longrightarrow> distinct_adj (tl xs)"
  by (cases xs) (auto dest: distinct_adj_ConsD)

lemma hr_ok_record:
  assumes "hr_ok h"
  shows "hr_ok (hr_record e h)"
proof (cases "e = [] \<or> hr_entries h \<noteq> [] \<and> last (hr_entries h) = e")
  case True
  with assms show ?thesis by (auto simp: hr_record_def hr_ok_def Let_def)
next
  case False
  define kept where
    "kept = (if length (hr_entries h) = hr_capacity h then tl (hr_entries h) else hr_entries h)"
  from assms have k: "length kept < hr_capacity h" "[] \<notin> set kept" "distinct_adj kept"
    by (auto simp: hr_ok_def kept_def distinct_adj_tl dest: list.set_sel(2)) (metis list.sel(2) list.set_sel(2))
  have "distinct_adj (kept @ [e])"
  proof (cases "kept = []")
    case ne: False
    then have "hr_entries h \<noteq> []" "last kept = last (hr_entries h)"
      by (auto simp: kept_def last_tl split: if_split_asm)
    with False k(3) ne show ?thesis unfolding distinct_adj_append_iff by (metis distinct_adj_singleton list.sel(1))
  qed simp
  moreover have "hr_record e h = h\<lparr>hr_position := 0, hr_draft := [], hr_entries := kept @ [e]\<rparr>"
    using False by (auto simp: hr_record_def Let_def kept_def)
  moreover from False have "[] \<noteq> e" by auto
  ultimately show ?thesis using k assms by (simp add: hr_ok_def)
qed

lemma hr_ok_reset: "hr_ok h \<Longrightarrow> hr_ok (hr_reset_position h)"
  by (simp add: hr_ok_def hr_reset_position_def)

lemma hr_ok_fold_record: "hr_ok h \<Longrightarrow> hr_ok (fold hr_record es h)"
  by (induction es arbitrary: h) (simp_all add: hr_ok_record)

lemma hr_ok_step:
  assumes "hr_ok h"
  shows "hr_ok (hr_step h x)"
proof (cases x)
  case (HoLoad es)
  have "hr_entries (hr_record e k) = hr_entries (hr_record e (k\<lparr>hr_position := 0\<rparr>))" for e k
    by (simp add: hr_record_def Let_def)
  show ?thesis
  proof (cases es)
    case Nil
    with HoLoad assms show ?thesis by (simp add: hr_load_def hr_reset_position_def hr_ok_def)
  next
    case (Cons e es')
    have "hr_record e (h\<lparr>hr_entries := []\<rparr>) = hr_record e (h\<lparr>hr_entries := [], hr_position := 0\<rparr>)"
      by (simp add: hr_record_def Let_def)
    moreover have "hr_ok (h\<lparr>hr_entries := [], hr_position := 0\<rparr>)" using assms by (simp add: hr_ok_def)
    ultimately show ?thesis
      using HoLoad Cons by (simp add: hr_load_def hr_ok_reset hr_ok_fold_record hr_ok_record)
  qed
next
  case (HoPrevious d)
  with assms show ?thesis by (auto simp: recall_previous_def hr_ok_def Let_def Suc_le_eq)
next
  case HoNext
  with assms show ?thesis by (auto simp: recall_next_def hr_ok_def Let_def)
qed (use assms in \<open>simp_all add: hr_ok_record hr_ok_reset\<close>)

interpretation history: machine "history_ring_new c" hr_step hr_ok for c
  by unfold_locales (auto intro: hr_ok_new hr_ok_step)

section \<open>Retention\<close>

definition newest :: "nat \<Rightarrow> 'a list \<Rightarrow> 'a list" where
  "newest n xs = drop (length xs - n) xs"

definition retained :: "nat \<Rightarrow> string list \<Rightarrow> string list" where
  "retained n xs = newest n (remdups_adj (filter (\<lambda>e. e \<noteq> []) xs))"

lemma newest_snoc: "0 < n \<Longrightarrow> newest n (xs @ [x]) = newest (n - 1) xs @ [x]"
  by (cases n) (auto simp: newest_def)

lemma length_newest: "length (newest n xs) = min n (length xs)"
  by (simp add: newest_def)

lemma newest_eq_Nil: "0 < n \<Longrightarrow> newest n xs = [] \<longleftrightarrow> xs = []"
  by (cases xs) (auto simp: newest_def)

lemma last_newest: "0 < n \<Longrightarrow> xs \<noteq> [] \<Longrightarrow> last (newest n xs) = last xs"
  using newest_eq_Nil [of n xs] by (simp add: newest_def)

lemma kept_newest:
  "0 < n \<Longrightarrow> (if length (newest n xs) = n then tl (newest n xs) else newest n xs) = newest (n - 1) xs"
  by (cases n) (auto simp: newest_def tl_drop drop_Suc [symmetric] Suc_diff_Suc)

lemma remdups_adj_snoc:
  "remdups_adj (xs @ [x]) = (if xs \<noteq> [] \<and> last xs = x then remdups_adj xs else remdups_adj xs @ [x])"
  by (induction xs rule: remdups_adj.induct) auto

lemma last_remdups_adj: "last (remdups_adj xs) = last xs"
  by (induction xs rule: remdups_adj.induct) auto

lemma record_retained:
  assumes "0 < hr_capacity h" "hr_entries h = retained (hr_capacity h) xs"
  shows "hr_entries (hr_record e h) = retained (hr_capacity h) (xs @ [e]) \<and> hr_capacity (hr_record e h) = hr_capacity h"
proof (cases "e = []")
  case True
  with assms show ?thesis by (simp add: hr_record_def retained_def Let_def)
next
  case False
  let ?ys = "filter (\<lambda>e. e \<noteq> []) xs" and ?n = "hr_capacity h"
  let ?zs = "remdups_adj ?ys"
  have e: "hr_entries h = newest ?n ?zs" using assms(2) by (simp add: retained_def)
  have c: "hr_entries h \<noteq> [] \<and> last (hr_entries h) = e \<longleftrightarrow> ?ys \<noteq> [] \<and> last ?ys = e"
    using newest_eq_Nil [OF assms(1), of ?zs] last_newest [OF assms(1), of ?zs] last_remdups_adj [of ?ys]
    by (auto simp: e)
  show ?thesis
  proof (cases "?ys \<noteq> [] \<and> last ?ys = e")
    case True
    with c have "hr_entries (hr_record e h) = hr_entries h" "hr_capacity (hr_record e h) = ?n"
      by (simp_all add: hr_record_def Let_def)
    with True False e show ?thesis by (simp add: retained_def remdups_adj_snoc)
  next
    case no: False
    with c False have "hr_entries (hr_record e h) =
        (if length (newest ?n ?zs) = ?n then tl (newest ?n ?zs) else newest ?n ?zs) @ [e]"
      "hr_capacity (hr_record e h) = ?n"
      by (auto simp: hr_record_def Let_def e)
    moreover have "retained ?n (xs @ [e]) = newest (?n - 1) ?zs @ [e]"
      using no False assms(1) by (auto simp: retained_def remdups_adj_snoc newest_snoc)
    ultimately show ?thesis using kept_newest [OF assms(1), of ?zs] by simp
  qed
qed

lemma fold_record_retained:
  "0 < hr_capacity h \<Longrightarrow> hr_entries h = retained (hr_capacity h) xs \<Longrightarrow>
     hr_entries (fold hr_record es h) = retained (hr_capacity h) (xs @ es) \<and>
     hr_capacity (fold hr_record es h) = hr_capacity h"
proof (induction es arbitrary: h xs)
  case (Cons e es)
  from record_retained [OF Cons.prems, of e] Cons.IH [of "hr_record e h" "xs @ [e]"] Cons.prems
  show ?case by simp
qed simp

section \<open>Walking\<close>

fun walk_back :: "nat \<Rightarrow> string \<Rightarrow> history_ring \<Rightarrow> string option list \<times> history_ring" where
  "walk_back 0 draft h = ([], h)"
| "walk_back (Suc n) draft h =
     (case recall_previous draft h of (e, h') \<Rightarrow> case walk_back n draft h' of (es, h'') \<Rightarrow> (e # es, h''))"

fun walk_forth :: "nat \<Rightarrow> history_ring \<Rightarrow> string option list \<times> history_ring" where
  "walk_forth 0 h = ([], h)"
| "walk_forth (Suc n) h =
     (case recall_next h of (e, h') \<Rightarrow> case walk_forth n h' of (es, h'') \<Rightarrow> (e # es, h''))"

text \<open>The ring \<open>p\<close> entries back, with the draft \<open>d\<close> parked.\<close>

definition parked :: "history_ring \<Rightarrow> nat \<Rightarrow> string \<Rightarrow> history_ring" where
  "parked h p d = h\<lparr>hr_position := p, hr_draft := d\<rparr>"

lemma recall_previous_parked:
  assumes "p < length (hr_entries h)" "p = 0 \<longrightarrow> draft = d"
  shows "recall_previous draft (parked h p d) =
    (Some (hr_entries h ! (length (hr_entries h) - Suc p)), parked h (Suc p) d)"
  using assms by (auto simp: recall_previous_def parked_def entry_at_position_def get_nth_def Let_def)

lemma recall_next_parked:
  assumes "p < length (hr_entries h)"
  shows "recall_next (parked h (Suc p) d) =
    (if p = 0 then (Some d, parked h 0 [])
     else (Some (hr_entries h ! (length (hr_entries h) - p)), parked h p d))"
  using assms by (auto simp: recall_next_def parked_def entry_at_position_def get_nth_def Let_def)

lemma walk_back_parked:
  "p + n \<le> length (hr_entries h) \<Longrightarrow> p = 0 \<longrightarrow> draft = d \<Longrightarrow>
     walk_back n draft (parked h p d) =
     (map (\<lambda>i. Some (hr_entries h ! (length (hr_entries h) - i))) [Suc p ..< Suc (p + n)], parked h (p + n) d)"
proof (induction n arbitrary: p)
  case (Suc n)
  from Suc.IH [of "Suc p"] Suc.prems show ?case
    by (simp add: recall_previous_parked upt_conv_Cons del: upt_Suc)
qed simp

lemma walk_forth_parked:
  "p \<le> length (hr_entries h) \<Longrightarrow> p > 0 \<Longrightarrow>
     walk_forth p (parked h p d) =
     (map (\<lambda>i. Some (hr_entries h ! (length (hr_entries h) - i))) (rev [Suc 0 ..< p]) @ [Some d], parked h 0 [])"
proof (induction p)
  case (Suc p)
  then show ?case
    by (cases p) (simp_all add: recall_next_parked [of 0, simplified] recall_next_parked Suc_le_eq)
qed simp

section \<open>Properties\<close>

text \<open>C36: the retained history. After recording any submissions in an empty ring of capacity \<open>c\<close> the
  entries are the newest \<open>max c 1\<close> of the nonempty submissions without adjacent repetitions.\<close>

theorem history_retains_newest:
  "hr_entries (fold hr_record es (history_ring_new c)) =
     newest (max c 1) (remdups_adj (filter (\<lambda>e. e \<noteq> []) es))"
  using fold_record_retained [of "history_ring_new c" "[]" es]
  by (simp add: history_ring_new_def retained_def newest_def)

text \<open>C37: recall is a faithful walk. In a ring reached by any operations, \<open>n\<close> steps back from the draft
  return the newest \<open>n\<close> entries from newest to oldest, and \<open>n\<close> steps forth return them in the other
  direction and then the draft itself; the stored entries never change.\<close>

theorem history_walk_roundtrip:
  assumes h: "h = hr_reset_position (run_ops hr_step (history_ring_new c) ops)"
    and n: "0 < n" "n \<le> length (hr_entries h)"
  shows "\<exists>h'. walk_back n draft h = (map Some (take n (newest_entries h)), h') \<and>
    walk_forth n h' = (map Some (rev (take (n - 1) (newest_entries h))) @ [Some draft], h)"
proof -
  have "hr_reset_position h = h" by (simp add: h hr_reset_position_def)
  then have h0: "parked h 0 [] = h" by (simp add: hr_reset_position_def parked_def)
  have first: "recall_previous draft h = recall_previous draft (parked h 0 draft)"
    using n recall_previous_parked [of 0 h draft draft]
    by (subst h0 [symmetric]) (auto simp: recall_previous_def parked_def Let_def entry_at_position_def get_nth_def)
  obtain m where m: "n = Suc m" using n(1) by (cases n) auto
  have start: "walk_back n draft h = walk_back n draft (parked h 0 draft)"
    by (simp add: m first)
  have bk: "walk_back n draft h =
      (map (\<lambda>i. Some (hr_entries h ! (length (hr_entries h) - i))) [Suc 0 ..< Suc n], parked h n draft)"
    unfolding start using walk_back_parked [of 0 n h draft draft] n by simp
  have list: "map (\<lambda>i. hr_entries h ! (length (hr_entries h) - i)) [Suc 0 ..< Suc k] = take k (newest_entries h)"
    if "k \<le> length (hr_entries h)" for k
    using that by (intro nth_equalityI) (auto simp: newest_entries_def rev_nth simp del: upt_Suc)
  have forth: "walk_forth n (parked h n draft) =
      (map (\<lambda>i. Some (hr_entries h ! (length (hr_entries h) - i))) (rev [Suc 0 ..< n]) @ [Some draft], h)"
    using walk_forth_parked [of n h draft] n by (simp add: h0)
  have "map (\<lambda>i. Some (hr_entries h ! (length (hr_entries h) - i))) [Suc 0 ..< Suc n] = map Some (take n (newest_entries h))"
    using list [OF n(2)] by (metis (no_types, lifting) map_map comp_apply map_eq_conv)
  moreover have "map (\<lambda>i. Some (hr_entries h ! (length (hr_entries h) - i))) (rev [Suc 0 ..< n]) =
      map Some (rev (take (n - 1) (newest_entries h)))"
    using list [of m] n(2) m by (simp add: rev_map [symmetric] flip: list)
  ultimately show ?thesis using bk forth by simp
qed

theorem history_walk_roundtrip_witness:
  "\<exists>h'. walk_back 2 ''x'' (hr_reset_position (run_ops hr_step (history_ring_new 5) [HoRecord ''a'', HoRecord ''b'', HoNext])) =
      (map Some (take 2 (newest_entries (hr_reset_position (run_ops hr_step (history_ring_new 5) [HoRecord ''a'', HoRecord ''b'', HoNext])))), h') \<and>
    walk_forth 2 h' =
      (map Some (rev (take (2 - 1) (newest_entries (hr_reset_position (run_ops hr_step (history_ring_new 5) [HoRecord ''a'', HoRecord ''b'', HoNext]))))) @ [Some ''x''],
       hr_reset_position (run_ops hr_step (history_ring_new 5) [HoRecord ''a'', HoRecord ''b'', HoNext]))"
  by (rule history_walk_roundtrip [OF refl]) code_simp+

text \<open>the bounds of the ring hold after any operations: at most the capacity of entries, none empty,
  no two neighbours equal, and a recall position within them, so the index of a recall exists.\<close>

lemma history_bounds:
  assumes h: "h = run_ops hr_step (history_ring_new c) ops"
  shows "length (hr_entries h) \<le> hr_capacity h \<and> hr_position h \<le> length (hr_entries h) \<and>
    [] \<notin> set (hr_entries h) \<and> distinct_adj (hr_entries h) \<and> (0 < hr_position h \<longrightarrow> entry_at_position h \<noteq> None)"
proof -
  have "hr_ok h" unfolding h by (rule history.inv_run)
  then show ?thesis by (auto simp: hr_ok_def entry_at_position_def get_nth_def)
qed

end
