(* ===== verification/History_Store.thy ===== *)
theory History_Store
  imports Char_Classes History_Ring
begin

text \<open>
  \<open>crates/flash-cli/src/history.rs\<close>: selection of the history file, the escaping of its entries, and
  the merge of one session into the file. The content of the file is an argument and a result; the
  permission checks, locks and I/O errors of the host are not modelled. A line of the file that is
  not UTF-8 or not a valid escape is the error the reader reports.
\<close>

section \<open>Selection\<close>

definition DEFAULT_HISTORY_CAPACITY :: nat where
  "DEFAULT_HISTORY_CAPACITY = 1000"

datatype history_platform = HpLinux | HpMacOs | HpFlashOs

datatype history_selection = HsDisabled | HsPersistent string

text \<open>\<open>PathBuf::push\<close> on a Unix host.\<close>

definition path_join :: "string \<Rightarrow> string \<Rightarrow> string" where
  "path_join base p =
     (if starts_with p ''/'' then p
      else if base \<noteq> [] \<and> last base \<noteq> CHR ''/'' then base @ ''/'' @ p
      else base @ p)"

definition absolute_root :: "string option \<Rightarrow> string option" where
  "absolute_root v = (case v of Some x \<Rightarrow> if x \<noteq> [] \<and> starts_with x ''/'' then Some x else None | None \<Rightarrow> None)"

definition select_history ::
  "bool \<Rightarrow> history_platform \<Rightarrow> (string \<Rightarrow> string option) \<Rightarrow> string + history_selection" where
  "select_history no_history platform environment =
     (if no_history then Inr HsDisabled
      else
        (let home = map_option (\<lambda>h. path_join h
               (case platform of HpMacOs \<Rightarrow> ''Library/Application Support'' | _ \<Rightarrow> ''.local/state''))
             (absolute_root (environment ''HOME''));
             root = (case absolute_root (environment ''XDG_STATE_HOME'') of Some r \<Rightarrow> Some r | None \<Rightarrow> home)
         in and_then (ok_or ''history path is unavailable: no absolute state root or home'' root)
              (\<lambda>r. Inr (HsPersistent (path_join r ''flash/history'')))))"

section \<open>Entries\<close>

datatype history_file_error = InvalidEscape scalar | UnterminatedEscape | InvalidUtf8Line

definition escape_scalar :: "scalar \<Rightarrow> scalar list" where
  "escape_scalar c =
     (if c = ch BSLASH then [ch BSLASH, ch BSLASH]
      else if c = ch NL then [ch BSLASH, ch (CHR ''n'')]
      else if c = ch CR then [ch BSLASH, ch (CHR ''r'')]
      else if c = ch NUL then [ch BSLASH, ch (CHR ''0'')]
      else [c])"

definition encode_entry :: "string \<Rightarrow> string" where
  "encode_entry entry = string_of_scalars (concat (map escape_scalar (chars entry)))"

fun decode_scalars :: "scalar list \<Rightarrow> history_file_error + scalar list" where
  "decode_scalars [] = Inr []"
| "decode_scalars (c # cs) =
     (if c \<noteq> ch BSLASH then and_then (decode_scalars cs) (\<lambda>ds. Inr (c # ds))
      else case cs of
        [] \<Rightarrow> Inl UnterminatedEscape
      | d # cs' \<Rightarrow>
          if d = ch BSLASH then and_then (decode_scalars cs') (\<lambda>ds. Inr (ch BSLASH # ds))
          else if d = ch (CHR ''n'') then and_then (decode_scalars cs') (\<lambda>ds. Inr (ch NL # ds))
          else if d = ch (CHR ''r'') then and_then (decode_scalars cs') (\<lambda>ds. Inr (ch CR # ds))
          else if d = ch (CHR ''0'') then and_then (decode_scalars cs') (\<lambda>ds. Inr (ch NUL # ds))
          else Inl (InvalidEscape d))"

definition decode_entry :: "string \<Rightarrow> history_file_error + string" where
  "decode_entry entry = and_then (decode_scalars (chars entry)) (\<lambda>cs. Inr (string_of_scalars cs))"

section \<open>The file\<close>

text \<open>\<open>BufRead::lines\<close>: a line ends at a newline, which is dropped with a carriage return before it.\<close>

fun split_lines :: "string \<Rightarrow> string \<Rightarrow> string list" where
  "split_lines acc [] = (if acc = [] then [] else [acc])"
| "split_lines acc (b # bs) =
     (if b = NL then (if acc \<noteq> [] \<and> last acc = CR then butlast acc else acc) # split_lines [] bs
      else split_lines (acc @ [b]) bs)"

definition read_line_entry :: "string \<Rightarrow> history_file_error + string" where
  "read_line_entry l = (if utf8_valid l then decode_entry l else Inl InvalidUtf8Line)"

definition read_entries :: "string \<Rightarrow> history_file_error + string list" where
  "read_entries content = try_map read_line_entry (split_lines [] content)"

definition write_entries :: "string list \<Rightarrow> string" where
  "write_entries entries = concat (map (\<lambda>e. encode_entry e @ [NL]) entries)"

record editor_history =
  eh_entries :: "string list"
  eh_pending :: "string list"
  eh_capacity :: nat
  eh_file :: "string option"

text \<open>The deduplicating loop, and the loop that drops the oldest entries.\<close>

definition push_distinct :: "string \<Rightarrow> string list \<Rightarrow> string list" where
  "push_distinct entry acc = (if acc \<noteq> [] \<and> last acc = entry then acc else acc @ [entry])"

fun pop_to :: "nat \<Rightarrow> string list \<Rightarrow> string list" where
  "pop_to n [] = []"
| "pop_to n (x # xs) = (if n < length (x # xs) then pop_to n xs else x # xs)"

definition history_sync ::
  "editor_history \<Rightarrow> string \<Rightarrow> history_file_error + (editor_history \<times> string)" where
  "history_sync h content =
     (case eh_file h of
        None \<Rightarrow> Inr (h, content)
      | Some _ \<Rightarrow>
          and_then (read_entries content) (\<lambda>old.
            (let merged = pop_to (eh_capacity h) (fold push_distinct (old @ eh_pending h) [])
             in Inr (h\<lparr>eh_entries := merged, eh_pending := []\<rparr>, write_entries merged))))"

definition history_open :: "history_selection \<Rightarrow> string \<Rightarrow> history_file_error + (editor_history \<times> string)" where
  "history_open selection content =
     (case selection of
        HsDisabled \<Rightarrow> Inr (\<lparr>eh_entries = [], eh_pending = [], eh_capacity = 0, eh_file = None\<rparr>, content)
      | HsPersistent path \<Rightarrow>
          history_sync
            \<lparr>eh_entries = [], eh_pending = [], eh_capacity = DEFAULT_HISTORY_CAPACITY, eh_file = Some path\<rparr>
            content)"

text \<open>A failed synchronisation keeps the entry pending.\<close>

definition history_record ::
  "string \<Rightarrow> editor_history \<Rightarrow> string \<Rightarrow> (history_file_error + bool) \<times> editor_history \<times> string" where
  "history_record src h content =
     (if eh_capacity h = 0 \<or> src = [] \<or> (eh_entries h \<noteq> [] \<and> last (eh_entries h) = src)
      then (Inr False, h, content)
      else
        (let h = h\<lparr>eh_pending := eh_pending h @ [src]\<rparr> in
         case history_sync h content of
           Inl e \<Rightarrow> (Inl e, h, content)
         | Inr (h', content') \<Rightarrow> (Inr True, h', content')))"

fun contains_str :: "string \<Rightarrow> string \<Rightarrow> bool" where
  "contains_str [] needle \<longleftrightarrow> needle = []"
| "contains_str (b # bs) needle \<longleftrightarrow> starts_with (b # bs) needle \<or> contains_str bs needle"

definition search_substring :: "string \<Rightarrow> editor_history \<Rightarrow> string list" where
  "search_substring needle h = filter (\<lambda>e. contains_str e needle) (rev (eh_entries h))"

definition history_clear :: "editor_history \<Rightarrow> string \<Rightarrow> editor_history \<times> string" where
  "history_clear h content =
     (h\<lparr>eh_entries := [], eh_pending := []\<rparr>, case eh_file h of None \<Rightarrow> content | Some _ \<Rightarrow> [])"

section \<open>The codec of entries\<close>

lemma ch_eq_iff [simp]: "ch a = ch b \<longleftrightarrow> a = b"
  by (simp add: ch_def)

lemma decode_escape: "decode_scalars (escape_scalar c @ cs) = and_then (decode_scalars cs) (\<lambda>ds. Inr (c # ds))"
  by (simp add: escape_scalar_def)

lemma decode_escapes: "decode_scalars (concat (map escape_scalar cs)) = Inr cs"
  by (induction cs) (simp_all add: decode_escape)

lemma is_scalar_ascii: "c < 128 \<Longrightarrow> is_scalar c"
  by (simp add: is_scalar_def)

lemma escape_scalar_scalar: "is_scalar c \<Longrightarrow> d \<in> set (escape_scalar c) \<Longrightarrow> is_scalar d"
  by (auto simp: escape_scalar_def ch_def byte_val_def is_scalar_ascii split: if_splits)

lemma escapes_scalar: "\<forall>c \<in> set cs. is_scalar c \<Longrightarrow> \<forall>d \<in> set (concat (map escape_scalar cs)). is_scalar d"
  using escape_scalar_scalar by auto

lemma escape_scalar_line: "ch NL \<notin> set (escape_scalar c) \<and> ch CR \<notin> set (escape_scalar c)"
  by (auto simp: escape_scalar_def)

lemma decode_encode_entry: "utf8_valid e \<Longrightarrow> decode_entry (encode_entry e) = Inr e"
  using escapes_scalar [of "chars e"] chars_scalar [of e]
  by (simp add: decode_entry_def encode_entry_def decode_escapes)

interpretation entry: codec encode_entry decode_entry utf8_valid
  by unfold_locales (rule decode_encode_entry)

text \<open>An encoded entry is one line: valid, and without line ends.\<close>

lemma encode_byte:
  assumes "is_scalar c" "c \<noteq> ch b" "is_ascii b"
  shows "b \<notin> set (utf8_encode c)"
proof
  assume b: "b \<in> set (utf8_encode c)"
  obtain x xs where x: "utf8_encode c = x # xs" "\<forall>y \<in> set xs. is_cont y"
    using utf8_encode_shape [OF assms(1)] by blast
  from assms(3) x(2) b x(1) have "b = x" by auto
  then have "chars (utf8_encode c) = byte_val b # chars xs" using assms(3) x(1) by simp
  with assms(1,2) show False by (simp add: ch_def byte_val_def)
qed

lemma string_of_scalars_byte:
  "\<forall>c \<in> set cs. is_scalar c \<Longrightarrow> ch b \<notin> set cs \<Longrightarrow> is_ascii b \<Longrightarrow> b \<notin> set (string_of_scalars cs)"
proof (induction cs)
  case (Cons c cs)
  then have "b \<notin> set (utf8_encode c)" by (intro encode_byte) auto
  with Cons show ?case by simp
qed simp

lemma encoded_line:
  assumes "utf8_valid e"
  shows "utf8_valid (encode_entry e) \<and> NL \<notin> set (encode_entry e) \<and> CR \<notin> set (encode_entry e)"
proof -
  let ?cs = "concat (map escape_scalar (chars e))"
  have s: "\<forall>c \<in> set ?cs. is_scalar c"
    by (rule escapes_scalar) (use assms chars_scalar in blast)
  moreover have "ch NL \<notin> set ?cs" "ch CR \<notin> set ?cs" using escape_scalar_line by auto
  moreover have "is_ascii NL" "is_ascii CR" by (simp_all add: is_ascii_def byte_val_def)
  ultimately show ?thesis
    unfolding encode_entry_def by (simp add: string_of_scalars_byte)
qed

section \<open>The file holds the entries\<close>

lemma split_lines_line:
  "NL \<notin> set l \<Longrightarrow> CR \<notin> set (acc @ l) \<Longrightarrow> split_lines acc (l @ NL # bs) = (acc @ l) # split_lines [] bs"
proof (induction l arbitrary: acc)
  case Nil
  then have "acc \<noteq> [] \<Longrightarrow> last acc \<noteq> CR" by (metis append_Nil2 last_in_set)
  then show ?case by auto
next
  case (Cons b l)
  then have "b \<noteq> NL" by auto
  with Cons show ?case by simp
qed

lemma split_lines_write:
  "list_all utf8_valid es \<Longrightarrow> split_lines [] (write_entries es) = map encode_entry es"
  by (induction es) (simp_all add: write_entries_def split_lines_line encoded_line)

lemma read_write_entries:
  assumes "list_all utf8_valid es"
  shows "read_entries (write_entries es) = Inr es"
proof -
  have "try_map read_line_entry (map encode_entry es) = try_map decode_entry (map encode_entry es)"
    using assms by (induction es) (simp_all add: read_line_entry_def encoded_line)
  with entry.dec_list [OF assms] show ?thesis by (simp add: read_entries_def split_lines_write assms)
qed

text \<open>What is read is text.\<close>

lemma decode_scalars_subset:
  "decode_scalars cs = Inr ds \<Longrightarrow> \<forall>c \<in> set cs. is_scalar c \<Longrightarrow> \<forall>d \<in> set ds. is_scalar d"
proof (induction "length cs" arbitrary: cs ds rule: less_induct)
  case less
  have a: "is_scalar (ch BSLASH)" "is_scalar (ch NL)" "is_scalar (ch CR)" "is_scalar (ch NUL)"
    by (simp_all add: ch_def is_scalar_def)
  consider "cs = []" | c cs' where "cs = c # cs'" "c \<noteq> ch BSLASH"
    | "cs = [ch BSLASH]" | d cs' where "cs = ch BSLASH # d # cs'"
    by (cases cs rule: remdups_adj.cases) auto
  then show ?case
  proof cases
    case (2 c cs')
    with less.prems(1) obtain ds' where "ds = c # ds'" "decode_scalars cs' = Inr ds'" by auto
    with less.hyps [of cs' ds'] 2 less.prems(2) show ?thesis by simp
  next
    case (4 d cs')
    with less.prems(1) obtain x ds' where "ds = x # ds'" "decode_scalars cs' = Inr ds'"
        "x \<in> {ch BSLASH, ch NL, ch CR, ch NUL}"
      by (auto split: if_split_asm)
    moreover from less.hyps [of cs' ds'] this(2) 4 less.prems(2) have "\<forall>d \<in> set ds'. is_scalar d" by simp
    ultimately show ?thesis using a by auto
  qed (use less.prems in simp_all)
qed

lemma read_line_entry_valid:
  assumes "read_line_entry l = Inr e"
  shows "utf8_valid e"
proof -
  from assms obtain ds where "utf8_valid l" "decode_scalars (chars l) = Inr ds" "e = string_of_scalars ds"
    by (auto simp: read_line_entry_def decode_entry_def simp del: decode_scalars.simps split: if_splits)
  moreover from this decode_scalars_subset have "\<forall>d \<in> set ds. is_scalar d" by (meson chars_scalar)
  ultimately show ?thesis by simp
qed

lemma try_map_entries_valid: "try_map read_line_entry ls = Inr es \<Longrightarrow> list_all utf8_valid es"
  by (induction ls arbitrary: es) (auto intro: read_line_entry_valid)

lemma read_entries_valid: "read_entries content = Inr es \<Longrightarrow> list_all utf8_valid es"
  unfolding read_entries_def by (rule try_map_entries_valid)

section \<open>Synchronisation\<close>

lemma pop_to_newest: "pop_to n xs = newest n xs"
  by (induction n xs rule: pop_to.induct) (auto simp: newest_def Suc_diff_le not_less)

lemma fold_push_distinct: "fold push_distinct es (remdups_adj xs) = remdups_adj (xs @ es)"
proof (induction es arbitrary: xs)
  case (Cons e es)
  have "push_distinct e (remdups_adj xs) = remdups_adj (xs @ [e])"
    by (simp add: push_distinct_def remdups_adj_snoc last_remdups_adj)
  with Cons [of "xs @ [e]"] show ?case by simp
qed simp

lemma history_sync_eq:
  assumes "eh_file h = Some path"
  shows "history_sync h content = and_then (read_entries content) (\<lambda>old.
    (let merged = newest (eh_capacity h) (remdups_adj (old @ eh_pending h))
     in Inr (h\<lparr>eh_entries := merged, eh_pending := []\<rparr>, write_entries merged)))"
proof -
  have "fold push_distinct es [] = remdups_adj es" for es
    using fold_push_distinct [of es "[]"] by simp
  then show ?thesis using assms by (simp add: history_sync_def pop_to_newest del: fold_append)
qed

lemma newest_valid: "list_all utf8_valid xs \<Longrightarrow> list_all utf8_valid (newest n (remdups_adj xs))"
  unfolding newest_def list_all_iff by (metis in_set_dropD remdups_adj_set)

lemma newest_idem: "newest n (newest n xs) = newest n xs"
  by (simp add: newest_def)

lemma distinct_adj_newest: "distinct_adj xs \<Longrightarrow> distinct_adj (newest n xs)"
  by (metis newest_def append_take_drop_id distinct_adj_append_iff)

section \<open>Properties\<close>

text \<open>C38: the history file is faithful. A successful synchronisation retains the newest entries of the
  file followed by the pending ones, without adjacent repetitions and within the capacity; the file
  it writes reads back as exactly these entries, and synchronising again changes nothing.\<close>

theorem history_sync_faithful:
  assumes "eh_file h = Some path" "list_all utf8_valid (eh_pending h)" "read_entries content = Inr old"
  shows "\<exists>h' content'. history_sync h content = Inr (h', content') \<and>
    eh_entries h' = newest (eh_capacity h) (remdups_adj (old @ eh_pending h)) \<and> eh_pending h' = [] \<and>
    read_entries content' = Inr (eh_entries h') \<and> history_sync h' content' = Inr (h', content')"
proof -
  let ?m = "newest (eh_capacity h) (remdups_adj (old @ eh_pending h))"
  let ?h = "h\<lparr>eh_entries := ?m, eh_pending := []\<rparr>"
  have s: "history_sync h content = Inr (?h, write_entries ?m)"
    using assms(3) by (simp add: history_sync_eq [OF assms(1)] Let_def)
  have v: "list_all utf8_valid ?m"
    using read_entries_valid [OF assms(3)] assms(2) by (intro newest_valid) simp
  then have r: "read_entries (write_entries ?m) = Inr ?m" by (rule read_write_entries)
  have "distinct_adj ?m" by (simp add: distinct_adj_newest)
  then have "remdups_adj ?m = ?m" by (simp add: distinct_adj_altdef)
  with r have "history_sync ?h (write_entries ?m) = Inr (?h, write_entries ?m)"
    using assms(1) by (simp add: history_sync_eq newest_idem Let_def)
  with s r show ?thesis by (intro exI [of _ ?h] exI [of _ "write_entries ?m"]) simp
qed

theorem history_sync_faithful_witness:
  "\<exists>h' content'.
     history_sync \<lparr>eh_entries = [], eh_pending = [''b'' @ [NL]], eh_capacity = 1, eh_file = Some ''f''\<rparr> (''a'' @ [NL]) =
       Inr (h', content') \<and>
     eh_entries h' = newest 1 (remdups_adj ([''a''] @ [''b'' @ [NL]])) \<and> eh_pending h' = [] \<and>
     read_entries content' = Inr (eh_entries h') \<and> history_sync h' content' = Inr (h', content')"
proof -
  let ?h = "\<lparr>eh_entries = [], eh_pending = [''b'' @ [NL]], eh_capacity = 1, eh_file = Some ''f''\<rparr>"
  have 1: "eh_file ?h = Some ''f''" by simp
  have 2: "list_all utf8_valid (eh_pending ?h)" by code_simp
  have 3: "read_entries (''a'' @ [NL]) = Inr [''a'']" by code_simp
  from history_sync_faithful [OF 1 2 3] show ?thesis by simp
qed

end
