(* ===== verification/Document_Uri.thy ===== *)
theory Document_Uri
  imports Utf8
begin

text \<open>
  \<open>crates/flash-lsp/src/uri.rs\<close> on a Unix host: document URIs and native paths, both as bytes. The
  encoder and the decoder form a codec on the absolute paths without NUL.
\<close>

section \<open>Characters\<close>

datatype file_uri_error =
    UnsupportedScheme
  | UnsupportedAuthority
  | RelativePath
  | InvalidPercentEncoding
  | QueryOrFragment
  | NulByte
  | NonAsciiUri
  | InvalidUriCharacter

fun file_uri_error_message :: "file_uri_error \<Rightarrow> string" where
  "file_uri_error_message UnsupportedScheme = ''document URI does not use the file scheme''"
| "file_uri_error_message UnsupportedAuthority = ''file URI has a non-local authority''"
| "file_uri_error_message RelativePath = ''file URI path is not absolute''"
| "file_uri_error_message InvalidPercentEncoding = ''file URI has invalid percent encoding''"
| "file_uri_error_message QueryOrFragment = ''file URI contains a query or fragment''"
| "file_uri_error_message NulByte = ''file URI path contains a NUL byte''"
| "file_uri_error_message NonAsciiUri = ''file URI contains an unencoded non-ASCII byte''"
| "file_uri_error_message InvalidUriCharacter = ''file URI path contains an unencoded invalid character''"

definition uri_hex_value :: "char \<Rightarrow> nat option" where
  "uri_hex_value b =
     (let x = byte_val b in
      if 48 \<le> x \<and> x \<le> 57 then Some (x - 48)
      else if 97 \<le> x \<and> x \<le> 102 then Some (x - 97 + 10)
      else if 65 \<le> x \<and> x \<le> 70 then Some (x - 65 + 10)
      else None)"

definition is_unreserved :: "char \<Rightarrow> bool" where
  "is_unreserved b \<longleftrightarrow> is_ascii_alphanumeric b \<or> b \<in> set ''-._~''"

definition is_path_character :: "char \<Rightarrow> bool" where
  "is_path_character b \<longleftrightarrow> is_unreserved b \<or> b \<in> set (''/!$&'' @ [SQUOTE] @ ''()*+,;=:@'')"

section \<open>Encoding\<close>

definition hex_digit :: "nat \<Rightarrow> char" where
  "hex_digit n = ''0123456789ABCDEF'' ! n"

definition encode_byte :: "char \<Rightarrow> string" where
  "encode_byte b =
     (if is_unreserved b \<or> b = CHR ''/'' then [b]
      else [CHR ''%'', hex_digit (byte_val b div 16), hex_digit (byte_val b mod 16)])"

definition uri_from_absolute_path :: "string \<Rightarrow> file_uri_error + string" where
  "uri_from_absolute_path path =
     (if \<not> starts_with path ''/'' then Inl RelativePath
      else if NUL \<in> set path then Inl NulByte
      else Inr (''file://'' @ concat (map encode_byte path)))"

section \<open>Decoding\<close>

fun percent_decode :: "string \<Rightarrow> file_uri_error + string" where
  "percent_decode [] = Inr []"
| "percent_decode (b # bs) =
     (if b = CHR ''%'' then
        (case bs of
           [] \<Rightarrow> Inl InvalidPercentEncoding
         | h # bs' \<Rightarrow>
             (case uri_hex_value h of
                None \<Rightarrow> Inl InvalidPercentEncoding
              | Some high \<Rightarrow>
                  (case bs' of
                     [] \<Rightarrow> Inl InvalidPercentEncoding
                   | l # bs'' \<Rightarrow>
                       (case uri_hex_value l of
                          None \<Rightarrow> Inl InvalidPercentEncoding
                        | Some low \<Rightarrow>
                            and_then (percent_decode bs'') (\<lambda>r. Inr (char_of (high * 16 + low) # r))))))
      else if \<not> is_path_character b then Inl InvalidUriCharacter
      else and_then (percent_decode bs) (\<lambda>r. Inr (b # r)))"

definition split_once :: "char \<Rightarrow> string \<Rightarrow> (string \<times> string) option" where
  "split_once b s =
     (case position (\<lambda>x. x = b) s of None \<Rightarrow> None | Some i \<Rightarrow> Some (take i s, drop (Suc i) s))"

definition to_ascii_lower :: "char \<Rightarrow> char" where
  "to_ascii_lower b = (if 65 \<le> byte_val b \<and> byte_val b \<le> 90 then char_of (byte_val b + 32) else b)"

definition decode_file_uri :: "string \<Rightarrow> file_uri_error + string" where
  "decode_file_uri uri =
     (if \<not> list_all is_ascii uri then Inl NonAsciiUri
      else case split_once (CHR '':'') uri of
        None \<Rightarrow> Inl UnsupportedScheme
      | Some (scheme, remainder) \<Rightarrow>
          if map to_ascii_lower scheme \<noteq> ''file'' then Inl UnsupportedScheme
          else if CHR ''?'' \<in> set remainder \<or> CHR ''#'' \<in> set remainder then Inl QueryOrFragment
          else
            and_then
              (case strip_prefix ''//'' remainder of
                 Some p \<Rightarrow> if starts_with p ''/'' then Inr p else Inl UnsupportedAuthority
               | None \<Rightarrow> Inr remainder)
              (\<lambda>encoded.
                if \<not> starts_with encoded ''/'' then Inl RelativePath
                else and_then (percent_decode encoded) (\<lambda>decoded.
                       if NUL \<in> set decoded then Inl NulByte else Inr decoded)))"

text \<open>A validated URI is its spelling.\<close>

definition uri_parse :: "string \<Rightarrow> file_uri_error + string" where
  "uri_parse uri = and_then (decode_file_uri uri) (\<lambda>_. Inr uri)"

definition uri_to_file_path :: "string \<Rightarrow> file_uri_error + string" where
  "uri_to_file_path uri = decode_file_uri uri"

section \<open>Decoding inverts encoding\<close>

lemma hex_digit_value: "n < 16 \<Longrightarrow> uri_hex_value (hex_digit n) = Some n"
proof -
  have "list_all (\<lambda>n. uri_hex_value (hex_digit n) = Some n) [0..<16]" by code_simp
  then show "n < 16 \<Longrightarrow> uri_hex_value (hex_digit n) = Some n" by (simp add: list_all_iff)
qed

lemma hex_digit_class: "n < 16 \<Longrightarrow> is_ascii (hex_digit n) \<and> hex_digit n \<notin> set ''?#:''"
proof -
  have "list_all (\<lambda>n. is_ascii (hex_digit n) \<and> hex_digit n \<notin> set ''?#:'') [0..<16]" by code_simp
  then show "n < 16 \<Longrightarrow> is_ascii (hex_digit n) \<and> hex_digit n \<notin> set ''?#:''" by (simp add: list_all_iff)
qed

text \<open>A fact about every byte is checked on the 256 of them.\<close>

lemma all_bytes: "list_all P (map char_of [0..<256 :: nat]) \<Longrightarrow> P b"
proof -
  assume "list_all P (map char_of [0..<256 :: nat])"
  then have "\<forall>n < 256. P (char_of (n :: nat))" by (simp add: list_all_iff)
  then have "P (char_of (byte_val b))" using byte_val_lt by blast
  then show "P b" by simp
qed

lemma plain_byte:
  "is_unreserved b \<or> b = CHR ''/'' \<longrightarrow>
     is_path_character b \<and> b \<noteq> CHR ''%'' \<and> is_ascii b \<and> b \<notin> set ''?#:''"
  by (rule all_bytes [of _ b]) code_simp

lemma percent_decode_byte:
  "percent_decode (encode_byte b @ bs) = and_then (percent_decode bs) (\<lambda>r. Inr (b # r))"
proof (cases "is_unreserved b \<or> b = CHR ''/''")
  case True
  then have "encode_byte b = [b]" by (simp add: encode_byte_def)
  with plain_byte [of b] True show ?thesis by simp
next
  case False
  then have "encode_byte b = [CHR ''%'', hex_digit (byte_val b div 16), hex_digit (byte_val b mod 16)]"
    by (simp add: encode_byte_def)
  moreover have "byte_val b div 16 < 16" by (simp add: less_mult_imp_div_less)
  moreover have "byte_val b div 16 * 16 + byte_val b mod 16 = byte_val b" by simp
  ultimately show ?thesis by (simp add: hex_digit_value)
qed

lemma percent_decode_encode: "percent_decode (concat (map encode_byte p)) = Inr p"
  by (induction p) (simp_all add: percent_decode_byte)

lemma encode_byte_class: "x \<in> set (encode_byte b) \<Longrightarrow> is_ascii x \<and> x \<notin> set ''?#:''"
proof (cases "is_unreserved b \<or> b = CHR ''/''")
  case True
  assume "x \<in> set (encode_byte b)"
  with True plain_byte [of b] show ?thesis by (simp add: encode_byte_def)
next
  case False
  assume x: "x \<in> set (encode_byte b)"
  have "is_ascii (CHR ''%'') \<and> CHR ''%'' \<notin> set ''?#:''" by code_simp
  moreover have "byte_val b div 16 < 16" "byte_val b mod 16 < 16" by (simp_all add: less_mult_imp_div_less)
  ultimately show ?thesis
    using False x hex_digit_class by (auto simp only: encode_byte_def if_False set_simps insert_iff empty_iff)
qed

lemma encoded_class: "x \<in> set (concat (map encode_byte p)) \<Longrightarrow> is_ascii x \<and> x \<notin> set ''?#:''"
  using encode_byte_class by auto

definition absolute_path :: "string \<Rightarrow> bool" where
  "absolute_path p \<longleftrightarrow> starts_with p ''/'' \<and> NUL \<notin> set p"

definition uri_of :: "string \<Rightarrow> string" where
  "uri_of p = ''file://'' @ concat (map encode_byte p)"

lemma decode_uri_of:
  assumes "absolute_path p"
  shows "decode_file_uri (uri_of p) = Inr p"
proof -
  let ?e = "concat (map encode_byte p)"
  from assms obtain p' where p: "p = CHR ''/'' # p'" "NUL \<notin> set p"
    by (auto simp: absolute_path_def starts_with_iff)
  have e: "?e = CHR ''/'' # concat (map encode_byte p')" by (simp add: p(1) encode_byte_def)
  have fl: "list_all is_ascii ''file://''" by code_simp
  have 1: "list_all is_ascii (uri_of p)"
    using fl encoded_class by (auto simp: uri_of_def list_all_iff)
  have 2: "split_once (CHR '':'') (uri_of p) = Some (''file'', ''//'' @ ?e)"
    by (simp add: uri_of_def split_once_def)
  have 3: "map to_ascii_lower ''file'' = ''file''" by code_simp
  have 4: "CHR ''?'' \<notin> set (''//'' @ ?e)" "CHR ''#'' \<notin> set (''//'' @ ?e)"
    using encoded_class [of "CHR ''?''" p] encoded_class [of "CHR ''#''" p] by (auto simp del: set_concat)
  have 5: "strip_prefix ''//'' (''//'' @ ?e) = Some ?e" by (simp add: strip_prefix_def)
  have 6: "starts_with ?e ''/''" by (simp add: e)
  show ?thesis
    using 1 2 3 4 5 6 p(2) percent_decode_encode [of p] by (simp add: decode_file_uri_def)
qed

interpretation uri: codec uri_of decode_file_uri absolute_path
  by unfold_locales (rule decode_uri_of)

section \<open>Properties\<close>

text \<open>C39: document URIs are lossless. Every absolute path without NUL has a URI, which is valid and
  decodes to exactly that path; two paths with the same URI are equal; and every other path is
  refused.\<close>

theorem uri_path_roundtrip:
  "case uri_from_absolute_path p of
     Inl _ \<Rightarrow> \<not> (starts_with p ''/'' \<and> NUL \<notin> set p)
   | Inr u \<Rightarrow>
       starts_with p ''/'' \<and> NUL \<notin> set p \<and> uri_parse u = Inr u \<and> uri_to_file_path u = Inr p \<and>
       (\<forall>q. uri_from_absolute_path q = Inr u \<longrightarrow> q = p)"
proof -
  have enc: "uri_from_absolute_path r = Inr u \<longleftrightarrow> absolute_path r \<and> u = uri_of r" for r u
    by (auto simp: uri_from_absolute_path_def absolute_path_def uri_of_def)
  show ?thesis
  proof (cases "absolute_path p")
    case True
    then have "uri_from_absolute_path p = Inr (uri_of p)" by (simp add: enc)
    moreover have "decode_file_uri (uri_of p) = Inr p" using True by (rule decode_uri_of)
    moreover have "\<forall>q. uri_from_absolute_path q = Inr (uri_of p) \<longrightarrow> q = p"
      using True by (metis enc uri.enc_inject)
    ultimately show ?thesis
      using True by (simp add: uri_parse_def uri_to_file_path_def) (simp add: absolute_path_def)
  next
    case False
    then have "\<not> (\<exists>u. uri_from_absolute_path p = Inr u)" by (simp add: enc)
    with False show ?thesis by (cases "uri_from_absolute_path p") (auto simp: absolute_path_def)
  qed
qed

theorem uri_path_roundtrip_witness:
  "uri_to_file_path ''file:///a%20b/%C3%A9'' = Inr (''/a b/'' @ [char_of (0xC3 :: nat), char_of (0xA9 :: nat)])"
proof -
  have e: "uri_from_absolute_path (''/a b/'' @ [char_of (0xC3 :: nat), char_of (0xA9 :: nat)]) =
      Inr ''file:///a%20b/%C3%A9''" by code_simp
  from uri_path_roundtrip [of "''/a b/'' @ [char_of (0xC3 :: nat), char_of (0xA9 :: nat)]"]
  show ?thesis unfolding e sum.case by (elim conjE)
qed

end
