(* ===== verification/Ast.thy ===== *)
theory Ast
  imports Lexer
begin

text \<open>
  The syntax tree of \<open>flash-syntax/src/ast.rs\<close>: one constructor or datatype per type of the source, with
  the fields in the order of the source. A struct that only wraps the fields of one enum variant
  (\<open>CallExpression\<close>, \<open>IfStatement\<close>, \<dots>) is inlined into its constructor where nothing else uses it, and
  \<open>Box\<close> is transparent. Spellings are not stored: like the source, the tree keeps spans.
\<close>

section \<open>Nodes, names and types\<close>

datatype 'k ast_node = AstNode (node_kind: 'k) (node_span: span)

datatype ident = Identifier (ident_span: span)

datatype qualified_name = QualifiedName (qn_segments: "ident list") (qn_span: span)

datatype variable_reference = VariableReference (vr_name: ident) (vr_span: span)

datatype type_reference =
  TypeRef (type_name: ident) (type_arguments: "type_reference list") (type_span: span)

datatype type_constraint = TcEqual | TcOrdered

datatype type_parameter =
  TypeParameter (tp_name: ident) (tp_constraints: "type_constraint list") (tp_span: span)

datatype unary_operator = UnNot | UnPositive | UnNegative

datatype binary_operator =
    BinMultiply | BinDivide | BinRemainder | BinAdd | BinSubtract | BinRange | BinRangeInclusive
  | BinLess | BinLessEqual | BinGreater | BinGreaterEqual | BinIn | BinEqual | BinNotEqual

datatype conditional_operator = CondOr
datatype and_operator = CondAnd
datatype pipe_operator = PipeStdout | PipeStdoutAndStderr
datatype command_capture_kind = CaptureText | CaptureBytes
datatype command_head_kind = HeadBare | HeadForcedExternal
datatype output_mode = OutTruncate | OutAppend
datatype io_number = IoNumber (io_span: span)

section \<open>Expressions, patterns, pipelines and words\<close>

text \<open>
  In the source these types are mutually recursive through expressions and conditional chains. Here each
  takes the two as parameters \<open>'e\<close> and \<open>'c\<close>, and the last datatype ties the knot; the synonyms after it
  are the types of the source.
\<close>

datatype 'c command_substitution =
  CommandSubstitution (cs_capture: command_capture_kind) (cs_modifier_span: "span option")
    (cs_chain: 'c)

datatype ('e, 'c) word_part_kind =
    WpBare
  | WpBareEscape
  | WpSingleQuoted
  | WpDoubleQuoted "('e, 'c) word_part_kind ast_node list"
  | WpDoubleText
  | WpDoubleEscape
  | WpVariable ident
  | WpBracedInterpolation 'e
  | WpCommandSubstitution "'c command_substitution"

datatype ('e, 'c) literal_kind =
    LkNull
  | LkBoolean bool
  | LkInteger
  | LkFloat
  | LkSingleQuoted
  | LkDoubleQuoted "('e, 'c) word_part_kind ast_node list"

datatype ('e, 'c) literal = Literal (literal_kind: "('e, 'c) literal_kind") (literal_span: span)

datatype ('e, 'c) record_key =
    RkIdentifier ident
  | RkSingleQuoted span
  | RkDoubleQuoted "('e, 'c) word_part_kind ast_node"

datatype ('e, 'c) record_entry =
  RecordEntry (re_key: "('e, 'c) record_key") (re_value: 'e) (re_span: span)

datatype 'e nominal_field = NominalField (nf_name: ident) (nf_value: 'e) (nf_span: span)

datatype 'p pattern_field = PatternField (pf_name: ident) (pf_pattern: 'p) (pf_span: span)

datatype ('e, 'c) pattern =
    PatWildcard span
  | PatLiteral "('e, 'c) literal"
  | PatBinding ident
  | PatList "('e, 'c) pattern list" "ident option" span
  | PatNominalRecord qualified_name "('e, 'c) pattern pattern_field list" span
  | PatVariant qualified_name "('e, 'c) pattern list" span

datatype ('e, 'c) parameter =
  Parameter (pm_pattern: "('e, 'c) pattern") (pm_name: ident)
    (pm_type_annotation: "type_reference option") (pm_span: span)

datatype ('e, 'c) closure =
  Closure (cl_parameters: "('e, 'c) parameter list") (cl_result_type: "type_reference option")
    (cl_body: 'c) (cl_span: span)

datatype ('e, 'c) command_word =
  Word (word_parts: "('e, 'c) word_part_kind ast_node list") (word_span: span)

datatype ('e, 'c) redirection_kind =
    RdInput "io_number option" span "('e, 'c) command_word"
  | RdFile "io_number option" output_mode span "('e, 'c) command_word"
  | RdDuplicate io_number span io_number
  | RdClose io_number span span

datatype ('e, 'c) command_head =
  CommandHead (ch_kind: command_head_kind) (ch_word: "('e, 'c) command_word") (ch_span: span)

datatype ('e, 'c) command_item_kind =
    CiWord "('e, 'c) command_word"
  | CiSpread variable_reference
  | CiClosure "('e, 'c) closure"
  | CiRedirection "('e, 'c) redirection_kind ast_node"

datatype ('e, 'c) stage_kind =
    SkCommand "('e, 'c) command_head" "('e, 'c) command_item_kind ast_node list"
  | SkExpression 'e

datatype ('e, 'c) pipeline =
  Pipeline (pl_stages: "('e, 'c) stage_kind ast_node list")
    (pl_operators: "pipe_operator ast_node list") (pl_span: span)

datatype ('e, 'c) and_chain =
  AndChain (and_terms: "('e, 'c) pipeline list") (ac_operators: "and_operator ast_node list")
    (ac_span: span)

datatype expression_kind =
    EkLiteral "(expression_kind ast_node, conditional_chain) literal"
  | EkVariable variable_reference
  | EkSymbol ident
  | EkQualified qualified_name
  | EkList "expression_kind ast_node list"
  | EkRecord "(expression_kind ast_node, conditional_chain) record_entry list"
  | EkNominalRecord qualified_name "expression_kind ast_node nominal_field list"
  | EkClosure "(expression_kind ast_node, conditional_chain) closure"
  | EkCommandSubstitution "conditional_chain command_substitution"
  | EkGroupedJob conditional_chain
  | EkCall "expression_kind ast_node" "type_reference list" "expression_kind ast_node list"
  | EkIndex "expression_kind ast_node" "expression_kind ast_node"
  | EkMember "expression_kind ast_node" ident
  | EkUnary "unary_operator ast_node" "expression_kind ast_node"
  | EkBinary "expression_kind ast_node" "binary_operator ast_node" "expression_kind ast_node"
and conditional_chain =
  ConditionalChain (or_terms: "(expression_kind ast_node, conditional_chain) and_chain list")
    (cc_operators: "conditional_operator ast_node list") (cc_span: span)

type_synonym expression = "expression_kind ast_node"
type_synonym word_part = "(expression, conditional_chain) word_part_kind ast_node"
type_synonym literal_syntax = "(expression, conditional_chain) literal"
type_synonym record_entry_syntax = "(expression, conditional_chain) record_entry"
type_synonym pattern_syntax = "(expression, conditional_chain) pattern"
type_synonym parameter_syntax = "(expression, conditional_chain) parameter"
type_synonym closure_syntax = "(expression, conditional_chain) closure"
type_synonym word_syntax = "(expression, conditional_chain) command_word"
type_synonym redirection = "(expression, conditional_chain) redirection_kind ast_node"
type_synonym command_item = "(expression, conditional_chain) command_item_kind ast_node"
type_synonym stage = "(expression, conditional_chain) stage_kind ast_node"
type_synonym pipeline_syntax = "(expression, conditional_chain) pipeline"
type_synonym and_chain_syntax = "(expression, conditional_chain) and_chain"

section \<open>Statements\<close>

datatype module_import_source = LocalModule span | StandardModule ident ident span

datatype nominal_type_field =
  NominalTypeField (ntf_name: ident) (ntf_type: type_reference) (ntf_span: span)

datatype variant_declaration =
  VariantDeclaration (vd_name: ident) (vd_payload: "type_reference list") (vd_span: span)

datatype control_transfer = CtBreak | CtContinue | CtReturn "expression option"

datatype environment_statement = EnvExport ident expression | EnvUnset ident

datatype 's block = Block (block_statements: "'s list") (block_span: span)

datatype 's if_statement =
  IfStatement (if_condition: conditional_chain) (if_then: "'s block") (if_else: "'s else_branch option")
and 's else_branch =
    ElseBlock "'s block"
  | ElseIf "'s if_statement ast_node"

datatype 's match_arm =
  MatchArm (ma_pattern: pattern_syntax) (ma_guard: "expression option") (ma_body: "'s block")
    (ma_span: span)

datatype statement_kind =
    StImport "ident list" span
  | StModuleImport module_import_source ident
  | StModuleExport "ident list"
  | StNominalType ident "type_parameter list" "nominal_type_field list"
  | StVariantType ident "type_parameter list" "variant_declaration list"
  | StDeclaration bool pattern_syntax ident "type_reference option" expression
  | StAssignment variable_reference expression
  | StEnvironment environment_statement
  | StFunction "span list option" ident "type_parameter list" "parameter_syntax list"
      "type_reference option" "statement_kind ast_node block"
  | StIf "statement_kind ast_node if_statement"
  | StWhile conditional_chain "statement_kind ast_node block"
  | StFor ident expression "statement_kind ast_node block"
  | StMatch expression "statement_kind ast_node match_arm list"
  | StTry "statement_kind ast_node block" ident "statement_kind ast_node block"
  | StThrow expression
  | StControl control_transfer
  | StJob conditional_chain "span option"

type_synonym statement = "statement_kind ast_node"

datatype script = Script (script_statements: "statement list") (script_span: span)

end
