(* ===== verification/Parser_Core.thy ===== *)
theory Parser_Core
  imports Ast Classification Language
begin

text \<open>
  The state and the primitive steps of the recursive descent parser of \<open>flash-syntax/src/parser.rs\<close>.

  A method of \<open>Parser\<close> is a function from the immutable fields (\<open>parser_env\<close>) and the mutable ones
  (\<open>parser_state\<close>) to \<open>Parsed r s\<close>, where \<open>r\<close> is the method's \<open>ParseResult\<close> and \<open>s\<close> the state it leaves,
  also when it fails; to \<open>ParserPanic\<close>, where an \<open>expect\<close> fails; or to \<open>ParserDiverged\<close>, where the fuel is
  used up. \<open>pe_fuel\<close> bounds the rounds of each loop and the depth of the recursion; nothing in the source
  corresponds to it. The predicate \<open>is_cancelled\<close> is asked in sequence: \<open>pe_cancelled e n\<close> is its answer
  to the \<open>n\<close>-th question, \<open>ps_polls\<close> the number of questions so far.
\<close>

section \<open>State\<close>

datatype parse_error =
    PeIncomplete incomplete_input
  | PeInvalid diagnostic
  | PeInvalidMany "diagnostic list"
  | PeCancelled

record parser_env =
  pe_source :: source_file
  pe_tokens :: "token list"
  pe_language :: language_major
  pe_cancelled :: "nat \<Rightarrow> bool"
  pe_fuel :: nat

record parser_state =
  ps_position :: nat
  ps_depth :: nat \<comment> \<open>\<open>continuation_depth\<close>\<close>
  ps_diagnostics :: "diagnostic list"
  ps_polls :: nat

datatype 'a parsed = Parsed "parse_error + 'a" parser_state | ParserPanic | ParserDiverged

type_synonym 'a parser = "parser_env \<Rightarrow> parser_state \<Rightarrow> 'a parsed"

definition parser_new :: parser_state where
  "parser_new = \<lparr>ps_position = 0, ps_depth = 0, ps_diagnostics = [], ps_polls = 0\<rparr>"

section \<open>Sequencing\<close>

definition pure :: "'a \<Rightarrow> 'a parser" where
  "pure x = (\<lambda>e s. Parsed (Inr x) s)"

definition fail :: "parse_error \<Rightarrow> 'a parser" where
  "fail err = (\<lambda>e s. Parsed (Inl err) s)"

definition panic :: "'a parser" where
  "panic = (\<lambda>e s. ParserPanic)"

definition diverge :: "'a parser" where
  "diverge = (\<lambda>e s. ParserDiverged)"

text \<open>\<open>pbind m f\<close> is \<open>let x = m?; f(x)\<close>, \<open>pseq m k\<close> is \<open>m?; k\<close>, \<open>asks g\<close> reads through \<open>&self\<close>.\<close>

definition pbind :: "'a parser \<Rightarrow> ('a \<Rightarrow> 'b parser) \<Rightarrow> 'b parser" where
  "pbind m f = (\<lambda>e s.
     case m e s of
       Parsed (Inr x) s' \<Rightarrow> f x e s'
     | Parsed (Inl err) s' \<Rightarrow> Parsed (Inl err) s'
     | ParserPanic \<Rightarrow> ParserPanic
     | ParserDiverged \<Rightarrow> ParserDiverged)"

definition pseq :: "unit parser \<Rightarrow> 'b parser \<Rightarrow> 'b parser" where
  "pseq m k = pbind m (\<lambda>_. k)"

definition asks :: "(parser_env \<Rightarrow> parser_state \<Rightarrow> 'a) \<Rightarrow> 'a parser" where
  "asks g = (\<lambda>e s. Parsed (Inr (g e s)) s)"

definition updates :: "(parser_state \<Rightarrow> parser_state) \<Rightarrow> unit parser" where
  "updates g = (\<lambda>e s. Parsed (Inr ()) (g s))"

text \<open>\<open>match m { Ok(x) => f(x), Err(err) => h(err) }\<close>\<close>

definition pcatch :: "'a parser \<Rightarrow> (parse_error \<Rightarrow> 'b parser) \<Rightarrow> ('a \<Rightarrow> 'b parser) \<Rightarrow> 'b parser" where
  "pcatch m h f = (\<lambda>e s.
     case m e s of
       Parsed (Inr x) s' \<Rightarrow> f x e s'
     | Parsed (Inl err) s' \<Rightarrow> h err e s'
     | ParserPanic \<Rightarrow> ParserPanic
     | ParserDiverged \<Rightarrow> ParserDiverged)"

text \<open>A loop: each round ends it with \<open>Inl\<close> or continues it with \<open>Inr\<close>.\<close>

fun rounds :: "nat \<Rightarrow> ('a \<Rightarrow> ('b + 'a) parser) \<Rightarrow> 'a \<Rightarrow> 'b parser" where
  "rounds 0 body a = diverge"
| "rounds (Suc n) body a =
     pbind (body a) (\<lambda>r. case r of Inl b \<Rightarrow> pure b | Inr a' \<Rightarrow> rounds n body a')"

definition ploop :: "('a \<Rightarrow> ('b + 'a) parser) \<Rightarrow> 'a \<Rightarrow> 'b parser" where
  "ploop body a = (\<lambda>e s. rounds (pe_fuel e) body a e s)"

section \<open>Reading tokens\<close>

definition current :: "parser_env \<Rightarrow> parser_state \<Rightarrow> token option" where
  "current e s = get_nth (pe_tokens e) (ps_position s)"

definition current_kind :: "parser_env \<Rightarrow> parser_state \<Rightarrow> token_kind option" where
  "current_kind e s = map_option tk_kind (current e s)"

definition is_end :: "parser_env \<Rightarrow> parser_state \<Rightarrow> bool" where
  "is_end e s \<longleftrightarrow> length (pe_tokens e) \<le> ps_position s"

definition at_kind :: "token_kind \<Rightarrow> parser_env \<Rightarrow> parser_state \<Rightarrow> bool" where
  "at_kind k e s \<longleftrightarrow> current_kind e s = Some k"

definition at_delimiter :: "delimiter option \<Rightarrow> parser_env \<Rightarrow> parser_state \<Rightarrow> bool" where
  "at_delimiter d e s \<longleftrightarrow> (case d of None \<Rightarrow> False | Some d \<Rightarrow> at_kind (TkDelimiter d) e s)"

definition at_keyword :: "keyword \<Rightarrow> parser_env \<Rightarrow> parser_state \<Rightarrow> bool" where
  "at_keyword k = at_kind (TkKeyword k)"

definition at_statement_separator :: "parser_env \<Rightarrow> parser_state \<Rightarrow> bool" where
  "at_statement_separator e s \<longleftrightarrow>
     at_kind TkNewline e s \<or> at_kind (TkOperator OpSemicolon) e s"

definition move_position :: "nat \<Rightarrow> unit parser" where
  "move_position n = updates (\<lambda>s. s\<lparr>ps_position := ps_position s + n\<rparr>)"

definition take_token :: "token option parser" where
  "take_token = pbind (asks current) (\<lambda>t.
     case t of None \<Rightarrow> pure None | Some t \<Rightarrow> pseq (move_position 1) (pure (Some t)))"

text \<open>\<open>self.take().expect(\<dots>)\<close>\<close>

definition take_expected :: "token parser" where
  "take_expected = pbind take_token (\<lambda>t. case t of None \<Rightarrow> panic | Some t \<Rightarrow> pure t)"

definition take_kind :: "token_kind \<Rightarrow> token option parser" where
  "take_kind k = pbind (asks (at_kind k)) (\<lambda>b. if b then take_token else pure None)"

definition take_keyword :: "keyword \<Rightarrow> token option parser" where
  "take_keyword k = take_kind (TkKeyword k)"

definition take_operator :: "operator \<Rightarrow> token option parser" where
  "take_operator op = take_kind (TkOperator op)"

definition take_delimiter :: "delimiter \<Rightarrow> token option parser" where
  "take_delimiter d = take_kind (TkDelimiter d)"

definition enter_depth :: "unit parser" where
  "enter_depth = updates (\<lambda>s. s\<lparr>ps_depth := Suc (ps_depth s)\<rparr>)"

text \<open>\<open>self.continuation_depth -= 1\<close> panics on an underflow.\<close>

definition leave_depth :: "unit parser" where
  "leave_depth = pbind (asks (\<lambda>e s. ps_depth s)) (\<lambda>d.
     if d = 0 then panic else updates (\<lambda>s. s\<lparr>ps_depth := ps_depth s - 1\<rparr>))"

section \<open>Cancellation, spans and errors\<close>

definition is_cancelled :: "bool parser" where
  "is_cancelled = (\<lambda>e s. Parsed (Inr (pe_cancelled e (ps_polls s))) (s\<lparr>ps_polls := Suc (ps_polls s)\<rparr>))"

definition check_cancelled :: "unit parser" where
  "check_cancelled = pbind is_cancelled (\<lambda>c. if c then fail PeCancelled else pure ())"

definition span_between :: "nat \<Rightarrow> nat \<Rightarrow> span parser" where
  "span_between a b = (\<lambda>e s.
     case source_span (pe_source e) a b of Inl _ \<Rightarrow> ParserPanic | Inr sp \<Rightarrow> Parsed (Inr sp) s)"

text \<open>The span of the current token, or the empty one at the end of the source.\<close>

definition here_span :: "span parser" where
  "here_span = pbind (asks current) (\<lambda>t.
     case t of
       Some t \<Rightarrow> pure (tk_span t)
     | None \<Rightarrow> pbind (asks (\<lambda>e s. source_len (pe_source e))) (\<lambda>n. span_between n n))"

definition incomplete_at :: "incomplete_reason \<Rightarrow> span \<Rightarrow> 'a parser" where
  "incomplete_at reason sp = fail (PeIncomplete \<lparr>ii_reason = reason, ii_span = sp\<rparr>)"

definition incomplete_here :: "incomplete_reason \<Rightarrow> 'a parser" where
  "incomplete_here reason = pbind here_span (incomplete_at reason)"

definition syntax_diagnostic :: "span \<Rightarrow> string \<Rightarrow> diagnostic" where
  "syntax_diagnostic sp message = with_primary sp message (diagnostic_new SevError ''FS1000'' message)"

definition invalid_at :: "span \<Rightarrow> string \<Rightarrow> 'a parser" where
  "invalid_at sp message = fail (PeInvalid (syntax_diagnostic sp message))"

definition invalid_here :: "string \<Rightarrow> 'a parser" where
  "invalid_here message = pbind here_span (\<lambda>sp. invalid_at sp message)"

definition report :: "diagnostic \<Rightarrow> unit parser" where
  "report d = updates (\<lambda>s. s\<lparr>ps_diagnostics := ps_diagnostics s @ [d]\<rparr>)"

text \<open>\<open>let ParseError::Invalid(d) = self.invalid_here(message) else \<dots>; self.diagnostics.push(d)\<close>\<close>

definition report_here :: "string \<Rightarrow> unit parser" where
  "report_here message = pbind here_span (\<lambda>sp. report (syntax_diagnostic sp message))"

definition expected :: "string \<Rightarrow> incomplete_reason \<Rightarrow> 'a parser" where
  "expected message reason = pbind (asks is_end) (\<lambda>b.
     if b then incomplete_here reason else invalid_here message)"

definition expect_kind :: "token_kind \<Rightarrow> string \<Rightarrow> token parser" where
  "expect_kind k message = pbind (take_kind k) (\<lambda>t.
     case t of Some t \<Rightarrow> pure t | None \<Rightarrow> expected message InExpression)"

definition expect_keyword :: "keyword \<Rightarrow> string \<Rightarrow> token parser" where
  "expect_keyword k = expect_kind (TkKeyword k)"

definition expect_operator :: "operator \<Rightarrow> string \<Rightarrow> token parser" where
  "expect_operator op = expect_kind (TkOperator op)"

definition expect_delimiter :: "delimiter \<Rightarrow> string \<Rightarrow> token parser" where
  "expect_delimiter d = expect_kind (TkDelimiter d)"

definition slice_is :: "span \<Rightarrow> string \<Rightarrow> parser_env \<Rightarrow> bool" where
  "slice_is sp t e \<longleftrightarrow> source_slice (pe_source e) sp = Inr t"

definition expect_contextual_identifier :: "string \<Rightarrow> string \<Rightarrow> token parser" where
  "expect_contextual_identifier spelling message =
     pbind (asks (\<lambda>e s. is_some_and
       (\<lambda>t. tk_kind t = TkIdentifier \<and> slice_is (tk_span t) spelling e) (current e s)))
     (\<lambda>matches. if matches then take_expected else expected message InExpression)"

definition current_span :: "span parser" where
  "current_span = pbind (asks current) (\<lambda>t.
     case t of Some t \<Rightarrow> pure (tk_span t) | None \<Rightarrow> incomplete_here InExpression)"

definition previous_end :: "parser_env \<Rightarrow> parser_state \<Rightarrow> nat" where
  "previous_end e s =
     (case get_nth (pe_tokens e) (ps_position s - 1) of None \<Rightarrow> 0 | Some t \<Rightarrow> span_end (tk_span t))"

section \<open>Skipping\<close>

definition is_inline :: "token_kind \<Rightarrow> bool" where
  "is_inline k \<longleftrightarrow> k \<in> {TkWhitespace, TkComment, TkDocumentationComment, TkLineContinuation}"

fun skip_tokens ::
  "(token_kind \<Rightarrow> bool) \<Rightarrow> (nat \<Rightarrow> bool) \<Rightarrow> token list \<Rightarrow> nat \<Rightarrow> nat \<Rightarrow> nat \<times> nat" where
  "skip_tokens p cancelled [] pos polls = (pos, polls)"
| "skip_tokens p cancelled (t # ts) pos polls =
     (if p (tk_kind t) then
        (if cancelled polls then (pos, Suc polls)
         else skip_tokens p cancelled ts (Suc pos) (Suc polls))
      else (pos, polls))"

definition skip_while :: "(token_kind \<Rightarrow> bool) \<Rightarrow> unit parser" where
  "skip_while p = (\<lambda>e s.
     let (pos, polls) = skip_tokens p (pe_cancelled e) (drop (ps_position s) (pe_tokens e))
           (ps_position s) (ps_polls s)
     in Parsed (Inr ()) (s\<lparr>ps_position := pos, ps_polls := polls\<rparr>))"

definition skip_inline :: "unit parser" where
  "skip_inline = (\<lambda>e s. skip_while (\<lambda>k. is_inline k \<or> (0 < ps_depth s \<and> k = TkNewline)) e s)"

definition skip_layout :: "unit parser" where
  "skip_layout = skip_while (\<lambda>k. is_inline k \<or> k = TkNewline)"

definition skip_separators :: "unit parser" where
  "skip_separators = skip_while (\<lambda>k. is_inline k \<or> k = TkNewline \<or> k = TkOperator OpSemicolon)"

text \<open>The loop of \<open>skip_separators_with_documentation\<close>: pos, polls, lines and newlines.\<close>

fun documentation_scan ::
  "(nat \<Rightarrow> bool) \<Rightarrow> token list \<Rightarrow> nat \<Rightarrow> nat \<Rightarrow> span list \<Rightarrow> nat \<Rightarrow> nat \<times> nat \<times> span list \<times> nat" where
  "documentation_scan cancelled [] pos polls ls newlines = (pos, polls, ls, newlines)"
| "documentation_scan cancelled (t # ts) pos polls ls newlines =
     (if cancelled polls then (pos, Suc polls, ls, newlines)
      else if tk_kind t = TkDocumentationComment then
        documentation_scan cancelled ts (Suc pos) (Suc polls)
          ((if ls \<noteq> [] \<and> newlines \<noteq> 1 then [] else ls) @ [tk_span t]) 0
      else if tk_kind t = TkNewline then
        (if ls = [] then documentation_scan cancelled ts (Suc pos) (Suc polls) ls newlines
         else if 1 < newlines + 1 then documentation_scan cancelled ts (Suc pos) (Suc polls) [] 0
         else documentation_scan cancelled ts (Suc pos) (Suc polls) ls (newlines + 1))
      else if tk_kind t = TkWhitespace then
        documentation_scan cancelled ts (Suc pos) (Suc polls) ls newlines
      else if tk_kind t \<in> {TkComment, TkLineContinuation, TkOperator OpSemicolon} then
        documentation_scan cancelled ts (Suc pos) (Suc polls) [] 0
      else (pos, Suc polls, ls, newlines))"

definition skip_separators_with_documentation :: "span list option parser" where
  "skip_separators_with_documentation = (\<lambda>e s.
     let (pos, polls, ls, newlines) =
           documentation_scan (pe_cancelled e) (drop (ps_position s) (pe_tokens e))
             (ps_position s) (ps_polls s) [] 0
     in Parsed (Inr (if ls \<noteq> [] \<and> newlines = 1 then Some ls else None))
          (s\<lparr>ps_position := pos, ps_polls := polls\<rparr>))"

text \<open>The loop of \<open>synchronize\<close>: \<open>opened\<close> is the number of delimiters it has pushed.\<close>

fun synchronize_scan ::
  "delimiter option \<Rightarrow> (nat \<Rightarrow> bool) \<Rightarrow> token list \<Rightarrow> nat \<Rightarrow> nat \<Rightarrow> nat \<Rightarrow> nat \<times> nat" where
  "synchronize_scan closing cancelled [] pos polls opened = (pos, polls)"
| "synchronize_scan closing cancelled (t # ts) pos polls opened =
     (if cancelled polls then (pos, Suc polls)
      else if opened = 0 \<and> is_some_and (\<lambda>d. tk_kind t = TkDelimiter d) closing then (pos, Suc polls)
      else if opened = 0 \<and>
        tk_kind t \<in> {TkNewline, TkOperator OpSemicolon, TkOperator OpBackground} then
        (Suc pos, Suc polls)
      else if tk_kind t \<in> TkDelimiter ` {DlLeftParenthesis, DlLeftBracket, DlLeftBrace} then
        synchronize_scan closing cancelled ts (Suc pos) (Suc polls) (Suc opened)
      else if tk_kind t \<in> TkDelimiter ` {DlRightParenthesis, DlRightBracket, DlRightBrace} \<and> opened \<noteq> 0
        then synchronize_scan closing cancelled ts (Suc pos) (Suc polls) (opened - 1)
      else synchronize_scan closing cancelled ts (Suc pos) (Suc polls) opened)"

definition synchronize :: "delimiter option \<Rightarrow> unit parser" where
  "synchronize closing = (\<lambda>e s.
     let (pos, polls) =
           synchronize_scan closing (pe_cancelled e) (drop (ps_position s) (pe_tokens e))
             (ps_position s) (ps_polls s) 0
     in Parsed (Inr ()) (s\<lparr>ps_position := pos, ps_polls := polls\<rparr>))"

section \<open>Looking ahead\<close>

definition next_non_inline :: "nat \<Rightarrow> parser_env \<Rightarrow> token option" where
  "next_non_inline pos e = find (\<lambda>t. \<not> is_inline (tk_kind t)) (drop pos (pe_tokens e))"

definition variable_is_assignment :: "parser_env \<Rightarrow> parser_state \<Rightarrow> bool" where
  "variable_is_assignment e s =
     is_some_and (\<lambda>t. tk_kind t = TkOperator OpAssign) (next_non_inline (ps_position s + 1) e)"

definition is_word_operator :: "operator \<Rightarrow> bool" where
  "is_word_operator op \<longleftrightarrow>
     op \<in> {OpAssign, OpEqual, OpNotEqual, OpPlus, OpMinus, OpStar, OpSlash, OpPercent, OpBang, OpRange,
       OpRangeInclusive, OpArrow, OpMatchArrow, OpDot, OpComma, OpColon, OpCaret}"

fun is_bare_word_token :: "token_kind \<Rightarrow> bool" where
  "is_bare_word_token TkIdentifier = True"
| "is_bare_word_token (TkKeyword _) = True"
| "is_bare_word_token (TkNumber _) = True"
| "is_bare_word_token TkWordText = True"
| "is_bare_word_token (TkOperator op) = is_word_operator op"
| "is_bare_word_token _ = False"

definition can_start_word :: "token_kind \<Rightarrow> bool" where
  "can_start_word k \<longleftrightarrow>
     k \<in> {TkIdentifier, TkWordText, TkBareEscape, TkSingleQuoted, TkDoubleQuoteStart, TkVariable,
       TkBracedExpansionStart, TkCommandSubstitutionStart} \<or> is_bare_word_token k"

definition next_token_is :: "(token \<Rightarrow> token \<Rightarrow> bool) \<Rightarrow> token_kind \<Rightarrow> parser_env \<Rightarrow> parser_state \<Rightarrow> bool" where
  "next_token_is p k e s =
     (case current e s of
        None \<Rightarrow> False
      | Some t \<Rightarrow> tk_kind t = k \<and> is_some_and (p t) (get_nth (pe_tokens e) (ps_position s + 1)))"

definition starts_forced_command :: "parser_env \<Rightarrow> parser_state \<Rightarrow> bool" where
  "starts_forced_command =
     next_token_is (\<lambda>t next'. is_adjacent_to t next' \<and> can_start_word (tk_kind next')) (TkOperator OpCaret)"

definition starts_closure :: "parser_env \<Rightarrow> parser_state \<Rightarrow> bool" where
  "starts_closure =
     next_token_is (\<lambda>t next'. is_adjacent_to t next' \<and>
       tk_kind next' \<in> {TkOperator OpPipe, TkOperator OpOr}) (TkDelimiter DlLeftBrace)"

definition is_redirection_operator :: "token_kind \<Rightarrow> bool" where
  "is_redirection_operator k \<longleftrightarrow>
     k \<in> TkOperator ` {OpLess, OpGreater, OpAppend, OpDuplicate}"

definition io_number_before_redirection :: "parser_env \<Rightarrow> parser_state \<Rightarrow> bool" where
  "io_number_before_redirection =
     next_token_is (\<lambda>t next'. is_adjacent_to t next' \<and> is_redirection_operator (tk_kind next'))
       (TkNumber NumInteger)"

definition starts_redirection :: "parser_env \<Rightarrow> parser_state \<Rightarrow> bool" where
  "starts_redirection e s \<longleftrightarrow>
     is_some_and is_redirection_operator (current_kind e s) \<or> io_number_before_redirection e s"

definition starts_literal :: "token_kind \<Rightarrow> bool" where
  "starts_literal k \<longleftrightarrow>
     k \<in> {TkKeyword KwNull, TkKeyword KwTrue, TkKeyword KwFalse, TkNumber NumInteger, TkNumber NumFloat,
       TkSingleQuoted, TkDoubleQuoteStart}"

definition starts_expression_stage :: "parser_env \<Rightarrow> parser_state \<Rightarrow> bool" where
  "starts_expression_stage e s =
     (case current_kind e s of
        None \<Rightarrow> False
      | Some k \<Rightarrow>
          if k = TkIdentifier then
            (let next' = next_non_inline (ps_position s + 1) e in
             is_some_and (\<lambda>t. tk_kind t = TkDelimiter DlLeftParenthesis) next' \<or>
             (pe_language e = MajorV2 \<and>
              is_some_and (\<lambda>t. tk_kind t = TkOperator OpColon) next' \<and>
              is_some_and (\<lambda>t. tk_kind t = TkOperator OpColon) (next_non_inline (ps_position s + 2) e)))
          else starts_literal k \<or> k = TkVariable \<or>
            k \<in> TkDelimiter ` {DlLeftParenthesis, DlLeftBracket, DlLeftBrace} \<or>
            k \<in> TkOperator ` {OpBang, OpPlus, OpMinus})"

definition ends_command :: "token_kind \<Rightarrow> bool" where
  "ends_command k \<longleftrightarrow>
     k = TkNewline \<or>
     k \<in> TkOperator ` {OpSemicolon, OpPipe, OpPipeBoth, OpAnd, OpOr, OpBackground} \<or>
     k \<in> TkDelimiter ` {DlRightParenthesis, DlRightBrace, DlRightBracket, DlLeftBrace}"

definition at_command_end :: "parser_env \<Rightarrow> parser_state \<Rightarrow> bool" where
  "at_command_end e s =
     (if starts_closure e s then False
      else case current_kind e s of None \<Rightarrow> True | Some k \<Rightarrow> ends_command k)"

definition at_expression_end :: "parser_env \<Rightarrow> parser_state \<Rightarrow> bool" where
  "at_expression_end e s =
     (case current_kind e s of
        None \<Rightarrow> True
      | Some k \<Rightarrow> ends_command k \<or> k \<in> TkOperator ` {OpComma, OpMatchArrow})"

text \<open>The two loops of \<open>bracket_is_followed_by_call\<close>; the first returns the tokens after the bracket.\<close>

fun skip_bracket :: "token list \<Rightarrow> nat \<Rightarrow> nat \<times> token list" where
  "skip_bracket [] depth = (depth, [])"
| "skip_bracket (t # ts) depth =
     (if tk_kind t = TkDelimiter DlLeftBracket then skip_bracket ts (Suc depth)
      else if tk_kind t = TkDelimiter DlRightBracket then
        (if depth - 1 = 0 then (0, ts) else skip_bracket ts (depth - 1))
      else skip_bracket ts depth)"

definition bracket_is_followed_by_call :: "parser_env \<Rightarrow> parser_state \<Rightarrow> bool" where
  "bracket_is_followed_by_call e s =
     (let (depth, rest') = skip_bracket (drop (ps_position s) (pe_tokens e)) 0 in
      depth = 0 \<and>
      is_some_and (\<lambda>t. tk_kind t = TkDelimiter DlLeftParenthesis)
        (find (\<lambda>t. \<not> (is_inline (tk_kind t) \<or> (0 < ps_depth s \<and> tk_kind t = TkNewline))) rest'))"

end
