(* ===== verification/Parser_Expressions.thy ===== *)
theory Parser_Expressions
  imports Parser_Core
begin

text \<open>
  The expression half of the parser: names, types, patterns, words, pipelines and expressions of
  \<open>flash-syntax/src/parser.rs\<close>.

  The methods call one another recursively. Every cycle of calls goes through \<open>parse_expression\<close>,
  \<open>parse_conditional_chain\<close>, \<open>parse_pattern\<close> or \<open>parse_unary\<close> after it has taken a token, so each method
  here gets these four as a record \<open>R\<close> where it re-enters them, and \<open>syntax_level\<close> ties the knot:
  level \<open>n + 1\<close> re-enters level \<open>n\<close>.
\<close>

record syntax_parsers =
  sp_expression :: "expression parser"
  sp_chain :: "conditional_chain parser"
  sp_pattern :: "pattern_syntax parser"
  sp_unary :: "expression parser"

section \<open>Lists\<close>

text \<open>
  The loop \<open>while !stop { push(item); skip_layout; if no comma { break }; skip_layout }\<close> of every list.
  Where the source tests \<open>stop\<close> once others after the comma, it is the test of the next round.
\<close>

definition comma_round ::
  "(parser_env \<Rightarrow> parser_state \<Rightarrow> bool) \<Rightarrow> 'a parser \<Rightarrow> bool \<Rightarrow> 'a list \<Rightarrow> ('a list + 'a list) parser" where
  "comma_round stop item first xs =
     pbind (asks stop) (\<lambda>b.
     if b \<and> \<not> (first \<and> xs = []) then pure (Inl xs)
     else
       pbind item (\<lambda>x.
       pseq skip_layout (
       pbind (take_operator OpComma) (\<lambda>comma.
       case comma of
         None \<Rightarrow> pure (Inl (xs @ [x]))
       | Some _ \<Rightarrow> pseq skip_layout (pure (Inr (xs @ [x])))))))"

definition comma_list :: "(parser_env \<Rightarrow> parser_state \<Rightarrow> bool) \<Rightarrow> 'a parser \<Rightarrow> 'a list parser" where
  "comma_list stop item = ploop (comma_round stop item False) []"

text \<open>The variant that starts with an item.\<close>

definition comma_list1 :: "(parser_env \<Rightarrow> parser_state \<Rightarrow> bool) \<Rightarrow> 'a parser \<Rightarrow> 'a list parser" where
  "comma_list1 stop item = ploop (comma_round stop item True) []"

section \<open>Names\<close>

definition parse_identifier :: "ident parser" where
  "parse_identifier = pbind take_token (\<lambda>t.
     case t of
       None \<Rightarrow> incomplete_here InExpression
     | Some t \<Rightarrow>
         if tk_kind t = TkIdentifier then pure (Identifier (tk_span t))
         else invalid_at (tk_span t) ''expected an identifier'')"

definition parse_variable_reference :: "variable_reference parser" where
  "parse_variable_reference = pbind take_token (\<lambda>t.
     case t of
       None \<Rightarrow> incomplete_here InExpression
     | Some t \<Rightarrow>
         if tk_kind t = TkVariable then
           pbind (span_between (span_start (tk_span t) + 1) (span_end (tk_span t))) (\<lambda>name.
           pure (VariableReference (Identifier name) (tk_span t)))
         else invalid_at (tk_span t) ''expected a variable'')"

definition take_double_colon :: "bool parser" where
  "take_double_colon =
     pbind (take_operator OpColon) (\<lambda>a.
     case a of
       None \<Rightarrow> pure False
     | Some _ \<Rightarrow> pbind (take_operator OpColon) (\<lambda>b. pure (b \<noteq> None)))"

definition qualified_round :: "nat \<times> ident list \<Rightarrow> ((nat \<times> ident list) + (nat \<times> ident list)) parser" where
  "qualified_round acc =
     pbind (asks (\<lambda>e s. ps_position s)) (\<lambda>checkpoint.
     pseq skip_inline (
     pbind take_double_colon (\<lambda>b.
     if \<not> b then pseq (updates (\<lambda>s. s\<lparr>ps_position := checkpoint\<rparr>)) (pure (Inl acc))
     else
       pseq skip_inline (
       pbind parse_identifier (\<lambda>segment.
       pure (Inr (span_end (ident_span segment), snd acc @ [segment])))))))"

definition parse_qualified_name :: "qualified_name parser" where
  "parse_qualified_name =
     pbind parse_identifier (\<lambda>first.
     pbind (ploop qualified_round (span_end (ident_span first), [first])) (\<lambda>(stop, segments).
     pbind (span_between (span_start (ident_span first)) stop) (\<lambda>sp.
     pure (QualifiedName segments sp))))"

section \<open>Types\<close>

fun parse_type_reference_at :: "nat \<Rightarrow> type_reference parser" where
  "parse_type_reference_at 0 = diverge"
| "parse_type_reference_at (Suc n) =
     pbind (asks is_end) (\<lambda>b.
     if b then incomplete_here TypeReference
     else
       pbind parse_qualified_name (\<lambda>qualified.
       if qn_segments qualified = [] then panic
       else
         (let name = last (qn_segments qualified); start = span_start (qn_span qualified) in
          pseq skip_inline (
          pbind (take_delimiter DlLeftBracket) (\<lambda>bracket.
          case bracket of
            None \<Rightarrow>
              pbind (span_between start (span_end (ident_span name))) (\<lambda>sp.
              pure (TypeRef name [] sp))
          | Some _ \<Rightarrow>
              pseq skip_layout (
              pbind (comma_list1 (at_delimiter (Some DlRightBracket)) (parse_type_reference_at n)) (\<lambda>arguments.
              pbind (expect_delimiter DlRightBracket ''type arguments are not closed'') (\<lambda>close.
              pbind (span_between start (span_end (tk_span close))) (\<lambda>sp.
              pure (TypeRef name arguments sp))))))))))"

definition parse_type_reference :: "type_reference parser" where
  "parse_type_reference = (\<lambda>e s. parse_type_reference_at (pe_fuel e) e s)"

text \<open>\<open>if self.take_operator(op).is_some() { skip; Some(self.parse_type_reference()?) } else { None }\<close>\<close>

definition optional_type :: "operator \<Rightarrow> unit parser \<Rightarrow> type_reference option parser" where
  "optional_type op skip =
     pbind (take_operator op) (\<lambda>t.
     case t of
       None \<Rightarrow> pure None
     | Some _ \<Rightarrow> pseq skip (pbind parse_type_reference (\<lambda>r. pure (Some r))))"

text \<open>The round of the constraints: the end of the last one and those read.\<close>

definition constraint_round ::
  "nat \<times> type_constraint list \<Rightarrow> ((nat \<times> type_constraint list) + (nat \<times> type_constraint list)) parser" where
  "constraint_round acc =
     pseq skip_inline (
     pbind parse_identifier (\<lambda>constraint.
     pbind (asks (\<lambda>e s.
       if slice_is (ident_span constraint) ''Equal'' e then Some TcEqual
       else if slice_is (ident_span constraint) ''Ordered'' e then Some TcOrdered else None)) (\<lambda>value.
     case value of
       None \<Rightarrow> invalid_at (ident_span constraint) ''generic constraints are `Equal` or `Ordered`''
     | Some v \<Rightarrow>
         if v \<in> set (snd acc) then
           invalid_at (ident_span constraint) ''generic constraint cannot be repeated''
         else
           (let acc' = (span_end (ident_span constraint), snd acc @ [v]) in
            pseq skip_inline (
            pbind (take_operator OpPlus) (\<lambda>plus.
            pure (case plus of None \<Rightarrow> Inl acc' | Some _ \<Rightarrow> Inr acc')))))))"

definition parse_type_parameter :: "type_parameter parser" where
  "parse_type_parameter =
     pbind parse_identifier (\<lambda>name.
     pseq skip_inline (
     pbind (take_operator OpColon) (\<lambda>colon.
     pbind (case colon of
              None \<Rightarrow> pure (span_end (ident_span name), [])
            | Some _ \<Rightarrow> ploop constraint_round (span_end (ident_span name), [])) (\<lambda>(stop, constraints).
     pbind (span_between (span_start (ident_span name)) stop) (\<lambda>sp.
     pure (TypeParameter name constraints sp))))))"

definition parse_type_parameters :: "type_parameter list parser" where
  "parse_type_parameters =
     pseq skip_inline (
     pbind (take_delimiter DlLeftBracket) (\<lambda>bracket.
     case bracket of
       None \<Rightarrow> pure []
     | Some _ \<Rightarrow>
         pseq skip_layout (
         pbind (asks (at_delimiter (Some DlRightBracket))) (\<lambda>b.
         if b then invalid_here ''generic parameter list cannot be empty''
         else
           pbind (comma_list (at_delimiter (Some DlRightBracket)) parse_type_parameter) (\<lambda>parameters.
           pbind (expect_delimiter DlRightBracket ''generic parameter list is not closed'') (\<lambda>_.
           pure parameters))))))"

section \<open>Words\<close>

definition parse_braced_interpolation :: "syntax_parsers \<Rightarrow> word_part parser" where
  "parse_braced_interpolation R =
     pbind take_expected (\<lambda>opening.
     pseq enter_depth (
     pseq skip_layout (
     pbind (sp_expression R) (\<lambda>expression.
     pseq skip_layout (
     pbind (expect_delimiter DlRightBrace ''braced interpolation is not closed'') (\<lambda>close.
     pseq leave_depth (
     pbind (span_between (span_start (tk_span opening)) (span_end (tk_span close))) (\<lambda>sp.
     pure (AstNode (WpBracedInterpolation expression) sp)))))))))"

definition take_command_capture_modifier :: "(command_capture_kind \<times> span option) parser" where
  "take_command_capture_modifier =
     pbind (asks current) (\<lambda>identifier.
     pbind (asks (\<lambda>e s. get_nth (pe_tokens e) (ps_position s + 1))) (\<lambda>colon.
     case (identifier, colon) of
       (Some i, Some c) \<Rightarrow>
         if tk_kind i \<noteq> TkIdentifier \<or> tk_kind c \<noteq> TkOperator OpColon \<or> \<not> is_adjacent_to i c then
           pure (CaptureText, None)
         else
           pbind (asks (\<lambda>e s.
             if slice_is (tk_span i) ''text'' e then Some CaptureText
             else if slice_is (tk_span i) ''bytes'' e then Some CaptureBytes else None)) (\<lambda>capture.
           case capture of
             None \<Rightarrow> pure (CaptureText, None)
           | Some k \<Rightarrow>
               pseq (move_position 2) (
               pbind (span_between (span_start (tk_span i)) (span_end (tk_span c))) (\<lambda>sp.
               pure (k, Some sp))))
     | _ \<Rightarrow> pure (CaptureText, None)))"

definition parse_command_substitution_node ::
  "syntax_parsers \<Rightarrow> (conditional_chain command_substitution \<times> span) parser" where
  "parse_command_substitution_node R =
     pbind take_expected (\<lambda>opening.
     pseq skip_layout (
     pbind take_command_capture_modifier (\<lambda>(capture, modifier).
     pseq (if modifier = None then skip_separators else skip_layout) (
     pseq enter_depth (
     pbind (sp_chain R) (\<lambda>chain.
     pseq skip_separators (
     pbind (expect_delimiter DlRightParenthesis ''command substitution is not closed'') (\<lambda>close.
     pseq leave_depth (
     pbind (span_between (span_start (tk_span opening)) (span_end (tk_span close))) (\<lambda>sp.
     pure (CommandSubstitution capture modifier chain, sp)))))))))))"

definition parse_command_substitution :: "syntax_parsers \<Rightarrow> word_part parser" where
  "parse_command_substitution R =
     pbind (parse_command_substitution_node R) (\<lambda>(c, sp). pure (AstNode (WpCommandSubstitution c) sp))"

definition variable_part :: "word_part parser" where
  "variable_part =
     pbind parse_variable_reference (\<lambda>v. pure (AstNode (WpVariable (vr_name v)) (vr_span v)))"

definition quoted_part :: "syntax_parsers \<Rightarrow> token \<Rightarrow> word_part parser" where
  "quoted_part R t =
     (if tk_kind t = TkDoubleText then
        pseq (move_position 1) (pure (AstNode WpDoubleText (tk_span t)))
      else if tk_kind t \<in> {TkDoubleEscape, TkLineContinuation} then
        pseq (move_position 1) (pure (AstNode WpDoubleEscape (tk_span t)))
      else if tk_kind t = TkVariable then variable_part
      else if tk_kind t = TkBracedExpansionStart then parse_braced_interpolation R
      else if tk_kind t = TkCommandSubstitutionStart then parse_command_substitution R
      else invalid_here ''invalid double-quoted word part'')"

definition quoted_round ::
  "syntax_parsers \<Rightarrow> token \<Rightarrow> word_part list \<Rightarrow> (word_part list + word_part list) parser" where
  "quoted_round R opening parts =
     pbind (asks (at_kind TkDoubleQuoteEnd)) (\<lambda>b.
     if b then pure (Inl parts)
     else
       pseq check_cancelled (
       pbind (asks current) (\<lambda>t.
       case t of
         None \<Rightarrow> incomplete_at UnmatchedDoubleQuote (tk_span opening)
       | Some t \<Rightarrow> pbind (quoted_part R t) (\<lambda>part. pure (Inr (parts @ [part]))))))"

text \<open>The parts and the span of a double-quoted word.\<close>

definition parse_double_quoted :: "syntax_parsers \<Rightarrow> (word_part list \<times> span) parser" where
  "parse_double_quoted R =
     pseq check_cancelled (
     pbind take_expected (\<lambda>opening.
     pbind (ploop (quoted_round R opening) []) (\<lambda>parts.
     pbind take_expected (\<lambda>close.
     pbind (span_between (span_start (tk_span opening)) (span_end (tk_span close))) (\<lambda>sp.
     pure (parts, sp))))))"

text \<open>The tokens that a bare part takes after its first one.\<close>

definition bare_round :: "nat \<Rightarrow> (nat + nat) parser" where
  "bare_round stop =
     pbind (asks current) (\<lambda>t.
     case t of
       None \<Rightarrow> pure (Inl stop)
     | Some t \<Rightarrow>
         if span_start (tk_span t) = stop \<and> is_bare_word_token (tk_kind t) then
           pseq check_cancelled (
           pseq (move_position 1) (
           pure (Inr (span_end (tk_span t)))))
         else pure (Inl stop))"

definition parse_word_part :: "syntax_parsers \<Rightarrow> word_part option parser" where
  "parse_word_part R =
     pseq check_cancelled (
     pbind (asks current) (\<lambda>t.
     case t of
       None \<Rightarrow> pure None
     | Some t \<Rightarrow>
         if tk_kind t = TkBareEscape then
           pseq (move_position 1) (pure (Some (AstNode WpBareEscape (tk_span t))))
         else if tk_kind t = TkSingleQuoted then
           pseq (move_position 1) (pure (Some (AstNode WpSingleQuoted (tk_span t))))
         else if tk_kind t = TkDoubleQuoteStart then
           pbind (parse_double_quoted R) (\<lambda>(parts, sp). pure (Some (AstNode (WpDoubleQuoted parts) sp)))
         else if tk_kind t = TkVariable then pbind variable_part (\<lambda>p. pure (Some p))
         else if tk_kind t = TkBracedExpansionStart then
           pbind (parse_braced_interpolation R) (\<lambda>p. pure (Some p))
         else if tk_kind t = TkCommandSubstitutionStart then
           pbind (parse_command_substitution R) (\<lambda>p. pure (Some p))
         else if is_bare_word_token (tk_kind t) then
           pseq (move_position 1) (
           pbind (ploop bare_round (span_end (tk_span t))) (\<lambda>stop.
           pbind (span_between (span_start (tk_span t)) stop) (\<lambda>sp.
           pure (Some (AstNode WpBare sp)))))
         else pure None))"

definition word_round ::
  "syntax_parsers \<Rightarrow> nat \<times> word_part list \<Rightarrow> ((nat \<times> word_part list) + (nat \<times> word_part list)) parser" where
  "word_round R acc =
     pseq check_cancelled (
     pbind (asks current) (\<lambda>t.
     if snd acc \<noteq> [] \<and> is_some_and (\<lambda>t. span_start (tk_span t) \<noteq> fst acc) t then pure (Inl acc)
     else
       pbind (parse_word_part R) (\<lambda>part.
       case part of
         None \<Rightarrow> pure (Inl acc)
       | Some p \<Rightarrow> pure (Inr (span_end (node_span p), snd acc @ [p])))))"

definition parse_word :: "syntax_parsers \<Rightarrow> word_syntax parser" where
  "parse_word R =
     pseq check_cancelled (
     pbind current_span (\<lambda>start.
     pbind (ploop (word_round R) (span_start start, [])) (\<lambda>(stop, parts).
     if parts = [] then invalid_here ''expected a command word''
     else
       pbind (span_between (span_start start) stop) (\<lambda>sp.
       pure (Word parts sp)))))"

section \<open>Literals and patterns\<close>

definition simple_literal :: "token_kind \<Rightarrow> (expression, conditional_chain) literal_kind option" where
  "simple_literal k =
     (if k = TkKeyword KwNull then Some LkNull
      else if k = TkKeyword KwTrue then Some (LkBoolean True)
      else if k = TkKeyword KwFalse then Some (LkBoolean False)
      else if k = TkNumber NumInteger then Some LkInteger
      else if k = TkNumber NumFloat then Some LkFloat
      else if k = TkSingleQuoted then Some LkSingleQuoted
      else None)"

definition parse_literal :: "syntax_parsers \<Rightarrow> literal_syntax parser" where
  "parse_literal R =
     pbind (asks current) (\<lambda>t.
     case t of
       None \<Rightarrow> incomplete_here InExpression
     | Some t \<Rightarrow>
         (case simple_literal (tk_kind t) of
            Some k \<Rightarrow> pseq (move_position 1) (pure (Literal k (tk_span t)))
          | None \<Rightarrow>
              if tk_kind t = TkDoubleQuoteStart then
                pbind (parse_double_quoted R) (\<lambda>(parts, sp). pure (Literal (LkDoubleQuoted parts) sp))
              else invalid_here ''expected a literal''))"

fun pattern_span :: "pattern_syntax \<Rightarrow> span" where
  "pattern_span (PatWildcard sp) = sp"
| "pattern_span (PatLiteral l) = literal_span l"
| "pattern_span (PatBinding i) = ident_span i"
| "pattern_span (PatList _ _ sp) = sp"
| "pattern_span (PatNominalRecord _ _ sp) = sp"
| "pattern_span (PatVariant _ _ sp) = sp"

function pattern_primary_binding :: "pattern_syntax \<Rightarrow> ident option"
  and first_binding :: "pattern_syntax list \<Rightarrow> ident option"
  and first_field_binding :: "pattern_syntax pattern_field list \<Rightarrow> ident option" where
  "pattern_primary_binding (PatBinding i) = Some i"
| "pattern_primary_binding (PatList elements tail _) =
     (case first_binding elements of Some i \<Rightarrow> Some i | None \<Rightarrow> tail)"
| "pattern_primary_binding (PatNominalRecord _ entries _) = first_field_binding entries"
| "pattern_primary_binding (PatVariant _ payload _) = first_binding payload"
| "pattern_primary_binding (PatWildcard _) = None"
| "pattern_primary_binding (PatLiteral _) = None"
| "first_binding [] = None"
| "first_binding (p # ps) =
     (case pattern_primary_binding p of Some i \<Rightarrow> Some i | None \<Rightarrow> first_binding ps)"
| "first_field_binding [] = None"
| "first_field_binding (PatternField _ p _ # fs) =
     (case pattern_primary_binding p of Some i \<Rightarrow> Some i | None \<Rightarrow> first_field_binding fs)"
  by pat_completeness auto
termination
  by (relation "measure (case_sum size (case_sum (size_list size) (size_list (size_pattern_field size))))")
    simp_all

definition parse_pattern_field :: "syntax_parsers \<Rightarrow> pattern_syntax pattern_field parser" where
  "parse_pattern_field R =
     pbind parse_identifier (\<lambda>field.
     pseq skip_inline (
     pbind (expect_operator OpColon ''record pattern field requires `:`'') (\<lambda>_.
     pseq skip_layout (
     pbind (sp_pattern R) (\<lambda>pat.
     pbind (span_between (span_start (ident_span field)) (span_end (pattern_span pat))) (\<lambda>sp.
     pure (PatternField field pat sp)))))))"

definition record_pattern :: "syntax_parsers \<Rightarrow> qualified_name \<Rightarrow> pattern_syntax parser" where
  "record_pattern R name =
     pbind take_token (\<lambda>_.
     pseq skip_layout (
     pbind (comma_list (at_delimiter (Some DlRightBrace)) (parse_pattern_field R)) (\<lambda>entries.
     pbind (expect_delimiter DlRightBrace ''record pattern is not closed'') (\<lambda>close.
     pbind (span_between (span_start (qn_span name)) (span_end (tk_span close))) (\<lambda>sp.
     pure (PatNominalRecord name entries sp))))))"

definition variant_pattern :: "syntax_parsers \<Rightarrow> qualified_name \<Rightarrow> pattern_syntax parser" where
  "variant_pattern R name =
     pbind take_token (\<lambda>_.
     pseq skip_layout (
     pbind (comma_list (at_delimiter (Some DlRightParenthesis)) (sp_pattern R)) (\<lambda>payload.
     pbind (expect_delimiter DlRightParenthesis ''variant pattern is not closed'') (\<lambda>close.
     pbind (span_between (span_start (qn_span name)) (span_end (tk_span close))) (\<lambda>sp.
     pure (PatVariant name payload sp))))))"

definition name_pattern :: "syntax_parsers \<Rightarrow> pattern_syntax parser" where
  "name_pattern R =
     pbind parse_qualified_name (\<lambda>name.
     pseq skip_inline (
     case qn_segments name of
       [] \<Rightarrow> panic
     | segment # others \<Rightarrow>
         pbind (asks (\<lambda>e s. others = [] \<and> slice_is (ident_span segment) ''_'' e)) (\<lambda>wildcard.
         pbind (asks (at_delimiter (Some DlLeftBrace))) (\<lambda>brace.
         pbind (asks (at_delimiter (Some DlLeftParenthesis))) (\<lambda>parenthesis.
         if wildcard then pure (PatWildcard (qn_span name))
         else if brace then record_pattern R name
         else if parenthesis then variant_pattern R name
         else if others \<noteq> [] then pure (PatVariant name [] (qn_span name))
         else pure (PatBinding segment))))))"

text \<open>The elements and the rest binding of a list pattern.\<close>

definition list_pattern_round ::
  "syntax_parsers \<Rightarrow> pattern_syntax list \<Rightarrow>
     ((pattern_syntax list \<times> ident option) + pattern_syntax list) parser" where
  "list_pattern_round R elements =
     pbind (asks (at_delimiter (Some DlRightBracket))) (\<lambda>b.
     if b then pure (Inl (elements, None))
     else
       pbind (take_operator OpSpread) (\<lambda>spread.
       case spread of
         Some _ \<Rightarrow>
           pbind parse_identifier (\<lambda>tail.
           pseq skip_layout (
           pbind (asks (at_delimiter (Some DlRightBracket))) (\<lambda>closed.
           if \<not> closed then invalid_here ''list rest binding must be last''
           else pure (Inl (elements, Some tail)))))
       | None \<Rightarrow>
           pbind (sp_pattern R) (\<lambda>pat.
           pseq skip_layout (
           pbind (take_operator OpComma) (\<lambda>comma.
           case comma of
             None \<Rightarrow> pure (Inl (elements @ [pat], None))
           | Some _ \<Rightarrow> pseq skip_layout (pure (Inr (elements @ [pat]))))))))"

definition parse_list_pattern :: "syntax_parsers \<Rightarrow> pattern_syntax parser" where
  "parse_list_pattern R =
     pbind take_expected (\<lambda>opening.
     pseq skip_layout (
     pbind (ploop (list_pattern_round R) []) (\<lambda>(elements, tail).
     pbind (expect_delimiter DlRightBracket ''list pattern is not closed'') (\<lambda>close.
     pbind (span_between (span_start (tk_span opening)) (span_end (tk_span close))) (\<lambda>sp.
     pure (PatList elements tail sp))))))"

definition parse_pattern :: "syntax_parsers \<Rightarrow> pattern_syntax parser" where
  "parse_pattern R =
     pbind (asks current_kind) (\<lambda>k.
     case k of
       None \<Rightarrow> incomplete_here InExpression
     | Some k \<Rightarrow>
         if k = TkIdentifier then name_pattern R
         else if k = TkDelimiter DlLeftBracket then parse_list_pattern R
         else if starts_literal k then pbind (parse_literal R) (\<lambda>l. pure (PatLiteral l))
         else invalid_here ''expected a match pattern'')"

text \<open>The head of a declaration or parameter: a pattern in the second major, else an identifier.\<close>

definition binding_pattern :: "pattern_syntax parser \<Rightarrow> pattern_syntax parser" where
  "binding_pattern pat =
     pbind (asks (\<lambda>e s. pe_language e)) (\<lambda>language.
     if language = MajorV2 then pat else pbind parse_identifier (\<lambda>i. pure (PatBinding i)))"

definition bound_name :: "string \<Rightarrow> pattern_syntax \<Rightarrow> ident parser" where
  "bound_name message pat =
     (case pattern_primary_binding pat of
        Some i \<Rightarrow> pure i
      | None \<Rightarrow> invalid_at (pattern_span pat) message)"

definition parse_parameter :: "pattern_syntax parser \<Rightarrow> parameter_syntax parser" where
  "parse_parameter pat_parser =
     pbind current_span (\<lambda>start.
     pbind (binding_pattern pat_parser) (\<lambda>pat.
     pbind (bound_name ''parameter pattern must bind a name'' pat) (\<lambda>name.
     pseq skip_inline (
     pbind (optional_type OpColon skip_layout) (\<lambda>annotation.
     pbind (span_between (span_start start)
       (case annotation of
          None \<Rightarrow> span_end (ident_span name)
        | Some r \<Rightarrow> span_end (type_span r))) (\<lambda>sp.
     pure (Parameter pat name annotation sp)))))))"

definition parse_parameters ::
  "pattern_syntax parser \<Rightarrow> (parser_env \<Rightarrow> parser_state \<Rightarrow> bool) \<Rightarrow> parameter_syntax list parser" where
  "parse_parameters pat_parser stop = pseq skip_layout (comma_list stop (parse_parameter pat_parser))"

section \<open>Closures and command stages\<close>

definition closure_parameters :: "syntax_parsers \<Rightarrow> token \<Rightarrow> parameter_syntax list parser" where
  "closure_parameters R marker =
     (if tk_kind marker = TkOperator OpOr then pure []
      else
        pbind (parse_parameters (sp_pattern R) (at_kind (TkOperator OpPipe))) (\<lambda>parameters.
        pbind (expect_operator OpPipe ''closure parameters require a closing `|`'') (\<lambda>_.
        pure parameters)))"

definition parse_closure :: "syntax_parsers \<Rightarrow> closure_syntax parser" where
  "parse_closure R =
     pbind (expect_delimiter DlLeftBrace ''expected a closure'') (\<lambda>opening.
     pbind take_expected (\<lambda>marker.
     pseq enter_depth (
     pbind (closure_parameters R marker) (\<lambda>parameters.
     pseq skip_layout (
     pbind (optional_type OpArrow skip_layout) (\<lambda>result.
     pseq skip_layout (
     pbind (sp_chain R) (\<lambda>body.
     pseq skip_layout (
     pbind (expect_delimiter DlRightBrace ''closure body is not closed'') (\<lambda>close.
     pseq leave_depth (
     pbind (span_between (span_start (tk_span opening)) (span_end (tk_span close))) (\<lambda>sp.
     pure (Closure parameters result body sp)))))))))))))"

definition parse_spread_item :: "command_item parser" where
  "parse_spread_item =
     pbind take_expected (\<lambda>spread.
     pbind (asks current) (\<lambda>variable.
     case variable of
       None \<Rightarrow> incomplete_at InExpression (tk_span spread)
     | Some v \<Rightarrow>
         if tk_kind v \<noteq> TkVariable \<or> span_end (tk_span spread) \<noteq> span_start (tk_span v) then
           invalid_at (tk_span spread) ''spread requires an adjacent variable''
         else
           pbind parse_variable_reference (\<lambda>r.
           pbind (span_between (span_start (tk_span spread)) (span_end (vr_span r))) (\<lambda>sp.
           pure (AstNode (CiSpread r) sp)))))"

definition parse_redirection_target :: "syntax_parsers \<Rightarrow> span \<Rightarrow> word_syntax parser" where
  "parse_redirection_target R operator_span =
     pbind (asks (\<lambda>e s. is_end e s \<or> at_command_end e s)) (\<lambda>b.
     if b then incomplete_at RedirectionTarget operator_span else parse_word R)"

text \<open>The redirection after its operator, and the end of its span.\<close>

definition redirection_kind_at ::
  "syntax_parsers \<Rightarrow> io_number option \<Rightarrow> token \<Rightarrow>
     ((expression, conditional_chain) redirection_kind \<times> nat) parser" where
  "redirection_kind_at R descriptor operator =
     (let operator_span = tk_span operator in
      if tk_kind operator = TkOperator OpLess then
        pseq skip_inline (
        pbind (parse_redirection_target R operator_span) (\<lambda>target.
        pure (RdInput descriptor operator_span target, span_end (word_span target))))
      else if tk_kind operator \<in> {TkOperator OpGreater, TkOperator OpAppend} then
        pseq skip_inline (
        pbind (parse_redirection_target R operator_span) (\<lambda>target.
        pure (RdFile descriptor
          (if tk_kind operator = TkOperator OpAppend then OutAppend else OutTruncate)
          operator_span target, span_end (word_span target))))
      else if tk_kind operator = TkOperator OpDuplicate then
        (case descriptor of
           None \<Rightarrow> invalid_at operator_span ''descriptor duplication requires a source descriptor''
         | Some d \<Rightarrow>
             pseq skip_inline (
             pbind (asks current_kind) (\<lambda>k.
             case k of
               None \<Rightarrow> incomplete_at RedirectionTarget operator_span
             | Some k \<Rightarrow>
                 if k = TkNumber NumInteger then
                   pbind take_expected (\<lambda>t.
                   pure (RdDuplicate d operator_span (IoNumber (tk_span t)), span_end (tk_span t)))
                 else if k = TkOperator OpMinus then
                   pbind take_expected (\<lambda>t.
                   pure (RdClose d operator_span (tk_span t), span_end (tk_span t)))
                 else invalid_here ''descriptor duplication requires a decimal descriptor or `-`'')))
      else invalid_at operator_span ''expected a redirection operator'')"

definition parse_redirection_item :: "syntax_parsers \<Rightarrow> command_item parser" where
  "parse_redirection_item R =
     pbind current_span (\<lambda>start.
     pbind (asks io_number_before_redirection) (\<lambda>numbered.
     pbind (if numbered then pbind take_expected (\<lambda>t. pure (Some (IoNumber (tk_span t))))
            else pure None) (\<lambda>descriptor.
     pbind take_token (\<lambda>operator.
     case operator of
       None \<Rightarrow> incomplete_here RedirectionTarget
     | Some operator \<Rightarrow>
         pbind (redirection_kind_at R descriptor operator) (\<lambda>(kind, stop).
         pbind (span_between (span_start start) stop) (\<lambda>sp.
         pure (AstNode (CiRedirection (AstNode kind sp)) sp)))))))"

definition parse_command_item :: "syntax_parsers \<Rightarrow> command_item parser" where
  "parse_command_item R =
     pbind (asks starts_redirection) (\<lambda>redirects.
     if redirects then parse_redirection_item R
     else
       pbind (asks (at_kind (TkOperator OpSpread))) (\<lambda>spreads.
       if spreads then parse_spread_item
       else
         pbind (asks starts_closure) (\<lambda>closes.
         if closes then pbind (parse_closure R) (\<lambda>c. pure (AstNode (CiClosure c) (cl_span c)))
         else pbind (parse_word R) (\<lambda>w. pure (AstNode (CiWord w) (word_span w))))))"

definition item_round ::
  "syntax_parsers \<Rightarrow> nat \<times> command_item list \<Rightarrow>
     ((nat \<times> command_item list) + (nat \<times> command_item list)) parser" where
  "item_round R acc =
     pseq skip_inline (
     pbind (asks at_command_end) (\<lambda>b.
     if b then pure (Inl acc)
     else pbind (parse_command_item R) (\<lambda>item. pure (Inr (span_end (node_span item), snd acc @ [item])))))"

definition parse_command_head :: "syntax_parsers \<Rightarrow> (expression, conditional_chain) command_head parser" where
  "parse_command_head R =
     pbind (asks starts_forced_command) (\<lambda>forced.
     pbind (if forced then pbind take_expected (\<lambda>t. pure (Some t)) else pure None) (\<lambda>marker.
     pbind (parse_word R) (\<lambda>word.
     if is_some_and (\<lambda>m. span_end (tk_span m) \<noteq> span_start (word_span word)) marker then
       invalid_at (tk_span (the marker)) ''`^` must be adjacent to a command name''
     else
       pbind (asks previous_end) (\<lambda>stop.
       pbind (span_between
         (case marker of None \<Rightarrow> span_start (word_span word) | Some m \<Rightarrow> span_start (tk_span m)) stop) (\<lambda>sp.
       pure (CommandHead (if forced then HeadForcedExternal else HeadBare) word sp))))))"

definition parse_command_stage :: "syntax_parsers \<Rightarrow> stage parser" where
  "parse_command_stage R =
     pbind (parse_command_head R) (\<lambda>head.
     pbind (ploop (item_round R) (span_end (ch_span head), [])) (\<lambda>(stop, items).
     pbind (span_between (span_start (ch_span head)) stop) (\<lambda>sp.
     pure (AstNode (SkCommand head items) sp))))"

end
