(* ===== verification/Parser.thy ===== *)
theory Parser
  imports Parser_Expressions
begin

text \<open>
  The operators, pipelines, conditional chains and statements of \<open>flash-syntax/src/parser.rs\<close>, and its
  entry points. \<open>syntax_level\<close> ties the expression methods together, \<open>statement_level\<close> the statement
  methods, which re-enter themselves only inside a block or after \<open>else if\<close>.
\<close>

section \<open>Primary and postfix expressions\<close>

definition parse_list :: "syntax_parsers \<Rightarrow> expression parser" where
  "parse_list R =
     pbind take_expected (\<lambda>opening.
     pseq enter_depth (
     pseq skip_layout (
     pbind (comma_list (at_delimiter (Some DlRightBracket)) (sp_expression R)) (\<lambda>values.
     pbind (expect_delimiter DlRightBracket ''list is not closed'') (\<lambda>close.
     pseq leave_depth (
     pbind (span_between (span_start (tk_span opening)) (span_end (tk_span close))) (\<lambda>sp.
     pure (AstNode (EkList values) sp))))))))"

definition parse_record_key :: "syntax_parsers \<Rightarrow> (expression, conditional_chain) record_key parser" where
  "parse_record_key R =
     pbind (asks current_kind) (\<lambda>k.
     case k of
       None \<Rightarrow> incomplete_here InExpression
     | Some k \<Rightarrow>
         if k = TkIdentifier then pbind parse_identifier (\<lambda>i. pure (RkIdentifier i))
         else if k = TkSingleQuoted then pbind take_expected (\<lambda>t. pure (RkSingleQuoted (tk_span t)))
         else if k = TkDoubleQuoteStart then
           pbind (parse_double_quoted R) (\<lambda>(parts, sp). pure (RkDoubleQuoted (AstNode (WpDoubleQuoted parts) sp)))
         else invalid_here ''expected a record key'')"

definition parse_record_entry :: "syntax_parsers \<Rightarrow> record_entry_syntax parser" where
  "parse_record_entry R =
     pbind current_span (\<lambda>start.
     pbind (parse_record_key R) (\<lambda>key.
     pseq skip_inline (
     pbind (expect_operator OpColon ''record entry requires `:`'') (\<lambda>_.
     pseq skip_layout (
     pbind (sp_expression R) (\<lambda>value.
     pbind (span_between (span_start start) (span_end (node_span value))) (\<lambda>sp.
     pure (RecordEntry key value sp))))))))"

definition parse_record :: "syntax_parsers \<Rightarrow> expression parser" where
  "parse_record R =
     pbind take_expected (\<lambda>opening.
     pseq enter_depth (
     pseq skip_layout (
     pbind (comma_list (at_delimiter (Some DlRightBrace)) (parse_record_entry R)) (\<lambda>entries.
     pbind (expect_delimiter DlRightBrace ''record is not closed'') (\<lambda>close.
     pseq leave_depth (
     pbind (span_between (span_start (tk_span opening)) (span_end (tk_span close))) (\<lambda>sp.
     pure (AstNode (EkRecord entries) sp))))))))"

definition parse_grouped_job :: "syntax_parsers \<Rightarrow> expression parser" where
  "parse_grouped_job R =
     pbind take_expected (\<lambda>opening.
     pseq enter_depth (
     pseq skip_layout (
     pbind (sp_chain R) (\<lambda>chain.
     pseq skip_layout (
     pbind (asks (at_kind (TkOperator OpBackground))) (\<lambda>background.
     if background then invalid_here ''backgrounding is forbidden inside a grouped job''
     else
       pbind (expect_delimiter DlRightParenthesis ''grouped job is not closed'') (\<lambda>close.
       pseq leave_depth (
       pbind (span_between (span_start (tk_span opening)) (span_end (tk_span close))) (\<lambda>sp.
       pure (AstNode (EkGroupedJob chain) sp))))))))))"

definition parse_primary :: "syntax_parsers \<Rightarrow> expression parser" where
  "parse_primary R =
     pseq check_cancelled (
     pseq skip_inline (
     pbind (asks current_kind) (\<lambda>k.
     pbind (asks starts_closure) (\<lambda>closes.
     case k of
       None \<Rightarrow> incomplete_here InExpression
     | Some k \<Rightarrow>
         if starts_literal k then
           pbind (parse_literal R) (\<lambda>l. pure (AstNode (EkLiteral l) (literal_span l)))
         else if k = TkVariable then
           pbind parse_variable_reference (\<lambda>v. pure (AstNode (EkVariable v) (vr_span v)))
         else if k = TkIdentifier then
           pbind parse_identifier (\<lambda>i. pure (AstNode (EkSymbol i) (ident_span i)))
         else if k = TkDelimiter DlLeftBracket then parse_list R
         else if k = TkDelimiter DlLeftBrace \<and> closes then
           pbind (parse_closure R) (\<lambda>c. pure (AstNode (EkClosure c) (cl_span c)))
         else if k = TkDelimiter DlLeftBrace then parse_record R
         else if k = TkDelimiter DlLeftParenthesis then parse_grouped_job R
         else if k = TkCommandSubstitutionStart then
           pbind (parse_command_substitution_node R) (\<lambda>(c, sp).
           pure (AstNode (EkCommandSubstitution c) sp))
         else invalid_here ''expected an expression''))))"

text \<open>The name of an expression that is a symbol or a qualified name.\<close>

fun name_of :: "expression \<Rightarrow> qualified_name option" where
  "name_of (AstNode (EkSymbol i) _) = Some (QualifiedName [i] (ident_span i))"
| "name_of (AstNode (EkQualified n) _) = Some n"
| "name_of (AstNode _ _) = None"

text \<open>The rounds of \<open>parse_postfix\<close>; \<open>Inl\<close> ends its loop.\<close>

definition postfix_segment :: "qualified_name \<Rightarrow> expression \<Rightarrow> (expression + expression) parser" where
  "postfix_segment name expression =
     pbind (asks (\<lambda>e s. ps_position s)) (\<lambda>checkpoint.
     pseq (move_position 1) (
     pbind (take_operator OpColon) (\<lambda>colon.
     case colon of
       None \<Rightarrow> pseq (updates (\<lambda>s. s\<lparr>ps_position := checkpoint\<rparr>)) (pure (Inl expression))
     | Some _ \<Rightarrow>
         pseq skip_inline (
         pbind parse_identifier (\<lambda>segment.
         case qn_segments name of
           [] \<Rightarrow> panic
         | first # others \<Rightarrow>
             pbind (span_between (span_start (ident_span first)) (span_end (ident_span segment))) (\<lambda>sp.
             pure (Inr (AstNode (EkQualified (QualifiedName (first # others @ [segment]) sp)) sp))))))))"

definition parse_nominal_field :: "syntax_parsers \<Rightarrow> expression nominal_field parser" where
  "parse_nominal_field R =
     pbind parse_identifier (\<lambda>field.
     pseq skip_inline (
     pbind (expect_operator OpColon ''nominal field requires `:`'') (\<lambda>_.
     pseq skip_layout (
     pbind (sp_expression R) (\<lambda>value.
     pbind (span_between (span_start (ident_span field)) (span_end (node_span value))) (\<lambda>sp.
     pure (NominalField field value sp)))))))"

definition postfix_record :: "syntax_parsers \<Rightarrow> qualified_name \<Rightarrow> (expression + expression) parser" where
  "postfix_record R name =
     pseq (move_position 1) (
     pseq enter_depth (
     pseq skip_layout (
     pbind (comma_list (at_delimiter (Some DlRightBrace)) (parse_nominal_field R)) (\<lambda>entries.
     pbind (expect_delimiter DlRightBrace ''nominal record construction is not closed'') (\<lambda>close.
     pseq leave_depth (
     pbind (span_between (span_start (qn_span name)) (span_end (tk_span close))) (\<lambda>sp.
     pure (Inr (AstNode (EkNominalRecord name entries) sp)))))))))"

definition postfix_call ::
  "syntax_parsers \<Rightarrow> type_reference list \<Rightarrow> expression \<Rightarrow> (expression + expression) parser" where
  "postfix_call R types expression =
     pseq (move_position 1) (
     pseq enter_depth (
     pseq skip_layout (
     pbind (comma_list (at_delimiter (Some DlRightParenthesis)) (sp_expression R)) (\<lambda>arguments.
     pbind (expect_delimiter DlRightParenthesis ''call is not closed'') (\<lambda>close.
     pseq leave_depth (
     pbind (span_between (span_start (node_span expression)) (span_end (tk_span close))) (\<lambda>sp.
     pure (Inr (AstNode (EkCall expression types arguments) sp)))))))))"

definition postfix_index :: "syntax_parsers \<Rightarrow> expression \<Rightarrow> (expression + expression) parser" where
  "postfix_index R expression =
     pseq (move_position 1) (
     pseq enter_depth (
     pseq skip_layout (
     pbind (sp_expression R) (\<lambda>index.
     pseq skip_layout (
     pbind (expect_delimiter DlRightBracket ''index is not closed'') (\<lambda>close.
     pseq leave_depth (
     pbind (span_between (span_start (node_span expression)) (span_end (tk_span close))) (\<lambda>sp.
     pure (Inr (AstNode (EkIndex expression index) sp))))))))))"

definition explicit_type_arguments :: "type_reference list parser" where
  "explicit_type_arguments =
     pseq (move_position 1) (
     pseq enter_depth (
     pseq skip_layout (
     pbind (comma_list (at_delimiter (Some DlRightBracket)) parse_type_reference) (\<lambda>types.
     pbind (expect_delimiter DlRightBracket ''explicit type arguments are not closed'') (\<lambda>_.
     pseq leave_depth (
     pseq skip_inline (pure types)))))))"

definition postfix_bracket :: "syntax_parsers \<Rightarrow> expression \<Rightarrow> (expression + expression) parser" where
  "postfix_bracket R expression =
     pbind (asks bracket_is_followed_by_call) (\<lambda>call.
     if name_of expression \<noteq> None \<and> call then
       pbind explicit_type_arguments (\<lambda>types.
       pbind (asks (at_delimiter (Some DlLeftParenthesis))) (\<lambda>parenthesis.
       if parenthesis then postfix_call R types expression else postfix_index R expression))
     else postfix_index R expression)"

definition postfix_member :: "expression \<Rightarrow> (expression + expression) parser" where
  "postfix_member expression =
     pseq (move_position 1) (
     pseq skip_inline (
     pbind parse_identifier (\<lambda>member.
     pbind (span_between (span_start (node_span expression)) (span_end (ident_span member))) (\<lambda>sp.
     pure (Inr (AstNode (EkMember expression member) sp))))))"

definition postfix_round :: "syntax_parsers \<Rightarrow> expression \<Rightarrow> (expression + expression) parser" where
  "postfix_round R expression =
     pseq check_cancelled (
     pseq skip_inline (
     pbind (asks current_kind) (\<lambda>k.
     if k = Some (TkOperator OpColon) \<and> name_of expression \<noteq> None then
       postfix_segment (the (name_of expression)) expression
     else if k = Some (TkDelimiter DlLeftBrace) \<and> name_of expression \<noteq> None then
       postfix_record R (the (name_of expression))
     else if k = Some (TkDelimiter DlLeftParenthesis) then postfix_call R [] expression
     else if k = Some (TkDelimiter DlLeftBracket) then postfix_bracket R expression
     else if k = Some (TkOperator OpDot) then postfix_member expression
     else pure (Inl expression))))"

definition parse_postfix :: "syntax_parsers \<Rightarrow> expression parser" where
  "parse_postfix R =
     pseq check_cancelled (
     pbind (parse_primary R) (\<lambda>expression.
     ploop (postfix_round R) expression))"

section \<open>Operators\<close>

definition unary_operator_of :: "token_kind \<Rightarrow> unary_operator option" where
  "unary_operator_of k =
     (if k = TkOperator OpBang then Some UnNot
      else if k = TkOperator OpPlus then Some UnPositive
      else if k = TkOperator OpMinus then Some UnNegative
      else None)"

definition parse_unary :: "syntax_parsers \<Rightarrow> expression parser" where
  "parse_unary R =
     pseq check_cancelled (
     pbind (asks current_kind) (\<lambda>k.
     case Option.bind k unary_operator_of of
       None \<Rightarrow> parse_postfix R
     | Some op \<Rightarrow>
         pbind take_expected (\<lambda>t.
         pseq skip_layout (
         pbind (sp_unary R) (\<lambda>operand.
         pbind (span_between (span_start (tk_span t)) (span_end (node_span operand))) (\<lambda>sp.
         pure (AstNode (EkUnary (AstNode op (tk_span t)) operand) sp)))))))"

definition binary :: "expression \<Rightarrow> binary_operator \<Rightarrow> span \<Rightarrow> expression \<Rightarrow> expression parser" where
  "binary left op operator_span right =
     pbind (span_between (span_start (node_span left)) (span_end (node_span right))) (\<lambda>sp.
     pure (AstNode (EkBinary left (AstNode op operator_span) right) sp))"

text \<open>The loop of the left-associative levels.\<close>

definition left_round ::
  "(token_kind \<Rightarrow> binary_operator option) \<Rightarrow> expression parser \<Rightarrow> expression \<Rightarrow> (expression + expression) parser" where
  "left_round operator_of operand expression =
     pseq check_cancelled (
     pseq skip_inline (
     pbind (asks current_kind) (\<lambda>k.
     case Option.bind k operator_of of
       None \<Rightarrow> pure (Inl expression)
     | Some op \<Rightarrow>
         pbind take_expected (\<lambda>t.
         pseq skip_layout (
         pbind operand (\<lambda>right.
         pbind (binary expression op (tk_span t) right) (\<lambda>combined.
         pure (Inr combined))))))))"

definition left_associative ::
  "(token_kind \<Rightarrow> binary_operator option) \<Rightarrow> expression parser \<Rightarrow> expression parser" where
  "left_associative operator_of operand =
     pbind operand (\<lambda>first. ploop (left_round operator_of operand) first)"

text \<open>The levels whose operators cannot be repeated.\<close>

definition non_associative ::
  "(token_kind \<Rightarrow> binary_operator option) \<Rightarrow> string \<Rightarrow> expression parser \<Rightarrow> expression parser" where
  "non_associative operator_of message operand =
     pbind operand (\<lambda>left.
     pseq skip_inline (
     pbind (asks current_kind) (\<lambda>k.
     case Option.bind k operator_of of
       None \<Rightarrow> pure left
     | Some op \<Rightarrow>
         pbind take_expected (\<lambda>t.
         pseq skip_layout (
         pbind operand (\<lambda>right.
         pbind (binary left op (tk_span t) right) (\<lambda>combined.
         pseq skip_inline (
         pbind (asks current_kind) (\<lambda>again.
         if Option.bind again operator_of \<noteq> None then invalid_here message
         else pure combined)))))))))"

definition multiplicative_operator :: "token_kind \<Rightarrow> binary_operator option" where
  "multiplicative_operator k =
     (if k = TkOperator OpStar then Some BinMultiply
      else if k = TkOperator OpSlash then Some BinDivide
      else if k = TkOperator OpPercent then Some BinRemainder
      else None)"

definition additive_operator :: "token_kind \<Rightarrow> binary_operator option" where
  "additive_operator k =
     (if k = TkOperator OpPlus then Some BinAdd
      else if k = TkOperator OpMinus then Some BinSubtract
      else None)"

definition range_operator :: "token_kind \<Rightarrow> binary_operator option" where
  "range_operator k =
     (if k = TkOperator OpRange then Some BinRange
      else if k = TkOperator OpRangeInclusive then Some BinRangeInclusive
      else None)"

definition comparison_operator :: "token_kind \<Rightarrow> binary_operator option" where
  "comparison_operator k =
     (if k = TkOperator OpLess then Some BinLess
      else if k = TkOperator OpLessEqual then Some BinLessEqual
      else if k = TkOperator OpGreater then Some BinGreater
      else if k = TkOperator OpGreaterEqual then Some BinGreaterEqual
      else if k = TkKeyword KwIn then Some BinIn
      else None)"

definition equality_operator :: "token_kind \<Rightarrow> binary_operator option" where
  "equality_operator k =
     (if k = TkOperator OpEqual then Some BinEqual
      else if k = TkOperator OpNotEqual then Some BinNotEqual
      else None)"

definition parse_multiplicative :: "syntax_parsers \<Rightarrow> expression parser" where
  "parse_multiplicative R = left_associative multiplicative_operator (parse_unary R)"

definition parse_additive :: "syntax_parsers \<Rightarrow> expression parser" where
  "parse_additive R = left_associative additive_operator (parse_multiplicative R)"

definition parse_range :: "syntax_parsers \<Rightarrow> expression parser" where
  "parse_range R =
     non_associative range_operator ''range operators are non-associative'' (parse_additive R)"

definition parse_comparison :: "syntax_parsers \<Rightarrow> expression parser" where
  "parse_comparison R =
     non_associative comparison_operator ''comparison operators are non-associative'' (parse_range R)"

definition parse_equality :: "syntax_parsers \<Rightarrow> expression parser" where
  "parse_equality R =
     non_associative equality_operator ''equality operators are non-associative'' (parse_comparison R)"

definition parse_expression :: "syntax_parsers \<Rightarrow> expression parser" where
  "parse_expression R = pseq check_cancelled (parse_equality R)"

section \<open>Stages, pipelines and chains\<close>

fun is_keyword :: "token_kind \<Rightarrow> bool" where
  "is_keyword (TkKeyword _) = True"
| "is_keyword _ = False"

definition parse_stage :: "syntax_parsers \<Rightarrow> stage parser" where
  "parse_stage R =
     pseq skip_inline (
     pbind (asks current_kind) (\<lambda>k.
     if k \<in> {Some (TkOperator OpPipe), Some (TkOperator OpPipeBoth)} then
       invalid_here ''pipeline operator cannot begin a stage''
     else if is_some_and (\<lambda>k. is_keyword k \<and> \<not> starts_literal k) k then
       invalid_here ''reserved words cannot start a command stage without `^`''
     else
       pbind (asks starts_forced_command) (\<lambda>forced.
       if k = Some (TkOperator OpCaret) \<and> \<not> forced then
         pbind (asks (\<lambda>e s. get_nth (pe_tokens e) (ps_position s + 1))) (\<lambda>next'.
         if next' = None then incomplete_here InExpression
         else invalid_here ''`^` must be adjacent to a command name'')
       else
         pbind (asks starts_expression_stage) (\<lambda>expression.
         if forced \<or> \<not> expression then parse_command_stage R
         else pbind (parse_expression R) (\<lambda>x. pure (AstNode (SkExpression x) (node_span x)))))))"

text \<open>
  \<open>parse_pipeline\<close>, \<open>parse_and_chain\<close> and \<open>parse_conditional_chain\<close> are one loop over their operands,
  with the end of the last operand, the operands and the operators read so far.
\<close>

definition chain_round ::
  "(token_kind \<Rightarrow> 'o option) \<Rightarrow> incomplete_reason \<Rightarrow> ('t \<Rightarrow> span) \<Rightarrow> 't parser \<Rightarrow>
     nat \<times> 't list \<times> 'o ast_node list \<Rightarrow>
     ((nat \<times> 't list \<times> 'o ast_node list) + (nat \<times> 't list \<times> 'o ast_node list)) parser" where
  "chain_round operator_of reason span_of operand acc =
     pseq check_cancelled (
     pseq skip_inline (
     pbind (asks current_kind) (\<lambda>k.
     case Option.bind k operator_of of
       None \<Rightarrow> pure (Inl acc)
     | Some op \<Rightarrow>
         pbind take_expected (\<lambda>t.
         pseq skip_layout (
         pbind (asks is_end) (\<lambda>b.
         if b then incomplete_at reason (tk_span t)
         else
           pbind operand (\<lambda>term.
           pure (Inr (span_end (span_of term), fst (snd acc) @ [term],
             snd (snd acc) @ [AstNode op (tk_span t)])))))))))"

definition parse_chain ::
  "(token_kind \<Rightarrow> 'o option) \<Rightarrow> incomplete_reason \<Rightarrow> ('t \<Rightarrow> span) \<Rightarrow> 't parser \<Rightarrow>
     ('t list \<times> 'o ast_node list \<times> span) parser" where
  "parse_chain operator_of reason span_of operand =
     pseq check_cancelled (
     pbind operand (\<lambda>first.
     pbind (ploop (chain_round operator_of reason span_of operand)
       (span_end (span_of first), [first], [])) (\<lambda>(stop, terms, operators).
     pbind (span_between (span_start (span_of first)) stop) (\<lambda>sp.
     pure (terms, operators, sp)))))"

definition pipe_operator_of :: "token_kind \<Rightarrow> pipe_operator option" where
  "pipe_operator_of k =
     (if k = TkOperator OpPipe then Some PipeStdout
      else if k = TkOperator OpPipeBoth then Some PipeStdoutAndStderr
      else None)"

definition parse_pipeline :: "syntax_parsers \<Rightarrow> pipeline_syntax parser" where
  "parse_pipeline R =
     pbind (parse_chain pipe_operator_of PipelineStage node_span (parse_stage R)) (\<lambda>(stages, operators, sp).
     pure (Pipeline stages operators sp))"

definition parse_and_chain :: "syntax_parsers \<Rightarrow> and_chain_syntax parser" where
  "parse_and_chain R =
     pbind (parse_chain (\<lambda>k. if k = TkOperator OpAnd then Some CondAnd else None) ConditionalOperand
       pl_span (parse_pipeline R)) (\<lambda>(terms, operators, sp).
     pure (AndChain terms operators sp))"

definition parse_conditional_chain :: "syntax_parsers \<Rightarrow> conditional_chain parser" where
  "parse_conditional_chain R =
     pbind (parse_chain (\<lambda>k. if k = TkOperator OpOr then Some CondOr else None) ConditionalOperand
       ac_span (parse_and_chain R)) (\<lambda>(terms, operators, sp).
     pure (ConditionalChain terms operators sp))"

section \<open>The expression knot\<close>

definition syntax_step :: "syntax_parsers \<Rightarrow> syntax_parsers" where
  "syntax_step R =
     \<lparr>sp_expression = parse_expression R, sp_chain = parse_conditional_chain R,
      sp_pattern = parse_pattern R, sp_unary = parse_unary R\<rparr>"

primrec syntax_level :: "nat \<Rightarrow> syntax_parsers" where
  "syntax_level 0 =
     \<lparr>sp_expression = diverge, sp_chain = diverge, sp_pattern = diverge, sp_unary = diverge\<rparr>"
| "syntax_level (Suc n) = syntax_step (syntax_level n)"

definition expression_entry :: "expression parser" where
  "expression_entry = (\<lambda>e s. sp_expression (syntax_level (pe_fuel e)) e s)"

definition chain_entry :: "conditional_chain parser" where
  "chain_entry = (\<lambda>e s. sp_chain (syntax_level (pe_fuel e)) e s)"

definition pattern_entry :: "pattern_syntax parser" where
  "pattern_entry = (\<lambda>e s. sp_pattern (syntax_level (pe_fuel e)) e s)"

section \<open>Imports, exports and types\<close>

definition statement_between :: "statement_kind \<Rightarrow> span \<Rightarrow> nat \<Rightarrow> statement parser" where
  "statement_between kind start stop =
     pbind (span_between (span_start start) stop) (\<lambda>sp. pure (AstNode kind sp))"

definition parse_module_name_list :: "string \<Rightarrow> (ident list \<times> token) parser" where
  "parse_module_name_list empty_message =
     pbind (expect_delimiter DlLeftBrace ''module name list requires `{`'') (\<lambda>_.
     pseq skip_layout (
     pbind (asks (at_delimiter (Some DlRightBrace))) (\<lambda>b.
     if b then invalid_here empty_message
     else
       pbind (comma_list1 (at_delimiter (Some DlRightBrace)) parse_identifier) (\<lambda>names.
       pbind (expect_delimiter DlRightBrace ''module name list is not closed'') (\<lambda>close.
       pure (names, close))))))"

definition import_names :: "ident list parser" where
  "import_names =
     pbind (asks (at_delimiter (Some DlLeftBrace))) (\<lambda>named.
     if named then
       pbind (parse_module_name_list ''import name list cannot be empty'') (\<lambda>(names, _).
       pseq skip_inline (
       pbind (expect_contextual_identifier ''from'' ''named import requires `from`'') (\<lambda>_.
       pseq skip_inline (pure names))))
     else pure [])"

definition parse_import :: "statement parser" where
  "parse_import =
     pbind take_expected (\<lambda>start.
     pseq skip_inline (
     pbind import_names (\<lambda>names.
     pbind (asks (at_kind TkSingleQuoted)) (\<lambda>quoted.
     if \<not> quoted then expected ''import requires a single-quoted path'' InExpression
     else
       pbind take_expected (\<lambda>path.
       if span_len (tk_span path) = 2 then invalid_at (tk_span path) ''import path cannot be empty''
       else statement_between (StImport names (tk_span path)) (tk_span start) (span_end (tk_span path)))))))"

definition import_source :: "module_import_source parser" where
  "import_source =
     pbind (asks current_kind) (\<lambda>k.
     if k = Some TkSingleQuoted then
       pbind take_expected (\<lambda>path.
       if span_len (tk_span path) = 2 then
         invalid_at (tk_span path) ''module import path cannot be empty''
       else pure (LocalModule (tk_span path)))
     else if k = Some TkIdentifier then
       pbind parse_identifier (\<lambda>namespace.
       pbind (asks (\<lambda>e s. slice_is (ident_span namespace) ''std'' e)) (\<lambda>std.
       if \<not> std then
         invalid_at (ident_span namespace) ''v2 module imports require a local path or `std::name`''
       else
         pbind (expect_operator OpColon ''standard module requires `::`'') (\<lambda>_.
         pbind (expect_operator OpColon ''standard module requires `::`'') (\<lambda>_.
         pbind parse_identifier (\<lambda>module.
         pbind (span_between (span_start (ident_span namespace)) (span_end (ident_span module))) (\<lambda>sp.
         pure (StandardModule namespace module sp)))))))
     else invalid_here ''v2 import requires a local path or qualified standard module'')"

definition parse_module_import :: "statement parser" where
  "parse_module_import =
     pbind take_expected (\<lambda>start.
     pseq skip_inline (
     pbind import_source (\<lambda>src.
     pseq skip_inline (
     pbind (expect_contextual_identifier ''as'' ''v2 module import requires `as alias`'') (\<lambda>_.
     pseq skip_inline (
     pbind parse_identifier (\<lambda>alias.
     statement_between (StModuleImport src alias) (tk_span start) (span_end (ident_span alias)))))))))"

definition parse_nominal_type_field :: "nominal_type_field parser" where
  "parse_nominal_type_field =
     pbind parse_identifier (\<lambda>name.
     pseq skip_inline (
     pbind (expect_operator OpColon ''nominal field requires `:`'') (\<lambda>_.
     pseq skip_inline (
     pbind parse_type_reference (\<lambda>type'.
     pbind (span_between (span_start (ident_span name)) (span_end (type_span type'))) (\<lambda>sp.
     pure (NominalTypeField name type' sp)))))))"

definition parse_nominal_type :: "bool \<Rightarrow> statement parser" where
  "parse_nominal_type top_level =
     (if \<not> top_level then invalid_here ''nominal types are allowed only at module top level''
      else
        pbind take_expected (\<lambda>start.
        pseq skip_inline (
        pbind parse_identifier (\<lambda>name.
        pbind parse_type_parameters (\<lambda>parameters.
        pseq skip_inline (
        pbind (expect_operator OpAssign ''type declaration requires `=`'') (\<lambda>_.
        pseq skip_layout (
        pbind (expect_delimiter DlLeftBrace ''nominal record declaration requires `{`'') (\<lambda>_.
        pseq skip_layout (
        pbind (comma_list (at_delimiter (Some DlRightBrace)) parse_nominal_type_field) (\<lambda>entries.
        pbind (expect_delimiter DlRightBrace ''nominal record declaration is not closed'') (\<lambda>close.
        statement_between (StNominalType name parameters entries) (tk_span start)
          (span_end (tk_span close))))))))))))))"

definition parse_variant :: "variant_declaration parser" where
  "parse_variant =
     pbind parse_identifier (\<lambda>name.
     pseq skip_inline (
     pbind (take_delimiter DlLeftParenthesis) (\<lambda>parenthesis.
     pbind (case parenthesis of
              None \<Rightarrow> pure ([], span_end (ident_span name))
            | Some _ \<Rightarrow>
                pseq skip_layout (
                pbind (comma_list (at_delimiter (Some DlRightParenthesis)) parse_type_reference) (\<lambda>payload.
                pbind (expect_delimiter DlRightParenthesis ''variant payload is not closed'') (\<lambda>close.
                pure (payload, span_end (tk_span close)))))) (\<lambda>(payload, stop).
     pbind (span_between (span_start (ident_span name)) stop) (\<lambda>sp.
     pure (VariantDeclaration name payload sp))))))"

definition parse_variant_type :: "bool \<Rightarrow> statement parser" where
  "parse_variant_type top_level =
     (if \<not> top_level then invalid_here ''variant types are allowed only at module top level''
      else
        pbind take_expected (\<lambda>start.
        pseq skip_inline (
        pbind parse_identifier (\<lambda>name.
        pbind parse_type_parameters (\<lambda>parameters.
        pseq skip_layout (
        pbind (expect_delimiter DlLeftBrace ''variant declaration requires `{`'') (\<lambda>_.
        pseq skip_layout (
        pbind (comma_list (at_delimiter (Some DlRightBrace)) parse_variant) (\<lambda>variants.
        if variants = [] then invalid_here ''variant declaration cannot be empty''
        else
          pbind (expect_delimiter DlRightBrace ''variant declaration is not closed'') (\<lambda>close.
          statement_between (StVariantType name parameters variants) (tk_span start)
            (span_end (tk_span close))))))))))))"

section \<open>Simple statements\<close>

definition parse_declaration :: "bool \<Rightarrow> statement parser" where
  "parse_declaration mutable =
     pbind take_expected (\<lambda>start.
     pseq skip_inline (
     pbind (binding_pattern pattern_entry) (\<lambda>pat.
     pbind (bound_name ''declaration pattern must bind a name'' pat) (\<lambda>name.
     pseq skip_inline (
     pbind (optional_type OpColon skip_inline) (\<lambda>annotation.
     pseq skip_inline (
     pbind (expect_operator OpAssign ''declaration requires `=`'') (\<lambda>_.
     pseq skip_layout (
     pbind expression_entry (\<lambda>value.
     statement_between (StDeclaration mutable pat name annotation value) (tk_span start)
       (span_end (node_span value))))))))))))"

definition parse_assignment :: "statement parser" where
  "parse_assignment =
     pbind parse_variable_reference (\<lambda>target.
     pseq skip_inline (
     pbind (expect_operator OpAssign ''assignment requires `=`'') (\<lambda>_.
     pseq skip_layout (
     pbind expression_entry (\<lambda>value.
     statement_between (StAssignment target value) (vr_span target) (span_end (node_span value)))))))"

definition parse_export :: "bool \<Rightarrow> statement parser" where
  "parse_export top_level =
     pbind take_expected (\<lambda>start.
     pseq skip_inline (
     pbind (asks (at_delimiter (Some DlLeftBrace))) (\<lambda>brace.
     if brace then
       (if \<not> top_level then invalid_here ''module exports are allowed only at module top level''
        else
          pbind (parse_module_name_list ''module export list cannot be empty'') (\<lambda>(names, close).
          statement_between (StModuleExport names) (tk_span start) (span_end (tk_span close))))
     else
       pbind parse_identifier (\<lambda>name.
       pseq skip_inline (
       pbind (expect_operator OpAssign ''export requires `=`'') (\<lambda>_.
       pseq skip_layout (
       pbind expression_entry (\<lambda>value.
       statement_between (StEnvironment (EnvExport name value)) (tk_span start)
         (span_end (node_span value))))))))))"

definition parse_unset :: "statement parser" where
  "parse_unset =
     pbind take_expected (\<lambda>start.
     pseq skip_inline (
     pbind parse_identifier (\<lambda>name.
     statement_between (StEnvironment (EnvUnset name)) (tk_span start) (span_end (ident_span name)))))"

definition parse_throw :: "statement parser" where
  "parse_throw =
     pbind take_expected (\<lambda>start.
     pseq skip_layout (
     pbind expression_entry (\<lambda>value.
     statement_between (StThrow value) (tk_span start) (span_end (node_span value)))))"

definition parse_control :: "control_transfer \<Rightarrow> statement parser" where
  "parse_control transfer = pbind take_expected (\<lambda>t. pure (AstNode (StControl transfer) (tk_span t)))"

definition parse_return :: "statement parser" where
  "parse_return =
     pbind take_expected (\<lambda>start.
     pseq skip_inline (
     pbind (asks at_expression_end) (\<lambda>b.
     pbind (if b then pure None else pbind expression_entry (\<lambda>x. pure (Some x))) (\<lambda>value.
     statement_between (StControl (CtReturn value)) (tk_span start)
       (case value of None \<Rightarrow> span_end (tk_span start) | Some x \<Rightarrow> span_end (node_span x))))))"

definition parse_job_statement :: "statement parser" where
  "parse_job_statement =
     pbind chain_entry (\<lambda>chain.
     pseq skip_inline (
     pbind (take_operator OpBackground) (\<lambda>background.
     statement_between (StJob chain (map_option tk_span background)) (cc_span chain)
       (case background of None \<Rightarrow> span_end (cc_span chain) | Some t \<Rightarrow> span_end (tk_span t)))))"

section \<open>Statements with blocks\<close>

type_synonym statement_block = "statement block"
type_synonym if_node = "statement if_statement ast_node"

record statement_parsers =
  tp_statements :: "delimiter option \<Rightarrow> statement list parser"
  tp_if :: "if_node parser"

definition parse_block :: "statement_parsers \<Rightarrow> statement_block parser" where
  "parse_block T =
     pbind (expect_delimiter DlLeftBrace ''expected a block'') (\<lambda>opening.
     pbind (tp_statements T (Some DlRightBrace)) (\<lambda>statements.
     pbind (expect_delimiter DlRightBrace ''block is not closed'') (\<lambda>close.
     pbind (span_between (span_start (tk_span opening)) (span_end (tk_span close))) (\<lambda>sp.
     pure (Block statements sp)))))"

definition parse_function :: "statement_parsers \<Rightarrow> span list option \<Rightarrow> statement parser" where
  "parse_function T documentation =
     pbind take_expected (\<lambda>start.
     pseq skip_inline (
     pbind parse_identifier (\<lambda>name.
     pbind parse_type_parameters (\<lambda>types.
     pseq skip_inline (
     pbind (expect_delimiter DlLeftParenthesis ''function requires parameters'') (\<lambda>_.
     pbind (parse_parameters pattern_entry (at_delimiter (Some DlRightParenthesis))) (\<lambda>parameters.
     pbind (expect_delimiter DlRightParenthesis ''function parameters are not closed'') (\<lambda>_.
     pseq skip_inline (
     pbind (optional_type OpArrow skip_layout) (\<lambda>result.
     pseq skip_inline (
     pbind (parse_block T) (\<lambda>body.
     statement_between (StFunction documentation name types parameters result body) (tk_span start)
       (span_end (block_span body))))))))))))))"

definition parse_try :: "statement_parsers \<Rightarrow> statement parser" where
  "parse_try T =
     pbind take_expected (\<lambda>start.
     pseq skip_inline (
     pbind (parse_block T) (\<lambda>try_block.
     pseq skip_inline (
     pbind (expect_keyword KwCatch ''try statement requires `catch`'') (\<lambda>_.
     pseq skip_inline (
     pbind parse_identifier (\<lambda>binding.
     pseq skip_inline (
     pbind (parse_block T) (\<lambda>catch_block.
     statement_between (StTry try_block binding catch_block) (tk_span start)
       (span_end (block_span catch_block)))))))))))"

definition parse_else :: "statement_parsers \<Rightarrow> nat \<Rightarrow> (statement else_branch option \<times> nat) parser" where
  "parse_else T stop =
     pbind (take_keyword KwElse) (\<lambda>e.
     case e of
       None \<Rightarrow> pure (None, stop)
     | Some _ \<Rightarrow>
         pseq skip_inline (
         pbind (asks (at_keyword KwIf)) (\<lambda>nested.
         if nested then
           pbind (tp_if T) (\<lambda>n. pure (Some (ElseIf n), span_end (node_span n)))
         else
           pbind (parse_block T) (\<lambda>b. pure (Some (ElseBlock b), span_end (block_span b))))))"

definition parse_if_node :: "statement_parsers \<Rightarrow> if_node parser" where
  "parse_if_node T =
     pbind take_expected (\<lambda>start.
     pseq skip_inline (
     pbind chain_entry (\<lambda>condition.
     pseq skip_inline (
     pbind (parse_block T) (\<lambda>then_block.
     pseq skip_inline (
     pbind (parse_else T (span_end (block_span then_block))) (\<lambda>(else_branch, stop).
     pbind (span_between (span_start (tk_span start)) stop) (\<lambda>sp.
     pure (AstNode (IfStatement condition then_block else_branch) sp)))))))))"

definition parse_if :: "statement_parsers \<Rightarrow> statement parser" where
  "parse_if T = pbind (parse_if_node T) (\<lambda>n. pure (AstNode (StIf (node_kind n)) (node_span n)))"

definition parse_while :: "statement_parsers \<Rightarrow> statement parser" where
  "parse_while T =
     pbind take_expected (\<lambda>start.
     pseq skip_inline (
     pbind chain_entry (\<lambda>condition.
     pseq skip_inline (
     pbind (parse_block T) (\<lambda>body.
     statement_between (StWhile condition body) (tk_span start) (span_end (block_span body)))))))"

definition parse_for :: "statement_parsers \<Rightarrow> statement parser" where
  "parse_for T =
     pbind take_expected (\<lambda>start.
     pseq skip_inline (
     pbind parse_identifier (\<lambda>binding.
     pseq skip_inline (
     pbind (expect_keyword KwIn ''for binding requires `in`'') (\<lambda>_.
     pseq skip_layout (
     pbind expression_entry (\<lambda>iterable.
     pseq skip_inline (
     pbind (parse_block T) (\<lambda>body.
     statement_between (StFor binding iterable body) (tk_span start)
       (span_end (block_span body)))))))))))"

definition match_guard :: "expression option parser" where
  "match_guard =
     pbind (take_keyword KwIf) (\<lambda>t.
     case t of
       None \<Rightarrow> pure None
     | Some _ \<Rightarrow> pseq skip_inline (pbind expression_entry (\<lambda>x. pure (Some x))))"

definition parse_match_arm :: "statement_parsers \<Rightarrow> statement match_arm parser" where
  "parse_match_arm T =
     pbind current_span (\<lambda>start.
     pbind pattern_entry (\<lambda>pat.
     pseq skip_inline (
     pbind match_guard (\<lambda>guard.
     pseq skip_inline (
     pbind (expect_operator OpMatchArrow ''match arm requires `=>`'') (\<lambda>_.
     pseq skip_layout (
     pbind (parse_block T) (\<lambda>body.
     pbind (span_between (span_start start) (span_end (block_span body))) (\<lambda>sp.
     pure (MatchArm pat guard body sp))))))))))"

text \<open>The recovery of the arm loop: report, synchronize with the closing brace, skip the separators.\<close>

definition recover_arm :: "diagnostic \<Rightarrow> unit parser" where
  "recover_arm d =
     pseq (report d) (pseq (synchronize (Some DlRightBrace)) skip_separators)"

definition match_round ::
  "statement_parsers \<Rightarrow> statement match_arm list \<Rightarrow>
     (statement match_arm list + statement match_arm list) parser" where
  "match_round T arms =
     pbind (asks (at_delimiter (Some DlRightBrace))) (\<lambda>closed.
     if closed then pure (Inl arms)
     else
       pcatch (parse_match_arm T)
         (\<lambda>err. case err of
            PeInvalid d \<Rightarrow> pseq (recover_arm d) (pure (Inr arms))
          | _ \<Rightarrow> fail err)
         (\<lambda>arm.
           pseq skip_inline (
           pbind (asks (at_delimiter (Some DlRightBrace))) (\<lambda>last.
           if last then pure (Inl (arms @ [arm]))
           else
             pbind (asks at_statement_separator) (\<lambda>separated.
             if separated then pseq skip_separators (pure (Inr (arms @ [arm])))
             else
               pseq (report_here ''match arms require a separator'') (
               pseq (synchronize (Some DlRightBrace)) (
               pseq skip_separators (pure (Inr (arms @ [arm]))))))))))"

definition parse_match :: "statement_parsers \<Rightarrow> statement parser" where
  "parse_match T =
     pbind take_expected (\<lambda>start.
     pseq skip_inline (
     pbind expression_entry (\<lambda>value.
     pseq skip_inline (
     pbind (expect_delimiter DlLeftBrace ''match requires an arm block'') (\<lambda>_.
     pseq skip_separators (
     pbind (ploop (match_round T) []) (\<lambda>arms.
     pbind (expect_delimiter DlRightBrace ''match block is not closed'') (\<lambda>close.
     statement_between (StMatch value arms) (tk_span start) (span_end (tk_span close))))))))))"

section \<open>Statement lists and scripts\<close>

definition keyword_statement ::
  "statement_parsers \<Rightarrow> bool \<Rightarrow> span list option \<Rightarrow> language_major \<Rightarrow> keyword \<Rightarrow> statement parser option" where
  "keyword_statement T top_level documentation language k =
     (case k of
        KwImport \<Rightarrow> Some
          (if top_level \<and> language = MajorV2 then parse_module_import
           else if top_level then parse_import
           else invalid_here ''imports are allowed only at module top level'')
      | KwLet \<Rightarrow> Some (parse_declaration False)
      | KwMut \<Rightarrow> Some (parse_declaration True)
      | KwExport \<Rightarrow> Some (parse_export top_level)
      | KwUnset \<Rightarrow> Some parse_unset
      | KwDef \<Rightarrow> Some (parse_function T documentation)
      | KwType \<Rightarrow> if language = MajorV2 then Some (parse_nominal_type top_level) else None
      | KwEnum \<Rightarrow> if language = MajorV2 then Some (parse_variant_type top_level) else None
      | KwIf \<Rightarrow> Some (parse_if T)
      | KwWhile \<Rightarrow> Some (parse_while T)
      | KwFor \<Rightarrow> Some (parse_for T)
      | KwMatch \<Rightarrow> Some (parse_match T)
      | KwTry \<Rightarrow> Some (parse_try T)
      | KwThrow \<Rightarrow> Some parse_throw
      | KwBreak \<Rightarrow> Some (parse_control CtBreak)
      | KwContinue \<Rightarrow> Some (parse_control CtContinue)
      | KwReturn \<Rightarrow> Some parse_return
      | KwElse \<Rightarrow> Some (invalid_here ''else requires a preceding if statement'')
      | KwCatch \<Rightarrow> Some (invalid_here ''catch requires a preceding try statement'')
      | _ \<Rightarrow> None)"

definition parse_statement :: "statement_parsers \<Rightarrow> bool \<Rightarrow> span list option \<Rightarrow> statement parser" where
  "parse_statement T top_level documentation =
     pseq check_cancelled (
     pseq skip_inline (
     pbind (asks (\<lambda>e s. pe_language e)) (\<lambda>language.
     pbind (asks current_kind) (\<lambda>k.
     pbind (asks variable_is_assignment) (\<lambda>assigns.
     case k of
       None \<Rightarrow> incomplete_here InExpression
     | Some (TkKeyword w) \<Rightarrow>
         (case keyword_statement T top_level documentation language w of
            Some p \<Rightarrow> p
          | None \<Rightarrow> parse_job_statement)
     | Some k \<Rightarrow>
         if k = TkVariable \<and> assigns then parse_assignment else parse_job_statement)))))"

fun is_backgrounded :: "statement \<Rightarrow> bool" where
  "is_backgrounded (AstNode (StJob _ background) _) = (background \<noteq> None)"
| "is_backgrounded (AstNode _ _) = False"

text \<open>After an error the loop goes on behind it, with the documentation found there.\<close>

definition resynchronize ::
  "delimiter option \<Rightarrow> statement list \<Rightarrow>
     (statement list + (statement list \<times> span list option)) parser" where
  "resynchronize closing statements =
     pseq (synchronize closing) (
     pbind skip_separators_with_documentation (\<lambda>documentation.
     pure (Inr (statements, documentation))))"

definition after_statement ::
  "delimiter option \<Rightarrow> statement list \<Rightarrow> statement \<Rightarrow>
     (statement list + (statement list \<times> span list option)) parser" where
  "after_statement closing statements statement =
     pseq skip_inline (
     if is_backgrounded statement then
       pbind skip_separators_with_documentation (\<lambda>documentation. pure (Inr (statements, documentation)))
     else
       pbind (asks (\<lambda>e s. at_delimiter closing e s \<or> is_end e s)) (\<lambda>last.
       if last then pure (Inl statements)
       else
         pbind (asks (at_kind (TkOperator OpBackground))) (\<lambda>background.
         if background then
           pseq (report_here ''background marker can terminate only a job statement'')
             (resynchronize closing statements)
         else
           pbind (asks at_statement_separator) (\<lambda>separated.
           if \<not> separated then
             pseq (report_here ''expected a statement boundary'') (resynchronize closing statements)
           else
             pbind skip_separators_with_documentation (\<lambda>documentation.
             pure (Inr (statements, documentation)))))))"

definition statement_round ::
  "statement_parsers \<Rightarrow> delimiter option \<Rightarrow> statement list \<times> span list option \<Rightarrow>
     (statement list + (statement list \<times> span list option)) parser" where
  "statement_round T closing acc =
     pbind (asks (\<lambda>e s. is_end e s \<or> at_delimiter closing e s)) (\<lambda>last.
     if last then pure (Inl (fst acc))
     else
       pseq check_cancelled (
       pcatch (parse_statement T (closing = None) (snd acc))
         (\<lambda>err. case err of
            PeInvalid d \<Rightarrow> pseq (report d) (resynchronize closing (fst acc))
          | _ \<Rightarrow> fail err)
         (\<lambda>statement. after_statement closing (fst acc @ [statement]) statement)))"

definition parse_statement_list :: "statement_parsers \<Rightarrow> delimiter option \<Rightarrow> statement list parser" where
  "parse_statement_list T closing =
     pseq check_cancelled (
     pbind skip_separators_with_documentation (\<lambda>documentation.
     ploop (statement_round T closing) ([], documentation)))"

definition statement_step :: "statement_parsers \<Rightarrow> statement_parsers" where
  "statement_step T = \<lparr>tp_statements = parse_statement_list T, tp_if = parse_if_node T\<rparr>"

primrec statement_level :: "nat \<Rightarrow> statement_parsers" where
  "statement_level 0 = \<lparr>tp_statements = \<lambda>_. diverge, tp_if = diverge\<rparr>"
| "statement_level (Suc n) = statement_step (statement_level n)"

definition parse_script :: "script parser" where
  "parse_script =
     pseq check_cancelled (
     pbind (\<lambda>e s. tp_statements (statement_level (pe_fuel e)) None e s) (\<lambda>statements.
     pseq skip_separators (
     pbind (asks is_end) (\<lambda>b.
     pseq (if b then pure () else report_here ''unexpected syntax after statement'') (
     pbind (asks (\<lambda>e s. ps_diagnostics s)) (\<lambda>diagnostics.
     if diagnostics \<noteq> [] then fail (PeInvalidMany diagnostics)
     else
       pbind (asks (\<lambda>e s. source_len (pe_source e))) (\<lambda>n.
       pbind (span_between 0 n) (\<lambda>sp.
       pure (Script statements sp)))))))))"

section \<open>Entry points\<close>

datatype parse_outcome =
    PoComplete script
  | PoIncomplete incomplete_input
  | PoInvalid "diagnostic list"

datatype 'a controlled = Controlled 'a | ControlCancelled

text \<open>
  What a call does: it returns, it panics, or the fuel does not suffice for it.
\<close>

datatype 'a call = Returns 'a | Panics | NeedsFuel

definition parse_outcome_of :: "parse_error + script \<Rightarrow> parse_outcome controlled" where
  "parse_outcome_of r =
     (case r of
        Inr script \<Rightarrow> Controlled (PoComplete script)
      | Inl (PeIncomplete i) \<Rightarrow> Controlled (PoIncomplete i)
      | Inl (PeInvalid d) \<Rightarrow> Controlled (PoInvalid [d])
      | Inl (PeInvalidMany ds) \<Rightarrow> Controlled (PoInvalid ds)
      | Inl PeCancelled \<Rightarrow> ControlCancelled)"

text \<open>\<open>cancelled n\<close> is the answer of \<open>is_cancelled\<close> to the \<open>n\<close>-th question from here on.\<close>

definition parse_tokens ::
  "nat \<Rightarrow> source_file \<Rightarrow> token list \<Rightarrow> language_major \<Rightarrow> (nat \<Rightarrow> bool) \<Rightarrow> parse_outcome controlled call" where
  "parse_tokens fuel src tokens language cancelled =
     (if cancelled 0 then Returns ControlCancelled
      else
        (case classify_tokens src tokens of
           Inl _ \<Rightarrow> Panics
         | Inr classification \<Rightarrow>
             if cancelled 1 then Returns ControlCancelled
             else
               (case classification of
                  ScIncomplete i \<Rightarrow> Returns (Controlled (PoIncomplete i))
                | ScInvalid d \<Rightarrow> Returns (Controlled (PoInvalid [d]))
                | ScComplete \<Rightarrow>
                    (let e = \<lparr>pe_source = src, pe_tokens = tokens, pe_language = language,
                              pe_cancelled = \<lambda>n. cancelled (2 + n), pe_fuel = fuel\<rparr> in
                     case parse_script e parser_new of
                       ParserPanic \<Rightarrow> Panics
                     | ParserDiverged \<Rightarrow> NeedsFuel
                     | Parsed r s \<Rightarrow>
                         if pe_cancelled e (ps_polls s) then Returns ControlCancelled
                         else Returns (parse_outcome_of r)))))"

text \<open>The lexer asks once for each token and once more at the end of the source.\<close>

definition parse_with_control ::
  "nat \<Rightarrow> source_file \<Rightarrow> (nat \<Rightarrow> bool) \<Rightarrow> parse_outcome controlled call" where
  "parse_with_control fuel src cancelled =
     (case lex_with_control LexV1 src cancelled of
        None \<Rightarrow> Panics
      | Some None \<Rightarrow> Returns ControlCancelled
      | Some (Some tokens) \<Rightarrow>
          parse_tokens fuel src tokens MajorV1 (\<lambda>n. cancelled (Suc (length tokens) + n)))"

text \<open>\<open>unreachable!\<close> for a cancelled outcome.\<close>

definition uncontrolled :: "'a controlled call \<Rightarrow> 'a call" where
  "uncontrolled r =
     (case r of
        Returns (Controlled x) \<Rightarrow> Returns x
      | Returns ControlCancelled \<Rightarrow> Panics
      | Panics \<Rightarrow> Panics
      | NeedsFuel \<Rightarrow> NeedsFuel)"

text \<open>Two units of fuel more than there are tokens, see \<open>Parser_Proofs\<close>.\<close>

definition parser_fuel :: "token list \<Rightarrow> nat" where
  "parser_fuel tokens = length tokens + 2"

definition parse :: "source_file \<Rightarrow> parse_outcome call" where
  "parse src =
     (case lex src of
        None \<Rightarrow> Panics
      | Some tokens \<Rightarrow> uncontrolled (parse_with_control (parser_fuel tokens) src (\<lambda>_. False)))"

definition parse_v2_submission :: "source_file \<Rightarrow> parse_outcome call" where
  "parse_v2_submission src =
     (case lex_v2 src of
        None \<Rightarrow> Panics
      | Some tokens \<Rightarrow>
          uncontrolled (parse_tokens (parser_fuel tokens) src tokens MajorV2 (\<lambda>_. False)))"

text \<open>\<open>VersionedScript\<close> of \<open>flash-syntax/src/language.rs\<close>.\<close>

datatype versioned_script = VersionedScript language_directive script

datatype versioned_outcome =
    VoComplete versioned_script
  | VoIncomplete incomplete_input
  | VoInvalid "diagnostic list"

text \<open>The loop that drops the directive's tokens asks once for each token.\<close>

fun body_tokens :: "nat \<Rightarrow> (nat \<Rightarrow> bool) \<Rightarrow> token list \<Rightarrow> token list option" where
  "body_tokens start cancelled [] = Some []"
| "body_tokens start cancelled (t # ts) =
     (if cancelled 0 then None
      else
        (case body_tokens start (\<lambda>n. cancelled (Suc n)) ts of
           None \<Rightarrow> None
         | Some body \<Rightarrow> Some (if start \<le> span_start (tk_span t) then t # body else body)))"

definition versioned :: "language_directive \<Rightarrow> parse_outcome \<Rightarrow> versioned_outcome" where
  "versioned directive outcome =
     (case outcome of
        PoComplete script \<Rightarrow> VoComplete (VersionedScript directive script)
      | PoIncomplete i \<Rightarrow> VoIncomplete i
      | PoInvalid ds \<Rightarrow> VoInvalid ds)"

definition parse_v2_tokens ::
  "nat \<Rightarrow> source_file \<Rightarrow> token list \<Rightarrow> (nat \<Rightarrow> bool) \<Rightarrow> versioned_outcome controlled call" where
  "parse_v2_tokens fuel src tokens cancelled =
     (if cancelled 0 then Returns ControlCancelled
      else
        (case detect_source_language_tokens src tokens of
           None \<Rightarrow> Panics
         | Some (DetectedInvalid ds) \<Rightarrow> Returns (Controlled (VoInvalid ds))
         | Some (DetectedComplete directive) \<Rightarrow>
             if cancelled 1 then Returns ControlCancelled
             else
               (case body_tokens (span_end (ld_span directive)) (\<lambda>n. cancelled (2 + n)) tokens of
                  None \<Rightarrow> Returns ControlCancelled
                | Some body \<Rightarrow>
                    (case parse_tokens fuel src body MajorV2 (\<lambda>n. cancelled (2 + length tokens + n)) of
                       Returns (Controlled outcome) \<Rightarrow> Returns (Controlled (versioned directive outcome))
                     | Returns ControlCancelled \<Rightarrow> Returns ControlCancelled
                     | Panics \<Rightarrow> Panics
                     | NeedsFuel \<Rightarrow> NeedsFuel))))"

definition parse_v2_with_control ::
  "nat \<Rightarrow> source_file \<Rightarrow> (nat \<Rightarrow> bool) \<Rightarrow> versioned_outcome controlled call" where
  "parse_v2_with_control fuel src cancelled =
     (case lex_with_control LexV2 src cancelled of
        None \<Rightarrow> Panics
      | Some None \<Rightarrow> Returns ControlCancelled
      | Some (Some tokens) \<Rightarrow>
          parse_v2_tokens fuel src tokens (\<lambda>n. cancelled (Suc (length tokens) + n)))"

definition parse_v2 :: "source_file \<Rightarrow> versioned_outcome call" where
  "parse_v2 src =
     (case lex_v2 src of
        None \<Rightarrow> Panics
      | Some tokens \<Rightarrow> uncontrolled (parse_v2_with_control (parser_fuel tokens) src (\<lambda>_. False)))"

end
