(* ===== verification/Parser_Proofs.thy ===== *)
theory Parser_Proofs
  imports Parser Lexer_Proofs
begin

text \<open>
  A program logic for the parser: \<open>ok e p d m s Q\<close> says that \<open>m\<close>, started in \<open>s\<close>, neither panics nor runs
  out of fuel; that it ends with a value and state in \<open>Q\<close>, or with an error at or behind position \<open>p\<close> and
  at depth \<open>d\<close> or more; and that every span it reports lies in the source. The rules for the primitive
  steps form the collection \<open>parser_rules\<close>, applied backwards.
\<close>

named_theorems parser_rules \<open>backward rules for the steps of the parser\<close>

section \<open>Offsets\<close>

definition token_offset :: "parser_env \<Rightarrow> nat \<Rightarrow> nat" where
  "token_offset e i =
     (if i < length (pe_tokens e) then span_start (tk_span (pe_tokens e ! i))
      else source_len (pe_source e))"

definition bnd :: "parser_env \<Rightarrow> nat \<Rightarrow> bool" where
  "bnd e a \<longleftrightarrow> is_char_boundary (sf_text (pe_source e)) a"

definition valid_span :: "parser_env \<Rightarrow> span \<Rightarrow> bool" where
  "valid_span e sp \<longleftrightarrow> (\<exists>a b. source_span (pe_source e) a b = Inr sp)"

text \<open>The tokens are those of the source from some offset on, and nothing cancels the run.\<close>

definition env_ok :: "parser_env \<Rightarrow> bool" where
  "env_ok e \<longleftrightarrow>
     utf8_valid (sf_text (pe_source e)) \<and>
     (\<exists>lang a. tiles (pe_source e) lang a (pe_tokens e) (source_len (pe_source e))) \<and>
     (\<forall>n. \<not> pe_cancelled e n) \<and> length (pe_tokens e) < pe_fuel e"

lemma valid_span_iff:
  "valid_span e sp \<longleftrightarrow>
     span_source_id sp = sf_id (pe_source e) \<and> span_start sp \<le> span_end sp \<and>
     bnd e (span_start sp) \<and> bnd e (span_end sp)"
  by (cases sp) (auto simp: valid_span_def source_span_Inr_iff bnd_def)

lemma valid_span_bnd [intro, simp]:
  "valid_span e sp \<Longrightarrow> bnd e (span_start sp)"
  "valid_span e sp \<Longrightarrow> bnd e (span_end sp)"
  unfolding valid_span_iff by simp_all

lemma valid_span_le: "valid_span e sp \<Longrightarrow> span_start sp \<le> span_end sp"
  unfolding valid_span_iff by simp

lemma bnd_len [simp]: "bnd e (source_len (pe_source e))"
  by (simp add: bnd_def source_len_def)

lemma bnd_le: "bnd e a \<Longrightarrow> a \<le> source_len (pe_source e)"
  by (auto simp: bnd_def source_len_def dest: is_char_boundary_le)

lemma token_text_span: "token_text (pe_source e) t = Inr u \<Longrightarrow> valid_span e (tk_span t)"
  by (auto simp: token_text_def source_slice_Inr_iff validate_span_Inr_iff valid_span_iff bnd_def)

lemma tiles_nth:
  assumes "tiles src lang a toks b" and "i < length toks"
  shows "(\<exists>t. token_text src (toks ! i) = Inr t \<and> token_shape lang (tk_kind (toks ! i)) t) \<and>
    a \<le> span_start (tk_span (toks ! i)) \<and>
    span_start (tk_span (toks ! i)) < span_end (tk_span (toks ! i)) \<and>
    span_end (tk_span (toks ! i)) = (if Suc i < length toks then span_start (tk_span (toks ! Suc i)) else b)"
  using assms
proof (induction toks arbitrary: a i)
  case (Cons t toks)
  then have tl: "tiles src lang (span_end (tk_span t)) toks b" and a: "span_start (tk_span t) = a"
    "a < span_end (tk_span t)" by auto
  show ?case
  proof (cases i)
    case 0
    then show ?thesis using Cons.prems tl by (cases toks) auto
  next
    case (Suc j)
    with Cons.prems have "j < length toks" by simp
    from Cons.IH [OF tl this] Suc a show ?thesis by auto
  qed
qed simp

lemma env_token:
  assumes "env_ok e" and "i < length (pe_tokens e)"
  defines "t \<equiv> pe_tokens e ! i"
  shows "valid_span e (tk_span t)" and "span_start (tk_span t) = token_offset e i"
    and "token_offset e i < token_offset e (Suc i)" and "span_end (tk_span t) = token_offset e (Suc i)"
    and "\<exists>lang u. token_text (pe_source e) t = Inr u \<and> token_shape lang (tk_kind t) u"
proof -
  from assms(1) obtain lang a where
    "tiles (pe_source e) lang a (pe_tokens e) (source_len (pe_source e))" by (auto simp: env_ok_def)
  from tiles_nth [OF this assms(2)] assms(2) show "valid_span e (tk_span t)"
    "span_start (tk_span t) = token_offset e i" "token_offset e i < token_offset e (Suc i)"
    "span_end (tk_span t) = token_offset e (Suc i)"
    "\<exists>lang u. token_text (pe_source e) t = Inr u \<and> token_shape lang (tk_kind t) u"
    by (auto simp: token_offset_def t_def token_text_span)
qed

lemma token_offset_mono:
  assumes "env_ok e" and "i \<le> j"
  shows "token_offset e i \<le> token_offset e j"
  using assms(2)
proof (induction rule: dec_induct)
  case (step n)
  show ?case
  proof (cases "n < length (pe_tokens e)")
    case True
    from env_token(3) [OF assms(1) True] step.IH show ?thesis by simp
  next
    case False
    then have "token_offset e (Suc n) = token_offset e n" by (simp add: token_offset_def)
    with step.IH show ?thesis by simp
  qed
qed simp

text \<open>The name in a variable token, without its dollar sign.\<close>

lemma variable_name_span:
  assumes "env_ok e" and "i < length (pe_tokens e)" and "tk_kind (pe_tokens e ! i) = TkVariable"
  shows "bnd e (span_start (tk_span (pe_tokens e ! i)) + 1) \<and>
    span_start (tk_span (pe_tokens e ! i)) + 1 \<le> span_end (tk_span (pe_tokens e ! i))"
proof -
  let ?t = "pe_tokens e ! i" and ?s = "sf_text (pe_source e)"
  from env_token(5) [OF assms(1,2)] assms(3) obtain u where
    u: "token_text (pe_source e) ?t = Inr u" "hd u = CHR ''$''" "tl u \<noteq> []"
    "is_identifier_start (hd (tl u))" by (auto simp: token_shape_def)
  let ?a = "span_start (tk_span ?t)" and ?b = "span_end (tk_span ?t)"
  from u(1) have cut: "u = cut ?a ?b ?s" and b: "?b \<le> length ?s"
    by (auto simp: token_text_def source_slice_Inr_iff validate_span_Inr_iff dest: is_char_boundary_le)
  then have len: "length u = ?b - ?a" by (simp add: cut_def)
  from u(3) have two: "1 < length u" by (cases u; cases "tl u") auto
  have "hd (tl u) = u ! 1" using two by (cases u; cases "tl u") auto
  also have "\<dots> = ?s ! (?a + 1)" using two len b unfolding cut by (simp add: cut_def)
  finally have "is_ascii (?s ! (?a + 1))"
    using u(4) identifier_ascii by (auto simp: is_identifier_start_def is_identifier_continue_def)
  then have "bnd e (?a + 1)" using two len b ascii_boundary [of "?a + 1" ?s] by (simp add: bnd_def)
  then show ?thesis using two len by simp
qed

section \<open>States and outcomes\<close>

abbreviation off :: "parser_env \<Rightarrow> parser_state \<Rightarrow> nat" where
  "off e s \<equiv> token_offset e (ps_position s)"

definition diagnostic_ok :: "parser_env \<Rightarrow> diagnostic \<Rightarrow> bool" where
  "diagnostic_ok e d \<longleftrightarrow> (\<exists>sp message. valid_span e sp \<and> d = syntax_diagnostic sp message)"

fun error_ok :: "parser_env \<Rightarrow> parse_error \<Rightarrow> bool" where
  "error_ok e (PeIncomplete i) = valid_span e (ii_span i)"
| "error_ok e (PeInvalid d) = diagnostic_ok e d"
| "error_ok e (PeInvalidMany ds) = False"
| "error_ok e PeCancelled = False"

text \<open>A state at or behind position \<open>p\<close> and at depth \<open>d\<close> or more.\<close>

definition cur :: "parser_env \<Rightarrow> nat \<Rightarrow> nat \<Rightarrow> parser_state \<Rightarrow> bool" where
  "cur e p d s \<longleftrightarrow>
     env_ok e \<and> ps_position s \<le> length (pe_tokens e) \<and> list_all (diagnostic_ok e) (ps_diagnostics s) \<and>
     p \<le> ps_position s \<and> d \<le> ps_depth s"

definition ok ::
  "parser_env \<Rightarrow> nat \<Rightarrow> nat \<Rightarrow> 'a parser \<Rightarrow> parser_state \<Rightarrow> ('a \<Rightarrow> parser_state \<Rightarrow> bool) \<Rightarrow> bool" where
  "ok e p d m s Q \<longleftrightarrow>
     (case m e s of
        Parsed (Inr x) s' \<Rightarrow> Q x s'
      | Parsed (Inl err) s' \<Rightarrow> cur e p d s' \<and> error_ok e err
      | _ \<Rightarrow> False)"

lemma cur_start: "cur e p d s \<Longrightarrow> cur e (ps_position s) (ps_depth s) s"
  by (simp add: cur_def)

lemma cur_pos: "cur e p d s \<Longrightarrow> p \<le> ps_position s"
  by (simp add: cur_def)

lemma cur_env: "cur e p d s \<Longrightarrow> env_ok e"
  by (simp add: cur_def)

lemma cur_weaken: "cur e p d s \<Longrightarrow> p' \<le> p \<Longrightarrow> d' \<le> d \<Longrightarrow> cur e p' d' s"
  by (simp add: cur_def)

lemma ok_weaken:
  assumes "ok e p d m s P" and "p' \<le> p" and "d' \<le> d" and "\<And>x s'. P x s' \<Longrightarrow> Q x s'"
  shows "ok e p' d' m s Q"
  using assms by (auto simp: ok_def cur_def split: parsed.splits sum.splits)

section \<open>Rules for sequencing\<close>

lemma ok_pure [parser_rules]: "Q x s \<Longrightarrow> ok e p d (pure x) s Q"
  by (simp add: ok_def pure_def)

lemma ok_fail: "cur e p d s \<Longrightarrow> error_ok e err \<Longrightarrow> ok e p d (fail err) s Q"
  by (simp add: ok_def fail_def)

lemma ok_bind [parser_rules]:
  "ok e p d m s (\<lambda>x s'. ok e p d (f x) s' Q) \<Longrightarrow> ok e p d (pbind m f) s Q"
  by (auto simp: ok_def pbind_def split: parsed.splits sum.splits)

lemma ok_seq [parser_rules]:
  "ok e p d m s (\<lambda>_ s'. ok e p d k s' Q) \<Longrightarrow> ok e p d (pseq m k) s Q"
  by (simp add: pseq_def ok_bind)

lemma ok_asks [parser_rules]: "Q (g e s) s \<Longrightarrow> ok e p d (asks g) s Q"
  by (simp add: ok_def asks_def)

lemma ok_updates: "Q () (g s) \<Longrightarrow> ok e p d (updates g) s Q"
  by (simp add: ok_def updates_def)

lemma ok_if [parser_rules]:
  "(b \<Longrightarrow> ok e p d m s Q) \<Longrightarrow> (\<not> b \<Longrightarrow> ok e p d m' s Q) \<Longrightarrow> ok e p d (if b then m else m') s Q"
  by simp

lemma ok_option [parser_rules]:
  "(x = None \<Longrightarrow> ok e p d m s Q) \<Longrightarrow> (\<And>y. x = Some y \<Longrightarrow> ok e p d (f y) s Q) \<Longrightarrow>
     ok e p d (case x of None \<Rightarrow> m | Some y \<Rightarrow> f y) s Q"
  by (cases x) simp_all

lemma ok_prod [parser_rules]:
  "(\<And>a b. x = (a, b) \<Longrightarrow> ok e p d (f a b) s Q) \<Longrightarrow> ok e p d (case x of (a, b) \<Rightarrow> f a b) s Q"
  by (cases x) simp

lemma ok_list [parser_rules]:
  "(xs = [] \<Longrightarrow> ok e p d m s Q) \<Longrightarrow> (\<And>y ys. xs = y # ys \<Longrightarrow> ok e p d (f y ys) s Q) \<Longrightarrow>
     ok e p d (case xs of [] \<Rightarrow> m | y # ys \<Rightarrow> f y ys) s Q"
  by (cases xs) simp_all

lemma ok_let [parser_rules]: "ok e p d (f x) s Q \<Longrightarrow> ok e p d (let y = x in f y) s Q"
  by simp

lemma ok_catch:
  assumes m: "ok e (ps_position s) (ps_depth s) m s P" and s: "cur e p d s"
    and f: "\<And>x s'. P x s' \<Longrightarrow> ok e p d (f x) s' Q"
    and h: "\<And>err s'. error_ok e err \<Longrightarrow> cur e p d s' \<Longrightarrow> ps_position s \<le> ps_position s' \<Longrightarrow>
      ok e p d (h err) s' Q"
  shows "ok e p d (pcatch m h f) s Q"
proof (cases "m e s")
  case (Parsed r s')
  show ?thesis
  proof (cases r)
    case (Inl err)
    with Parsed m have "error_ok e err" "cur e (ps_position s) (ps_depth s) s'" by (simp_all add: ok_def)
    with s have "error_ok e err" "cur e p d s'" "ps_position s \<le> ps_position s'"
      by (auto simp: cur_def)
    with h show ?thesis using Parsed Inl by (simp add: ok_def pcatch_def)
  next
    case (Inr x)
    with Parsed m f show ?thesis by (simp add: ok_def pcatch_def)
  qed
qed (use m in \<open>simp_all add: ok_def\<close>)

section \<open>Rules for loops\<close>

text \<open>Each round of a loop that goes on takes a token.\<close>

lemma ok_rounds:
  assumes body: "\<And>a s. cur e p d s \<Longrightarrow> I a s \<Longrightarrow>
      ok e p d (body a) s (\<lambda>r s'. case r of Inl b \<Rightarrow> Q b s'
        | Inr a' \<Rightarrow> cur e p d s' \<and> ps_position s < ps_position s' \<and> I a' s')"
    and "cur e p d s" "I a s" "length (pe_tokens e) - ps_position s < n"
  shows "ok e p d (rounds n body a) s Q"
  using assms(2-)
proof (induction n arbitrary: a s)
  case (Suc n)
  show ?case unfolding rounds.simps
  proof (rule ok_bind, rule ok_weaken [OF body [OF Suc.prems(1,2)] order_refl order_refl])
    fix r s'
    assume *: "case r of Inl b \<Rightarrow> Q b s'
      | Inr a' \<Rightarrow> cur e p d s' \<and> ps_position s < ps_position s' \<and> I a' s'"
    show "ok e p d (case r of Inl b \<Rightarrow> pure b | Inr a' \<Rightarrow> rounds n body a') s' Q"
    proof (cases r)
      case (Inl b)
      with * show ?thesis by (simp add: ok_pure)
    next
      case (Inr a')
      with * have "cur e p d s'" "ps_position s < ps_position s'" "I a' s'" by simp_all
      moreover from this Suc.prems(1,3) have "length (pe_tokens e) - ps_position s' < n"
        by (auto simp: cur_def)
      ultimately show ?thesis using Suc.IH Inr by simp
    qed
  qed
qed simp

lemma ok_loop:
  assumes "cur e p d s" and "I a s"
    and "\<And>a s. cur e p d s \<Longrightarrow> I a s \<Longrightarrow>
      ok e p d (body a) s (\<lambda>r s'. case r of Inl b \<Rightarrow> Q b s'
        | Inr a' \<Rightarrow> cur e p d s' \<and> ps_position s < ps_position s' \<and> I a' s')"
  shows "ok e p d (ploop body a) s Q"
proof -
  have "length (pe_tokens e) - ps_position s < pe_fuel e"
    using assms(1) by (auto simp: cur_def env_ok_def)
  from ok_rounds [of e p d I body Q s a, OF assms(3) assms(1,2) this] show ?thesis
    by (simp add: ok_def ploop_def)
qed

section \<open>Specifications of methods\<close>

text \<open>
  A method that reads a node: it takes a token, and the node's span lies between the offsets of the
  states before and after. A plain method only moves on.
\<close>

definition node ::
  "parser_env \<Rightarrow> parser_state \<Rightarrow> 'a parser \<Rightarrow> ('a \<Rightarrow> span) \<Rightarrow> ('a \<Rightarrow> parser_state \<Rightarrow> bool) \<Rightarrow> bool" where
  "node e s m sp A \<longleftrightarrow>
     ok e (ps_position s) (ps_depth s) m s (\<lambda>x s'.
       cur e (ps_position s) (ps_depth s) s' \<and> ps_position s < ps_position s' \<and> valid_span e (sp x) \<and>
       off e s \<le> span_start (sp x) \<and> span_end (sp x) \<le> off e s' \<and> A x s')"

definition plain :: "parser_env \<Rightarrow> parser_state \<Rightarrow> 'a parser \<Rightarrow> ('a \<Rightarrow> parser_state \<Rightarrow> bool) \<Rightarrow> bool" where
  "plain e s m A \<longleftrightarrow>
     ok e (ps_position s) (ps_depth s) m s (\<lambda>x s'. cur e (ps_position s) (ps_depth s) s' \<and> A x s')"

lemma ok_node:
  assumes m: "node e s m sp A" and s: "cur e p d s"
    and Q: "\<And>x s'. cur e p d s' \<Longrightarrow> ps_position s < ps_position s' \<Longrightarrow> ps_depth s \<le> ps_depth s' \<Longrightarrow>
      off e s \<le> off e s' \<Longrightarrow> valid_span e (sp x) \<Longrightarrow> off e s \<le> span_start (sp x) \<Longrightarrow>
      span_start (sp x) \<le> span_end (sp x) \<Longrightarrow> span_end (sp x) \<le> off e s' \<Longrightarrow> A x s' \<Longrightarrow> Q x s'"
  shows "ok e p d m s Q"
proof (rule ok_weaken [OF m [unfolded node_def]])
  show "p \<le> ps_position s" "d \<le> ps_depth s" using s by (simp_all add: cur_def)
  fix x s'
  assume *: "cur e (ps_position s) (ps_depth s) s' \<and> ps_position s < ps_position s' \<and> valid_span e (sp x) \<and>
    off e s \<le> span_start (sp x) \<and> span_end (sp x) \<le> off e s' \<and> A x s'"
  with s have "cur e p d s'" "ps_depth s \<le> ps_depth s'" by (auto simp: cur_def)
  moreover from * s have "off e s \<le> off e s'" by (auto intro!: token_offset_mono dest: cur_env)
  moreover from * have "span_start (sp x) \<le> span_end (sp x)" by (auto intro: valid_span_le)
  ultimately show "Q x s'" using * Q by simp
qed

lemma ok_plain:
  assumes m: "plain e s m A" and s: "cur e p d s"
    and Q: "\<And>x s'. cur e p d s' \<Longrightarrow> ps_position s \<le> ps_position s' \<Longrightarrow> ps_depth s \<le> ps_depth s' \<Longrightarrow>
      off e s \<le> off e s' \<Longrightarrow> A x s' \<Longrightarrow> Q x s'"
  shows "ok e p d m s Q"
proof (rule ok_weaken [OF m [unfolded plain_def]])
  show "p \<le> ps_position s" "d \<le> ps_depth s" using s by (simp_all add: cur_def)
  fix x s'
  assume *: "cur e (ps_position s) (ps_depth s) s' \<and> A x s'"
  with s have "cur e p d s'" "ps_position s \<le> ps_position s'" "ps_depth s \<le> ps_depth s'"
    by (auto simp: cur_def)
  moreover from this s have "off e s \<le> off e s'" by (auto intro!: token_offset_mono dest: cur_env)
  ultimately show "Q x s'" using * Q by simp
qed

lemma nodeI:
  assumes "cur e p d s"
    and "cur e (ps_position s) (ps_depth s) s \<Longrightarrow>
      ok e (ps_position s) (ps_depth s) m s (\<lambda>x s'.
        cur e (ps_position s) (ps_depth s) s' \<and> ps_position s < ps_position s' \<and> valid_span e (sp x) \<and>
        off e s \<le> span_start (sp x) \<and> span_end (sp x) \<le> off e s' \<and> A x s')"
  shows "node e s m sp A"
  unfolding node_def using assms cur_start by blast

lemma plainI:
  assumes "cur e p d s"
    and "cur e (ps_position s) (ps_depth s) s \<Longrightarrow>
      ok e (ps_position s) (ps_depth s) m s (\<lambda>x s'. cur e (ps_position s) (ps_depth s) s' \<and> A x s')"
  shows "plain e s m A"
  unfolding plain_def using assms cur_start by blast

section \<open>Rules for the primitive steps\<close>

lemma current_bound [intro]:
  "current e s = Some t \<Longrightarrow> ps_position s < length (pe_tokens e)"
  "current_kind e s = Some k \<Longrightarrow> ps_position s < length (pe_tokens e)"
  "at_kind k e s \<Longrightarrow> ps_position s < length (pe_tokens e)"
  "\<not> is_end e s \<Longrightarrow> ps_position s < length (pe_tokens e)"
  "at_delimiter d e s \<Longrightarrow> ps_position s < length (pe_tokens e)"
  by (auto simp: current_def current_kind_def at_kind_def is_end_def at_delimiter_def split: option.splits)

lemma ok_case_Some: "ok e p d (f y) s Q \<Longrightarrow> ok e p d (case Some y of None \<Rightarrow> m | Some y \<Rightarrow> f y) s Q"
  by simp

lemma ok_case_None: "ok e p d m s Q \<Longrightarrow> ok e p d (case None of None \<Rightarrow> m | Some y \<Rightarrow> f y) s Q"
  by simp

lemma ok_current:
  assumes "cur e p d s" and "current e s = None \<Longrightarrow> Q None s"
    and "\<And>t. current e s = Some t \<Longrightarrow> ps_position s < length (pe_tokens e) \<Longrightarrow> valid_span e (tk_span t) \<Longrightarrow>
      off e s = span_start (tk_span t) \<Longrightarrow> span_start (tk_span t) < span_end (tk_span t) \<Longrightarrow>
      span_end (tk_span t) = token_offset e (Suc (ps_position s)) \<Longrightarrow> Q (Some t) s"
  shows "ok e p d (asks current) s Q"
proof (rule ok_asks, cases "current e s")
  case (Some t)
  then have i: "ps_position s < length (pe_tokens e)" and t: "t = pe_tokens e ! ps_position s"
    by (auto simp: current_def)
  from env_token [OF cur_env [OF assms(1)] i] assms(3) [OF Some i] show "Q (current e s) s"
    by (simp add: Some t)
qed (use assms in simp)

lemma ok_current_kind:
  assumes "current_kind e s = None \<Longrightarrow> Q None s"
    and "\<And>k. current_kind e s = Some k \<Longrightarrow> ps_position s < length (pe_tokens e) \<Longrightarrow> Q (Some k) s"
  shows "ok e p d (asks current_kind) s Q"
proof (rule ok_asks, cases "current_kind e s")
  case (Some k)
  with assms(2) [OF Some current_bound(2) [OF Some]] show "Q (current_kind e s) s" by simp
qed (use assms(1) in simp)

lemma ok_move:
  assumes "cur e p d s" and "ps_position s < length (pe_tokens e)"
    and "\<And>s'. cur e p d s' \<Longrightarrow> ps_position s < ps_position s' \<Longrightarrow> ps_depth s \<le> ps_depth s' \<Longrightarrow>
      off e s \<le> off e s' \<Longrightarrow> off e s' = token_offset e (Suc (ps_position s)) \<Longrightarrow> Q () s'"
  shows "ok e p d (move_position 1) s Q"
  unfolding move_position_def
proof (rule ok_updates, rule assms(3))
  from assms(1,2) show "cur e p d (s\<lparr>ps_position := ps_position s + 1\<rparr>)" by (simp add: cur_def)
  from token_offset_mono [OF cur_env [OF assms(1)], of "ps_position s" "ps_position s + 1"]
  show "off e s \<le> off e (s\<lparr>ps_position := ps_position s + 1\<rparr>)" by simp
qed simp_all

lemma take_expected_node:
  assumes s: "cur e p d s" and i: "ps_position s < length (pe_tokens e)"
  shows "node e s take_expected tk_span (\<lambda>t s'. current e s = Some t \<and> off e s = span_start (tk_span t) \<and>
    off e s' = span_end (tk_span t) \<and> ps_position s' = Suc (ps_position s))"
proof -
  have c: "current e s = Some (pe_tokens e ! ps_position s)" using i by (simp add: current_def)
  from c have "take_expected e s =
      Parsed (Inr (pe_tokens e ! ps_position s)) (s\<lparr>ps_position := ps_position s + 1\<rparr>)"
    by (simp add: take_expected_def take_token_def pbind_def asks_def pseq_def move_position_def
        updates_def pure_def)
  with env_token [OF cur_env [OF s] i] i s c show ?thesis
    by (auto simp: node_def ok_def cur_def)
qed

lemma take_expected_eq:
  "current e s = Some t \<Longrightarrow> take_token e s = Parsed (Inr (Some t)) (s\<lparr>ps_position := ps_position s + 1\<rparr>)"
  "current e s = Some t \<Longrightarrow> take_expected e s = Parsed (Inr t) (s\<lparr>ps_position := ps_position s + 1\<rparr>)"
  by (simp_all add: take_expected_def take_token_def pbind_def asks_def pseq_def move_position_def
      updates_def pure_def)

lemma ok_take_token:
  assumes s: "cur e p d s" and N: "is_end e s \<Longrightarrow> Q None s"
    and Q: "\<And>t s'. cur e p d s' \<Longrightarrow> ps_position s < ps_position s' \<Longrightarrow> ps_depth s \<le> ps_depth s' \<Longrightarrow>
      off e s \<le> off e s' \<Longrightarrow> valid_span e (tk_span t) \<Longrightarrow> off e s \<le> span_start (tk_span t) \<Longrightarrow>
      span_start (tk_span t) \<le> span_end (tk_span t) \<Longrightarrow> span_end (tk_span t) \<le> off e s' \<Longrightarrow>
      current e s = Some t \<Longrightarrow> Q (Some t) s'"
  shows "ok e p d take_token s Q"
proof (cases "current e s")
  case None
  then have "is_end e s" by (auto simp: current_def is_end_def get_nth_def split: if_splits)
  with None N show ?thesis by (simp add: take_token_def pbind_def asks_def ok_def pure_def)
next
  case (Some t)
  then have i: "ps_position s < length (pe_tokens e)" by (rule current_bound)
  have "ok e p d take_expected s (\<lambda>t s'. Q (Some t) s')"
    by (rule ok_node [OF take_expected_node [OF s i] s]) (use Q in blast)
  with Some show ?thesis by (simp add: ok_def take_expected_eq)
qed

lemma ok_take_token_some:
  assumes s: "cur e p d s" and i: "ps_position s < length (pe_tokens e)"
    and Q: "\<And>t s'. cur e p d s' \<Longrightarrow> ps_position s < ps_position s' \<Longrightarrow> ps_depth s \<le> ps_depth s' \<Longrightarrow>
      off e s \<le> off e s' \<Longrightarrow> valid_span e (tk_span t) \<Longrightarrow> off e s \<le> span_start (tk_span t) \<Longrightarrow>
      span_start (tk_span t) \<le> span_end (tk_span t) \<Longrightarrow> span_end (tk_span t) \<le> off e s' \<Longrightarrow> Q (Some t) s'"
  shows "ok e p d take_token s Q"
  by (rule ok_take_token [OF s]) (use i in \<open>simp add: is_end_def\<close>, rule Q)

lemma ok_take_kind:
  assumes s: "cur e p d s" and N: "Q None s"
    and Q: "\<And>t s'. cur e p d s' \<Longrightarrow> ps_position s < ps_position s' \<Longrightarrow> ps_depth s \<le> ps_depth s' \<Longrightarrow>
      off e s \<le> off e s' \<Longrightarrow> valid_span e (tk_span t) \<Longrightarrow> off e s \<le> span_start (tk_span t) \<Longrightarrow>
      span_start (tk_span t) \<le> span_end (tk_span t) \<Longrightarrow> span_end (tk_span t) \<le> off e s' \<Longrightarrow> Q (Some t) s'"
  shows "ok e p d (take_kind k) s Q"
  unfolding take_kind_def
proof (intro ok_bind ok_asks ok_if ok_pure N)
  assume k: "at_kind k e s"
  from current_bound(3) [OF k] have "\<not> is_end e s" by (simp add: is_end_def)
  then show "ok e p d take_token s Q" by - (rule ok_take_token [OF s], blast, rule Q)
qed

lemma ok_take_operator [parser_rules]:
  assumes "cur e p d s" and "Q None s"
    and "\<And>t s'. cur e p d s' \<Longrightarrow> ps_position s < ps_position s' \<Longrightarrow> ps_depth s \<le> ps_depth s' \<Longrightarrow>
      off e s \<le> off e s' \<Longrightarrow> valid_span e (tk_span t) \<Longrightarrow> off e s \<le> span_start (tk_span t) \<Longrightarrow>
      span_start (tk_span t) \<le> span_end (tk_span t) \<Longrightarrow> span_end (tk_span t) \<le> off e s' \<Longrightarrow> Q (Some t) s'"
  shows "ok e p d (take_operator op) s Q" "ok e p d (take_delimiter dl) s Q" "ok e p d (take_keyword kw) s Q"
  unfolding take_operator_def take_delimiter_def take_keyword_def
  by (intro ok_take_kind assms; assumption)+

lemma ok_span_between [parser_rules]:
  assumes "bnd e a" and "bnd e b" and "a \<le> b"
    and "\<And>sp. valid_span e sp \<Longrightarrow> span_start sp = a \<Longrightarrow> span_end sp = b \<Longrightarrow> Q sp s"
  shows "ok e p d (span_between a b) s Q"
proof -
  have "source_span (pe_source e) a b =
      Inr \<lparr>span_source_id = sf_id (pe_source e), span_start = a, span_end = b\<rparr>"
    using assms(1-3) by (simp add: source_span_Inr_iff bnd_def)
  moreover from this have "valid_span e \<lparr>span_source_id = sf_id (pe_source e), span_start = a, span_end = b\<rparr>"
    by (auto simp: valid_span_def)
  ultimately show ?thesis using assms(4) by (simp add: ok_def span_between_def)
qed

lemma ok_here_span:
  assumes "cur e p d s" and "\<And>sp. valid_span e sp \<Longrightarrow> Q sp s"
  shows "ok e p d here_span s Q"
  unfolding here_span_def
  by (intro ok_bind ok_current [OF assms(1)] ok_case_None ok_case_Some ok_asks ok_span_between ok_pure
      assms(2)) simp_all

lemma ok_invalid_at [parser_rules]:
  "cur e p d s \<Longrightarrow> valid_span e sp \<Longrightarrow> ok e p d (invalid_at sp message) s Q"
  unfolding invalid_at_def by (rule ok_fail) (auto simp: diagnostic_ok_def)

lemma ok_incomplete_at [parser_rules]:
  "cur e p d s \<Longrightarrow> valid_span e sp \<Longrightarrow> ok e p d (incomplete_at reason sp) s Q"
  by (auto simp: incomplete_at_def intro!: ok_fail)

lemma ok_invalid_here [parser_rules]: "cur e p d s \<Longrightarrow> ok e p d (invalid_here message) s Q"
  unfolding invalid_here_def by (intro ok_bind ok_here_span ok_invalid_at)

lemma ok_incomplete_here [parser_rules]: "cur e p d s \<Longrightarrow> ok e p d (incomplete_here reason) s Q"
  unfolding incomplete_here_def by (intro ok_bind ok_here_span ok_incomplete_at)

lemma ok_expected [parser_rules]: "cur e p d s \<Longrightarrow> ok e p d (expected message reason) s Q"
  unfolding expected_def by (intro parser_rules)

lemma expect_kind_node: "cur e p d s \<Longrightarrow> node e s (expect_kind k message) tk_span (\<lambda>_ _. True)"
  unfolding expect_kind_def
  by (rule nodeI, assumption, intro ok_take_kind ok_case_Some ok_case_None parser_rules) simp_all

lemma expect_nodes:
  assumes "cur e p d s"
  shows "node e s (expect_operator op message) tk_span (\<lambda>_ _. True)"
    and "node e s (expect_delimiter dl message) tk_span (\<lambda>_ _. True)"
    and "node e s (expect_keyword kw message) tk_span (\<lambda>_ _. True)"
  unfolding expect_operator_def expect_delimiter_def expect_keyword_def
  using expect_kind_node [OF assms] by simp_all

lemmas expect_rules [parser_rules] = expect_nodes [THEN ok_node]

lemmas ok_take_expected [parser_rules] = take_expected_node [THEN ok_node]

lemma ok_check_cancelled [parser_rules]:
  assumes "cur e p d s"
    and "\<And>s'. cur e p d s' \<Longrightarrow> ps_position s' = ps_position s \<Longrightarrow> ps_depth s' = ps_depth s \<Longrightarrow> 
      current e s' = current e s \<Longrightarrow> Q () s'"
  shows "ok e p d check_cancelled s Q"
  using assms by (auto simp: ok_def check_cancelled_def is_cancelled_def pbind_def pure_def cur_def
      env_ok_def current_def)

lemma ok_enter [parser_rules]:
  assumes "cur e p d s"
    and "\<And>s'. cur e p d s' \<Longrightarrow> ps_position s \<le> ps_position s' \<Longrightarrow> ps_depth s < ps_depth s' \<Longrightarrow>
      off e s \<le> off e s' \<Longrightarrow> Q () s'"
  shows "ok e p d enter_depth s Q"
  unfolding enter_depth_def by (rule ok_updates, rule assms(2)) (use assms(1) in \<open>simp_all add: cur_def\<close>)

lemma ok_leave [parser_rules]:
  assumes "cur e p d s" and "d < ps_depth s"
    and "\<And>s'. cur e p d s' \<Longrightarrow> ps_position s \<le> ps_position s' \<Longrightarrow> off e s \<le> off e s' \<Longrightarrow> Q () s'"
  shows "ok e p d leave_depth s Q"
  unfolding leave_depth_def
  by (intro parser_rules ok_updates assms(3)) (use assms(1,2) in \<open>simp_all add: cur_def\<close>)

lemma current_span_node:
  assumes s: "cur e p d s"
    and Q: "\<And>sp. ps_position s < length (pe_tokens e) \<Longrightarrow> valid_span e sp \<Longrightarrow> off e s = span_start sp \<Longrightarrow>
      span_start sp \<le> span_end sp \<Longrightarrow> Q sp s"
  shows "ok e p d current_span s Q"
  unfolding current_span_def
  by (intro ok_bind ok_current [OF s] ok_case_None ok_case_Some ok_incomplete_here [OF s] ok_pure Q) simp_all

declare current_span_node [parser_rules]

end
