(* ===== verification/Tree_Spans.thy ===== *)
theory Tree_Spans
  imports Ast
begin

text \<open>
  What a well-formed syntax tree is: expressions are grouped by precedence, and the span of every node encloses
  the spans of the nodes below it, through records, closures, commands, words and the bodies of statements.
  The patterns, parameters and types of a tree are left out.
\<close>

section \<open>Precedence\<close>

text \<open>How tightly an expression binds: 0 to 4 for the binary operators, 5 for a prefix operator, 6 for
  everything else.\<close>

fun operator_level :: "binary_operator \<Rightarrow> nat" where
  "operator_level BinEqual = 0"
| "operator_level BinNotEqual = 0"
| "operator_level BinLess = 1"
| "operator_level BinLessEqual = 1"
| "operator_level BinGreater = 1"
| "operator_level BinGreaterEqual = 1"
| "operator_level BinIn = 1"
| "operator_level BinRange = 2"
| "operator_level BinRangeInclusive = 2"
| "operator_level BinAdd = 3"
| "operator_level BinSubtract = 3"
| "operator_level BinMultiply = 4"
| "operator_level BinDivide = 4"
| "operator_level BinRemainder = 4"

fun kind_level :: "expression_kind \<Rightarrow> nat" where
  "kind_level (EkBinary _ op _) = operator_level (node_kind op)"
| "kind_level (EkUnary _ _) = 5"
| "kind_level _ = 6"

abbreviation level :: "expression \<Rightarrow> nat" where
  "level x \<equiv> kind_level (node_kind x)"

section \<open>Nesting\<close>

text \<open>\<open>x\<close> lies in \<open>sp\<close>; and every member of a list satisfies \<open>P\<close> and lies between \<open>lo\<close> and \<open>hi\<close>.\<close>

abbreviation inside :: "span \<Rightarrow> span \<Rightarrow> bool" where
  "inside sp x \<equiv> span_start sp \<le> span_start x \<and> span_end x \<le> span_end sp"

definition members :: "('a \<Rightarrow> bool) \<Rightarrow> ('a \<Rightarrow> span) \<Rightarrow> nat \<Rightarrow> nat \<Rightarrow> 'a list \<Rightarrow> bool" where
  "members P f lo hi xs \<longleftrightarrow> (\<forall>x \<in> set xs. P x \<and> lo \<le> span_start (f x) \<and> span_end (f x) \<le> hi)"

lemma members_pred_mono [mono]:
  "(\<And>x. P x \<longrightarrow> Q x) \<Longrightarrow> members P f lo hi xs \<longrightarrow> members Q f lo hi xs"
  by (auto simp: members_def)

lemma members_mono: "members P f lo hi xs \<Longrightarrow> lo' \<le> lo \<Longrightarrow> hi \<le> hi' \<Longrightarrow> members P f lo' hi' xs"
  by (fastforce simp: members_def)

lemma members_Nil [simp]: "members P f lo hi []"
  by (simp add: members_def)

lemma members_Cons [simp]:
  "members P f lo hi (x # xs) \<longleftrightarrow> P x \<and> lo \<le> span_start (f x) \<and> span_end (f x) \<le> hi \<and> members P f lo hi xs"
  by (auto simp: members_def)

lemma members_append [simp]: "members P f lo hi (xs @ ys) \<longleftrightarrow> members P f lo hi xs \<and> members P f lo hi ys"
  by (auto simp: members_def)

fun redirection_words :: "('e, 'c) redirection_kind \<Rightarrow> ('e, 'c) command_word list" where
  "redirection_words (RdInput _ _ w) = [w]"
| "redirection_words (RdFile _ _ _ w) = [w]"
| "redirection_words (RdDuplicate _ _ _) = []"
| "redirection_words (RdClose _ _ _) = []"

fun quoted_parts :: "('e, 'c) literal_kind \<Rightarrow> ('e, 'c) word_part_kind ast_node list" where
  "quoted_parts (LkDoubleQuoted parts) = parts"
| "quoted_parts _ = []"

fun quoted_key :: "('e, 'c) record_key \<Rightarrow> ('e, 'c) word_part_kind ast_node list" where
  "quoted_key (RkDoubleQuoted part) = [part]"
| "quoted_key _ = []"

text \<open>The parts of words without parts of their own.\<close>

fun plain_part :: "('e, 'c) word_part_kind \<Rightarrow> bool" where
  "plain_part (WpDoubleQuoted _) = False"
| "plain_part (WpBracedInterpolation _) = False"
| "plain_part (WpCommandSubstitution _) = False"
| "plain_part (WpVariable _) = False"
| "plain_part _ = True"

inductive grouped :: "expression \<Rightarrow> bool"
  and grouped_literal :: "literal_syntax \<Rightarrow> bool"
  and grouped_part :: "word_part \<Rightarrow> bool"
  and grouped_word :: "word_syntax \<Rightarrow> bool"
  and grouped_entry :: "record_entry_syntax \<Rightarrow> bool"
  and grouped_field :: "expression nominal_field \<Rightarrow> bool"
  and grouped_closure :: "closure_syntax \<Rightarrow> bool"
  and grouped_item :: "command_item \<Rightarrow> bool"
  and grouped_stage :: "stage \<Rightarrow> bool"
  and grouped_pipeline :: "pipeline_syntax \<Rightarrow> bool"
  and grouped_and :: "and_chain_syntax \<Rightarrow> bool"
  and grouped_chain :: "conditional_chain \<Rightarrow> bool"
where
  "grouped_literal l \<Longrightarrow> literal_span l = sp \<Longrightarrow> grouped (AstNode (EkLiteral l) sp)"
| "vr_span v = sp \<Longrightarrow> grouped (AstNode (EkVariable v) sp)"
| "ident_span i = sp \<Longrightarrow> grouped (AstNode (EkSymbol i) sp)"
| "qn_span q = sp \<Longrightarrow> grouped (AstNode (EkQualified q) sp)"
| "members grouped node_span (span_start sp) (span_end sp) xs \<Longrightarrow> grouped (AstNode (EkList xs) sp)"
| "members grouped_entry re_span (span_start sp) (span_end sp) es \<Longrightarrow> grouped (AstNode (EkRecord es) sp)"
| "members grouped_field nf_span (span_end (qn_span q)) (span_end sp) fs \<Longrightarrow>
     span_start sp = span_start (qn_span q) \<Longrightarrow> grouped (AstNode (EkNominalRecord q fs) sp)"
| "grouped_closure c \<Longrightarrow> cl_span c = sp \<Longrightarrow> grouped (AstNode (EkClosure c) sp)"
| "grouped_chain (cs_chain c) \<Longrightarrow> inside sp (cc_span (cs_chain c)) \<Longrightarrow>
     grouped (AstNode (EkCommandSubstitution c) sp)"
| "grouped_chain c \<Longrightarrow> inside sp (cc_span c) \<Longrightarrow> grouped (AstNode (EkGroupedJob c) sp)"
| "grouped f \<Longrightarrow> level f = 6 \<Longrightarrow> span_start sp = span_start (node_span f) \<Longrightarrow>
     members grouped node_span (span_end (node_span f)) (span_end sp) xs \<Longrightarrow>
     grouped (AstNode (EkCall f ts xs) sp)"
| "grouped x \<Longrightarrow> level x = 6 \<Longrightarrow> grouped i \<Longrightarrow> span_start sp = span_start (node_span x) \<Longrightarrow>
     span_end (node_span x) \<le> span_start (node_span i) \<Longrightarrow> span_end (node_span i) \<le> span_end sp \<Longrightarrow>
     grouped (AstNode (EkIndex x i) sp)"
| "grouped x \<Longrightarrow> level x = 6 \<Longrightarrow> span_start sp = span_start (node_span x) \<Longrightarrow>
     span_end (node_span x) \<le> span_start (ident_span m) \<Longrightarrow> span_end sp = span_end (ident_span m) \<Longrightarrow>
     grouped (AstNode (EkMember x m) sp)"
| "grouped x \<Longrightarrow> 5 \<le> level x \<Longrightarrow> span_start sp = span_start (node_span op) \<Longrightarrow>
     span_end (node_span op) \<le> span_start (node_span x) \<Longrightarrow> span_end sp = span_end (node_span x) \<Longrightarrow>
     grouped (AstNode (EkUnary op x) sp)"
| "grouped l \<Longrightarrow> grouped r \<Longrightarrow> operator_level (node_kind op) < level r \<Longrightarrow>
     (if 3 \<le> operator_level (node_kind op) then operator_level (node_kind op) \<le> level l
      else operator_level (node_kind op) < level l) \<Longrightarrow>
     span_start sp = span_start (node_span l) \<Longrightarrow> span_end (node_span l) \<le> span_start (node_span op) \<Longrightarrow>
     span_end (node_span op) \<le> span_start (node_span r) \<Longrightarrow> span_end sp = span_end (node_span r) \<Longrightarrow>
     grouped (AstNode (EkBinary l op r) sp)"
| "members grouped_part node_span (span_start sp) (span_end sp) (quoted_parts k) \<Longrightarrow> grouped_literal (Literal k sp)"
| "plain_part k \<Longrightarrow> grouped_part (AstNode k sp)"
| "inside sp (ident_span i) \<Longrightarrow> grouped_part (AstNode (WpVariable i) sp)"
| "members grouped_part node_span (span_start sp) (span_end sp) ps \<Longrightarrow>
     grouped_part (AstNode (WpDoubleQuoted ps) sp)"
| "grouped x \<Longrightarrow> inside sp (node_span x) \<Longrightarrow> grouped_part (AstNode (WpBracedInterpolation x) sp)"
| "grouped_chain (cs_chain c) \<Longrightarrow> inside sp (cc_span (cs_chain c)) \<Longrightarrow>
     grouped_part (AstNode (WpCommandSubstitution c) sp)"
| "members grouped_part node_span (span_start sp) (span_end sp) ps \<Longrightarrow> grouped_word (Word ps sp)"
| "members grouped_part node_span (span_start sp) (span_end sp) (quoted_key k) \<Longrightarrow> grouped x \<Longrightarrow>
     span_start sp \<le> span_start (node_span x) \<Longrightarrow> span_end sp = span_end (node_span x) \<Longrightarrow>
     grouped_entry (RecordEntry k x sp)"
| "grouped x \<Longrightarrow> span_start sp = span_start (ident_span i) \<Longrightarrow> span_end (ident_span i) \<le> span_start (node_span x) \<Longrightarrow>
     span_end sp = span_end (node_span x) \<Longrightarrow> grouped_field (NominalField i x sp)"
| "grouped_chain body \<Longrightarrow> inside sp (cc_span body) \<Longrightarrow> grouped_closure (Closure ps t body sp)"
| "grouped_word w \<Longrightarrow> word_span w = sp \<Longrightarrow> grouped_item (AstNode (CiWord w) sp)"
| "inside sp (vr_span v) \<Longrightarrow> grouped_item (AstNode (CiSpread v) sp)"
| "grouped_closure c \<Longrightarrow> cl_span c = sp \<Longrightarrow> grouped_item (AstNode (CiClosure c) sp)"
| "members grouped_word word_span (span_start sp) (span_end sp) (redirection_words k) \<Longrightarrow>
     grouped_item (AstNode (CiRedirection (AstNode k sp)) sp)"
| "grouped_word (ch_word h) \<Longrightarrow> inside (ch_span h) (word_span (ch_word h)) \<Longrightarrow>
     span_start sp = span_start (ch_span h) \<Longrightarrow> span_end (ch_span h) \<le> span_end sp \<Longrightarrow>
     members grouped_item node_span (span_end (ch_span h)) (span_end sp) is \<Longrightarrow>
     grouped_stage (AstNode (SkCommand h is) sp)"
| "grouped x \<Longrightarrow> node_span x = sp \<Longrightarrow> grouped_stage (AstNode (SkExpression x) sp)"
| "members grouped_stage node_span (span_start sp) (span_end sp) ts \<Longrightarrow> grouped_pipeline (Pipeline ts ps sp)"
| "members grouped_pipeline pl_span (span_start sp) (span_end sp) ls \<Longrightarrow> grouped_and (AndChain ls ss sp)"
| "members grouped_and ac_span (span_start sp) (span_end sp) as \<Longrightarrow> grouped_chain (ConditionalChain as os sp)"

inductive_simps grouped_simps [simp]:
  "grouped (AstNode (EkLiteral l) sp)" "grouped (AstNode (EkVariable v) sp)" "grouped (AstNode (EkSymbol i) sp)"
  "grouped (AstNode (EkQualified q) sp)" "grouped (AstNode (EkList xs) sp)" "grouped (AstNode (EkRecord es) sp)"
  "grouped (AstNode (EkNominalRecord q fs) sp)" "grouped (AstNode (EkClosure c) sp)"
  "grouped (AstNode (EkCommandSubstitution s) sp)" "grouped (AstNode (EkGroupedJob j) sp)"
  "grouped (AstNode (EkCall f ts xs) sp)" "grouped (AstNode (EkIndex f x) sp)" "grouped (AstNode (EkMember x m) sp)"
  "grouped (AstNode (EkUnary u x) sp)" "grouped (AstNode (EkBinary f op x) sp)"

inductive_simps grouped_parts [simp]:
  "grouped_literal (Literal k sp)" "grouped_word (Word ps sp)" "grouped_part (AstNode (WpVariable i) sp)"
  "grouped_part (AstNode (WpDoubleQuoted ps) sp)" "grouped_part (AstNode (WpBracedInterpolation x) sp)"
  "grouped_part (AstNode (WpCommandSubstitution s) sp)" "grouped_part (AstNode WpBare sp)"
  "grouped_part (AstNode WpBareEscape sp)" "grouped_part (AstNode WpSingleQuoted sp)"
  "grouped_part (AstNode WpDoubleText sp)" "grouped_part (AstNode WpDoubleEscape sp)"
  "grouped_entry (RecordEntry r x sp)" "grouped_field (NominalField i x sp)"

inductive_simps grouped_commands [simp]:
  "grouped_closure (Closure qs t body sp)" "grouped_item (AstNode (CiWord w) sp)"
  "grouped_item (AstNode (CiSpread v) sp)" "grouped_item (AstNode (CiClosure c) sp)"
  "grouped_item (AstNode (CiRedirection d) sp)" "grouped_stage (AstNode (SkCommand h is) sp)"
  "grouped_stage (AstNode (SkExpression x) sp)" "grouped_pipeline (Pipeline ts os sp)"
  "grouped_and (AndChain ls ns sp)" "grouped_chain (ConditionalChain as rs sp)"

section \<open>Statements\<close>

text \<open>Spans that follow one another between \<open>lo\<close> and \<open>hi\<close>.\<close>

fun in_order :: "nat \<Rightarrow> span list \<Rightarrow> nat \<Rightarrow> bool" where
  "in_order lo [] hi \<longleftrightarrow> lo \<le> hi"
| "in_order lo (sp # sps) hi \<longleftrightarrow> lo \<le> span_start sp \<and> span_start sp \<le> span_end sp \<and> in_order (span_end sp) sps hi"

lemma in_order_mono: "in_order lo sps h \<Longrightarrow> h \<le> hi \<Longrightarrow> in_order lo sps hi"
  by (induction sps arbitrary: lo) auto

lemma in_order_lower: "in_order lo sps hi \<Longrightarrow> lo' \<le> lo \<Longrightarrow> in_order lo' sps hi"
  by (cases sps) auto

lemma in_order_within: "in_order lo sps hi \<Longrightarrow> lo' \<le> lo \<Longrightarrow> hi \<le> hi' \<Longrightarrow> in_order lo' sps hi'"
  by (blast intro: in_order_mono in_order_lower)

lemma in_order_snoc:
  "in_order lo sps h \<Longrightarrow> h \<le> span_start sp \<Longrightarrow> span_start sp \<le> span_end sp \<Longrightarrow> span_end sp \<le> hi \<Longrightarrow>
     in_order lo (sps @ [sp]) hi"
  by (induction sps arbitrary: lo) auto

text \<open>The statements without expressions, chains or blocks.\<close>

fun leaf_statement :: "statement_kind \<Rightarrow> bool" where
  "leaf_statement (StImport _ _) = True"
| "leaf_statement (StModuleImport _ _) = True"
| "leaf_statement (StModuleExport _) = True"
| "leaf_statement (StNominalType _ _ _) = True"
| "leaf_statement (StVariantType _ _ _) = True"
| "leaf_statement (StEnvironment (EnvUnset _)) = True"
| "leaf_statement (StControl CtBreak) = True"
| "leaf_statement (StControl CtContinue) = True"
| "leaf_statement (StControl (CtReturn None)) = True"
| "leaf_statement _ = False"

inductive well_statement :: "statement \<Rightarrow> bool"
  and well_block :: "statement block \<Rightarrow> bool"
  and well_if :: "statement if_statement ast_node \<Rightarrow> bool"
  and well_arm :: "statement match_arm \<Rightarrow> bool"
where
  "leaf_statement k \<Longrightarrow> well_statement (AstNode k sp)"
| "grouped x \<Longrightarrow> span_start sp \<le> span_start (node_span x) \<Longrightarrow> span_end sp = span_end (node_span x) \<Longrightarrow>
     well_statement (AstNode (StDeclaration m p i t x) sp)"
| "grouped x \<Longrightarrow> span_start sp = span_start (vr_span v) \<Longrightarrow> span_end (vr_span v) \<le> span_start (node_span x) \<Longrightarrow>
     span_end sp = span_end (node_span x) \<Longrightarrow> well_statement (AstNode (StAssignment v x) sp)"
| "grouped x \<Longrightarrow> span_start sp \<le> span_start (ident_span i) \<Longrightarrow> span_end (ident_span i) \<le> span_start (node_span x) \<Longrightarrow>
     span_end sp = span_end (node_span x) \<Longrightarrow> well_statement (AstNode (StEnvironment (EnvExport i x)) sp)"
| "grouped x \<Longrightarrow> span_start sp \<le> span_start (node_span x) \<Longrightarrow> span_end sp = span_end (node_span x) \<Longrightarrow>
     well_statement (AstNode (StThrow x) sp)"
| "grouped x \<Longrightarrow> span_start sp \<le> span_start (node_span x) \<Longrightarrow> span_end sp = span_end (node_span x) \<Longrightarrow>
     well_statement (AstNode (StControl (CtReturn (Some x))) sp)"
| "well_block b \<Longrightarrow> span_start sp \<le> span_start (block_span b) \<Longrightarrow> span_end sp = span_end (block_span b) \<Longrightarrow>
     well_statement (AstNode (StFunction d i ts ps r b) sp)"
| "well_if (AstNode n sp) \<Longrightarrow> well_statement (AstNode (StIf n) sp)"
| "grouped_chain c \<Longrightarrow> well_block b \<Longrightarrow> span_start sp \<le> span_start (cc_span c) \<Longrightarrow>
     span_end (cc_span c) \<le> span_start (block_span b) \<Longrightarrow> span_end sp = span_end (block_span b) \<Longrightarrow>
     well_statement (AstNode (StWhile c b) sp)"
| "grouped x \<Longrightarrow> well_block b \<Longrightarrow> span_start sp \<le> span_start (ident_span i) \<Longrightarrow>
     span_end (ident_span i) \<le> span_start (node_span x) \<Longrightarrow>
     span_end (node_span x) \<le> span_start (block_span b) \<Longrightarrow> span_end sp = span_end (block_span b) \<Longrightarrow>
     well_statement (AstNode (StFor i x b) sp)"
| "grouped x \<Longrightarrow> span_start sp \<le> span_start (node_span x) \<Longrightarrow>
     members well_arm ma_span (span_end (node_span x)) (span_end sp) arms \<Longrightarrow>
     well_statement (AstNode (StMatch x arms) sp)"
| "well_block b \<Longrightarrow> well_block c \<Longrightarrow> span_start sp \<le> span_start (block_span b) \<Longrightarrow>
     span_end (block_span b) \<le> span_start (block_span c) \<Longrightarrow> span_end sp = span_end (block_span c) \<Longrightarrow>
     well_statement (AstNode (StTry b i c) sp)"
| "grouped_chain c \<Longrightarrow> span_start sp = span_start (cc_span c) \<Longrightarrow> span_end (cc_span c) \<le> span_end sp \<Longrightarrow>
     well_statement (AstNode (StJob c j) sp)"
| "(\<forall>x \<in> set xs. well_statement x) \<Longrightarrow> in_order (span_start sp) (map node_span xs) (span_end sp) \<Longrightarrow>
     well_block (Block xs sp)"
| "grouped_chain c \<Longrightarrow> well_block b \<Longrightarrow> span_start sp \<le> span_start (cc_span c) \<Longrightarrow>
     span_end (cc_span c) \<le> span_start (block_span b) \<Longrightarrow> span_end (block_span b) \<le> span_end sp \<Longrightarrow>
     (\<forall>e. other = Some (ElseBlock e) \<longrightarrow> well_block e \<and> span_end (block_span b) \<le> span_start (block_span e) \<and>
        span_end (block_span e) = span_end sp) \<Longrightarrow>
     (\<forall>n. other = Some (ElseIf n) \<longrightarrow> well_if n \<and> span_end (block_span b) \<le> span_start (node_span n) \<and>
        span_end (node_span n) = span_end sp) \<Longrightarrow>
     well_if (AstNode (IfStatement c b other) sp)"
| "(\<forall>x. guard = Some x \<longrightarrow> grouped x \<and> span_start sp \<le> span_start (node_span x) \<and>
        span_end (node_span x) \<le> span_start (block_span b)) \<Longrightarrow> well_block b \<Longrightarrow>
     span_start sp \<le> span_start (block_span b) \<Longrightarrow> span_end sp = span_end (block_span b) \<Longrightarrow>
     well_arm (MatchArm p guard b sp)"

lemma leaf_well [simp]: "leaf_statement k \<Longrightarrow> well_statement (AstNode k sp)"
  by (rule well_statement_well_block_well_if_well_arm.intros)

inductive_simps well_simps [simp]:
  "well_statement (AstNode (StDeclaration m p i t x) sp)" "well_statement (AstNode (StAssignment v x) sp)"
  "well_statement (AstNode (StEnvironment (EnvExport i x)) sp)" "well_statement (AstNode (StThrow x) sp)"
  "well_statement (AstNode (StControl (CtReturn (Some x))) sp)"
  "well_statement (AstNode (StFunction d i ts ps r b) sp)" "well_statement (AstNode (StIf n) sp)"
  "well_statement (AstNode (StWhile c b) sp)" "well_statement (AstNode (StFor i x b) sp)"
  "well_statement (AstNode (StMatch x arms) sp)" "well_statement (AstNode (StTry b i e) sp)"
  "well_statement (AstNode (StJob c j) sp)" "well_block (Block xs sp)"
  "well_if (AstNode (IfStatement c b other) sp)" "well_arm (MatchArm p guard b sp)"

end
