(* ===== verification/Parser_Returns.thy ===== *)
theory Parser_Returns
  imports Parser_Proofs Tree_Spans
begin

text \<open>
  The specifications of the parser's methods: each returns, and the node it reads lies where it was read.
\<close>

section \<open>Skipping\<close>

lemma skip_tokens_bound:
  "pos \<le> fst (skip_tokens p c ts pos k) \<and> fst (skip_tokens p c ts pos k) \<le> pos + length ts"
  by (induction p c ts pos k rule: skip_tokens.induct) auto

lemma ok_skip_while:
  assumes s: "cur e p d s"
    and Q: "\<And>s'. cur e p d s' \<Longrightarrow> ps_position s \<le> ps_position s' \<Longrightarrow> ps_depth s \<le> ps_depth s' \<Longrightarrow>
      off e s \<le> off e s' \<Longrightarrow> Q () s'"
  shows "ok e p d (skip_while q) s Q"
proof -
  obtain pos polls where sk: "skip_tokens q (pe_cancelled e) (drop (ps_position s) (pe_tokens e))
      (ps_position s) (ps_polls s) = (pos, polls)" by fastforce
  with skip_tokens_bound [of "ps_position s" q "pe_cancelled e" "drop (ps_position s) (pe_tokens e)" "ps_polls s"]
  have pos: "ps_position s \<le> pos" "pos \<le> length (pe_tokens e)" using s by (auto simp: cur_def)
  let ?s = "s\<lparr>ps_position := pos, ps_polls := polls\<rparr>"
  have "cur e p d ?s" using s pos by (simp add: cur_def)
  moreover have "off e s \<le> off e ?s" using token_offset_mono [OF cur_env [OF s] pos(1)] by simp
  ultimately have "Q () ?s" using pos by (intro Q) simp_all
  with sk show ?thesis by (simp add: ok_def skip_while_def)
qed

lemma ok_skips [parser_rules]:
  assumes "cur e p d s"
    and "\<And>s'. cur e p d s' \<Longrightarrow> ps_position s \<le> ps_position s' \<Longrightarrow> ps_depth s \<le> ps_depth s' \<Longrightarrow>
      off e s \<le> off e s' \<Longrightarrow> Q () s'"
  shows "ok e p d skip_inline s Q" "ok e p d skip_layout s Q" "ok e p d skip_separators s Q"
proof -
  have skip: "ok e p d (skip_while q) s Q" for q by (rule ok_skip_while) (fact assms)+
  have "ok e p d skip_inline s Q \<longleftrightarrow>
      ok e p d (skip_while (\<lambda>k. is_inline k \<or> (0 < ps_depth s \<and> k = TkNewline))) s Q"
    by (simp add: ok_def skip_inline_def)
  with skip show "ok e p d skip_inline s Q" by simp
  show "ok e p d skip_layout s Q" "ok e p d skip_separators s Q"
    unfolding skip_layout_def skip_separators_def by (rule skip)+
qed

text \<open>The rules in the order in which they are tried.\<close>

lemma ok_if_known:
  "ok e p d m s Q \<Longrightarrow> ok e p d (if True then m else m') s Q"
  "ok e p d m' s Q \<Longrightarrow> ok e p d (if False then m else m') s Q"
  "ok e p d m s Q \<Longrightarrow> ok e p d (if \<not> False then m else m') s Q"
  "ok e p d m' s Q \<Longrightarrow> ok e p d (if \<not> True then m else m') s Q"
  by simp_all

lemma cur_reset: "cur e p d s \<Longrightarrow> cur e p d s' \<Longrightarrow> cur e p d (s'\<lparr>ps_position := ps_position s\<rparr>)"
  by (simp add: cur_def)

lemmas parser_steps = ok_if_known ok_current ok_current_kind ok_case_Some ok_case_None ok_move

section \<open>Names\<close>

lemma parse_identifier_node: "cur e p d s \<Longrightarrow> node e s parse_identifier ident_span (\<lambda>_ _. True)"
  unfolding parse_identifier_def
  by (rule nodeI, assumption, intro ok_take_token parser_steps parser_rules) simp_all

lemmas parse_identifier_rule [parser_rules] = parse_identifier_node [THEN ok_node]

lemma parse_variable_reference_node:
  assumes s: "cur e p d s"
  shows "node e s parse_variable_reference vr_span (\<lambda>x _. inside (vr_span x) (ident_span (vr_name x)))"
  unfolding parse_variable_reference_def
proof (rule nodeI [OF s], intro ok_bind ok_take_token ok_case_Some ok_case_None)
  fix t s'
  assume s1: "cur e (ps_position s) (ps_depth s) s'" "ps_position s < ps_position s'" "valid_span e (tk_span t)"
    "off e s \<le> span_start (tk_span t)" "span_end (tk_span t) \<le> off e s'" "current e s = Some t"
  from s1(6) have i: "ps_position s < length (pe_tokens e)" "t = pe_tokens e ! ps_position s"
    by (auto simp: current_def)
  have v: "bnd e (span_start (tk_span t) + 1)" "span_start (tk_span t) + 1 \<le> span_end (tk_span t)"
    if "tk_kind t = TkVariable"
    using variable_name_span [OF cur_env [OF s] i(1)] that i(2) by simp_all
  show "ok e (ps_position s) (ps_depth s) (if tk_kind t = TkVariable
      then pbind (span_between (span_start (tk_span t) + 1) (span_end (tk_span t)))
        (\<lambda>name. pure (VariableReference (Identifier name) (tk_span t)))
      else invalid_at (tk_span t) ''expected a variable'') s'
     (\<lambda>x s'. cur e (ps_position s) (ps_depth s) s' \<and> ps_position s < ps_position s' \<and>
       valid_span e (vr_span x) \<and> off e s \<le> span_start (vr_span x) \<and> span_end (vr_span x) \<le> off e s' \<and>
       inside (vr_span x) (ident_span (vr_name x)))"
    using s1 v by (intro parser_steps parser_rules) simp_all
qed (assumption | rule ok_incomplete_here)+

lemmas parse_variable_reference_rule [parser_rules] = parse_variable_reference_node [THEN ok_node]

lemma ok_take_double_colon [parser_rules]:
  assumes s: "cur e p d s"
    and "\<And>s'. cur e p d s' \<Longrightarrow> Q False s'"
    and "\<And>s'. cur e p d s' \<Longrightarrow> ps_position s < ps_position s' \<Longrightarrow> ps_depth s \<le> ps_depth s' \<Longrightarrow>
      off e s \<le> off e s' \<Longrightarrow> Q True s'"
  shows "ok e p d take_double_colon s Q"
  unfolding take_double_colon_def
  by (intro parser_steps parser_rules s; (assumption | simp only: not_None_eq option.simps simp_thms)?)
    (rule assms(2,3); (assumption | linarith | fact s))+

text \<open>The segments of a name lie between \<open>lo\<close> and \<open>hi\<close>.\<close>

definition idents_in :: "parser_env \<Rightarrow> nat \<Rightarrow> nat \<Rightarrow> ident list \<Rightarrow> bool" where
  "idents_in e lo hi is \<longleftrightarrow>
     (\<forall>i \<in> set is. valid_span e (ident_span i) \<and> lo \<le> span_start (ident_span i) \<and>
        span_end (ident_span i) \<le> hi)"

text \<open>A round that fails to read \<open>::\<close> goes back to where it started.\<close>

lemma ok_qualified_round:
  assumes s: "cur e p d s"
    and Q: "\<And>s'. cur e p d s' \<Longrightarrow> ps_position s' = ps_position s \<Longrightarrow> Q (Inl acc) s'"
      "\<And>i s'. cur e p d s' \<Longrightarrow> ps_position s < ps_position s' \<Longrightarrow> valid_span e (ident_span i) \<Longrightarrow>
        off e s \<le> span_start (ident_span i) \<Longrightarrow> span_end (ident_span i) \<le> off e s' \<Longrightarrow>
        Q (Inr (span_end (ident_span i), snd acc @ [i])) s'"
  shows "ok e p d (qualified_round acc) s Q"
  unfolding qualified_round_def
  apply (intro parser_steps parser_rules ok_updates s)
  apply ((rule Q; (assumption | linarith | simp add: cur_reset [OF s])?) | assumption | linarith)+
  done

lemma ok_qualified_loop [parser_rules]:
  assumes s: "cur e p d s" and i: "valid_span e (ident_span i)" "span_end (ident_span i) \<le> off e s"
    and Q: "\<And>stop is s'. cur e p d s' \<Longrightarrow> ps_position s \<le> ps_position s' \<Longrightarrow> ps_depth s \<le> ps_depth s' \<Longrightarrow>
      off e s \<le> off e s' \<Longrightarrow> bnd e stop \<Longrightarrow> span_start (ident_span i) \<le> stop \<Longrightarrow> stop \<le> off e s' \<Longrightarrow>
      is \<noteq> [] \<Longrightarrow> idents_in e (span_start (ident_span i)) stop is \<Longrightarrow> Q (stop, is) s'"
  shows "ok e p d (ploop qualified_round (span_end (ident_span i), [i])) s Q"
proof -
  let ?lo = "span_start (ident_span i)"
  let ?I = "\<lambda>a s'. bnd e (fst a) \<and> ?lo \<le> fst a \<and> fst a \<le> off e s' \<and> snd a \<noteq> [] \<and> idents_in e ?lo (fst a) (snd a)"
  have "plain e s (ploop qualified_round (span_end (ident_span i), [i])) ?I"
  proof (rule plainI [OF s], rule ok_loop [where I = ?I])
    show "?I (span_end (ident_span i), [i]) s" using i valid_span_le [OF i(1)] by (simp add: idents_in_def)
    fix a s1
    assume s1: "cur e (ps_position s) (ps_depth s) s1" and I: "?I a s1"
    show "ok e (ps_position s) (ps_depth s) (qualified_round a) s1 (\<lambda>r s'. case r of
        Inl b \<Rightarrow> cur e (ps_position s) (ps_depth s) s' \<and> ?I b s'
      | Inr a' \<Rightarrow> cur e (ps_position s) (ps_depth s) s' \<and> ps_position s1 < ps_position s' \<and> ?I a' s')"
    proof (rule ok_qualified_round [OF s1])
      fix j s2
      assume j: "valid_span e (ident_span j)" "off e s1 \<le> span_start (ident_span j)"
        "span_end (ident_span j) \<le> off e s2" "ps_position s1 < ps_position s2"
      from j I have "idents_in e ?lo (span_end (ident_span j)) (snd a @ [j])"
        "?lo \<le> span_end (ident_span j)"
        using valid_span_le [OF j(1)] by (auto simp: idents_in_def)
      then show "cur e (ps_position s) (ps_depth s) s2 \<Longrightarrow>
        case Inr (span_end (ident_span j), snd a @ [j]) of
          Inl b \<Rightarrow> cur e (ps_position s) (ps_depth s) s2 \<and> ?I b s2
        | Inr a' \<Rightarrow> cur e (ps_position s) (ps_depth s) s2 \<and> ps_position s1 < ps_position s2 \<and> ?I a' s2"
        using j by simp
    qed (use I in simp)
  qed simp
  then show ?thesis by (rule ok_plain [OF _ s]) (metis Q prod.collapse)
qed

lemma ok_case_pair: "ok e p d (f a b) s Q \<Longrightarrow> ok e p d (case (a, b) of (a, b) \<Rightarrow> f a b) s Q"
  by simp

lemma parse_qualified_name_node:
  assumes s: "cur e p d s"
  shows "node e s parse_qualified_name qn_span
    (\<lambda>q _. qn_segments q \<noteq> [] \<and> idents_in e (span_start (qn_span q)) (span_end (qn_span q)) (qn_segments q))"
  unfolding parse_qualified_name_def
  by (rule nodeI [OF s], intro conjI ok_case_pair parser_steps parser_rules; (assumption | linarith | simp)?)

lemma parse_qualified_name_rule [parser_rules]:
  assumes s: "cur e p d s"
    and Q: "\<And>q s'. cur e p d s' \<Longrightarrow> ps_position s < ps_position s' \<Longrightarrow> ps_depth s \<le> ps_depth s' \<Longrightarrow>
      off e s \<le> off e s' \<Longrightarrow> valid_span e (qn_span q) \<Longrightarrow> off e s \<le> span_start (qn_span q) \<Longrightarrow>
      span_start (qn_span q) \<le> span_end (qn_span q) \<Longrightarrow> span_end (qn_span q) \<le> off e s' \<Longrightarrow>
      qn_segments q \<noteq> [] \<Longrightarrow> valid_span e (ident_span (hd (qn_segments q))) \<Longrightarrow>
      span_start (qn_span q) \<le> span_start (ident_span (hd (qn_segments q))) \<Longrightarrow>
      span_end (ident_span (hd (qn_segments q))) \<le> span_end (qn_span q) \<Longrightarrow>
      valid_span e (ident_span (last (qn_segments q))) \<Longrightarrow>
      span_start (qn_span q) \<le> span_end (ident_span (last (qn_segments q))) \<Longrightarrow>
      span_end (ident_span (last (qn_segments q))) \<le> span_end (qn_span q) \<Longrightarrow> Q q s'"
  shows "ok e p d parse_qualified_name s Q"
proof (rule ok_node [OF parse_qualified_name_node [OF s] s])
  fix q s'
  assume *: "cur e p d s'" "ps_position s < ps_position s'" "ps_depth s \<le> ps_depth s'"
    "off e s \<le> off e s'" "valid_span e (qn_span q)" "off e s \<le> span_start (qn_span q)"
    "span_start (qn_span q) \<le> span_end (qn_span q)" "span_end (qn_span q) \<le> off e s'"
    and A: "qn_segments q \<noteq> [] \<and>
      idents_in e (span_start (qn_span q)) (span_end (qn_span q)) (qn_segments q)"
  then have "i \<in> set (qn_segments q) \<Longrightarrow> valid_span e (ident_span i) \<and>
      span_start (qn_span q) \<le> span_start (ident_span i) \<and> span_start (qn_span q) \<le> span_end (ident_span i) \<and>
      span_end (ident_span i) \<le> span_end (qn_span q)" for i
    using valid_span_le [of e "ident_span i"] by (force simp: idents_in_def)
  with A have "qn_segments q \<noteq> []" "hd (qn_segments q) \<in> set (qn_segments q)"
    "last (qn_segments q) \<in> set (qn_segments q)" by simp_all
  with \<open>\<And>i. i \<in> set (qn_segments q) \<Longrightarrow> _ i\<close> show "Q q s'" by (intro Q *) blast+
qed

section \<open>Lists\<close>

lemma ok_comma_loop:
  assumes s: "cur e p d s"
    and item: "\<And>s1. cur e p d s1 \<Longrightarrow> ps_position s \<le> ps_position s1 \<Longrightarrow> ps_depth s \<le> ps_depth s1 \<Longrightarrow>
      off e s \<le> off e s1 \<Longrightarrow>
      ok e p d item s1 (\<lambda>x s2. cur e p d s2 \<and> ps_position s1 < ps_position s2 \<and> ps_depth s \<le> ps_depth s2 \<and> A x s2)"
    and A: "\<And>x s1 s2. A x s1 \<Longrightarrow> ps_position s1 \<le> ps_position s2 \<Longrightarrow> A x s2"
    and Q: "\<And>xs s'. cur e p d s' \<Longrightarrow> ps_position s \<le> ps_position s' \<Longrightarrow> ps_depth s \<le> ps_depth s' \<Longrightarrow>
      off e s \<le> off e s' \<Longrightarrow> \<forall>x \<in> set xs. A x s' \<Longrightarrow> Q xs s'"
  shows "ok e p d (ploop (comma_round stop item first) []) s Q"
proof (rule ok_loop [OF s, where I = "\<lambda>xs s'. ps_position s \<le> ps_position s' \<and> ps_depth s \<le> ps_depth s' \<and>
    (\<forall>x \<in> set xs. A x s')"])
  fix xs s1
  assume s1: "cur e p d s1" and I: "ps_position s \<le> ps_position s1 \<and> ps_depth s \<le> ps_depth s1 \<and>
    (\<forall>x \<in> set xs. A x s1)"
  have off: "off e s \<le> off e s'" if "ps_position s \<le> ps_position s'" for s'
    using token_offset_mono [OF cur_env [OF s] that] .
  have fin: "Q ys s'" if "cur e p d s'" "ps_position s1 \<le> ps_position s'" "ps_depth s \<le> ps_depth s'"
    "\<forall>x \<in> set ys. A x s'" for ys s'
    using that I off [of s'] by (intro Q) simp_all
  have keep: "\<forall>y \<in> set (xs @ [x]). A y s'" if "A x s2" "ps_position s1 < ps_position s2"
    "ps_position s2 \<le> ps_position s'" for x s2 s'
    using that I A by (auto intro: less_imp_le order.trans)
  show "ok e p d (comma_round stop item first xs) s1 (\<lambda>r s'. case r of Inl b \<Rightarrow> Q b s'
    | Inr a' \<Rightarrow> cur e p d s' \<and> ps_position s1 < ps_position s' \<and> ps_position s \<le> ps_position s' \<and>
        ps_depth s \<le> ps_depth s' \<and> (\<forall>x \<in> set a'. A x s'))"
    unfolding comma_round_def
  proof (intro ok_bind ok_asks ok_if ok_pure)
    show "case Inl xs of Inl b \<Rightarrow> Q b s1
      | Inr a' \<Rightarrow> cur e p d s1 \<and> ps_position s1 < ps_position s1 \<and> ps_position s \<le> ps_position s1 \<and>
          ps_depth s \<le> ps_depth s1 \<and> (\<forall>x \<in> set a'. A x s1)"
      using s1 I fin by simp
    have s1': "off e s \<le> off e s1" using I off by simp
    show "ok e p d item s1 (\<lambda>x s'. ok e p d (pseq skip_layout (pbind (take_operator OpComma) (\<lambda>comma.
        case comma of None \<Rightarrow> pure (Inl (xs @ [x])) | Some _ \<Rightarrow> pseq skip_layout (pure (Inr (xs @ [x])))))) s'
      (\<lambda>r s'. case r of Inl b \<Rightarrow> Q b s'
        | Inr a' \<Rightarrow> cur e p d s' \<and> ps_position s1 < ps_position s' \<and> ps_position s \<le> ps_position s' \<and>
            ps_depth s \<le> ps_depth s' \<and> (\<forall>x \<in> set a'. A x s')))"
    proof (rule ok_weaken [OF item [OF s1 _ _ s1'] order_refl order_refl])
      fix x s2
      assume x: "cur e p d s2 \<and> ps_position s1 < ps_position s2 \<and> ps_depth s \<le> ps_depth s2 \<and> A x s2"
      then have s2: "cur e p d s2" by simp
      have *: "A x s2" "ps_position s1 < ps_position s2" "ps_depth s \<le> ps_depth s2"
        "ps_position s \<le> ps_position s1" using x I by simp_all
      let ?P = "\<lambda>r s'. case r of Inl b \<Rightarrow> Q b s'
          | Inr a' \<Rightarrow> cur e p d s' \<and> ps_position s1 < ps_position s' \<and> ps_position s \<le> ps_position s' \<and>
              ps_depth s \<le> ps_depth s' \<and> (\<forall>x\<in>set a'. A x s')"
      have L: "?P (Inl (xs @ [x])) s'" and R: "?P (Inr (xs @ [x])) s'"
        if "cur e p d s'" "ps_position s2 \<le> ps_position s'" "ps_depth s2 \<le> ps_depth s'" for s'
        using that * keep [OF *(1,2) that(2)] by (auto intro!: fin)
      show "ok e p d (pseq skip_layout (pbind (take_operator OpComma) (\<lambda>comma.
          case comma of None \<Rightarrow> pure (Inl (xs @ [x])) | Some _ \<Rightarrow> pseq skip_layout (pure (Inr (xs @ [x])))))) s2 ?P"
        by (intro parser_steps parser_rules s2 L R; (assumption | linarith)?)
    qed (use I in simp_all)
  qed
qed (use s in simp)

lemma ok_comma_list [parser_rules]:
  assumes "cur e p d s"
    and "\<And>s1. cur e p d s1 \<Longrightarrow> ps_position s \<le> ps_position s1 \<Longrightarrow> ps_depth s \<le> ps_depth s1 \<Longrightarrow>
      off e s \<le> off e s1 \<Longrightarrow>
      ok e p d item s1 (\<lambda>x s2. cur e p d s2 \<and> ps_position s1 < ps_position s2 \<and> ps_depth s \<le> ps_depth s2)"
    and "\<And>xs s'. cur e p d s' \<Longrightarrow> ps_position s \<le> ps_position s' \<Longrightarrow> ps_depth s \<le> ps_depth s' \<Longrightarrow>
      off e s \<le> off e s' \<Longrightarrow> Q xs s'"
  shows "ok e p d (comma_list stop item) s Q" "ok e p d (comma_list1 stop item) s Q"
  unfolding comma_list_def comma_list1_def
  by (rule ok_comma_loop [where A = "\<lambda>_ _. True"]; use assms in simp)+

section \<open>Types\<close>

lemma type_reference_at_node:
  assumes "cur e p d s" and "length (pe_tokens e) - ps_position s < n"
  shows "node e s (parse_type_reference_at n) type_span (\<lambda>_ _. True)"
  using assms
proof (induction n arbitrary: p d s)
  case (Suc n)
  have item: "ok e q c (parse_type_reference_at n) s1 (\<lambda>x s2. cur e q c s2 \<and>
      ps_position s1 < ps_position s2 \<and> b \<le> ps_depth s2)"
    if "cur e q c s1" "ps_position s < ps_position s1" "b \<le> ps_depth s1" for q c s1 b
  proof -
    have "length (pe_tokens e) - ps_position s1 < n" using Suc.prems(2) that(1,2) by (auto simp: cur_def)
    from Suc.IH [OF that(1) this] show ?thesis by (rule ok_node [OF _ that(1)]) (use that in linarith)
  qed
  show ?case
    unfolding parse_type_reference_at.simps
    by (rule nodeI [OF Suc.prems(1)], intro conjI item parser_steps parser_rules;
        (assumption | rule valid_span_bnd, assumption | linarith | simp)?)
qed simp

lemma parse_type_reference_node:
  assumes "cur e p d s"
  shows "node e s parse_type_reference type_span (\<lambda>_ _. True)"
proof -
  have "length (pe_tokens e) - ps_position s < pe_fuel e"
    using cur_env [OF assms] by (auto simp: env_ok_def)
  from type_reference_at_node [OF assms this] show ?thesis
    by (simp add: node_def ok_def parse_type_reference_def)
qed

lemmas parse_type_reference_rule [parser_rules] = parse_type_reference_node [THEN ok_node]

lemma ok_optional_type [parser_rules]:
  assumes s: "cur e p d s" and N: "Q None s"
    and Q: "\<And>r s'. cur e p d s' \<Longrightarrow> ps_position s \<le> ps_position s' \<Longrightarrow> ps_depth s \<le> ps_depth s' \<Longrightarrow>
      off e s \<le> off e s' \<Longrightarrow> valid_span e (type_span r) \<Longrightarrow> off e s \<le> span_start (type_span r) \<Longrightarrow>
      span_start (type_span r) \<le> span_end (type_span r) \<Longrightarrow> span_end (type_span r) \<le> off e s' \<Longrightarrow>
      Q (Some r) s'"
  shows "ok e p d (optional_type op skip_layout) s Q" "ok e p d (optional_type op skip_inline) s Q"
  unfolding optional_type_def
  by (intro parser_steps parser_rules s N Q; (assumption | linarith)?)+

lemma ok_constraint_round:
  assumes s: "cur e p d s"
    and Q: "\<And>i r cs s'. cur e p d s' \<Longrightarrow> ps_position s < ps_position s' \<Longrightarrow> ps_depth s \<le> ps_depth s' \<Longrightarrow>
      off e s \<le> off e s' \<Longrightarrow> valid_span e (ident_span i) \<Longrightarrow> off e s \<le> span_end (ident_span i) \<Longrightarrow>
      span_end (ident_span i) \<le> off e s' \<Longrightarrow>
      r \<in> {Inl (span_end (ident_span i), cs), Inr (span_end (ident_span i), cs)} \<Longrightarrow> Q r s'"
  shows "ok e p d (constraint_round acc) s Q"
  unfolding constraint_round_def Let_def
  by (intro parser_steps parser_rules s; (assumption | linarith)?;
      (rule Q; (assumption | linarith | simp)?)?)

lemma ok_constraint_loop [parser_rules]:
  assumes s: "cur e p d s" and a: "bnd e a" "a \<le> off e s"
    and Q: "\<And>stop cs s'. cur e p d s' \<Longrightarrow> ps_position s \<le> ps_position s' \<Longrightarrow> ps_depth s \<le> ps_depth s' \<Longrightarrow>
      off e s \<le> off e s' \<Longrightarrow> bnd e stop \<Longrightarrow> a \<le> stop \<Longrightarrow> stop \<le> off e s' \<Longrightarrow> Q (stop, cs) s'"
  shows "ok e p d (ploop constraint_round (a, [])) s Q"
proof -
  let ?I = "\<lambda>(r :: nat \<times> type_constraint list) s'. off e s \<le> off e s' \<and> bnd e (fst r) \<and> a \<le> fst r \<and> fst r \<le> off e s'"
  have "plain e s (ploop constraint_round (a, [])) ?I"
  proof (rule plainI [OF s], rule ok_loop [where I = ?I])
    fix r s1
    assume s1: "cur e (ps_position s) (ps_depth s) s1" and I: "?I r s1"
    show "ok e (ps_position s) (ps_depth s) (constraint_round r) s1 (\<lambda>r s'. case r of
        Inl b \<Rightarrow> cur e (ps_position s) (ps_depth s) s' \<and> ?I b s'
      | Inr a' \<Rightarrow> cur e (ps_position s) (ps_depth s) s' \<and> ps_position s1 < ps_position s' \<and> ?I a' s')"
      by (rule ok_constraint_round [OF s1]) (use I in auto)
  qed (use a in auto)
  then show ?thesis by (rule ok_plain [OF _ s]) (metis Q prod.collapse)
qed

lemma parse_type_parameter_node:
  assumes s: "cur e p d s"
  shows "node e s parse_type_parameter tp_span (\<lambda>_ _. True)"
  unfolding parse_type_parameter_def
  by (rule nodeI [OF s], intro conjI ok_case_pair parser_steps parser_rules;
      (assumption | rule valid_span_bnd, assumption | linarith | simp)?)

lemmas parse_type_parameter_rule [parser_rules] = parse_type_parameter_node [THEN ok_node]

lemma parse_type_parameters_plain:
  assumes s: "cur e p d s"
  shows "plain e s parse_type_parameters (\<lambda>_ _. True)"
  unfolding parse_type_parameters_def
  by (rule plainI [OF s], intro conjI parser_steps parser_rules; (assumption | linarith | simp)?)

lemmas parse_type_parameters_rule [parser_rules] = parse_type_parameters_plain [THEN ok_plain]

text \<open>A list of nodes lies where it was read.\<close>

lemma ok_members:
  assumes s: "cur e p d s"
    and item: "\<And>s1. cur e p d s1 \<Longrightarrow> ps_position s \<le> ps_position s1 \<Longrightarrow> node e s1 item sp (\<lambda>x _. P x)"
    and Q: "\<And>xs s'. cur e p d s' \<Longrightarrow> ps_position s \<le> ps_position s' \<Longrightarrow> ps_depth s \<le> ps_depth s' \<Longrightarrow>
      off e s \<le> off e s' \<Longrightarrow> members P sp (off e s) (off e s') xs \<Longrightarrow> Q xs s'"
  shows "ok e p d (comma_list stop item) s Q"
  unfolding comma_list_def
proof (rule ok_comma_loop [OF s, where A = "\<lambda>x s'. P x \<and> off e s \<le> span_start (sp x) \<and> span_end (sp x) \<le> off e s'"])
  fix s1
  assume s1: "cur e p d s1" "ps_position s \<le> ps_position s1" "ps_depth s \<le> ps_depth s1" "off e s \<le> off e s1"
  show "ok e p d item s1 (\<lambda>x s2. cur e p d s2 \<and> ps_position s1 < ps_position s2 \<and> ps_depth s \<le> ps_depth s2 \<and>
      P x \<and> off e s \<le> span_start (sp x) \<and> span_end (sp x) \<le> off e s2)"
    by (rule ok_node [OF item [OF s1(1,2)] s1(1)]) (use s1 in auto)
next
  fix x and s1 s2 :: parser_state
  assume "P x \<and> off e s \<le> span_start (sp x) \<and> span_end (sp x) \<le> off e s1" "ps_position s1 \<le> ps_position s2"
  then show "P x \<and> off e s \<le> span_start (sp x) \<and> span_end (sp x) \<le> off e s2"
    using token_offset_mono [OF cur_env [OF s]] order.trans by blast
qed (rule Q, simp_all add: members_def)

end
