(* ===== verification/Parser_Nodes.thy ===== *)
theory Parser_Nodes
  imports Parser_Returns
begin

text \<open>
  The specifications of the mutually recursive methods: words, patterns, closures, commands, expressions
  and chains, for re-entries that are \<open>ready\<close> up to a number of remaining tokens.
\<close>

lemmas node_sels = ast_node.sel closure.sel parameter.sel command_word.sel command_head.sel snd_conv fst_conv
  pipeline.sel and_chain.sel conditional_chain.sel record_entry.sel nominal_field.sel literal.sel

section \<open>Re-entry\<close>

text \<open>The binding that names a pattern lies in the pattern.\<close>

definition binding_in :: "parser_env \<Rightarrow> nat \<Rightarrow> nat \<Rightarrow> pattern_syntax \<Rightarrow> bool" where
  "binding_in e lo hi pat \<longleftrightarrow>
     (\<forall>i. pattern_primary_binding pat = Some i \<longrightarrow>
        valid_span e (ident_span i) \<and> lo \<le> span_start (ident_span i) \<and> span_end (ident_span i) \<le> hi)"

definition below :: "parser_env \<Rightarrow> nat \<Rightarrow> nat \<Rightarrow> bool" where
  "below e p n \<longleftrightarrow> length (pe_tokens e) - p \<le> n"

definition ready :: "parser_env \<Rightarrow> nat \<Rightarrow> syntax_parsers \<Rightarrow> bool" where
  "ready e n R \<longleftrightarrow>
     (\<forall>p d s. cur e p d s \<and> length (pe_tokens e) - ps_position s < n \<longrightarrow>
        node e s (sp_expression R) node_span (\<lambda>x _. grouped x) \<and>
        node e s (sp_chain R) cc_span (\<lambda>c _. grouped_chain c) \<and>
        node e s (sp_pattern R) pattern_span (\<lambda>x s'. binding_in e (off e s) (off e s') x) \<and>
        node e s (sp_unary R) node_span (\<lambda>x _. grouped x \<and> 5 \<le> level x))"

lemma below_cur: "below e p n \<Longrightarrow> cur e p d s \<Longrightarrow> below e (ps_position s) n"
  by (auto simp: below_def cur_def)

lemma ready_nodes:
  assumes "p < ps_position s" and "ready e n R" and "below e p n" and "cur e p d s"
  shows "node e s (sp_expression R) node_span (\<lambda>x _. grouped x)"
    and "node e s (sp_chain R) cc_span (\<lambda>c _. grouped_chain c)"
    and "node e s (sp_pattern R) pattern_span (\<lambda>x s'. binding_in e (off e s) (off e s') x)"
    and "node e s (sp_unary R) node_span (\<lambda>x _. grouped x \<and> 5 \<le> level x)"
proof -
  have "length (pe_tokens e) - ps_position s < n" using assms(1,3,4) by (auto simp: below_def cur_def)
  with assms(2,4) show "node e s (sp_expression R) node_span (\<lambda>x _. grouped x)"
    "node e s (sp_chain R) cc_span (\<lambda>c _. grouped_chain c)"
    "node e s (sp_pattern R) pattern_span (\<lambda>x s'. binding_in e (off e s) (off e s') x)"
    "node e s (sp_unary R) node_span (\<lambda>x _. grouped x \<and> 5 \<le> level x)"
    unfolding ready_def by blast+
qed

lemmas ready_rules [parser_rules] = ready_nodes [THEN ok_node]

section \<open>Words\<close>

lemma parse_braced_interpolation_node:
  assumes R: "ready e n R" and b: "below e p n" and s: "cur e p d s"
    and i: "ps_position s < length (pe_tokens e)"
  shows "node e s (parse_braced_interpolation R) node_span (\<lambda>x _. grouped_part x)"
  unfolding parse_braced_interpolation_def
  by (rule nodeI [OF s], intro conjI parser_steps parser_rules;
      (assumption | rule i | rule R | rule below_cur [OF b s] | rule valid_span_bnd, assumption | linarith | simp)?)

lemmas parse_braced_interpolation_rule [parser_rules] = parse_braced_interpolation_node [THEN ok_node]

lemma ok_take_modifier [parser_rules]:
  assumes s: "cur e p d s"
    and Q: "\<And>k m s'. cur e p d s' \<Longrightarrow> ps_position s \<le> ps_position s' \<Longrightarrow> ps_depth s \<le> ps_depth s' \<Longrightarrow>
      off e s \<le> off e s' \<Longrightarrow> Q (k, m) s'"
  shows "ok e p d take_command_capture_modifier s Q"
proof -
  have here: "Q (CaptureText, None) s" using s by (intro Q) simp_all
  show ?thesis
  proof (cases "current e s = None \<or> get_nth (pe_tokens e) (ps_position s + 1) = None")
    case True
    with here show ?thesis
      by (auto simp: take_command_capture_modifier_def pbind_def asks_def ok_def pure_def split: option.splits)
  next
    case False
    then obtain i c where i: "current e s = Some i" and c: "ps_position s + 1 < length (pe_tokens e)"
      "get_nth (pe_tokens e) (ps_position s + 1) = Some c" "c = pe_tokens e ! Suc (ps_position s)" by auto
    from i c(1) have i': "i = pe_tokens e ! ps_position s" "ps_position s < length (pe_tokens e)"
      by (auto simp: current_def)
    note tok = env_token [OF cur_env [OF s] i'(2)] env_token [OF cur_env [OF s] c(1)]
    let ?s = "s\<lparr>ps_position := ps_position s + 2\<rparr>"
    have s': "cur e p d ?s" using s c(1) by (simp add: cur_def)
    have le: "off e s \<le> off e ?s" using token_offset_mono [OF cur_env [OF s], of "ps_position s" "ps_position s + 2"]
      by simp
    have moved: "Q (k, m) ?s" for k m using s' le by (intro Q) simp_all
    have ab: "span_start (tk_span i) \<le> span_end (tk_span c)" "bnd e (span_start (tk_span i))"
      "bnd e (span_end (tk_span c))"
      using valid_span_bnd [OF tok(1)] valid_span_bnd [OF tok(6)] tok(2,3,4,7,8,9) i'(1) c(3) by simp_all
    have "ok e p d (pseq (move_position 2) (pbind (span_between (span_start (tk_span i)) (span_end (tk_span c)))
        (\<lambda>sp. pure (k, Some sp)))) s Q" for k
      unfolding move_position_def by (intro ok_seq ok_updates ok_bind ok_span_between ok_pure moved ab)
    then show ?thesis
      unfolding take_command_capture_modifier_def
      using i c(2) here by (intro ok_bind ok_asks) (auto intro!: ok_pure ok_bind ok_asks split: option.splits)
  qed
qed

lemma parse_command_substitution_node_node:
  assumes R: "ready e n R" and b: "below e p n" and s: "cur e p d s"
    and i: "ps_position s < length (pe_tokens e)"
  shows "node e s (parse_command_substitution_node R) snd
    (\<lambda>x _. grouped_chain (cs_chain (fst x)) \<and> inside (snd x) (cc_span (cs_chain (fst x))))"
  unfolding parse_command_substitution_node_def
  by (rule nodeI [OF s], intro conjI ok_case_pair parser_steps parser_rules;
      (assumption | rule i | rule R | rule below_cur [OF b s] | rule valid_span_bnd, assumption | linarith | simp)?)

lemma parse_command_substitution_node:
  assumes R: "ready e n R" and b: "below e p n" and s: "cur e p d s"
    and i: "ps_position s < length (pe_tokens e)"
  shows "node e s (parse_command_substitution R) node_span (\<lambda>x _. grouped_part x)"
  using parse_command_substitution_node_node [OF assms]
  by (auto simp: node_def ok_def parse_command_substitution_def pbind_def pure_def
      split: parsed.splits sum.splits)

lemmas parse_command_substitution_rules [parser_rules] =
  parse_command_substitution_node_node [THEN ok_node] parse_command_substitution_node [THEN ok_node]

lemma variable_part_node: "cur e p d s \<Longrightarrow> node e s variable_part node_span (\<lambda>x _. grouped_part x)"
  unfolding variable_part_def
  by (rule nodeI, assumption, intro conjI parser_steps parser_rules; (assumption | simp)?)

lemmas variable_part_rule [parser_rules] = variable_part_node [THEN ok_node]

lemma quoted_part_node:
  assumes R: "ready e n R" and b: "below e p n" and s: "cur e p d s" and t: "current e s = Some t"
  shows "node e s (quoted_part R t) node_span (\<lambda>x _. grouped_part x)"
proof -
  have i: "ps_position s < length (pe_tokens e)" and t': "t = pe_tokens e ! ps_position s"
    using t by (auto simp: current_def)
  note tok = env_token [OF cur_env [OF s] i, folded t']
  show ?thesis
    unfolding quoted_part_def
    by (rule nodeI [OF s], intro conjI parser_steps parser_rules;
        (assumption | rule i | rule R | rule below_cur [OF b s] | simp add: tok)?)
qed

lemmas quoted_part_rule [parser_rules] = quoted_part_node [THEN ok_node]

lemma ok_quoted_loop [parser_rules]:
  assumes p: "p < ps_position s" and R: "ready e n R" and b: "below e p n" and s: "cur e p d s"
    and t: "valid_span e (tk_span t)"
    and Q: "\<And>parts s'. cur e p d s' \<Longrightarrow> ps_position s \<le> ps_position s' \<Longrightarrow> ps_depth s \<le> ps_depth s' \<Longrightarrow>
      off e s \<le> off e s' \<Longrightarrow> ps_position s' < length (pe_tokens e) \<Longrightarrow>
      members grouped_part node_span (off e s) (off e s') parts \<Longrightarrow> Q parts s'"
  shows "ok e p d (ploop (quoted_round R t) []) s Q"
proof -
  have b': "below e (ps_position s) n" by (rule below_cur [OF b s])
  let ?I = "\<lambda>parts s'. members grouped_part node_span (off e s) (off e s') parts"
  have "plain e s (ploop (quoted_round R t) []) (\<lambda>parts s'. ps_position s' < length (pe_tokens e) \<and> ?I parts s')"
  proof (rule plainI [OF s], rule ok_loop [where I = "\<lambda>parts s'. off e s \<le> off e s' \<and> ?I parts s'"])
    fix parts s1
    assume s1: "cur e (ps_position s) (ps_depth s) s1" and I: "off e s \<le> off e s1 \<and> ?I parts s1"
    let ?P = "\<lambda>r s'. case r of
        Inl b \<Rightarrow> cur e (ps_position s) (ps_depth s) s' \<and> ps_position s' < length (pe_tokens e) \<and> ?I b s'
      | Inr b \<Rightarrow> cur e (ps_position s) (ps_depth s) s' \<and> ps_position s1 < ps_position s' \<and>
          off e s \<le> off e s' \<and> ?I b s'"
    have R': "?P (Inr (parts @ [x])) s'" if "cur e (ps_position s) (ps_depth s) s'" "ps_position s1 < ps_position s'"
      "off e s1 \<le> off e s'" "grouped_part x" "off e s1 \<le> span_start (node_span x)"
      "span_end (node_span x) \<le> off e s'" for x s'
      using that I members_mono [of grouped_part node_span "off e s" "off e s1" parts "off e s" "off e s'"] by simp
    have L': "?P (Inl parts) s1" if "at_kind k e s1" for k
      using that s1 I by auto
    show "ok e (ps_position s) (ps_depth s) (quoted_round R t parts) s1 ?P"
      unfolding quoted_round_def
      by (intro parser_steps parser_rules L' R';
          (assumption | rule t | rule s1 | rule R | rule b' | linarith | simp)?)
  qed simp_all
  then show ?thesis by (rule ok_plain [OF _ s]) (use Q in blast)
qed

lemma parse_double_quoted_node:
  assumes R: "ready e n R" and b: "below e p n" and s: "cur e p d s"
    and i: "ps_position s < length (pe_tokens e)"
  shows "node e s (parse_double_quoted R) snd
    (\<lambda>x _. members grouped_part node_span (span_start (snd x)) (span_end (snd x)) (fst x))"
  unfolding parse_double_quoted_def
  by (rule nodeI [OF s], intro conjI ok_case_pair parser_steps parser_rules;
      (assumption | rule R | rule below_cur [OF b s] | rule valid_span_bnd, assumption | insert i, linarith
        | simp only: fst_conv snd_conv, erule members_mono; linarith | simp)?)

lemmas parse_double_quoted_rule [parser_rules] = parse_double_quoted_node [THEN ok_node]

lemma ok_bare_loop [parser_rules]:
  assumes s: "cur e p d s" and a: "bnd e a" "a \<le> off e s"
    and Q: "\<And>stop s'. cur e p d s' \<Longrightarrow> ps_position s \<le> ps_position s' \<Longrightarrow> ps_depth s \<le> ps_depth s' \<Longrightarrow>
      off e s \<le> off e s' \<Longrightarrow> bnd e stop \<Longrightarrow> a \<le> stop \<Longrightarrow> stop \<le> off e s' \<Longrightarrow> Q stop s'"
  shows "ok e p d (ploop bare_round a) s Q"
proof -
  let ?I = "\<lambda>stop s'. bnd e stop \<and> a \<le> stop \<and> stop \<le> off e s'"
  have "plain e s (ploop bare_round a) ?I"
  proof (rule plainI [OF s], rule ok_loop [where I = ?I])
    fix stop s1
    assume s1: "cur e (ps_position s) (ps_depth s) s1" and I: "?I stop s1"
    let ?P = "\<lambda>r s'. case r of Inl b \<Rightarrow> cur e (ps_position s) (ps_depth s) s' \<and> ?I b s'
      | Inr a' \<Rightarrow> cur e (ps_position s) (ps_depth s) s' \<and> ps_position s1 < ps_position s' \<and> ?I a' s'"
    have L: "?P (Inl stop) s1" using I s1 by simp
    have R: "?P (Inr (span_end (tk_span t))) s'" if "cur e (ps_position s) (ps_depth s) s'"
      "ps_position s1 < ps_position s'" "valid_span e (tk_span t)" "off e s1 = span_start (tk_span t)"
      "span_start (tk_span t) < span_end (tk_span t)" "span_end (tk_span t) \<le> off e s'" for t s'
      using that I by auto
    show "ok e (ps_position s) (ps_depth s) (bare_round stop) s1 ?P"
      unfolding bare_round_def
      by (intro parser_steps parser_rules L R; (assumption | rule s1 | linarith | simp)?)
  qed (use a in auto)
  then show ?thesis by (rule ok_plain [OF _ s]) (use Q in blast)
qed

lemma ok_parse_word_part [parser_rules]:
  assumes R: "ready e n R" and b: "below e p n" and s: "cur e p d s"
    and N: "\<And>s'. cur e p d s' \<Longrightarrow> ps_position s' = ps_position s \<Longrightarrow> ps_depth s' = ps_depth s \<Longrightarrow> Q None s'"
    and Q: "\<And>x s'. cur e p d s' \<Longrightarrow> ps_position s < ps_position s' \<Longrightarrow> ps_depth s \<le> ps_depth s' \<Longrightarrow>
      off e s \<le> off e s' \<Longrightarrow> valid_span e (node_span x) \<Longrightarrow> off e s \<le> span_start (node_span x) \<Longrightarrow>
      span_start (node_span x) \<le> span_end (node_span x) \<Longrightarrow> span_end (node_span x) \<le> off e s' \<Longrightarrow>
      grouped_part x \<Longrightarrow> Q (Some x) s'"
  shows "ok e p d (parse_word_part R) s Q"
  unfolding parse_word_part_def
  by (intro parser_steps parser_rules N Q;
      (assumption | rule s | rule R | rule b | rule valid_span_bnd, assumption | linarith | simp)?)

lemma ok_word_loop [parser_rules]:
  assumes R: "ready e n R" and b: "below e p n" and s: "cur e p d s" and a: "a = off e s"
    and Q: "\<And>stop parts s'. cur e p d s' \<Longrightarrow> ps_position s \<le> ps_position s' \<Longrightarrow> ps_depth s \<le> ps_depth s' \<Longrightarrow>
      off e s \<le> off e s' \<Longrightarrow> bnd e stop \<Longrightarrow> a \<le> stop \<Longrightarrow> stop \<le> off e s' \<Longrightarrow>
      (parts \<noteq> [] \<Longrightarrow> ps_position s < ps_position s') \<Longrightarrow> members grouped_part node_span a stop parts \<Longrightarrow>
      Q (stop, parts) s'"
  shows "ok e p d (ploop (word_round R) (a, [])) s Q"
proof -
  have b': "below e (ps_position s) n" by (rule below_cur [OF b s])
  have "bnd e a"
    using a env_token(1,2) [OF cur_env [OF s], of "ps_position s"] valid_span_bnd(1)
    by (cases "ps_position s < length (pe_tokens e)") (metis, simp add: token_offset_def)
  let ?I = "\<lambda>(r :: nat \<times> word_part list) s'. bnd e (fst r) \<and> a \<le> fst r \<and> fst r \<le> off e s' \<and>
    (snd r \<noteq> [] \<longrightarrow> ps_position s < ps_position s') \<and> members grouped_part node_span a (fst r) (snd r)"
  have "plain e s (ploop (word_round R) (a, [])) ?I"
  proof (rule plainI [OF s], rule ok_loop [where I = ?I])
    fix r s1
    assume s1: "cur e (ps_position s) (ps_depth s) s1" and I: "?I r s1"
    let ?P = "\<lambda>r s'. case r of Inl b \<Rightarrow> cur e (ps_position s) (ps_depth s) s' \<and> ?I b s'
      | Inr a' \<Rightarrow> cur e (ps_position s) (ps_depth s) s' \<and> ps_position s1 < ps_position s' \<and> ?I a' s'"
    have L: "?P (Inl r) s'" if "cur e (ps_position s) (ps_depth s) s'" "ps_position s' = ps_position s1" for s'
      using that I by simp
    have *: "a \<le> span_end (node_span x) \<and> a \<le> span_start (node_span x) \<and>
        members grouped_part node_span a (span_end (node_span x)) (snd r)"
      if "off e s1 \<le> span_start (node_span x)" "valid_span e (node_span x)" for x :: word_part
      using I that valid_span_le [of e "node_span x"]
        members_mono [of grouped_part node_span a "fst r" "snd r" a "span_end (node_span x)"] by simp
    have R': "?P (Inr (span_end (node_span x), snd r @ [x])) s'"
      if "cur e (ps_position s) (ps_depth s) s'" "ps_position s1 < ps_position s'" "valid_span e (node_span x)"
        "off e s1 \<le> span_start (node_span x)" "span_end (node_span x) \<le> off e s'" "grouped_part x" for x s'
      using that * [of x] cur_pos [OF s1] by simp
    show "ok e (ps_position s) (ps_depth s) (word_round R r) s1 ?P"
      unfolding word_round_def
      by (intro parser_steps parser_rules L R';
          (assumption | rule s1 | rule R | rule b' | linarith | simp)?)
  qed (use a \<open>bnd e a\<close> in auto)
  then show ?thesis by (rule ok_plain [OF _ s]) (metis Q prod.collapse)
qed

lemma parse_word_node:
  assumes R: "ready e n R" and b: "below e p n" and s: "cur e p d s"
  shows "node e s (parse_word R) word_span (\<lambda>x _. grouped_word x)"
  unfolding parse_word_def
  by (rule nodeI [OF s], intro conjI ok_case_pair parser_steps parser_rules;
      (assumption | rule R | rule below_cur [OF b s] | rule valid_span_bnd, assumption | linarith | simp)?)

lemmas parse_word_rule [parser_rules] = parse_word_node [THEN ok_node]

section \<open>Literals and patterns\<close>

lemma simple_literal_parts: "simple_literal k = Some l \<Longrightarrow> quoted_parts l = []"
  by (auto simp: simple_literal_def split: if_splits)

lemma parse_literal_node:
  assumes R: "ready e n R" and b: "below e p n" and s: "cur e p d s"
  shows "node e s (parse_literal R) literal_span (\<lambda>x _. grouped_literal x)"
  unfolding parse_literal_def
  by (rule nodeI [OF s], intro conjI ok_case_pair parser_steps parser_rules;
      (assumption | rule R | rule below_cur [OF b s] | rule valid_span_bnd, assumption | linarith | simp add: simple_literal_parts)?)

lemmas parse_literal_rule [parser_rules] = parse_literal_node [THEN ok_node]

lemma binding_in_mono: "binding_in e lo hi pat \<Longrightarrow> lo' \<le> lo \<Longrightarrow> hi \<le> hi' \<Longrightarrow> binding_in e lo' hi' pat"
  by (force simp: binding_in_def)

lemma first_binding_member:
  "first_binding ps = Some i \<Longrightarrow> \<exists>x \<in> set ps. pattern_primary_binding x = Some i"
  "first_field_binding fs = Some i \<Longrightarrow> \<exists>x \<in> set fs. pattern_primary_binding (pf_pattern x) = Some i"
proof (induction ps)
  case (Cons x ps)
  then show "first_binding (x # ps) = Some i \<Longrightarrow> \<exists>x \<in> set (x # ps). pattern_primary_binding x = Some i"
    by (auto split: option.splits)
next
  show "first_field_binding fs = Some i \<Longrightarrow> \<exists>x \<in> set fs. pattern_primary_binding (pf_pattern x) = Some i"
  proof (induction fs)
    case (Cons x fs)
    then show ?case by (cases x) (auto split: option.splits)
  qed simp
qed simp_all

text \<open>Lists of patterns and of fields keep the bindings of their elements in range.\<close>

lemma ok_binding_list:
  assumes s: "cur e p d s"
    and item: "\<And>s1. cur e p d s1 \<Longrightarrow> ps_position s \<le> ps_position s1 \<Longrightarrow>
      node e s1 item sp (\<lambda>x s'. binding_in e (off e s1) (off e s') (f x))"
    and Q: "\<And>xs s'. cur e p d s' \<Longrightarrow> ps_position s \<le> ps_position s' \<Longrightarrow> ps_depth s \<le> ps_depth s' \<Longrightarrow>
      off e s \<le> off e s' \<Longrightarrow> \<forall>x \<in> set xs. binding_in e (off e s) (off e s') (f x) \<Longrightarrow> Q xs s'"
  shows "ok e p d (comma_list stop item) s Q"
  unfolding comma_list_def
proof (rule ok_comma_loop [OF s, where A = "\<lambda>x s'. binding_in e (off e s) (off e s') (f x)"])
  fix s1
  assume s1: "cur e p d s1" "ps_position s \<le> ps_position s1" "ps_depth s \<le> ps_depth s1" "off e s \<le> off e s1"
  show "ok e p d item s1 (\<lambda>x s2. cur e p d s2 \<and> ps_position s1 < ps_position s2 \<and> ps_depth s \<le> ps_depth s2 \<and>
      binding_in e (off e s) (off e s2) (f x))"
    by (rule ok_node [OF item [OF s1(1,2)] s1(1)]) (use s1 in \<open>auto elim: binding_in_mono\<close>)
next
  fix x and s1 s2 :: parser_state
  assume "binding_in e (off e s) (off e s1) (f x)" "ps_position s1 \<le> ps_position s2"
  then show "binding_in e (off e s) (off e s2) (f x)"
    using token_offset_mono [OF cur_env [OF s]] by (auto elim: binding_in_mono)
qed (rule Q)

lemma ok_pattern_list:
  assumes p: "p < ps_position s" and R: "ready e n R" and b: "below e p n" and s: "cur e p d s"
    and Q: "\<And>xs s'. cur e p d s' \<Longrightarrow> ps_position s \<le> ps_position s' \<Longrightarrow> ps_depth s \<le> ps_depth s' \<Longrightarrow>
      off e s \<le> off e s' \<Longrightarrow> \<forall>x \<in> set xs. binding_in e (off e s) (off e s') x \<Longrightarrow> Q xs s'"
  shows "ok e p d (comma_list stop (sp_pattern R)) s Q"
proof (rule ok_binding_list [OF s, where f = "\<lambda>x. x" and sp = pattern_span])
  fix s1
  assume "cur e p d s1" "ps_position s \<le> ps_position s1"
  with p show "node e s1 (sp_pattern R) pattern_span (\<lambda>x s'. binding_in e (off e s1) (off e s') x)"
    by (intro ready_nodes(3) [OF _ R b]) simp_all
qed (rule Q)

lemma parse_pattern_field_node:
  assumes R: "ready e n R" and b: "below e p n" and s: "cur e p d s"
  shows "node e s (parse_pattern_field R) pf_span (\<lambda>x s'. binding_in e (off e s) (off e s') (pf_pattern x))"
  unfolding parse_pattern_field_def
  by (rule nodeI [OF s], intro conjI parser_steps parser_rules;
      (assumption | rule R | rule below_cur [OF b s] | rule valid_span_bnd, assumption | linarith
        | simp; erule binding_in_mono; linarith | simp)?)

lemma binding_in_parts:
  "\<forall>x \<in> set fs. binding_in e lo hi (pf_pattern x) \<Longrightarrow> lo' \<le> lo \<Longrightarrow> hi \<le> hi' \<Longrightarrow>
     binding_in e lo' hi' (PatNominalRecord name fs sp)"
  "\<forall>x \<in> set ps. binding_in e lo hi x \<Longrightarrow> lo' \<le> lo \<Longrightarrow> hi \<le> hi' \<Longrightarrow>
     binding_in e lo' hi' (PatVariant name ps sp)"
  "\<forall>x \<in> set ps. binding_in e lo hi x \<Longrightarrow> lo' \<le> lo \<Longrightarrow> hi \<le> hi' \<Longrightarrow>
     (\<And>i. tail = Some i \<Longrightarrow> valid_span e (ident_span i) \<and> lo \<le> span_start (ident_span i) \<and> span_end (ident_span i) \<le> hi) \<Longrightarrow>
     binding_in e lo' hi' (PatList ps tail sp)"
  "valid_span e (ident_span i) \<Longrightarrow> lo \<le> span_start (ident_span i) \<Longrightarrow> span_end (ident_span i) \<le> hi \<Longrightarrow>
     binding_in e lo hi (PatBinding i)"
  "binding_in e lo hi (PatWildcard sp)" "binding_in e lo hi (PatLiteral l)"
  by (fastforce simp: binding_in_def dest: first_binding_member split: option.splits)+

lemma ok_record_pattern:
  assumes R: "ready e n R" and b: "below e p n" and s: "cur e p d s"
    and i: "ps_position s < length (pe_tokens e)"
    and name: "valid_span e (qn_span name)" "span_end (qn_span name) \<le> off e s"
    and Q: "\<And>x s'. cur e p d s' \<Longrightarrow> ps_position s < ps_position s' \<Longrightarrow> ps_depth s \<le> ps_depth s' \<Longrightarrow>
      off e s \<le> off e s' \<Longrightarrow> valid_span e (pattern_span x) \<Longrightarrow> span_start (pattern_span x) = span_start (qn_span name) \<Longrightarrow>
      span_end (pattern_span x) \<le> off e s' \<Longrightarrow> binding_in e (off e s) (off e s') x \<Longrightarrow> Q x s'"
  shows "ok e p d (record_pattern R name) s Q" "ok e p d (variant_pattern R name) s Q"
proof -
  note le = valid_span_le [OF name(1)] name(2)
  show "ok e p d (record_pattern R name) s Q"
    unfolding record_pattern_def
    by (intro ok_take_token_some ok_binding_list [where f = pf_pattern and sp = pf_span] parse_pattern_field_node
        parser_steps parser_rules Q;
        (assumption | rule s | rule i | rule R | rule b | rule valid_span_bnd, (assumption | rule name)
          | insert le, linarith | rule binding_in_parts, assumption, linarith, linarith | simp)?)
  show "ok e p d (variant_pattern R name) s Q"
    unfolding variant_pattern_def
    by (intro ok_take_token_some ok_pattern_list parser_steps parser_rules Q;
        (assumption | rule s | rule i | rule R | rule b | rule valid_span_bnd, (assumption | rule name)
          | insert le cur_pos [OF s], linarith | rule binding_in_parts, assumption, linarith, linarith | simp)?)
qed

lemma name_pattern_node:
  assumes R: "ready e n R" and b: "below e p n" and s: "cur e p d s"
  shows "node e s (name_pattern R) pattern_span (\<lambda>x s'. binding_in e (off e s) (off e s') x)"
  unfolding name_pattern_def
  by (rule nodeI [OF s], intro conjI ok_record_pattern parser_steps parser_rules;
      (assumption | rule R | rule below_cur [OF b s] | rule valid_span_bnd, assumption | linarith
        | erule binding_in_mono; linarith | erule current_bound
        | simp add: binding_in_parts | rule binding_in_parts; simp)?)

definition rest_in :: "parser_env \<Rightarrow> nat \<Rightarrow> nat \<Rightarrow> ident option \<Rightarrow> bool" where
  "rest_in e lo hi tail \<longleftrightarrow>
     (\<forall>i. tail = Some i \<longrightarrow> valid_span e (ident_span i) \<and> lo \<le> span_start (ident_span i) \<and>
        span_end (ident_span i) \<le> hi)"

lemma ok_list_pattern_loop [parser_rules]:
  assumes p: "p < ps_position s" and R: "ready e n R" and b: "below e p n" and s: "cur e p d s"
    and Q: "\<And>ps tail s'. cur e p d s' \<Longrightarrow> ps_position s \<le> ps_position s' \<Longrightarrow> ps_depth s \<le> ps_depth s' \<Longrightarrow>
      off e s \<le> off e s' \<Longrightarrow> \<forall>x \<in> set ps. binding_in e (off e s) (off e s') x \<Longrightarrow>
      rest_in e (off e s) (off e s') tail \<Longrightarrow> Q (ps, tail) s'"
  shows "ok e p d (ploop (list_pattern_round R) []) s Q"
proof -
  let ?I = "\<lambda>ps s'. off e s \<le> off e s' \<and> ps_position s \<le> ps_position s' \<and> ps_depth s \<le> ps_depth s' \<and>
    (\<forall>x \<in> set ps. binding_in e (off e s) (off e s') x)"
  show ?thesis
  proof (rule ok_loop [OF s, where I = ?I])
    fix ps s1
    assume s1: "cur e p d s1" and I: "?I ps s1"
    then have I': "off e s \<le> off e s1" "ps_position s \<le> ps_position s1" "ps_depth s \<le> ps_depth s1" by simp_all
    let ?P = "\<lambda>r s'. case r of Inl b \<Rightarrow> Q b s'
      | Inr a' \<Rightarrow> cur e p d s' \<and> ps_position s1 < ps_position s' \<and> ?I a' s'"
    have L0: "?P (Inl (ps, None)) s1"
      using I s1 by (auto intro!: Q simp: rest_in_def)
    have keep: "\<forall>x \<in> set ps. binding_in e (off e s) (off e s') x" if "off e s1 \<le> off e s'" for s' :: parser_state
      using I that by (auto elim: binding_in_mono)
    have L1: "?P (Inl (ps, Some i)) s'" if "cur e p d s'" "ps_position s1 < ps_position s'"
      "ps_depth s1 \<le> ps_depth s'" "off e s1 \<le> off e s'" "valid_span e (ident_span i)"
      "off e s1 \<le> span_start (ident_span i)" "span_end (ident_span i) \<le> off e s'" for i s'
      using that I' keep by (auto intro!: Q simp: rest_in_def)
    have B: "\<forall>y \<in> set (ps @ [x]). binding_in e (off e s) (off e s') y" if "off e s1 \<le> lo" "hi \<le> off e s'"
      "binding_in e lo hi x" "off e s1 \<le> off e s'" for x lo hi and s' :: parser_state
      using that keep I' by (auto elim!: binding_in_mono)
    have L2: "?P (Inl (ps @ [x], None)) s'" if "cur e p d s'" "ps_position s1 < ps_position s'"
      "ps_depth s1 \<le> ps_depth s'" "off e s1 \<le> off e s'" "off e s1 \<le> lo"
      "hi \<le> off e s'" "binding_in e lo hi x" for x s' lo hi
      using that I' B [OF that(5,6,7,4)] by (auto intro!: Q simp: rest_in_def)
    have R2: "?P (Inr (ps @ [x])) s'" if "cur e p d s'" "ps_position s1 < ps_position s'"
      "ps_depth s1 \<le> ps_depth s'" "off e s1 \<le> off e s'" "off e s1 \<le> lo"
      "hi \<le> off e s'" "binding_in e lo hi x" for x s' lo hi
      using that I' B [OF that(5,6,7,4)] by auto
    show "ok e p d (list_pattern_round R ps) s1 ?P"
      unfolding list_pattern_round_def
      by (intro parser_steps parser_rules L0 L1 L2 R2;
          (assumption | rule s1 | rule R | rule b | insert p I', linarith)?)
  qed (use s in auto)
qed

lemma parse_list_pattern_node:
  assumes R: "ready e n R" and b: "below e p n" and s: "cur e p d s"
    and i: "ps_position s < length (pe_tokens e)"
  shows "node e s (parse_list_pattern R) pattern_span (\<lambda>x s'. binding_in e (off e s) (off e s') x)"
  unfolding parse_list_pattern_def
  by (rule nodeI [OF s], intro conjI ok_case_pair parser_steps parser_rules;
      (assumption | rule i | rule R | rule below_cur [OF b s] | rule valid_span_bnd, assumption | linarith
        | rule binding_in_parts, assumption, linarith, linarith, (simp add: rest_in_def; fail) | simp)?)

lemma parse_pattern_node:
  assumes R: "ready e n R" and b: "below e p n" and s: "cur e p d s"
  shows "node e s (parse_pattern R) pattern_span (\<lambda>x s'. binding_in e (off e s) (off e s') x)"
  unfolding parse_pattern_def
  by (rule nodeI [OF s], intro conjI parser_steps parser_rules
        ok_node [OF name_pattern_node] ok_node [OF parse_list_pattern_node];
      (assumption | rule R | rule below_cur [OF b s] | linarith | simp add: binding_in_parts)?)

section \<open>Parameters, closures and commands\<close>

lemma ok_bound_name [parser_rules]:
  assumes "cur e p d s" and "valid_span e (pattern_span pat)" and "binding_in e lo hi pat"
    and "\<And>i. valid_span e (ident_span i) \<Longrightarrow> lo \<le> span_start (ident_span i) \<Longrightarrow>
      span_start (ident_span i) \<le> span_end (ident_span i) \<Longrightarrow> span_end (ident_span i) \<le> hi \<Longrightarrow> Q i s"
  shows "ok e p d (bound_name message pat) s Q"
  unfolding bound_name_def
  by (intro parser_steps parser_rules assms(1,2,4))
    (use assms(3) in \<open>auto simp: binding_in_def intro: valid_span_le\<close>)

lemma binding_pattern_node:
  assumes s: "cur e p d s" and "node e s P pattern_span (\<lambda>x s'. binding_in e (off e s) (off e s') x)"
  shows "node e s (binding_pattern P) pattern_span (\<lambda>x s'. binding_in e (off e s) (off e s') x)"
proof (rule nodeI [OF s])
  assume s': "cur e (ps_position s) (ps_depth s) s"
  show "ok e (ps_position s) (ps_depth s) (binding_pattern P) s (\<lambda>x s'.
      cur e (ps_position s) (ps_depth s) s' \<and> ps_position s < ps_position s' \<and> valid_span e (pattern_span x) \<and>
      off e s \<le> span_start (pattern_span x) \<and> span_end (pattern_span x) \<le> off e s' \<and>
      binding_in e (off e s) (off e s') x)"
    unfolding binding_pattern_def
    by (intro conjI parser_steps parser_rules ok_node [OF assms(2)];
        (assumption | rule s' | linarith | simp add: binding_in_parts)?)
qed

text \<open>\<open>P\<close> reads patterns from \<open>s\<close> on.\<close>

definition pattern_parser :: "parser_env \<Rightarrow> nat \<Rightarrow> nat \<Rightarrow> parser_state \<Rightarrow> pattern_syntax parser \<Rightarrow> bool" where
  "pattern_parser e p d s P \<longleftrightarrow>
     (\<forall>s1. cur e p d s1 \<and> ps_position s \<le> ps_position s1 \<longrightarrow>
        node e s1 P pattern_span (\<lambda>x s'. binding_in e (off e s1) (off e s') x))"

lemma parse_parameter_node:
  assumes s: "cur e p d s" and P: "node e s P pattern_span (\<lambda>x s'. binding_in e (off e s) (off e s') x)"
  shows "node e s (parse_parameter P) pm_span (\<lambda>_ _. True)"
  unfolding parse_parameter_def
  by (rule nodeI [OF s], intro conjI parser_steps parser_rules ok_node [OF binding_pattern_node [OF _ P]];
      (assumption | rule valid_span_bnd, assumption
        | linarith | simp)?) linarith+

lemma ok_parse_parameters [parser_rules]:
  assumes s: "cur e p d s" and P: "pattern_parser e p d s P"
    and Q: "\<And>xs s'. cur e p d s' \<Longrightarrow> ps_position s \<le> ps_position s' \<Longrightarrow> ps_depth s \<le> ps_depth s' \<Longrightarrow>
      off e s \<le> off e s' \<Longrightarrow> Q xs s'"
  shows "ok e p d (parse_parameters P stop) s Q"
proof -
  have node: "node e s1 (parse_parameter P) pm_span (\<lambda>_ _. True)"
    if "cur e p d s1" "ps_position s \<le> ps_position s1" for s1
    using that P parse_parameter_node by (auto simp: pattern_parser_def)
  show ?thesis
    unfolding parse_parameters_def
    by (intro conjI parser_steps parser_rules s Q ok_node [OF node]; (assumption | linarith)?)
qed

lemma ok_closure_parameters [parser_rules]:
  assumes p: "p < ps_position s" and R: "ready e n R" and b: "below e p n" and s: "cur e p d s"
    and Q: "\<And>xs s'. cur e p d s' \<Longrightarrow> ps_position s \<le> ps_position s' \<Longrightarrow> ps_depth s \<le> ps_depth s' \<Longrightarrow>
      off e s \<le> off e s' \<Longrightarrow> Q xs s'"
  shows "ok e p d (closure_parameters R marker) s Q"
proof -
  have P: "pattern_parser e p d s (sp_pattern R)"
    unfolding pattern_parser_def using ready_nodes(3) [OF _ R b] p by (auto intro: less_le_trans)
  show ?thesis
    unfolding closure_parameters_def
    by (intro conjI parser_steps parser_rules P s Q; (assumption | linarith | simp)?)
qed

lemma ok_any_type:
  assumes s: "cur e p d s"
    and Q: "\<And>r s'. cur e p d s' \<Longrightarrow> ps_position s \<le> ps_position s' \<Longrightarrow> ps_depth s \<le> ps_depth s' \<Longrightarrow>
      off e s \<le> off e s' \<Longrightarrow> Q r s'"
  shows "ok e p d (optional_type op skip_layout) s Q" "ok e p d (optional_type op skip_inline) s Q"
  by (rule ok_optional_type; (rule s | rule Q; (assumption | rule s | linarith)?))+

lemma parse_closure_node:
  assumes R: "ready e n R" and b: "below e p n" and s: "cur e p d s" and c: "starts_closure e s"
  shows "node e s (parse_closure R) cl_span (\<lambda>x _. grouped_closure x)"
proof -
  from c have i: "ps_position s + 1 < length (pe_tokens e)" and k: "at_kind (TkDelimiter DlLeftBrace) e s"
    by (auto simp: starts_closure_def next_token_is_def is_some_and_def at_kind_def current_kind_def
        split: option.splits)
  have open': "ok e q q' (expect_delimiter DlLeftBrace m) s Q"
    if "cur e q q' s" "\<And>t s'. cur e q q' s' \<Longrightarrow> ps_position s < ps_position s' \<Longrightarrow> ps_depth s \<le> ps_depth s' \<Longrightarrow>
      off e s \<le> off e s' \<Longrightarrow> valid_span e (tk_span t) \<Longrightarrow> off e s \<le> span_start (tk_span t) \<Longrightarrow>
      span_start (tk_span t) \<le> span_end (tk_span t) \<Longrightarrow> span_end (tk_span t) \<le> off e s' \<Longrightarrow>
      ps_position s' < length (pe_tokens e) \<Longrightarrow> Q t s'" for q q' m Q
  proof -
    from k obtain t where t: "current e s = Some t" by (auto simp: at_kind_def current_kind_def)
    have "expect_delimiter DlLeftBrace m e s = take_expected e s"
      using k t by (simp add: expect_delimiter_def expect_kind_def take_kind_def pbind_def asks_def
          take_expected_eq pure_def)
    moreover have "ok e q q' take_expected s Q"
      by (rule ok_node [OF take_expected_node [OF that(1)] that(1)]) (use i in simp, rule that(2), use i in auto)
    ultimately show ?thesis by (simp add: ok_def)
  qed
  show ?thesis
    unfolding parse_closure_def
    by (rule nodeI [OF s], intro open' conjI ok_any_type parser_steps parser_rules;
        (assumption | rule R | rule below_cur [OF b s] | rule valid_span_bnd, assumption
          | simp only: node_sels, (assumption | linarith) | linarith | simp)?)
qed

lemmas parse_closure_rule [parser_rules] = parse_closure_node [THEN ok_node]

end
