(* ===== verification/Parser_Brackets.thy ===== *)
theory Parser_Brackets
  imports Parser_Nodes
begin

text \<open>
  The explicit type arguments of a call: after them the parser stands at the parenthesis that
  \<open>bracket_is_followed_by_call\<close> has seen, so the index expression behind that test is never read there.
\<close>

section \<open>Balanced steps\<close>

text \<open>The tokens between \<open>s0\<close> and \<open>s\<close> close every bracket that they open, and no other.\<close>

definition brackets_even :: "parser_env \<Rightarrow> parser_state \<Rightarrow> parser_state \<Rightarrow> bool" where
  "brackets_even e s0 s \<longleftrightarrow>
     ps_depth s = ps_depth s0 \<and>
     (\<forall>d. skip_bracket (drop (ps_position s0) (pe_tokens e)) (Suc d) =
        skip_bracket (drop (ps_position s) (pe_tokens e)) (Suc d))"

definition balances :: "parser_env \<Rightarrow> parser_state \<Rightarrow> 'a parser \<Rightarrow> bool" where
  "balances e s0 m \<longleftrightarrow> (\<forall>s x s'. brackets_even e s0 s \<longrightarrow> m e s = Parsed (Inr x) s' \<longrightarrow> brackets_even e s0 s')"

named_theorems balance_rules \<open>backward rules for brackets_even steps\<close>

lemma brackets_even_refl [simp]: "brackets_even e s s"
  by (simp add: brackets_even_def)

lemma brackets_even_trans: "brackets_even e s0 s1 \<Longrightarrow> brackets_even e s1 s2 \<Longrightarrow> brackets_even e s0 s2"
  by (simp add: brackets_even_def)

lemma balancesD: "balances e s m \<Longrightarrow> m e s = Parsed (Inr x) s' \<Longrightarrow> brackets_even e s s'"
  unfolding balances_def using brackets_even_refl by blast

lemma balances_still [balance_rules]:
  "balances e s0 (pure x)" "balances e s0 (asks g)" "balances e s0 panic" "balances e s0 diverge"
  "balances e s0 (fail err)" "balances e s0 (span_between a b)"
  by (auto simp: balances_def pure_def asks_def panic_def diverge_def fail_def span_between_def
      split: sum.splits)

lemma balances_bind [balance_rules]:
  assumes m: "balances e s0 m" and f: "\<And>x. balances e s0 (f x)"
  shows "balances e s0 (pbind m f)"
  unfolding balances_def
proof (intro allI impI)
  fix s y s'
  assume s: "brackets_even e s0 s" and run: "pbind m f e s = Parsed (Inr y) s'"
  then obtain x s1 where m1: "m e s = Parsed (Inr x) s1" and f1: "f x e s1 = Parsed (Inr y) s'"
    by (auto simp: pbind_def split: parsed.splits sum.splits)
  from m s m1 have "brackets_even e s0 s1" unfolding balances_def by blast
  with f [of x] f1 show "brackets_even e s0 s'" unfolding balances_def by blast
qed

lemma balances_seq [balance_rules]: "balances e s0 m \<Longrightarrow> balances e s0 k \<Longrightarrow> balances e s0 (pseq m k)"
  by (simp add: pseq_def balances_bind)

lemma balances_if [balance_rules]:
  "balances e s0 m \<Longrightarrow> balances e s0 m' \<Longrightarrow> balances e s0 (if b then m else m')"
  by simp

lemma balances_option [balance_rules]:
  assumes "balances e s0 m" and "\<And>y. balances e s0 (f y)"
  shows "balances e s0 (case x of None \<Rightarrow> m | Some y \<Rightarrow> f y)"
  by (cases x) (simp_all only: option.case assms)

lemma balances_prod [balance_rules]:
  assumes "\<And>a b. balances e s0 (g a b)"
  shows "balances e s0 (case z of (a, b) \<Rightarrow> g a b)"
  by (cases z) (simp only: prod.case assms)

lemma balances_errors [balance_rules]:
  "balances e s0 (incomplete_here reason)" "balances e s0 (invalid_here message)"
  "balances e s0 (invalid_at sp message)" "balances e s0 (expected message reason)"
  unfolding incomplete_here_def invalid_here_def invalid_at_def expected_def incomplete_at_def here_span_def
  by (intro balance_rules)+

lemma balances_checkpoint:
  assumes "\<And>s. brackets_even e s0 s \<Longrightarrow> balances e s0 (k (ps_position s))"
  shows "balances e s0 (pbind (asks (\<lambda>e s. ps_position s)) k)"
proof -
  have "pbind (asks (\<lambda>e s. ps_position s)) k e s = k (ps_position s) e s" for s
    by (simp add: pbind_def asks_def)
  with assms show ?thesis unfolding balances_def by metis
qed

lemma balances_reset: "brackets_even e s0 s \<Longrightarrow> balances e s0 (updates (\<lambda>s'. s'\<lparr>ps_position := ps_position s\<rparr>))"
  by (auto simp: balances_def updates_def brackets_even_def)

lemma balances_rounds: "(\<And>a. balances e s0 (body a)) \<Longrightarrow> balances e s0 (rounds n body a)"
proof (induction n arbitrary: a)
  case (Suc n)
  have "balances e s0 (case r of Inl b \<Rightarrow> pure b | Inr a' \<Rightarrow> rounds n body a')" for r
    using Suc by (cases r) (auto intro: balance_rules)
  with Suc.prems show ?case by (auto intro: balance_rules)
qed (auto intro: balance_rules)

lemma balances_loop [balance_rules]: "(\<And>a. balances e s0 (body a)) \<Longrightarrow> balances e s0 (ploop body a)"
  using balances_rounds [of e s0 body "pe_fuel e" a] unfolding balances_def ploop_def by blast

section \<open>Taking and skipping tokens\<close>

abbreviation (input) bracket :: "token_kind \<Rightarrow> bool" where
  "bracket k \<equiv> k = TkDelimiter DlLeftBracket \<or> k = TkDelimiter DlRightBracket"

lemma brackets_even_Suc:
  assumes "current e s = Some t" and "\<not> bracket (tk_kind t)"
  shows "brackets_even e s (s\<lparr>ps_position := Suc (ps_position s)\<rparr>)"
proof -
  from assms(1) have "drop (ps_position s) (pe_tokens e) = t # drop (Suc (ps_position s)) (pe_tokens e)"
    by (auto simp: current_def Cons_nth_drop_Suc)
  with assms(2) show ?thesis by (simp add: brackets_even_def)
qed

lemma take_token_eq:
  "take_token e s =
     (case current e s of
        None \<Rightarrow> Parsed (Inr None) s
      | Some t \<Rightarrow> Parsed (Inr (Some t)) (s\<lparr>ps_position := Suc (ps_position s)\<rparr>))"
  by (auto simp: take_token_def pbind_def asks_def pure_def pseq_def move_position_def updates_def
      split: option.splits)

lemma take_kind_eq: "take_kind k e s = (if at_kind k e s then take_token e s else Parsed (Inr None) s)"
  by (simp add: take_kind_def pbind_def asks_def pure_def)

lemma balances_take_kind: "\<not> bracket k \<Longrightarrow> balances e s0 (take_kind k)"
  by (auto simp: balances_def take_kind_eq take_token_eq at_kind_def current_kind_def
      split: option.splits if_splits elim: brackets_even_trans intro: brackets_even_Suc)

lemma balances_takes [balance_rules]:
  "balances e s0 (take_operator op)" "balances e s0 (take_keyword kw)"
  "dl \<notin> {DlLeftBracket, DlRightBracket} \<Longrightarrow> balances e s0 (take_delimiter dl)"
  unfolding take_operator_def take_keyword_def take_delimiter_def by (rule balances_take_kind; simp)+

lemma parse_identifier_taken:
  assumes "parse_identifier e s = Parsed (Inr i) s'"
  obtains t where "current e s = Some t" "tk_kind t = TkIdentifier" "s' = s\<lparr>ps_position := Suc (ps_position s)\<rparr>"
proof (cases "current e s")
  case None
  with assms balances_errors(1) show ?thesis
    by (auto simp: parse_identifier_def pbind_def take_token_eq incomplete_here_def here_span_def
        incomplete_at_def fail_def asks_def pure_def span_between_def split: sum.splits)
next
  case (Some t)
  with assms that show ?thesis
    by (auto simp: parse_identifier_def pbind_def take_token_eq pure_def invalid_at_def fail_def
        split: if_splits)
qed

lemma balances_identifier [balance_rules]: "balances e s0 parse_identifier"
  unfolding balances_def
proof (intro allI impI)
  fix s x s'
  assume s: "brackets_even e s0 s" and "parse_identifier e s = Parsed (Inr x) s'"
  from this(2) obtain t where "current e s = Some t" "tk_kind t = TkIdentifier"
    "s' = s\<lparr>ps_position := Suc (ps_position s)\<rparr>" by (rule parse_identifier_taken)
  with brackets_even_Suc [of e s t] brackets_even_trans [OF s] show "brackets_even e s0 s'" by simp
qed

lemma skip_tokens_brackets:
  assumes "\<And>k. bracket k \<Longrightarrow> \<not> p k"
  shows "skip_bracket (drop (fst (skip_tokens p c ts pos n) - pos) ts) (Suc d) = skip_bracket ts (Suc d)"
proof (induction ts arbitrary: pos n)
  case (Cons t ts)
  show ?case
  proof (cases "p (tk_kind t) \<and> \<not> c n")
    case True
    with assms have "\<not> bracket (tk_kind t)" by blast
    moreover have "fst (skip_tokens p c ts (Suc pos) (Suc n)) - pos =
        Suc (fst (skip_tokens p c ts (Suc pos) (Suc n)) - Suc pos)"
      using skip_tokens_bound [of "Suc pos" p c ts "Suc n"] by linarith
    ultimately show ?thesis using True Cons.IH [of "Suc pos" "Suc n"] by simp
  qed auto
qed simp

lemma balances_skip_while: 
  assumes "\<And>k. bracket k \<Longrightarrow> \<not> p k"
  shows "balances e s0 (skip_while p)"
  unfolding balances_def
proof (intro allI impI)
  fix s s' :: parser_state and x
  let ?ts = "drop (ps_position s) (pe_tokens e)"
  let ?r = "skip_tokens p (pe_cancelled e) ?ts (ps_position s) (ps_polls s)"
  assume s: "brackets_even e s0 s" and "skip_while p e s = Parsed (Inr x) s'"
  then have s': "ps_position s' = fst ?r" "ps_depth s' = ps_depth s"
    by (auto simp: skip_while_def split: prod.splits)
  have "drop (fst ?r) (pe_tokens e) = drop (fst ?r - ps_position s) ?ts"
    using skip_tokens_bound [of "ps_position s" p "pe_cancelled e" ?ts "ps_polls s"] by simp
  then have "brackets_even e s s'"
    using s' skip_tokens_brackets [OF assms, where c = "pe_cancelled e" and ts = ?ts]
    by (simp add: brackets_even_def)
  with s show "brackets_even e s0 s'" by (rule brackets_even_trans)
qed

lemma balances_skips [balance_rules]: "balances e s0 skip_layout" "balances e s0 skip_inline"
proof -
  show "balances e s0 skip_layout"
    unfolding skip_layout_def by (rule balances_skip_while) (auto simp: is_inline_def)
  have "balances e s0 (skip_while (\<lambda>k. is_inline k \<or> (0 < n \<and> k = TkNewline)))" for n :: nat
    by (rule balances_skip_while) (auto simp: is_inline_def)
  then show "balances e s0 skip_inline" by (auto simp: balances_def skip_inline_def)
qed

section \<open>Type arguments\<close>

lemma balances_double_colon [balance_rules]: "balances e s0 take_double_colon"
  unfolding take_double_colon_def by (intro balance_rules)

lemma balances_qualified_round [balance_rules]: "balances e s0 (qualified_round acc)"
  unfolding qualified_round_def
  by (rule balances_checkpoint) (intro balance_rules balances_reset; assumption)

lemma balances_qualified_name [balance_rules]: "balances e s0 parse_qualified_name"
  unfolding parse_qualified_name_def by (intro balance_rules)

lemma balances_comma_list [balance_rules]:
  "balances e s0 item \<Longrightarrow> balances e s0 (comma_list stop item)"
  "balances e s0 item \<Longrightarrow> balances e s0 (comma_list1 stop item)"
  unfolding comma_list_def comma_list1_def comma_round_def by (intro balance_rules; assumption)+

lemma at_kind_drop:
  "at_kind k e s \<Longrightarrow> \<exists>t. current e s = Some t \<and> tk_kind t = k \<and>
     drop (ps_position s) (pe_tokens e) = t # drop (Suc (ps_position s)) (pe_tokens e)"
  by (auto simp: at_kind_def current_kind_def current_def Cons_nth_drop_Suc split: option.splits)

lemma expect_delimiter_taken:
  assumes "expect_delimiter dl message e s = Parsed (Inr t) s'"
  shows "at_kind (TkDelimiter dl) e s \<and> s' = s\<lparr>ps_position := Suc (ps_position s)\<rparr>"
proof -
  have no: "expected message InExpression e s \<noteq> Parsed (Inr t) s'" for s
    by (auto simp: expected_def pbind_def asks_def incomplete_here_def invalid_here_def here_span_def
        incomplete_at_def invalid_at_def fail_def pure_def span_between_def split: option.splits sum.splits
        parsed.splits if_splits)
  with assms show ?thesis
    by (auto simp: expect_delimiter_def expect_kind_def pbind_def take_kind_eq take_token_eq pure_def
        at_kind_def current_kind_def split: if_splits option.splits)
qed

text \<open>What stands between brackets closes them.\<close>

lemma brackets_even_nested:
  assumes l: "at_kind (TkDelimiter DlLeftBracket) e s" and r: "at_kind (TkDelimiter DlRightBracket) e s2"
    and b: "brackets_even e (s\<lparr>ps_position := Suc (ps_position s)\<rparr>) s2"
  shows "brackets_even e s (s2\<lparr>ps_position := Suc (ps_position s2)\<rparr>)"
proof -
  from at_kind_drop [OF l] at_kind_drop [OF r] obtain t t2 where
    "tk_kind t = TkDelimiter DlLeftBracket" "tk_kind t2 = TkDelimiter DlRightBracket"
    "drop (ps_position s) (pe_tokens e) = t # drop (Suc (ps_position s)) (pe_tokens e)"
    "drop (ps_position s2) (pe_tokens e) = t2 # drop (Suc (ps_position s2)) (pe_tokens e)" by blast
  with b show ?thesis by (simp add: brackets_even_def)
qed

lemma balances_bracketed:
  assumes m: "\<And>s1. balances e s1 m"
    and k: "\<And>x c. balances e s0 (k x c)" and none: "balances e s0 none"
  shows "balances e s0 (pbind (take_delimiter DlLeftBracket) (\<lambda>b. case b of None \<Rightarrow> none
    | Some _ \<Rightarrow> pseq skip_layout (pbind m (\<lambda>x. pbind (expect_delimiter DlRightBracket message) (k x)))))"
  unfolding balances_def
proof (intro allI impI)
  fix s y s'
  assume s: "brackets_even e s0 s" and run: "pbind (take_delimiter DlLeftBracket) (\<lambda>b. case b of None \<Rightarrow> none
    | Some _ \<Rightarrow> pseq skip_layout (pbind m (\<lambda>x. pbind (expect_delimiter DlRightBracket message) (k x)))) e s
    = Parsed (Inr y) s'"
  show "brackets_even e s0 s'"
  proof (cases "at_kind (TkDelimiter DlLeftBracket) e s")
    case False
    with run have "none e s = Parsed (Inr y) s'"
      by (simp add: pbind_def take_delimiter_def take_kind_eq)
    with none s show ?thesis unfolding balances_def by blast
  next
    case True
    let ?s = "s\<lparr>ps_position := Suc (ps_position s)\<rparr>"
    from at_kind_drop [OF True] obtain t0 where t0: "current e s = Some t0" by blast
    from run obtain u s1 x s2 t s3 where
      "skip_layout e ?s = Parsed (Inr u) s1" "m e s1 = Parsed (Inr x) s2"
      "expect_delimiter DlRightBracket message e s2 = Parsed (Inr t) s3" "k x t e s3 = Parsed (Inr y) s'"
      by (auto simp: pbind_def pseq_def take_delimiter_def take_kind_eq take_token_eq True t0
          split: parsed.splits sum.splits)
    moreover from this balances_skips(1) m have "brackets_even e ?s s2"
      by (blast dest: balancesD intro: brackets_even_trans)
    ultimately have "brackets_even e s s3"
      using brackets_even_nested [OF True] expect_delimiter_taken by blast
    with s have "brackets_even e s0 s3" by (rule brackets_even_trans)
    with k \<open>k x t e s3 = Parsed (Inr y) s'\<close> show ?thesis unfolding balances_def by blast
  qed
qed

lemma balances_type_reference: "balances e s0 (parse_type_reference_at n)"
proof (induction n arbitrary: s0)
  case (Suc n)
  show ?case
    unfolding parse_type_reference_at.simps Let_def
    by (intro balance_rules balances_bracketed Suc.IH)
qed (simp add: balance_rules)

lemma balances_parse_type_reference [balance_rules]: "balances e s0 parse_type_reference"
  using balances_type_reference [of e s0 "pe_fuel e"] by (simp add: balances_def parse_type_reference_def)

section \<open>The parenthesis behind the brackets\<close>

lemma skip_tokens_stop:
  assumes "find (\<lambda>t. \<not> p (tk_kind t)) ts = Some t" and "\<And>n. \<not> c n"
  shows "\<exists>i < length ts. fst (skip_tokens p c ts pos n) = pos + i \<and> ts ! i = t"
  using assms(1)
proof (induction ts arbitrary: pos n)
  case (Cons u ts)
  show ?case
  proof (cases "p (tk_kind u)")
    case True
    with Cons.prems have "find (\<lambda>t. \<not> p (tk_kind t)) ts = Some t" by simp
    from Cons.IH [OF this, of "Suc pos" "Suc n"] True assms(2) show ?thesis by force
  qed (use Cons.prems in auto)
qed simp

lemma explicit_type_arguments_parenthesis:
  assumes call: "bracket_is_followed_by_call e s" and l: "at_kind (TkDelimiter DlLeftBracket) e s"
    and c: "\<And>n. \<not> pe_cancelled e n"
    and run: "explicit_type_arguments e s = Parsed (Inr ts) s'"
  shows "at_delimiter (Some DlLeftParenthesis) e s'"
proof -
  let ?s = "s\<lparr>ps_position := Suc (ps_position s)\<rparr>"
  let ?s1 = "?s\<lparr>ps_depth := Suc (ps_depth s)\<rparr>"
  from run obtain u s2 x s3 t s4 where
    steps: "skip_layout e ?s1 = Parsed (Inr u) s2"
      "comma_list (at_delimiter (Some DlRightBracket)) parse_type_reference e s2 = Parsed (Inr x) s3"
      "expect_delimiter DlRightBracket ''explicit type arguments are not closed'' e s3 = Parsed (Inr t) s4"
    and last: "pseq leave_depth (pseq skip_inline (pure x)) e s4 = Parsed (Inr ts) s'"
    by (auto simp: explicit_type_arguments_def pbind_def pseq_def enter_depth_def updates_def
        move_position_def split: parsed.splits sum.splits)
  have b: "brackets_even e ?s1 s3"
    using balances_skips(1) balances_comma_list(1) [OF balances_parse_type_reference] steps(1,2)
    by (blast dest: balancesD intro: brackets_even_trans)
  from expect_delimiter_taken [OF steps(3)]
  have r: "at_kind (TkDelimiter DlRightBracket) e s3" and s4: "s4 = s3\<lparr>ps_position := Suc (ps_position s3)\<rparr>"
    by auto
  have depth: "ps_depth s4 = Suc (ps_depth s)" using b s4 by (simp add: brackets_even_def)
  from at_kind_drop [OF l] at_kind_drop [OF r] obtain a z where
    tok: "tk_kind a = TkDelimiter DlLeftBracket" "tk_kind z = TkDelimiter DlRightBracket"
    "drop (ps_position s) (pe_tokens e) = a # drop (Suc (ps_position s)) (pe_tokens e)"
    "drop (ps_position s3) (pe_tokens e) = z # drop (Suc (ps_position s3)) (pe_tokens e)" by blast
  with b have "skip_bracket (drop (ps_position s) (pe_tokens e)) 0 = (0, drop (ps_position s4) (pe_tokens e))"
    by (simp add: brackets_even_def s4)
  with call obtain t' where t': "find (\<lambda>t. \<not> (is_inline (tk_kind t) \<or> (0 < ps_depth s \<and> tk_kind t = TkNewline)))
      (drop (ps_position s4) (pe_tokens e)) = Some t'" "tk_kind t' = TkDelimiter DlLeftParenthesis"
    by (auto simp: bracket_is_followed_by_call_def is_some_and_def split: option.splits)
  have s': "ps_position s' = fst (skip_tokens (\<lambda>k. is_inline k \<or> (0 < ps_depth s \<and> k = TkNewline))
      (pe_cancelled e) (drop (ps_position s4) (pe_tokens e)) (ps_position s4) (ps_polls s4))"
    using last depth by (auto simp: pseq_def pbind_def leave_depth_def asks_def updates_def skip_inline_def
        skip_while_def pure_def split: prod.splits)
  let ?p = "\<lambda>k. is_inline k \<or> (0 < ps_depth s \<and> k = TkNewline)"
  have "\<exists>i < length (drop (ps_position s4) (pe_tokens e)).
      fst (skip_tokens ?p (pe_cancelled e) (drop (ps_position s4) (pe_tokens e)) (ps_position s4) (ps_polls s4)) =
        ps_position s4 + i \<and> drop (ps_position s4) (pe_tokens e) ! i = t'"
    by (rule skip_tokens_stop [OF _ c]) (rule t'(1))
  then show ?thesis using t'(2) s' by (auto simp: at_delimiter_def at_kind_def current_kind_def current_def)
qed

end
