(* ===== verification/Parser_Terms.thy ===== *)
theory Parser_Terms
  imports Parser_Brackets
begin

text \<open>
  The specifications of command items and stages, primary and postfix expressions, operators, pipelines
  and chains, and the induction that makes every \<open>syntax_level\<close> ready.
\<close>

section \<open>Commands\<close>

lemma parse_spread_item_node:
  assumes s: "cur e p d s" and i: "ps_position s < length (pe_tokens e)"
  shows "node e s parse_spread_item node_span (\<lambda>x _. grouped_item x)"
  unfolding parse_spread_item_def
  by (rule nodeI [OF s], intro conjI parser_steps parser_rules;
      (assumption | rule i | rule valid_span_bnd, assumption | linarith | simp)?)

lemmas parse_spread_item_rule [parser_rules] = parse_spread_item_node [THEN ok_node]

lemma parse_redirection_target_node:
  assumes R: "ready e n R" and b: "below e p n" and s: "cur e p d s" and sp: "valid_span e sp"
  shows "node e s (parse_redirection_target R sp) word_span (\<lambda>x _. grouped_word x)"
  unfolding parse_redirection_target_def
  by (rule nodeI [OF s], intro conjI parser_steps parser_rules;
      (assumption | rule R | rule below_cur [OF b s] | rule sp | linarith | simp)?)

lemmas parse_redirection_target_rule [parser_rules] = parse_redirection_target_node [THEN ok_node]

lemma redirection_kind_at_plain:
  assumes R: "ready e n R" and b: "below e p n" and s: "cur e p d s"
    and t: "valid_span e (tk_span operator)" "span_end (tk_span operator) \<le> off e s"
  shows "plain e s (redirection_kind_at R descriptor operator)
    (\<lambda>r s'. bnd e (snd r) \<and> span_end (tk_span operator) \<le> snd r \<and> snd r \<le> off e s' \<and>
       members grouped_word word_span (span_end (tk_span operator)) (snd r) (redirection_words (fst r)))"
  unfolding redirection_kind_at_def Let_def
  by (rule plainI [OF s], intro conjI parser_steps parser_rules;
      (assumption | rule R | rule below_cur [OF b s] | rule t | simp only: node_sels, (assumption | rule valid_span_bnd, assumption | insert t, linarith) | insert t, linarith | insert t, (simp; ((erule members_mono; linarith) | linarith)))?)

lemmas redirection_kind_at_rule [parser_rules] = redirection_kind_at_plain [THEN ok_plain]

lemma parse_redirection_item_node:
  assumes R: "ready e n R" and b: "below e p n" and s: "cur e p d s" and r: "starts_redirection e s"
  shows "node e s (parse_redirection_item R) node_span (\<lambda>x _. grouped_item x)"
  unfolding parse_redirection_item_def
  by (rule nodeI [OF s], intro conjI ok_case_pair ok_take_token parser_steps parser_rules;
      (assumption | rule R | rule below_cur [OF b s] | rule valid_span_bnd, assumption | linarith | ((elim conjE)?, simp; ((erule members_mono; linarith) | linarith)))?)

lemmas parse_redirection_item_rule [parser_rules] = parse_redirection_item_node [THEN ok_node]

lemma parse_command_item_node:
  assumes R: "ready e n R" and b: "below e p n" and s: "cur e p d s"
  shows "node e s (parse_command_item R) node_span (\<lambda>x _. grouped_item x)"
  unfolding parse_command_item_def
  by (rule nodeI [OF s], intro conjI parser_steps parser_rules;
      (assumption | rule R | rule below_cur [OF b s] | erule current_bound | linarith | simp)?)

lemmas parse_command_item_rule [parser_rules] = parse_command_item_node [THEN ok_node]

lemma ok_item_loop [parser_rules]:
  assumes R: "ready e n R" and b: "below e p n" and s: "cur e p d s"
    and a: "bnd e a" "a \<le> off e s"
    and Q: "\<And>stop items s'. cur e p d s' \<Longrightarrow> ps_position s \<le> ps_position s' \<Longrightarrow> ps_depth s \<le> ps_depth s' \<Longrightarrow>
      off e s \<le> off e s' \<Longrightarrow> bnd e stop \<Longrightarrow> a \<le> stop \<Longrightarrow> stop \<le> off e s' \<Longrightarrow>
      members grouped_item node_span a stop items \<Longrightarrow> Q (stop, items) s'"
  shows "ok e p d (ploop (item_round R) (a, [])) s Q"
proof -
  have b': "below e (ps_position s) n" by (rule below_cur [OF b s])
  let ?I = "\<lambda>(r :: nat \<times> command_item list) s'. bnd e (fst r) \<and> a \<le> fst r \<and> fst r \<le> off e s' \<and>
    members grouped_item node_span a (fst r) (snd r)"
  have "plain e s (ploop (item_round R) (a, [])) ?I"
  proof (rule plainI [OF s], rule ok_loop [where I = ?I])
    fix r s1
    assume s1: "cur e (ps_position s) (ps_depth s) s1" and I: "?I r s1"
    let ?P = "\<lambda>r s'. case r of Inl b \<Rightarrow> cur e (ps_position s) (ps_depth s) s' \<and> ?I b s'
      | Inr a' \<Rightarrow> cur e (ps_position s) (ps_depth s) s' \<and> ps_position s1 < ps_position s' \<and> ?I a' s'"
    have L: "?P (Inl r) s'" if "cur e (ps_position s) (ps_depth s) s'" "off e s1 \<le> off e s'" for s'
      using that I by simp
    have R': "?P (Inr (span_end (node_span x), snd r @ [x])) s'"
      if "cur e (ps_position s) (ps_depth s) s'" "ps_position s1 < ps_position s'" "valid_span e (node_span x)"
        "off e s1 \<le> span_start (node_span x)" "span_end (node_span x) \<le> off e s'" "grouped_item x" for x s'
      using that I valid_span_le [of e "node_span x"]
        members_mono [of grouped_item node_span a "fst r" "snd r" a "span_end (node_span x)"] by simp
    show "ok e (ps_position s) (ps_depth s) (item_round R r) s1 ?P"
      unfolding item_round_def
      by (intro parser_steps parser_rules L R';
          (assumption | rule s1 | rule R | rule b' | linarith | simp)?)
  qed (use a in auto)
  then show ?thesis by (rule ok_plain [OF _ s]) (metis Q prod.collapse)
qed

lemma bnd_off:
  assumes "env_ok e" shows "bnd e (token_offset e i)"
  using env_token(1,2) [OF assms, of i] valid_span_bnd(1)
  by (cases "i < length (pe_tokens e)") (metis, simp add: token_offset_def)

lemma ok_previous_end:
  assumes s: "cur e p d s" and pos: "p < ps_position s" and Q: "bnd e (off e s) \<Longrightarrow> Q (off e s) s"
  shows "ok e p d (asks previous_end) s Q"
proof (rule ok_asks)
  let ?i = "ps_position s - 1"
  have i: "?i < length (pe_tokens e)" "Suc ?i = ps_position s" using s pos by (auto simp: cur_def)
  then have "previous_end e s = off e s"
    using env_token(4) [OF cur_env [OF s] i(1)] by (simp add: previous_end_def get_nth_def)
  with Q bnd_off [OF cur_env [OF s]] show "Q (previous_end e s) s" by simp
qed

lemma starts_forced_bound: "starts_forced_command e s \<Longrightarrow> ps_position s < length (pe_tokens e)"
  by (auto simp: starts_forced_command_def next_token_is_def split: option.splits)

lemma parse_command_head_node:
  assumes R: "ready e n R" and b: "below e p n" and s: "cur e p d s"
  shows "node e s (parse_command_head R) ch_span
    (\<lambda>x _. grouped_word (ch_word x) \<and> inside (ch_span x) (word_span (ch_word x)))"
proof -
  have forced: "ok e q c (asks starts_forced_command) s Q"
    if "Q False s" "ps_position s < length (pe_tokens e) \<Longrightarrow> Q True s" for q c Q
    using that starts_forced_bound [of e s] by (intro ok_asks) (cases "starts_forced_command e s"; simp)
  show ?thesis
    unfolding parse_command_head_def
    by (rule nodeI [OF s], intro conjI forced ok_previous_end parser_steps parser_rules;
        (assumption | rule R | rule below_cur [OF b s] | rule valid_span_bnd, assumption
          | simp only: node_sels option.case option.sel, (assumption | rule valid_span_bnd, assumption | linarith)
          | linarith | simp add: is_some_and_def)?)
qed

lemmas parse_command_head_rule [parser_rules] = parse_command_head_node [THEN ok_node]

lemma parse_command_stage_node:
  assumes R: "ready e n R" and b: "below e p n" and s: "cur e p d s"
  shows "node e s (parse_command_stage R) node_span (\<lambda>x _. grouped_stage x)"
  unfolding parse_command_stage_def
  by (rule nodeI [OF s], intro conjI ok_case_pair parser_steps parser_rules;
      (assumption | rule R | rule below_cur [OF b s] | rule valid_span_bnd, assumption | linarith | (simp; ((erule members_mono; linarith) | linarith)))?)

lemmas parse_command_stage_rule [parser_rules] = parse_command_stage_node [THEN ok_node]

section \<open>Primary expressions\<close>

text \<open>
  The value of the rounds of \<open>parse_postfix\<close>: a name keeps the span of its first segment.
\<close>

definition named :: "parser_env \<Rightarrow> expression \<Rightarrow> bool" where
  "named e x \<longleftrightarrow>
     (\<forall>q. name_of x = Some q \<longrightarrow>
        qn_span q = node_span x \<and> qn_segments q \<noteq> [] \<and>
        valid_span e (ident_span (hd (qn_segments q))) \<and>
        span_start (ident_span (hd (qn_segments q))) = span_start (node_span x))"

abbreviation operand :: "parser_env \<Rightarrow> expression \<Rightarrow> bool" where
  "operand e x \<equiv> grouped x \<and> level x = 6 \<and> named e x"

lemma named_other [simp]:
  "name_of x = None \<Longrightarrow> named e x"
  "named e (AstNode (EkSymbol i) (ident_span i)) \<longleftrightarrow> valid_span e (ident_span i)"
  by (auto simp: named_def)

text \<open>The elements of a list are grouped and lie where the list was read.\<close>

lemma ok_grouped_list [parser_rules]:
  assumes p: "p < ps_position s" and R: "ready e n R" and b: "below e p n" and s: "cur e p d s"
    and Q: "\<And>xs s'. cur e p d s' \<Longrightarrow> ps_position s \<le> ps_position s' \<Longrightarrow> ps_depth s \<le> ps_depth s' \<Longrightarrow>
      off e s \<le> off e s' \<Longrightarrow> members grouped node_span (off e s) (off e s') xs \<Longrightarrow> Q xs s'"
  shows "ok e p d (comma_list stop (sp_expression R)) s Q"
  by (rule ok_members [OF s]) (use p ready_nodes(1) [OF _ R b] in \<open>auto intro: Q\<close>)

lemma parse_list_node:
  assumes R: "ready e n R" and b: "below e p n" and s: "cur e p d s"
    and i: "ps_position s < length (pe_tokens e)"
  shows "node e s (parse_list R) node_span (\<lambda>x _. operand e x)"
  unfolding parse_list_def
  by (rule nodeI [OF s], intro conjI ok_grouped_list parser_steps parser_rules;
      (assumption | rule i | rule R | rule below_cur [OF b s] | rule valid_span_bnd, assumption | linarith | (simp; ((erule members_mono; linarith) | linarith)))?)

lemma parse_record_key_node:
  assumes R: "ready e n R" and b: "below e p n" and s: "cur e p d s"
  shows "plain e s (parse_record_key R) (\<lambda>k s'. ps_position s < ps_position s' \<and>
    members grouped_part node_span (off e s) (off e s') (quoted_key k))"
  unfolding parse_record_key_def
  by (rule plainI [OF s], intro conjI ok_case_pair parser_steps parser_rules;
      (assumption | rule R | rule below_cur [OF b s] | linarith | simp)?)

lemmas parse_record_key_rule [parser_rules] = parse_record_key_node [THEN ok_plain]

lemma parse_record_entry_node:
  assumes R: "ready e n R" and b: "below e p n" and s: "cur e p d s"
  shows "node e s (parse_record_entry R) re_span (\<lambda>x _. grouped_entry x)"
  unfolding parse_record_entry_def
  by (rule nodeI [OF s], intro conjI parser_steps parser_rules;
      (assumption | rule R | rule below_cur [OF b s] | rule valid_span_bnd, assumption | linarith | ((elim conjE)?, simp; ((erule members_mono; linarith) | linarith)))?)

lemma ok_entry_list [parser_rules]:
  assumes R: "ready e n R" and b: "below e p n" and s: "cur e p d s"
    and Q: "\<And>xs s'. cur e p d s' \<Longrightarrow> ps_position s \<le> ps_position s' \<Longrightarrow> ps_depth s \<le> ps_depth s' \<Longrightarrow>
      off e s \<le> off e s' \<Longrightarrow> members grouped_entry re_span (off e s) (off e s') xs \<Longrightarrow> Q xs s'"
  shows "ok e p d (comma_list stop (parse_record_entry R)) s Q"
  by (rule ok_members [OF s parse_record_entry_node [OF R b]]) (auto intro: Q)

lemma parse_record_node:
  assumes R: "ready e n R" and b: "below e p n" and s: "cur e p d s"
    and i: "ps_position s < length (pe_tokens e)"
  shows "node e s (parse_record R) node_span (\<lambda>x _. operand e x)"
  unfolding parse_record_def
  by (rule nodeI [OF s], intro conjI ok_entry_list parser_steps parser_rules;
      (assumption | rule i | rule R | rule below_cur [OF b s] | rule valid_span_bnd, assumption | linarith | (simp; ((erule members_mono; linarith) | linarith)))?)

lemma parse_grouped_job_node:
  assumes R: "ready e n R" and b: "below e p n" and s: "cur e p d s"
    and i: "ps_position s < length (pe_tokens e)"
  shows "node e s (parse_grouped_job R) node_span (\<lambda>x _. operand e x)"
  unfolding parse_grouped_job_def
  by (rule nodeI [OF s], intro conjI parser_steps parser_rules;
      (assumption | rule i | rule R | rule below_cur [OF b s] | rule valid_span_bnd, assumption | linarith | simp)?)

lemmas primary_rules [parser_rules] =
  parse_list_node [THEN ok_node] parse_record_node [THEN ok_node] parse_grouped_job_node [THEN ok_node]

lemma parse_primary_node:
  assumes R: "ready e n R" and b: "below e p n" and s: "cur e p d s"
  shows "node e s (parse_primary R) node_span (\<lambda>x _. operand e x)"
  unfolding parse_primary_def
  by (rule nodeI [OF s], intro conjI ok_case_pair parser_steps parser_rules;
      (assumption | rule R | rule below_cur [OF b s] | erule current_bound | linarith | simp)?)

lemmas parse_primary_rule [parser_rules] = parse_primary_node [THEN ok_node]

section \<open>Postfix expressions\<close>

text \<open>The invariant of the loop, and what one of its rounds leaves.\<close>

definition postfix_inv :: "parser_env \<Rightarrow> nat \<Rightarrow> expression \<Rightarrow> parser_state \<Rightarrow> bool" where
  "postfix_inv e a x s \<longleftrightarrow>
     operand e x \<and> valid_span e (node_span x) \<and> a \<le> span_start (node_span x) \<and> span_end (node_span x) \<le> off e s"

definition postfix_post ::
  "parser_env \<Rightarrow> nat \<Rightarrow> nat \<Rightarrow> nat \<Rightarrow> parser_state \<Rightarrow> expression + expression \<Rightarrow> parser_state \<Rightarrow> bool" where
  "postfix_post e p d a s1 r s' \<longleftrightarrow>
     (case r of
        Inl y \<Rightarrow> cur e p d s' \<and> postfix_inv e a y s'
      | Inr y \<Rightarrow> cur e p d s' \<and> ps_position s1 < ps_position s' \<and> postfix_inv e a y s')"

lemma postfix_goes_on:
  "cur e p d s' \<Longrightarrow> ps_position s1 < ps_position s' \<Longrightarrow> valid_span e (node_span y) \<Longrightarrow>
     a \<le> span_start (node_span y) \<Longrightarrow> span_end (node_span y) \<le> off e s' \<Longrightarrow> operand e y \<Longrightarrow>
     postfix_post e p d a s1 (Inr y) s'"
  by (simp add: postfix_post_def postfix_inv_def)

lemma postfix_ends:
  "cur e p d s' \<Longrightarrow> off e s1 \<le> off e s' \<Longrightarrow> postfix_inv e a y s1 \<Longrightarrow> postfix_post e p d a s2 (Inl y) s'"
  by (simp add: postfix_post_def postfix_inv_def)

lemma postfix_name:
  assumes "postfix_inv e a x s" and "name_of x = Some q"
  shows "qn_segments q \<noteq> []" "valid_span e (qn_span q)" "a \<le> span_start (qn_span q)"
    "span_start (qn_span q) \<le> span_end (qn_span q)" "span_end (qn_span q) \<le> off e s"
    "valid_span e (ident_span (hd (qn_segments q)))"
    "span_start (ident_span (hd (qn_segments q))) = span_start (qn_span q)"
  using assms valid_span_le [of e "node_span x"] by (auto simp: postfix_inv_def named_def)

lemma postfix_segment_ok:
  assumes s: "cur e p d s" and i: "ps_position s < length (pe_tokens e)" and x: "postfix_inv e a x s"
    and q: "name_of x = Some q"
  shows "ok e p d (postfix_segment q x) s (postfix_post e p d a s)"
proof -
  note name = postfix_name [OF x q]
  from name(1) obtain first others where seg: "qn_segments q = first # others" by (cases "qn_segments q") simp
  have first: "valid_span e (ident_span first)" "span_start (ident_span first) \<le> off e s"
    "a \<le> span_start (ident_span first)"
    using name seg by simp_all
  have named': "operand e (AstNode (EkQualified (QualifiedName (first # others @ [i]) sp)) sp)"
    if "span_start sp = span_start (ident_span first)" for i sp
    using first(1) that by (simp add: named_def)
  show ?thesis
    unfolding postfix_segment_def seg list.case
    by (intro ok_updates parser_steps parser_rules s i postfix_goes_on postfix_ends [OF _ _ x];
        (assumption | rule cur_reset [OF s] | rule valid_span_bnd, (assumption | rule first) | insert first(2,3), linarith
          | simp only: node_sels, (assumption | insert first(2,3), linarith) | simp add: first named')?)
qed

lemma parse_nominal_field_node:
  assumes R: "ready e n R" and b: "below e p n" and s: "cur e p d s"
  shows "node e s (parse_nominal_field R) nf_span (\<lambda>x _. grouped_field x)"
  unfolding parse_nominal_field_def
  by (rule nodeI [OF s], intro conjI parser_steps parser_rules;
      (assumption | rule R | rule below_cur [OF b s] | rule valid_span_bnd, assumption | linarith | simp)?)

lemma ok_field_list [parser_rules]:
  assumes R: "ready e n R" and b: "below e p n" and s: "cur e p d s"
    and Q: "\<And>xs s'. cur e p d s' \<Longrightarrow> ps_position s \<le> ps_position s' \<Longrightarrow> ps_depth s \<le> ps_depth s' \<Longrightarrow>
      off e s \<le> off e s' \<Longrightarrow> members grouped_field nf_span (off e s) (off e s') xs \<Longrightarrow> Q xs s'"
  shows "ok e p d (comma_list stop (parse_nominal_field R)) s Q"
  by (rule ok_members [OF s parse_nominal_field_node [OF R b]]) (auto intro: Q)

lemma cur_depth: "cur e p d s \<Longrightarrow> d \<le> ps_depth s"
  by (simp add: cur_def)

lemma postfix_record_ok:
  assumes R: "ready e n R" and b: "below e p n" and s: "cur e p d s"
    and i: "ps_position s < length (pe_tokens e)" and x: "postfix_inv e a x s" and q: "name_of x = Some q"
  shows "ok e p d (postfix_record R q) s (postfix_post e p d a s)"
proof -
  note name = postfix_name [OF x q]
  show ?thesis
    unfolding postfix_record_def
    by (intro ok_field_list parser_steps parser_rules s i postfix_goes_on;
        (assumption | rule R | rule b | rule valid_span_bnd, (assumption | rule name) | insert name(3-5) cur_depth [OF s], linarith
          | simp only: node_sels, (assumption | insert name(3-5), linarith) | insert name(3-5), (simp; ((erule members_mono; linarith) | linarith)))?)
qed

lemma postfix_span:
  assumes "postfix_inv e a x s"
  shows "valid_span e (node_span x)" "a \<le> span_start (node_span x)" "span_start (node_span x) \<le> span_end (node_span x)"
    "span_end (node_span x) \<le> off e s" "grouped x" "level x = 6"
  using assms valid_span_le [of e "node_span x"] by (simp_all add: postfix_inv_def)

lemma postfix_call_ok:
  assumes R: "ready e n R" and b: "below e p n" and s: "cur e p d s"
    and i: "ps_position s < length (pe_tokens e)" and x: "postfix_inv e a x s"
  shows "ok e p d (postfix_call R types x) s (postfix_post e p d a s)"
  unfolding postfix_call_def
  by (intro ok_grouped_list parser_steps parser_rules s i postfix_goes_on;
      (assumption | rule R | rule b | rule valid_span_bnd, (assumption | rule postfix_span [OF x])
        | insert cur_pos [OF s] postfix_span(2-4) [OF x] cur_depth [OF s], linarith
        | simp only: node_sels, (assumption | insert postfix_span(2-4) [OF x], linarith) | insert postfix_span(2-4) [OF x],
          (simp add: postfix_span(1,5,6) [OF x]; ((erule members_mono; linarith) | linarith)))?)

lemma postfix_index_ok:
  assumes R: "ready e n R" and b: "below e p n" and s: "cur e p d s"
    and i: "ps_position s < length (pe_tokens e)" and x: "postfix_inv e a x s"
  shows "ok e p d (postfix_index R x) s (postfix_post e p d a s)"
  unfolding postfix_index_def
  by (intro parser_steps parser_rules s i postfix_goes_on;
      (assumption | rule R | rule b | rule valid_span_bnd, (assumption | rule postfix_span [OF x])
        | insert cur_pos [OF s] postfix_span(2-4) [OF x] cur_depth [OF s], linarith
        | simp only: node_sels, (assumption | insert postfix_span(2-4) [OF x], linarith) | insert postfix_span(2-4) [OF x],
          (simp add: postfix_span(1,5,6) [OF x]; ((erule members_mono; linarith) | linarith)))?)

lemma postfix_member_ok:
  assumes s: "cur e p d s" and i: "ps_position s < length (pe_tokens e)" and x: "postfix_inv e a x s"
  shows "ok e p d (postfix_member x) s (postfix_post e p d a s)"
  unfolding postfix_member_def
  by (intro parser_steps parser_rules s i postfix_goes_on;
      (assumption | rule valid_span_bnd, (assumption | rule postfix_span [OF x])
        | insert postfix_span(2-4) [OF x], linarith
        | simp only: node_sels, (assumption | insert postfix_span(2-4) [OF x], linarith) | insert postfix_span(2-4) [OF x],
          (simp add: postfix_span(1,5,6) [OF x]; ((erule members_mono; linarith) | linarith)))?)

lemma ok_with:
  "ok e p d m s Q \<Longrightarrow> (\<And>x s'. m e s = Parsed (Inr x) s' \<Longrightarrow> A x s') \<Longrightarrow> ok e p d m s (\<lambda>x s'. Q x s' \<and> A x s')"
  by (auto simp: ok_def split: parsed.splits sum.splits)

lemma ok_explicit_type_arguments:
  assumes s: "cur e p d s" and l: "at_kind (TkDelimiter DlLeftBracket) e s"
    and c: "bracket_is_followed_by_call e s"
    and Q: "\<And>ts s'. cur e p d s' \<Longrightarrow> ps_position s < ps_position s' \<Longrightarrow> off e s \<le> off e s' \<Longrightarrow>
      at_delimiter (Some DlLeftParenthesis) e s' \<Longrightarrow> Q ts s'"
  shows "ok e p d explicit_type_arguments s Q"
proof -
  have i: "ps_position s < length (pe_tokens e)" using l by (rule current_bound)
  have nc: "\<not> pe_cancelled e n" for n using cur_env [OF s] by (simp add: env_ok_def)
  have A: "ok e p d explicit_type_arguments s
      (\<lambda>_ s'. cur e p d s' \<and> ps_position s < ps_position s' \<and> off e s \<le> off e s')"
    unfolding explicit_type_arguments_def
    by (intro conjI parser_steps parser_rules s i;
        (assumption | insert cur_depth [OF s], linarith)?)
  have B: "at_delimiter (Some DlLeftParenthesis) e s'" if "explicit_type_arguments e s = Parsed (Inr ts) s'" for ts s'
    by (rule explicit_type_arguments_parenthesis [OF c l nc that])
  from ok_with [OF A, where A = "\<lambda>_ s'. at_delimiter (Some DlLeftParenthesis) e s'", OF B] show ?thesis
    by (rule ok_weaken) (use Q in auto)
qed

lemma postfix_post_later:
  "postfix_post e p d a s2 r s' \<Longrightarrow> ps_position s1 \<le> ps_position s2 \<Longrightarrow> postfix_post e p d a s1 r s'"
  by (auto simp: postfix_post_def split: sum.splits)

lemma postfix_inv_later: "postfix_inv e a x s \<Longrightarrow> off e s \<le> off e s' \<Longrightarrow> postfix_inv e a x s'"
  by (auto simp: postfix_inv_def)

lemma postfix_bracket_ok:
  assumes R: "ready e n R" and b: "below e p n" and s: "cur e p d s"
    and l: "at_kind (TkDelimiter DlLeftBracket) e s" and x: "postfix_inv e a x s"
  shows "ok e p d (postfix_bracket R x) s (postfix_post e p d a s)"
proof -
  have i: "ps_position s < length (pe_tokens e)" using l by (rule current_bound)
  have call: "ok e p d (postfix_call R types x) s' (postfix_post e p d a s)"
    if "cur e p d s'" "ps_position s < ps_position s'" "off e s \<le> off e s'"
      "at_delimiter (Some DlLeftParenthesis) e s'" for types s'
  proof (rule ok_weaken [OF postfix_call_ok [OF R b that(1) _ postfix_inv_later [OF x that(3)]] order_refl order_refl])
    show "ps_position s' < length (pe_tokens e)" using that(4) by (rule current_bound)
  qed (use that(2) in \<open>auto elim: postfix_post_later\<close>)
  have index: "ok e p d (postfix_index R x) s (postfix_post e p d a s)"
    by (rule postfix_index_ok [OF R b s i x])
  show ?thesis
    unfolding postfix_bracket_def
    by (intro ok_bind ok_asks ok_if index ok_explicit_type_arguments [OF s l] call; (assumption | simp)?)
qed

lemma postfix_round_ok:
  assumes R: "ready e n R" and b: "below e p n" and s: "cur e p d s" and x: "postfix_inv e a x s"
  shows "ok e p d (postfix_round R x) s (postfix_post e p d a s)"
proof -
  have rest: "ok e p d m s' (postfix_post e p d a s)"
    if "ps_position s \<le> ps_position s'" "ok e p d m s' (postfix_post e p d a s')" for m s'
    using that by (auto elim!: ok_weaken postfix_post_later)
  show ?thesis
    unfolding postfix_round_def
    apply (rule ok_seq, rule ok_check_cancelled [OF s], rule ok_seq, rule ok_skips, assumption)
    apply (rule ok_bind, rule ok_asks)
    subgoal premises prems for s1 s2
    proof -
      have s2: "cur e p d s2" "ps_position s \<le> ps_position s2" "off e s \<le> off e s2" using prems by simp_all
      have x2: "postfix_inv e a x s2" by (rule postfix_inv_later [OF x s2(3)])
      have i2: "ps_position s2 < length (pe_tokens e)" if "current_kind e s2 = Some k" for k
        using that by (rule current_bound)
      show ?thesis
        by (rule rest [OF s2(2)])
          (auto intro!: ok_if postfix_segment_ok postfix_record_ok postfix_call_ok postfix_bracket_ok postfix_member_ok
            ok_pure R b s2 x2 i2 postfix_ends [OF s2(1) order_refl x2] simp: at_kind_def)
    qed
    done
qed

lemma ok_postfix_loop:
  assumes R: "ready e n R" and b: "below e p n" and s: "cur e p d s" and x: "postfix_inv e a x s"
  shows "ok e p d (ploop (postfix_round R) x) s (\<lambda>y s'. cur e p d s' \<and> postfix_inv e a y s')"
  by (rule ok_loop [OF s, where I = "postfix_inv e a"], rule x,
      rule ok_weaken [OF postfix_round_ok [OF R b]])
    (auto simp: postfix_post_def split: sum.splits)

lemma parse_postfix_node:
  assumes R: "ready e n R" and b: "below e p n" and s: "cur e p d s"
  shows "node e s (parse_postfix R) node_span (\<lambda>x _. grouped x \<and> level x = 6)"
proof -
  let ?p = "ps_position s" and ?d = "ps_depth s"
  have loop: "ok e ?p ?d (ploop (postfix_round R) x) s1 (\<lambda>y s'. cur e ?p ?d s' \<and> ?p < ps_position s' \<and>
      valid_span e (node_span y) \<and> off e s \<le> span_start (node_span y) \<and> span_end (node_span y) \<le> off e s' \<and>
      grouped y \<and> level y = 6)"
    if "cur e ?p ?d s1" "?p < ps_position s1" "postfix_inv e (off e s) x s1" for x s1
  proof (rule ok_weaken [OF ok_postfix_loop [OF R]])
    show "below e (Suc ?p) n" using below_cur [OF b s] by (simp add: below_def)
    show "cur e (Suc ?p) ?d s1" using that(1,2) by (simp add: cur_def)
    show "postfix_inv e (off e s) x s1" by (rule that(3))
  qed (auto simp: cur_def postfix_inv_def)
  show ?thesis
    unfolding parse_postfix_def
    by (rule nodeI [OF s], intro loop parser_steps parser_rules;
        (assumption | rule R | rule below_cur [OF b s] | linarith | simp add: postfix_inv_def)?)
qed

lemmas parse_postfix_rule [parser_rules] = parse_postfix_node [THEN ok_node]

section \<open>Operators\<close>

lemma parse_unary_node:
  assumes R: "ready e n R" and b: "below e p n" and s: "cur e p d s"
  shows "node e s (parse_unary R) node_span (\<lambda>x _. grouped x \<and> 5 \<le> level x)"
  unfolding parse_unary_def
  by (rule nodeI [OF s], intro conjI parser_steps parser_rules;
      (assumption | rule R | rule below_cur [OF b s] | rule valid_span_bnd, assumption | linarith | simp)?)

text \<open>\<open>m\<close> reads operands that bind at level \<open>k\<close> or tighter; \<open>f\<close> recognises the operators of level \<open>k\<close>.\<close>

definition operands :: "parser_env \<Rightarrow> nat \<Rightarrow> nat \<Rightarrow> expression parser \<Rightarrow> nat \<Rightarrow> bool" where
  "operands e p d m k \<longleftrightarrow>
     (\<forall>s. cur e p d s \<longrightarrow> node e s m node_span (\<lambda>x _. grouped x \<and> k \<le> level x))"

definition operators :: "(token_kind \<Rightarrow> binary_operator option) \<Rightarrow> nat \<Rightarrow> bool" where
  "operators f k \<longleftrightarrow> (\<forall>t op. f t = Some op \<longrightarrow> operator_level op = k)"

lemma operators_level:
  "operators multiplicative_operator 4" "operators additive_operator 3" "operators range_operator 2"
  "operators comparison_operator 1" "operators equality_operator 0"
  by (auto simp: operators_def multiplicative_operator_def additive_operator_def range_operator_def
      comparison_operator_def equality_operator_def split: if_splits)

lemma operands_at:
  "operands e p d m k \<Longrightarrow> p \<le> p' \<Longrightarrow> d \<le> d' \<Longrightarrow> cur e p' d' s \<Longrightarrow>
     node e s m node_span (\<lambda>x _. grouped x \<and> k \<le> level x)"
  by (auto simp: operands_def dest: cur_weaken)

lemma bind_operator: "Option.bind k f = Some op \<Longrightarrow> \<exists>t. k = Some t \<and> f t = Some op"
  by (cases k) auto

lemma ok_binary [parser_rules]:
  assumes "valid_span e (node_span l)" "valid_span e (node_span r)" "span_start (node_span l) \<le> span_end (node_span r)"
    and "\<And>sp. valid_span e sp \<Longrightarrow> span_start sp = span_start (node_span l) \<Longrightarrow> span_end sp = span_end (node_span r) \<Longrightarrow>
      Q (AstNode (EkBinary l (AstNode op osp) r) sp) s"
  shows "ok e p d (binary l op osp r) s Q"
  unfolding binary_def by (intro parser_rules assms valid_span_bnd)

lemma ok_operator:
  assumes "ok e p d m s Q"
    and "\<And>op. Option.bind (current_kind e s) f = Some op \<Longrightarrow> ps_position s < length (pe_tokens e) \<Longrightarrow> ok e p d (g op) s Q"
  shows "ok e p d (pbind (asks current_kind) (\<lambda>k. case Option.bind k f of None \<Rightarrow> m | Some op \<Rightarrow> g op)) s Q"
proof (rule ok_bind, rule ok_asks, cases "Option.bind (current_kind e s) f")
  case (Some op)
  with bind_operator [OF Some] assms(2) [OF Some] show "ok e p d
      (case Option.bind (current_kind e s) f of None \<Rightarrow> m | Some op \<Rightarrow> g op) s Q"
    by (auto intro: current_bound)
qed (simp add: assms(1))

lemma ok_poll:
  assumes s: "cur e p d s"
    and Q: "\<And>s'. cur e p d s' \<Longrightarrow> ps_position s \<le> ps_position s' \<Longrightarrow> ps_depth s \<le> ps_depth s' \<Longrightarrow>
      off e s \<le> off e s' \<Longrightarrow> Q () s'"
  shows "ok e p d check_cancelled s Q"
  by (rule ok_check_cancelled [OF s]) (auto intro!: Q)

lemma left_round_ok:
  assumes m: "operands e p d m (Suc k)" and f: "operators f k" and k: "3 \<le> k" and s: "cur e p d s"
    and x: "valid_span e (node_span x)" "a \<le> span_start (node_span x)" "span_end (node_span x) \<le> off e s"
      "grouped x" "k \<le> level x"
  shows "ok e p d (left_round f m x) s (\<lambda>r s'. case r of
      Inl y \<Rightarrow> cur e p d s' \<and> off e s \<le> off e s' \<and> y = x
    | Inr y \<Rightarrow> cur e p d s' \<and> ps_position s < ps_position s' \<and> valid_span e (node_span y) \<and>
        a \<le> span_start (node_span y) \<and> span_end (node_span y) \<le> off e s' \<and> grouped y \<and> k \<le> level y)"
proof -
  note le = valid_span_le [OF x(1)] x(2,3)
  have level: "operator_level op = k" if "Option.bind t f = Some op" for t op
    using bind_operator [OF that] f by (auto simp: operators_def)
  have comb: "grouped (AstNode (EkBinary x (AstNode op osp) r) sp) \<and> k \<le> level (AstNode (EkBinary x (AstNode op osp) r) sp)"
    if "Option.bind t f = Some op" "grouped r" "Suc k \<le> level r" "off e s \<le> span_start osp"
      "span_end osp \<le> span_start (node_span r)" "span_start sp = span_start (node_span x)"
      "span_end sp = span_end (node_span r)" for t op r osp sp
    using that x(3-5) k by (auto simp: level)
  let ?P = "\<lambda>r s'. case r of
      Inl y \<Rightarrow> cur e p d s' \<and> off e s \<le> off e s' \<and> y = x
    | Inr y \<Rightarrow> cur e p d s' \<and> ps_position s < ps_position s' \<and> valid_span e (node_span y) \<and>
        a \<le> span_start (node_span y) \<and> span_end (node_span y) \<le> off e s' \<and> grouped y \<and> k \<le> level y"
  have L: "?P (Inl x) s'" if "cur e p d s'" "off e s \<le> off e s'" for s'
    using that by simp
  have R: "?P (Inr (AstNode (EkBinary x (AstNode op osp) r) sp)) s'"
    if "cur e p d s'" "Option.bind t f = Some op" "valid_span e sp" "span_start sp = span_start (node_span x)"
      "span_end sp = span_end (node_span r)" "span_end (node_span r) \<le> off e s'" "grouped r \<and> Suc k \<le> level r"
      "ps_position s < ps_position s'" "off e s \<le> span_start osp" "span_end osp \<le> span_start (node_span r)"
    for t op osp r sp s'
    using that comb [OF that(2) _ _ that(9,10,4,5)] x(2)
    by (simp only: sum.case node_sels simp_thms)
  show ?thesis
    unfolding left_round_def
    by (intro ok_operator ok_poll parser_steps parser_rules L R ok_node [OF operands_at [OF m order_refl order_refl]];
        (assumption | rule s | rule x | insert le, linarith | simp)?)
qed

lemma left_associative_node:
  assumes m: "operands e p d m (Suc k)" and f: "operators f k" and k: "3 \<le> k" and s: "cur e p d s"
  shows "node e s (left_associative f m) node_span (\<lambda>x _. grouped x \<and> k \<le> level x)"
proof -
  let ?p = "ps_position s" and ?d = "ps_depth s"
  have pd: "p \<le> Suc ?p" "p \<le> ?p" "d \<le> ?d" using s by (simp_all add: cur_def)
  have ops: "operands e (Suc ?p) ?d m (Suc k)"
    unfolding operands_def by (auto intro: operands_at [OF m pd(1,3)])
  let ?I = "\<lambda>y s'. valid_span e (node_span y) \<and> off e s \<le> span_start (node_span y) \<and>
    span_end (node_span y) \<le> off e s' \<and> grouped y \<and> k \<le> level y"
  have loop: "ok e ?p ?d (ploop (left_round f m) x) s1 (\<lambda>y s'. cur e ?p ?d s' \<and> ?p < ps_position s' \<and> ?I y s')"
    if "cur e ?p ?d s1" "?p < ps_position s1" "?I x s1" for x s1
  proof (rule ok_weaken [of e "Suc ?p" ?d _ _ "\<lambda>y s'. cur e (Suc ?p) ?d s' \<and> ?I y s'"], rule ok_loop [where I = ?I])
    show "cur e (Suc ?p) ?d s1" using that(1,2) by (simp add: cur_def)
    fix y s2
    assume "cur e (Suc ?p) ?d s2" "?I y s2"
    then show "ok e (Suc ?p) ?d (left_round f m y) s2 (\<lambda>r s'. case r of Inl b \<Rightarrow> cur e (Suc ?p) ?d s' \<and> ?I b s'
      | Inr a' \<Rightarrow> cur e (Suc ?p) ?d s' \<and> ps_position s2 < ps_position s' \<and> ?I a' s')"
      by (intro ok_weaken [OF left_round_ok [OF ops f k, where a = "off e s"]]) (auto split: sum.splits)
  qed (use that in \<open>auto simp: cur_def\<close>)
  show ?thesis
    unfolding left_associative_def
    by (rule nodeI [OF s], intro loop parser_steps parser_rules ok_node [OF operands_at [OF m pd(2,3)]];
        (assumption | linarith | simp)?)
qed

lemma non_associative_node:
  assumes m: "operands e p d m (Suc k)" and f: "operators f k" and k: "k < 3" and s: "cur e p d s"
  shows "node e s (non_associative f message m) node_span (\<lambda>x _. grouped x \<and> k \<le> level x)"
proof -
  let ?p = "ps_position s" and ?d = "ps_depth s"
  have pd: "p \<le> ?p" "d \<le> ?d" using s by (simp_all add: cur_def)
  let ?P = "\<lambda>y s'. cur e ?p ?d s' \<and> ?p < ps_position s' \<and> valid_span e (node_span y) \<and>
    off e s \<le> span_start (node_span y) \<and> span_end (node_span y) \<le> off e s' \<and> grouped y \<and> k \<le> level y"
  have B: "?P (AstNode (EkBinary x (AstNode op osp) r) sp) s'"
    if "cur e ?p ?d s'" "Option.bind t f = Some op" "valid_span e sp" "span_start sp = span_start (node_span x)"
      "span_end sp = span_end (node_span r)" "grouped x \<and> Suc k \<le> level x" "grouped r \<and> Suc k \<le> level r"
      "span_end (node_span r) \<le> off e s'" "?p < ps_position s'" "off e s \<le> span_start (node_span x)"
      "span_end (node_span x) \<le> span_start osp" "span_end osp \<le> span_start (node_span r)"
    for t op osp r sp s' x
    using that bind_operator [OF that(2)] f k by (auto simp: operators_def)
  have P: "?P x s'" if "cur e ?p ?d s'" "?p < ps_position s'" "valid_span e (node_span x)"
    "off e s \<le> span_start (node_span x)" "span_end (node_span x) \<le> off e s'" "grouped x \<and> Suc k \<le> level x" for x s'
    using that by simp
  show ?thesis
    unfolding non_associative_def
    by (rule nodeI [OF s], intro ok_operator parser_steps parser_rules B P ok_node [OF operands_at [OF m pd]];
        (assumption | linarith | simp)?)
qed

lemma operands_levels:
  assumes R: "ready e n R" and b: "below e p n"
  shows "operands e p d (parse_unary R) 5" "operands e p d (parse_multiplicative R) 4"
    "operands e p d (parse_additive R) 3" "operands e p d (parse_range R) 2"
    "operands e p d (parse_comparison R) 1" "operands e p d (parse_equality R) 0"
proof -
  have step: "operands e p d (left_associative f m) k" if "operands e p d m (Suc k)" "operators f k" "3 \<le> k" for f m k
    using left_associative_node [OF that] unfolding operands_def by blast
  have step': "operands e p d (non_associative f msg m) k" if "operands e p d m (Suc k)" "operators f k" "k < 3" for f m k msg
    using non_associative_node [OF that] unfolding operands_def by blast
  have 5: "operands e p d (parse_unary R) 5"
    unfolding operands_def by (auto intro: parse_unary_node [OF R b])
  then show "operands e p d (parse_unary R) 5" .
  have 4: "operands e p d (parse_multiplicative R) 4"
    unfolding parse_multiplicative_def by (rule step) (simp_all add: 5 operators_level)
  then show "operands e p d (parse_multiplicative R) 4" .
  have 3: "operands e p d (parse_additive R) 3"
    unfolding parse_additive_def by (rule step) (simp_all add: 4 operators_level)
  then show "operands e p d (parse_additive R) 3" .
  have 2: "operands e p d (parse_range R) 2"
    unfolding parse_range_def by (rule step') (simp_all add: 3 operators_level)
  then show "operands e p d (parse_range R) 2" .
  have 1: "operands e p d (parse_comparison R) 1"
    unfolding parse_comparison_def by (rule step') (simp_all add: 2 operators_level [unfolded One_nat_def] numeral_2_eq_2 [symmetric])
  then show "operands e p d (parse_comparison R) 1" .
  show "operands e p d (parse_equality R) 0"
    unfolding parse_equality_def by (rule step') (simp_all add: 1 [unfolded One_nat_def] operators_level)
qed

lemma parse_expression_node:
  assumes R: "ready e n R" and b: "below e p n" and s: "cur e p d s"
  shows "node e s (parse_expression R) node_span (\<lambda>x _. grouped x)"
proof -
  have eq: "node e s1 (parse_equality R) node_span (\<lambda>x _. grouped x)" if "cur e p d s1" for s1
    using operands_levels(6) [OF R b] that by (auto simp: operands_def)
  show ?thesis
    unfolding parse_expression_def
    by (rule nodeI [OF s], intro parser_steps parser_rules ok_node [OF eq];
        (assumption | rule cur_weaken, assumption, rule cur_pos [OF s], rule cur_depth [OF s] | linarith | simp)?)
qed

lemmas parse_expression_rule [parser_rules] = parse_expression_node [THEN ok_node]

section \<open>Stages and chains\<close>

lemma parse_stage_node:
  assumes R: "ready e n R" and b: "below e p n" and s: "cur e p d s"
  shows "node e s (parse_stage R) node_span (\<lambda>x _. grouped_stage x)"
  unfolding parse_stage_def
  by (rule nodeI [OF s], intro conjI parser_steps parser_rules;
      (assumption | rule R | rule below_cur [OF b s] | linarith | simp)?)

lemma parse_chain_node:
  fixes m :: "'t parser" and f :: "token_kind \<Rightarrow> 'o option"
  assumes m: "\<And>s1. cur e p d s1 \<Longrightarrow> node e s1 m sp (\<lambda>x _. P x)" and s: "cur e p d s"
  shows "node e s (parse_chain f reason sp m) (\<lambda>r. snd (snd r))
    (\<lambda>r _. members P sp (span_start (snd (snd r))) (span_end (snd (snd r))) (fst r))"
proof -
  let ?p = "ps_position s" and ?d = "ps_depth s"
  have item: "node e s1 m sp (\<lambda>x _. P x)" if "cur e ?p ?d s1" for s1
    using m cur_weaken [OF that cur_pos [OF s] cur_depth [OF s]] .
  have loop: "ok e ?p ?d (ploop (chain_round f reason sp m) (a, ts, ops)) s1 Q"
    if "cur e ?p ?d s1" "?p < ps_position s1" "bnd e a" "b \<le> a" "a \<le> off e s1" "members P sp b a ts"
      and Q: "\<And>stop ts ops s'. cur e ?p ?d s' \<Longrightarrow> ?p < ps_position s' \<Longrightarrow> bnd e stop \<Longrightarrow> b \<le> stop \<Longrightarrow>
        stop \<le> off e s' \<Longrightarrow> members P sp b stop ts \<Longrightarrow> Q (stop, ts, ops) s'"
    for a b ts ops s1 Q
  proof -
    let ?I = "\<lambda>(r :: nat \<times> 't list \<times> 'o ast_node list) s'. bnd e (fst r) \<and> b \<le> fst r \<and> fst r \<le> off e s' \<and> ?p < ps_position s' \<and>
      members P sp b (fst r) (fst (snd r))"
    have "ok e ?p ?d (ploop (chain_round f reason sp m) (a, ts, ops)) s1 (\<lambda>r s'. cur e ?p ?d s' \<and> ?I r s')"
    proof (rule ok_loop [OF that(1), where I = ?I])
      fix r s2
      assume s2: "cur e ?p ?d s2" and I: "?I r s2"
      let ?P = "\<lambda>x s'. case x of Inl y \<Rightarrow> cur e ?p ?d s' \<and> ?I y s'
        | Inr y \<Rightarrow> cur e ?p ?d s' \<and> ps_position s2 < ps_position s' \<and> ?I y s'"
      have L: "?P (Inl r) s'" if "cur e ?p ?d s'" "off e s2 \<le> off e s'" "ps_position s2 \<le> ps_position s'" for s'
        using that I by simp
      have R: "?P (Inr (span_end (sp x), fst (snd r) @ [x], ops')) s'"
        if "cur e ?p ?d s'" "valid_span e (sp x)" "off e s2 \<le> span_start (sp x)"
          "span_end (sp x) \<le> off e s'" "ps_position s2 < ps_position s'" "P x" for x s' ops'
        using that I valid_span_le [of e "sp x"]
          members_mono [of P sp b "fst r" "fst (snd r)" b "span_end (sp x)"] by auto
      show "ok e ?p ?d (chain_round f reason sp m r) s2 ?P"
        unfolding chain_round_def
      proof (intro ok_seq ok_poll [OF s2] ok_skips ok_bind ok_asks)
        fix s3 s4
        assume *: "cur e ?p ?d s3" "ps_position s2 \<le> ps_position s3" "off e s2 \<le> off e s3" 
          "cur e ?p ?d s4" "ps_position s3 \<le> ps_position s4" "off e s3 \<le> off e s4"
        show "ok e ?p ?d (case Option.bind (current_kind e s4) f of None \<Rightarrow> pure (Inl r)
          | Some op \<Rightarrow> pbind take_expected (\<lambda>t. pseq skip_layout (pbind (asks is_end) (\<lambda>b.
              if b then incomplete_at reason (tk_span t)
              else pbind m (\<lambda>term. pure (Inr (span_end (sp term), fst (snd r) @ [term],
                snd (snd r) @ [AstNode op (tk_span t)]))))))) s4 ?P"
        proof (cases "Option.bind (current_kind e s4) f")
          case None
          then show ?thesis using * by (simp, intro ok_pure L) simp_all
        next
          case (Some op)
          then have i: "ps_position s4 < length (pe_tokens e)"
            using bind_operator [OF Some] by (auto intro: current_bound)
          show ?thesis
            unfolding Some option.case
            by (intro parser_steps parser_rules R ok_node [OF item]; (assumption | rule i *(4) | insert *, linarith)?)
        qed
      qed assumption+
    qed (use that in simp)
    then show ?thesis by (rule ok_weaken) (use Q in \<open>metis prod.collapse order_refl | simp\<close>)+
  qed
  show ?thesis
    unfolding parse_chain_def
    by (rule nodeI [OF s], intro conjI ok_case_pair ok_poll loop parser_steps parser_rules ok_node [OF item];
        (assumption | rule valid_span_bnd, assumption | linarith | simp)?)
qed

lemma node_map_triple:
  assumes m: "node e s m (\<lambda>r. snd (snd r))
      (\<lambda>r _. members P f (span_start (snd (snd r))) (span_end (snd (snd r))) (fst r))" and s: "cur e p d s"
    and g: "\<And>x y z. sp (g x y z) = z" "\<And>x y z. members P f (span_start z) (span_end z) x \<Longrightarrow> A (g x y z)"
  shows "node e s (pbind m (\<lambda>(x, y, z). pure (g x y z))) sp (\<lambda>x _. A x)"
  using m by (auto simp: node_def ok_def pbind_def pure_def g split: parsed.splits sum.splits)

lemma chain_nodes:
  assumes R: "ready e n R" and b: "below e p n" and s: "cur e p d s"
  shows "node e s (parse_pipeline R) pl_span (\<lambda>x _. grouped_pipeline x)"
    and "node e s (parse_and_chain R) ac_span (\<lambda>x _. grouped_and x)"
    and "node e s (parse_conditional_chain R) cc_span (\<lambda>c _. grouped_chain c)"
proof -
  have pl: "node e s (parse_pipeline R) pl_span (\<lambda>x _. grouped_pipeline x)" if s: "cur e p d s" for s
    unfolding parse_pipeline_def
    by (rule node_map_triple [OF parse_chain_node [OF parse_stage_node [OF R b] s] s]) simp_all
  have ac: "node e s (parse_and_chain R) ac_span (\<lambda>x _. grouped_and x)" if s: "cur e p d s" for s
    unfolding parse_and_chain_def
    by (rule node_map_triple [OF parse_chain_node [OF pl s] s]) simp_all
  have cc: "node e s (parse_conditional_chain R) cc_span (\<lambda>c _. grouped_chain c)"
    unfolding parse_conditional_chain_def
    by (rule node_map_triple [OF parse_chain_node [OF ac s] s]) simp_all
  show "node e s (parse_pipeline R) pl_span (\<lambda>x _. grouped_pipeline x)" by (rule pl [OF s])
  show "node e s (parse_and_chain R) ac_span (\<lambda>x _. grouped_and x)" by (rule ac [OF s])
  show "node e s (parse_conditional_chain R) cc_span (\<lambda>c _. grouped_chain c)" by (rule cc)
qed

section \<open>Every level is ready\<close>

lemma ready_step:
  assumes R: "ready e n R"
  shows "ready e (Suc n) (syntax_step R)"
  unfolding ready_def syntax_step_def
proof (intro allI impI, elim conjE)
  fix p d s
  assume s: "cur e p d s" and "length (pe_tokens e) - ps_position s < Suc n"
  then have b: "below e (ps_position s) n" by (simp add: below_def)
  note s' = cur_start [OF s]
  show "node e s (sp_expression \<lparr>sp_expression = parse_expression R, sp_chain = parse_conditional_chain R,
        sp_pattern = parse_pattern R, sp_unary = parse_unary R\<rparr>) node_span (\<lambda>x _. grouped x) \<and>
      node e s (sp_chain \<lparr>sp_expression = parse_expression R, sp_chain = parse_conditional_chain R,
        sp_pattern = parse_pattern R, sp_unary = parse_unary R\<rparr>) cc_span (\<lambda>c _. grouped_chain c) \<and>
      node e s (sp_pattern \<lparr>sp_expression = parse_expression R, sp_chain = parse_conditional_chain R,
        sp_pattern = parse_pattern R, sp_unary = parse_unary R\<rparr>) pattern_span
        (\<lambda>x s'. binding_in e (off e s) (off e s') x) \<and>
      node e s (sp_unary \<lparr>sp_expression = parse_expression R, sp_chain = parse_conditional_chain R,
        sp_pattern = parse_pattern R, sp_unary = parse_unary R\<rparr>) node_span (\<lambda>x _. grouped x \<and> 5 \<le> level x)"
    using parse_expression_node [OF R b s'] chain_nodes(3) [OF R b s'] parse_pattern_node [OF R b s']
      parse_unary_node [OF R b s'] by simp
qed

lemma ready_level: "ready e n (syntax_level n)"
proof (induction n)
  case (Suc n)
  then show ?case by (simp add: ready_step)
qed (simp add: ready_def)

lemma entry_nodes:
  assumes s: "cur e p d s"
  shows "node e s expression_entry node_span (\<lambda>x _. grouped x)"
    and "node e s chain_entry cc_span (\<lambda>c _. grouped_chain c)"
    and "node e s pattern_entry pattern_span (\<lambda>x s'. binding_in e (off e s) (off e s') x)"
proof -
  have "length (pe_tokens e) - ps_position s < pe_fuel e"
    using cur_env [OF s] by (auto simp: env_ok_def)
  with ready_level [of e "pe_fuel e"] s
  have "node e s (sp_expression (syntax_level (pe_fuel e))) node_span (\<lambda>x _. grouped x)"
    "node e s (sp_chain (syntax_level (pe_fuel e))) cc_span (\<lambda>c _. grouped_chain c)"
    "node e s (sp_pattern (syntax_level (pe_fuel e))) pattern_span (\<lambda>x s'. binding_in e (off e s) (off e s') x)"
    unfolding ready_def by blast+
  then show "node e s expression_entry node_span (\<lambda>x _. grouped x)"
    "node e s chain_entry cc_span (\<lambda>c _. grouped_chain c)"
    "node e s pattern_entry pattern_span (\<lambda>x s'. binding_in e (off e s) (off e s') x)"
    by (simp_all add: node_def ok_def expression_entry_def chain_entry_def pattern_entry_def)
qed

lemmas entry_rules [parser_rules] = entry_nodes [THEN ok_node]

end
