(* ===== verification/Parser_Statements.thy ===== *)
theory Parser_Statements
  imports Parser_Terms
begin

text \<open>
  The specifications of the statement methods, and the induction that makes every \<open>statement_level\<close>
  ready: the parser of a script returns on every token list of a source.
\<close>

section \<open>Errors, reports and recovery\<close>

lemma ok_catch_run:
  assumes m: "ok e (ps_position s) (ps_depth s) m s P" and s: "cur e p d s"
    and f: "\<And>x s'. P x s' \<Longrightarrow> ok e p d (f x) s' Q"
    and h: "\<And>err s'. m e s = Parsed (Inl err) s' \<Longrightarrow> error_ok e err \<Longrightarrow> cur e p d s' \<Longrightarrow>
      ps_position s \<le> ps_position s' \<Longrightarrow> ok e p d (h err) s' Q"
  shows "ok e p d (pcatch m h f) s Q"
proof (cases "m e s")
  case (Parsed r s')
  show ?thesis
  proof (cases r)
    case (Inl err)
    with Parsed m have "error_ok e err" "cur e (ps_position s) (ps_depth s) s'" by (simp_all add: ok_def)
    with s have "error_ok e err" "cur e p d s'" "ps_position s \<le> ps_position s'"
      by (auto simp: cur_def)
    with h Parsed Inl show ?thesis by (simp add: ok_def pcatch_def)
  next
    case (Inr x)
    with Parsed m f show ?thesis by (simp add: ok_def pcatch_def)
  qed
qed (use m in \<open>simp_all add: ok_def\<close>)

lemma ok_report [parser_rules]:
  assumes "cur e p d s" and "diagnostic_ok e x"
    and "\<And>s'. cur e p d s' \<Longrightarrow> ps_position s \<le> ps_position s' \<Longrightarrow> ps_depth s \<le> ps_depth s' \<Longrightarrow>
      off e s \<le> off e s' \<Longrightarrow> current e s' = current e s \<Longrightarrow> Q () s'"
  shows "ok e p d (report x) s Q"
  unfolding report_def
  by (rule ok_updates, rule assms(3)) (use assms(1,2) in \<open>simp_all add: cur_def current_def\<close>)

lemma ok_report_here [parser_rules]:
  assumes "cur e p d s"
    and "\<And>s'. cur e p d s' \<Longrightarrow> ps_position s \<le> ps_position s' \<Longrightarrow> ps_depth s \<le> ps_depth s' \<Longrightarrow>
      off e s \<le> off e s' \<Longrightarrow> current e s' = current e s \<Longrightarrow> Q () s'"
  shows "ok e p d (report_here message) s Q"
  unfolding report_here_def
  by (intro ok_bind ok_here_span [OF assms(1)] ok_report [OF assms(1)] assms(2)) (auto simp: diagnostic_ok_def)

lemma documentation_scan_bound:
  "pos \<le> fst (documentation_scan c ts pos n ls k) \<and> fst (documentation_scan c ts pos n ls k) \<le> pos + length ts"
  by (induction c ts pos n ls k rule: documentation_scan.induct) auto

lemma ok_skip_documentation [parser_rules]:
  assumes s: "cur e p d s"
    and Q: "\<And>doc s'. cur e p d s' \<Longrightarrow> ps_position s \<le> ps_position s' \<Longrightarrow> ps_depth s \<le> ps_depth s' \<Longrightarrow>
      off e s \<le> off e s' \<Longrightarrow> Q doc s'"
  shows "ok e p d skip_separators_with_documentation s Q"
proof -
  obtain pos polls ls k where sk: "documentation_scan (pe_cancelled e) (drop (ps_position s) (pe_tokens e))
      (ps_position s) (ps_polls s) [] 0 = (pos, polls, ls, k)" by (metis prod_cases4)
  with documentation_scan_bound [of "ps_position s" "pe_cancelled e" "drop (ps_position s) (pe_tokens e)"
      "ps_polls s" "[]" 0]
  have pos: "ps_position s \<le> pos" "pos \<le> length (pe_tokens e)" using s by (auto simp: cur_def)
  let ?s = "s\<lparr>ps_position := pos, ps_polls := polls\<rparr>"
  have "cur e p d ?s" using s pos by (simp add: cur_def)
  moreover have "off e s \<le> off e ?s" using token_offset_mono [OF cur_env [OF s] pos(1)] by simp
  ultimately have "Q doc ?s" for doc using pos by (intro Q) simp_all
  with sk show ?thesis by (simp add: ok_def skip_separators_with_documentation_def)
qed

lemma synchronize_scan_bound:
  "pos \<le> fst (synchronize_scan cl c ts pos n k) \<and> fst (synchronize_scan cl c ts pos n k) \<le> pos + length ts"
  by (induction cl c ts pos n k rule: synchronize_scan.induct) auto

lemma synchronize_scan_moves:
  assumes "\<not> c n" and "\<not> is_some_and (\<lambda>d. tk_kind t = TkDelimiter d) cl"
  shows "pos < fst (synchronize_scan cl c (t # ts) pos n 0)"
proof -
  have "Suc pos \<le> fst (synchronize_scan cl c ts (Suc pos) (Suc n) k)" for k
    using synchronize_scan_bound by blast
  with assms show ?thesis by (simp add: Suc_le_eq)
qed

text \<open>It moves on unless it stands at the closing delimiter or at the end.\<close>

lemma ok_synchronize:
  assumes s: "cur e p d s"
    and Q: "\<And>s'. cur e p d s' \<Longrightarrow> ps_position s \<le> ps_position s' \<Longrightarrow> ps_depth s \<le> ps_depth s' \<Longrightarrow>
      off e s \<le> off e s' \<Longrightarrow>
      (\<not> is_end e s \<Longrightarrow> \<not> at_delimiter closing e s \<Longrightarrow> ps_position s < ps_position s') \<Longrightarrow> Q () s'"
  shows "ok e p d (synchronize closing) s Q"
proof -
  let ?ts = "drop (ps_position s) (pe_tokens e)"
  obtain pos polls where sk: "synchronize_scan closing (pe_cancelled e) ?ts (ps_position s) (ps_polls s) 0 = (pos, polls)"
    by fastforce
  with synchronize_scan_bound [of "ps_position s" closing "pe_cancelled e" ?ts "ps_polls s" 0]
  have pos: "ps_position s \<le> pos" "pos \<le> length (pe_tokens e)" using s by (auto simp: cur_def)
  let ?s = "s\<lparr>ps_position := pos, ps_polls := polls\<rparr>"
  have "ps_position s < pos" if "\<not> is_end e s" "\<not> at_delimiter closing e s"
  proof -
    from that(1) have i: "ps_position s < length (pe_tokens e)" by (simp add: is_end_def)
    let ?t = "pe_tokens e ! ps_position s"
    have "?ts = ?t # drop (Suc (ps_position s)) (pe_tokens e)" using i by (simp add: Cons_nth_drop_Suc)
    moreover have "\<not> is_some_and (\<lambda>d. tk_kind ?t = TkDelimiter d) closing"
      using that(2) i by (auto simp: is_some_and_def at_delimiter_def at_kind_def current_kind_def current_def
          split: option.splits)
    moreover have "\<not> pe_cancelled e (ps_polls s)" using cur_env [OF s] by (simp add: env_ok_def)
    ultimately show ?thesis using synchronize_scan_moves sk by (metis fst_conv)
  qed
  moreover have "cur e p d ?s" using s pos by (simp add: cur_def)
  moreover have "off e s \<le> off e ?s" using token_offset_mono [OF cur_env [OF s] pos(1)] by simp
  ultimately have "Q () ?s" using pos by (intro Q) simp_all
  with sk show ?thesis by (simp add: ok_def synchronize_def)
qed

lemma ok_take_contextual [parser_rules]:
  assumes s: "cur e p d s"
    and Q: "\<And>t s'. cur e p d s' \<Longrightarrow> ps_position s < ps_position s' \<Longrightarrow> ps_depth s \<le> ps_depth s' \<Longrightarrow>
      off e s \<le> off e s' \<Longrightarrow> Q t s'"
  shows "ok e p d (expect_contextual_identifier spelling message) s Q"
  unfolding expect_contextual_identifier_def
proof (intro ok_bind ok_asks ok_if ok_expected [OF s])
  assume "is_some_and (\<lambda>t. tk_kind t = TkIdentifier \<and> slice_is (tk_span t) spelling e) (current e s)"
  then have i: "ps_position s < length (pe_tokens e)" by (auto simp: is_some_and_def split: option.splits)
  show "ok e p d take_expected s Q"
    by (rule ok_take_expected [OF s i s]) (rule Q)
qed

section \<open>Simple statements\<close>

definition statement_node :: "parser_env \<Rightarrow> parser_state \<Rightarrow> statement parser \<Rightarrow> bool" where
  "statement_node e s m \<longleftrightarrow> node e s m node_span (\<lambda>x _. well_statement x)"

lemma ok_statement_between [parser_rules]:
  assumes "valid_span e start" and "bnd e stop" and "span_start start \<le> stop"
    and "\<And>sp. valid_span e sp \<Longrightarrow> span_start sp = span_start start \<Longrightarrow> span_end sp = stop \<Longrightarrow>
      Q (AstNode kind sp) s"
  shows "ok e p d (statement_between kind start stop) s Q"
  unfolding statement_between_def by (intro parser_rules assms valid_span_bnd)

lemma parse_module_name_list_node:
  assumes s: "cur e p d s"
  shows "node e s (parse_module_name_list message) (\<lambda>r. tk_span (snd r)) (\<lambda>_ _. True)"
  unfolding parse_module_name_list_def
  by (rule nodeI [OF s], intro conjI parser_steps parser_rules; (assumption | simp only: node_sels, (assumption | linarith) | linarith | simp)?)

lemmas parse_module_name_list_rule [parser_rules] = parse_module_name_list_node [THEN ok_node]

lemma import_names_plain:
  assumes s: "cur e p d s"
  shows "plain e s import_names (\<lambda>_ _. True)"
  unfolding import_names_def
  by (rule plainI [OF s], intro conjI ok_prod parser_steps parser_rules; (assumption | linarith | simp)?)

lemmas import_names_rule [parser_rules] = import_names_plain [THEN ok_plain]

lemma parse_import_node:
  assumes s: "cur e p d s" and i: "ps_position s < length (pe_tokens e)"
  shows "statement_node e s parse_import"
  unfolding parse_import_def statement_node_def
  by (rule nodeI [OF s], intro conjI parser_steps parser_rules;
      (assumption | rule i | drule notnotD, erule current_bound | rule valid_span_bnd, assumption | linarith | simp)?)

lemma import_source_plain:
  assumes s: "cur e p d s"
  shows "plain e s import_source (\<lambda>_ _. True)"
  unfolding import_source_def
  by (rule plainI [OF s], intro conjI parser_steps parser_rules;
      (assumption | rule valid_span_bnd, assumption | erule current_bound | linarith | simp)?)

lemmas import_source_rule [parser_rules] = import_source_plain [THEN ok_plain]

lemma parse_module_import_node:
  assumes s: "cur e p d s" and i: "ps_position s < length (pe_tokens e)"
  shows "statement_node e s parse_module_import"
  unfolding parse_module_import_def statement_node_def
  by (rule nodeI [OF s], intro conjI parser_steps parser_rules;
      (assumption | rule i | rule valid_span_bnd, assumption | linarith | simp)?)

lemma parse_nominal_type_field_node:
  assumes s: "cur e p d s"
  shows "node e s parse_nominal_type_field ntf_span (\<lambda>_ _. True)"
  unfolding parse_nominal_type_field_def
  by (rule nodeI [OF s], intro conjI parser_steps parser_rules;
      (assumption | rule valid_span_bnd, assumption | linarith | simp)?)

lemmas parse_nominal_type_field_rule [parser_rules] = parse_nominal_type_field_node [THEN ok_node]

lemma parse_nominal_type_node:
  assumes s: "cur e p d s" and i: "ps_position s < length (pe_tokens e)"
  shows "statement_node e s (parse_nominal_type top_level)"
  unfolding parse_nominal_type_def statement_node_def
  by (rule nodeI [OF s], intro conjI parser_steps parser_rules;
      (assumption | rule i | rule valid_span_bnd, assumption | linarith | simp)?)

lemma parse_variant_node:
  assumes s: "cur e p d s"
  shows "node e s parse_variant vd_span (\<lambda>_ _. True)"
  unfolding parse_variant_def
  by (rule nodeI [OF s], intro conjI ok_case_pair parser_steps parser_rules;
      (assumption | rule valid_span_bnd, assumption | linarith | simp)?)

lemmas parse_variant_rule [parser_rules] = parse_variant_node [THEN ok_node]

lemma parse_variant_type_node:
  assumes s: "cur e p d s" and i: "ps_position s < length (pe_tokens e)"
  shows "statement_node e s (parse_variant_type top_level)"
  unfolding parse_variant_type_def statement_node_def
  by (rule nodeI [OF s], intro conjI parser_steps parser_rules;
      (assumption | rule i | rule valid_span_bnd, assumption | linarith | simp)?)

lemma parse_declaration_node:
  assumes s: "cur e p d s" and i: "ps_position s < length (pe_tokens e)"
  shows "statement_node e s (parse_declaration mutable)"
  unfolding parse_declaration_def statement_node_def
  by (rule nodeI [OF s], intro conjI ok_any_type ok_node [OF binding_pattern_node [OF _ entry_nodes(3)]] parser_steps parser_rules;
      (assumption | rule i | rule valid_span_bnd, assumption | linarith | (simp; linarith))?)

lemma parse_assignment_node:
  assumes s: "cur e p d s"
  shows "statement_node e s parse_assignment"
  unfolding parse_assignment_def statement_node_def
  by (rule nodeI [OF s], intro conjI parser_steps parser_rules;
      (assumption | rule valid_span_bnd, assumption | linarith | (simp; linarith))?)

lemma parse_export_node:
  assumes s: "cur e p d s" and i: "ps_position s < length (pe_tokens e)"
  shows "statement_node e s (parse_export top_level)"
  unfolding parse_export_def statement_node_def
  by (rule nodeI [OF s], intro conjI ok_prod parser_steps parser_rules;
      (assumption | rule i | rule valid_span_bnd, assumption | linarith | (simp; linarith))?)

lemma parse_unset_node:
  assumes s: "cur e p d s" and i: "ps_position s < length (pe_tokens e)"
  shows "statement_node e s parse_unset"
  unfolding parse_unset_def statement_node_def
  by (rule nodeI [OF s], intro conjI parser_steps parser_rules;
      (assumption | rule i | rule valid_span_bnd, assumption | linarith | simp)?)

lemma parse_throw_node:
  assumes s: "cur e p d s" and i: "ps_position s < length (pe_tokens e)"
  shows "statement_node e s parse_throw"
  unfolding parse_throw_def statement_node_def
  by (rule nodeI [OF s], intro conjI parser_steps parser_rules;
      (assumption | rule i | rule valid_span_bnd, assumption | linarith | (simp; linarith))?)

lemma parse_control_node:
  assumes s: "cur e p d s" and i: "ps_position s < length (pe_tokens e)"
  shows "statement_node e s (parse_control CtBreak)" "statement_node e s (parse_control CtContinue)"
  unfolding parse_control_def statement_node_def
  by (rule nodeI [OF s], intro conjI parser_steps parser_rules; (assumption | rule i | linarith | simp)?)+

lemma parse_return_node:
  assumes s: "cur e p d s" and i: "ps_position s < length (pe_tokens e)"
  shows "statement_node e s parse_return"
  unfolding parse_return_def statement_node_def
  by (rule nodeI [OF s], intro conjI parser_steps parser_rules;
      (assumption | rule i | rule valid_span_bnd, assumption
        | simp only: node_sels option.case, (assumption | rule valid_span_bnd, assumption | linarith) | linarith | simp)?)

lemma parse_job_statement_node:
  assumes s: "cur e p d s"
  shows "statement_node e s parse_job_statement"
  unfolding parse_job_statement_def statement_node_def
  by (rule nodeI [OF s], intro conjI parser_steps parser_rules;
      (assumption | rule valid_span_bnd, assumption
        | simp only: node_sels option.case, (assumption | rule valid_span_bnd, assumption | linarith) | linarith | simp)?)

section \<open>Statements with blocks\<close>

text \<open>Methods that re-enter statements, ready up to a number of remaining tokens.\<close>

definition blocks :: "parser_env \<Rightarrow> nat \<Rightarrow> statement_parsers \<Rightarrow> bool" where
  "blocks e n T \<longleftrightarrow>
     (\<forall>p d s closing. cur e p d s \<and> length (pe_tokens e) - ps_position s < n \<longrightarrow>
        plain e s (tp_statements T closing) (\<lambda>xs s'. in_order (off e s) (map node_span xs) (off e s') \<and> (\<forall>x \<in> set xs. well_statement x)) \<and>
        (ps_position s < length (pe_tokens e) \<longrightarrow> node e s (tp_if T) node_span (\<lambda>x _. well_if x)))"

lemma blocks_methods:
  assumes "p < ps_position s" and "blocks e n T" and "below e p n" and "cur e p d s"
  shows "plain e s (tp_statements T closing) (\<lambda>xs s'. in_order (off e s) (map node_span xs) (off e s') \<and> (\<forall>x \<in> set xs. well_statement x))"
    and "ps_position s < length (pe_tokens e) \<Longrightarrow> node e s (tp_if T) node_span (\<lambda>x _. well_if x)"
proof -
  have "length (pe_tokens e) - ps_position s < n" using assms(1,3,4) by (auto simp: below_def cur_def)
  with assms(2,4) show "plain e s (tp_statements T closing) (\<lambda>xs s'. in_order (off e s) (map node_span xs) (off e s') \<and> (\<forall>x \<in> set xs. well_statement x))"
    "ps_position s < length (pe_tokens e) \<Longrightarrow> node e s (tp_if T) node_span (\<lambda>x _. well_if x)"
    unfolding blocks_def by blast+
qed

lemmas blocks_rules [parser_rules] =
  blocks_methods(1) [THEN ok_plain] blocks_methods(2) [THEN ok_node]

lemma parse_block_node:
  assumes T: "blocks e n T" and b: "below e p n" and s: "cur e p d s"
  shows "node e s (parse_block T) block_span (\<lambda>x _. well_block x)"
  unfolding parse_block_def
  by (rule nodeI [OF s], intro conjI parser_steps parser_rules;
      (assumption | rule T | rule below_cur [OF b s] | rule valid_span_bnd, assumption
        | simp only: block.sel, (assumption | linarith) | linarith
        | (elim conjE)?, simp; (erule in_order_within; linarith))?)

lemmas parse_block_rule [parser_rules] = parse_block_node [THEN ok_node]

lemma parse_function_node:
  assumes T: "blocks e n T" and b: "below e p n" and s: "cur e p d s" and i: "ps_position s < length (pe_tokens e)"
  shows "statement_node e s (parse_function T documentation)"
proof -
  have P: "pattern_parser e q c s1 pattern_entry" for q c s1
    unfolding pattern_parser_def using entry_nodes(3) by blast
  show ?thesis
    unfolding parse_function_def statement_node_def
    by (rule nodeI [OF s], intro conjI ok_any_type P parser_steps parser_rules;
        (assumption | rule i | rule T | rule below_cur [OF b s] | rule valid_span_bnd, assumption | linarith | simp)?)
qed

lemma parse_try_node:
  assumes T: "blocks e n T" and b: "below e p n" and s: "cur e p d s" and i: "ps_position s < length (pe_tokens e)"
  shows "statement_node e s (parse_try T)"
  unfolding parse_try_def statement_node_def
  by (rule nodeI [OF s], intro conjI parser_steps parser_rules;
      (assumption | rule i | rule T | rule below_cur [OF b s] | rule valid_span_bnd, assumption | linarith | (simp; linarith))?)

text \<open>What follows the block of an \<open>if\<close> that ends at \<open>a\<close>.\<close>

definition well_else :: "nat \<Rightarrow> statement else_branch option \<Rightarrow> nat \<Rightarrow> bool" where
  "well_else a other stop \<longleftrightarrow>
     (\<forall>b. other = Some (ElseBlock b) \<longrightarrow> well_block b \<and> a \<le> span_start (block_span b) \<and> span_end (block_span b) = stop) \<and>
     (\<forall>n. other = Some (ElseIf n) \<longrightarrow> well_if n \<and> a \<le> span_start (node_span n) \<and> span_end (node_span n) = stop)"

lemma well_else_simps [simp]:
  "well_else a None stop"
  "well_else a (Some (ElseBlock b)) stop \<longleftrightarrow> well_block b \<and> a \<le> span_start (block_span b) \<and> span_end (block_span b) = stop"
  "well_else a (Some (ElseIf n)) stop \<longleftrightarrow> well_if n \<and> a \<le> span_start (node_span n) \<and> span_end (node_span n) = stop"
  by (auto simp: well_else_def)

lemma ok_parse_else [parser_rules]:
  assumes T: "blocks e n T" and b: "below e p n" and s: "cur e p d s" and a: "bnd e a" "a \<le> off e s"
    and Q: "\<And>x stop s'. cur e p d s' \<Longrightarrow> ps_position s \<le> ps_position s' \<Longrightarrow> ps_depth s \<le> ps_depth s' \<Longrightarrow>
      off e s \<le> off e s' \<Longrightarrow> bnd e stop \<Longrightarrow> a \<le> stop \<Longrightarrow> stop \<le> off e s' \<Longrightarrow> well_else a x stop \<Longrightarrow> Q (x, stop) s'"
  shows "ok e p d (parse_else T a) s Q"
  unfolding parse_else_def
  by (intro parser_steps parser_rules Q;
      (assumption | rule s | rule T | rule b | rule a | rule valid_span_bnd, assumption
        | insert cur_pos [OF s] a(2), linarith | simp add: at_keyword_def, erule current_bound | insert cur_pos [OF s] a(2), (simp; linarith))?)

lemma parse_if_node_node:
  assumes T: "blocks e n T" and b: "below e p n" and s: "cur e p d s" and i: "ps_position s < length (pe_tokens e)"
  shows "node e s (parse_if_node T) node_span (\<lambda>x _. well_if x)"
  unfolding parse_if_node_def
  by (rule nodeI [OF s], intro conjI ok_case_pair parser_steps parser_rules;
      (assumption | rule i | rule T | rule below_cur [OF b s] | rule valid_span_bnd, assumption | linarith | (simp add: well_else_def; linarith))?)

lemmas parse_if_node_rule [parser_rules] = parse_if_node_node [THEN ok_node]

lemma parse_if_statement_node:
  assumes T: "blocks e n T" and b: "below e p n" and s: "cur e p d s" and i: "ps_position s < length (pe_tokens e)"
  shows "statement_node e s (parse_if T)"
  unfolding parse_if_def statement_node_def
  by (rule nodeI [OF s], intro conjI parser_steps parser_rules;
      (assumption | rule i | rule T | rule below_cur [OF b s] | linarith | simp)?)

lemma parse_while_node:
  assumes T: "blocks e n T" and b: "below e p n" and s: "cur e p d s" and i: "ps_position s < length (pe_tokens e)"
  shows "statement_node e s (parse_while T)"
  unfolding parse_while_def statement_node_def
  by (rule nodeI [OF s], intro conjI parser_steps parser_rules;
      (assumption | rule i | rule T | rule below_cur [OF b s] | rule valid_span_bnd, assumption | linarith | (simp; linarith))?)

lemma parse_for_node:
  assumes T: "blocks e n T" and b: "below e p n" and s: "cur e p d s" and i: "ps_position s < length (pe_tokens e)"
  shows "statement_node e s (parse_for T)"
  unfolding parse_for_def statement_node_def
  by (rule nodeI [OF s], intro conjI parser_steps parser_rules;
      (assumption | rule i | rule T | rule below_cur [OF b s] | rule valid_span_bnd, assumption | linarith | (simp; linarith))?)

lemma match_guard_plain:
  assumes s: "cur e p d s"
  shows "plain e s match_guard (\<lambda>g s'. \<forall>x. g = Some x \<longrightarrow> grouped x \<and> off e s \<le> span_start (node_span x) \<and>
    span_end (node_span x) \<le> off e s')"
  unfolding match_guard_def
  by (rule plainI [OF s], intro conjI parser_steps parser_rules; (assumption | linarith | (simp; linarith))?)

lemmas match_guard_rule [parser_rules] = match_guard_plain [THEN ok_plain]

lemma parse_match_arm_node:
  assumes T: "blocks e n T" and b: "below e p n" and s: "cur e p d s"
  shows "node e s (parse_match_arm T) ma_span (\<lambda>x _. well_arm x)"
  unfolding parse_match_arm_def
  by (rule nodeI [OF s], intro conjI parser_steps parser_rules;
      (assumption | rule T | rule below_cur [OF b s] | rule valid_span_bnd, assumption | linarith | (simp; fastforce))?)

end
