(* ===== verification/Parser_Scripts.thy ===== *)
theory Parser_Scripts
  imports Parser_Statements
begin

text \<open>
  The specifications of the loops that recover from errors, of whole scripts and of the entry points.
\<close>

section \<open>Match blocks\<close>

text \<open>At the end of the tokens an arm is incomplete, never invalid.\<close>

lemma parse_match_arm_end:
  assumes "is_end e s" and "parse_match_arm T e s = Parsed (Inl err) s'"
  shows "\<exists>i. err = PeIncomplete i"
proof -
  have "current e s = None" using assms(1) by (simp add: is_end_def current_def get_nth_def)
  with assms(2) show ?thesis
    by (auto simp: parse_match_arm_def current_span_def incomplete_here_def incomplete_at_def here_span_def
        pbind_def asks_def fail_def pure_def span_between_def split: sum.splits)
qed

lemma current_same:
  "current e s' = current e s \<Longrightarrow> is_end e s' = is_end e s"
  "current e s' = current e s \<Longrightarrow> at_delimiter c e s' = at_delimiter c e s"
proof -
  have "is_end e s = (current e s = None)" for s by (auto simp: is_end_def current_def get_nth_def)
  then show "current e s' = current e s \<Longrightarrow> is_end e s' = is_end e s" by simp
  show "current e s' = current e s \<Longrightarrow> at_delimiter c e s' = at_delimiter c e s"
    by (simp add: at_delimiter_def at_kind_def current_kind_def split: option.splits)
qed

lemma current_position: "ps_position s' = ps_position s \<Longrightarrow> current e s' = current e s"
  by (simp add: current_def)

text \<open>Recovery from an error found at \<open>s\<close> or behind it goes on behind \<open>s\<close>.\<close>

lemma ok_synchronize_behind:
  assumes s1: "cur e p d s1" and le: "ps_position s \<le> ps_position s1"
    and stop: "\<not> is_end e s" "\<not> at_delimiter closing e s"
    and Q: "\<And>s''. cur e p d s'' \<Longrightarrow> ps_position s < ps_position s'' \<Longrightarrow> Q () s''"
  shows "ok e p d (synchronize closing) s1 Q"
proof (rule ok_synchronize [OF s1])
  fix s2
  assume s2: "cur e p d s2" "ps_position s1 \<le> ps_position s2"
    and moves: "\<not> is_end e s1 \<Longrightarrow> \<not> at_delimiter closing e s1 \<Longrightarrow> ps_position s1 < ps_position s2"
  have "ps_position s < ps_position s2"
  proof (cases "ps_position s1 = ps_position s")
    case True
    then have "current e s1 = current e s" by (rule current_position)
    then have "is_end e s1 = is_end e s" "at_delimiter closing e s1 = at_delimiter closing e s"
      by (rule current_same)+
    with stop have "ps_position s1 < ps_position s2" by (intro moves) simp_all
    with True show ?thesis by linarith
  next
    case False
    with le s2(2) show ?thesis by linarith
  qed
  with s2(1) show "Q () s2" by (rule Q)
qed

lemma ok_error:
  assumes "cur e p d s" and "error_ok e err"
    and "\<And>x. err = PeInvalid x \<Longrightarrow> diagnostic_ok e x \<Longrightarrow> ok e p d (h x) s Q"
  shows "ok e p d (case err of PeInvalid x \<Rightarrow> h x | _ \<Rightarrow> fail err) s Q"
  using assms by (cases err) (auto intro: ok_fail)

lemma ok_recover_arm:
  assumes s1: "cur e p d s1" and le: "ps_position s \<le> ps_position s1" and x: "diagnostic_ok e x"
    and stop: "\<not> is_end e s" "\<not> at_delimiter (Some DlRightBrace) e s"
    and Q: "\<And>s''. cur e p d s'' \<Longrightarrow> ps_position s < ps_position s'' \<Longrightarrow> Q () s''"
  shows "ok e p d (recover_arm x) s1 Q"
  unfolding recover_arm_def
  by (intro ok_seq ok_report [OF s1 x] ok_synchronize_behind [where s = s] ok_skips Q;
      (assumption | rule stop | insert le, linarith)?)

text \<open>The arms read so far lie between \<open>lo\<close> and the state.\<close>

abbreviation arms_read :: "parser_env \<Rightarrow> nat \<Rightarrow> statement match_arm list \<Rightarrow> parser_state \<Rightarrow> bool" where
  "arms_read e lo arms s \<equiv> members well_arm ma_span lo (off e s) arms"

lemma match_round_ok:
  assumes T: "blocks e n T" and b: "below e p n" and s: "cur e p d s" and lo: "lo \<le> off e s" "arms_read e lo arms s"
  shows "ok e p d (match_round T arms) s (\<lambda>r s'. case r of
      Inl ys \<Rightarrow> cur e p d s' \<and> arms_read e lo ys s'
    | Inr ys \<Rightarrow> cur e p d s' \<and> ps_position s < ps_position s' \<and> arms_read e lo ys s')"
proof -
  let ?P = "\<lambda>r s'. case r of Inl ys \<Rightarrow> cur e p d s' \<and> arms_read e lo ys s'
    | Inr ys \<Rightarrow> cur e p d s' \<and> ps_position s < ps_position s' \<and> arms_read e lo ys s'"
  have keep: "arms_read e lo arms s'" if "off e s \<le> off e s'" for s' :: parser_state
    using members_mono [OF lo(2)] that by blast
  have L0: "?P (Inl arms) s" using s lo by simp
  have R0: "?P (Inr arms) s'" if "cur e p d s'" "ps_position s < ps_position s'" for s'
    using that keep [OF token_offset_mono [OF cur_env [OF s]]] by simp
  have L: "?P (Inl (arms @ [x])) s'" if "cur e p d s'" "well_arm x" "off e s \<le> span_start (ma_span x)"
    "span_end (ma_span x) \<le> off e s'" "off e s \<le> off e s'" for x s' using that keep lo(1) by simp
  have R: "?P (Inr (arms @ [x])) s'" if "cur e p d s'" "ps_position s < ps_position s'" "well_arm x"
    "off e s \<le> span_start (ma_span x)" "span_end (ma_span x) \<le> off e s'" "off e s \<le> off e s'" for x s'
    using that keep lo(1) by simp
  let ?A = "\<lambda>x s'. cur e p d s' \<and> ps_position s < ps_position s' \<and> well_arm x \<and>
    off e s \<le> span_start (ma_span x) \<and> span_end (ma_span x) \<le> off e s' \<and> off e s \<le> off e s'"
  have arm: "ok e (ps_position s) (ps_depth s) (parse_match_arm T) s ?A"
    by (rule ok_node [OF parse_match_arm_node [OF T b s] cur_start [OF s]])
      (auto intro: cur_weaken cur_pos [OF s] cur_depth [OF s])
  have running: "\<not> is_end e s" if "parse_match_arm T e s = Parsed (Inl (PeInvalid x)) s1" for x s1
    using parse_match_arm_end [OF _ that] by blast
  show ?thesis
    unfolding match_round_def
    by (intro ok_bind ok_asks ok_if ok_pure ok_catch_run [OF arm s] ok_error ok_recover_arm [where s = s]
        ok_seq ok_skips ok_report_here ok_synchronize L0 R0 L R;
        (assumption | rule s | elim conjE, assumption | erule running | simp only:, erule running | elim conjE, linarith | simp)?)
qed

lemma ok_match_loop [parser_rules]:
  assumes T: "blocks e n T" and b: "below e p n" and s: "cur e p d s"
    and Q: "\<And>arms s'. cur e p d s' \<Longrightarrow> ps_position s \<le> ps_position s' \<Longrightarrow> ps_depth s \<le> ps_depth s' \<Longrightarrow>
      off e s \<le> off e s' \<Longrightarrow> arms_read e (off e s) arms s' \<Longrightarrow> Q arms s'"
  shows "ok e p d (ploop (match_round T) []) s Q"
proof -
  have b': "below e (ps_position s) n" by (rule below_cur [OF b s])
  have off: "off e s \<le> off e s'" if "cur e (ps_position s) (ps_depth s) s'" for s'
    using token_offset_mono [OF cur_env [OF s] cur_pos [OF that]] .
  have "plain e s (ploop (match_round T) []) (\<lambda>arms s'. arms_read e (off e s) arms s')"
  proof (rule plainI [OF s], rule ok_loop [where I = "\<lambda>arms s'. arms_read e (off e s) arms s'"])
    fix arms s1
    assume s1: "cur e (ps_position s) (ps_depth s) s1" and "arms_read e (off e s) arms s1"
    from match_round_ok [OF T b' s1 off [OF s1] this(2)]
    show "ok e (ps_position s) (ps_depth s) (match_round T arms) s1 (\<lambda>r s'. case r of
        Inl b \<Rightarrow> cur e (ps_position s) (ps_depth s) s' \<and> arms_read e (off e s) b s'
      | Inr a' \<Rightarrow> cur e (ps_position s) (ps_depth s) s' \<and> ps_position s1 < ps_position s' \<and> arms_read e (off e s) a' s')" .
  qed simp_all
  then show ?thesis by (rule ok_plain [OF _ s]) (rule Q)
qed

lemma parse_match_node:
  assumes T: "blocks e n T" and b: "below e p n" and s: "cur e p d s" and i: "ps_position s < length (pe_tokens e)"
  shows "statement_node e s (parse_match T)"
  unfolding parse_match_def statement_node_def
  by (rule nodeI [OF s], intro conjI parser_steps parser_rules;
      (assumption | rule i | rule T | rule below_cur [OF b s] | rule valid_span_bnd, assumption | linarith | (simp; ((erule members_mono; linarith) | linarith)))?)

section \<open>Statements\<close>

lemma statement_node_error: "cur e p d s \<Longrightarrow> statement_node e s (invalid_here message)"
  unfolding statement_node_def by (rule nodeI, assumption, rule ok_invalid_here)

lemma keyword_statement_node:
  assumes T: "blocks e n T" and b: "below e p n" and s: "cur e p d s" and i: "ps_position s < length (pe_tokens e)"
    and m: "keyword_statement T top_level documentation language k = Some m"
  shows "statement_node e s m"
proof -
  note error = statement_node_error [OF s]
  note blocks = parse_function_node [OF T b s i] parse_if_statement_node [OF T b s i] parse_while_node [OF T b s i]
    parse_for_node [OF T b s i] parse_match_node [OF T b s i] parse_try_node [OF T b s i]
  note simple = parse_import_node [OF s i] parse_module_import_node [OF s i] parse_nominal_type_node [OF s i]
    parse_variant_type_node [OF s i] parse_declaration_node [OF s i] parse_export_node [OF s i]
    parse_unset_node [OF s i] parse_throw_node [OF s i] parse_control_node [OF s i] parse_return_node [OF s i]
  show ?thesis
    using m by (cases k) (auto simp: keyword_statement_def error blocks simple split: if_splits)
qed

lemma parse_statement_node:
  assumes T: "blocks e n T" and b: "below e p n" and s: "cur e p d s"
  shows "statement_node e s (parse_statement T top_level documentation)"
proof -
  let ?p = "ps_position s" and ?d = "ps_depth s"
  have rest: "ok e ?p ?d (case current_kind e s2 of
        None \<Rightarrow> incomplete_here InExpression
      | Some (TkKeyword w) \<Rightarrow>
          (case keyword_statement T top_level documentation language w of
             Some m \<Rightarrow> m
           | None \<Rightarrow> parse_job_statement)
      | Some k \<Rightarrow> if k = TkVariable \<and> assigns then parse_assignment else parse_job_statement) s2
      (\<lambda>x s'. cur e ?p ?d s' \<and> ?p < ps_position s' \<and> valid_span e (node_span x) \<and>
         off e s \<le> span_start (node_span x) \<and> span_end (node_span x) \<le> off e s' \<and> well_statement x)"
    if s2: "cur e ?p ?d s2" "?p \<le> ps_position s2" "off e s \<le> off e s2" for s2 language assigns
  proof (cases "current_kind e s2")
    case None
    then show ?thesis using ok_incomplete_here [OF s2(1)] by simp
  next
    case (Some k)
    then have i: "ps_position s2 < length (pe_tokens e)" by (rule current_bound)
    let ?m = "case k of
        TkKeyword w \<Rightarrow>
          (case keyword_statement T top_level documentation language w of
             Some m \<Rightarrow> m
           | None \<Rightarrow> parse_job_statement)
      | _ \<Rightarrow> if k = TkVariable \<and> assigns then parse_assignment else parse_job_statement"
    have b2: "below e ?p n" by (rule below_cur [OF b s])
    have "statement_node e s2 ?m"
      using keyword_statement_node [OF T b2 s2(1) i] parse_job_statement_node [OF s2(1)] parse_assignment_node [OF s2(1)]
      by (cases k) (auto split: option.splits)
    then have "node e s2 ?m node_span (\<lambda>x _. well_statement x)" by (simp add: statement_node_def)
    then have "ok e ?p ?d ?m s2 (\<lambda>x s'. cur e ?p ?d s' \<and> ?p < ps_position s' \<and> valid_span e (node_span x) \<and>
         off e s \<le> span_start (node_span x) \<and> span_end (node_span x) \<le> off e s' \<and> well_statement x)"
      by (rule ok_node [OF _ s2(1)]) (use s2 in auto)
    then show ?thesis unfolding Some option.case by (cases k) simp_all
  qed
  show ?thesis
    unfolding parse_statement_def statement_node_def
    by (rule nodeI [OF s], rule ok_seq, rule ok_poll, assumption, rule ok_seq, rule ok_skips, assumption,
        rule ok_bind, rule ok_asks, rule ok_bind, rule ok_asks, rule ok_bind, rule ok_asks, rule rest)
      (assumption | linarith)+
qed

text \<open>Statements whose spans follow one another between \<open>lo\<close> and \<open>hi\<close>.\<close>

definition span_of :: "source_file \<Rightarrow> span \<Rightarrow> bool" where
  "span_of src sp \<longleftrightarrow> (\<exists>a b. source_span src a b = Inr sp)"

lemma valid_span_of: "valid_span e sp = span_of (pe_source e) sp"
  by (simp add: valid_span_def span_of_def)

fun statements_in :: "source_file \<Rightarrow> nat \<Rightarrow> statement list \<Rightarrow> nat \<Rightarrow> bool" where
  "statements_in src lo [] hi = (lo \<le> hi)"
| "statements_in src lo (x # xs) hi =
     (lo \<le> span_start (node_span x) \<and> span_of src (node_span x) \<and> well_statement x \<and>
      statements_in src (span_end (node_span x)) xs hi)"

lemma statements_in_mono: "statements_in src lo xs h \<Longrightarrow> h \<le> hi \<Longrightarrow> statements_in src lo xs hi"
  by (induction xs arbitrary: lo) auto

lemma statements_in_snoc:
  "statements_in (pe_source e) lo xs h \<Longrightarrow> h \<le> span_start (node_span x) \<Longrightarrow> valid_span e (node_span x) \<Longrightarrow>
     well_statement x \<Longrightarrow> span_end (node_span x) \<le> hi \<Longrightarrow> statements_in (pe_source e) lo (xs @ [x]) hi"
  by (induction xs arbitrary: lo) (auto simp: valid_span_of)

lemma statements_in_block:
  "statements_in (pe_source (e :: parser_env)) lo xs hi \<Longrightarrow> in_order lo (map node_span xs) hi \<and> (\<forall>x \<in> set xs. well_statement x)"
  by (induction xs arbitrary: lo) (auto dest: valid_span_le [of e, unfolded valid_span_of])

lemma after_statement_ok:
  assumes s: "cur e p d s" and pos: "q < ps_position s" and xs: "statements_in (pe_source e) lo xs (off e s)"
  shows "ok e p d (after_statement closing xs x) s (\<lambda>r s'. case r of
      Inl ys \<Rightarrow> cur e p d s' \<and> statements_in (pe_source e) lo ys (off e s')
    | Inr a \<Rightarrow> cur e p d s' \<and> q < ps_position s' \<and> statements_in (pe_source e) lo (fst a) (off e s'))"
proof -
  let ?P = "\<lambda>r s'. case r of Inl ys \<Rightarrow> cur e p d s' \<and> statements_in (pe_source e) lo ys (off e s')
    | Inr a \<Rightarrow> cur e p d s' \<and> q < ps_position s' \<and> statements_in (pe_source e) lo (fst a) (off e s')"
  have L: "?P (Inl xs) s'" if "cur e p d s'" "off e s \<le> off e s'" for s'
    using that statements_in_mono [OF xs] by simp
  have R: "?P (Inr (xs, doc)) s'" if "cur e p d s'" "ps_position s \<le> ps_position s'" "off e s \<le> off e s'" for s' doc
    using that statements_in_mono [OF xs] pos by simp
  show ?thesis
    unfolding after_statement_def resynchronize_def
    by (intro ok_synchronize parser_steps parser_rules s L R; (assumption | linarith)?)
qed

lemma statement_round_ok:
  assumes T: "blocks e n T" and b: "below e p n" and s: "cur e p d s" and xs: "statements_in (pe_source e) lo (fst acc) (off e s)"
  shows "ok e p d (statement_round T closing acc) s (\<lambda>r s'. case r of
      Inl ys \<Rightarrow> cur e p d s' \<and> statements_in (pe_source e) lo ys (off e s')
    | Inr a \<Rightarrow> cur e p d s' \<and> ps_position s < ps_position s' \<and> statements_in (pe_source e) lo (fst a) (off e s'))"
proof -
  let ?P = "\<lambda>r s'. case r of Inl ys \<Rightarrow> cur e p d s' \<and> statements_in (pe_source e) lo ys (off e s')
    | Inr a \<Rightarrow> cur e p d s' \<and> ps_position s < ps_position s' \<and> statements_in (pe_source e) lo (fst a) (off e s')"
  have L: "?P (Inl (fst acc)) s" using s xs by simp
  have R: "?P (Inr (fst acc, doc)) s'" if "cur e p d s'" "ps_position s < ps_position s'" for s' doc
    using that statements_in_mono [OF xs token_offset_mono [OF cur_env [OF s]]] by simp
  show ?thesis
    unfolding statement_round_def
  proof (intro ok_bind ok_asks ok_if ok_pure L ok_seq ok_poll [OF s])
    fix s1
    assume stop: "\<not> (is_end e s \<or> at_delimiter closing e s)"
      and s1: "cur e p d s1" "ps_position s \<le> ps_position s1" "off e s \<le> off e s1"
    note read = parse_statement_node [OF T b s1(1), unfolded statement_node_def]
    have after: "ok e p d (after_statement closing (fst acc @ [x]) x) s2 ?P"
      if s2: "cur e p d s2" "ps_position s1 < ps_position s2" "off e s1 \<le> span_start (node_span x)"
        "valid_span e (node_span x)" "span_end (node_span x) \<le> off e s2" "well_statement x" for x s2
      using s1 s2 statements_in_snoc [OF xs, of x "off e s2"] by (intro after_statement_ok) auto
    show "ok e p d (pcatch (parse_statement T (closing = None) (snd acc))
         (\<lambda>err. case err of PeInvalid d \<Rightarrow> pseq (report d) (resynchronize closing (fst acc)) | _ \<Rightarrow> fail err)
         (\<lambda>statement. after_statement closing (fst acc @ [statement]) statement)) s1 ?P"
    proof (rule ok_catch [OF ok_node [OF read cur_start [OF s1(1)]] s1(1)])
      fix x s2
      assume "cur e (ps_position s1) (ps_depth s1) s2" "ps_position s1 < ps_position s2"
        "off e s1 \<le> span_start (node_span x)" "valid_span e (node_span x)" "span_end (node_span x) \<le> off e s2"
        "well_statement x"
      moreover from this(1) have "cur e p d s2" by (rule cur_weaken [OF _ cur_pos [OF s1(1)] cur_depth [OF s1(1)]])
      ultimately show "cur e p d s2 \<and> ps_position s1 < ps_position s2 \<and> off e s1 \<le> span_start (node_span x) \<and>
        valid_span e (node_span x) \<and> span_end (node_span x) \<le> off e s2 \<and> well_statement x" by simp
    next
      fix x s2
      assume "cur e p d s2 \<and> ps_position s1 < ps_position s2 \<and> off e s1 \<le> span_start (node_span x) \<and>
        valid_span e (node_span x) \<and> span_end (node_span x) \<le> off e s2 \<and> well_statement x"
      then show "ok e p d (after_statement closing (fst acc @ [x]) x) s2 ?P" by (intro after) simp_all
    next
      fix err s2
      assume err: "error_ok e err" and s2: "cur e p d s2" "ps_position s1 \<le> ps_position s2"
      show "ok e p d (case err of PeInvalid d \<Rightarrow> pseq (report d) (resynchronize closing (fst acc)) | _ \<Rightarrow> fail err) s2 ?P"
        unfolding resynchronize_def
        by (intro ok_error [OF s2(1) err] ok_synchronize_behind [where s = s] parser_rules R;
            (assumption | rule s2 | insert stop, blast | insert s1(2) s2(2), linarith)?)
    qed
  qed
qed

lemma parse_statement_list_plain:
  assumes T: "blocks e n T" and b: "below e p n" and s: "cur e p d s"
  shows "plain e s (parse_statement_list T closing) (\<lambda>xs s'. statements_in (pe_source e) (off e s) xs (off e s'))"
proof -
  let ?p = "ps_position s" and ?d = "ps_depth s"
  have b': "below e ?p n" by (rule below_cur [OF b s])
  have loop: "ok e ?p ?d (ploop (statement_round T closing) ([], doc)) s1
      (\<lambda>xs s'. cur e ?p ?d s' \<and> statements_in (pe_source e) (off e s) xs (off e s'))"
    if "cur e ?p ?d s1" "off e s \<le> off e s1" for doc s1
    by (rule ok_loop [OF that(1), where I = "\<lambda>a s'. statements_in (pe_source e) (off e s) (fst a) (off e s')"])
      (use that(2) in simp, rule ok_weaken [OF statement_round_ok [OF T b']], auto split: sum.splits)
  show ?thesis
    unfolding parse_statement_list_def
    by (rule plainI [OF s], intro ok_poll loop parser_rules; (assumption | linarith)?)
qed

section \<open>Scripts\<close>

lemma blocks_level: "blocks e n (statement_level n)"
proof (induction n)
  case (Suc n)
  show ?case
    unfolding blocks_def
  proof (intro allI impI, elim conjE)
    fix p d s closing
    assume s: "cur e p d s" and "length (pe_tokens e) - ps_position s < Suc n"
    then have b: "below e (ps_position s) n" by (simp add: below_def)
    note s' = cur_start [OF s]
    have "plain e s (parse_statement_list (statement_level n) closing)
        (\<lambda>xs s'. in_order (off e s) (map node_span xs) (off e s') \<and> (\<forall>x \<in> set xs. well_statement x))"
      using parse_statement_list_plain [OF Suc.IH b s', of closing]
      by (auto simp: plain_def dest: statements_in_block elim!: ok_weaken)
    then show "plain e s (tp_statements (statement_level (Suc n)) closing)
        (\<lambda>xs s'. in_order (off e s) (map node_span xs) (off e s') \<and> (\<forall>x \<in> set xs. well_statement x)) \<and>
      (ps_position s < length (pe_tokens e) \<longrightarrow> node e s (tp_if (statement_level (Suc n))) node_span (\<lambda>x _. well_if x))"
      using parse_if_node_node [OF Suc.IH b s'] by (simp add: statement_step_def)
  qed
qed (simp add: blocks_def)

text \<open>What a run of the parser over a whole source ends with.\<close>

fun script_ok :: "parser_env \<Rightarrow> parse_error + script \<Rightarrow> bool" where
  "script_ok e (Inr (Script xs sp)) \<longleftrightarrow>
     statements_in (pe_source e) (token_offset e 0) xs (source_len (pe_source e)) \<and>
     valid_span e sp \<and> span_start sp = 0 \<and> span_end sp = source_len (pe_source e)"
| "script_ok e (Inl (PeInvalidMany ds)) \<longleftrightarrow> ds \<noteq> [] \<and> list_all (diagnostic_ok e) ds"
| "script_ok e (Inl err) \<longleftrightarrow> error_ok e err"

definition total :: "parser_env \<Rightarrow> 'a parser \<Rightarrow> parser_state \<Rightarrow> (parse_error + 'a \<Rightarrow> bool) \<Rightarrow> bool" where
  "total e m s G \<longleftrightarrow> (\<exists>r s'. m e s = Parsed r s' \<and> G r)"

lemma total_bind:
  assumes "ok e p d m s (\<lambda>x s'. total e (f x) s' G)" and "\<And>err. error_ok e err \<Longrightarrow> G (Inl err)"
  shows "total e (pbind m f) s G"
  using assms by (auto simp: ok_def total_def pbind_def split: parsed.splits sum.splits)

lemma total_seq:
  assumes "ok e p d m s (\<lambda>_ s'. total e k s' G)" and "\<And>err. error_ok e err \<Longrightarrow> G (Inl err)"
  shows "total e (pseq m k) s G"
  unfolding pseq_def by (rule total_bind [OF assms])

lemma error_script_ok: "error_ok e err \<Longrightarrow> script_ok e (Inl err)"
  by (cases err) simp_all

lemma script_steps:
  "ok e 0 0 m s (\<lambda>x s'. total e (f x) s' (script_ok e)) \<Longrightarrow> total e (pbind m f) s (script_ok e)"
  "ok e 0 0 m' s (\<lambda>_ s'. total e k s' (script_ok e)) \<Longrightarrow> total e (pseq m' k) s (script_ok e)"
  by (rule total_bind total_seq; use error_script_ok in blast)+

lemma parse_script_total:
  assumes e: "env_ok e"
  shows "total e parse_script parser_new (script_ok e)"
proof -
  let ?n = "source_len (pe_source e)"
  have s0: "cur e 0 0 parser_new" using e by (simp add: cur_def parser_new_def)
  have last: "total e (pbind (asks (\<lambda>e s. ps_diagnostics s)) (\<lambda>diagnostics.
      if diagnostics \<noteq> [] then fail (PeInvalidMany diagnostics)
      else pbind (asks (\<lambda>e s. source_len (pe_source e))) (\<lambda>n.
        pbind (span_between 0 n) (\<lambda>sp. pure (Script statements sp))))) s (script_ok e)"
    if s: "cur e 0 0 s" and xs: "statements_in (pe_source e) (token_offset e 0) statements (off e s)" for statements s
  proof (cases "ps_diagnostics s = []")
    case False
    then show ?thesis using s by (simp add: total_def pbind_def asks_def fail_def cur_def)
  next
    case True
    have "off e s \<le> ?n" using bnd_le bnd_off [OF e] by blast
    with xs have xs': "statements_in (pe_source e) (token_offset e 0) statements ?n" by (rule statements_in_mono)
    have "source_span (pe_source e) 0 ?n = Inr \<lparr>span_source_id = sf_id (pe_source e), span_start = 0, span_end = ?n\<rparr>"
      by (simp add: source_span_Inr_iff source_len_def)
    with True xs' show ?thesis
      by (auto simp: total_def pbind_def asks_def pure_def span_between_def valid_span_def)
  qed
  from e obtain m where m: "pe_fuel e = Suc m" "length (pe_tokens e) \<le> m"
    by (cases "pe_fuel e") (auto simp: env_ok_def)
  have list: "ok e 0 0 (\<lambda>e s. tp_statements (statement_level (pe_fuel e)) None e s) s
      (\<lambda>xs s'. cur e 0 0 s' \<and> statements_in (pe_source e) (token_offset e 0) xs (off e s'))"
    if s: "cur e 0 0 s" "ps_position s = 0" for s
  proof -
    have "below e 0 m" using m(2) by (simp add: below_def)
    from parse_statement_list_plain [OF blocks_level this s(1)]
    have "plain e s (tp_statements (statement_level (pe_fuel e)) None)
        (\<lambda>xs s'. statements_in (pe_source e) (token_offset e 0) xs (off e s'))"
      using s(2) by (simp add: m(1) statement_step_def)
    then have "ok e 0 0 (tp_statements (statement_level (pe_fuel e)) None) s
        (\<lambda>xs s'. cur e 0 0 s' \<and> statements_in (pe_source e) (token_offset e 0) xs (off e s'))"
      by (rule ok_plain [OF _ s(1)]) simp
    then show ?thesis by (simp add: ok_def)
  qed
  show ?thesis
    unfolding parse_script_def
  proof (rule script_steps(2), rule ok_check_cancelled [OF s0])
    fix s1
    assume s1: "cur e 0 0 s1" "ps_position s1 = ps_position parser_new"
    then have pos: "ps_position s1 = 0" by (simp add: parser_new_def)
    show "total e (pbind (\<lambda>e s. tp_statements (statement_level (pe_fuel e)) None e s) (\<lambda>statements.
        pseq skip_separators (pbind (asks is_end) (\<lambda>b.
        pseq (if b then pure () else report_here ''unexpected syntax after statement'') (
        pbind (asks (\<lambda>e s. ps_diagnostics s)) (\<lambda>diagnostics.
        if diagnostics \<noteq> [] then fail (PeInvalidMany diagnostics)
        else pbind (asks (\<lambda>e s. source_len (pe_source e))) (\<lambda>n.
          pbind (span_between 0 n) (\<lambda>sp. pure (Script statements sp))))))))) s1 (script_ok e)"
    proof (rule script_steps(1), rule ok_weaken [OF list [OF s1(1) pos] order_refl order_refl])
      fix xs s2
      assume *: "cur e 0 0 s2 \<and> statements_in (pe_source e) (token_offset e 0) xs (off e s2)"
      then have s2: "cur e 0 0 s2" and xs: "statements_in (pe_source e) (token_offset e 0) xs (off e s2)" by simp_all
      show "total e (pseq skip_separators (pbind (asks is_end) (\<lambda>b.
        pseq (if b then pure () else report_here ''unexpected syntax after statement'') (
        pbind (asks (\<lambda>e s. ps_diagnostics s)) (\<lambda>diagnostics.
        if diagnostics \<noteq> [] then fail (PeInvalidMany diagnostics)
        else pbind (asks (\<lambda>e s. source_len (pe_source e))) (\<lambda>n.
          pbind (span_between 0 n) (\<lambda>sp. pure (Script xs sp)))))))) s2 (script_ok e)"
        by (intro script_steps(2) script_steps(1) [of e "asks is_end"] ok_skips(3) [OF s2] ok_asks ok_if ok_pure
            ok_report_here last; (assumption | rule statements_in_mono [OF xs], linarith)?)
    qed
  qed
qed

end
