(* ===== verification/Parser_Entry.thy ===== *)
theory Parser_Entry
  imports Parser_Scripts Lexer_Languages
begin

text \<open>
  The entry points of the parser: what \<open>parse\<close>, \<open>parse_v2_submission\<close> and \<open>parse_v2\<close> return on a source
  of valid UTF-8.
\<close>

section \<open>The classification reports tokens\<close>

definition token_spans :: "token list \<Rightarrow> span set" where
  "token_spans tokens = tk_span ` set tokens"

fun reports_token :: "token list \<Rightarrow> syntax_classification \<Rightarrow> bool" where
  "reports_token tokens ScComplete \<longleftrightarrow> True"
| "reports_token tokens (ScIncomplete i) \<longleftrightarrow> ii_span i \<in> token_spans tokens"
| "reports_token tokens (ScInvalid d) \<longleftrightarrow>
     (\<exists>sp \<in> token_spans tokens. \<exists>code message. d = with_primary sp message (diagnostic_new SevError code message))"

lemma classify_token_reports:
  assumes t: "\<exists>t. token_text src tok = Inr t" and m: "tok \<in> set tokens"
    and f: "\<forall>f \<in> set frames. fr_span f \<in> token_spans tokens"
  shows "\<exists>r. classify_token src tokens index tok previous frames = Inr r \<and>
    (case r of Inl c \<Rightarrow> reports_token tokens c | Inr fs \<Rightarrow> \<forall>f \<in> set fs. fr_span f \<in> token_spans tokens)"
proof -
  have sp: "tk_span tok \<in> token_spans tokens" using m by (simp add: token_spans_def)
  have closed: "case close_with tok (pop_where p frames) of Inl c \<Rightarrow> reports_token tokens c
      | Inr fs \<Rightarrow> \<forall>f \<in> set fs. fr_span f \<in> token_spans tokens" for p
    using f sp by (cases frames) (auto simp: close_with_def pop_where_def unexpected_closer_def Let_def)
  have delimiter: "case classify_delimiter tokens index tok d previous frames of Inl c \<Rightarrow> reports_token tokens c
      | Inr fs \<Rightarrow> \<forall>f \<in> set fs. fr_span f \<in> token_spans tokens" for d
    using closed f sp
    by (cases d) (simp_all add: classify_delimiter_def Let_def frame_for_def pop_matching_def)
  show ?thesis
  proof (cases "tk_kind tok = TkSingleQuoted")
    case True
    with t f sp show ?thesis
      by (auto simp: classify_token_def incomplete_def simp del: and_then_eq_Inr)
  next
    case False
    then show ?thesis
      using delimiter closed f sp
      by (cases "tk_kind tok") (auto simp: classify_token_def frame_for_def pop_matching_def)
  qed
qed

lemma classify_scan_reports:
  assumes "\<forall>tok \<in> set toks. \<exists>t. token_text src tok = Inr t" and "set toks \<subseteq> set tokens"
    and "\<forall>f \<in> set frames. fr_span f \<in> token_spans tokens"
  shows "\<exists>r. classify_scan src tokens index toks previous frames = Inr r \<and>
    (case r of Inl c \<Rightarrow> reports_token tokens c
     | Inr (fs, last') \<Rightarrow> (\<forall>f \<in> set fs. fr_span f \<in> token_spans tokens) \<and>
         last' = last_significant index toks previous)"
  using assms
proof (induction toks arbitrary: index previous frames)
  case (Cons tok toks)
  from classify_token_reports [of src tok tokens frames index previous] Cons.prems obtain r where
    r: "classify_token src tokens index tok previous frames = Inr r"
    "case r of Inl c \<Rightarrow> reports_token tokens c | Inr fs \<Rightarrow> \<forall>f \<in> set fs. fr_span f \<in> token_spans tokens"
    by auto
  show ?case
  proof (cases r)
    case (Inl c)
    with r show ?thesis by (simp del: and_then_eq_Inr)
  next
    case (Inr fs)
    with r have "\<forall>f \<in> set fs. fr_span f \<in> token_spans tokens" by simp
    with Cons.IH [of fs "index + 1" "if is_significant (tk_kind tok) then Some index else previous"] Cons.prems r(1) Inr
    show ?thesis
      by (cases "is_significant (tk_kind tok)") (auto split: sum.splits simp del: and_then_eq_Inr)
  qed
qed simp

lemma first_invalid_reports:
  "first_invalid src toks = Inr (Some d) \<Longrightarrow> set toks \<subseteq> set tokens \<Longrightarrow> reports_token tokens (ScInvalid d)"
proof (induction toks)
  case (Cons tok toks)
  then show ?case
    by (cases "tk_kind tok") (auto simp: invalid_token_diagnostic_def token_spans_def)
qed simp

lemma classify_tokens_reports:
  assumes t: "\<forall>tok \<in> set tokens. \<exists>t. token_text src tok = Inr t"
  shows "\<exists>c. classify_tokens src tokens = Inr c \<and> reports_token tokens c"
proof -
  from first_invalid_result [OF t] obtain d where d: "first_invalid src tokens = Inr d" by blast
  show ?thesis
  proof (cases d)
    case (Some d')
    with d first_invalid_reports [of src tokens d' tokens] show ?thesis
      by (simp add: classify_tokens_def del: and_then_eq_Inr)
  next
    case None
    from classify_scan_reports [OF t order_refl, of "[]" 0 None] obtain r where
      r: "classify_scan src tokens 0 tokens None [] = Inr r"
      "case r of Inl c \<Rightarrow> reports_token tokens c
       | Inr (fs, last') \<Rightarrow> (\<forall>f \<in> set fs. fr_span f \<in> token_spans tokens) \<and> last' = last_significant 0 tokens None"
      by auto
    have last: "\<exists>u. trailing_requirement src (tokens ! i) = Inr u" "tokens ! i \<in> set tokens"
      if "last_significant 0 tokens None = Some i" for i
    proof -
      from last_significant_bound [OF that] show "tokens ! i \<in> set tokens" by auto
      with t trailing_requirement_Inr show "\<exists>u. trailing_requirement src (tokens ! i) = Inr u" by blast
    qed
    show ?thesis
    proof (cases r)
      case (Inl c)
      with r d None show ?thesis by (simp add: classify_tokens_def del: and_then_eq_Inr)
    next
      case (Inr a)
      then obtain fs previous where a: "r = Inr (fs, previous)" by (cases a) simp
      show ?thesis
      proof (cases fs)
        case (Cons f fs')
        with r d None a show ?thesis
          by (simp add: classify_tokens_def incomplete_def del: and_then_eq_Inr)
      next
        case Nil
        show ?thesis
        proof (cases previous)
          case None
          with Nil r(1) d \<open>d = None\<close> a show ?thesis
            by (simp add: classify_tokens_def del: and_then_eq_Inr)
        next
          case (Some i)
          with r(2) a have "last_significant 0 tokens None = Some i" by simp
          from last [OF this] obtain u where "trailing_requirement src (tokens ! i) = Inr u" "tokens ! i \<in> set tokens"
            by blast
          with Nil r(1) d None a Some show ?thesis
            by (cases u) (simp_all add: classify_tokens_def incomplete_def token_spans_def del: and_then_eq_Inr)
        qed
      qed
    qed
  qed
qed

section \<open>Outcomes\<close>

text \<open>A diagnostic of one primary label on a span of the source.\<close>

definition error_in :: "source_file \<Rightarrow> diagnostic \<Rightarrow> bool" where
  "error_in src d \<longleftrightarrow>
     (\<exists>sp code message. span_of src sp \<and> d = with_primary sp message (diagnostic_new SevError code message))"

fun outcome_ok :: "source_file \<Rightarrow> parse_outcome \<Rightarrow> bool" where
  "outcome_ok src (PoComplete (Script xs sp)) \<longleftrightarrow>
     statements_in src 0 xs (source_len src) \<and>
     sp = \<lparr>span_source_id = sf_id src, span_start = 0, span_end = source_len src\<rparr>"
| "outcome_ok src (PoIncomplete i) \<longleftrightarrow> span_of src (ii_span i)"
| "outcome_ok src (PoInvalid ds) \<longleftrightarrow> ds \<noteq> [] \<and> (\<forall>d \<in> set ds. error_in src d)"

lemma token_span_of: "token_text src tok = Inr t \<Longrightarrow> span_of src (tk_span tok)"
proof -
  assume "token_text src tok = Inr t"
  then have "valid_span \<lparr>pe_source = src, pe_tokens = [], pe_language = MajorV1, pe_cancelled = \<lambda>_. False, pe_fuel = 0\<rparr>
      (tk_span tok)" by (auto intro: token_text_span)
  then show ?thesis by (simp add: valid_span_of)
qed

lemma reports_outcome:
  assumes "reports_token tokens c" and "\<forall>tok \<in> set tokens. \<exists>t. token_text src tok = Inr t"
  shows "c = ScIncomplete i \<Longrightarrow> outcome_ok src (PoIncomplete i)"
    and "c = ScInvalid d \<Longrightarrow> outcome_ok src (PoInvalid [d])"
  using assms token_span_of by (fastforce simp: token_spans_def error_in_def)+

lemma statements_in_lower: "statements_in src lo xs hi \<Longrightarrow> lo' \<le> lo \<Longrightarrow> statements_in src lo' xs hi"
  by (cases xs) auto

lemma script_outcome:
  assumes "script_ok e r"
  shows "\<exists>x. parse_outcome_of r = Controlled x \<and> outcome_ok (pe_source e) x"
proof (cases r)
  case (Inl err)
  show ?thesis
  proof (cases err)
    case (PeInvalid d)
    then show ?thesis using assms Inl
      by (force simp: parse_outcome_of_def diagnostic_ok_def syntax_diagnostic_def error_in_def valid_span_of)
  next
    case (PeInvalidMany ds)
    then show ?thesis using assms Inl
      by (force simp: parse_outcome_of_def diagnostic_ok_def syntax_diagnostic_def error_in_def valid_span_of
          list_all_iff)
  qed (use assms Inl in \<open>simp_all add: parse_outcome_of_def valid_span_of\<close>)
next
  case (Inr script)
  then obtain xs sp where "r = Inr (Script xs sp)" by (cases script) simp
  then show ?thesis
    using assms by (cases sp)
      (auto simp: parse_outcome_of_def valid_span_iff intro: statements_in_lower)
qed

lemma tiles_texts: "tiles src lang a toks b \<Longrightarrow> \<forall>tok \<in> set toks. \<exists>t. token_text src tok = Inr t"
  by (induction toks arbitrary: a) auto

lemma parse_tokens_outcome:
  assumes u: "utf8_valid (sf_text src)" and t: "tiles src lang a tokens (source_len src)"
    and fuel: "length tokens < fuel"
  shows "\<exists>x. parse_tokens fuel src tokens language (\<lambda>_. False) = Returns (Controlled x) \<and> outcome_ok src x"
proof -
  note texts = tiles_texts [OF t]
  from classify_tokens_reports [OF texts] obtain c where
    c: "classify_tokens src tokens = Inr c" "reports_token tokens c" by blast
  show ?thesis
  proof (cases c)
    case ScComplete
    let ?e = "\<lparr>pe_source = src, pe_tokens = tokens, pe_language = language,
      pe_cancelled = \<lambda>n. False, pe_fuel = fuel\<rparr>"
    have "env_ok ?e" using u t fuel by (auto simp: env_ok_def)
    from parse_script_total [OF this] obtain r s where
      "parse_script ?e parser_new = Parsed r s" "script_ok ?e r" by (auto simp: total_def)
    with script_outcome [of ?e r] c(1) ScComplete show ?thesis by (auto simp: parse_tokens_def)
  qed (use c texts reports_outcome [OF c(2) texts] in \<open>simp_all add: parse_tokens_def\<close>)
qed

section \<open>Entry points\<close>

lemma lex_language_run:
  assumes "utf8_valid (sf_text src)"
  shows "\<exists>toks. tiles src lang 0 toks (source_len src) \<and> lex_language_tokens lang src = Some toks \<and>
    lex_with_control lang src (\<lambda>_. False) = Some (Some toks)"
proof (rule lex_run [OF assms, of lang])
  fix M
  assume M: "\<And>c. lex_with_control lang src c = Some (if \<exists>i \<le> length (lx_tokens M). c i then None else Some (lx_tokens M))"
    "lex_language_tokens lang src = Some (lx_tokens M)"
  from lex_language_tiles [OF assms] obtain toks where t: "lex_language_tokens lang src = Some toks"
    "tiles src lang 0 toks (source_len src)" by blast
  from M(1) [of "\<lambda>_. False"] have "lex_with_control lang src (\<lambda>_. False) = Some (Some (lx_tokens M))" by simp
  with t M(2) show ?thesis by simp
qed

text \<open>Both entry points of a submission.\<close>

lemma parse_outcomes:
  assumes "utf8_valid (sf_text src)"
  shows "\<exists>x y. parse src = Returns x \<and> outcome_ok src x \<and>
    parse_v2_submission src = Returns y \<and> outcome_ok src y"
proof -
  from lex_language_run [OF assms, of LexV1] obtain toks where
    t: "tiles src LexV1 0 toks (source_len src)" "lex_language_tokens LexV1 src = Some toks"
    "lex_with_control LexV1 src (\<lambda>_. False) = Some (Some toks)" by blast
  from parse_tokens_outcome [OF assms t(1), of "parser_fuel toks" MajorV1] obtain x where
    "parse_tokens (parser_fuel toks) src toks MajorV1 (\<lambda>_. False) = Returns (Controlled x)" "outcome_ok src x"
    by (auto simp: parser_fuel_def)
  then have x: "parse src = Returns x" "outcome_ok src x"
    using t by (simp_all add: parse_def lex_def parse_with_control_def uncontrolled_def)
  from lex_language_run [OF assms, of LexV2] obtain toks2 where
    t2: "tiles src LexV2 0 toks2 (source_len src)" "lex_language_tokens LexV2 src = Some toks2" by blast
  from parse_tokens_outcome [OF assms t2(1), of "parser_fuel toks2" MajorV2] obtain y where
    "parse_tokens (parser_fuel toks2) src toks2 MajorV2 (\<lambda>_. False) = Returns (Controlled y)" "outcome_ok src y"
    by (auto simp: parser_fuel_def)
  then have "parse_v2_submission src = Returns y" "outcome_ok src y"
    using t2 by (simp_all add: parse_v2_submission_def lex_v2_def uncontrolled_def)
  with x show ?thesis by blast
qed

lemma body_tokens_filter:
  "(\<And>n. \<not> c n) \<Longrightarrow> body_tokens st c toks = Some (filter (\<lambda>t. st \<le> span_start (tk_span t)) toks)"
  by (induction st c toks rule: body_tokens.induct) auto

lemma tiles_from:
  assumes "tiles src lang a toks b"
  shows "\<exists>a'. tiles src lang a' (filter (\<lambda>t. st \<le> span_start (tk_span t)) toks) b"
  using assms
proof (induction toks arbitrary: a)
  case (Cons t toks)
  show ?case
  proof (cases "st \<le> span_start (tk_span t)")
    case True
    have "tiles src lang c ts b \<Longrightarrow> st \<le> c \<Longrightarrow> filter (\<lambda>t. st \<le> span_start (tk_span t)) ts = ts" for c ts
      by (induction ts arbitrary: c) auto
    with Cons.prems True have "filter (\<lambda>t. st \<le> span_start (tk_span t)) (t # toks) = t # toks" by auto
    with Cons.prems show ?thesis by auto
  qed (use Cons in auto)
qed auto

text \<open>C23: versioned parsing returns. On every source of valid UTF-8 \<open>parse_v2\<close> returns: the diagnostics
  of the directive detector where that rejects the tokens, and otherwise the directive with the
  outcome of its body, which is as for a submission.\<close>

theorem parse_v2_returns:
  assumes "utf8_valid (sf_text src)"
  shows "\<exists>toks r. lex_v2 src = Some toks \<and> detect_source_language_tokens src toks = Some r \<and>
    (case r of
       DetectedInvalid ds \<Rightarrow> parse_v2 src = Returns (VoInvalid ds)
     | DetectedComplete directive \<Rightarrow>
         \<exists>x. parse_v2 src = Returns (versioned directive x) \<and> outcome_ok src x)"
proof -
  from lex_language_run [OF assms, of LexV2] obtain toks where
    t: "tiles src LexV2 0 toks (source_len src)" "lex_language_tokens LexV2 src = Some toks"
    "lex_with_control LexV2 src (\<lambda>_. False) = Some (Some toks)" by blast
  from detect_tokens_result [OF t(1)] obtain r where r: "detect_source_language_tokens src toks = Some r" by blast
  have lex: "lex_v2 src = Some toks" using t(2) by (simp add: lex_v2_def)
  show ?thesis
  proof (cases r)
    case (DetectedInvalid ds)
    with t r lex show ?thesis
      by (auto simp: parse_v2_def parse_v2_with_control_def parse_v2_tokens_def uncontrolled_def)
  next
    case (DetectedComplete directive)
    let ?body = "filter (\<lambda>t. span_end (ld_span directive) \<le> span_start (tk_span t)) toks"
    from tiles_from [OF t(1), of "span_end (ld_span directive)"] obtain a where
      "tiles src LexV2 a ?body (source_len src)" ..
    moreover have "length ?body < parser_fuel toks"
      using length_filter_le [of "\<lambda>t. span_end (ld_span directive) \<le> span_start (tk_span t)" toks]
      by (simp add: parser_fuel_def del: length_filter_le)
    ultimately obtain x where
      "parse_tokens (parser_fuel toks) src ?body MajorV2 (\<lambda>_. False) = Returns (Controlled x)" "outcome_ok src x"
      using parse_tokens_outcome [OF assms] by metis
    with t r lex DetectedComplete show ?thesis
      by (auto simp: parse_v2_def parse_v2_with_control_def parse_v2_tokens_def uncontrolled_def body_tokens_filter)
  qed
qed

text \<open>A directive and a declaration.\<close>

definition versioned_sample :: source_file where
  "versioned_sample = source_file_new (SourceId 1) ''m.flash'' (''#lang flash/2'' @ [NL] @ ''let x = 1'')"

lemma parse_v2_returns_witness:
  "\<exists>toks r. lex_v2 versioned_sample = Some toks \<and> detect_source_language_tokens versioned_sample toks = Some r \<and>
    (case r of
       DetectedInvalid ds \<Rightarrow> parse_v2 versioned_sample = Returns (VoInvalid ds)
     | DetectedComplete directive \<Rightarrow>
         \<exists>x. parse_v2 versioned_sample = Returns (versioned directive x) \<and> outcome_ok versioned_sample x)"
proof -
  have "utf8_valid (sf_text versioned_sample)" by code_simp
  then show ?thesis by (rule parse_v2_returns)
qed

end
