(* ===== verification/Parser_Results.thy ===== *)
theory Parser_Results
  imports Parser_Entry
begin

text \<open>
  What the parser returns: the theorems on its entry points, a symbolic evaluation of the parser on small
  sources, and the behaviour of the arm loop of a \<open>match\<close> block after a cancellation.
\<close>

section \<open>Evaluation\<close>

text \<open>
  The simplifier runs a parser from its head: the arguments of the sequencing operators stay as they are
  until a state reaches them.
\<close>

lemma run_frozen:
  "pbind m f = pbind m f" "pseq m k = pseq m k" "pcatch m h f = pcatch m h f"
  "ploop b a = ploop b a" "rounds n b a = rounds n b a"
  by (rule refl)+

lemma run_steps:
  "pbind m f e s = (case m e s of
     Parsed (Inr x) s' \<Rightarrow> f x e s' | Parsed (Inl err) s' \<Rightarrow> Parsed (Inl err) s'
   | ParserPanic \<Rightarrow> ParserPanic | ParserDiverged \<Rightarrow> ParserDiverged)"
  "pseq n k e s = (case n e s of
     Parsed (Inr x) s' \<Rightarrow> k e s' | Parsed (Inl err) s' \<Rightarrow> Parsed (Inl err) s'
   | ParserPanic \<Rightarrow> ParserPanic | ParserDiverged \<Rightarrow> ParserDiverged)"
  "pcatch m h f e s = (case m e s of
     Parsed (Inr x) s' \<Rightarrow> f x e s' | Parsed (Inl err) s' \<Rightarrow> h err e s'
   | ParserPanic \<Rightarrow> ParserPanic | ParserDiverged \<Rightarrow> ParserDiverged)"
  by (simp_all add: pbind_def pseq_def pcatch_def)

lemma level_steps:
  "tp_statements (statement_level (Suc n)) = parse_statement_list (statement_level n)"
  "tp_if (statement_level (Suc n)) = parse_if_node (statement_level n)"
  "sp_expression (syntax_level (Suc n)) = parse_expression (syntax_level n)"
  "sp_chain (syntax_level (Suc n)) = parse_conditional_chain (syntax_level n)"
  "sp_pattern (syntax_level (Suc n)) = parse_pattern (syntax_level n)"
  "sp_unary (syntax_level (Suc n)) = parse_unary (syntax_level n)"
  by (simp_all add: statement_step_def syntax_step_def)

lemma drop_none: "drop 0 (x # xs) = x # xs"
  by simp

lemmas source_steps = source_span_def validate_offset_def is_char_boundary_def is_cont_def source_len_def
  and_then_def get_nth_def byte_val_def

lemmas parser_code =
  parser_new_def pure_def fail_def panic_def diverge_def asks_def updates_def current_def current_kind_def
  is_end_def at_kind_def at_delimiter_def at_keyword_def at_statement_separator_def move_position_def
  take_token_def take_expected_def take_kind_def take_keyword_def take_operator_def take_delimiter_def
  enter_depth_def leave_depth_def is_cancelled_def check_cancelled_def span_between_def here_span_def
  incomplete_at_def incomplete_here_def syntax_diagnostic_def invalid_at_def invalid_here_def report_def
  report_here_def expected_def expect_kind_def expect_keyword_def expect_operator_def expect_delimiter_def
  slice_is_def expect_contextual_identifier_def current_span_def previous_end_def is_inline_def
  skip_while_def skip_inline_def skip_layout_def skip_separators_def
  skip_separators_with_documentation_def synchronize_def next_non_inline_def variable_is_assignment_def
  is_word_operator_def can_start_word_def next_token_is_def starts_forced_command_def starts_closure_def
  is_redirection_operator_def io_number_before_redirection_def starts_redirection_def starts_literal_def
  starts_expression_stage_def ends_command_def at_command_end_def at_expression_end_def
  bracket_is_followed_by_call_def comma_round_def comma_list_def comma_list1_def parse_identifier_def
  parse_variable_reference_def take_double_colon_def qualified_round_def parse_qualified_name_def
  parse_type_reference_def optional_type_def constraint_round_def parse_type_parameter_def
  parse_type_parameters_def parse_braced_interpolation_def take_command_capture_modifier_def
  parse_command_substitution_node_def parse_command_substitution_def variable_part_def quoted_part_def
  quoted_round_def parse_double_quoted_def bare_round_def parse_word_part_def word_round_def
  parse_word_def simple_literal_def parse_literal_def parse_pattern_field_def record_pattern_def
  variant_pattern_def name_pattern_def list_pattern_round_def parse_list_pattern_def parse_pattern_def
  binding_pattern_def bound_name_def parse_parameter_def parse_parameters_def closure_parameters_def
  parse_closure_def parse_spread_item_def parse_redirection_target_def redirection_kind_at_def
  parse_redirection_item_def parse_command_item_def item_round_def parse_command_head_def
  parse_command_stage_def parse_list_def parse_record_key_def parse_record_entry_def parse_record_def
  parse_grouped_job_def parse_primary_def postfix_segment_def parse_nominal_field_def postfix_record_def
  postfix_call_def postfix_index_def explicit_type_arguments_def postfix_bracket_def postfix_member_def
  postfix_round_def parse_postfix_def unary_operator_of_def parse_unary_def binary_def left_round_def
  left_associative_def non_associative_def multiplicative_operator_def additive_operator_def
  range_operator_def comparison_operator_def equality_operator_def parse_multiplicative_def
  parse_additive_def parse_range_def parse_comparison_def parse_equality_def parse_expression_def
  parse_stage_def chain_round_def parse_chain_def pipe_operator_of_def parse_pipeline_def
  parse_and_chain_def parse_conditional_chain_def syntax_step_def expression_entry_def chain_entry_def
  pattern_entry_def statement_between_def parse_module_name_list_def import_names_def parse_import_def
  import_source_def parse_module_import_def parse_nominal_type_field_def parse_nominal_type_def
  parse_variant_def parse_variant_type_def parse_declaration_def parse_assignment_def parse_export_def
  parse_unset_def parse_throw_def parse_control_def parse_return_def parse_job_statement_def
  parse_block_def parse_function_def parse_try_def parse_else_def parse_if_node_def parse_if_def
  parse_while_def parse_for_def match_guard_def parse_match_arm_def recover_arm_def match_round_def
  parse_match_def keyword_statement_def parse_statement_def resynchronize_def after_statement_def
  statement_round_def parse_statement_list_def statement_step_def parse_script_def parse_outcome_of_def
  parse_tokens_def parse_with_control_def uncontrolled_def parse_def parse_v2_submission_def versioned_def
  parse_v2_tokens_def parse_v2_with_control_def parse_v2_def


section \<open>Parsing returns\<close>

text \<open>What an outcome that is no script says of the source.\<close>

fun outcome_reports :: "source_file \<Rightarrow> parse_outcome \<Rightarrow> bool" where
  "outcome_reports src (PoComplete _) \<longleftrightarrow> True"
| "outcome_reports src (PoIncomplete i) \<longleftrightarrow> span_of src (ii_span i)"
| "outcome_reports src (PoInvalid ds) \<longleftrightarrow> ds \<noteq> [] \<and> (\<forall>d \<in> set ds. error_in src d)"

lemma outcome_ok_reports: "outcome_ok src x \<Longrightarrow> outcome_reports src x"
proof (cases x)
  case (PoComplete script)
  then show ?thesis by simp
qed simp_all

text \<open>C2: parsing returns. On every source of valid UTF-8 both entry points of a submission return: they
  neither panic nor run out of fuel, that is, the loops and the recursion of the parser end after at
  most as many rounds as there are tokens. Incomplete input names a span of the source, and invalid
  input carries at least one diagnostic, each with its label in the source.\<close>

theorem parse_returns:
  assumes "utf8_valid (sf_text src)"
  shows "\<exists>x y. parse src = Returns x \<and> outcome_reports src x \<and>
    parse_v2_submission src = Returns y \<and> outcome_reports src y"
  using parse_outcomes [OF assms] outcome_ok_reports by blast

text \<open>C3: complete scripts are well formed. Where parsing completes, the script spans the source, and its
  statements follow one another in it without overlap, each with a span of the source and \<open>well_statement\<close>, which
  goes through the whole tree but for patterns, parameters and types: the blocks of functions, conditionals, loops,
  arms and handlers with their own statements in order, and all expressions below, also those in records, closures,
  words, commands, redirections and chains. There, below every operator stand only operands that bind at least as
  tightly, and one more tightly on the right of a left-associative operator; the span of every node encloses the
  spans of the nodes below it, and that of an operator expression runs from its first operand or operator to
  the end of its last operand, with the operator between them.\<close>

theorem parse_well_formed:
  assumes "utf8_valid (sf_text src)" and "parse src = Returns (PoComplete (Script xs sp))"
  shows "statements_in src 0 xs (source_len src) \<and>
    sp = \<lparr>span_source_id = sf_id src, span_start = 0, span_end = source_len src\<rparr>"
  using parse_outcomes [OF assms(1)] assms(2) by auto

definition sum_sample :: source_file where
  "sum_sample = source_file_new (SourceId 1) ''s.flash'' ''let x = 1 + 2 * 3''"

definition sum_tokens :: "token list" where
  "sum_tokens =
    [\<lparr>tk_kind = TkKeyword KwLet, tk_span = \<lparr>span_source_id = SourceId 1, span_start = 0, span_end = 3\<rparr>\<rparr>,
     \<lparr>tk_kind = TkWhitespace, tk_span = \<lparr>span_source_id = SourceId 1, span_start = 3, span_end = 4\<rparr>\<rparr>,
     \<lparr>tk_kind = TkIdentifier, tk_span = \<lparr>span_source_id = SourceId 1, span_start = 4, span_end = 5\<rparr>\<rparr>,
     \<lparr>tk_kind = TkWhitespace, tk_span = \<lparr>span_source_id = SourceId 1, span_start = 5, span_end = 6\<rparr>\<rparr>,
     \<lparr>tk_kind = TkOperator OpAssign, tk_span = \<lparr>span_source_id = SourceId 1, span_start = 6, span_end = 7\<rparr>\<rparr>,
     \<lparr>tk_kind = TkWhitespace, tk_span = \<lparr>span_source_id = SourceId 1, span_start = 7, span_end = 8\<rparr>\<rparr>,
     \<lparr>tk_kind = TkNumber NumInteger, tk_span = \<lparr>span_source_id = SourceId 1, span_start = 8, span_end = 9\<rparr>\<rparr>,
     \<lparr>tk_kind = TkWhitespace, tk_span = \<lparr>span_source_id = SourceId 1, span_start = 9, span_end = 10\<rparr>\<rparr>,
     \<lparr>tk_kind = TkOperator OpPlus, tk_span = \<lparr>span_source_id = SourceId 1, span_start = 10, span_end = 11\<rparr>\<rparr>,
     \<lparr>tk_kind = TkWhitespace, tk_span = \<lparr>span_source_id = SourceId 1, span_start = 11, span_end = 12\<rparr>\<rparr>,
     \<lparr>tk_kind = TkNumber NumInteger, tk_span = \<lparr>span_source_id = SourceId 1, span_start = 12, span_end = 13\<rparr>\<rparr>,
     \<lparr>tk_kind = TkWhitespace, tk_span = \<lparr>span_source_id = SourceId 1, span_start = 13, span_end = 14\<rparr>\<rparr>,
     \<lparr>tk_kind = TkOperator OpStar, tk_span = \<lparr>span_source_id = SourceId 1, span_start = 14, span_end = 15\<rparr>\<rparr>,
     \<lparr>tk_kind = TkWhitespace, tk_span = \<lparr>span_source_id = SourceId 1, span_start = 15, span_end = 16\<rparr>\<rparr>,
     \<lparr>tk_kind = TkNumber NumInteger, tk_span = \<lparr>span_source_id = SourceId 1, span_start = 16, span_end = 17\<rparr>\<rparr>]"

definition sum_env :: parser_env where
  "sum_env = \<lparr>pe_source = sum_sample, pe_tokens = sum_tokens, pe_language = MajorV1,
     pe_cancelled = \<lambda>_. False, pe_fuel = parser_fuel sum_tokens\<rparr>"

definition sum_value :: expression where
  "sum_value =
     AstNode (EkBinary
       (AstNode (EkLiteral (Literal LkInteger \<lparr>span_source_id = SourceId 1, span_start = 8, span_end = 9\<rparr>)) \<lparr>span_source_id = SourceId 1, span_start = 8, span_end = 9\<rparr>)
       (AstNode BinAdd \<lparr>span_source_id = SourceId 1, span_start = 10, span_end = 11\<rparr>)
       (AstNode (EkBinary
          (AstNode (EkLiteral (Literal LkInteger \<lparr>span_source_id = SourceId 1, span_start = 12, span_end = 13\<rparr>)) \<lparr>span_source_id = SourceId 1, span_start = 12, span_end = 13\<rparr>)
          (AstNode BinMultiply \<lparr>span_source_id = SourceId 1, span_start = 14, span_end = 15\<rparr>)
          (AstNode (EkLiteral (Literal LkInteger \<lparr>span_source_id = SourceId 1, span_start = 16, span_end = 17\<rparr>)) \<lparr>span_source_id = SourceId 1, span_start = 16, span_end = 17\<rparr>))
         \<lparr>span_source_id = SourceId 1, span_start = 12, span_end = 17\<rparr>))
       \<lparr>span_source_id = SourceId 1, span_start = 8, span_end = 17\<rparr>"

definition sum_statement :: statement where
  "sum_statement =
     AstNode (StDeclaration False (PatBinding (Identifier \<lparr>span_source_id = SourceId 1, span_start = 4, span_end = 5\<rparr>)) (Identifier \<lparr>span_source_id = SourceId 1, span_start = 4, span_end = 5\<rparr>) None sum_value) \<lparr>span_source_id = SourceId 1, span_start = 0, span_end = 17\<rparr>"

lemma sum_valid: "utf8_valid (sf_text sum_sample)"
  by code_simp

lemma sum_lex:
  "lex_language_tokens LexV1 sum_sample = Some sum_tokens"
  "lex_with_control LexV1 sum_sample (\<lambda>_. False) = Some (Some sum_tokens)"
  by code_simp+

lemma sum_classified: "classify_tokens sum_sample sum_tokens = Inr ScComplete"
  by code_simp

lemma sum_fields:
  "pe_source sum_env = sum_sample" "pe_tokens sum_env = sum_tokens" "pe_language sum_env = MajorV1"
  "pe_cancelled sum_env = (\<lambda>_. False)"
  "ploop b a sum_env s = rounds (Suc (Suc (Suc (Suc (Suc (Suc (Suc (Suc (Suc (Suc (Suc (Suc (Suc (Suc (Suc (Suc (Suc 0))))))))))))))))) b a sum_env s"
  "pe_fuel sum_env = (Suc (Suc (Suc (Suc (Suc (Suc (Suc (Suc (Suc (Suc (Suc (Suc (Suc (Suc (Suc (Suc (Suc 0)))))))))))))))))"
  by (simp_all add: sum_env_def parser_fuel_def sum_tokens_def ploop_def)

lemmas sum_reads =
  sum_tokens_def [THEN arg_cong [where f = "\<lambda>x. x ! n" for n]]
  sum_tokens_def [THEN arg_cong [where f = "\<lambda>x. drop n x" for n]]
  sum_tokens_def [THEN arg_cong [where f = "\<lambda>x. length x"]]

lemma sum_script:
  "\<exists>s. parse_script sum_env parser_new = Parsed (Inr (Script [sum_statement] \<lparr>span_source_id = SourceId 1, span_start = 0, span_end = 17\<rparr>)) s"
  by (simp add: parser_code level_steps run_steps source_steps drop_none sum_fields sum_reads sum_sample_def
      sum_statement_def sum_value_def
      del: drop_0 drop0 syntax_level.simps statement_level.simps cong: run_frozen)

lemma sum_parsed: "parse sum_sample = Returns (PoComplete (Script [sum_statement] \<lparr>span_source_id = SourceId 1, span_start = 0, span_end = 17\<rparr>))"
proof -
  from sum_script obtain s where "parse_script sum_env parser_new = Parsed (Inr (Script [sum_statement] \<lparr>span_source_id = SourceId 1, span_start = 0, span_end = 17\<rparr>)) s" ..
  then show ?thesis
    by (simp add: parse_def lex_def parse_with_control_def parse_tokens_def sum_lex sum_classified uncontrolled_def
        sum_env_def parse_outcome_of_def Let_def)
qed

lemma parse_returns_witness:
  "\<exists>x y. parse sum_sample = Returns x \<and> outcome_reports sum_sample x \<and>
    parse_v2_submission sum_sample = Returns y \<and> outcome_reports sum_sample y"
  by (rule parse_returns [OF sum_valid])

lemma parse_well_formed_witness:
  "parse sum_sample = Returns (PoComplete (Script [sum_statement] \<lparr>span_source_id = SourceId 1, span_start = 0, span_end = 17\<rparr>)) \<and>
   statements_in sum_sample 0 [sum_statement] 17"
  using parse_well_formed [OF sum_valid sum_parsed] sum_parsed
  by (simp add: source_len_def sum_sample_def)

section \<open>Cancellation in a match block\<close>

text \<open>Skipping and synchronizing stop where they are once the predicate answers yes.\<close>

lemma skip_tokens_cancelled: "c polls \<Longrightarrow> \<exists>k. skip_tokens p c ts pos polls = (pos, k) \<and> polls \<le> k"
  by (cases ts) auto

lemma synchronize_scan_cancelled:
  "c polls \<Longrightarrow> \<exists>k. synchronize_scan closing c ts pos polls opened = (pos, k) \<and> polls \<le> k"
  by (cases ts) auto

definition stuck_at :: "parser_env \<Rightarrow> nat \<Rightarrow> parser_state \<Rightarrow> bool" where
  "stuck_at e p s \<longleftrightarrow> ps_position s = p \<and> (\<forall>n \<ge> ps_polls s. pe_cancelled e n)"

lemma recover_arm_stuck:
  assumes "stuck_at e p s"
  shows "\<exists>s'. recover_arm d e s = Parsed (Inr ()) s' \<and> stuck_at e p s'"
proof -
  have c: "pe_cancelled e n" if "ps_polls s \<le> n" for n using assms that by (simp add: stuck_at_def)
  have p: "ps_position s = p" using assms by (simp add: stuck_at_def)
  from synchronize_scan_cancelled [where c = "pe_cancelled e", OF c [OF order_refl]]
  obtain k where k: "synchronize_scan (Some DlRightBrace) (pe_cancelled e) (drop p (pe_tokens e)) p (ps_polls s) 0
      = (p, k)" "ps_polls s \<le> k" by blast
  from skip_tokens_cancelled [where c = "pe_cancelled e", OF c [OF k(2)]]
  obtain l where l: "skip_tokens (\<lambda>k. is_inline k \<or> k = TkNewline \<or> k = TkOperator OpSemicolon)
      (pe_cancelled e) (drop p (pe_tokens e)) p k = (p, l)" "k \<le> l" by blast
  from c p k l show ?thesis
    by (simp add: recover_arm_def run_steps report_def updates_def synchronize_def skip_separators_def
        skip_while_def stuck_at_def)
qed

text \<open>A token that neither starts a pattern nor closes the block.\<close>

definition starts_no_arm :: "token_kind \<Rightarrow> bool" where
  "starts_no_arm k \<longleftrightarrow>
     k \<notin> {TkIdentifier, TkDelimiter DlLeftBracket, TkDelimiter DlRightBrace} \<and> \<not> starts_literal k"

lemma parse_pattern_refuses:
  assumes "current e s = Some t" and "starts_no_arm (tk_kind t)"
  shows "parse_pattern R e s =
    Parsed (Inl (PeInvalid (syntax_diagnostic (tk_span t) ''expected a match pattern''))) s"
  using assms
  by (auto simp: parse_pattern_def run_steps asks_def current_kind_def invalid_here_def here_span_def pure_def
      invalid_at_def fail_def starts_no_arm_def)

lemma parse_match_arm_refuses:
  assumes now: "current e s = Some t" and t: "starts_no_arm (tk_kind t)"
  shows "parse_match_arm T e s = (if pe_fuel e = 0 then ParserDiverged
    else Parsed (Inl (PeInvalid (syntax_diagnostic (tk_span t) ''expected a match pattern''))) s)"
proof -
  have span: "current_span e s = Parsed (Inr (tk_span t)) s"
    by (simp add: current_span_def run_steps asks_def now pure_def)
  have "pattern_entry e s = (if pe_fuel e = 0 then ParserDiverged
      else Parsed (Inl (PeInvalid (syntax_diagnostic (tk_span t) ''expected a match pattern''))) s)"
    by (cases "pe_fuel e")
      (simp_all add: pattern_entry_def diverge_def level_steps(5) parse_pattern_refuses [OF now t]
        del: syntax_level.simps(2))
  with span show ?thesis by (simp add: parse_match_arm_def run_steps)
qed

lemma match_round_stuck:
  assumes "stuck_at e p s" and "get_nth (pe_tokens e) p = Some t" and "starts_no_arm (tk_kind t)"
  shows "match_round T arms e s = ParserDiverged \<or>
    (\<exists>s'. match_round T arms e s = Parsed (Inr (Inr arms)) s' \<and> stuck_at e p s')"
proof -
  let ?d = "syntax_diagnostic (tk_span t) ''expected a match pattern''"
  from assms(1,2) have now: "current e s = Some t" by (simp add: current_def stuck_at_def del: get_nth_eq_Some)
  have open_block: "\<not> at_delimiter (Some DlRightBrace) e s"
    using now assms(3) by (auto simp: at_delimiter_def at_kind_def current_kind_def starts_no_arm_def)
  from recover_arm_stuck [OF assms(1), of ?d] obtain s' where
    "recover_arm ?d e s = Parsed (Inr ()) s'" "stuck_at e p s'" by blast
  with open_block parse_match_arm_refuses [OF now assms(3), of T] show ?thesis
    by (simp add: match_round_def run_steps asks_def pure_def)
qed

text \<open>C24: a cancelled match block spins. Where the predicate has answered yes for good and the arm loop of
  a \<open>match\<close> stands at a token that starts no arm and does not close the block (a newline that the
  cancelled skip left behind), the loop does not end: no number of rounds suffices, since the recovery
  of a refused arm moves by no token and does not report the cancellation.\<close>

theorem match_cancellation_spins:
  assumes "\<forall>n \<ge> ps_polls s. pe_cancelled e n"
    and "current e s = Some t" and "starts_no_arm (tk_kind t)"
  shows "rounds n (match_round T) arms e s = ParserDiverged"
proof -
  have "stuck_at e (ps_position s) s" "get_nth (pe_tokens e) (ps_position s) = Some t"
    using assms by (simp_all add: stuck_at_def current_def)
  then show ?thesis
  proof (induction n arbitrary: arms s)
    case (Suc n)
    then show ?case
      using match_round_stuck [OF Suc.prems assms(3), of T arms]
      by (auto simp: run_steps stuck_at_def)
  qed (simp add: diverge_def)
qed

text \<open>The newline behind the brace, with the predicate answering yes from the first question on.\<close>

definition spin_env :: "nat \<Rightarrow> parser_env" where
  "spin_env fuel = \<lparr>pe_source = sum_sample,
     pe_tokens = [\<lparr>tk_kind = TkNewline, tk_span = \<lparr>span_source_id = SourceId 1, span_start = 0, span_end = 3\<rparr>\<rparr>], pe_language = MajorV1,
     pe_cancelled = \<lambda>_. True, pe_fuel = fuel\<rparr>"

lemma match_cancellation_spins_witness:
  "\<forall>T fuel n. rounds n (match_round T) [] (spin_env fuel) parser_new = ParserDiverged"
proof (intro allI)
  fix T fuel n
  let ?t = "\<lparr>tk_kind = TkNewline, tk_span = \<lparr>span_source_id = SourceId 1, span_start = 0, span_end = 3\<rparr>\<rparr>"
  have "current (spin_env fuel) parser_new = Some ?t"
    by (simp add: current_def spin_env_def parser_new_def get_nth_def)
  then show "rounds n (match_round T) [] (spin_env fuel) parser_new = ParserDiverged"
    by (rule match_cancellation_spins [rotated]) (simp_all add: spin_env_def starts_no_arm_def starts_literal_def)
qed

end
