(* ===== verification/Value_Type.thy ===== *)
theory Value_Type
  imports Ast Language
begin

text \<open>
  Resolved value types and the tables the evaluator reads them from, from \<open>flash-runtime/src/module.rs\<close>:
  module identities, nominal declarations, function signatures and \<open>RuntimeBindingTypes\<close>. The tables are
  the result of the analysis of a program, which is not modelled; a \<open>BTreeMap\<close> that is only looked up is
  its list of entries.
\<close>

section \<open>Module identities\<close>

datatype module_origin = OriginLocal | OriginStandard string string

datatype module_id =
  ModuleId (mi_path: string) (mi_language: language_major) (mi_origin: module_origin)

definition module_standard :: "string \<Rightarrow> string \<Rightarrow> language_major \<Rightarrow> module_id" where
  "module_standard namespace module language =
     ModuleId (namespace @ ''::'' @ module) language (OriginStandard namespace module)"

datatype nominal_type_id = NominalTypeId (nt_module: module_id) (nt_name: string)

section \<open>Value types\<close>

datatype value_type =
    VtAny | VtNull | VtBool | VtInt | VtFloat | VtString | VtBytes | VtPath | VtDuration | VtByteSize
  | VtList value_type
  | VtRecord | VtTable | VtRange | VtStatus | VtError | VtFunction | VtClosure
  | VtTypeParameter string
  | VtNominal nominal_type_id "value_type list"

fun accepts_type :: "value_type \<Rightarrow> value_type \<Rightarrow> bool" where
  "accepts_type VtAny actual = True"
| "accepts_type (VtList t) actual = (case actual of VtList u \<Rightarrow> accepts_type t u | _ \<Rightarrow> False)"
| "accepts_type t actual = (t = actual)"

fun join_with :: "string \<Rightarrow> string list \<Rightarrow> string" where
  "join_with sep [] = []"
| "join_with sep [x] = x"
| "join_with sep (x # y # xs) = x @ sep @ join_with sep (y # xs)"

fun type_text :: "value_type \<Rightarrow> string" where
  "type_text VtAny = ''Any''"
| "type_text VtNull = ''Null''"
| "type_text VtBool = ''Bool''"
| "type_text VtInt = ''Int''"
| "type_text VtFloat = ''Float''"
| "type_text VtString = ''String''"
| "type_text VtBytes = ''Bytes''"
| "type_text VtPath = ''Path''"
| "type_text VtDuration = ''Duration''"
| "type_text VtByteSize = ''ByteSize''"
| "type_text (VtList t) = ''List['' @ type_text t @ '']''"
| "type_text VtRecord = ''Record''"
| "type_text VtTable = ''Table''"
| "type_text VtRange = ''Range''"
| "type_text VtStatus = ''Status''"
| "type_text VtError = ''Error''"
| "type_text VtFunction = ''Function''"
| "type_text VtClosure = ''Closure''"
| "type_text (VtTypeParameter name) = name"
| "type_text (VtNominal i arguments) =
     nt_name i @ (if arguments = [] then [] else ''['' @ join_with '', '' (map type_text arguments) @ '']'')"

type_synonym substitutions = "(string \<times> value_type) list"

fun substitute_type :: "substitutions \<Rightarrow> value_type \<Rightarrow> value_type" where
  "substitute_type subst (VtTypeParameter name) =
     (case map_of subst name of None \<Rightarrow> VtTypeParameter name | Some t \<Rightarrow> t)"
| "substitute_type subst (VtList t) = VtList (substitute_type subst t)"
| "substitute_type subst (VtNominal i arguments) = VtNominal i (map (substitute_type subst) arguments)"
| "substitute_type subst t = t"

text \<open>\<open>substitutions.entry(name).or_insert(t)\<close> and \<open>substitutions.insert(name, t)\<close>.\<close>

definition or_insert :: "string \<Rightarrow> value_type \<Rightarrow> substitutions \<Rightarrow> substitutions" where
  "or_insert name t subst = (case map_of subst name of None \<Rightarrow> (name, t) # subst | Some _ \<Rightarrow> subst)"

text \<open>The actual type gives the parameters of the expected one; the first assignment stays.\<close>

fun infer_runtime_type_value :: "value_type \<Rightarrow> value_type \<Rightarrow> substitutions \<Rightarrow> substitutions" where
  "infer_runtime_type_value (VtTypeParameter name) actual subst = or_insert name actual subst"
| "infer_runtime_type_value (VtList t) actual subst =
     (case actual of VtList u \<Rightarrow> infer_runtime_type_value t u subst | _ \<Rightarrow> subst)"
| "infer_runtime_type_value (VtNominal i ts) actual subst =
     (case actual of
        VtNominal j us \<Rightarrow>
          if i = j \<and> length ts = length us then
            foldl (\<lambda>s f. f s) subst (map2 (\<lambda>f u. f u) (map infer_runtime_type_value ts) us)
          else subst
      | _ \<Rightarrow> subst)"
| "infer_runtime_type_value _ actual subst = subst"

section \<open>Declarations\<close>

datatype resolved_type_parameter =
  ResolvedTypeParameter (rt_name: string) (rt_constraints: "type_constraint list")

datatype nominal_type_kind = NominalRecordKind | NominalVariantKind

datatype nominal_field_schema = NominalFieldSchema (nfs_name: string) (nfs_type: value_type)

datatype nominal_variant = NominalVariant (nv_name: string) (nv_payload: "value_type list")

datatype nominal_type =
  NominalType (nm_id: nominal_type_id) (nm_kind: nominal_type_kind)
    (nm_parameters: "resolved_type_parameter list") (nm_fields: "nominal_field_schema list")
    (nm_variants: "nominal_variant list")

datatype function_parameter_signature =
  FunctionParameterSignature (fps_name: string) (fps_type: value_type)

datatype function_signature =
  FunctionSignature (fs_name: string) (fs_span: span) (fs_type_parameters: "resolved_type_parameter list")
    (fs_parameters: "function_parameter_signature list") (fs_result: value_type)

datatype module_aliases =
  ModuleAliases (ma_aliases: "(string \<times> module_id) list") (ma_exports: "(string \<times> module_id) list")

datatype runtime_binding_types =
  RuntimeBindingTypes
    (bt_bindings: "(source_id \<times> (span \<times> value_type) list) list")
    (bt_functions: "(source_id \<times> function_signature list) list")
    (bt_annotations: "(source_id \<times> (span \<times> value_type) list) list")
    (bt_modules: "(source_id \<times> module_id) list")
    (bt_nominals: "(module_id \<times> (string \<times> nominal_type) list) list")
    (bt_aliases: "(module_id \<times> module_aliases) list")

definition binding_types_default :: runtime_binding_types where
  "binding_types_default = RuntimeBindingTypes [] [] [] [] [] []"

section \<open>Lookups\<close>

definition language_of :: "runtime_binding_types \<Rightarrow> source_id \<Rightarrow> language_major option" where
  "language_of B src = map_option mi_language (map_of (bt_modules B) src)"

definition binding_type :: "runtime_binding_types \<Rightarrow> source_id \<Rightarrow> span \<Rightarrow> value_type option" where
  "binding_type B src sp = Option.bind (map_of (bt_bindings B) src) (\<lambda>m. map_of m sp)"

definition annotation_type :: "runtime_binding_types \<Rightarrow> source_id \<Rightarrow> span \<Rightarrow> value_type option" where
  "annotation_type B src sp = Option.bind (map_of (bt_annotations B) src) (\<lambda>m. map_of m sp)"

definition function_signature_of ::
  "runtime_binding_types \<Rightarrow> source_id \<Rightarrow> span \<Rightarrow> function_signature option" where
  "function_signature_of B src sp =
     Option.bind (map_of (bt_functions B) src) (find (\<lambda>f. fs_span f = sp))"

definition function_result_type :: "runtime_binding_types \<Rightarrow> source_id \<Rightarrow> span \<Rightarrow> value_type option" where
  "function_result_type B src sp = map_option fs_result (function_signature_of B src sp)"

definition alias_target :: "runtime_binding_types \<Rightarrow> module_id \<Rightarrow> string \<Rightarrow> module_id option" where
  "alias_target B m name = Option.bind (map_of (bt_aliases B) m) (\<lambda>a. map_of (ma_aliases a) name)"

definition export_target :: "runtime_binding_types \<Rightarrow> module_id \<Rightarrow> string \<Rightarrow> module_id option" where
  "export_target B m name = Option.bind (map_of (bt_aliases B) m) (\<lambda>a. map_of (ma_exports a) name)"

fun resolve_exports :: "runtime_binding_types \<Rightarrow> module_id \<Rightarrow> string list \<Rightarrow> module_id option" where
  "resolve_exports B m [] = Some m"
| "resolve_exports B m (s # ss) = Option.bind (export_target B m s) (\<lambda>t. resolve_exports B t ss)"

fun resolve_alias :: "runtime_binding_types \<Rightarrow> module_id \<Rightarrow> string list \<Rightarrow> module_id option" where
  "resolve_alias B m [] = None"
| "resolve_alias B m (s # ss) = Option.bind (alias_target B m s) (\<lambda>t. resolve_exports B t ss)"

definition nominal_at :: "runtime_binding_types \<Rightarrow> module_id \<Rightarrow> string \<Rightarrow> nominal_type option" where
  "nominal_at B m name = Option.bind (map_of (bt_nominals B) m) (\<lambda>n. map_of n name)"

definition qualified_nominal ::
  "runtime_binding_types \<Rightarrow> source_id \<Rightarrow> string list \<Rightarrow> nominal_type option" where
  "qualified_nominal B src segments =
     (if segments = [] then None
      else do {
        current \<leftarrow> map_of (bt_modules B) src;
        owner \<leftarrow> (if butlast segments = [] then Some current else resolve_alias B current (butlast segments));
        nominal_at B owner (last segments)
      })"

definition qualified_variant ::
  "runtime_binding_types \<Rightarrow> source_id \<Rightarrow> string list \<Rightarrow> (nominal_type \<times> string) option" where
  "qualified_variant B src segments =
     (if segments = [] then None
      else do {
        nominal \<leftarrow> qualified_nominal B src (butlast segments);
        Some (nominal, last segments)
      })"

section \<open>Constraints\<close>

definition nominal_substitutions :: "nominal_type \<Rightarrow> value_type list \<Rightarrow> substitutions" where
  "nominal_substitutions n arguments = rev (zip (map rt_name (nm_parameters n)) arguments)"

text \<open>The declared nominals of a table.\<close>

definition declared_ids :: "runtime_binding_types \<Rightarrow> nominal_type_id list" where
  "declared_ids B = concat (map (\<lambda>(m, ns). map (\<lambda>(name, _). NominalTypeId m name) ns) (bt_nominals B))"

lemma nominal_at_declared: "nominal_at B (nt_module i) (nt_name i) = Some n \<Longrightarrow> i \<in> set (declared_ids B)"
  by (cases i) (fastforce simp: nominal_at_def declared_ids_def bind_eq_Some_conv dest!: map_of_SomeD)

fun satisfies_ordered :: "value_type \<Rightarrow> bool" where
  "satisfies_ordered (VtList t) = satisfies_ordered t"
| "satisfies_ordered t \<longleftrightarrow> t \<in> {VtInt, VtFloat, VtString, VtBytes, VtPath, VtDuration, VtByteSize}"

text \<open>\<open>visiting\<close> holds the nominals on the way down; one that comes again is taken to satisfy.\<close>

function satisfies_equal :: "runtime_binding_types \<Rightarrow> nominal_type_id list \<Rightarrow> value_type \<Rightarrow> bool" where
  "satisfies_equal B visiting (VtList t) = satisfies_equal B visiting t"
| "satisfies_equal B visiting (VtNominal i arguments) =
     (if \<not> list_all (satisfies_equal B visiting) arguments then False
      else if i \<in> set visiting then True
      else
        (case nominal_at B (nt_module i) (nt_name i) of
           None \<Rightarrow> False
         | Some n \<Rightarrow>
             length (nm_parameters n) = length arguments \<and>
             list_all (\<lambda>t. satisfies_equal B (i # visiting) (substitute_type (nominal_substitutions n arguments) t))
               (map nfs_type (nm_fields n) @ concat (map nv_payload (nm_variants n)))))"
| "satisfies_equal B visiting VtAny = False"
| "satisfies_equal B visiting VtFunction = False"
| "satisfies_equal B visiting VtClosure = False"
| "satisfies_equal B visiting (VtTypeParameter name) = False"
| "satisfies_equal B visiting VtNull = True"
| "satisfies_equal B visiting VtBool = True"
| "satisfies_equal B visiting VtInt = True"
| "satisfies_equal B visiting VtFloat = True"
| "satisfies_equal B visiting VtString = True"
| "satisfies_equal B visiting VtBytes = True"
| "satisfies_equal B visiting VtPath = True"
| "satisfies_equal B visiting VtDuration = True"
| "satisfies_equal B visiting VtByteSize = True"
| "satisfies_equal B visiting VtRecord = True"
| "satisfies_equal B visiting VtTable = True"
| "satisfies_equal B visiting VtRange = True"
| "satisfies_equal B visiting VtStatus = True"
| "satisfies_equal B visiting VtError = True"
  by pat_completeness auto

text \<open>A field is looked into only below a declared nominal that is not on the way yet.\<close>

termination
proof (relation "inv_image (less_than <*lex*> less_than)
    (\<lambda>(B, visiting, t). (card (set (declared_ids B) - set visiting), size t))", goal_cases)
  case (4 B visiting i arguments n t)
  have "i \<in> set (declared_ids B) - set visiting" using 4 nominal_at_declared by auto
  then have "card (set (declared_ids B) - set (i # visiting)) < card (set (declared_ids B) - set visiting)"
    by (intro psubset_card_mono) auto
  then show ?case by simp
qed (auto simp: less_Suc_eq_le size_list_estimation' intro: size_list_estimation')

definition type_satisfies_constraint ::
  "runtime_binding_types \<Rightarrow> value_type \<Rightarrow> type_constraint \<Rightarrow> bool" where
  "type_satisfies_constraint B t c =
     (case c of TcEqual \<Rightarrow> satisfies_equal B [] t | TcOrdered \<Rightarrow> satisfies_ordered t)"

end
