(* ===== verification/Float64.thy ===== *)
theory Float64
  imports Prelude "HOL-Library.Code_Target_Int" Complex_Main
begin

text \<open>
  The part of IEEE 754 binary64 that the runtime uses, and of Rust's \<open>f64\<close> over it.

  An \<open>f64\<close> is its exact value: a rational number \<open>m * 2^e\<close>, or \<open>None\<close> for an infinity or a NaN. The runtime
  rejects those and normalizes the negative zero before it keeps a result (\<open>FiniteFloat::new\<close>), and none
  of its operations tells the two zeros apart, so the value determines the bits that it keeps.
\<close>

type_synonym f64 = "rat option"

section \<open>Rounding\<close>

definition pow2 :: "int \<Rightarrow> rat" where
  "pow2 e = (if 0 \<le> e then 2 ^ nat e else 1 / 2 ^ nat (- e))"

fun ilog2 :: "nat \<Rightarrow> nat" where
  "ilog2 n = (if n < 2 then 0 else Suc (ilog2 (n div 2)))"

declare ilog2.simps [simp del]

text \<open>The exponent of the binade of a positive number.\<close>

definition binade :: "rat \<Rightarrow> int" where
  "binade x = (let (n, d) = quotient_of x; k = int (ilog2 (nat n)) - int (ilog2 (nat d)) in
     if pow2 k \<le> x then k else k - 1)"

text \<open>To the nearest integer, ties to even.\<close>

definition round_even :: "rat \<Rightarrow> int" where
  "round_even x = (let q = \<lfloor>x\<rfloor>; r = x - of_int q in
     if r < 1 / 2 \<or> r = 1 / 2 \<and> even q then q else q + 1)"

text \<open>The exponent of the last of the 53 digits; subnormal numbers share the least one.\<close>

definition last_digit :: "rat \<Rightarrow> int" where
  "last_digit x = (if x = 0 then - 1074 else max (- 1074) (binade \<bar>x\<bar> - 52))"

definition round_at :: "int \<Rightarrow> rat \<Rightarrow> rat" where
  "round_at e x = of_int (round_even (x / pow2 e)) * pow2 e"

definition f64_round :: "rat \<Rightarrow> f64" where
  "f64_round x = (let y = round_at (last_digit x) x in if \<bar>y\<bar> < pow2 1024 then Some y else None)"

section \<open>Operations\<close>

definition f64_add :: "f64 \<Rightarrow> f64 \<Rightarrow> f64" where
  "f64_add a b = do { x \<leftarrow> a; y \<leftarrow> b; f64_round (x + y) }"

definition f64_sub :: "f64 \<Rightarrow> f64 \<Rightarrow> f64" where
  "f64_sub a b = do { x \<leftarrow> a; y \<leftarrow> b; f64_round (x - y) }"

definition f64_mul :: "f64 \<Rightarrow> f64 \<Rightarrow> f64" where
  "f64_mul a b = do { x \<leftarrow> a; y \<leftarrow> b; f64_round (x * y) }"

text \<open>Only for a divisor that is not zero.\<close>

definition f64_div :: "f64 \<Rightarrow> f64 \<Rightarrow> f64" where
  "f64_div a b = do { x \<leftarrow> a; y \<leftarrow> b; f64_round (x / y) }"

definition f64_floor :: "f64 \<Rightarrow> f64" where
  "f64_floor a = map_option (\<lambda>x. of_int \<lfloor>x\<rfloor>) a"

definition rat_trunc :: "rat \<Rightarrow> int" where
  "rat_trunc x = (if 0 \<le> x then \<lfloor>x\<rfloor> else - \<lfloor>- x\<rfloor>)"

definition f64_of_int :: "int \<Rightarrow> f64" where
  "f64_of_int i = f64_round (of_int i)"

section \<open>Decimal text\<close>

text \<open>\<open>str::parse\<close> on the spellings of the lexer: digits, an optional fraction and an optional exponent.\<close>

definition digit_value :: "char \<Rightarrow> nat option" where
  "digit_value c = (if CHR ''0'' \<le> c \<and> c \<le> CHR ''9'' then Some (of_char c - 48) else None)"

fun digits_value :: "nat \<Rightarrow> string \<Rightarrow> nat option" where
  "digits_value acc [] = Some acc"
| "digits_value acc (c # cs) =
     (case digit_value c of None \<Rightarrow> None | Some d \<Rightarrow> digits_value (acc * 10 + d) cs)"

definition pow10 :: "int \<Rightarrow> rat" where
  "pow10 e = (if 0 \<le> e then 10 ^ nat e else 1 / 10 ^ nat (- e))"

definition split_char :: "char set \<Rightarrow> string \<Rightarrow> string \<times> string option" where
  "split_char cs s =
     (case dropWhile (\<lambda>c. c \<notin> cs) s of [] \<Rightarrow> (s, None) | _ # r \<Rightarrow> (takeWhile (\<lambda>c. c \<notin> cs) s, Some r))"

definition exponent_value :: "string \<Rightarrow> int option" where
  "exponent_value s =
     (case s of
        [] \<Rightarrow> None
      | c # r \<Rightarrow>
          if c = CHR ''-'' then (if r = [] then None else map_option (\<lambda>n. - int n) (digits_value 0 r))
          else if c = CHR ''+'' then (if r = [] then None else map_option int (digits_value 0 r))
          else map_option int (digits_value 0 s))"

definition decimal_value :: "string \<Rightarrow> rat option" where
  "decimal_value s =
     (let (body, ex) = split_char {CHR ''e'', CHR ''E''} s;
          (whole, frac) = split_char {CHR ''.''} body;
          frac = (case frac of None \<Rightarrow> [] | Some f \<Rightarrow> f) in
      if whole = [] \<and> frac = [] then None
      else do {
        m \<leftarrow> digits_value 0 (whole @ frac);
        e \<leftarrow> (case ex of None \<Rightarrow> Some 0 | Some x \<Rightarrow> exponent_value x);
        Some (of_nat m * pow10 (e - int (length frac)))
      })"

text \<open>\<open>None\<close>: not a number; \<open>Some None\<close>: an infinity.\<close>

definition parse_f64 :: "string \<Rightarrow> f64 option" where
  "parse_f64 s = map_option f64_round (decimal_value s)"

text \<open>
  \<open>f64::to_string\<close>: the shortest decimal digits that round to the number, the nearest of them, without an
  exponent.
\<close>

definition decimal_exponent :: "rat \<Rightarrow> int" where
  "decimal_exponent x = (let (n, d) = quotient_of x;
       k = int (length (show_nat (nat n))) - int (length (show_nat (nat d))) in
     if pow10 k \<le> x then k else k - 1)"

definition digits_at :: "rat \<Rightarrow> int \<Rightarrow> nat option" where
  "digits_at x e = (let q = \<lfloor>x / pow10 e\<rfloor>;
       back = (\<lambda>m. f64_round (of_int m * pow10 e) = Some x);
       near = round_even (x / pow10 e) in
     if back near then Some (nat near)
     else if back q then Some (nat q)
     else if back (q + 1) then Some (nat (q + 1))
     else None)"

fun shortest_digits :: "nat \<Rightarrow> rat \<Rightarrow> int \<Rightarrow> nat \<times> int" where
  "shortest_digits 0 x e = (nat (round_even (x / pow10 e)), e)"
| "shortest_digits (Suc n) x e =
     (case digits_at x e of Some m \<Rightarrow> (m, e) | None \<Rightarrow> shortest_digits n x (e - 1))"

definition positional :: "nat \<Rightarrow> int \<Rightarrow> string" where
  "positional m e =
     (let s = show_nat m in
      if 0 \<le> e then s @ replicate (nat e) (CHR ''0'')
      else
        let k = nat (- e); t = replicate (Suc k - length s) (CHR ''0'') @ s in
        take (length t - k) t @ ''.'' @ drop (length t - k) t)"

definition f64_text :: "rat \<Rightarrow> string" where
  "f64_text x =
     (if x = 0 then ''0''
      else
        (let (m, e) = shortest_digits 17 \<bar>x\<bar> (decimal_exponent \<bar>x\<bar>) in
         (if x < 0 then ''-'' else []) @ positional m e))"

section \<open>Facts\<close>

lemma pow2_pos [simp]: "0 < pow2 e"
  by (simp add: pow2_def)

lemma pow2_nonzero [simp]: "pow2 e \<noteq> 0"
  by (simp add: pow2_def)

lemma pow2_nonneg [simp]: "0 \<le> pow2 e"
  by (simp add: pow2_def)

lemma abs_pow2 [simp]: "\<bar>pow2 e\<bar> = pow2 e"
  by (simp add: pow2_def)

lemma pow2_add: "pow2 (a + b) = pow2 a * pow2 b"
proof -
  have *: "(2::rat) powi e = pow2 e" for e by (simp add: pow2_def power_int_def inverse_eq_divide power_one_over)
  show ?thesis unfolding * [symmetric] by (rule power_int_add) simp
qed

lemma pow2_mono: "a \<le> b \<Longrightarrow> pow2 a \<le> pow2 b"
proof -
  assume "a \<le> b"
  then have "pow2 b = pow2 a * 2 ^ nat (b - a)"
    using pow2_add [of a "b - a"] by (simp add: pow2_def)
  then show ?thesis by simp
qed

lemma pow2_less: "a < b \<Longrightarrow> pow2 a < pow2 b"
proof -
  assume "a < b"
  then have "pow2 b = pow2 a * 2 ^ nat (b - a)"
    using pow2_add [of a "b - a"] by (simp add: pow2_def)
  moreover have "(1::rat) < 2 ^ nat (b - a)" using \<open>a < b\<close> by simp
  ultimately show ?thesis by simp
qed

lemma ilog2_bounds: "0 < n \<Longrightarrow> 2 ^ ilog2 n \<le> n \<and> n < 2 ^ Suc (ilog2 n)"
proof (induction n rule: ilog2.induct)
  case (1 n)
  show ?case
  proof (cases "n < 2")
    case True
    with 1 show ?thesis by (simp add: ilog2.simps [of n])
  next
    case False
    with 1 have "2 ^ ilog2 (n div 2) \<le> n div 2" "n div 2 < 2 ^ Suc (ilog2 (n div 2))" by auto
    moreover define p where "p = (2::nat) ^ ilog2 (n div 2)"
    ultimately have "2 * p \<le> n" "n < 4 * p" by simp_all
    with False show ?thesis by (simp add: ilog2.simps [of n] p_def)
  qed
qed

text \<open>The binade is right: the number lies between its power of two and the next one.\<close>

lemma binade_bounds:
  assumes "0 < x"
  shows "pow2 (binade x) \<le> x" and "x < pow2 (binade x + 1)"
proof -
  obtain n d where q: "quotient_of x = (n, d)" by (cases "quotient_of x")
  have d: "0 < d" using quotient_of_denom_pos [OF q] .
  have x: "x = of_int n / of_int d" using quotient_of_div [OF q] .
  with assms d have n: "0 < n" by (simp add: zero_less_divide_iff)
  define N D where "N = ilog2 (nat n)" and "D = ilog2 (nat d)"
  have "2 ^ N \<le> nat n" "nat n < 2 ^ Suc N" "2 ^ D \<le> nat d" "nat d < 2 ^ Suc D"
    using ilog2_bounds [of "nat n"] ilog2_bounds [of "nat d"] n d by (simp_all add: N_def D_def)
  then have b: "2 ^ N \<le> n" "n < 2 ^ Suc N" "2 ^ D \<le> d" "d < 2 ^ Suc D"
    using n d by (simp_all add: le_nat_iff nat_less_iff)
  have r: "(2::rat) ^ N \<le> of_int n" "of_int n < (2::rat) ^ Suc N" "(2::rat) ^ D \<le> of_int d"
    "of_int d < (2::rat) ^ Suc D"
    using b(1,3) [THEN of_int_le_iff [where 'a = rat, THEN iffD2]]
      b(2,4) [THEN of_int_less_iff [where 'a = rat, THEN iffD2]]
    by (simp_all only: of_int_power of_int_numeral)
  let ?k = "int N - int D"
  have p: "pow2 ?k * 2 ^ D = 2 ^ N"
    using pow2_add [of ?k "int D"] by (simp add: pow2_def)
  have upper: "x < pow2 (?k + 1)"
  proof -
    have "x * 2 ^ D \<le> x * of_int d" using r(3) assms by simp
    also have "\<dots> = of_int n" using x d by simp
    also have "\<dots> < 2 * 2 ^ N" using r(2) by simp
    also have "\<dots> = pow2 (?k + 1) * 2 ^ D" using p pow2_add [of ?k 1] by (simp add: pow2_def [of 1])
    finally show ?thesis by simp
  qed
  have lower: "pow2 (?k - 1) \<le> x"
  proof -
    have "pow2 (?k - 1) * of_int d \<le> pow2 (?k - 1) * 2 ^ Suc D" using r(4) by (intro mult_left_mono) simp_all
    also have "\<dots> = pow2 ?k * 2 ^ D" using pow2_add [of "?k - 1" 1] by (simp add: pow2_def [of 1])
    also have "\<dots> \<le> of_int n" using p r(1) by simp
    also have "\<dots> = x * of_int d" using x d by simp
    finally show ?thesis using d by simp
  qed
  have "binade x = (if pow2 ?k \<le> x then ?k else ?k - 1)"
    by (simp add: binade_def q N_def D_def)
  with upper lower show "pow2 (binade x) \<le> x" "x < pow2 (binade x + 1)" by auto
qed

lemma round_even_near: "\<bar>of_int (round_even x) - x\<bar> \<le> 1 / 2"
  using of_int_floor_le [of x] floor_correct [of x] by (auto simp: round_even_def Let_def)

lemma round_even_int [simp]: "round_even (of_int i) = i"
  by (simp add: round_even_def)

text \<open>A number of at most 53 binary digits is kept exactly.\<close>

lemma last_digit_le:
  assumes "\<bar>k\<bar> < 2 ^ 53" and "- 1074 \<le> e"
  shows "last_digit (of_int k * pow2 e) \<le> e"
proof (cases "k = 0")
  case False
  let ?x = "\<bar>of_int k * pow2 e\<bar>"
  have pos: "0 < ?x" using False by simp
  have "?x = of_int \<bar>k\<bar> * pow2 e" by (simp add: abs_mult)
  also have "\<dots> < 2 ^ 53 * pow2 e"
  proof -
    have "(of_int \<bar>k\<bar> :: rat) < of_int (2 ^ 53)" using assms(1) by (simp only: of_int_less_iff)
    then show ?thesis by simp
  qed
  also have "\<dots> = pow2 (53 + e)" using pow2_add [of 53 e] by (simp add: pow2_def [of 53])
  finally have "pow2 (binade ?x) < pow2 (53 + e)" using binade_bounds(1) [OF pos] by linarith
  then have "binade ?x < 53 + e" using pow2_mono [of "53 + e" "binade ?x"] by linarith
  with False assms(2) show ?thesis by (simp add: last_digit_def)
qed (use assms in \<open>simp add: last_digit_def\<close>)

lemma round_at_exact: "e \<le> e' \<Longrightarrow> round_at e (of_int k * pow2 e') = of_int k * pow2 e'"
proof -
  assume "e \<le> e'"
  then have p: "pow2 e' = 2 ^ nat (e' - e) * pow2 e"
    using pow2_add [of e "e' - e"] by (simp add: pow2_def [of "e' - e"])
  have "of_int k * pow2 e' / pow2 e = of_int (k * 2 ^ nat (e' - e))" by (simp add: p)
  then show ?thesis by (simp add: round_at_def p del: of_int_mult)
qed

definition binary64 :: "rat \<Rightarrow> bool" where
  "binary64 x \<longleftrightarrow> (\<exists>k e. x = of_int k * pow2 e \<and> \<bar>k\<bar> < 2 ^ 53 \<and> - 1074 \<le> e) \<and> \<bar>x\<bar> < pow2 1024"

lemma f64_round_exact: "binary64 x \<Longrightarrow> f64_round x = Some x"
proof -
  assume "binary64 x"
  then obtain k e where x: "x = of_int k * pow2 e" "\<bar>k\<bar> < 2 ^ 53" "- 1074 \<le> e" "\<bar>x\<bar> < pow2 1024"
    by (auto simp: binary64_def)
  with round_at_exact [OF last_digit_le [OF x(2,3)]] show ?thesis
    by (simp add: f64_round_def)
qed

lemma binary64_of_int: "\<bar>i\<bar> < 2 ^ 53 \<Longrightarrow> binary64 (of_int i)"
proof -
  assume i: "\<bar>i\<bar> < 2 ^ 53"
  have "(of_int \<bar>i\<bar> :: rat) < of_int (2 ^ 53)" using i by (simp only: of_int_less_iff)
  also have "\<dots> \<le> pow2 1024" using pow2_mono [of 53 1024] by (simp add: pow2_def [of 53])
  finally have "\<bar>of_int i :: rat\<bar> < pow2 1024" by simp
  with i show ?thesis unfolding binary64_def
    by (intro conjI exI [of _ i] exI [of _ 0]) (simp_all add: pow2_def [of 0])
qed

text \<open>What rounding returns is kept exactly, so the results of the operations are numbers of the format.\<close>

lemma round_at_within: "\<bar>round_at e x - x\<bar> \<le> pow2 e / 2"
proof -
  have "round_at e x - x = (of_int (round_even (x / pow2 e)) - x / pow2 e) * pow2 e"
    by (simp add: round_at_def algebra_simps)
  then have "\<bar>round_at e x - x\<bar> = \<bar>of_int (round_even (x / pow2 e)) - x / pow2 e\<bar> * pow2 e"
    by (simp add: abs_mult)
  with mult_right_mono [OF round_even_near [of "x / pow2 e"], of "pow2 e"] show ?thesis by simp
qed

lemma last_digit_bound: "x \<noteq> 0 \<Longrightarrow> \<bar>x\<bar> < pow2 (last_digit x + 53)"
proof -
  assume "x \<noteq> 0"
  then have "\<bar>x\<bar> < pow2 (binade \<bar>x\<bar> + 1)" using binade_bounds(2) [of "\<bar>x\<bar>"] by simp
  also have "\<dots> \<le> pow2 (last_digit x + 53)" using \<open>x \<noteq> 0\<close> by (intro pow2_mono) (simp add: last_digit_def)
  finally show ?thesis .
qed

lemma round_even_abs_le: "\<bar>x\<bar> \<le> of_int n \<Longrightarrow> \<bar>round_even x\<bar> \<le> n"
proof -
  assume x: "\<bar>x\<bar> \<le> of_int n"
  have "of_int (round_even x) \<le> x + 1 / 2" "x - 1 / 2 \<le> of_int (round_even x)"
    using round_even_near [of x] by linarith+
  with x have "of_int (round_even x) < (of_int (n + 1) :: rat)" "(of_int (- n - 1) :: rat) < of_int (round_even x)"
    by (simp, linarith)+
  then have "round_even x < n + 1" "- n - 1 < round_even x" by (simp_all only: of_int_less_iff)
  then show ?thesis by linarith
qed

lemma f64_round_binary64: "f64_round x = Some y \<Longrightarrow> binary64 y"
proof -
  assume r: "f64_round x = Some y"
  let ?e = "last_digit x" and ?k = "round_even (x / pow2 (last_digit x))"
  have y: "y = of_int ?k * pow2 ?e" "\<bar>y\<bar> < pow2 1024"
    using r by (auto simp: f64_round_def round_at_def Let_def split: if_splits)
  have e: "- 1074 \<le> ?e" by (simp add: last_digit_def)
  have "\<bar>x / pow2 ?e\<bar> \<le> of_int (2 ^ 53)"
  proof (cases "x = 0")
    case False
    have "\<bar>x\<bar> < 2 ^ 53 * pow2 ?e" using last_digit_bound [OF False] by (simp add: pow2_add pow2_def [of 53])
    then show ?thesis by (simp add: abs_divide divide_le_eq)
  qed simp
  from round_even_abs_le [OF this] have k: "\<bar>?k\<bar> \<le> 2 ^ 53" .
  show "binary64 y"
  proof (cases "\<bar>?k\<bar> = 2 ^ 53")
    case True
    have "\<exists>k'. of_int ?k * pow2 ?e = of_int k' * pow2 (?e + 1) \<and> \<bar>k'\<bar> < 2 ^ 53"
    proof -
      from True have "?k = 2 ^ 53 \<or> ?k = - (2 ^ 53)" by linarith
      then have "of_int ?k * pow2 ?e = of_int (?k div 2) * pow2 (?e + 1)" "\<bar>?k div 2\<bar> < 2 ^ 53"
        by (auto simp: pow2_add pow2_def [of 1])
      then show ?thesis by blast
    qed
    with y e show ?thesis unfolding binary64_def by (metis add.commute add_increasing zero_le_one)
  qed (use y e k in \<open>unfold binary64_def, force\<close>)
qed

lemma f64_of_int_finite: "\<bar>i\<bar> \<le> 2 ^ 64 \<Longrightarrow> \<exists>x. f64_of_int i = Some x"
proof (cases "i = 0")
  case False
  assume i: "\<bar>i\<bar> \<le> 2 ^ 64"
  let ?x = "of_int i :: rat" and ?e = "last_digit (of_int i)"
  have x: "\<bar>?x\<bar> \<le> 2 ^ 64"
    using i of_int_le_iff [where 'a = rat, of "\<bar>i\<bar>" "2 ^ 64"] by simp
  have nz: "0 < \<bar>?x\<bar>" using False by simp
  have "pow2 (binade \<bar>?x\<bar>) \<le> pow2 64" using binade_bounds(1) [OF nz] x by (simp add: pow2_def [of 64])
  then have "binade \<bar>?x\<bar> \<le> 64" using pow2_less [of 64 "binade \<bar>?x\<bar>"] by linarith
  then have "?e \<le> 12" using False by (simp add: last_digit_def)
  then have "pow2 ?e \<le> 2 ^ 12" using pow2_mono [of ?e 12] by (simp add: pow2_def [of 12])
  with round_at_within [of ?e ?x] x have "\<bar>round_at ?e ?x\<bar> \<le> 2 ^ 64 + 2 ^ 12" by linarith
  also have "\<dots> < (2 ^ 65 :: rat)" by simp
  also have "\<dots> \<le> pow2 1024" using pow2_mono [of 65 1024] by (simp add: pow2_def [of 65])
  finally show ?thesis by (simp add: f64_of_int_def f64_round_def)
qed (simp add: f64_of_int_def f64_round_exact [OF binary64_of_int [of 0], simplified])

end
