(* ===== verification/Runtime_Error.thy ===== *)
theory Runtime_Error
  imports Value_Type Float64 "HOL-Library.Word"
begin

text \<open>
  Numbers, statuses and the data of runtime errors, from \<open>flash-runtime/src/value.rs\<close>, \<open>operation.rs\<close>,
  \<open>scope.rs\<close> and \<open>eval.rs\<close>. An \<open>i64\<close> is a word of 64 bits read by \<open>sint\<close>.
\<close>

section \<open>Numbers\<close>

type_synonym i64 = "64 word"

definition in_i64 :: "int \<Rightarrow> bool" where
  "in_i64 i \<longleftrightarrow> - (2 ^ 63) \<le> i \<and> i < 2 ^ 63"

text \<open>The checked operations of \<open>i64\<close>: the exact result, where it fits.\<close>

definition checked_i64 :: "int \<Rightarrow> i64 option" where
  "checked_i64 i = (if in_i64 i then Some (word_of_int i) else None)"

lemma sint_word_of_int [simp]: "in_i64 i \<Longrightarrow> sint (word_of_int i :: i64) = i"
  by (simp add: in_i64_def signed_of_int signed_take_bit_int_eq_self)

lemma in_i64_sint [simp]: "in_i64 (sint (a :: i64))"
  using sint_ge [of a] sint_lt [of a] by (simp add: in_i64_def)

lemma checked_i64_eq_Some: "checked_i64 i = Some a \<longleftrightarrow> in_i64 i \<and> sint a = i"
  by (auto simp: checked_i64_def)

datatype finite_float = FiniteFloat (ff_get: rat)

datatype non_finite_float = NonFiniteFloat

definition finite_float_new :: "f64 \<Rightarrow> non_finite_float + finite_float" where
  "finite_float_new a = (case a of None \<Rightarrow> Inl NonFiniteFloat | Some x \<Rightarrow> Inr (FiniteFloat x))"

datatype flash_range = FlashRange (range_start: i64) (range_end: i64) (includes_end: bool)

fun range_contains :: "flash_range \<Rightarrow> i64 \<Rightarrow> bool" where
  "range_contains (FlashRange a b incl) v \<longleftrightarrow>
     sint a \<le> sint v \<and> (if incl then sint v \<le> sint b else sint v < sint b)"

fun range_is_empty :: "flash_range \<Rightarrow> bool" where
  "range_is_empty (FlashRange a b incl) = (if incl then sint b < sint a else sint b \<le> sint a)"

section \<open>Statuses\<close>

datatype signal = Signal (sg_number: "i64 option") (sg_name: "string option")

datatype missing_signal_identity = MissingSignalIdentity

definition signal_new :: "i64 option \<Rightarrow> string option \<Rightarrow> missing_signal_identity + signal" where
  "signal_new number name =
     (if number = None \<and> name = None then Inl MissingSignalIdentity else Inr (Signal number name))"

text \<open>A \<open>Duration\<close> is an \<open>i128\<close> of nanoseconds; the code does no arithmetic on it.\<close>

datatype status =
  Status (st_code: "i64 option") (st_signal: "signal option") (st_stages: "status list") (st_duration: int)

datatype invalid_status =
    NegativeDuration
  | EmptyAggregate
  | SelectedStageOutOfBounds nat nat
  | NestedAggregate

definition validate_status_duration :: "int \<Rightarrow> invalid_status + unit" where
  "validate_status_duration d = (if d < 0 then Inl NegativeDuration else Inr ())"

definition status_exit :: "i64 \<Rightarrow> int \<Rightarrow> invalid_status + status" where
  "status_exit code d = and_then (validate_status_duration d) (\<lambda>_. Inr (Status (Some code) None [] d))"

definition status_signaled :: "signal \<Rightarrow> int \<Rightarrow> invalid_status + status" where
  "status_signaled sg d = and_then (validate_status_duration d) (\<lambda>_. Inr (Status None (Some sg) [] d))"

definition status_aggregate :: "status list \<Rightarrow> nat \<Rightarrow> int \<Rightarrow> invalid_status + status" where
  "status_aggregate stages selected d =
     and_then (validate_status_duration d) (\<lambda>_.
       if stages = [] then Inl EmptyAggregate
       else
         (case get_nth stages selected of
            None \<Rightarrow> Inl (SelectedStageOutOfBounds selected (length stages))
          | Some s \<Rightarrow>
              if list_ex (\<lambda>s. st_stages s \<noteq> []) stages then Inl NestedAggregate
              else Inr (Status (st_code s) (st_signal s) stages d)))"

definition status_is_ok :: "status \<Rightarrow> bool" where
  "status_is_ok s \<longleftrightarrow> st_code s = Some 0"

section \<open>Errors\<close>

text \<open>
  The kinds of a runtime error that carry an error of the platform, of the presentation or of the carrier
  planner keep its message instead.
\<close>

datatype scope_error =
    DuplicateBinding string
  | ReservedBinding string
  | UnknownBinding string
  | ImmutableBinding string
  | ScopeTypeMismatch value_type string
  | CannotPopRoot

datatype (plugins only: code size) operation_error =
    UnsupportedOperands string "string list"
  | HostContextRequired string
  | IntegerOverflow string
  | OpNonFiniteFloat
  | DivisionByZero string
  | IndexOutOfRange i64 nat
  | NegativeIndex i64
  | MissingKey string
  | MissingField string
  | ConversionOutOfRange rat
  | NoMatchingOverload string string
  | LengthOverflow string
  | GenericArity string nat nat

datatype error_category =
    CatUser | CatType | CatName | CatControl | CatOperation | CatCommand | CatIo | CatProcess | CatJob
  | CatResource | CatPlatform | CatInternal

fun error_category_name :: "error_category \<Rightarrow> string" where
  "error_category_name CatUser = ''user''"
| "error_category_name CatType = ''type''"
| "error_category_name CatName = ''name''"
| "error_category_name CatControl = ''control''"
| "error_category_name CatOperation = ''operation''"
| "error_category_name CatCommand = ''command''"
| "error_category_name CatIo = ''io''"
| "error_category_name CatProcess = ''process''"
| "error_category_name CatJob = ''job''"
| "error_category_name CatResource = ''resource''"
| "error_category_name CatPlatform = ''platform''"
| "error_category_name CatInternal = ''internal''"

datatype control_kind = ControlBreak | ControlContinue

datatype restricted_capability =
    CapProcessExecution | CapCommandSubstitution | CapFilesystemRead | CapModuleLoad

datatype cancel_reason = CancelRequested | CancelTimeout

datatype carrier = CarrierEmpty | CarrierByteStream | CarrierValue | CarrierValueStream

text \<open>
  The kinds that planning and running commands raise, and those of processes and jobs, stand in datatypes of
  their own.
\<close>

datatype (plugins only: code size) command_error_kind =
    CommandNotFound string
  | ReservedCommand string string "string option"
  | RedirectionDescriptorOverflow
  | ArgumentContainsNul
  | CarrierMismatch string
  | MergedEdgeNotByteStream string carrier
  | PipelineHeadInput string "carrier list"
  | DescriptorNotOpen nat
  | BuiltinArity string nat "nat option" nat
  | BuiltinInputCarrier string carrier
  | BuiltinArgument string string
  | StructuredCommand string string
  | MissingHome
  | WorkingDirectory string
  | InvalidExitCode
  | CheckRequiresUpstream
  | Presentation string
  | TerminalPresentation string
  | ShellExecutable string
  | ExecutionCapsule string

datatype (plugins only: code size) process_error_kind =
    PipeCreate string
  | CapturePipe string
  | CaptureRead string
  | PipelineRead string
  | PipelineWrite string
  | RedirectionSetup string
  | ProcessSpawn string
  | ProcessWait string
  | RepeatedStop int
  | ForegroundTerminal string
  | BackgroundProcessGroupUnavailable
  | InvalidProcessIdentity
  | BackgroundIdentityExhausted
  | BackgroundObserverUnavailable string
  | BackgroundAssignmentUnavailable
  | ForegroundObservation string
  | BackgroundJobState string
  | JobControlUnavailable string
  | JobControlNotInternal string
  | JobControlNotSoleStage string
  | JobOperation string string
  | JobSignal string
  | UngroupedStop

datatype (plugins only: code size) runtime_error_kind =
    ReUserThrown string
  | ReThrowValueNotErrorOrString string
  | ReOperation operation_error
  | ReScope scope_error
  | ReConditionNotBool string
  | ReLogicOperandNotBool string
  | ReConditionalOperandNotBoolOrStatus string
  | ReNotIterable string
  | ReControlOutsideLoop control_kind
  | ReReturnOutsideFunction
  | ReNoMatchingArm
  | RePatternMismatch
  | ReNominalConstruction string
  | ReGenericInstantiation string
  | ReNotCallable string
  | ReArityMismatch nat nat
  | ReBindingTypeMismatch value_type string
  | ReParameterTypeMismatch string value_type string
  | ReFunctionResultTypeMismatch value_type string
  | ReDuplicateParameter string
  | ReExecutionUnsupported
  | ReRestrictedStartup restricted_capability
  | ReResourceBudgetExceeded
  | ReUnsupported string
  | ReIntegerLiteralOverflow
  | ReFloatLiteralOverflow
  | ReDuplicateRecordKey string
  | ReStringInterpolationNotUtf8
  | ReEnvironmentValueNotUtf8 string
  | ReGlobPattern string
  | ReGlobLimitExceeded nat
  | ReWordValueNotWordEligible string
  | ReSpreadValueNotList string
  | ReSpreadElementNotWordEligible nat string
  | ReExportValueNotEligible string
  | ReEnvironmentValueContainsNul string
  | ReDirectoryRead string
  | ReStreamCancelled cancel_reason
  | ReUnsuccessfulStatus status
  | ReTransported error_category string "status option"
  | ReCaptureLimitExceeded nat
  | ReCaptureInvalidUtf8 nat "nat option"
  | ReCommand command_error_kind
  | ReProcess process_error_kind

definition command_kind_category :: "command_error_kind \<Rightarrow> error_category" where
  "command_kind_category k =
     (case k of
        CheckRequiresUpstream \<Rightarrow> CatControl
      | ArgumentContainsNul \<Rightarrow> CatType
      | CarrierMismatch _ \<Rightarrow> CatType
      | MergedEdgeNotByteStream _ _ \<Rightarrow> CatType
      | PipelineHeadInput _ _ \<Rightarrow> CatType
      | BuiltinInputCarrier _ _ \<Rightarrow> CatType
      | WorkingDirectory _ \<Rightarrow> CatIo
      | DescriptorNotOpen _ \<Rightarrow> CatIo
      | Presentation _ \<Rightarrow> CatPlatform
      | TerminalPresentation _ \<Rightarrow> CatPlatform
      | ShellExecutable _ \<Rightarrow> CatPlatform
      | ExecutionCapsule _ \<Rightarrow> CatInternal
      | RedirectionDescriptorOverflow \<Rightarrow> CatInternal
      | _ \<Rightarrow> CatCommand)"

definition process_kind_category :: "process_error_kind \<Rightarrow> error_category" where
  "process_kind_category k =
     (case k of
        BackgroundIdentityExhausted \<Rightarrow> CatResource
      | PipeCreate _ \<Rightarrow> CatIo
      | CapturePipe _ \<Rightarrow> CatIo
      | CaptureRead _ \<Rightarrow> CatIo
      | PipelineRead _ \<Rightarrow> CatIo
      | PipelineWrite _ \<Rightarrow> CatIo
      | RedirectionSetup _ \<Rightarrow> CatIo
      | ProcessSpawn _ \<Rightarrow> CatProcess
      | ProcessWait _ \<Rightarrow> CatProcess
      | RepeatedStop _ \<Rightarrow> CatProcess
      | BackgroundProcessGroupUnavailable \<Rightarrow> CatProcess
      | InvalidProcessIdentity \<Rightarrow> CatProcess
      | ForegroundTerminal _ \<Rightarrow> CatPlatform
      | _ \<Rightarrow> CatJob)"

definition error_kind_category :: "runtime_error_kind \<Rightarrow> error_category" where
  "error_kind_category k =
     (case k of
        ReTransported c _ _ \<Rightarrow> c
      | ReCommand c \<Rightarrow> command_kind_category c
      | ReProcess p \<Rightarrow> process_kind_category p
      | ReUserThrown _ \<Rightarrow> CatUser
      | ReScope _ \<Rightarrow> CatName
      | ReOperation _ \<Rightarrow> CatOperation
      | ReControlOutsideLoop _ \<Rightarrow> CatControl
      | ReReturnOutsideFunction \<Rightarrow> CatControl
      | ReNoMatchingArm \<Rightarrow> CatControl
      | ReUnsuccessfulStatus _ \<Rightarrow> CatControl
      | ReResourceBudgetExceeded \<Rightarrow> CatResource
      | ReGlobLimitExceeded _ \<Rightarrow> CatResource
      | ReCaptureLimitExceeded _ \<Rightarrow> CatResource
      | ReDirectoryRead _ \<Rightarrow> CatIo
      | ReGlobPattern _ \<Rightarrow> CatInternal
      | ReCaptureInvalidUtf8 _ _ \<Rightarrow> CatInternal
      | ReStreamCancelled _ \<Rightarrow> CatInternal
      | ReRestrictedStartup _ \<Rightarrow> CatInternal
      | ReExecutionUnsupported \<Rightarrow> CatInternal
      | ReUnsupported _ \<Rightarrow> CatInternal
      | ReDuplicateParameter _ \<Rightarrow> CatInternal
      | _ \<Rightarrow> CatType)"

datatype error_label = ErrorLabel (el_source: source_file) (el_span: span) (el_message: string)

datatype frame_callee = FrameFunction string | FrameClosure

datatype call_frame = CallFrame (cf_callee: frame_callee) (cf_call_site: span) (cf_source: source_file)

datatype (plugins only: code size) runtime_error =
  RuntimeError (er_kind: runtime_error_kind) (er_span: span) (er_labels: "error_label list")
    (er_frames: "call_frame list") (er_source: "source_file option") (er_cause: "runtime_error option")

definition error_new :: "runtime_error_kind \<Rightarrow> span \<Rightarrow> runtime_error" where
  "error_new k sp = RuntimeError k sp [] [] None None"

definition error_with_source :: "source_file \<Rightarrow> runtime_error \<Rightarrow> runtime_error" where
  "error_with_source src err =
     RuntimeError (er_kind err) (er_span err) (er_labels err) (er_frames err) (Some src) (er_cause err)"

definition error_with_frame :: "call_frame \<Rightarrow> runtime_error \<Rightarrow> runtime_error" where
  "error_with_frame f err =
     RuntimeError (er_kind err) (er_span err) (er_labels err) (er_frames err @ [f]) (er_source err) (er_cause err)"

definition error_with_label :: "error_label \<Rightarrow> runtime_error \<Rightarrow> runtime_error" where
  "error_with_label l err =
     RuntimeError (er_kind err) (er_span err) (er_labels err @ [l]) (er_frames err) (er_source err) (er_cause err)"

definition error_with_cause :: "runtime_error \<Rightarrow> runtime_error \<Rightarrow> runtime_error" where
  "error_with_cause c err =
     RuntimeError (er_kind err) (er_span err) (er_labels err) (er_frames err) (er_source err) (Some c)"

definition error_status :: "runtime_error \<Rightarrow> status option" where
  "error_status err =
     (case er_kind err of
        ReUnsuccessfulStatus s \<Rightarrow> Some s
      | ReTransported _ _ s \<Rightarrow> s
      | _ \<Rightarrow> None)"

end
