(* ===== verification/Value.thy ===== *)
theory Value
  imports Runtime_Error
begin

text \<open>
  Runtime values, from \<open>flash-runtime/src/value.rs\<close>, with the callables and bindings that they contain
  (\<open>eval.rs\<close>, \<open>scope.rs\<close>).

  A path is the bytes of its \<open>OsStr\<close>. An \<open>Arc\<close> to a callable is the callable with the number of its
  allocation, since callables are equal when they are the same allocation.
\<close>

section \<open>Values, callables and bindings\<close>

datatype binding_mutability = Immutable | Mutable

datatype callable_body = BodyBlock "statement block" | BodyExpression conditional_chain

datatype callable_parameter =
  CallableParameter (cp_name: string) (cp_type: value_type) (cp_pattern: "pattern_syntax option")

datatype (plugins only: code size) val =
    VNull
  | VBool bool
  | VInt i64
  | VFloat finite_float
  | VString string
  | VBytes string
  | VPath string
  | VDuration int
  | VByteSize "64 word"
  | VList "val list"
  | VRecord "(string \<times> val) list"
  | VNominalRecord nominal_type_id "value_type list" "(string \<times> val) list"
  | VVariant nominal_type_id "value_type list" string "val list"
  | VTable "string list" "val list list"
  | VRange flash_range
  | VStatus status
  | VError runtime_error
  | VCallable nat callable
and callable =
  Callable (ca_name: "string option") (ca_parameters: "callable_parameter list")
    (ca_type_parameters: "resolved_type_parameter list") (ca_body: callable_body)
    (ca_captured: "(string \<times> binding) list list") (ca_source: source_file)
    (ca_binding_types: runtime_binding_types) (ca_result_type: "value_type option")
    (ca_location: string) (ca_origin_span: span)
and binding =
  Binding (bi_mutability: binding_mutability) (bi_type: "value_type option") (bi_value: val)

definition callable_family :: "callable \<Rightarrow> string" where
  "callable_family c = (if ca_name c \<noteq> None then ''function'' else ''closure'')"

fun family_name :: "val \<Rightarrow> string" where
  "family_name VNull = ''null''"
| "family_name (VBool _) = ''bool''"
| "family_name (VInt _) = ''int''"
| "family_name (VFloat _) = ''float''"
| "family_name (VString _) = ''string''"
| "family_name (VBytes _) = ''bytes''"
| "family_name (VPath _) = ''path''"
| "family_name (VDuration _) = ''duration''"
| "family_name (VByteSize _) = ''byte size''"
| "family_name (VList _) = ''list''"
| "family_name (VRecord _) = ''record''"
| "family_name (VNominalRecord _ _ _) = ''nominal record''"
| "family_name (VVariant _ _ _ _) = ''variant''"
| "family_name (VTable _ _) = ''table''"
| "family_name (VRange _) = ''range''"
| "family_name (VStatus _) = ''status''"
| "family_name (VError _) = ''error''"
| "family_name (VCallable _ c) = callable_family c"

section \<open>Records and tables\<close>

datatype duplicate_record_key = DuplicateRecordKey (dk_key: string) (dk_index: nat)

fun record_scan ::
  "nat \<Rightarrow> (string \<times> val) list \<Rightarrow> (string \<times> val) list \<Rightarrow> duplicate_record_key + (string \<times> val) list" where
  "record_scan index checked [] = Inr checked"
| "record_scan index checked ((k, v) # es) =
     (if list_ex (\<lambda>(existing, _). existing = k) checked then Inl (DuplicateRecordKey k index)
      else record_scan (Suc index) (checked @ [(k, v)]) es)"

definition record_new :: "(string \<times> val) list \<Rightarrow> duplicate_record_key + (string \<times> val) list" where
  "record_new entries = record_scan 0 [] entries"

definition record_get :: "(string \<times> val) list \<Rightarrow> string \<Rightarrow> val option" where
  "record_get entries k = map_of entries k"

datatype table_error = DuplicateColumn string nat | RowWidth nat nat nat

fun table_columns_scan :: "nat \<Rightarrow> string list \<Rightarrow> string list \<Rightarrow> table_error + string list" where
  "table_columns_scan index checked [] = Inr checked"
| "table_columns_scan index checked (c # cs) =
     (if c \<in> set checked then Inl (DuplicateColumn c index)
      else table_columns_scan (Suc index) (checked @ [c]) cs)"

fun table_rows_scan :: "nat \<Rightarrow> nat \<Rightarrow> val list list \<Rightarrow> table_error + val list list" where
  "table_rows_scan width row [] = Inr []"
| "table_rows_scan width row (cells # rs) =
     (if length cells \<noteq> width then Inl (RowWidth row width (length cells))
      else and_then (table_rows_scan width (Suc row) rs) (\<lambda>rows. Inr (cells # rows)))"

definition table_new :: "string list \<Rightarrow> val list list \<Rightarrow> table_error + string list \<times> val list list" where
  "table_new columns rows =
     and_then (table_columns_scan 0 [] columns) (\<lambda>cs.
     and_then (table_rows_scan (length cs) 0 rows) (\<lambda>rs. Inr (cs, rs)))"

definition record_columns :: "(string \<times> val) list list \<Rightarrow> string list" where
  "record_columns records =
     foldl (\<lambda>cs k. if k \<in> set cs then cs else cs @ [k]) [] (concat (map (map fst) records))"

definition table_from_records :: "(string \<times> val) list list \<Rightarrow> string list \<times> val list list" where
  "table_from_records records =
     (let columns = record_columns records in
      (columns, map (\<lambda>r. map (\<lambda>c. case record_get r c of None \<Rightarrow> VNull | Some v \<Rightarrow> v) columns) records))"

definition column_index :: "string list \<Rightarrow> string \<Rightarrow> nat option" where
  "column_index columns c = position (\<lambda>x. x = c) columns"

text \<open>\<open>cells[index]\<close> panics when a row is too short; a table that was built has none.\<close>

definition table_get :: "string list \<times> val list list \<Rightarrow> nat \<Rightarrow> string \<Rightarrow> val option option" where
  "table_get t row c =
     (case column_index (fst t) c of
        None \<Rightarrow> Some None
      | Some i \<Rightarrow>
          (case get_nth (snd t) row of
             None \<Rightarrow> Some None
           | Some cells \<Rightarrow> map_option Some (get_nth cells i)))"

section \<open>Equality\<close>

text \<open>\<open>float as i128\<close> is exact here: an integral float outside \<open>i128\<close> saturates and differs from any \<open>i64\<close>.\<close>

definition int_float_equal :: "i64 \<Rightarrow> finite_float \<Rightarrow> bool" where
  "int_float_equal i f \<longleftrightarrow>
     ff_get f - of_int (rat_trunc (ff_get f)) = 0 \<and>
     max (- (2 ^ 127)) (min (2 ^ 127 - 1) (rat_trunc (ff_get f))) = sint i"

primrec value_eq :: "val \<Rightarrow> val \<Rightarrow> bool" where
  "value_eq VNull = (\<lambda>w. w = VNull)"
| "value_eq (VBool b) = (\<lambda>w. w = VBool b)"
| "value_eq (VInt i) = (\<lambda>w. case w of VInt j \<Rightarrow> i = j | VFloat f \<Rightarrow> int_float_equal i f | _ \<Rightarrow> False)"
| "value_eq (VFloat f) = (\<lambda>w. case w of VFloat g \<Rightarrow> f = g | VInt i \<Rightarrow> int_float_equal i f | _ \<Rightarrow> False)"
| "value_eq (VString s) = (\<lambda>w. w = VString s)"
| "value_eq (VBytes s) = (\<lambda>w. w = VBytes s)"
| "value_eq (VPath s) = (\<lambda>w. w = VPath s)"
| "value_eq (VDuration d) = (\<lambda>w. w = VDuration d)"
| "value_eq (VByteSize n) = (\<lambda>w. w = VByteSize n)"
| "value_eq (VList vs) = (\<lambda>w. case w of VList ws \<Rightarrow> list_all2 (\<lambda>f x. f x) (map value_eq vs) ws | _ \<Rightarrow> False)"
| "value_eq (VRecord es) = (\<lambda>w. case w of
     VRecord fs \<Rightarrow> list_all2 (\<lambda>(k, f) (l, x). k = l \<and> f x) (map (map_prod id value_eq) es) fs
   | _ \<Rightarrow> False)"
| "value_eq (VNominalRecord i ts es) = (\<lambda>w. case w of
     VNominalRecord j us fs \<Rightarrow> i = j \<and> ts = us \<and>
       list_all2 (\<lambda>(k, f) (l, x). k = l \<and> f x) (map (map_prod id value_eq) es) fs
   | _ \<Rightarrow> False)"
| "value_eq (VVariant i ts c vs) = (\<lambda>w. case w of
     VVariant j us d ws \<Rightarrow> i = j \<and> ts = us \<and> c = d \<and> list_all2 (\<lambda>f x. f x) (map value_eq vs) ws
   | _ \<Rightarrow> False)"
| "value_eq (VTable cs rs) = (\<lambda>w. case w of
     VTable ds ss \<Rightarrow> cs = ds \<and> list_all2 (\<lambda>fs xs. list_all2 (\<lambda>f x. f x) fs xs) (map (map value_eq) rs) ss
   | _ \<Rightarrow> False)"
| "value_eq (VRange r) = (\<lambda>w. w = VRange r)"
| "value_eq (VStatus s) = (\<lambda>w. w = VStatus s)"
| "value_eq (VError e) = (\<lambda>w. w = VError e)"
| "value_eq (VCallable i c) = (\<lambda>w. case w of VCallable j d \<Rightarrow> i = j | _ \<Rightarrow> False)"

section \<open>Types of values\<close>

primrec accepts :: "value_type \<Rightarrow> val \<Rightarrow> bool" where
  "accepts VtAny = (\<lambda>_. True)"
| "accepts VtNull = (\<lambda>v. v = VNull)"
| "accepts VtBool = (\<lambda>v. case v of VBool _ \<Rightarrow> True | _ \<Rightarrow> False)"
| "accepts VtInt = (\<lambda>v. case v of VInt _ \<Rightarrow> True | _ \<Rightarrow> False)"
| "accepts VtFloat = (\<lambda>v. case v of VFloat _ \<Rightarrow> True | _ \<Rightarrow> False)"
| "accepts VtString = (\<lambda>v. case v of VString _ \<Rightarrow> True | _ \<Rightarrow> False)"
| "accepts VtBytes = (\<lambda>v. case v of VBytes _ \<Rightarrow> True | _ \<Rightarrow> False)"
| "accepts VtPath = (\<lambda>v. case v of VPath _ \<Rightarrow> True | _ \<Rightarrow> False)"
| "accepts VtDuration = (\<lambda>v. case v of VDuration _ \<Rightarrow> True | _ \<Rightarrow> False)"
| "accepts VtByteSize = (\<lambda>v. case v of VByteSize _ \<Rightarrow> True | _ \<Rightarrow> False)"
| "accepts (VtList t) = (\<lambda>v. case v of VList vs \<Rightarrow> list_all (accepts t) vs | _ \<Rightarrow> False)"
| "accepts VtRecord = (\<lambda>v. case v of VRecord _ \<Rightarrow> True | _ \<Rightarrow> False)"
| "accepts VtTable = (\<lambda>v. case v of VTable _ _ \<Rightarrow> True | _ \<Rightarrow> False)"
| "accepts VtRange = (\<lambda>v. case v of VRange _ \<Rightarrow> True | _ \<Rightarrow> False)"
| "accepts VtStatus = (\<lambda>v. case v of VStatus _ \<Rightarrow> True | _ \<Rightarrow> False)"
| "accepts VtError = (\<lambda>v. case v of VError _ \<Rightarrow> True | _ \<Rightarrow> False)"
| "accepts VtFunction = (\<lambda>v. case v of VCallable _ c \<Rightarrow> callable_family c = ''function'' | _ \<Rightarrow> False)"
| "accepts VtClosure = (\<lambda>v. case v of VCallable _ c \<Rightarrow> callable_family c = ''closure'' | _ \<Rightarrow> False)"
| "accepts (VtTypeParameter name) = (\<lambda>_. True)"
| "accepts (VtNominal i ts) = (\<lambda>v. case v of
     VNominalRecord j us _ \<Rightarrow> i = j \<and> ts = us
   | VVariant j us _ _ \<Rightarrow> i = j \<and> ts = us
   | _ \<Rightarrow> False)"

fun runtime_value_type :: "val \<Rightarrow> value_type option" where
  "runtime_value_type VNull = Some VtNull"
| "runtime_value_type (VBool _) = Some VtBool"
| "runtime_value_type (VInt _) = Some VtInt"
| "runtime_value_type (VFloat _) = Some VtFloat"
| "runtime_value_type (VString _) = Some VtString"
| "runtime_value_type (VBytes _) = Some VtBytes"
| "runtime_value_type (VPath _) = Some VtPath"
| "runtime_value_type (VDuration _) = Some VtDuration"
| "runtime_value_type (VByteSize _) = Some VtByteSize"
| "runtime_value_type (VList []) = None"
| "runtime_value_type (VList (v # _)) = map_option VtList (runtime_value_type v)"
| "runtime_value_type (VRecord _) = Some VtRecord"
| "runtime_value_type (VTable _ _) = Some VtTable"
| "runtime_value_type (VRange _) = Some VtRange"
| "runtime_value_type (VStatus _) = Some VtStatus"
| "runtime_value_type (VError _) = Some VtError"
| "runtime_value_type (VCallable _ c) =
     Some (if callable_family c = ''closure'' then VtClosure else VtFunction)"
| "runtime_value_type (VNominalRecord i ts _) = Some (VtNominal i ts)"
| "runtime_value_type (VVariant i ts _ _) = Some (VtNominal i ts)"

primrec infer_runtime_substitution :: "value_type \<Rightarrow> val \<Rightarrow> substitutions \<Rightarrow> substitutions" where
  "infer_runtime_substitution (VtTypeParameter name) = (\<lambda>v subst.
     case runtime_value_type v of None \<Rightarrow> subst | Some t \<Rightarrow> or_insert name t subst)"
| "infer_runtime_substitution (VtList t) = (\<lambda>v subst.
     case v of VList vs \<Rightarrow> foldl (\<lambda>s x. infer_runtime_substitution t x s) subst vs | _ \<Rightarrow> subst)"
| "infer_runtime_substitution (VtNominal i ts) = (\<lambda>v subst.
     case v of
       VNominalRecord j us _ \<Rightarrow>
         if i = j then foldl (\<lambda>s (t, u). infer_runtime_type_value t u s) subst (zip ts us) else subst
     | VVariant j us _ _ \<Rightarrow>
         if i = j then foldl (\<lambda>s (t, u). infer_runtime_type_value t u s) subst (zip ts us) else subst
     | _ \<Rightarrow> subst)"
| "infer_runtime_substitution VtAny = (\<lambda>v subst. subst)"
| "infer_runtime_substitution VtNull = (\<lambda>v subst. subst)"
| "infer_runtime_substitution VtBool = (\<lambda>v subst. subst)"
| "infer_runtime_substitution VtInt = (\<lambda>v subst. subst)"
| "infer_runtime_substitution VtFloat = (\<lambda>v subst. subst)"
| "infer_runtime_substitution VtString = (\<lambda>v subst. subst)"
| "infer_runtime_substitution VtBytes = (\<lambda>v subst. subst)"
| "infer_runtime_substitution VtPath = (\<lambda>v subst. subst)"
| "infer_runtime_substitution VtDuration = (\<lambda>v subst. subst)"
| "infer_runtime_substitution VtByteSize = (\<lambda>v subst. subst)"
| "infer_runtime_substitution VtRecord = (\<lambda>v subst. subst)"
| "infer_runtime_substitution VtTable = (\<lambda>v subst. subst)"
| "infer_runtime_substitution VtRange = (\<lambda>v subst. subst)"
| "infer_runtime_substitution VtStatus = (\<lambda>v subst. subst)"
| "infer_runtime_substitution VtError = (\<lambda>v subst. subst)"
| "infer_runtime_substitution VtFunction = (\<lambda>v subst. subst)"
| "infer_runtime_substitution VtClosure = (\<lambda>v subst. subst)"

end
