(* ===== verification/Value_Text.thy ===== *)
theory Value_Text
  imports Value Char_Classes Glob
begin

text \<open>
  The text of values, statuses and errors: the \<open>Debug\<close> and \<open>Display\<close> implementations of
  \<open>flash-runtime/src/value.rs\<close>, \<open>operation.rs\<close>, \<open>scope.rs\<close> and \<open>eval.rs\<close>, and the word encoding of
  \<open>eval.rs\<close>.

  Rust's own \<open>Debug\<close> of a string escapes a scalar outside ASCII by tables of the standard library; the
  parameter \<open>plain\<close> says which of those scalars it keeps.
\<close>

section \<open>Numbers\<close>

definition show_int :: "int \<Rightarrow> string" where
  "show_int i = (if i < 0 then CHR ''-'' # show_nat (nat (- i)) else show_nat (nat i))"

definition show_i64 :: "i64 \<Rightarrow> string" where
  "show_i64 i = show_int (sint i)"

definition float_text :: "rat \<Rightarrow> string" where
  "float_text x =
     (if x = 0 then ''0.0''
      else
        let s = f64_text x in
        if list_ex (\<lambda>c. c \<in> {CHR ''.'', CHR ''e'', CHR ''E''}) s then s else s @ ''.0'')"

fun hex_text :: "(nat \<Rightarrow> char) \<Rightarrow> nat \<Rightarrow> string" where
  "hex_text digit n = (if n < 16 then [digit n] else hex_text digit (n div 16) @ [digit (n mod 16)])"

declare hex_text.simps [simp del]

definition upper_hex :: "nat \<Rightarrow> char" where
  "upper_hex d = (if d < 10 then char_of (48 + d) else char_of (55 + d))"

definition lower_hex :: "nat \<Rightarrow> char" where
  "lower_hex d = (if d < 10 then char_of (48 + d) else char_of (87 + d))"

definition write_optional :: "('a \<Rightarrow> string) \<Rightarrow> 'a option \<Rightarrow> string" where
  "write_optional show_a x = (case x of None \<Rightarrow> ''null'' | Some a \<Rightarrow> show_a a)"

section \<open>Strings, bytes and paths\<close>

definition string_scalar :: "scalar \<Rightarrow> string" where
  "string_scalar c =
     (if c = ch DQUOTE then [BSLASH, DQUOTE]
      else if c = ch BSLASH then [BSLASH, BSLASH]
      else if c = ch NL then [BSLASH, CHR ''n'']
      else if c = ch CR then [BSLASH, CHR ''r'']
      else if c = ch TAB then [BSLASH, CHR ''t'']
      else if c = 0 then [BSLASH, CHR ''0'']
      else if is_control c then BSLASH # ''u{'' @ hex_text upper_hex c @ ''}''
      else utf8_encode c)"

definition write_string_content :: "string \<Rightarrow> string" where
  "write_string_content s = concat (map string_scalar (chars s))"

definition write_quoted :: "string \<Rightarrow> string" where
  "write_quoted s = DQUOTE # write_string_content s @ [DQUOTE]"

definition escaped_byte :: "char \<Rightarrow> string" where
  "escaped_byte b = [BSLASH, CHR ''x'', upper_hex (byte_val b div 16), upper_hex (byte_val b mod 16)]"

definition write_bytes :: "string \<Rightarrow> string" where
  "write_bytes bytes = concat (map (\<lambda>b.
     if b = DQUOTE then [BSLASH, DQUOTE]
     else if b = BSLASH then [BSLASH, BSLASH]
     else if 0x20 \<le> byte_val b \<and> byte_val b \<le> 0x7E then [b]
     else escaped_byte b) bytes)"

text \<open>A path: its UTF-8 parts as string content, its other bytes in hexadecimal.\<close>

function write_path :: "string \<Rightarrow> string" where
  "write_path bytes =
     (if bytes = [] then []
      else case utf8_error bytes of
             None \<Rightarrow> write_string_content bytes
           | Some (valid, e) \<Rightarrow>
               (let after = drop valid bytes;
                    invalid = (case e of None \<Rightarrow> length after | Some n \<Rightarrow> n)
                in write_string_content (take valid bytes)
                   @ concat (map escaped_byte (take invalid after))
                   @ write_path (drop invalid after)))"
  by pat_completeness auto
termination
  by (relation "measure length") (auto split: option.splits dest!: utf8_error_bounds)

declare write_path.simps [simp del]

text \<open>\<open>{:?}\<close> of a string.\<close>

definition debug_scalar :: "(scalar \<Rightarrow> bool) \<Rightarrow> scalar \<Rightarrow> string" where
  "debug_scalar plain c =
     (if c = 0 then [BSLASH, CHR ''0'']
      else if c = ch TAB then [BSLASH, CHR ''t'']
      else if c = ch CR then [BSLASH, CHR ''r'']
      else if c = ch NL then [BSLASH, CHR ''n'']
      else if c = ch DQUOTE then [BSLASH, DQUOTE]
      else if c = ch BSLASH then [BSLASH, BSLASH]
      else if 0x20 \<le> c \<and> c < 0x7F \<or> 0x80 \<le> c \<and> plain c then utf8_encode c
      else BSLASH # ''u{'' @ hex_text lower_hex c @ ''}'')"

definition debug_string :: "(scalar \<Rightarrow> bool) \<Rightarrow> string \<Rightarrow> string" where
  "debug_string plain s = DQUOTE # concat (map (debug_scalar plain) (chars s)) @ [DQUOTE]"

section \<open>Ranges, signals and statuses\<close>

fun range_text :: "flash_range \<Rightarrow> string" where
  "range_text (FlashRange a b incl) = show_i64 a @ (if incl then ''..='' else ''..'') @ show_i64 b"

definition signal_debug :: "signal \<Rightarrow> string" where
  "signal_debug sg =
     ''signal(number: '' @ write_optional show_i64 (sg_number sg)
     @ '', name: '' @ write_optional write_quoted (sg_name sg) @ '')''"

primrec status_debug :: "status \<Rightarrow> string" where
  "status_debug (Status code sg stages d) =
     ''status(code: '' @ write_optional show_i64 code
     @ '', signal: '' @ write_optional signal_debug sg
     @ '', stages: ['' @ join_with '', '' (map status_debug stages)
     @ ''], duration: '' @ show_int d @ ''ns)''"

text \<open>\<open>None\<close>: neither or both of a code and a signal, or a signal without an identity.\<close>

definition status_text :: "status \<Rightarrow> string option" where
  "status_text s =
     (case (st_code s, st_signal s) of
        (Some code, None) \<Rightarrow> Some (if code = 0 then ''success'' else ''exit '' @ show_i64 code)
      | (None, Some sg) \<Rightarrow>
          (case (sg_name sg, sg_number sg) of
             (Some name, Some number) \<Rightarrow> Some (''signal '' @ name @ '' ('' @ show_i64 number @ '')'')
           | (Some name, None) \<Rightarrow> Some (''signal '' @ name)
           | (None, Some number) \<Rightarrow> Some (''signal '' @ show_i64 number)
           | (None, None) \<Rightarrow> None)
      | _ \<Rightarrow> None)"

section \<open>Errors\<close>

definition operands_text :: "string list \<Rightarrow> string" where
  "operands_text families = join_with '', '' families"

fun operation_error_text :: "(scalar \<Rightarrow> bool) \<Rightarrow> operation_error \<Rightarrow> string" where
  "operation_error_text plain (UnsupportedOperands operator operands) =
     ''operator `'' @ operator @ ''` is not defined for '' @ operands_text operands"
| "operation_error_text plain (HostContextRequired operation) =
     ''operation `'' @ operation @ ''` requires evaluator host context''"
| "operation_error_text plain (IntegerOverflow operator) = ''integer `'' @ operator @ ''` overflowed''"
| "operation_error_text plain OpNonFiniteFloat = ''float operation produced a non-finite result''"
| "operation_error_text plain (DivisionByZero operator) = ''`'' @ operator @ ''` by zero''"
| "operation_error_text plain (IndexOutOfRange i len) =
     ''index '' @ show_i64 i @ '' is outside length '' @ show_nat len"
| "operation_error_text plain (NegativeIndex i) = ''index '' @ show_i64 i @ '' is negative''"
| "operation_error_text plain (MissingKey key) = ''no record key '' @ debug_string plain key"
| "operation_error_text plain (MissingField name) = ''no record field '' @ debug_string plain name"
| "operation_error_text plain (ConversionOutOfRange x) = f64_text x @ '' is outside the integer range''"
| "operation_error_text plain (NoMatchingOverload operation input) =
     ''operation `'' @ operation @ ''` does not accept carrier '' @ input"
| "operation_error_text plain (LengthOverflow operation) = ''operation `'' @ operation @ ''` result exceeds Int''"
| "operation_error_text plain (GenericArity operation expected actual) =
     ''operation `'' @ operation @ ''` expects '' @ show_nat expected @ '' type arguments, found ''
     @ show_nat actual"

fun scope_error_text :: "(scalar \<Rightarrow> bool) \<Rightarrow> scope_error \<Rightarrow> string" where
  "scope_error_text plain (DuplicateBinding name) =
     ''binding '' @ debug_string plain name @ '' already exists in this scope''"
| "scope_error_text plain (ReservedBinding name) = ''binding name '' @ debug_string plain name @ '' is reserved''"
| "scope_error_text plain (UnknownBinding name) = ''unknown binding '' @ debug_string plain name"
| "scope_error_text plain (ImmutableBinding name) = ''binding '' @ debug_string plain name @ '' is immutable''"
| "scope_error_text plain (ScopeTypeMismatch expected actual) =
     ''binding expects '' @ type_text expected @ '', found '' @ actual"
| "scope_error_text plain CannotPopRoot = ''cannot leave the root scope''"

fun carrier_name :: "carrier \<Rightarrow> string" where
  "carrier_name CarrierEmpty = ''Empty''"
| "carrier_name CarrierByteStream = ''ByteStream''"
| "carrier_name CarrierValue = ''Value''"
| "carrier_name CarrierValueStream = ''ValueStream''"

fun render_carrier_set :: "carrier list \<Rightarrow> string" where
  "render_carrier_set [] = ''nothing''"
| "render_carrier_set [a] = carrier_name a"
| "render_carrier_set [a, b] = carrier_name a @ '' or '' @ carrier_name b"
| "render_carrier_set (a # b # c # cs) =
     concat (map (\<lambda>x. carrier_name x @ '', '') (butlast (a # b # c # cs)))
     @ ''or '' @ carrier_name (last (a # b # c # cs))"

fun restricted_capability_name :: "restricted_capability \<Rightarrow> string" where
  "restricted_capability_name CapProcessExecution = ''process execution''"
| "restricted_capability_name CapCommandSubstitution = ''command substitution''"
| "restricted_capability_name CapFilesystemRead = ''filesystem reads''"
| "restricted_capability_name CapModuleLoad = ''module loading''"

fun control_keyword :: "control_kind \<Rightarrow> string" where
  "control_keyword ControlBreak = ''break''"
| "control_keyword ControlContinue = ''continue''"

fun command_kind_text :: "command_error_kind \<Rightarrow> string" where
  "command_kind_text (CommandNotFound name) = ''command not found: '' @ write_path name"
| "command_kind_text (ReservedCommand name purpose replacement) =
     ''command `'' @ name @ ''` is reserved: '' @ purpose
     @ (case replacement of None \<Rightarrow> [] | Some r \<Rightarrow> ''; use `'' @ r @ ''` instead'')
     @ ''; use `^'' @ name @ ''` or `command '' @ name @ ''` for intentional external execution''"
| "command_kind_text RedirectionDescriptorOverflow = ''redirection descriptor number is out of range''"
| "command_kind_text ArgumentContainsNul = ''argument or redirection target contains a NUL byte''"
| "command_kind_text (CarrierMismatch message) = message"
| "command_kind_text (MergedEdgeNotByteStream producer produced) =
     ''a `|&` edge merges stderr and requires a byte-stream producer, but `'' @ producer @ ''` emits a ''
     @ carrier_name produced"
| "command_kind_text (PipelineHeadInput command accepted) =
     ''`'' @ command @ ''` needs an upstream pipeline stage: it accepts '' @ render_carrier_set accepted
     @ '' input, not an empty pipeline head''"
| "command_kind_text (DescriptorNotOpen descriptor) =
     ''cannot duplicate descriptor '' @ show_nat descriptor @ '': it is not open in this stage''"
| "command_kind_text (BuiltinArity command least most actual) =
     (case most of
        Some n \<Rightarrow>
          if least = n then
            command @ '' expects '' @ show_nat least @ '' argument(s), found '' @ show_nat actual
          else
            command @ '' expects '' @ show_nat least @ ''..='' @ show_nat n @ '' arguments, found ''
            @ show_nat actual
      | None \<Rightarrow>
          command @ '' expects at least '' @ show_nat least @ '' argument(s), found '' @ show_nat actual)"
| "command_kind_text (BuiltinInputCarrier command input) =
     command @ '' does not accept '' @ carrier_name input @ '' input''"
| "command_kind_text (BuiltinArgument command message) = command @ '': '' @ message"
| "command_kind_text (StructuredCommand command message) = command @ '': '' @ message"
| "command_kind_text MissingHome = ''cd requires a HOME environment entry''"
| "command_kind_text (WorkingDirectory message) = message"
| "command_kind_text InvalidExitCode = ''exit code must be ASCII decimal from 0 through 255''"
| "command_kind_text CheckRequiresUpstream = ''check requires an upstream pipeline stage''"
| "command_kind_text (Presentation message) = message"
| "command_kind_text (TerminalPresentation message) =
     ''terminal presentation is unavailable: '' @ message"
| "command_kind_text (ShellExecutable message) = ''shell re-execution is unavailable: '' @ message"
| "command_kind_text (ExecutionCapsule message) = ''execution capsule is unavailable: '' @ message"

fun process_kind_text :: "process_error_kind \<Rightarrow> string" where
  "process_kind_text (PipeCreate message) = message"
| "process_kind_text (CapturePipe message) = message"
| "process_kind_text (CaptureRead message) = message"
| "process_kind_text (PipelineRead message) = message"
| "process_kind_text (PipelineWrite message) = message"
| "process_kind_text (RedirectionSetup message) = message"
| "process_kind_text (ProcessSpawn message) = message"
| "process_kind_text (ProcessWait message) = message"
| "process_kind_text (RepeatedStop n) =
     ''the job stopped repeatedly (latest signal '' @ show_int n @ '')''"
| "process_kind_text (ForegroundTerminal message) = ''terminal handover to the job failed: '' @ message"
| "process_kind_text BackgroundProcessGroupUnavailable =
     ''background execution requires one established process group''"
| "process_kind_text InvalidProcessIdentity = ''the platform reported the reserved zero process identity''"
| "process_kind_text BackgroundIdentityExhausted = ''background job identity space is exhausted''"
| "process_kind_text (BackgroundObserverUnavailable message) =
     ''background child observation is unavailable: '' @ message"
| "process_kind_text BackgroundAssignmentUnavailable = ''a ready background observer refused its child''"
| "process_kind_text (ForegroundObservation message) = ''foreground child observation failed: '' @ message"
| "process_kind_text (BackgroundJobState message) = ''invalid background job state: '' @ message"
| "process_kind_text (JobControlUnavailable command) =
     ''`'' @ command @ ''` requires a session with job control''"
| "process_kind_text (JobControlNotInternal command) =
     ''`'' @ command @ ''` cannot share a pipeline with an external command''"
| "process_kind_text (JobControlNotSoleStage command) =
     ''`'' @ command @ ''` must be the only stage of its pipeline''"
| "process_kind_text (JobOperation command message) = command @ '': '' @ message"
| "process_kind_text (JobSignal message) = ''resuming the stopped job failed: '' @ message"
| "process_kind_text UngroupedStop = ''the stopped job has no process group to resume''"

fun cancel_reason_name :: "cancel_reason \<Rightarrow> string" where
  "cancel_reason_name CancelRequested = ''Requested''"
| "cancel_reason_name CancelTimeout = ''Timeout''"

definition word_families :: string where
  "word_families = ''bool, int, float, string, path, duration, or byte size''"

fun kind_text :: "(scalar \<Rightarrow> bool) \<Rightarrow> runtime_error_kind \<Rightarrow> string option" where
  "kind_text plain (ReUserThrown message) = Some message"
| "kind_text plain (ReThrowValueNotErrorOrString actual) =
     Some (''throw requires a string or error, found '' @ actual)"
| "kind_text plain (ReOperation err) = Some (operation_error_text plain err)"
| "kind_text plain (ReScope err) = Some (scope_error_text plain err)"
| "kind_text plain (ReConditionNotBool actual) =
     Some (''condition must be a bool or status, found '' @ actual)"
| "kind_text plain (ReLogicOperandNotBool actual) =
     Some (''logical operand must be a bool, found '' @ actual)"
| "kind_text plain (ReConditionalOperandNotBoolOrStatus actual) =
     Some (''conditional operand must be a bool or status, found '' @ actual)"
| "kind_text plain (ReNotIterable actual) = Some (''cannot iterate a '' @ actual)"
| "kind_text plain (ReControlOutsideLoop control) =
     Some (''`'' @ control_keyword control @ ''` used outside a loop'')"
| "kind_text plain ReReturnOutsideFunction = Some ''`return` used outside a function''"
| "kind_text plain ReNoMatchingArm = Some ''no match arm matched the value''"
| "kind_text plain RePatternMismatch = Some ''value does not match the pattern''"
| "kind_text plain (ReNominalConstruction message) = Some message"
| "kind_text plain (ReGenericInstantiation message) = Some message"
| "kind_text plain (ReNotCallable actual) = Some (''cannot call a '' @ actual)"
| "kind_text plain (ReArityMismatch expected actual) =
     Some (''expected '' @ show_nat expected @ '' argument(s), found '' @ show_nat actual)"
| "kind_text plain (ReBindingTypeMismatch expected actual) =
     Some (''binding expects '' @ type_text expected @ '', found '' @ actual)"
| "kind_text plain (ReParameterTypeMismatch name expected actual) =
     Some (''parameter '' @ debug_string plain name @ '' expects '' @ type_text expected @ '', found '' @ actual)"
| "kind_text plain (ReFunctionResultTypeMismatch expected actual) =
     Some (''function result expects '' @ type_text expected @ '', found '' @ actual)"
| "kind_text plain (ReDuplicateParameter name) = Some (''duplicate parameter '' @ debug_string plain name)"
| "kind_text plain ReExecutionUnsupported = Some ''command execution is not available in pure evaluation''"
| "kind_text plain (ReRestrictedStartup c) =
     Some (restricted_capability_name c @ '' is not available during automatic startup'')"
| "kind_text plain ReResourceBudgetExceeded = Some ''evaluation exceeded its resource budget''"
| "kind_text plain (ReUnsupported feature) = Some (feature @ '' is not supported by this boundary'')"
| "kind_text plain ReIntegerLiteralOverflow = Some ''integer literal is out of range''"
| "kind_text plain ReFloatLiteralOverflow = Some ''float literal is not finite''"
| "kind_text plain (ReDuplicateRecordKey key) = Some (''duplicate record key '' @ debug_string plain key)"
| "kind_text plain ReStringInterpolationNotUtf8 =
     Some ''double-quoted value interpolation is not valid UTF-8''"
| "kind_text plain (ReEnvironmentValueNotUtf8 name) =
     Some (''environment entry '' @ debug_string plain name @ '' is not valid UTF-8'')"
| "kind_text plain (ReGlobPattern message) = Some (''invalid glob pattern: '' @ message)"
| "kind_text plain (ReGlobLimitExceeded limit) =
     Some (''glob exceeded its '' @ show_nat limit @ ''-entry traversal limit'')"
| "kind_text plain (ReWordValueNotWordEligible actual) =
     Some (''cannot use a '' @ actual @ '' as a command word; expected '' @ word_families)"
| "kind_text plain (ReSpreadValueNotList actual) =
     Some (''cannot spread a '' @ actual @ ''; `...` requires a list'')"
| "kind_text plain (ReSpreadElementNotWordEligible index actual) =
     Some (''cannot use the '' @ actual @ '' at spread index '' @ show_nat index
       @ '' as a command word; expected '' @ word_families)"
| "kind_text plain (ReExportValueNotEligible actual) =
     Some (''cannot export a '' @ actual @ ''; expected '' @ word_families)"
| "kind_text plain (ReEnvironmentValueContainsNul name) =
     Some (''environment entry '' @ debug_string plain name @ '' contains a NUL byte'')"
| "kind_text plain (ReDirectoryRead message) = Some message"
| "kind_text plain (ReStreamCancelled reason) =
     Some (''structured stream cancelled: '' @ cancel_reason_name reason)"
| "kind_text plain (ReUnsuccessfulStatus s) =
     map_option (\<lambda>t. ''checked command was unsuccessful: '' @ t) (status_text s)"
| "kind_text plain (ReTransported category message status) = Some message"
| "kind_text plain (ReCaptureLimitExceeded limit) =
     Some (''command output exceeds the '' @ show_nat limit @ ''-byte capture limit'')"
| "kind_text plain (ReCaptureInvalidUtf8 valid_up_to error_len) =
     Some (''command output is not valid UTF-8 at byte '' @ show_nat valid_up_to
       @ (case error_len of None \<Rightarrow> [] | Some n \<Rightarrow> '' (invalid sequence length '' @ show_nat n @ '')'')
       @ ''; use `$(bytes: ...)` to preserve arbitrary output'')"
| "kind_text plain (ReCommand c) = Some (command_kind_text c)"
| "kind_text plain (ReProcess p) = Some (process_kind_text p)"

definition error_text :: "(scalar \<Rightarrow> bool) \<Rightarrow> runtime_error \<Rightarrow> string option" where
  "error_text plain err = kind_text plain (er_kind err)"

section \<open>Values\<close>

definition callable_text :: "callable \<Rightarrow> string" where
  "callable_text c =
     (case ca_name c of
        Some name \<Rightarrow> ''<function '' @ name @ '' at '' @ ca_location c @ ''>''
      | None \<Rightarrow> ''<closure at '' @ ca_location c @ ''>'')"

definition write_type_arguments :: "value_type list \<Rightarrow> string" where
  "write_type_arguments ts =
     (if ts = [] then [] else ''['' @ join_with '', '' (map type_text ts) @ '']'')"

fun all_some :: "'a option list \<Rightarrow> 'a list option" where
  "all_some [] = Some []"
| "all_some (x # xs) = do { a \<leftarrow> x; as \<leftarrow> all_some xs; Some (a # as) }"

text \<open>\<open>None\<close>: the value holds an error that prints a status without a completion.\<close>

primrec value_debug :: "(scalar \<Rightarrow> bool) \<Rightarrow> val \<Rightarrow> string option" where
  "value_debug plain VNull = Some ''null''"
| "value_debug plain (VBool b) = Some (if b then ''true'' else ''false'')"
| "value_debug plain (VInt i) = Some (show_i64 i)"
| "value_debug plain (VFloat f) = Some (float_text (ff_get f))"
| "value_debug plain (VString s) = Some (write_quoted s)"
| "value_debug plain (VBytes s) = Some (''bytes'' @ DQUOTE # write_bytes s @ [DQUOTE])"
| "value_debug plain (VPath s) = Some (''path'' @ DQUOTE # write_path s @ [DQUOTE])"
| "value_debug plain (VDuration d) = Some (''duration('' @ show_int d @ ''ns)'')"
| "value_debug plain (VByteSize n) = Some (''size('' @ show_nat (unat n) @ ''b)'')"
| "value_debug plain (VList vs) =
     map_option (\<lambda>ts. ''['' @ join_with '', '' ts @ '']'') (all_some (map (value_debug plain) vs))"
| "value_debug plain (VRecord es) =
     map_option (\<lambda>ts. ''{'' @ join_with '', '' ts @ ''}'')
       (all_some (map (\<lambda>(k, t). map_option (\<lambda>t. write_quoted k @ '': '' @ t) t)
         (map (map_prod id (value_debug plain)) es)))"
| "value_debug plain (VNominalRecord i ts es) =
     map_option (\<lambda>us. nt_name i @ write_type_arguments ts @ '' {'' @ join_with '','' us
         @ (if us = [] then [] else '' '') @ ''}'')
       (all_some (map (\<lambda>(k, t). map_option (\<lambda>t. CHR '' '' # k @ '': '' @ t) t)
         (map (map_prod id (value_debug plain)) es)))"
| "value_debug plain (VVariant i ts c vs) =
     map_option (\<lambda>us. nt_name i @ write_type_arguments ts @ ''::'' @ c
         @ (if us = [] then [] else ''('' @ join_with '', '' us @ '')''))
       (all_some (map (value_debug plain) vs))"
| "value_debug plain (VTable cs rs) =
     map_option (\<lambda>ts. ''table(columns: ['' @ join_with '', '' (map write_quoted cs) @ ''], rows: [''
         @ join_with '', '' ts @ ''])'')
       (all_some (map (\<lambda>cells. map_option (\<lambda>us. ''['' @ join_with '', '' us @ '']'') (all_some cells))
         (map (map (value_debug plain)) rs)))"
| "value_debug plain (VRange r) = Some (range_text r)"
| "value_debug plain (VStatus s) = Some (status_debug s)"
| "value_debug plain (VError err) =
     map_option (\<lambda>t. ''error('' @ error_category_name (error_kind_category (er_kind err)) @ '': ''
         @ debug_string plain t @ '')'')
       (error_text plain err)"
| "value_debug plain (VCallable i c) = Some (callable_text c)"

definition value_text :: "(scalar \<Rightarrow> bool) \<Rightarrow> val \<Rightarrow> string option" where
  "value_text plain v =
     (case v of
        VString s \<Rightarrow> Some s
      | VBytes s \<Rightarrow> Some (write_bytes s)
      | VPath s \<Rightarrow> Some (write_path s)
      | VDuration d \<Rightarrow> Some (show_int d @ ''ns'')
      | VByteSize n \<Rightarrow> Some (show_nat (unat n) @ ''b'')
      | VStatus s \<Rightarrow> status_text s
      | VError err \<Rightarrow> error_text plain err
      | _ \<Rightarrow> value_debug plain v)"

text \<open>The canonical word encoding; \<open>None\<close> for the families that are not word-eligible.\<close>

definition word_encoding :: "val \<Rightarrow> string option" where
  "word_encoding v =
     (case v of
        VBool b \<Rightarrow> Some (if b then ''true'' else ''false'')
      | VInt i \<Rightarrow> Some (show_i64 i)
      | VFloat f \<Rightarrow> Some (float_text (ff_get f))
      | VString s \<Rightarrow> Some s
      | VPath s \<Rightarrow> Some s
      | VDuration d \<Rightarrow> Some (show_int d @ ''ns'')
      | VByteSize n \<Rightarrow> Some (show_nat (unat n) @ ''b'')
      | _ \<Rightarrow> None)"

end
