(* ===== verification/Operation.thy ===== *)
theory Operation
  imports Value_Text "HOL-Library.Signed_Division"
begin

text \<open>
  The pure operators on values, from \<open>flash-runtime/src/operation.rs\<close>: arithmetic, comparison, membership,
  indexing, member access, ranges and conversions, and the compiled standard operations.

  Every operator returns an \<open>operation_error\<close> or a value; \<open>None\<close> around that is a panic.
\<close>

type_synonym op_result = "operation_error + val"

section \<open>Arithmetic\<close>

datatype numeric = Ints i64 i64 | Floats f64 f64

definition unsupported :: "string \<Rightarrow> val list \<Rightarrow> operation_error" where
  "unsupported operator operands = UnsupportedOperands operator (map family_name operands)"

definition numeric_pair :: "string \<Rightarrow> val \<Rightarrow> val \<Rightarrow> operation_error + numeric" where
  "numeric_pair operator left right =
     (case (left, right) of
        (VInt a, VInt b) \<Rightarrow> Inr (Ints a b)
      | (VInt a, VFloat b) \<Rightarrow> Inr (Floats (f64_of_int (sint a)) (Some (ff_get b)))
      | (VFloat a, VInt b) \<Rightarrow> Inr (Floats (Some (ff_get a)) (f64_of_int (sint b)))
      | (VFloat a, VFloat b) \<Rightarrow> Inr (Floats (Some (ff_get a)) (Some (ff_get b)))
      | _ \<Rightarrow> Inl (unsupported operator [left, right]))"

definition float_value :: "f64 \<Rightarrow> op_result" where
  "float_value x = and_then (map_err (\<lambda>_. OpNonFiniteFloat) (finite_float_new x)) (\<lambda>f. Inr (VFloat f))"

definition int_value :: "string \<Rightarrow> int \<Rightarrow> op_result" where
  "int_value operator i = and_then (ok_or (IntegerOverflow operator) (checked_i64 i)) (\<lambda>w. Inr (VInt w))"

definition add :: "val \<Rightarrow> val \<Rightarrow> op_result" where
  "add left right = and_then (numeric_pair ''+'' left right) (\<lambda>n.
     case n of
       Ints a b \<Rightarrow> int_value ''+'' (sint a + sint b)
     | Floats a b \<Rightarrow> float_value (f64_add a b))"

definition subtract :: "val \<Rightarrow> val \<Rightarrow> op_result" where
  "subtract left right = and_then (numeric_pair ''-'' left right) (\<lambda>n.
     case n of
       Ints a b \<Rightarrow> int_value ''-'' (sint a - sint b)
     | Floats a b \<Rightarrow> float_value (f64_sub a b))"

definition multiply :: "val \<Rightarrow> val \<Rightarrow> op_result" where
  "multiply left right = and_then (numeric_pair ''*'' left right) (\<lambda>n.
     case n of
       Ints a b \<Rightarrow> int_value ''*'' (sint a * sint b)
     | Floats a b \<Rightarrow> float_value (f64_mul a b))"

text \<open>\<open>/\<close> and \<open>%\<close> of \<open>i64\<close> round towards zero; \<open>checked_div\<close> fails on overflow, a plain \<open>%\<close> panics on it.\<close>

definition floored_div :: "i64 \<Rightarrow> i64 \<Rightarrow> operation_error + i64" where
  "floored_div a b =
     (if b = 0 then Inl (DivisionByZero ''/'')
      else
        and_then (ok_or (IntegerOverflow ''/'') (checked_i64 (sint a sdiv sint b))) (\<lambda>quotient.
          let r = sint a smod sint b in
          if r \<noteq> 0 \<and> (r < 0) \<noteq> (sint b < 0)
          then ok_or (IntegerOverflow ''/'') (checked_i64 (sint quotient - 1))
          else Inr quotient))"

definition floored_rem :: "i64 \<Rightarrow> i64 \<Rightarrow> (operation_error + i64) option" where
  "floored_rem a b =
     (if b = 0 then Some (Inl (DivisionByZero ''%''))
      else if \<not> in_i64 (sint a sdiv sint b) then None
      else
        let r = sint a smod sint b in
        if r \<noteq> 0 \<and> (r < 0) \<noteq> (sint b < 0)
        then map_option Inr (checked_i64 (r + sint b))
        else Some (Inr (word_of_int r)))"

definition divide :: "val \<Rightarrow> val \<Rightarrow> op_result" where
  "divide left right = and_then (numeric_pair ''/'' left right) (\<lambda>n.
     case n of
       Ints a b \<Rightarrow> and_then (floored_div a b) (\<lambda>q. Inr (VInt q))
     | Floats a b \<Rightarrow> if b = Some 0 then Inl (DivisionByZero ''/'') else float_value (f64_div a b))"

definition remainder :: "val \<Rightarrow> val \<Rightarrow> op_result option" where
  "remainder left right =
     (case numeric_pair ''%'' left right of
        Inl err \<Rightarrow> Some (Inl err)
      | Inr (Ints a b) \<Rightarrow> try_bind (floored_rem a b) (\<lambda>r. Some (Inr (VInt r)))
      | Inr (Floats a b) \<Rightarrow>
          Some (if b = Some 0 then Inl (DivisionByZero ''%'')
                else float_value (f64_sub a (f64_mul b (f64_floor (f64_div a b))))))"

definition negate :: "val \<Rightarrow> op_result" where
  "negate v =
     (case v of
        VInt a \<Rightarrow> int_value ''-'' (- sint a)
      | VFloat a \<Rightarrow> float_value (Some (- ff_get a))
      | _ \<Rightarrow> Inl (unsupported ''-'' [v]))"

definition plus_value :: "val \<Rightarrow> op_result" where
  "plus_value v =
     (case v of VInt a \<Rightarrow> Inr v | VFloat a \<Rightarrow> Inr v | _ \<Rightarrow> Inl (unsupported ''+'' [v]))"

section \<open>Comparison\<close>

datatype ordering = OrdLess | OrdEqual | OrdGreater

definition cmp :: "'a::linorder \<Rightarrow> 'a \<Rightarrow> ordering" where
  "cmp a b = (if a < b then OrdLess else if a = b then OrdEqual else OrdGreater)"

fun reverse_ordering :: "ordering \<Rightarrow> ordering" where
  "reverse_ordering OrdLess = OrdGreater"
| "reverse_ordering OrdEqual = OrdEqual"
| "reverse_ordering OrdGreater = OrdLess"

definition compare_int_float :: "i64 \<Rightarrow> rat \<Rightarrow> ordering" where
  "compare_int_float i x =
     (if 2 ^ 63 \<le> x then OrdLess
      else if x < - (2 ^ 63) then OrdGreater
      else
        (case cmp (sint i) (rat_trunc x) of
           OrdEqual \<Rightarrow>
             (let fraction = x - of_int (rat_trunc x) in
              if 0 < fraction then OrdLess else if fraction < 0 then OrdGreater else OrdEqual)
         | other \<Rightarrow> other))"

fun order_lists :: "(val \<Rightarrow> operation_error + ordering) list \<Rightarrow> val list \<Rightarrow> operation_error + ordering" where
  "order_lists [] [] = Inr OrdEqual"
| "order_lists [] (w # ws) = Inr OrdLess"
| "order_lists (f # fs) [] = Inr OrdGreater"
| "order_lists (f # fs) (w # ws) =
     and_then (f w) (\<lambda>r. if r = OrdEqual then order_lists fs ws else Inr r)"

definition incomparable :: "val \<Rightarrow> val \<Rightarrow> operation_error + ordering" where
  "incomparable left right = Inl (unsupported ''<'' [left, right])"

text \<open>The recursion is on the left value, whose elements stand in \<open>order_lists\<close> as their comparisons.\<close>

primrec order_values :: "val \<Rightarrow> val \<Rightarrow> operation_error + ordering" where
  "order_values VNull = incomparable VNull"
| "order_values (VBool b) = incomparable (VBool b)"
| "order_values (VInt a) = (\<lambda>w. case w of
     VInt b \<Rightarrow> Inr (cmp (sint a) (sint b))
   | VFloat b \<Rightarrow> Inr (compare_int_float a (ff_get b))
   | _ \<Rightarrow> incomparable (VInt a) w)"
| "order_values (VFloat a) = (\<lambda>w. case w of
     VInt b \<Rightarrow> Inr (reverse_ordering (compare_int_float b (ff_get a)))
   | VFloat b \<Rightarrow> Inr (cmp (ff_get a) (ff_get b))
   | _ \<Rightarrow> incomparable (VFloat a) w)"
| "order_values (VString a) = (\<lambda>w. case w of VString b \<Rightarrow> Inr (cmp a b) | _ \<Rightarrow> incomparable (VString a) w)"
| "order_values (VBytes a) = (\<lambda>w. case w of VBytes b \<Rightarrow> Inr (cmp a b) | _ \<Rightarrow> incomparable (VBytes a) w)"
| "order_values (VPath a) = (\<lambda>w. case w of VPath b \<Rightarrow> Inr (cmp a b) | _ \<Rightarrow> incomparable (VPath a) w)"
| "order_values (VDuration a) = (\<lambda>w. case w of VDuration b \<Rightarrow> Inr (cmp a b) | _ \<Rightarrow> incomparable (VDuration a) w)"
| "order_values (VByteSize a) = (\<lambda>w. case w of
     VByteSize b \<Rightarrow> Inr (cmp (unat a) (unat b)) | _ \<Rightarrow> incomparable (VByteSize a) w)"
| "order_values (VList vs) = (\<lambda>w. case w of
     VList ws \<Rightarrow> order_lists (map order_values vs) ws | _ \<Rightarrow> incomparable (VList vs) w)"
| "order_values (VRecord es) = incomparable (VRecord es)"
| "order_values (VNominalRecord i ts es) = incomparable (VNominalRecord i ts es)"
| "order_values (VVariant i ts c vs) = incomparable (VVariant i ts c vs)"
| "order_values (VTable cs rs) = incomparable (VTable cs rs)"
| "order_values (VRange r) = incomparable (VRange r)"
| "order_values (VStatus s) = incomparable (VStatus s)"
| "order_values (VError err) = incomparable (VError err)"
| "order_values (VCallable i c) = incomparable (VCallable i c)"

definition less_value :: "val \<Rightarrow> val \<Rightarrow> op_result" where
  "less_value left right = and_then (order_values left right) (\<lambda>r. Inr (VBool (r = OrdLess)))"

definition less_equal :: "val \<Rightarrow> val \<Rightarrow> op_result" where
  "less_equal left right = and_then (order_values left right) (\<lambda>r. Inr (VBool (r \<noteq> OrdGreater)))"

definition greater_value :: "val \<Rightarrow> val \<Rightarrow> op_result" where
  "greater_value left right = and_then (order_values left right) (\<lambda>r. Inr (VBool (r = OrdGreater)))"

definition greater_equal :: "val \<Rightarrow> val \<Rightarrow> op_result" where
  "greater_equal left right = and_then (order_values left right) (\<lambda>r. Inr (VBool (r \<noteq> OrdLess)))"

definition equal_value :: "val \<Rightarrow> val \<Rightarrow> val" where
  "equal_value left right = VBool (value_eq left right)"

definition not_equal :: "val \<Rightarrow> val \<Rightarrow> val" where
  "not_equal left right = VBool (\<not> value_eq left right)"

section \<open>Membership, indexing and members\<close>

fun contains_text :: "string \<Rightarrow> string \<Rightarrow> bool" where
  "contains_text [] t \<longleftrightarrow> t = []"
| "contains_text (c # s) t \<longleftrightarrow> starts_with (c # s) t \<or> contains_text s t"

definition member_value :: "val \<Rightarrow> val \<Rightarrow> op_result" where
  "member_value element container =
     (let refused = Inl (unsupported ''in'' [element, container]) in
      case container of
        VRange r \<Rightarrow> (case element of VInt i \<Rightarrow> Inr (VBool (range_contains r i)) | _ \<Rightarrow> refused)
      | VList items \<Rightarrow> Inr (VBool (list_ex (\<lambda>item. value_eq item element) items))
      | VString t \<Rightarrow> (case element of VString s \<Rightarrow> Inr (VBool (contains_text t s)) | _ \<Rightarrow> refused)
      | VRecord es \<Rightarrow> (case element of VString k \<Rightarrow> Inr (VBool (record_get es k \<noteq> None)) | _ \<Rightarrow> refused)
      | _ \<Rightarrow> refused)"

definition checked_position :: "i64 \<Rightarrow> nat \<Rightarrow> operation_error + nat" where
  "checked_position i len =
     (if sint i < 0 then Inl (NegativeIndex i)
      else if len \<le> nat (sint i) then Inl (IndexOutOfRange i len)
      else Inr (nat (sint i)))"

definition index_value :: "val \<Rightarrow> val \<Rightarrow> op_result" where
  "index_value target i =
     (case (target, i) of
        (VList items, VInt n) \<Rightarrow> and_then (checked_position n (length items)) (\<lambda>p. Inr (items ! p))
      | (VString t, VInt n) \<Rightarrow>
          and_then (checked_position n (length (chars t))) (\<lambda>p. Inr (VString (utf8_encode (chars t ! p))))
      | (VRecord es, VString k) \<Rightarrow> ok_or (MissingKey k) (record_get es k)
      | _ \<Rightarrow> Inl (unsupported ''[]'' [target, i]))"

definition signal_record :: "signal \<Rightarrow> val" where
  "signal_record sg = VRecord
     [(''number'', case sg_number sg of None \<Rightarrow> VNull | Some n \<Rightarrow> VInt n),
      (''name'', case sg_name sg of None \<Rightarrow> VNull | Some n \<Rightarrow> VString n)]"

definition offset_value :: "nat \<Rightarrow> val" where
  "offset_value n = VInt (if n < 2 ^ 63 then word_of_nat n else word_of_int (2 ^ 63 - 1))"

definition source_span_fields :: "string \<Rightarrow> span \<Rightarrow> (string \<times> val) list" where
  "source_span_fields name sp =
     [(''name'', VString name), (''start'', offset_value (span_start sp)), (''end'', offset_value (span_end sp))]"

definition frame_callee_name :: "frame_callee \<Rightarrow> string" where
  "frame_callee_name f = (case f of FrameFunction name \<Rightarrow> name | FrameClosure \<Rightarrow> ''<closure>'')"

definition error_field :: "(scalar \<Rightarrow> bool) \<Rightarrow> runtime_error \<Rightarrow> string \<Rightarrow> op_result option" where
  "error_field plain err name =
     (if name = ''category'' then Some (Inr (VString (error_category_name (error_kind_category (er_kind err)))))
      else if name = ''message'' then map_option (\<lambda>t. Inr (VString t)) (error_text plain err)
      else if name = ''source'' then
        Some (Inr (case er_source err of
          None \<Rightarrow> VNull
        | Some src \<Rightarrow> VRecord (source_span_fields (sf_name src) (er_span err))))
      else if name = ''labels'' then
        Some (Inr (VList (map (\<lambda>l.
          VRecord (source_span_fields (sf_name (el_source l)) (el_span l)
            @ [(''message'', VString (el_message l))])) (er_labels err))))
      else if name = ''frames'' then
        Some (Inr (VList (map (\<lambda>f.
          VRecord (source_span_fields (sf_name (cf_source f)) (cf_call_site f)
            @ [(''callee'', VString (frame_callee_name (cf_callee f)))])) (er_frames err))))
      else if name = ''cause'' then Some (Inr (case er_cause err of None \<Rightarrow> VNull | Some c \<Rightarrow> VError c))
      else if name = ''status'' then
        Some (Inr (case error_status err of None \<Rightarrow> VNull | Some s \<Rightarrow> VStatus s))
      else Some (Inl (MissingField name)))"

definition status_field :: "status \<Rightarrow> string \<Rightarrow> op_result" where
  "status_field s name =
     (if name = ''code'' then Inr (case st_code s of None \<Rightarrow> VNull | Some c \<Rightarrow> VInt c)
      else if name = ''signal'' then Inr (case st_signal s of None \<Rightarrow> VNull | Some sg \<Rightarrow> signal_record sg)
      else if name = ''ok'' then Inr (VBool (status_is_ok s))
      else if name = ''stages'' then Inr (VList (map VStatus (st_stages s)))
      else if name = ''duration'' then Inr (VDuration (st_duration s))
      else Inl (MissingField name))"

definition field_value :: "(scalar \<Rightarrow> bool) \<Rightarrow> val \<Rightarrow> string \<Rightarrow> op_result option" where
  "field_value plain target name =
     (case target of
        VRecord es \<Rightarrow> Some (ok_or (MissingField name) (record_get es name))
      | VNominalRecord i ts es \<Rightarrow> Some (ok_or (MissingField name) (record_get es name))
      | VStatus s \<Rightarrow> Some (status_field s name)
      | VError err \<Rightarrow> error_field plain err name
      | _ \<Rightarrow> Some (Inl (unsupported ''.'' [target])))"

section \<open>Ranges and conversions\<close>

definition range_value :: "val \<Rightarrow> val \<Rightarrow> bool \<Rightarrow> op_result" where
  "range_value start end' incl =
     (case (start, end') of
        (VInt a, VInt b) \<Rightarrow> Inr (VRange (FlashRange a b incl))
      | _ \<Rightarrow> Inl (unsupported ''..'' [start, end']))"

definition to_int :: "val \<Rightarrow> op_result" where
  "to_int v =
     (case v of
        VInt i \<Rightarrow> Inr (VInt i)
      | VFloat f \<Rightarrow>
          (let t = rat_trunc (ff_get f) in
           if - (2 ^ 63) \<le> t \<and> t < 2 ^ 63 then Inr (VInt (word_of_int t))
           else Inl (ConversionOutOfRange (ff_get f)))
      | _ \<Rightarrow> Inl (unsupported ''int'' [v]))"

definition to_float :: "val \<Rightarrow> op_result option" where
  "to_float v =
     (case v of
        VInt i \<Rightarrow> map_option (\<lambda>f. Inr (VFloat f)) (expect_ok (finite_float_new (f64_of_int (sint i))))
      | VFloat f \<Rightarrow> Some (Inr (VFloat f))
      | _ \<Rightarrow> Some (Inl (unsupported ''float'' [v])))"

section \<open>Standard operations\<close>

datatype operation_id = OperationId (oi_module: module_id) (oi_name: string)

definition qualified_operation_name :: "operation_id \<Rightarrow> string" where
  "qualified_operation_name i = mi_path (oi_module i) @ ''::'' @ oi_name i"

datatype operation_input_type = InputValue value_type | InputValueStream value_type

datatype operation_overload = OperationOverload (oo_input: operation_input_type) (oo_result: value_type)

datatype standard_implementation = LengthOperation

text \<open>The documentation, the purity and the execution metadata of a descriptor are not kept.\<close>

datatype operation_descriptor =
  OperationDescriptor (od_id: operation_id) (od_type_parameters: "string list")
    (od_overloads: "operation_overload list") (od_implementation: standard_implementation)

datatype operation_descriptor_error =
    EmptyOverloadSet
  | DuplicateTypeParameter string
  | UnknownTypeParameter string
  | OverlappingOverloads

fun input_type :: "operation_input_type \<Rightarrow> value_type" where
  "input_type (InputValue t) = t"
| "input_type (InputValueStream t) = t"

lemma try_map_cong [fundef_cong]:
  "xs = ys \<Longrightarrow> (\<And>x. x \<in> set ys \<Longrightarrow> f x = g x) \<Longrightarrow> try_map f xs = try_map g ys"
  by (induction xs arbitrary: ys) auto

fun validate_type_parameters :: "string list \<Rightarrow> value_type \<Rightarrow> operation_descriptor_error + unit" where
  "validate_type_parameters declared (VtTypeParameter name) =
     (if name \<in> set declared then Inr () else Inl (UnknownTypeParameter name))"
| "validate_type_parameters declared (VtList t) = validate_type_parameters declared t"
| "validate_type_parameters declared (VtNominal i ts) =
     and_then (try_map (validate_type_parameters declared) ts) (\<lambda>_. Inr ())"
| "validate_type_parameters declared _ = Inr ()"

fun types_overlap :: "value_type \<Rightarrow> value_type \<Rightarrow> bool" where
  "types_overlap VtAny u = True"
| "types_overlap (VtTypeParameter name) u = True"
| "types_overlap (VtList t) u =
     (case u of VtAny \<Rightarrow> True | VtTypeParameter _ \<Rightarrow> True | VtList v \<Rightarrow> types_overlap t v | _ \<Rightarrow> False)"
| "types_overlap (VtNominal i ts) u =
     (case u of
        VtAny \<Rightarrow> True
      | VtTypeParameter _ \<Rightarrow> True
      | VtNominal j us \<Rightarrow> i = j \<and> list_all2 (\<lambda>f u. f u) (map types_overlap ts) us
      | _ \<Rightarrow> False)"
| "types_overlap t u = (case u of VtAny \<Rightarrow> True | VtTypeParameter _ \<Rightarrow> True | _ \<Rightarrow> t = u)"

fun inputs_overlap :: "operation_input_type \<Rightarrow> operation_input_type \<Rightarrow> bool" where
  "inputs_overlap (InputValue t) (InputValue u) = types_overlap t u"
| "inputs_overlap (InputValueStream t) (InputValueStream u) = types_overlap t u"
| "inputs_overlap _ _ = False"

fun overlapping :: "operation_overload list \<Rightarrow> bool" where
  "overlapping [] = False"
| "overlapping (v # vs) \<longleftrightarrow> list_ex (\<lambda>u. inputs_overlap (oo_input v) (oo_input u)) vs \<or> overlapping vs"

fun first_repeated :: "string list \<Rightarrow> string list \<Rightarrow> string option" where
  "first_repeated seen [] = None"
| "first_repeated seen (x # xs) = (if x \<in> set seen then Some x else first_repeated (x # seen) xs)"

definition validate_descriptor :: "operation_descriptor \<Rightarrow> operation_descriptor_error + unit" where
  "validate_descriptor d =
     (if od_overloads d = [] then Inl EmptyOverloadSet
      else
        (case first_repeated [] (od_type_parameters d) of
           Some name \<Rightarrow> Inl (DuplicateTypeParameter name)
         | None \<Rightarrow>
             and_then (try_map (\<lambda>v.
                 and_then (validate_type_parameters (od_type_parameters d) (input_type (oo_input v))) (\<lambda>_.
                 validate_type_parameters (od_type_parameters d) (oo_result v))) (od_overloads d)) (\<lambda>_.
             if overlapping (od_overloads d) then Inl OverlappingOverloads else Inr ())))"

text \<open>The code validates the descriptor and panics if it is not valid: see \<open>standard_operation_valid\<close>.\<close>

definition standard_operation :: "module_id \<Rightarrow> string \<Rightarrow> operation_descriptor option" where
  "standard_operation m name =
     (case mi_origin m of
        OriginLocal \<Rightarrow> None
      | OriginStandard namespace standard \<Rightarrow>
          if namespace \<noteq> ''std'' \<or> standard \<noteq> ''value'' \<or> name \<noteq> ''length'' then None
          else
            Some (OperationDescriptor (OperationId m ''length'') [''T'']
              [OperationOverload (InputValue (VtList (VtTypeParameter ''T''))) VtInt,
               OperationOverload (InputValueStream (VtTypeParameter ''T'')) VtInt]
              LengthOperation))"

lemma standard_operation_valid: "standard_operation m name = Some d \<Longrightarrow> validate_descriptor d = Inr ()"
  by (cases "mi_origin m")
    (simp_all add: standard_operation_def split: if_splits, erule subst, simp add: validate_descriptor_def)

definition execute_value :: "operation_descriptor \<Rightarrow> val \<Rightarrow> value_type list \<Rightarrow> op_result option" where
  "execute_value d v explicit =
     (if explicit \<noteq> [] \<and> length explicit \<noteq> length (od_type_parameters d)
      then Some (Inl (GenericArity (qualified_operation_name (od_id d)) (length (od_type_parameters d))
        (length explicit)))
      else
        let subst = rev (zip (od_type_parameters d) explicit) in
        if list_ex (\<lambda>overload. case oo_input overload of
             InputValue expected \<Rightarrow> accepts (substitute_type subst expected) v
           | InputValueStream _ \<Rightarrow> False) (od_overloads d)
        then
          (case od_implementation d of
             LengthOperation \<Rightarrow>
               (case v of
                  VList vs \<Rightarrow>
                    Some (if length vs < 2 ^ 63 then Inr (VInt (word_of_nat (length vs)))
                          else Inl (LengthOverflow (qualified_operation_name (od_id d))))
                | _ \<Rightarrow> None))
        else
          Some (Inl (NoMatchingOverload (qualified_operation_name (od_id d))
            (''Value('' @ family_name v @ '')''))))"

definition qualified_operation ::
  "runtime_binding_types \<Rightarrow> source_id \<Rightarrow> string list \<Rightarrow> operation_descriptor option" where
  "qualified_operation B src segments =
     (if length segments < 2 then None
      else do {
        current \<leftarrow> map_of (bt_modules B) src;
        owner \<leftarrow> resolve_alias B current (butlast segments);
        standard_operation owner (last segments)
      })"

section \<open>Intrinsics\<close>

datatype expression_intrinsic = IntrinsicEnv | IntrinsicFloat | IntrinsicGlob | IntrinsicInt

definition intrinsic_lookup :: "string \<Rightarrow> expression_intrinsic option" where
  "intrinsic_lookup name =
     (if name = ''env'' then Some IntrinsicEnv
      else if name = ''float'' then Some IntrinsicFloat
      else if name = ''glob'' then Some IntrinsicGlob
      else if name = ''int'' then Some IntrinsicInt
      else None)"

definition intrinsic_arity :: "expression_intrinsic \<Rightarrow> nat" where
  "intrinsic_arity i = 1"

definition intrinsic_invoke :: "expression_intrinsic \<Rightarrow> val \<Rightarrow> op_result option" where
  "intrinsic_invoke i v =
     (case i of
        IntrinsicEnv \<Rightarrow> Some (Inl (HostContextRequired ''env''))
      | IntrinsicGlob \<Rightarrow> Some (Inl (HostContextRequired ''glob''))
      | IntrinsicInt \<Rightarrow> Some (to_int v)
      | IntrinsicFloat \<Rightarrow> to_float v)"

datatype dynamic_binding = CurrentStatus

definition dynamic_lookup :: "string \<Rightarrow> dynamic_binding option" where
  "dynamic_lookup name = (if name = ''status'' then Some CurrentStatus else None)"

end
