(* ===== verification/Scope.thy ===== *)
theory Scope
  imports Value
begin

text \<open>
  Lexical scopes and the environment of child processes, from \<open>flash-runtime/src/scope.rs\<close> and
  \<open>environment.rs\<close>. A stack lists its frames from the root inwards; a frame lists its bindings in the order
  of their declarations.
\<close>

type_synonym scope_frame = "(string \<times> binding) list"
type_synonym scope_stack = "scope_frame list"

section \<open>Frames\<close>

definition scope_new :: scope_stack where
  "scope_new = [[]]"

definition scope_depth :: "scope_stack \<Rightarrow> nat" where
  "scope_depth s = length s"

definition freeze :: "binding \<Rightarrow> binding" where
  "freeze b = Binding Immutable (bi_type b) (bi_value b)"

definition captured_snapshot :: "scope_stack \<Rightarrow> scope_stack" where
  "captured_snapshot s = map (map (map_prod id freeze)) s"

definition scope_push :: "scope_stack \<Rightarrow> scope_stack" where
  "scope_push s = s @ [[]]"

definition scope_pop :: "scope_stack \<Rightarrow> scope_error + scope_stack" where
  "scope_pop s = (if length s = 1 then Inl CannotPopRoot else Inr (butlast s))"

section \<open>Bindings\<close>

text \<open>\<open>None\<close>: there is no frame.\<close>

definition declare_typed ::
  "string \<Rightarrow> binding_mutability \<Rightarrow> val \<Rightarrow> value_type option \<Rightarrow> scope_stack \<Rightarrow> (scope_error + scope_stack) option" where
  "declare_typed name m v t s =
     (if s = [] then None
      else Some
        (if name \<in> fst ` set (last s) then Inl (DuplicateBinding name)
         else
           (case t of
              Some expected \<Rightarrow>
                if accepts expected v then Inr (butlast s @ [last s @ [(name, Binding m t v)]])
                else Inl (ScopeTypeMismatch expected (family_name v))
            | None \<Rightarrow> Inr (butlast s @ [last s @ [(name, Binding m t v)]]))))"

definition declare_binding :: "string \<Rightarrow> binding_mutability \<Rightarrow> val \<Rightarrow> scope_stack \<Rightarrow> (scope_error + scope_stack) option" where
  "declare_binding name m v s = declare_typed name m v None s"

definition scope_find :: "scope_stack \<Rightarrow> string \<Rightarrow> binding option" where
  "scope_find s name = find_map (\<lambda>f. map_of f name) (rev s)"

definition scope_get :: "scope_stack \<Rightarrow> string \<Rightarrow> val option" where
  "scope_get s name = map_option bi_value (scope_find s name)"

definition scope_mutability :: "scope_stack \<Rightarrow> string \<Rightarrow> binding_mutability option" where
  "scope_mutability s name = map_option bi_mutability (scope_find s name)"

definition assign_binding :: "string \<Rightarrow> val \<Rightarrow> binding \<Rightarrow> scope_error + binding" where
  "assign_binding name v b =
     (if bi_mutability b = Immutable then Inl (ImmutableBinding name)
      else
        (case bi_type b of
           Some expected \<Rightarrow>
             if accepts expected v then Inr (Binding (bi_mutability b) (bi_type b) v)
             else Inl (ScopeTypeMismatch expected (family_name v))
         | None \<Rightarrow> Inr (Binding (bi_mutability b) (bi_type b) v)))"

fun update_first :: "string \<Rightarrow> binding \<Rightarrow> scope_frame \<Rightarrow> scope_frame" where
  "update_first name c [] = []"
| "update_first name c ((k, b) # f) = (if k = name then (k, c) # f else (k, b) # update_first name c f)"

text \<open>The frames from the innermost outwards.\<close>

fun assign_frames :: "string \<Rightarrow> val \<Rightarrow> scope_frame list \<Rightarrow> scope_error + scope_frame list" where
  "assign_frames name v [] = Inl (UnknownBinding name)"
| "assign_frames name v (f # fs) =
     (case map_of f name of
        None \<Rightarrow> and_then (assign_frames name v fs) (\<lambda>gs. Inr (f # gs))
      | Some b \<Rightarrow> and_then (assign_binding name v b) (\<lambda>c. Inr (update_first name c f # fs)))"

definition assign :: "string \<Rightarrow> val \<Rightarrow> scope_stack \<Rightarrow> scope_error + scope_stack" where
  "assign name v s = and_then (assign_frames name v (rev s)) (\<lambda>fs. Inr (rev fs))"

fun remove_first :: "string \<Rightarrow> scope_frame \<Rightarrow> scope_frame" where
  "remove_first name [] = []"
| "remove_first name ((k, b) # f) = (if k = name then f else (k, b) # remove_first name f)"

fun remove_frames :: "string \<Rightarrow> scope_frame list \<Rightarrow> val option \<times> scope_frame list" where
  "remove_frames name [] = (None, [])"
| "remove_frames name (f # fs) =
     (case map_of f name of
        Some b \<Rightarrow> (Some (bi_value b), remove_first name f # fs)
      | None \<Rightarrow> (let (v, gs) = remove_frames name fs in (v, f # gs)))"

definition scope_remove :: "string \<Rightarrow> scope_stack \<Rightarrow> val option \<times> scope_stack" where
  "scope_remove name s = (let (v, fs) = remove_frames name (rev s) in (v, rev fs))"

definition visible_bindings :: "scope_stack \<Rightarrow> (string \<times> val) list" where
  "visible_bindings s = bt_of_list [] (map (map_prod id bi_value) (concat s))"

section \<open>Capsules\<close>

text \<open>A \<open>CapsuleBinding\<close> is a binding with its name.\<close>

definition capsule_bindings :: "scope_stack \<Rightarrow> (string \<times> binding) list" where
  "capsule_bindings s = bt_of_list [] (concat s)"

fun declare_all :: "(string \<times> binding) list \<Rightarrow> scope_stack \<Rightarrow> (scope_error + scope_stack) option" where
  "declare_all [] s = Some (Inr s)"
| "declare_all ((name, b) # bs) s =
     try_bind (declare_typed name (bi_mutability b) (bi_value b) (bi_type b) s) (declare_all bs)"

definition from_capsule_bindings :: "(string \<times> binding) list \<Rightarrow> (scope_error + scope_stack) option" where
  "from_capsule_bindings bs = declare_all bs scope_new"

definition binding_eq :: "binding \<Rightarrow> binding \<Rightarrow> bool" where
  "binding_eq b c \<longleftrightarrow>
     bi_mutability b = bi_mutability c \<and> bi_type b = bi_type c \<and> value_eq (bi_value b) (bi_value c)"

definition capsule_change ::
  "(string \<times> binding) list \<Rightarrow> (string \<times> binding) list \<Rightarrow> string \<Rightarrow> scope_stack
   \<Rightarrow> (scope_error + scope_stack) option" where
  "capsule_change base updated name s =
     (case (map_of base name, map_of updated name) of
        (None, None) \<Rightarrow> Some (Inr s)
      | (Some b, None) \<Rightarrow> Some (Inr (snd (scope_remove name s)))
      | (None, Some u) \<Rightarrow>
          declare_typed name (bi_mutability u) (bi_value u) (bi_type u) (snd (scope_remove name s))
      | (Some b, Some u) \<Rightarrow>
          if binding_eq b u then Some (Inr s)
          else if bi_mutability b = bi_mutability u \<and> bi_type b = bi_type u then Some (assign name (bi_value u) s)
          else declare_typed name (bi_mutability u) (bi_value u) (bi_type u) (snd (scope_remove name s)))"

fun try_fold :: "('a \<Rightarrow> 's \<Rightarrow> ('e + 's) option) \<Rightarrow> 'a list \<Rightarrow> 's \<Rightarrow> ('e + 's) option" where
  "try_fold f [] s = Some (Inr s)"
| "try_fold f (x # xs) s = try_bind (f x s) (try_fold f xs)"

definition apply_capsule_delta ::
  "scope_stack \<Rightarrow> scope_stack \<Rightarrow> scope_stack \<Rightarrow> (scope_error + scope_stack) option" where
  "apply_capsule_delta base updated s =
     (let b = capsule_bindings base; u = capsule_bindings updated;
          names = map fst (bt_of_list [] (map (\<lambda>(n, _). (n, ())) (b @ u))) in
      try_fold (capsule_change b u) names s)"

section \<open>The environment\<close>

type_synonym environment = "(string \<times> string) list"

definition environment_new :: environment where
  "environment_new = []"

definition from_snapshot :: "(string \<times> string) list \<Rightarrow> environment" where
  "from_snapshot entries = bt_of_list [] entries"

definition environment_get :: "environment \<Rightarrow> string \<Rightarrow> string option" where
  "environment_get env name = map_of env name"

definition environment_contains :: "environment \<Rightarrow> string \<Rightarrow> bool" where
  "environment_contains env name \<longleftrightarrow> name \<in> fst ` set env"

definition environment_set :: "string \<Rightarrow> string \<Rightarrow> environment \<Rightarrow> environment" where
  "environment_set name v env = bt_insert name v env"

definition environment_remove :: "string \<Rightarrow> environment \<Rightarrow> bool \<times> environment" where
  "environment_remove name env = (environment_contains env name, filter (\<lambda>(k, _). k \<noteq> name) env)"

definition environment_change :: "environment \<Rightarrow> environment \<Rightarrow> environment \<Rightarrow> string \<Rightarrow> environment" where
  "environment_change base updated env name =
     (if map_of base name = map_of updated name then env
      else
        (case map_of updated name of
           Some v \<Rightarrow> environment_set name v env
         | None \<Rightarrow> snd (environment_remove name env)))"

definition environment_apply_delta :: "environment \<Rightarrow> environment \<Rightarrow> environment \<Rightarrow> environment" where
  "environment_apply_delta base updated env =
     foldl (environment_change base updated) env (map fst base @ map fst updated)"

text \<open>\<open>None\<close>: a name comes twice.\<close>

definition scope_from_environment :: "environment \<Rightarrow> scope_stack option" where
  "scope_from_environment env =
     Option.bind (declare_all (map (\<lambda>(n, v). (n, Binding Immutable None (VPath v))) env) scope_new) expect_ok"

end
