(* ===== verification/Eval_Core.thy ===== *)
theory Eval_Core
  imports Operation Scope
begin

text \<open>
  The state, the resource budget and the primitive steps of the evaluator, from \<open>flash-runtime/src/eval.rs\<close>
  and \<open>outcome.rs\<close>.

  A method of \<open>Evaluator\<close> is a function from its immutable fields (\<open>eval_context\<close>) and the mutable state
  (\<open>evaluation\<close>) to \<open>Ended (r, s)\<close>, where \<open>r\<close> is the method's \<open>Eval\<close> and \<open>s\<close> the state that it leaves, also
  when it fails; to \<open>Panicked\<close>, where an \<open>expect\<close> or an operation of the language panics; or to \<open>Exhausted\<close>,
  where the fuel of the model is used up. The host is the pure one (\<open>PureEvaluationHost\<close>): an environment
  and a policy.

  Cancellation is asked in sequence: \<open>cx_cancelled cx n\<close> is the answer to the \<open>n\<close>-th question, \<open>ev_polls\<close> the
  number of questions so far. \<open>ev_next\<close> numbers the allocations of callables.
\<close>

section \<open>The resource budget\<close>

text \<open>The fields are \<open>u64\<close>: additions are checked against \<open>2 ^ 64\<close>, as in the source.\<close>

record budget =
  bg_step_limit :: "nat option"
  bg_used_steps :: nat
  bg_call_depth_limit :: "nat option"
  bg_call_depth :: nat
  bg_peak_call_depth :: nat
  bg_item_limit :: "nat option"
  bg_items :: nat
  bg_byte_limit :: "nat option"
  bg_bytes :: nat

definition budget_unlimited :: budget where
  "budget_unlimited =
     \<lparr>bg_step_limit = None, bg_used_steps = 0, bg_call_depth_limit = None, bg_call_depth = 0,
      bg_peak_call_depth = 0, bg_item_limit = None, bg_items = 0, bg_byte_limit = None, bg_bytes = 0\<rparr>"

definition budget_steps :: "nat \<Rightarrow> budget" where
  "budget_steps n = budget_unlimited\<lparr>bg_step_limit := Some n\<rparr>"

definition budget_v2 :: budget where
  "budget_v2 =
     \<lparr>bg_step_limit = Some 1000000, bg_used_steps = 0, bg_call_depth_limit = Some 256, bg_call_depth = 0,
      bg_peak_call_depth = 0, bg_item_limit = Some 1000000, bg_items = 0,
      bg_byte_limit = Some (16 * 1024 * 1024), bg_bytes = 0\<rparr>"

definition with_call_depth :: "nat \<Rightarrow> budget \<Rightarrow> budget" where
  "with_call_depth n b = b\<lparr>bg_call_depth_limit := Some n\<rparr>"

definition with_collection_items :: "nat \<Rightarrow> budget \<Rightarrow> budget" where
  "with_collection_items n b = b\<lparr>bg_item_limit := Some n\<rparr>"

definition with_collection_bytes :: "nat \<Rightarrow> budget \<Rightarrow> budget" where
  "with_collection_bytes n b = b\<lparr>bg_byte_limit := Some n\<rparr>"

definition exceeds :: "nat option \<Rightarrow> nat \<Rightarrow> bool" where
  "exceeds limit n \<longleftrightarrow> (case limit of None \<Rightarrow> False | Some l \<Rightarrow> l < n)"

definition budget_charge :: "budget \<Rightarrow> budget option" where
  "budget_charge b =
     (case bg_step_limit b of
        None \<Rightarrow> Some b
      | Some limit \<Rightarrow>
          if limit \<le> bg_used_steps b then None else Some (b\<lparr>bg_used_steps := bg_used_steps b + 1\<rparr>))"

definition charge_collection_items :: "nat \<Rightarrow> budget \<Rightarrow> budget option" where
  "charge_collection_items n b =
     (let next = bg_items b + n in
      if 2 ^ 64 \<le> next \<or> exceeds (bg_item_limit b) next then None else Some (b\<lparr>bg_items := next\<rparr>))"

definition charge_collection_bytes :: "nat \<Rightarrow> budget \<Rightarrow> budget option" where
  "charge_collection_bytes n b =
     (let next = bg_bytes b + n in
      if 2 ^ 64 \<le> next \<or> exceeds (bg_byte_limit b) next then None else Some (b\<lparr>bg_bytes := next\<rparr>))"

definition budget_enter_call :: "budget \<Rightarrow> budget option" where
  "budget_enter_call b =
     (let next = bg_call_depth b + 1 in
      if 2 ^ 64 \<le> next \<or> exceeds (bg_call_depth_limit b) next then None
      else Some (b\<lparr>bg_call_depth := next, bg_peak_call_depth := max (bg_peak_call_depth b) next\<rparr>))"

text \<open>\<open>None\<close>: the panic of an unmatched leave.\<close>

definition budget_leave_call :: "budget \<Rightarrow> budget option" where
  "budget_leave_call b =
     (if bg_call_depth b = 0 then None else Some (b\<lparr>bg_call_depth := bg_call_depth b - 1\<rparr>))"

section \<open>Aborts\<close>

datatype cancellation = Cancellation (cn_reason: cancel_reason) (cn_span: span)

datatype refusal_reason = RefusalDenied | RefusalUnsupported | RefusalUnknown

datatype refusal = Refusal (rf_reason: refusal_reason) (rf_operation: string) (rf_span: span)

text \<open>The aborts of sessions (exit, a stopped job, failed output) do not arise with the pure host.\<close>

datatype abort = AbError runtime_error | AbCancelled cancellation | AbRefused refusal

fun abort_with_frame :: "call_frame \<Rightarrow> abort \<Rightarrow> abort" where
  "abort_with_frame f (AbError err) = AbError (error_with_frame f err)"
| "abort_with_frame f other = other"

datatype evaluation_policy = PolicyGeneral | PolicyStartup | PolicyPureV2

section \<open>State and context\<close>

record eval_context =
  cx_source :: source_file
  cx_types :: runtime_binding_types
  cx_result :: "value_type option"
  cx_cancelled :: "nat \<Rightarrow> bool"
  cx_reason :: cancel_reason
  cx_policy :: evaluation_policy
  cx_plain :: "scalar \<Rightarrow> bool"

record evaluation =
  ev_scope :: scope_stack
  ev_budget :: budget
  ev_environment :: environment
  ev_polls :: nat
  ev_next :: nat

datatype 'a fate = Ended 'a | Panicked | Exhausted

type_synonym 'a eval = "evaluation \<Rightarrow> ((abort + 'a) \<times> evaluation) fate"

definition source_of :: "eval_context \<Rightarrow> source_id" where
  "source_of cx = sf_id (cx_source cx)"

section \<open>Sequencing\<close>

definition eret :: "'a \<Rightarrow> 'a eval" where
  "eret x = (\<lambda>s. Ended (Inr x, s))"

definition eraise :: "abort \<Rightarrow> 'a eval" where
  "eraise a = (\<lambda>s. Ended (Inl a, s))"

definition epanic :: "'a eval" where
  "epanic = (\<lambda>s. Panicked)"

definition exhausted :: "'a eval" where
  "exhausted = (\<lambda>s. Exhausted)"

text \<open>\<open>ebind m f\<close> is \<open>let x = m?; f(x)\<close>, \<open>eseq m k\<close> is \<open>m?; k\<close>.\<close>

definition ebind :: "'a eval \<Rightarrow> ('a \<Rightarrow> 'b eval) \<Rightarrow> 'b eval" where
  "ebind m f = (\<lambda>s.
     case m s of
       Ended (Inr x, s') \<Rightarrow> f x s'
     | Ended (Inl a, s') \<Rightarrow> Ended (Inl a, s')
     | Panicked \<Rightarrow> Panicked
     | Exhausted \<Rightarrow> Exhausted)"

definition eseq :: "unit eval \<Rightarrow> 'b eval \<Rightarrow> 'b eval" where
  "eseq m k = ebind m (\<lambda>_. k)"

definition map_abort :: "(abort \<Rightarrow> abort) \<Rightarrow> 'a eval \<Rightarrow> 'a eval" where
  "map_abort f m = (\<lambda>s. case m s of Ended (Inl a, s') \<Rightarrow> Ended (Inl (f a), s') | x \<Rightarrow> x)"

definition evaluation_get :: "(evaluation \<Rightarrow> 'a) \<Rightarrow> 'a eval" where
  "evaluation_get g = (\<lambda>s. Ended (Inr (g s), s))"

text \<open>A value that the code takes with \<open>expect\<close>, and an error that it makes an abort.\<close>

definition eexpect :: "'a option \<Rightarrow> 'a eval" where
  "eexpect x = (case x of None \<Rightarrow> epanic | Some a \<Rightarrow> eret a)"

definition ok_or_abort :: "('e \<Rightarrow> abort) \<Rightarrow> 'e + 'a \<Rightarrow> 'a eval" where
  "ok_or_abort f r = (case r of Inl err \<Rightarrow> eraise (f err) | Inr a \<Rightarrow> eret a)"

fun emap :: "('a \<Rightarrow> 'b eval) \<Rightarrow> 'a list \<Rightarrow> 'b list eval" where
  "emap f [] = eret []"
| "emap f (x # xs) = ebind (f x) (\<lambda>y. ebind (emap f xs) (\<lambda>ys. eret (y # ys)))"

fun efold :: "('a \<Rightarrow> 's \<Rightarrow> 's eval) \<Rightarrow> 'a list \<Rightarrow> 's \<Rightarrow> 's eval" where
  "efold f [] acc = eret acc"
| "efold f (x # xs) acc = ebind (f x acc) (efold f xs)"

text \<open>A loop that stops with \<open>false\<close> at the first element that fails.\<close>

fun eall :: "('a \<Rightarrow> bool eval) \<Rightarrow> 'a list \<Rightarrow> bool eval" where
  "eall f [] = eret True"
| "eall f (x # xs) = ebind (f x) (\<lambda>b. if b then eall f xs else eret False)"

lemma ebind_cong [fundef_cong]:
  "m = m' \<Longrightarrow> (\<And>x. f x = f' x) \<Longrightarrow> ebind m f = ebind m' f'"
  by (auto intro: arg_cong2 [of _ _ _ _ ebind])

lemma eall_cong [fundef_cong]:
  "xs = ys \<Longrightarrow> (\<And>x. x \<in> set ys \<Longrightarrow> f x = g x) \<Longrightarrow> eall f xs = eall g ys"
  by (induction xs arbitrary: ys) (auto intro!: ebind_cong)

section \<open>Errors\<close>

definition error_at :: "eval_context \<Rightarrow> runtime_error_kind \<Rightarrow> span \<Rightarrow> abort" where
  "error_at cx kind sp = AbError (error_with_source (cx_source cx) (error_new kind sp))"

definition fail_at :: "eval_context \<Rightarrow> runtime_error_kind \<Rightarrow> span \<Rightarrow> 'a eval" where
  "fail_at cx kind sp = eraise (error_at cx kind sp)"

definition binding_error :: "eval_context \<Rightarrow> scope_error \<Rightarrow> span \<Rightarrow> abort" where
  "binding_error cx err sp =
     error_at cx
       (case err of
          ScopeTypeMismatch expected actual \<Rightarrow> ReBindingTypeMismatch expected actual
        | _ \<Rightarrow> ReScope err) sp"

definition unsupported_feature :: "eval_context \<Rightarrow> string \<Rightarrow> span \<Rightarrow> 'a eval" where
  "unsupported_feature cx feature sp = fail_at cx (ReUnsupported feature) sp"

definition refuse :: "string \<Rightarrow> span \<Rightarrow> 'a eval" where
  "refuse operation sp = eraise (AbRefused (Refusal RefusalUnsupported operation sp))"

text \<open>The result of an operator, with its error at the span.\<close>

definition operation_result :: "eval_context \<Rightarrow> span \<Rightarrow> op_result \<Rightarrow> val eval" where
  "operation_result cx sp r = ok_or_abort (\<lambda>err. error_at cx (ReOperation err) sp) r"

definition panicking_result :: "eval_context \<Rightarrow> span \<Rightarrow> op_result option \<Rightarrow> val eval" where
  "panicking_result cx sp r = ebind (eexpect r) (operation_result cx sp)"

section \<open>Primitive steps\<close>

definition check_cancel :: "eval_context \<Rightarrow> span \<Rightarrow> unit eval" where
  "check_cancel cx sp = (\<lambda>s.
     let s' = s\<lparr>ev_polls := ev_polls s + 1\<rparr> in
     if cx_cancelled cx (ev_polls s) then Ended (Inl (AbCancelled (Cancellation (cx_reason cx) sp)), s')
     else Ended (Inr (), s'))"

text \<open>A charge to the budget: it either changes the budget or is refused.\<close>

definition spend :: "(budget \<Rightarrow> budget option) \<Rightarrow> eval_context \<Rightarrow> span \<Rightarrow> unit eval" where
  "spend f cx sp = (\<lambda>s.
     case f (ev_budget s) of
       None \<Rightarrow> Ended (Inl (error_at cx ReResourceBudgetExceeded sp), s)
     | Some b \<Rightarrow> Ended (Inr (), s\<lparr>ev_budget := b\<rparr>))"

definition charge :: "eval_context \<Rightarrow> span \<Rightarrow> unit eval" where
  "charge = spend budget_charge"

definition retain_items :: "nat \<Rightarrow> eval_context \<Rightarrow> span \<Rightarrow> unit eval" where
  "retain_items n = spend (charge_collection_items n)"

definition retain_collection_bytes :: "nat \<Rightarrow> eval_context \<Rightarrow> span \<Rightarrow> unit eval" where
  "retain_collection_bytes n = spend (charge_collection_bytes n)"

definition text_at :: "eval_context \<Rightarrow> span \<Rightarrow> string eval" where
  "text_at cx sp = eexpect (expect_ok (source_slice (cx_source cx) sp))"

definition texts_at :: "eval_context \<Rightarrow> ident list \<Rightarrow> string list eval" where
  "texts_at cx ids = emap (\<lambda>i. text_at cx (ident_span i)) ids"

text \<open>The content between the first and the last byte of a spelling.\<close>

definition unquoted :: "string \<Rightarrow> string option" where
  "unquoted raw = (if length raw = 0 then None else slice_str raw 1 (length raw - 1))"

text \<open>An operation of the scope that fails without a change.\<close>

definition scope_step :: "(scope_stack \<Rightarrow> (scope_error + scope_stack) option) \<Rightarrow> (scope_error + unit) eval" where
  "scope_step f = (\<lambda>s.
     case f (ev_scope s) of
       None \<Rightarrow> Panicked
     | Some (Inl err) \<Rightarrow> Ended (Inr (Inl err), s)
     | Some (Inr sc) \<Rightarrow> Ended (Inr (Inr ()), s\<lparr>ev_scope := sc\<rparr>))"

definition try_declare :: "string \<Rightarrow> binding_mutability \<Rightarrow> val \<Rightarrow> value_type option \<Rightarrow> (scope_error + unit) eval" where
  "try_declare name m v t = scope_step (declare_typed name m v t)"

definition try_assign :: "string \<Rightarrow> val \<Rightarrow> (scope_error + unit) eval" where
  "try_assign name v = scope_step (\<lambda>sc. Some (assign name v sc))"

text \<open>\<open>scope.push(); let r = m; scope.pop().expect(..); r\<close>\<close>

definition in_frame :: "'a eval \<Rightarrow> 'a eval" where
  "in_frame m = (\<lambda>s.
     case m (s\<lparr>ev_scope := scope_push (ev_scope s)\<rparr>) of
       Ended (r, s') \<Rightarrow>
         (case scope_pop (ev_scope s') of
            Inl _ \<Rightarrow> Panicked
          | Inr sc \<Rightarrow> Ended (r, s'\<lparr>ev_scope := sc\<rparr>))
     | Panicked \<Rightarrow> Panicked
     | Exhausted \<Rightarrow> Exhausted)"

text \<open>A call: between \<open>enter_call\<close> and \<open>leave_call\<close> the method runs in a scope of its own.\<close>

definition in_call :: "eval_context \<Rightarrow> span \<Rightarrow> scope_stack \<Rightarrow> 'a eval \<Rightarrow> 'a eval" where
  "in_call cx sp sc m = eseq (spend budget_enter_call cx sp) (\<lambda>s.
     case m (s\<lparr>ev_scope := sc\<rparr>) of
       Ended (r, s') \<Rightarrow>
         (case budget_leave_call (ev_budget s') of
            None \<Rightarrow> Panicked
          | Some b \<Rightarrow> Ended (r, s'\<lparr>ev_scope := ev_scope s, ev_budget := b\<rparr>))
     | Panicked \<Rightarrow> Panicked
     | Exhausted \<Rightarrow> Exhausted)"

text \<open>A method whose mismatch (\<open>false\<close>) restores the scope before it.\<close>

definition or_restore_scope :: "bool eval \<Rightarrow> bool eval" where
  "or_restore_scope m = (\<lambda>s.
     case m s of
       Ended (Inr False, s') \<Rightarrow> Ended (Inr False, s'\<lparr>ev_scope := ev_scope s\<rparr>)
     | x \<Rightarrow> x)"

text \<open>A transaction: an error restores the scope and the environment and is handed on.\<close>

definition catching :: "'a eval \<Rightarrow> (runtime_error \<Rightarrow> 'a eval) \<Rightarrow> 'a eval" where
  "catching m handler = (\<lambda>s.
     case m s of
       Ended (Inl (AbError err), s') \<Rightarrow>
         handler err (s'\<lparr>ev_scope := ev_scope s, ev_environment := ev_environment s\<rparr>)
     | x \<Rightarrow> x)"

definition update_environment :: "(environment \<Rightarrow> environment) \<Rightarrow> unit eval" where
  "update_environment f = (\<lambda>s. Ended (Inr (), s\<lparr>ev_environment := f (ev_environment s)\<rparr>))"

text \<open>\<open>Arc::new\<close> of a callable.\<close>

definition new_callable :: "callable \<Rightarrow> val eval" where
  "new_callable c = (\<lambda>s. Ended (Inr (VCallable (ev_next s) c), s\<lparr>ev_next := ev_next s + 1\<rparr>))"

definition lookup_scope :: "string \<Rightarrow> val option eval" where
  "lookup_scope name = evaluation_get (\<lambda>s. scope_get (ev_scope s) name)"

section \<open>Flow\<close>

datatype flow =
    Fallthrough "(val \<times> span) option"
  | FlowBreak span
  | FlowContinue span
  | FlowReturn "val \<times> span" span

text \<open>
  The methods that charge a step before anything else. The others are defined over them; \<open>ms_rounds\<close> bounds
  the rounds of a \<open>while\<close> loop.
\<close>

record methods =
  ms_statement :: "eval_context \<Rightarrow> statement \<Rightarrow> flow eval"
  ms_expression :: "eval_context \<Rightarrow> expression \<Rightarrow> value_type option \<Rightarrow> val eval"
  ms_part :: "eval_context \<Rightarrow> word_part \<Rightarrow> string \<times> span list \<Rightarrow> (string \<times> span list) eval"
  ms_rounds :: nat

end
