(* ===== verification/Eval_Words.thy ===== *)
theory Eval_Words
  imports Eval_Core
begin

text \<open>
  Literals, names, words and patterns of the evaluator, from \<open>flash-runtime/src/eval.rs\<close>.
\<close>

section \<open>Numbers\<close>

definition radix_digit :: "nat \<Rightarrow> char \<Rightarrow> nat option" where
  "radix_digit radix c =
     (let d = (if CHR ''0'' \<le> c \<and> c \<le> CHR ''9'' then Some (byte_val c - 48)
               else if CHR ''a'' \<le> c \<and> c \<le> CHR ''z'' then Some (byte_val c - 87)
               else if CHR ''A'' \<le> c \<and> c \<le> CHR ''Z'' then Some (byte_val c - 55)
               else None) in
      case d of None \<Rightarrow> None | Some n \<Rightarrow> if n < radix then Some n else None)"

fun radix_value :: "nat \<Rightarrow> nat \<Rightarrow> string \<Rightarrow> nat option" where
  "radix_value radix acc [] = Some acc"
| "radix_value radix acc (c # cs) =
     (case radix_digit radix c of None \<Rightarrow> None | Some d \<Rightarrow> radix_value radix (acc * radix + d) cs)"

text \<open>\<open>i64::from_str_radix\<close>: one sign, at least one digit, no overflow.\<close>

definition i64_from_str_radix :: "nat \<Rightarrow> string \<Rightarrow> i64 option" where
  "i64_from_str_radix radix s =
     (let (sign, ds) =
        (case s of
           c # r \<Rightarrow> if c = CHR ''-'' then (- 1, r) else if c = CHR ''+'' then (1, r) else (1, s)
         | [] \<Rightarrow> (1, [])) in
      if ds = [] then None
      else Option.bind (radix_value radix 0 ds) (\<lambda>n. checked_i64 (sign * int n)))"

definition strip_base :: "string \<Rightarrow> string \<Rightarrow> string \<Rightarrow> string option" where
  "strip_base raw lower upper =
     (case strip_prefix lower raw of Some r \<Rightarrow> Some r | None \<Rightarrow> strip_prefix upper raw)"

definition parse_integer :: "string \<Rightarrow> i64 option" where
  "parse_integer raw =
     (case strip_base raw ''0x'' ''0X'' of
        Some hex \<Rightarrow> i64_from_str_radix 16 hex
      | None \<Rightarrow>
          (case strip_base raw ''0o'' ''0O'' of
             Some octal \<Rightarrow> i64_from_str_radix 8 octal
           | None \<Rightarrow>
               (case strip_base raw ''0b'' ''0B'' of
                  Some binary \<Rightarrow> i64_from_str_radix 2 binary
                | None \<Rightarrow> i64_from_str_radix 10 raw)))"

definition integer :: "eval_context \<Rightarrow> span \<Rightarrow> val eval" where
  "integer cx sp = ebind (text_at cx sp) (\<lambda>raw.
     case parse_integer raw of
       Some i \<Rightarrow> eret (VInt i)
     | None \<Rightarrow> fail_at cx ReIntegerLiteralOverflow sp)"

definition float :: "eval_context \<Rightarrow> span \<Rightarrow> val eval" where
  "float cx sp = ebind (text_at cx sp) (\<lambda>raw.
     case parse_f64 raw of
       Some (Some x) \<Rightarrow> eret (VFloat (FiniteFloat x))
     | _ \<Rightarrow> fail_at cx ReFloatLiteralOverflow sp)"

section \<open>Names\<close>

definition ensure_lexical_name :: "eval_context \<Rightarrow> string \<Rightarrow> span \<Rightarrow> unit eval" where
  "ensure_lexical_name cx name sp =
     (if dynamic_lookup name \<noteq> None then fail_at cx (ReScope (ReservedBinding name)) sp else eret ())"

text \<open>The pure host has no current status.\<close>

definition binding_value :: "eval_context \<Rightarrow> string \<Rightarrow> span \<Rightarrow> val eval" where
  "binding_value cx name sp =
     (case dynamic_lookup name of
        Some CurrentStatus \<Rightarrow> eret VNull
      | None \<Rightarrow> ebind (lookup_scope name) (\<lambda>v.
          case v of
            Some x \<Rightarrow> eret x
          | None \<Rightarrow> fail_at cx (ReScope (UnknownBinding name)) sp))"

section \<open>Words\<close>

text \<open>\<open>None\<close>: the token is empty or has nothing behind its backslash.\<close>

definition decode_double_escape :: "string \<Rightarrow> string option" where
  "decode_double_escape raw =
     Option.bind (if raw = [] then None else slice_str raw 1 (length raw)) (\<lambda>body.
       case body of
         [] \<Rightarrow> None
       | c # _ \<Rightarrow> Some
           (if c \<in> {BSLASH, DQUOTE, CHR ''$''} then [c]
            else if c = CHR ''n'' then [NL]
            else if c = CHR ''r'' then [CR]
            else if c = CHR ''t'' then [TAB]
            else if c = CHR ''0'' then [NUL]
            else if c = CHR ''u'' then
              (let hex = rev (dropWhile (\<lambda>b. b = CHR ''}'') (rev
                     (dropWhile (\<lambda>b. b = CHR ''{'') (dropWhile (\<lambda>b. b = CHR ''u'') body)))) in
               case u32_from_hex hex of
                 Some n \<Rightarrow> if is_scalar n then utf8_encode n else body
               | None \<Rightarrow> body)
            else body))"

definition encode_scalar :: "eval_context \<Rightarrow> val \<Rightarrow> span \<Rightarrow> string eval" where
  "encode_scalar cx v sp =
     (let existing = (case v of VString s \<Rightarrow> Some (length s) | VPath s \<Rightarrow> Some (length s) | _ \<Rightarrow> None) in
      eseq (case existing of Some n \<Rightarrow> retain_collection_bytes n cx sp | None \<Rightarrow> eret ())
        (case word_encoding v of
           None \<Rightarrow> fail_at cx (ReWordValueNotWordEligible (family_name v)) sp
         | Some encoded \<Rightarrow>
             eseq (if existing = None then retain_collection_bytes (length encoded) cx sp else eret ())
               (eret encoded)))"

text \<open>What a part that is not a double-quoted container adds to the word.\<close>

definition part_text :: "methods \<Rightarrow> eval_context \<Rightarrow> word_part \<Rightarrow> string eval" where
  "part_text M cx part =
     (let sp = node_span part in
      case node_kind part of
        WpSingleQuoted \<Rightarrow>
          ebind (text_at cx sp) (\<lambda>raw.
          eseq (retain_collection_bytes (length raw - 2) cx sp)
          (eexpect (unquoted raw)))
      | WpBareEscape \<Rightarrow>
          ebind (text_at cx sp) (\<lambda>raw.
          eseq (retain_collection_bytes (length raw - 1) cx sp)
          (eexpect (if raw = [] then None else slice_str raw 1 (length raw))))
      | WpDoubleEscape \<Rightarrow>
          ebind (text_at cx sp) (\<lambda>raw.
          ebind (eexpect (decode_double_escape raw)) (\<lambda>decoded.
          eseq (retain_collection_bytes (length decoded) cx sp)
          (eret decoded)))
      | WpVariable i \<Rightarrow>
          ebind (text_at cx (ident_span i)) (\<lambda>name.
          ebind (binding_value cx name sp) (\<lambda>v. encode_scalar cx v sp))
      | WpBracedInterpolation expression \<Rightarrow>
          ebind (ms_expression M cx expression None) (\<lambda>v. encode_scalar cx v sp)
      | WpCommandSubstitution substitution \<Rightarrow>
          (case cx_policy cx of
             PolicyPureV2 \<Rightarrow> refuse ''process execution'' sp
           | PolicyStartup \<Rightarrow> fail_at cx (ReRestrictedStartup CapCommandSubstitution) sp
           | PolicyGeneral \<Rightarrow> unsupported_feature cx ''command substitution in a word'' sp)
      | _ \<Rightarrow>
          ebind (text_at cx sp) (\<lambda>raw.
          eseq (retain_collection_bytes (length raw) cx sp)
          (eret raw)))"

definition expand_part :: "methods \<Rightarrow> eval_context \<Rightarrow> word_part \<Rightarrow> string \<times> span list \<Rightarrow> (string \<times> span list) eval" where
  "expand_part M cx part acc =
     (let sp = node_span part in
      eseq (charge cx sp)
        (case node_kind part of
           WpDoubleQuoted inner \<Rightarrow> efold (ms_part M cx) inner acc
         | _ \<Rightarrow>
             ebind (part_text M cx part) (\<lambda>text.
               let (v, parts) = acc in
               eret (v @ text, if text = [] then parts else parts @ [sp]))))"

definition double_quoted_value :: "methods \<Rightarrow> eval_context \<Rightarrow> word_part list \<Rightarrow> span \<Rightarrow> string eval" where
  "double_quoted_value M cx parts sp =
     ebind (efold (ms_part M cx) parts ([], [])) (\<lambda>(v, _).
       if utf8_valid v then eret v else fail_at cx ReStringInterpolationNotUtf8 sp)"

record expanded_word =
  ew_value :: string
  ew_span :: span
  ew_parts :: "span list"

definition expand_word :: "methods \<Rightarrow> eval_context \<Rightarrow> word_syntax \<Rightarrow> expanded_word eval" where
  "expand_word M cx word =
     ebind (efold (ms_part M cx) (word_parts word) ([], [])) (\<lambda>(v, parts).
       eret \<lparr>ew_value = v, ew_span = word_span word, ew_parts = parts\<rparr>)"

fun spread_words :: "eval_context \<Rightarrow> span \<Rightarrow> nat \<Rightarrow> val list \<Rightarrow> expanded_word list eval" where
  "spread_words cx sp index [] = eret []"
| "spread_words cx sp index (v # vs) =
     eseq (charge cx sp)
       (case word_encoding v of
          None \<Rightarrow> fail_at cx (ReSpreadElementNotWordEligible index (family_name v)) sp
        | Some encoded \<Rightarrow>
            ebind (spread_words cx sp (Suc index) vs) (\<lambda>words.
              eret (\<lparr>ew_value = encoded, ew_span = sp, ew_parts = if encoded = [] then [] else [sp]\<rparr> # words)))"

definition expand_spread :: "eval_context \<Rightarrow> variable_reference \<Rightarrow> span \<Rightarrow> expanded_word list eval" where
  "expand_spread cx variable sp =
     eseq (charge cx sp)
     (ebind (text_at cx (ident_span (vr_name variable))) (\<lambda>name.
      ebind (binding_value cx name sp) (\<lambda>v.
        case v of
          VList vs \<Rightarrow> spread_words cx sp 0 vs
        | _ \<Rightarrow> fail_at cx (ReSpreadValueNotList (family_name v)) sp)))"

section \<open>Literals\<close>

definition literal_value :: "methods \<Rightarrow> eval_context \<Rightarrow> literal_syntax \<Rightarrow> val eval" where
  "literal_value M cx l =
     (let sp = literal_span l in
      case literal_kind l of
        LkNull \<Rightarrow> eret VNull
      | LkBoolean b \<Rightarrow> eret (VBool b)
      | LkInteger \<Rightarrow> integer cx sp
      | LkFloat \<Rightarrow> float cx sp
      | LkSingleQuoted \<Rightarrow>
          eseq (retain_collection_bytes (span_end sp - span_start sp - 2) cx sp)
          (ebind (text_at cx sp) (\<lambda>raw.
           ebind (eexpect (unquoted raw)) (\<lambda>inner. eret (VString inner))))
      | LkDoubleQuoted parts \<Rightarrow>
          ebind (double_quoted_value M cx parts sp) (\<lambda>t. eret (VString t)))"

definition record_key_text ::
  "methods \<Rightarrow> eval_context \<Rightarrow> (expression, conditional_chain) record_key \<Rightarrow> string eval" where
  "record_key_text M cx k =
     (case k of
        RkIdentifier i \<Rightarrow> text_at cx (ident_span i)
      | RkSingleQuoted sp \<Rightarrow> ebind (text_at cx sp) (\<lambda>raw. eexpect (unquoted raw))
      | RkDoubleQuoted part \<Rightarrow> double_quoted_value M cx [part] (node_span part))"

section \<open>Patterns\<close>

definition element_type :: "value_type option \<Rightarrow> value_type option" where
  "element_type t = (case t of Some (VtList u) \<Rightarrow> Some u | _ \<Rightarrow> None)"

text \<open>An identifier of a pattern, declared in the current frame.\<close>

definition declare_pattern_name ::
  "eval_context \<Rightarrow> ident \<Rightarrow> binding_mutability \<Rightarrow> val \<Rightarrow> value_type option \<Rightarrow> bool eval" where
  "declare_pattern_name cx i m v t =
     ebind (text_at cx (ident_span i)) (\<lambda>name.
     eseq (ensure_lexical_name cx name (ident_span i))
     (ebind (try_declare name m v t) (\<lambda>r.
      ebind (ok_or_abort (\<lambda>err. error_at cx (ReScope err) (ident_span i)) r) (\<lambda>_. eret True))))"

definition find_field :: "nominal_type \<Rightarrow> string \<Rightarrow> nominal_field_schema option" where
  "find_field n name = find (\<lambda>f. nfs_name f = name) (nm_fields n)"

definition find_variant :: "nominal_type \<Rightarrow> string \<Rightarrow> nominal_variant option" where
  "find_variant n name = find (\<lambda>v. nv_name v = name) (nm_variants n)"

text \<open>The recursion is on the pattern; its parts stand in the methods below as their matchers.\<close>

type_synonym matcher = "val \<Rightarrow> value_type option \<Rightarrow> bool eval"

definition match_list ::
  "eval_context \<Rightarrow> binding_mutability \<Rightarrow> matcher list \<Rightarrow> ident option \<Rightarrow> matcher" where
  "match_list cx m elements rest_name subject expected =
     (case subject of
        VList vs \<Rightarrow>
          if length vs < length elements \<or> rest_name = None \<and> length vs \<noteq> length elements then eret False
          else
            ebind (eall (\<lambda>(f, v). f v (element_type expected)) (zip elements vs)) (\<lambda>ok.
              if \<not> ok then eret False
              else
                (case rest_name of
                   None \<Rightarrow> eret True
                 | Some i \<Rightarrow>
                     eseq (retain_items (length vs - length elements) cx (ident_span i))
                     (declare_pattern_name cx i m (VList (drop (length elements) vs))
                       (map_option VtList (element_type expected)))))
      | _ \<Rightarrow> eret False)"

definition match_field ::
  "eval_context \<Rightarrow> nominal_type \<Rightarrow> substitutions \<Rightarrow> (string \<times> val) list \<Rightarrow> matcher pattern_field \<Rightarrow> bool eval" where
  "match_field cx nominal subst es f =
     ebind (text_at cx (ident_span (pf_name f))) (\<lambda>name.
       case record_get es name of
         None \<Rightarrow> eret False
       | Some v \<Rightarrow>
           pf_pattern f v (map_option (\<lambda>schema. substitute_type subst (nfs_type schema)) (find_field nominal name)))"

definition match_nominal_record ::
  "eval_context \<Rightarrow> qualified_name \<Rightarrow> matcher pattern_field list \<Rightarrow> matcher" where
  "match_nominal_record cx qname pattern_fields subject expected =
     (case subject of
        VNominalRecord i ts es \<Rightarrow>
          ebind (texts_at cx (qn_segments qname)) (\<lambda>segments.
            case qualified_nominal (cx_types cx) (source_of cx) segments of
              None \<Rightarrow> eret False
            | Some nominal \<Rightarrow>
                if nm_id nominal \<noteq> i then eret False
                else eall (match_field cx nominal (nominal_substitutions nominal ts) es) pattern_fields)
      | _ \<Rightarrow> eret False)"

fun match_payload :: "substitutions \<Rightarrow> value_type list \<Rightarrow> matcher list \<Rightarrow> val list \<Rightarrow> bool eval" where
  "match_payload subst types (f # fs) (v # vs) =
     ebind (f v (case types of [] \<Rightarrow> None | t # _ \<Rightarrow> Some (substitute_type subst t))) (\<lambda>ok.
       if ok then match_payload subst (tl types) fs vs else eret False)"
| "match_payload subst types _ _ = eret True"

definition match_variant :: "eval_context \<Rightarrow> qualified_name \<Rightarrow> matcher list \<Rightarrow> matcher" where
  "match_variant cx qname payload subject expected =
     (case subject of
        VVariant i ts constructor vs \<Rightarrow>
          if length (qn_segments qname) < 2 then eret False
          else
            ebind (texts_at cx (qn_segments qname)) (\<lambda>segments.
              case qualified_variant (cx_types cx) (source_of cx) segments of
                None \<Rightarrow> eret False
              | Some (nominal, name) \<Rightarrow>
                  if nm_id nominal \<noteq> i \<or> name \<noteq> constructor \<or> length payload \<noteq> length vs then eret False
                  else
                    match_payload (nominal_substitutions nominal ts)
                      (case find_variant nominal name of None \<Rightarrow> [] | Some v \<Rightarrow> nv_payload v) payload vs)
      | _ \<Rightarrow> eret False)"

primrec pattern_matches ::
  "methods \<Rightarrow> eval_context \<Rightarrow> binding_mutability \<Rightarrow> pattern_syntax \<Rightarrow> matcher" where
  "pattern_matches M cx m (PatWildcard sp) = (\<lambda>subject expected. eret True)"
| "pattern_matches M cx m (PatLiteral l) = (\<lambda>subject expected.
     ebind (literal_value M cx l) (\<lambda>v. eret (value_eq v subject)))"
| "pattern_matches M cx m (PatBinding i) = (\<lambda>subject expected. declare_pattern_name cx i m subject expected)"
| "pattern_matches M cx m (PatList elements rest_name sp) =
     match_list cx m (map (pattern_matches M cx m) elements) rest_name"
| "pattern_matches M cx m (PatNominalRecord qname pattern_fields sp) =
     match_nominal_record cx qname (map (map_pattern_field (pattern_matches M cx m)) pattern_fields)"
| "pattern_matches M cx m (PatVariant constructor payload sp) =
     match_variant cx constructor (map (pattern_matches M cx m) payload)"

end
