(* ===== verification/Eval_Calls.thy ===== *)
theory Eval_Calls
  imports Eval_Words
begin

text \<open>
  Conditional chains, blocks, callables and calls of the evaluator, from \<open>flash-runtime/src/eval.rs\<close>, over
  the methods that charge a step (\<open>methods\<close>).
\<close>

section \<open>Conditions and chains\<close>

definition expect_logic_condition :: "eval_context \<Rightarrow> val \<Rightarrow> span \<Rightarrow> bool eval" where
  "expect_logic_condition cx v sp =
     (case v of
        VBool b \<Rightarrow> eret b
      | VStatus s \<Rightarrow> eret (status_is_ok s)
      | _ \<Rightarrow> fail_at cx (ReConditionalOperandNotBoolOrStatus (family_name v)) sp)"

definition expect_logic_bool :: "eval_context \<Rightarrow> val \<Rightarrow> span \<Rightarrow> bool eval" where
  "expect_logic_bool cx v sp =
     (case v of VBool b \<Rightarrow> eret b | _ \<Rightarrow> fail_at cx (ReLogicOperandNotBool (family_name v)) sp)"

definition expect_condition :: "eval_context \<Rightarrow> val \<Rightarrow> span \<Rightarrow> bool eval" where
  "expect_condition cx v sp =
     (case v of
        VBool b \<Rightarrow> eret b
      | VStatus s \<Rightarrow> eret (status_is_ok s)
      | _ \<Rightarrow> fail_at cx (ReConditionNotBool (family_name v)) sp)"

definition stage_expression :: "stage \<Rightarrow> expression option" where
  "stage_expression st = (case node_kind st of SkExpression e \<Rightarrow> Some e | SkCommand _ _ \<Rightarrow> None)"

text \<open>One operation stage of a value pipeline.\<close>

definition operation_stage :: "eval_context \<Rightarrow> stage \<Rightarrow> val \<Rightarrow> val eval" where
  "operation_stage cx st v =
     eseq (check_cancel cx (node_span st))
     (ebind (eexpect (stage_expression st)) (\<lambda>e.
        case node_kind e of
          EkQualified name \<Rightarrow>
            ebind (texts_at cx (qn_segments name)) (\<lambda>segments.
              case qualified_operation (cx_types cx) (source_of cx) segments of
                None \<Rightarrow> unsupported_feature cx ''unknown value pipeline operation'' (node_span st)
              | Some operation \<Rightarrow> panicking_result cx (node_span st) (execute_value operation v []))
        | _ \<Rightarrow> unsupported_feature cx ''non-operation value pipeline stage'' (node_span st)))"

text \<open>A pipeline of commands ends in the refusal of the pure host.\<close>

definition eval_pipeline :: "methods \<Rightarrow> eval_context \<Rightarrow> pipeline_syntax \<Rightarrow> value_type option \<Rightarrow> val eval" where
  "eval_pipeline M cx p expected =
     (let single = (case pl_stages p of [st] \<Rightarrow> stage_expression st | _ \<Rightarrow> None) in
      case single of
        Some e \<Rightarrow> ms_expression M cx e expected
      | None \<Rightarrow>
          if language_of (cx_types cx) (source_of cx) = Some MajorV2
             \<and> list_all (\<lambda>st. stage_expression st \<noteq> None) (pl_stages p)
          then
            (case pl_stages p of
               [] \<Rightarrow> epanic
             | st # sts \<Rightarrow>
                 ebind (eexpect (stage_expression st)) (\<lambda>e.
                 ebind (ms_expression M cx e None) (efold (operation_stage cx) sts)))
          else if cx_policy cx = PolicyStartup then
            fail_at cx (ReRestrictedStartup CapProcessExecution) (pl_span p)
          else fail_at cx ReExecutionUnsupported (pl_span p))"

text \<open>The operands behind the first one; the last value is returned once it is a condition.\<close>

fun and_operands :: "methods \<Rightarrow> eval_context \<Rightarrow> pipeline_syntax list \<Rightarrow> val \<Rightarrow> span \<Rightarrow> val eval" where
  "and_operands M cx [] v sp = ebind (expect_logic_condition cx v sp) (\<lambda>_. eret v)"
| "and_operands M cx (p # ps) v sp =
     ebind (expect_logic_condition cx v sp) (\<lambda>b.
       if b then ebind (eval_pipeline M cx p None) (\<lambda>w. and_operands M cx ps w (pl_span p)) else eret v)"

definition eval_and_chain :: "methods \<Rightarrow> eval_context \<Rightarrow> and_chain_syntax \<Rightarrow> value_type option \<Rightarrow> val eval" where
  "eval_and_chain M cx c expected =
     (case and_terms c of
        [] \<Rightarrow> epanic
      | [p] \<Rightarrow> eval_pipeline M cx p expected
      | p # ps \<Rightarrow> ebind (eval_pipeline M cx p None) (\<lambda>v. and_operands M cx ps v (pl_span p)))"

fun or_operands :: "methods \<Rightarrow> eval_context \<Rightarrow> and_chain_syntax list \<Rightarrow> val \<Rightarrow> span \<Rightarrow> val eval" where
  "or_operands M cx [] v sp = ebind (expect_logic_condition cx v sp) (\<lambda>_. eret v)"
| "or_operands M cx (c # cs) v sp =
     ebind (expect_logic_condition cx v sp) (\<lambda>b.
       if b then eret v else ebind (eval_and_chain M cx c None) (\<lambda>w. or_operands M cx cs w (ac_span c)))"

definition eval_chain :: "methods \<Rightarrow> eval_context \<Rightarrow> conditional_chain \<Rightarrow> value_type option \<Rightarrow> val eval" where
  "eval_chain M cx chain expected =
     (case or_terms chain of
        [] \<Rightarrow> epanic
      | [c] \<Rightarrow> eval_and_chain M cx c expected
      | c # cs \<Rightarrow> ebind (eval_and_chain M cx c None) (\<lambda>v. or_operands M cx cs v (ac_span c)))"

definition condition :: "methods \<Rightarrow> eval_context \<Rightarrow> conditional_chain \<Rightarrow> bool eval" where
  "condition M cx chain =
     ebind (eval_chain M cx chain None) (\<lambda>v. expect_condition cx v (cc_span chain))"

section \<open>Statement sequences\<close>

definition job_flow ::
  "methods \<Rightarrow> eval_context \<Rightarrow> conditional_chain \<Rightarrow> span option \<Rightarrow> span \<Rightarrow> value_type option \<Rightarrow> flow eval" where
  "job_flow M cx chain background sp expected =
     (if cx_policy cx = PolicyStartup then fail_at cx (ReRestrictedStartup CapProcessExecution) sp
      else if background \<noteq> None then fail_at cx ReExecutionUnsupported sp
      else ebind (eval_chain M cx chain expected) (\<lambda>v. eret (Fallthrough (Some (v, cc_span chain)))))"

fun statements :: "methods \<Rightarrow> eval_context \<Rightarrow> statement list \<Rightarrow> flow eval" where
  "statements M cx [] = eret (Fallthrough None)"
| "statements M cx (st # sts) =
     ebind (ms_statement M cx st) (\<lambda>f.
       case f of Fallthrough _ \<Rightarrow> statements M cx sts | _ \<Rightarrow> eret f)"

definition block_flow :: "methods \<Rightarrow> eval_context \<Rightarrow> statement block \<Rightarrow> flow eval" where
  "block_flow M cx b = in_frame (statements M cx (block_statements b))"

text \<open>A job at the end of a function body is evaluated towards the result type.\<close>

definition body_statement :: "methods \<Rightarrow> eval_context \<Rightarrow> bool \<Rightarrow> statement \<Rightarrow> flow eval" where
  "body_statement M cx final st =
     (case node_kind st of
        StJob chain background \<Rightarrow>
          if final then
            eseq (charge cx (node_span st)) (job_flow M cx chain background (node_span st) (cx_result cx))
          else ms_statement M cx st
      | _ \<Rightarrow> ms_statement M cx st)"

fun body_statements :: "methods \<Rightarrow> eval_context \<Rightarrow> (val \<times> span) option \<Rightarrow> statement list \<Rightarrow> flow eval" where
  "body_statements M cx last_value [] = eret (Fallthrough last_value)"
| "body_statements M cx last_value (st # sts) =
     ebind (body_statement M cx (sts = []) st) (\<lambda>f.
       case f of
         Fallthrough (Some r) \<Rightarrow> body_statements M cx (Some r) sts
       | Fallthrough None \<Rightarrow> body_statements M cx last_value sts
       | _ \<Rightarrow> eret f)"

section \<open>Making callables\<close>

text \<open>\<open>source:line:column\<close>\<close>

definition location_text :: "eval_context \<Rightarrow> span \<Rightarrow> string eval" where
  "location_text cx sp =
     ebind (eexpect (expect_ok (source_location (cx_source cx) (span_start sp)))) (\<lambda>l.
       eret (sf_name (cx_source cx) @ '':'' @ show_nat (lc_line l) @ '':'' @ show_nat (lc_column l)))"

definition annotated :: "eval_context \<Rightarrow> type_reference option \<Rightarrow> value_type option" where
  "annotated cx r = Option.bind r (\<lambda>t. annotation_type (cx_types cx) (source_of cx) (type_span t))"

definition resolve_parameter ::
  "eval_context \<Rightarrow> function_parameter_signature list option \<Rightarrow> parameter_syntax \<Rightarrow> callable_parameter list
   \<Rightarrow> callable_parameter list eval" where
  "resolve_parameter cx signatures p resolved =
     ebind (text_at cx (ident_span (pm_name p))) (\<lambda>name.
     eseq (ensure_lexical_name cx name (ident_span (pm_name p)))
     (if list_ex (\<lambda>q. cp_name q = name) resolved then fail_at cx (ReDuplicateParameter name) (pm_span p)
      else
        (let t = (case Option.bind signatures (\<lambda>ss. get_nth ss (length resolved)) of
             Some signature \<Rightarrow> fps_type signature
           | None \<Rightarrow> (case annotated cx (pm_type_annotation p) of Some t \<Rightarrow> t | None \<Rightarrow> VtAny)) in
         eret (resolved @ [CallableParameter name t (Some (pm_pattern p))]))))"

definition parameters ::
  "eval_context \<Rightarrow> parameter_syntax list \<Rightarrow> function_parameter_signature list option
   \<Rightarrow> callable_parameter list eval" where
  "parameters cx ps signatures = efold (resolve_parameter cx signatures) ps []"

definition function_definition ::
  "eval_context \<Rightarrow> ident \<Rightarrow> parameter_syntax list \<Rightarrow> statement block \<Rightarrow> unit eval" where
  "function_definition cx name_ident ps body =
     (let sp = ident_span name_ident in
      ebind (text_at cx sp) (\<lambda>name.
      eseq (ensure_lexical_name cx name sp)
      (let signature = function_signature_of (cx_types cx) (source_of cx) sp in
       ebind (parameters cx ps (map_option fs_parameters signature)) (\<lambda>resolved.
       ebind (location_text cx sp) (\<lambda>location.
       ebind (evaluation_get ev_scope) (\<lambda>scope.
       ebind (new_callable
         (Callable (Some name) resolved
           (case signature of None \<Rightarrow> [] | Some s \<Rightarrow> fs_type_parameters s)
           (BodyBlock body) (captured_snapshot scope) (cx_source cx) (cx_types cx)
           (Some (case function_result_type (cx_types cx) (source_of cx) sp of None \<Rightarrow> VtAny | Some t \<Rightarrow> t))
           location sp)) (\<lambda>v.
       ebind (try_declare name Immutable v None) (\<lambda>r.
       ok_or_abort (\<lambda>err. error_at cx (ReScope err) sp) r))))))))"

definition make_closure :: "eval_context \<Rightarrow> closure_syntax \<Rightarrow> val eval" where
  "make_closure cx c =
     ebind (parameters cx (cl_parameters c) None) (\<lambda>resolved.
     ebind (location_text cx (cl_span c)) (\<lambda>location.
     ebind (evaluation_get ev_scope) (\<lambda>scope.
     new_callable
       (Callable None resolved [] (BodyExpression (cl_body c)) (captured_snapshot scope) (cx_source cx)
         (cx_types cx) (annotated cx (cl_result_type c)) location (cl_span c)))))"

section \<open>Running callables\<close>

definition generic_error :: "eval_context \<Rightarrow> string \<Rightarrow> span \<Rightarrow> abort" where
  "generic_error cx message sp = error_at cx (ReGenericInstantiation message) sp"

definition cannot_infer :: "string \<Rightarrow> string" where
  "cannot_infer name = ''cannot infer type argument `'' @ name @ ''`; provide it explicitly''"

definition wrong_count :: "nat \<Rightarrow> nat \<Rightarrow> string" where
  "wrong_count expected actual =
     ''expected '' @ show_nat expected @ '' type arguments, found '' @ show_nat actual"

definition constraint_name :: "type_constraint \<Rightarrow> string" where
  "constraint_name c = (case c of TcEqual \<Rightarrow> ''Equal'' | TcOrdered \<Rightarrow> ''Ordered'')"

text \<open>The message for the first constraint that a type argument does not satisfy.\<close>

definition check_constraints ::
  "runtime_binding_types \<Rightarrow> resolved_type_parameter \<Rightarrow> value_type \<Rightarrow> string + unit" where
  "check_constraints B p t =
     (case find (\<lambda>c. \<not> type_satisfies_constraint B t c) (rt_constraints p) of
        None \<Rightarrow> Inr ()
      | Some c \<Rightarrow>
          Inl (''type `'' @ type_text t @ ''` does not satisfy `'' @ constraint_name c @ ''` for `''
            @ rt_name p @ ''`''))"

definition infer_arguments :: "callable_parameter list \<Rightarrow> (val \<times> span) list \<Rightarrow> substitutions \<Rightarrow> substitutions" where
  "infer_arguments ps args subst =
     foldl (\<lambda>s (p, v, _). infer_runtime_substitution (cp_type p) v s) subst (zip ps args)"

definition infer_result :: "value_type option \<Rightarrow> value_type option \<Rightarrow> substitutions \<Rightarrow> substitutions" where
  "infer_result result expected subst =
     (case (result, expected) of
        (Some t, Some u) \<Rightarrow> infer_runtime_type_value t u subst
      | _ \<Rightarrow> subst)"

definition explicit_substitutions :: "resolved_type_parameter list \<Rightarrow> value_type list \<Rightarrow> substitutions" where
  "explicit_substitutions ps ts = rev (zip (map rt_name ps) ts)"

definition runtime_type_substitutions ::
  "runtime_binding_types \<Rightarrow> callable \<Rightarrow> (val \<times> span) list \<Rightarrow> value_type list option \<Rightarrow> value_type option
   \<Rightarrow> string + substitutions" where
  "runtime_type_substitutions B f args explicit expected =
     and_then
       (case explicit of
          Some ts \<Rightarrow>
            if length ts \<noteq> length (ca_type_parameters f)
            then Inl (wrong_count (length (ca_type_parameters f)) (length ts))
            else Inr (explicit_substitutions (ca_type_parameters f) ts)
        | None \<Rightarrow> Inr (infer_result (ca_result_type f) expected (infer_arguments (ca_parameters f) args [])))
       (\<lambda>subst.
          and_then
            (try_map (\<lambda>p. and_then (ok_or (cannot_infer (rt_name p)) (map_of subst (rt_name p)))
               (check_constraints B p)) (ca_type_parameters f))
            (\<lambda>_. Inr subst))"

text \<open>The first argument that its parameter does not accept.\<close>

definition check_argument ::
  "eval_context \<Rightarrow> substitutions \<Rightarrow> callable_parameter \<times> val \<times> span \<Rightarrow> abort + unit" where
  "check_argument cx subst = (\<lambda>(p, v, sp).
     let expected = substitute_type subst (cp_type p) in
     if accepts expected v then Inr ()
     else Inl (error_at cx (ReParameterTypeMismatch (cp_name p) expected (family_name v)) sp))"

text \<open>The captured scope, a frame with the function itself, and a frame for the parameters.\<close>

definition call_scope :: "nat \<Rightarrow> callable \<Rightarrow> scope_stack option" where
  "call_scope i f =
     (let sc = scope_push (ca_captured f) in
      map_option scope_push
        (case ca_name f of
           None \<Rightarrow> Some sc
         | Some name \<Rightarrow> Option.bind (declare_binding name Immutable (VCallable i f) sc) expect_ok))"

text \<open>The errors of a mismatch carry the source of the callee, as the code has replaced its own.\<close>

definition bind_parameter ::
  "methods \<Rightarrow> eval_context \<Rightarrow> substitutions \<Rightarrow> callable_parameter \<times> val \<times> span \<Rightarrow> unit eval" where
  "bind_parameter M cx subst = (\<lambda>(p, v, sp).
     let expected = substitute_type subst (cp_type p) in
     case cp_pattern p of
       Some pattern \<Rightarrow>
         ebind (pattern_matches M cx Mutable pattern v (Some expected)) (\<lambda>ok.
           if ok then eret () else fail_at cx RePatternMismatch sp)
     | None \<Rightarrow> ebind (try_declare (cp_name p) Mutable v (Some expected)) (\<lambda>r. eexpect (expect_ok r)))"

definition run_body :: "methods \<Rightarrow> eval_context \<Rightarrow> callable_body \<Rightarrow> flow eval" where
  "run_body M cx body =
     (case body of
        BodyBlock b \<Rightarrow> in_frame (body_statements M cx None (block_statements b))
      | BodyExpression chain \<Rightarrow>
          ebind (eval_chain M cx chain (cx_result cx)) (\<lambda>v. eret (Fallthrough (Some (v, cc_span chain)))))"

definition body_span :: "callable_body \<Rightarrow> span" where
  "body_span body = (case body of BodyBlock b \<Rightarrow> block_span b | BodyExpression chain \<Rightarrow> cc_span chain)"

definition body_result :: "eval_context \<Rightarrow> callable_body \<Rightarrow> flow \<Rightarrow> val eval" where
  "body_result cx body f =
     (let accept = (\<lambda>(v, sp).
        case cx_result cx of
          None \<Rightarrow> eret v
        | Some expected \<Rightarrow>
            if accepts expected v then eret v
            else fail_at cx (ReFunctionResultTypeMismatch expected (family_name v)) sp) in
      case f of
        FlowReturn r _ \<Rightarrow> accept r
      | Fallthrough (Some r) \<Rightarrow> accept r
      | Fallthrough None \<Rightarrow> accept (VNull, body_span body)
      | FlowBreak sp \<Rightarrow> fail_at cx (ReControlOutsideLoop ControlBreak) sp
      | FlowContinue sp \<Rightarrow> fail_at cx (ReControlOutsideLoop ControlContinue) sp)"

text \<open>The context of the body: the source, the tables and the result type of the callee.\<close>

definition callee_context :: "eval_context \<Rightarrow> callable \<Rightarrow> substitutions \<Rightarrow> eval_context" where
  "callee_context cx f subst =
     cx\<lparr>cx_source := ca_source f, cx_types := ca_binding_types f,
        cx_result := map_option (substitute_type subst) (ca_result_type f)\<rparr>"

definition callee_of :: "callable \<Rightarrow> frame_callee" where
  "callee_of f = (case ca_name f of Some name \<Rightarrow> FrameFunction name | None \<Rightarrow> FrameClosure)"

definition run_call ::
  "methods \<Rightarrow> eval_context \<Rightarrow> nat \<Rightarrow> callable \<Rightarrow> (val \<times> span) list \<Rightarrow> span \<Rightarrow> value_type list option
   \<Rightarrow> value_type option \<Rightarrow> val eval" where
  "run_call M cx i f args sp explicit expected =
     ebind (ok_or_abort (\<lambda>m. generic_error cx m sp)
       (runtime_type_substitutions (cx_types cx) f args explicit expected)) (\<lambda>subst.
     ebind (ok_or_abort id (try_map (check_argument cx subst) (zip (ca_parameters f) args))) (\<lambda>_.
     ebind (eexpect (call_scope i f)) (\<lambda>sc.
     let inner = callee_context cx f subst in
     in_call cx sp sc
       (ebind (emap (bind_parameter M (inner\<lparr>cx_result := cx_result cx\<rparr>) subst) (zip (ca_parameters f) args)) (\<lambda>_.
        map_abort (abort_with_frame (CallFrame (callee_of f) sp (ca_source f)))
          (ebind (run_body M inner (ca_body f)) (body_result inner (ca_body f))))))))"

end
