(* ===== verification/Evaluator.thy ===== *)
theory Evaluator
  imports Eval_Calls
begin

text \<open>
  Constructors of nominal values, call expressions and expressions of the evaluator, from
  \<open>flash-runtime/src/eval.rs\<close>.
\<close>

section \<open>Nominal values\<close>

definition nominal_error :: "eval_context \<Rightarrow> string \<Rightarrow> span \<Rightarrow> abort" where
  "nominal_error cx message sp = error_at cx (ReNominalConstruction message) sp"

definition validate_nominal_constraints ::
  "eval_context \<Rightarrow> nominal_type \<Rightarrow> value_type list \<Rightarrow> span \<Rightarrow> unit eval" where
  "validate_nominal_constraints cx n ts sp =
     ebind (ok_or_abort (\<lambda>m. generic_error cx m sp)
       (try_map (\<lambda>(p, t). check_constraints (cx_types cx) p t) (zip (nm_parameters n) ts))) (\<lambda>_. eret ())"

text \<open>The type arguments that the expected type gives, when it is an instance of the nominal type.\<close>

definition expected_substitutions :: "nominal_type \<Rightarrow> value_type option \<Rightarrow> substitutions" where
  "expected_substitutions n expected =
     (case expected of
        Some (VtNominal i ts) \<Rightarrow>
          if i = nm_id n \<and> length ts = length (nm_parameters n) then explicit_substitutions (nm_parameters n) ts
          else []
      | _ \<Rightarrow> [])"

definition inferred_arguments :: "resolved_type_parameter list \<Rightarrow> substitutions \<Rightarrow> string + value_type list" where
  "inferred_arguments ps subst =
     try_map (\<lambda>p. ok_or (cannot_infer (rt_name p)) (map_of subst (rt_name p))) ps"

definition evaluate_field ::
  "methods \<Rightarrow> eval_context \<Rightarrow> nominal_type \<Rightarrow> substitutions \<Rightarrow> expression nominal_field \<Rightarrow> (string \<times> val) list
   \<Rightarrow> (string \<times> val) list eval" where
  "evaluate_field M cx n subst f evaluated =
     ebind (text_at cx (ident_span (nf_name f))) (\<lambda>name.
     ebind (ms_expression M cx (nf_value f)
       (map_option (\<lambda>schema. substitute_type subst (nfs_type schema)) (find_field n name))) (\<lambda>v.
       if name \<in> fst ` set evaluated then
         eraise (nominal_error cx (''nominal record field `'' @ name @ ''` is repeated'') (nf_span f))
       else eret (bt_insert name v evaluated)))"

text \<open>The evaluated fields in the order of the schema, and the type arguments that they give.\<close>

fun schema_fields ::
  "string \<Rightarrow> nominal_field_schema list \<Rightarrow> (string \<times> val) list \<Rightarrow> substitutions
   \<Rightarrow> string + (string \<times> val) list \<times> substitutions" where
  "schema_fields tname [] evaluated subst = Inr ([], subst)"
| "schema_fields tname (schema # ss) evaluated subst =
     (case map_of evaluated (nfs_name schema) of
        None \<Rightarrow> Inl (''nominal record `'' @ tname @ ''` requires field `'' @ nfs_name schema @ ''`'')
      | Some v \<Rightarrow>
          and_then
            (schema_fields tname ss (filter (\<lambda>(k, _). k \<noteq> nfs_name schema) evaluated)
              (infer_runtime_substitution (nfs_type schema) v subst))
            (\<lambda>(es, s). Inr ((nfs_name schema, v) # es, s)))"

definition check_field :: "substitutions \<Rightarrow> nominal_field_schema \<times> string \<times> val \<Rightarrow> string + unit" where
  "check_field subst = (\<lambda>(schema, _, v).
     let expected = substitute_type subst (nfs_type schema) in
     if accepts expected v then Inr ()
     else Inl (''nominal record field `'' @ nfs_name schema @ ''` expects `'' @ type_text expected
       @ ''`, found '' @ family_name v))"

definition nominal_record ::
  "methods \<Rightarrow> eval_context \<Rightarrow> qualified_name \<Rightarrow> expression nominal_field list \<Rightarrow> span \<Rightarrow> value_type option
   \<Rightarrow> val eval" where
  "nominal_record M cx qname fields_syntax sp expected =
     (if qn_segments qname = [] then unsupported_feature cx ''nominal record construction'' sp
      else
        ebind (text_at cx (ident_span (last (qn_segments qname)))) (\<lambda>tname.
        ebind (texts_at cx (qn_segments qname)) (\<lambda>segments.
        case qualified_nominal (cx_types cx) (source_of cx) segments of
          None \<Rightarrow> eraise (nominal_error cx (''unknown nominal record `'' @ tname @ ''`'') sp)
        | Some n \<Rightarrow>
            if nm_kind n \<noteq> NominalRecordKind then
              eraise (nominal_error cx (''`'' @ tname @ ''` is not a nominal record'') sp)
            else
              eseq (retain_items (length fields_syntax) cx sp)
              (let given = expected_substitutions n expected in
               ebind (efold (evaluate_field M cx n given) fields_syntax []) (\<lambda>evaluated.
               case find (\<lambda>(name, _). find_field n name = None) evaluated of
                 Some (unknown, _) \<Rightarrow>
                   eraise (nominal_error cx
                     (''nominal record `'' @ tname @ ''` has no field `'' @ unknown @ ''`'') sp)
               | None \<Rightarrow>
                   ebind (ok_or_abort (\<lambda>m. nominal_error cx m sp)
                     (schema_fields tname (nm_fields n) evaluated given)) (\<lambda>(es, subst).
                   ebind (ok_or_abort (\<lambda>m. generic_error cx m sp)
                     (inferred_arguments (nm_parameters n) subst)) (\<lambda>ts.
                   ebind (ok_or_abort (\<lambda>m. nominal_error cx m sp)
                     (try_map (check_field subst) (zip (nm_fields n) es))) (\<lambda>_.
                   eseq (validate_nominal_constraints cx n ts sp)
                   (eret (VNominalRecord (nm_id n) ts es))))))))))"

text \<open>A qualified name as a value: a constructor without a payload.\<close>

definition qualified_value ::
  "eval_context \<Rightarrow> qualified_name \<Rightarrow> span \<Rightarrow> value_type option \<Rightarrow> val eval" where
  "qualified_value cx qname sp expected =
     (let refused = unsupported_feature cx ''qualified value'' sp in
      if length (qn_segments qname) < 2 then refused
      else
        ebind (texts_at cx (qn_segments qname)) (\<lambda>segments.
        case qualified_variant (cx_types cx) (source_of cx) segments of
          None \<Rightarrow> refused
        | Some (n, constructor) \<Rightarrow>
            if nm_kind n = NominalVariantKind \<and> map_option nv_payload (find_variant n constructor) = Some [] then
              ebind
                (case (nm_parameters n, expected) of
                   ([], _) \<Rightarrow> eret []
                 | (p # ps, Some (VtNominal i ts)) \<Rightarrow>
                     if i = nm_id n \<and> length ts = length (nm_parameters n) then eret ts
                     else eraise (generic_error cx (cannot_infer (rt_name p)) sp)
                 | (p # ps, _) \<Rightarrow> eraise (generic_error cx (cannot_infer (rt_name p)) sp)) (\<lambda>ts.
              eseq (validate_nominal_constraints cx n ts sp)
              (eret (VVariant (nm_id n) ts constructor [])))
            else refused))"

fun payload_values ::
  "methods \<Rightarrow> eval_context \<Rightarrow> expression list \<Rightarrow> value_type list \<Rightarrow> substitutions
   \<Rightarrow> (val list \<times> substitutions) eval" where
  "payload_values M cx (e # es) (t # ts) subst =
     ebind (ms_expression M cx e (Some (substitute_type subst t))) (\<lambda>v.
     ebind (payload_values M cx es ts (infer_runtime_substitution t v subst)) (\<lambda>(vs, s). eret (v # vs, s)))"
| "payload_values M cx _ _ subst = eret ([], subst)"

definition check_payload :: "substitutions \<Rightarrow> value_type \<times> val \<Rightarrow> string + unit" where
  "check_payload subst = (\<lambda>(t, v).
     let expected = substitute_type subst t in
     if accepts expected v then Inr ()
     else Inl (''variant payload expects `'' @ type_text expected @ ''`, found '' @ family_name v))"

definition explicit_types :: "eval_context \<Rightarrow> type_reference list \<Rightarrow> value_type list" where
  "explicit_types cx targs =
     map (\<lambda>r. case annotated cx (Some r) of None \<Rightarrow> VtAny | Some t \<Rightarrow> t) targs"

text \<open>A call of a constructor; \<open>None\<close>: the name is not one.\<close>

definition variant_value ::
  "methods \<Rightarrow> eval_context \<Rightarrow> qualified_name \<Rightarrow> type_reference list \<Rightarrow> expression list \<Rightarrow> span
   \<Rightarrow> value_type option \<Rightarrow> val option eval" where
  "variant_value M cx qname targs args sp expected =
     (if length (qn_segments qname) < 2 then eret None
      else
        ebind (texts_at cx (qn_segments qname)) (\<lambda>segments.
        case qualified_variant (cx_types cx) (source_of cx) segments of
          None \<Rightarrow> eret None
        | Some (n, constructor) \<Rightarrow>
            if nm_kind n \<noteq> NominalVariantKind then eret None
            else
              (case find_variant n constructor of
                 None \<Rightarrow>
                   eraise (nominal_error cx (''variant type `'' @ nt_name (nm_id n) @ ''` has no `''
                     @ constructor @ ''` constructor'') sp)
               | Some variant \<Rightarrow>
                   if length args \<noteq> length (nv_payload variant) then
                     fail_at cx (ReArityMismatch (length (nv_payload variant)) (length args)) sp
                   else
                     eseq (retain_items (length args) cx sp)
                     (if targs \<noteq> [] \<and> length targs \<noteq> length (nm_parameters n) then
                        eraise (generic_error cx (wrong_count (length (nm_parameters n)) (length targs)) sp)
                      else
                        let given = (if targs \<noteq> [] then explicit_substitutions (nm_parameters n) (explicit_types cx targs)
                                     else expected_substitutions n expected) in
                        ebind (payload_values M cx args (nv_payload variant) given) (\<lambda>(vs, subst).
                        ebind (ok_or_abort (\<lambda>m. generic_error cx m sp)
                          (inferred_arguments (nm_parameters n) subst)) (\<lambda>ts.
                        ebind (ok_or_abort (\<lambda>m. nominal_error cx m sp)
                          (try_map (check_payload subst) (zip (nv_payload variant) vs))) (\<lambda>_.
                        eseq (validate_nominal_constraints cx n ts sp)
                        (eret (Some (VVariant (nm_id n) ts constructor vs)))))))))) "

section \<open>Globs\<close>

text \<open>The pure host reads no directory: the first segment that needs one ends the expansion.\<close>

definition glob_directory :: "eval_context \<Rightarrow> span \<Rightarrow> 'a eval" where
  "glob_directory cx sp =
     eseq (check_cancel cx sp) (eseq (charge cx sp) (fail_at cx ReExecutionUnsupported sp))"

definition push_parent :: "string \<Rightarrow> string" where
  "push_parent path = (if path = [] \<or> ends_with path ''/'' then path @ ''..'' else path @ ''/..'')"

fun expand_segments :: "eval_context \<Rightarrow> span \<Rightarrow> pattern_segment list \<Rightarrow> string \<Rightarrow> string eval" where
  "expand_segments cx sp [] path = eret path"
| "expand_segments cx sp (SegParent # ss) path = expand_segments cx sp ss (push_parent path)"
| "expand_segments cx sp (s # ss) path = glob_directory cx sp"

definition glob_value :: "eval_context \<Rightarrow> val \<Rightarrow> span \<Rightarrow> val eval" where
  "glob_value cx v sp =
     (case cx_policy cx of
        PolicyPureV2 \<Rightarrow> refuse ''filesystem read'' sp
      | PolicyStartup \<Rightarrow> fail_at cx (ReRestrictedStartup CapFilesystemRead) sp
      | PolicyGeneral \<Rightarrow>
          ebind
            (case v of
               VString s \<Rightarrow> eret s
             | VPath s \<Rightarrow> eret s
             | _ \<Rightarrow> fail_at cx (ReOperation (unsupported ''glob'' [v])) sp) (\<lambda>pattern.
          ebind (ok_or_abort (\<lambda>m. error_at cx (ReGlobPattern m) sp) (glob_parse pattern)) (\<lambda>g.
          if gp_empty g then eret (VList [])
          else ebind (expand_segments cx sp (gp_segments g) (gp_initial g)) (\<lambda>path. eret (VList [VPath path])))))"

section \<open>Calls\<close>

text \<open>A call of a standard operation; \<open>None\<close>: the name is not one.\<close>

definition operation_call ::
  "methods \<Rightarrow> eval_context \<Rightarrow> qualified_name \<Rightarrow> type_reference list \<Rightarrow> expression list \<Rightarrow> span
   \<Rightarrow> val option eval" where
  "operation_call M cx qname targs args sp =
     ebind (texts_at cx (qn_segments qname)) (\<lambda>segments.
     case qualified_operation (cx_types cx) (source_of cx) segments of
       None \<Rightarrow> eret None
     | Some operation \<Rightarrow>
         (case args of
            [arg] \<Rightarrow>
              if targs \<noteq> [] \<and> length targs \<noteq> length (od_type_parameters operation) then
                eraise (generic_error cx (wrong_count (length (od_type_parameters operation)) (length targs)) sp)
              else
                ebind (ms_expression M cx arg None) (\<lambda>v.
                ebind (panicking_result cx sp (execute_value operation v (explicit_types cx targs))) (\<lambda>r.
                eret (Some r)))
          | _ \<Rightarrow> fail_at cx (ReArityMismatch 1 (length args)) sp))"

definition read_environment :: "eval_context \<Rightarrow> val \<Rightarrow> span \<Rightarrow> span \<Rightarrow> val eval" where
  "read_environment cx v arg_span sp =
     (if cx_policy cx = PolicyPureV2 then refuse ''environment read'' sp
      else
        (case v of
           VString name \<Rightarrow>
             ebind (evaluation_get (\<lambda>s. environment_get (ev_environment s) name)) (\<lambda>r.
               case r of
                 None \<Rightarrow> eret VNull
               | Some t \<Rightarrow> if utf8_valid t then eret (VString t) else fail_at cx (ReEnvironmentValueNotUtf8 name) sp)
         | _ \<Rightarrow> fail_at cx (ReOperation (unsupported ''env'' [v])) arg_span))"

text \<open>A call of an intrinsic that no binding hides; \<open>None\<close>: the name is not one.\<close>

definition intrinsic_call ::
  "methods \<Rightarrow> eval_context \<Rightarrow> ident \<Rightarrow> expression list \<Rightarrow> span \<Rightarrow> val option eval" where
  "intrinsic_call M cx i args sp =
     ebind (text_at cx (ident_span i)) (\<lambda>name.
     case intrinsic_lookup name of
       None \<Rightarrow> eret None
     | Some intrinsic \<Rightarrow>
         ebind (lookup_scope name) (\<lambda>bound.
         if bound \<noteq> None then eret None
         else
           (case args of
              [arg] \<Rightarrow>
                ebind (ms_expression M cx arg None) (\<lambda>v.
                ebind
                  (case intrinsic of
                     IntrinsicEnv \<Rightarrow> read_environment cx v (node_span arg) sp
                   | IntrinsicGlob \<Rightarrow> glob_value cx v sp
                   | _ \<Rightarrow> panicking_result cx sp (intrinsic_invoke intrinsic v)) (\<lambda>r.
                eret (Some r)))
            | _ \<Rightarrow> fail_at cx (ReArityMismatch (intrinsic_arity intrinsic) (length args)) sp)))"

definition callee_value :: "methods \<Rightarrow> eval_context \<Rightarrow> expression \<Rightarrow> val eval" where
  "callee_value M cx callee =
     (case node_kind callee of
        EkSymbol i \<Rightarrow>
          ebind (text_at cx (ident_span i)) (\<lambda>name. binding_value cx name (node_span callee))
      | EkQualified qname \<Rightarrow>
          ebind (texts_at cx (qn_segments qname)) (\<lambda>segments.
          ebind (lookup_scope (join_with ''::'' segments)) (\<lambda>v.
            case v of Some x \<Rightarrow> eret x | None \<Rightarrow> ms_expression M cx callee None))
      | _ \<Rightarrow> ms_expression M cx callee None)"

fun argument_values ::
  "methods \<Rightarrow> eval_context \<Rightarrow> bool \<Rightarrow> expression list \<Rightarrow> callable_parameter list \<Rightarrow> substitutions
   \<Rightarrow> (val \<times> span) list eval" where
  "argument_values M cx infer (e # es) (p # ps) subst =
     ebind (ms_expression M cx e (Some (substitute_type subst (cp_type p)))) (\<lambda>v.
     ebind (argument_values M cx infer es ps
       (if infer then infer_runtime_substitution (cp_type p) v subst else subst)) (\<lambda>vs.
     eret ((v, node_span e) # vs)))"
| "argument_values M cx infer _ _ subst = eret []"

definition callable_call ::
  "methods \<Rightarrow> eval_context \<Rightarrow> expression \<Rightarrow> type_reference list \<Rightarrow> expression list \<Rightarrow> span
   \<Rightarrow> value_type option \<Rightarrow> val eval" where
  "callable_call M cx callee targs args sp expected =
     ebind (callee_value M cx callee) (\<lambda>v.
     case v of
       VCallable i f \<Rightarrow>
         if length args \<noteq> length (ca_parameters f) then
           fail_at cx (ReArityMismatch (length (ca_parameters f)) (length args)) sp
         else
           (let explicit = (if targs = [] then None else Some (explicit_types cx targs));
                given = (case explicit of
                    Some ts \<Rightarrow> explicit_substitutions (ca_type_parameters f) ts
                  | None \<Rightarrow> infer_result (ca_result_type f) expected []) in
            ebind (argument_values M cx (explicit = None) args (ca_parameters f) given) (\<lambda>vs.
            run_call M cx i f vs sp explicit expected))
     | _ \<Rightarrow> fail_at cx (ReNotCallable (family_name v)) (node_span callee))"

definition or_else_value :: "val option eval \<Rightarrow> val eval \<Rightarrow> val eval" where
  "or_else_value m k = ebind m (\<lambda>r. case r of Some v \<Rightarrow> eret v | None \<Rightarrow> k)"

definition call ::
  "methods \<Rightarrow> eval_context \<Rightarrow> expression \<Rightarrow> type_reference list \<Rightarrow> expression list \<Rightarrow> span
   \<Rightarrow> value_type option \<Rightarrow> val eval" where
  "call M cx callee targs args sp expected =
     eseq (check_cancel cx sp)
       (let general = callable_call M cx callee targs args sp expected in
        case node_kind callee of
          EkQualified qname \<Rightarrow>
            or_else_value (variant_value M cx qname targs args sp expected)
              (or_else_value (operation_call M cx qname targs args sp) general)
        | EkSymbol i \<Rightarrow> or_else_value (intrinsic_call M cx i args sp) general
        | _ \<Rightarrow> general)"

section \<open>Expressions\<close>

definition binary_value :: "eval_context \<Rightarrow> binary_operator \<Rightarrow> val \<Rightarrow> val \<Rightarrow> span \<Rightarrow> val eval" where
  "binary_value cx operator left right sp =
     (let result = operation_result cx sp in
      case operator of
        BinAdd \<Rightarrow> result (add left right)
      | BinSubtract \<Rightarrow> result (subtract left right)
      | BinMultiply \<Rightarrow> result (multiply left right)
      | BinDivide \<Rightarrow> result (divide left right)
      | BinRemainder \<Rightarrow> panicking_result cx sp (remainder left right)
      | BinLess \<Rightarrow> result (less_value left right)
      | BinLessEqual \<Rightarrow> result (less_equal left right)
      | BinGreater \<Rightarrow> result (greater_value left right)
      | BinGreaterEqual \<Rightarrow> result (greater_equal left right)
      | BinEqual \<Rightarrow> eret (equal_value left right)
      | BinNotEqual \<Rightarrow> eret (not_equal left right)
      | BinIn \<Rightarrow> result (member_value left right)
      | BinRange \<Rightarrow> result (range_value left right False)
      | BinRangeInclusive \<Rightarrow> result (range_value left right True))"

definition record_entry_value ::
  "methods \<Rightarrow> eval_context \<Rightarrow> record_entry_syntax \<Rightarrow> (string \<times> val) eval" where
  "record_entry_value M cx entry =
     ebind (record_key_text M cx (re_key entry)) (\<lambda>k.
     ebind (ms_expression M cx (re_value entry) None) (\<lambda>v. eret (k, v)))"

definition unary :: "eval_context \<Rightarrow> unary_operator \<Rightarrow> val \<Rightarrow> span \<Rightarrow> val eval" where
  "unary cx operator operand sp =
     (case operator of
        UnNot \<Rightarrow> ebind (expect_logic_bool cx operand sp) (\<lambda>b. eret (VBool (\<not> b)))
      | UnPositive \<Rightarrow> operation_result cx sp (plus_value operand)
      | UnNegative \<Rightarrow> operation_result cx sp (negate operand))"

definition expression_value ::
  "methods \<Rightarrow> eval_context \<Rightarrow> expression \<Rightarrow> value_type option \<Rightarrow> val eval" where
  "expression_value M cx e expected =
     (let sp = node_span e in
      case node_kind e of
        EkLiteral l \<Rightarrow> literal_value M cx l
      | EkVariable variable \<Rightarrow>
          ebind (text_at cx (ident_span (vr_name variable))) (\<lambda>name. binding_value cx name sp)
      | EkSymbol _ \<Rightarrow> unsupported_feature cx ''bare symbol'' sp
      | EkQualified qname \<Rightarrow>
          ebind (texts_at cx (qn_segments qname)) (\<lambda>segments.
          ebind (lookup_scope (join_with ''::'' segments)) (\<lambda>v.
            case v of Some x \<Rightarrow> eret x | None \<Rightarrow> qualified_value cx qname sp expected))
      | EkList elements \<Rightarrow>
          eseq (retain_items (length elements) cx sp)
          (ebind (emap (\<lambda>x. ms_expression M cx x (element_type expected)) elements) (\<lambda>vs. eret (VList vs)))
      | EkRecord entries \<Rightarrow>
          eseq (retain_items (length entries) cx sp)
          (ebind (emap (record_entry_value M cx) entries) (\<lambda>pairs.
             case record_new pairs of
               Inl err \<Rightarrow> fail_at cx (ReDuplicateRecordKey (dk_key err)) sp
             | Inr es \<Rightarrow> eret (VRecord es)))
      | EkNominalRecord qname fields_syntax \<Rightarrow> nominal_record M cx qname fields_syntax sp expected
      | EkClosure c \<Rightarrow> make_closure cx c
      | EkGroupedJob chain \<Rightarrow> eval_chain M cx chain None
      | EkCommandSubstitution _ \<Rightarrow>
          if cx_policy cx = PolicyStartup then fail_at cx (ReRestrictedStartup CapCommandSubstitution) sp
          else fail_at cx ReExecutionUnsupported sp
      | EkCall callee targs args \<Rightarrow> call M cx callee targs args sp expected
      | EkIndex target position_expr \<Rightarrow>
          ebind (ms_expression M cx target None) (\<lambda>t.
          ebind (ms_expression M cx position_expr None) (\<lambda>i. operation_result cx sp (index_value t i)))
      | EkMember target name_ident \<Rightarrow>
          ebind (ms_expression M cx target None) (\<lambda>t.
          ebind (text_at cx (ident_span name_ident)) (\<lambda>name.
          panicking_result cx sp (field_value (cx_plain cx) t name)))
      | EkUnary operator operand \<Rightarrow>
          ebind (ms_expression M cx operand None) (\<lambda>v. unary cx (node_kind operator) v sp)
      | EkBinary left operator right \<Rightarrow>
          ebind (ms_expression M cx left None) (\<lambda>l.
          ebind (ms_expression M cx right None) (\<lambda>r. binary_value cx (node_kind operator) l r sp)))"

definition expression_with_expected ::
  "methods \<Rightarrow> eval_context \<Rightarrow> expression \<Rightarrow> value_type option \<Rightarrow> val eval" where
  "expression_with_expected M cx e expected =
     eseq (charge cx (node_span e)) (expression_value M cx e expected)"

end
