(* ===== verification/Eval.thy ===== *)
theory Eval
  imports Evaluator
begin

text \<open>
  Statements, the levels that tie the recursion of the evaluator, and its entry points, from
  \<open>flash-runtime/src/eval.rs\<close>.

  Every method that recurses through the syntax tree charges a step first. The methods at level \<open>n + 1\<close> call
  those at level \<open>n\<close> behind their charge, and at level 0 there are none: \<open>n\<close> bounds the nesting of the charges.
\<close>

section \<open>Bindings\<close>

definition declared_type :: "eval_context \<Rightarrow> pattern_syntax \<Rightarrow> ident \<Rightarrow> type_reference option \<Rightarrow> value_type option" where
  "declared_type cx pattern name annotation =
     (case annotated cx annotation of
        Some t \<Rightarrow> Some t
      | None \<Rightarrow>
          (case pattern of
             PatBinding _ \<Rightarrow> binding_type (cx_types cx) (source_of cx) (ident_span name)
           | _ \<Rightarrow> None))"

definition declare_named ::
  "eval_context \<Rightarrow> ident \<Rightarrow> binding_mutability \<Rightarrow> val \<Rightarrow> value_type option \<Rightarrow> span \<Rightarrow> unit eval" where
  "declare_named cx i m v t value_span =
     ebind (text_at cx (ident_span i)) (\<lambda>name.
     eseq (ensure_lexical_name cx name (ident_span i))
     (ebind (try_declare name m v t)
       (ok_or_abort (\<lambda>err. binding_error cx err
         (case err of ScopeTypeMismatch _ _ \<Rightarrow> value_span | _ \<Rightarrow> ident_span i)))))"

definition declaration_step ::
  "methods \<Rightarrow> eval_context \<Rightarrow> bool \<Rightarrow> pattern_syntax \<Rightarrow> ident \<Rightarrow> type_reference option \<Rightarrow> expression \<Rightarrow> unit eval" where
  "declaration_step M cx is_mutable pattern name annotation e =
     (let t = declared_type cx pattern name annotation;
          m = (if is_mutable then Mutable else Immutable) in
      ebind (ms_expression M cx e t) (\<lambda>v.
      eseq
        (case t of
           None \<Rightarrow> eret ()
         | Some expected \<Rightarrow>
             if accepts expected v then eret ()
             else fail_at cx (ReBindingTypeMismatch expected (family_name v)) (node_span e))
        (case pattern of
           PatBinding _ \<Rightarrow> declare_named cx name m v t (node_span e)
         | _ \<Rightarrow>
             ebind (or_restore_scope (pattern_matches M cx m pattern v
               (case t of None \<Rightarrow> runtime_value_type v | Some u \<Rightarrow> Some u))) (\<lambda>ok.
             if ok then eret () else fail_at cx RePatternMismatch (ident_span name)))))"

definition assignment :: "methods \<Rightarrow> eval_context \<Rightarrow> variable_reference \<Rightarrow> expression \<Rightarrow> unit eval" where
  "assignment M cx target e =
     ebind (text_at cx (ident_span (vr_name target))) (\<lambda>name.
     if dynamic_lookup name \<noteq> None then fail_at cx (ReScope (ImmutableBinding name)) (vr_span target)
     else
       ebind (ms_expression M cx e None) (\<lambda>v.
       ebind (try_assign name v)
         (ok_or_abort (\<lambda>err. binding_error cx err
           (case err of ScopeTypeMismatch _ _ \<Rightarrow> node_span e | _ \<Rightarrow> vr_span target)))))"

definition environment_step :: "methods \<Rightarrow> eval_context \<Rightarrow> environment_statement \<Rightarrow> unit eval" where
  "environment_step M cx st =
     (if cx_policy cx = PolicyPureV2 then
        refuse ''environment mutation''
          (ident_span (case st of EnvExport name _ \<Rightarrow> name | EnvUnset name \<Rightarrow> name))
      else
        (case st of
           EnvExport name_ident e \<Rightarrow>
             ebind (ms_expression M cx e None) (\<lambda>v.
             case word_encoding v of
               None \<Rightarrow> fail_at cx (ReExportValueNotEligible (family_name v)) (node_span e)
             | Some encoded \<Rightarrow>
                 ebind (text_at cx (ident_span name_ident)) (\<lambda>name.
                 if NUL \<in> set encoded then fail_at cx (ReEnvironmentValueContainsNul name) (node_span e)
                 else update_environment (environment_set name encoded)))
         | EnvUnset name_ident \<Rightarrow>
             ebind (text_at cx (ident_span name_ident)) (\<lambda>name.
             update_environment (\<lambda>env. snd (environment_remove name env)))))"

section \<open>Control flow\<close>

primrec if_flow :: "methods \<Rightarrow> eval_context \<Rightarrow> statement if_statement \<Rightarrow> flow eval"
  and else_statement :: "methods \<Rightarrow> eval_context \<Rightarrow> statement else_branch \<Rightarrow> flow eval" where
  "if_flow M cx (IfStatement c then_block alternative) =
     ebind (condition M cx c) (\<lambda>b.
       if b then block_flow M cx then_block
       else
         (case map_option (else_statement M cx) alternative of
            None \<Rightarrow> eret (Fallthrough None)
          | Some m \<Rightarrow> m))"
| "else_statement M cx (ElseBlock b) = block_flow M cx b"
| "else_statement M cx (ElseIf nested) = node_kind (map_ast_node (if_flow M cx) nested)"

text \<open>How a loop goes on after a round: \<open>None\<close> with the next round, \<open>Some f\<close> with its flow.\<close>

definition after_round :: "flow \<Rightarrow> flow option" where
  "after_round f =
     (case f of
        FlowBreak _ \<Rightarrow> Some (Fallthrough None)
      | FlowReturn r sp \<Rightarrow> Some f
      | _ \<Rightarrow> None)"

fun while_rounds ::
  "nat \<Rightarrow> methods \<Rightarrow> eval_context \<Rightarrow> conditional_chain \<Rightarrow> statement block \<Rightarrow> flow eval" where
  "while_rounds 0 M cx c body = exhausted"
| "while_rounds (Suc n) M cx c body =
     eseq (check_cancel cx (cc_span c))
     (ebind (condition M cx c) (\<lambda>b.
      if \<not> b then eret (Fallthrough None)
      else
        ebind (block_flow M cx body) (\<lambda>f.
        case after_round f of
          Some g \<Rightarrow> eret g
        | None \<Rightarrow> while_rounds n M cx c body)))"

text \<open>One round of a \<open>for\<close> loop, in a frame with the loop value.\<close>

definition iteration :: "methods \<Rightarrow> eval_context \<Rightarrow> string \<Rightarrow> statement block \<Rightarrow> val \<Rightarrow> flow eval" where
  "iteration M cx name body v =
     in_frame
       (ebind (try_declare name Immutable v None) (\<lambda>r.
        ebind (ok_or_abort (\<lambda>err. error_at cx (ReScope err) (block_span body)) r) (\<lambda>_.
        statements M cx (block_statements body))))"

fun for_items ::
  "methods \<Rightarrow> eval_context \<Rightarrow> string \<Rightarrow> statement block \<Rightarrow> span \<Rightarrow> val list \<Rightarrow> flow eval" where
  "for_items M cx name body boundary [] = eret (Fallthrough None)"
| "for_items M cx name body boundary (v # vs) =
     eseq (check_cancel cx boundary)
     (ebind (iteration M cx name body v) (\<lambda>f.
      case after_round f of
        Some g \<Rightarrow> eret g
      | None \<Rightarrow> for_items M cx name body boundary vs))"

text \<open>The number of rounds is bounded by the length of the range.\<close>

fun for_range ::
  "nat \<Rightarrow> methods \<Rightarrow> eval_context \<Rightarrow> string \<Rightarrow> statement block \<Rightarrow> span \<Rightarrow> flash_range \<Rightarrow> i64 \<Rightarrow> flow eval" where
  "for_range 0 M cx name body boundary r current_value = exhausted"
| "for_range (Suc n) M cx name body boundary r current_value =
     (if \<not> range_contains r current_value then eret (Fallthrough None)
      else
        eseq (check_cancel cx boundary)
        (ebind (iteration M cx name body (VInt current_value)) (\<lambda>f.
         case after_round f of
           Some g \<Rightarrow> eret g
         | None \<Rightarrow>
             (case checked_i64 (sint current_value + 1) of
                None \<Rightarrow> eret (Fallthrough None)
              | Some next \<Rightarrow> for_range n M cx name body boundary r next))))"

definition range_rounds :: "flash_range \<Rightarrow> nat" where
  "range_rounds r = Suc (nat (sint (range_end r) + 1 - sint (range_start r)))"

definition for_statement :: "methods \<Rightarrow> eval_context \<Rightarrow> ident \<Rightarrow> expression \<Rightarrow> statement block \<Rightarrow> flow eval" where
  "for_statement M cx i iterable body =
     ebind (text_at cx (ident_span i)) (\<lambda>name.
     eseq (ensure_lexical_name cx name (ident_span i))
     (ebind (ms_expression M cx iterable None) (\<lambda>v.
      case v of
        VList vs \<Rightarrow> for_items M cx name body (node_span iterable) vs
      | VRange r \<Rightarrow> for_range (range_rounds r) M cx name body (node_span iterable) r (range_start r)
      | _ \<Rightarrow> fail_at cx (ReNotIterable (family_name v)) (node_span iterable))))"

text \<open>An arm: its flow when it is selected.\<close>

definition arm :: "methods \<Rightarrow> eval_context \<Rightarrow> val \<Rightarrow> statement match_arm \<Rightarrow> flow option eval" where
  "arm M cx subject a =
     ebind (pattern_matches M cx Immutable (ma_pattern a) subject (runtime_value_type subject)) (\<lambda>ok.
     if \<not> ok then eret None
     else
       ebind
         (case ma_guard a of
            None \<Rightarrow> eret True
          | Some guard \<Rightarrow>
              ebind (ms_expression M cx guard None) (\<lambda>v. expect_condition cx v (node_span guard))) (\<lambda>selected.
       if \<not> selected then eret None
       else ebind (statements M cx (block_statements (ma_body a))) (\<lambda>f. eret (Some f))))"

fun arms :: "methods \<Rightarrow> eval_context \<Rightarrow> val \<Rightarrow> span \<Rightarrow> statement match_arm list \<Rightarrow> flow eval" where
  "arms M cx subject sp [] = fail_at cx ReNoMatchingArm sp"
| "arms M cx subject sp (a # as) =
     ebind (in_frame (arm M cx subject a)) (\<lambda>r.
       case r of Some f \<Rightarrow> eret f | None \<Rightarrow> arms M cx subject sp as)"

definition try_statement ::
  "methods \<Rightarrow> eval_context \<Rightarrow> statement block \<Rightarrow> ident \<Rightarrow> statement block \<Rightarrow> flow eval" where
  "try_statement M cx try_block i catch_block =
     catching (block_flow M cx try_block) (\<lambda>err.
       ebind (text_at cx (ident_span i)) (\<lambda>name.
       eseq (ensure_lexical_name cx name (ident_span i))
       (in_frame
         (ebind (try_declare name Immutable (VError err) None) (\<lambda>r.
          ebind (ok_or_abort (\<lambda>e. error_at cx (ReScope e) (ident_span i)) r) (\<lambda>_.
          statements M cx (block_statements catch_block)))))))"

definition throw_statement :: "methods \<Rightarrow> eval_context \<Rightarrow> expression \<Rightarrow> flow eval" where
  "throw_statement M cx e =
     ebind (ms_expression M cx e None) (\<lambda>v.
     case v of
       VString message \<Rightarrow> fail_at cx (ReUserThrown message) (node_span e)
     | VError err \<Rightarrow> eraise (AbError err)
     | _ \<Rightarrow> fail_at cx (ReThrowValueNotErrorOrString (family_name v)) (node_span e))"

definition control_statement :: "methods \<Rightarrow> eval_context \<Rightarrow> control_transfer \<Rightarrow> span \<Rightarrow> flow eval" where
  "control_statement M cx c sp =
     (case c of
        CtBreak \<Rightarrow> eret (FlowBreak sp)
      | CtContinue \<Rightarrow> eret (FlowContinue sp)
      | CtReturn None \<Rightarrow> eret (FlowReturn (VNull, sp) sp)
      | CtReturn (Some e) \<Rightarrow>
          ebind (ms_expression M cx e (cx_result cx)) (\<lambda>v. eret (FlowReturn (v, node_span e) sp)))"

section \<open>Statements\<close>

definition no_flow :: "unit eval \<Rightarrow> flow eval" where
  "no_flow m = ebind m (\<lambda>_. eret (Fallthrough None))"

definition module_statement :: "eval_context \<Rightarrow> bool \<Rightarrow> span \<Rightarrow> flow eval" where
  "module_statement cx versioned sp =
     (if versioned \<and> language_of (cx_types cx) (source_of cx) = Some MajorV2 then eret (Fallthrough None)
      else if cx_policy cx = PolicyStartup then fail_at cx (ReRestrictedStartup CapModuleLoad) sp
      else fail_at cx ReExecutionUnsupported sp)"

definition statement_flow :: "methods \<Rightarrow> eval_context \<Rightarrow> statement \<Rightarrow> flow eval" where
  "statement_flow M cx st =
     (let sp = node_span st in
      case node_kind st of
        StImport _ _ \<Rightarrow> module_statement cx False sp
      | StModuleImport _ _ \<Rightarrow> module_statement cx True sp
      | StModuleExport _ \<Rightarrow> module_statement cx True sp
      | StNominalType _ _ _ \<Rightarrow> eret (Fallthrough None)
      | StVariantType _ _ _ \<Rightarrow> eret (Fallthrough None)
      | StDeclaration is_mutable pattern name annotation e \<Rightarrow>
          no_flow (declaration_step M cx is_mutable pattern name annotation e)
      | StAssignment target e \<Rightarrow> no_flow (assignment M cx target e)
      | StEnvironment env_statement \<Rightarrow> no_flow (environment_step M cx env_statement)
      | StFunction _ name _ ps _ body \<Rightarrow> no_flow (function_definition cx name ps body)
      | StIf statement \<Rightarrow> if_flow M cx statement
      | StWhile c body \<Rightarrow> while_rounds (ms_rounds M) M cx c body
      | StFor i iterable body \<Rightarrow> for_statement M cx i iterable body
      | StMatch subject as \<Rightarrow>
          ebind (ms_expression M cx subject None) (\<lambda>v. arms M cx v (node_span subject) as)
      | StTry try_block i catch_block \<Rightarrow> try_statement M cx try_block i catch_block
      | StThrow e \<Rightarrow> throw_statement M cx e
      | StControl c \<Rightarrow> control_statement M cx c sp
      | StJob chain background \<Rightarrow> job_flow M cx chain background sp None)"

definition statement :: "methods \<Rightarrow> eval_context \<Rightarrow> statement \<Rightarrow> flow eval" where
  "statement M cx st = eseq (charge cx (node_span st)) (statement_flow M cx st)"

section \<open>Levels\<close>

primrec level :: "nat \<Rightarrow> methods" where
  "level 0 =
     \<lparr>ms_statement = (\<lambda>cx st. exhausted), ms_expression = (\<lambda>cx e t. exhausted),
      ms_part = (\<lambda>cx part acc. exhausted), ms_rounds = 0\<rparr>"
| "level (Suc n) =
     (let M = level n in
      \<lparr>ms_statement = statement M, ms_expression = expression_with_expected M, ms_part = expand_part M,
       ms_rounds = Suc n\<rparr>)"

section \<open>Entry points\<close>

text \<open>The failures outside loops and functions carry no source.\<close>

definition outside :: "runtime_error_kind \<Rightarrow> span \<Rightarrow> 'a eval" where
  "outside kind sp = eraise (AbError (error_new kind sp))"

fun script_rounds :: "methods \<Rightarrow> eval_context \<Rightarrow> val \<Rightarrow> statement list \<Rightarrow> val eval" where
  "script_rounds M cx last_value [] = eret last_value"
| "script_rounds M cx last_value (st # sts) =
     ebind (ms_statement M cx st) (\<lambda>f.
     case f of
       Fallthrough (Some (v, _)) \<Rightarrow> script_rounds M cx v sts
     | Fallthrough None \<Rightarrow> script_rounds M cx last_value sts
     | FlowBreak sp \<Rightarrow> outside (ReControlOutsideLoop ControlBreak) sp
     | FlowContinue sp \<Rightarrow> outside (ReControlOutsideLoop ControlContinue) sp
     | FlowReturn _ sp \<Rightarrow> outside ReReturnOutsideFunction sp)"

record eval_limits =
  el_cancelled :: "nat \<Rightarrow> bool"
  el_reason :: cancel_reason
  el_budget :: budget
  el_policy :: evaluation_policy

definition limits_default :: eval_limits where
  "limits_default =
     \<lparr>el_cancelled = (\<lambda>_. False), el_reason = CancelRequested, el_budget = budget_unlimited,
      el_policy = PolicyGeneral\<rparr>"

text \<open>
  Facts of the process that the code reads through its types: the next number of an allocation, the number of
  polls so far, and the scalars that \<open>Debug\<close> keeps.
\<close>

definition initial_context ::
  "(scalar \<Rightarrow> bool) \<Rightarrow> source_file \<Rightarrow> runtime_binding_types \<Rightarrow> eval_limits \<Rightarrow> eval_context" where
  "initial_context plain src types limits =
     \<lparr>cx_source = src, cx_types = types, cx_result = None, cx_cancelled = el_cancelled limits,
      cx_reason = el_reason limits, cx_policy = el_policy limits, cx_plain = plain\<rparr>"

definition initial_evaluation :: "scope_stack \<Rightarrow> environment \<Rightarrow> eval_limits \<Rightarrow> nat \<Rightarrow> evaluation" where
  "initial_evaluation sc env limits next =
     \<lparr>ev_scope = sc, ev_budget = el_budget limits, ev_environment = env, ev_polls = 0, ev_next = next\<rparr>"

datatype completion = CompletionValue val | CompletionCancelled cancellation

datatype hosted_outcome = HostedValue val | HostedCancelled cancellation | HostedRefused refusal

text \<open>\<open>evaluate_with_host_and_budget\<close> with the pure host.\<close>

definition hosted_outcome_of :: "abort + val \<Rightarrow> runtime_error + hosted_outcome" where
  "hosted_outcome_of r =
     (case r of
        Inr v \<Rightarrow> Inr (HostedValue v)
      | Inl (AbCancelled c) \<Rightarrow> Inr (HostedCancelled c)
      | Inl (AbRefused f) \<Rightarrow> Inr (HostedRefused f)
      | Inl (AbError err) \<Rightarrow> Inl err)"

definition evaluate_with_host ::
  "nat \<Rightarrow> (scalar \<Rightarrow> bool) \<Rightarrow> script \<Rightarrow> source_file \<Rightarrow> runtime_binding_types \<Rightarrow> eval_limits \<Rightarrow> evaluation
   \<Rightarrow> ((runtime_error + hosted_outcome) \<times> evaluation) fate" where
  "evaluate_with_host n plain s src types limits st =
     (case script_rounds (level n) (initial_context plain src types limits) VNull (script_statements s) st of
        Ended (r, st') \<Rightarrow> Ended (hosted_outcome_of r, st')
      | Panicked \<Rightarrow> Panicked
      | Exhausted \<Rightarrow> Exhausted)"

text \<open>A refusal is \<open>unreachable!\<close> here: with the policy of Flash 2 it panics.\<close>

definition completion_of :: "abort + val \<Rightarrow> (runtime_error + completion) option" where
  "completion_of r =
     (case r of
        Inr v \<Rightarrow> Some (Inr (CompletionValue v))
      | Inl (AbCancelled c) \<Rightarrow> Some (Inr (CompletionCancelled c))
      | Inl (AbError err) \<Rightarrow> Some (Inl err)
      | Inl (AbRefused _) \<Rightarrow> None)"

definition completed :: "((abort + val) \<times> evaluation) fate \<Rightarrow> ((runtime_error + completion) \<times> evaluation) fate" where
  "completed x =
     (case x of
        Ended (r, s) \<Rightarrow> (case completion_of r of None \<Rightarrow> Panicked | Some c \<Rightarrow> Ended (c, s))
      | Panicked \<Rightarrow> Panicked
      | Exhausted \<Rightarrow> Exhausted)"

definition evaluate_in_environment ::
  "nat \<Rightarrow> (scalar \<Rightarrow> bool) \<Rightarrow> script \<Rightarrow> source_file \<Rightarrow> runtime_binding_types \<Rightarrow> eval_limits \<Rightarrow> scope_stack
   \<Rightarrow> environment \<Rightarrow> nat \<Rightarrow> ((runtime_error + completion) \<times> evaluation) fate" where
  "evaluate_in_environment n plain s src types limits sc env next =
     completed (script_rounds (level n) (initial_context plain src types limits) VNull (script_statements s)
       (initial_evaluation sc env limits next))"

text \<open>\<open>apply_callable\<close>: a callable on values, with a synthetic call site.\<close>

definition apply_callable ::
  "nat \<Rightarrow> (scalar \<Rightarrow> bool) \<Rightarrow> val \<Rightarrow> val list \<Rightarrow> source_file \<Rightarrow> span \<Rightarrow> eval_limits \<Rightarrow> environment \<Rightarrow> nat
   \<Rightarrow> ((runtime_error + completion) \<times> evaluation) fate" where
  "apply_callable n plain v args src sp limits env next =
     (let st = initial_evaluation scope_new env limits next in
      case v of
        VCallable i f \<Rightarrow>
          if length args \<noteq> length (ca_parameters f) then
            Ended (Inl (error_new (ReArityMismatch (length (ca_parameters f)) (length args)) sp), st)
          else
            (let cx = initial_context plain src (ca_binding_types f) limits in
             completed (eseq (check_cancel cx sp)
               (run_call (level n) cx i f (map (\<lambda>a. (a, sp)) args) sp None None) st))
      | _ \<Rightarrow> Ended (Inl (error_new (ReNotCallable (family_name v)) sp), st))"

text \<open>
  \<open>expand_word\<close>, \<open>expand_spread\<close> and \<open>evaluate_closure_argument\<close> with their default limits. Aborts
  that are no errors are \<open>unreachable!\<close> in them.
\<close>

definition errors_only :: "((abort + 'a) \<times> evaluation) fate \<Rightarrow> ((runtime_error + 'a) \<times> evaluation) fate" where
  "errors_only x =
     (case x of
        Ended (Inr a, s) \<Rightarrow> Ended (Inr a, s)
      | Ended (Inl (AbError err), s) \<Rightarrow> Ended (Inl err, s)
      | Ended (Inl _, s) \<Rightarrow> Panicked
      | Panicked \<Rightarrow> Panicked
      | Exhausted \<Rightarrow> Exhausted)"

definition expand_word_in ::
  "nat \<Rightarrow> (scalar \<Rightarrow> bool) \<Rightarrow> word_syntax \<Rightarrow> source_file \<Rightarrow> scope_stack \<Rightarrow> environment \<Rightarrow> nat
   \<Rightarrow> ((runtime_error + expanded_word) \<times> evaluation) fate" where
  "expand_word_in n plain w src sc env next =
     errors_only (expand_word (level n) (initial_context plain src binding_types_default limits_default) w
       (initial_evaluation sc env limits_default next))"

definition expand_spread_in ::
  "(scalar \<Rightarrow> bool) \<Rightarrow> variable_reference \<Rightarrow> span \<Rightarrow> source_file \<Rightarrow> scope_stack \<Rightarrow> nat
   \<Rightarrow> ((runtime_error + expanded_word list) \<times> evaluation) fate" where
  "expand_spread_in plain variable sp src sc next =
     errors_only (expand_spread (initial_context plain src binding_types_default limits_default) variable sp
       (initial_evaluation sc environment_new limits_default next))"

definition evaluate_closure_argument ::
  "(scalar \<Rightarrow> bool) \<Rightarrow> closure_syntax \<Rightarrow> source_file \<Rightarrow> scope_stack \<Rightarrow> runtime_binding_types \<Rightarrow> nat
   \<Rightarrow> ((runtime_error + val) \<times> evaluation) fate" where
  "evaluate_closure_argument plain c src sc types next =
     errors_only (make_closure (initial_context plain src types limits_default) c
       (initial_evaluation sc environment_new limits_default next))"

end
