(* ===== verification/Eval_Agreement.thy ===== *)
theory Eval_Agreement
  imports Eval
begin

text \<open>
  What every method of the evaluator promises of the state that it leaves, and that its result does not depend
  on the fuel of the model.

  \<open>agrees R any n m m'\<close>: from a state with less than \<open>n\<close> steps left, \<open>m\<close> has fuel enough, ends in an
  \<open>R\<close>-related state, and \<open>m'\<close>, the same method with more fuel, does the same. With \<open>any\<close> the steps left do
  not matter, and \<open>m\<close> may run out of fuel. The locale states what \<open>R\<close> must grant the primitive steps; every
  method is shown to keep any such \<open>R\<close>.
\<close>

named_theorems agreement

section \<open>Agreement\<close>

definition steps_within :: "bool \<Rightarrow> nat \<Rightarrow> evaluation \<Rightarrow> bool" where
  "steps_within any n s \<longleftrightarrow>
     any \<or> (\<exists>l. bg_step_limit (ev_budget s) = Some l \<and> l - bg_used_steps (ev_budget s) < n)"

definition agrees ::
  "(evaluation \<Rightarrow> evaluation \<Rightarrow> bool) \<Rightarrow> bool \<Rightarrow> nat \<Rightarrow> 'a eval \<Rightarrow> 'a eval \<Rightarrow> bool" where
  "agrees R any n m m' \<longleftrightarrow>
     (\<forall>s. steps_within any n s \<longrightarrow>
        (case m s of
           Ended (r, s') \<Rightarrow> R s s' \<and> m' s = m s
         | Panicked \<Rightarrow> m' s = Panicked
         | Exhausted \<Rightarrow> any))"

text \<open>\<open>m\<close> has charged a step when it succeeds.\<close>

definition charges :: "bool \<Rightarrow> nat \<Rightarrow> 'a eval \<Rightarrow> bool" where
  "charges any n m \<longleftrightarrow>
     (\<forall>k<n. \<forall>s r s'. steps_within any (Suc k) s \<longrightarrow> m s = Ended (Inr r, s') \<longrightarrow> steps_within any k s')"

definition methods_agree ::
  "(evaluation \<Rightarrow> evaluation \<Rightarrow> bool) \<Rightarrow> bool \<Rightarrow> evaluation_policy \<Rightarrow> nat \<Rightarrow> methods \<Rightarrow> methods \<Rightarrow> bool" where
  "methods_agree R any policy n M M' \<longleftrightarrow>
     ms_rounds M = n \<and> n \<le> ms_rounds M' \<and>
     (\<forall>cx. cx_policy cx = policy \<longrightarrow>
        (\<forall>st. agrees R any n (ms_statement M cx st) (ms_statement M' cx st)) \<and>
        (\<forall>e t. agrees R any n (ms_expression M cx e t) (ms_expression M' cx e t) \<and>
           charges any n (ms_expression M cx e t)) \<and>
        (\<forall>p acc. agrees R any n (ms_part M cx p acc) (ms_part M' cx p acc)))"

lemma steps_within_mono: "steps_within any k s \<Longrightarrow> k \<le> n \<Longrightarrow> steps_within any n s"
  by (auto simp: steps_within_def)

lemma within_scope [simp]:
  "steps_within any n (s\<lparr>ev_scope := sc\<rparr>) = steps_within any n s"
  "steps_within any n (s\<lparr>ev_polls := p\<rparr>) = steps_within any n s"
  "steps_within any n (s\<lparr>ev_next := p\<rparr>) = steps_within any n s"
  "steps_within any n (s\<lparr>ev_environment := env\<rparr>) = steps_within any n s"
  by (simp_all add: steps_within_def)

lemma agreesI:
  assumes "\<And>s. steps_within any n s \<Longrightarrow>
    (case m s of Ended (r, s') \<Rightarrow> R s s' \<and> m' s = m s | Panicked \<Rightarrow> m' s = Panicked | Exhausted \<Rightarrow> any)"
  shows "agrees R any n m m'"
  using assms by (simp add: agrees_def)

lemma agreesD:
  assumes "agrees R any n m m'" and "steps_within any n s"
  shows "m s = Ended (r, s') \<Longrightarrow> R s s'" "m s = Ended (r, s') \<Longrightarrow> m' s = Ended (r, s')"
    "m s = Panicked \<Longrightarrow> m' s = Panicked" "m s = Exhausted \<Longrightarrow> any"
  using assms by (fastforce simp: agrees_def split: fate.splits)+

lemma agrees_less: "agrees R any n m m' \<Longrightarrow> k \<le> n \<Longrightarrow> agrees R any k m m'"
  by (meson agrees_def steps_within_mono)

lemma agrees_self: "agrees R any n m m' \<Longrightarrow> agrees R any n m m"
  by (fastforce simp: agrees_def split: fate.splits)

lemma methods_self: "methods_agree R any policy n M M' \<Longrightarrow> methods_agree R any policy n M M"
  unfolding methods_agree_def by (intro conjI allI impI; blast intro: agrees_self order_refl)

lemma agrees_cases [agreement]:
  "(c \<Longrightarrow> agrees R any n a a') \<Longrightarrow> (\<not> c \<Longrightarrow> agrees R any n b b')
     \<Longrightarrow> agrees R any n (if c then a else b) (if c then a' else b')"
  "(x = None \<Longrightarrow> agrees R any n a a') \<Longrightarrow> (\<And>y. x = Some y \<Longrightarrow> agrees R any n (f y) (f' y))
     \<Longrightarrow> agrees R any n (case x of None \<Rightarrow> a | Some y \<Rightarrow> f y) (case x of None \<Rightarrow> a' | Some y \<Rightarrow> f' y)"
  "(\<And>y. z = Inl y \<Longrightarrow> agrees R any n (g y) (g' y)) \<Longrightarrow> (\<And>y. z = Inr y \<Longrightarrow> agrees R any n (h y) (h' y))
     \<Longrightarrow> agrees R any n (case z of Inl y \<Rightarrow> g y | Inr y \<Rightarrow> h y) (case z of Inl y \<Rightarrow> g' y | Inr y \<Rightarrow> h' y)"
  "(\<And>u v. p = (u, v) \<Longrightarrow> agrees R any n (k u v) (k' u v))
     \<Longrightarrow> agrees R any n (case p of (u, v) \<Rightarrow> k u v) (case p of (u, v) \<Rightarrow> k' u v)"
  "(xs = [] \<Longrightarrow> agrees R any n a a') \<Longrightarrow> (\<And>y ys. xs = y # ys \<Longrightarrow> agrees R any n (l y ys) (l' y ys))
     \<Longrightarrow> agrees R any n (case xs of [] \<Rightarrow> a | y # ys \<Rightarrow> l y ys) (case xs of [] \<Rightarrow> a' | y # ys \<Rightarrow> l' y ys)"
  by (auto split: option.split sum.split prod.split list.split)

section \<open>What a relation grants\<close>

locale evaluation_relation =
  fixes R :: "evaluation \<Rightarrow> evaluation \<Rightarrow> bool" and any :: bool and policy :: evaluation_policy
  assumes same: "R s s"
    and trans: "R s s' \<Longrightarrow> R s' s'' \<Longrightarrow> R s s''"
    and steps_left: "R s s' \<Longrightarrow> steps_within any n s \<Longrightarrow> steps_within any n s'"
    and polled: "R s (s\<lparr>ev_polls := p\<rparr>)"
    and numbered: "R s (s\<lparr>ev_next := p\<rparr>)"
    and charged: "budget_charge (ev_budget s) = Some b \<Longrightarrow> R s (s\<lparr>ev_budget := b\<rparr>)"
    and items_retained: "charge_collection_items k (ev_budget s) = Some b \<Longrightarrow> R s (s\<lparr>ev_budget := b\<rparr>)"
    and bytes_retained: "charge_collection_bytes k (ev_budget s) = Some b \<Longrightarrow> R s (s\<lparr>ev_budget := b\<rparr>)"
    and declared: "declare_typed name m v t (ev_scope s) = Some (Inr sc) \<Longrightarrow> R s (s\<lparr>ev_scope := sc\<rparr>)"
    and assigned: "assign name v (ev_scope s) = Inr sc \<Longrightarrow> R s (s\<lparr>ev_scope := sc\<rparr>)"
    and environment_changed: "policy \<noteq> PolicyPureV2 \<Longrightarrow> R s (s\<lparr>ev_environment := env\<rparr>)"
    and framed: "R (s\<lparr>ev_scope := scope_push (ev_scope s)\<rparr>) s' \<Longrightarrow> scope_pop (ev_scope s') = Inr sc
      \<Longrightarrow> R s (s'\<lparr>ev_scope := sc\<rparr>)"
    and called: "budget_enter_call (ev_budget s) = Some b \<Longrightarrow> R (s\<lparr>ev_budget := b, ev_scope := sc\<rparr>) s'
      \<Longrightarrow> budget_leave_call (ev_budget s') = Some b' \<Longrightarrow> R s (s'\<lparr>ev_scope := ev_scope s, ev_budget := b'\<rparr>)"
    and scope_restored: "R s s' \<Longrightarrow> R s (s'\<lparr>ev_scope := ev_scope s\<rparr>)"
    and environment_restored: "R s s' \<Longrightarrow> R s (s'\<lparr>ev_environment := ev_environment s\<rparr>)"
begin

section \<open>Sequencing\<close>

lemma agrees_return [agreement]:
  "agrees R any n (eret x) (eret x)" "agrees R any n (eraise a) (eraise a)"
  "agrees R any n epanic epanic" "agrees R any n (fail_at cx kind sp) (fail_at cx kind sp)"
  "agrees R any n (unsupported_feature cx feature sp) (unsupported_feature cx feature sp)"
  "agrees R any n (refuse operation sp) (refuse operation sp)"
  "agrees R any n (evaluation_get g) (evaluation_get g)"
  "agrees R any n (lookup_scope name) (lookup_scope name)"
  by (simp_all add: agrees_def eret_def eraise_def epanic_def fail_at_def unsupported_feature_def refuse_def
    evaluation_get_def lookup_scope_def same)

lemma agrees_exhausted: "agrees R any 0 exhausted m"
  by (simp add: agrees_def steps_within_def exhausted_def)

lemma agrees_ebind [agreement]:
  assumes m: "agrees R any n m m'" and f: "\<And>x. agrees R any n (f x) (f' x)"
  shows "agrees R any n (ebind m f) (ebind m' f')"
proof (rule agreesI)
  fix s assume s: "steps_within any n s"
  note D = agreesD [OF m s]
  show "case ebind m f s of Ended (r, s') \<Rightarrow> R s s' \<and> ebind m' f' s = ebind m f s
    | Panicked \<Rightarrow> ebind m' f' s = Panicked | Exhausted \<Rightarrow> any"
  proof (cases "m s")
    case (Ended p)
    obtain r s1 where p: "p = (r, s1)" by fastforce
    with Ended D have R: "R s s1" and m': "m' s = Ended (r, s1)" by auto
    show ?thesis
    proof (cases r)
      case (Inr x)
      have "steps_within any n s1" by (rule steps_left [OF R s])
      note E = agreesD [OF f [of x] this]
      show ?thesis using Ended p m' Inr E trans [OF R]
        by (cases "f x s1") (auto simp: ebind_def)
    qed (use Ended p m' R in \<open>simp add: ebind_def\<close>)
  qed (use D in \<open>auto simp: ebind_def\<close>)
qed

lemma agrees_eseq [agreement]:
  "agrees R any n m m' \<Longrightarrow> agrees R any n k k' \<Longrightarrow> agrees R any n (eseq m k) (eseq m' k')"
  by (simp add: eseq_def agrees_ebind)

lemma agrees_map_abort [agreement]:
  "agrees R any n m m' \<Longrightarrow> agrees R any n (map_abort f m) (map_abort f m')"
  by (fastforce simp: agrees_def map_abort_def split: fate.splits sum.splits)

lemma agrees_results [agreement]:
  "agrees R any n (eexpect x) (eexpect x)" "agrees R any n (ok_or_abort f r) (ok_or_abort f r)"
  "agrees R any n (operation_result cx sp r') (operation_result cx sp r')"
  "agrees R any n (panicking_result cx sp x') (panicking_result cx sp x')"
  by (auto simp: eexpect_def ok_or_abort_def operation_result_def panicking_result_def intro!: agreement)

lemma agrees_emap [agreement]:
  "(\<And>x. x \<in> set xs \<Longrightarrow> agrees R any n (f x) (f' x)) \<Longrightarrow> agrees R any n (emap f xs) (emap f' xs)"
  by (induction xs) (auto intro!: agreement)

lemma agrees_efold [agreement]:
  "(\<And>x a. x \<in> set xs \<Longrightarrow> agrees R any n (f x a) (f' x a)) \<Longrightarrow> agrees R any n (efold f xs acc) (efold f' xs acc)"
  by (induction xs arbitrary: acc) (auto intro!: agreement)

lemma agrees_eall:
  "list_all2 (\<lambda>x x'. agrees R any n (f x) (f' x')) xs xs' \<Longrightarrow> agrees R any n (eall f xs) (eall f' xs')"
  by (induction rule: list_all2_induct) (auto intro!: agreement)

section \<open>Primitive steps\<close>

lemma agrees_steps [agreement]:
  "agrees R any n (check_cancel cx sp) (check_cancel cx sp)" "agrees R any n (charge cx sp) (charge cx sp)"
  "agrees R any n (retain_items k cx sp) (retain_items k cx sp)"
  "agrees R any n (retain_collection_bytes k cx sp) (retain_collection_bytes k cx sp)"
  "agrees R any n (new_callable c) (new_callable c)"
  "agrees R any n (try_declare name m v t) (try_declare name m v t)"
  "agrees R any n (try_assign name v) (try_assign name v)"
  by (auto simp: agrees_def check_cancel_def Let_def spend_def charge_def retain_items_def
    retain_collection_bytes_def new_callable_def scope_step_def try_declare_def try_assign_def
    same polled numbered charged items_retained bytes_retained declared assigned
    split: option.split sum.split)

lemma agrees_update [agreement]:
  "policy \<noteq> PolicyPureV2 \<Longrightarrow> agrees R any n (update_environment f) (update_environment f)"
  by (simp add: agrees_def update_environment_def environment_changed)

lemma agrees_text [agreement]:
  "agrees R any n (text_at cx sp) (text_at cx sp)" "agrees R any n (texts_at cx ids) (texts_at cx ids)"
  by (auto simp: text_at_def texts_at_def intro!: agreement)

lemma agrees_in_frame [agreement]:
  assumes m: "agrees R any n m m'"
  shows "agrees R any n (in_frame m) (in_frame m')"
proof (rule agreesI)
  fix s assume "steps_within any n s"
  then have "steps_within any n (s\<lparr>ev_scope := scope_push (ev_scope s)\<rparr>)" by simp
  from agreesD [OF m this] show "case in_frame m s of Ended (r, s') \<Rightarrow> R s s' \<and> in_frame m' s = in_frame m s
    | Panicked \<Rightarrow> in_frame m' s = Panicked | Exhausted \<Rightarrow> any"
    by (cases "m (s\<lparr>ev_scope := scope_push (ev_scope s)\<rparr>)")
       (auto simp: in_frame_def split: sum.split intro: framed)
qed

lemma within_entered:
  "steps_within any n s \<Longrightarrow> budget_enter_call (ev_budget s) = Some b \<Longrightarrow> steps_within any n (s\<lparr>ev_budget := b, ev_scope := sc\<rparr>)"
  by (auto simp: steps_within_def budget_enter_call_def Let_def split: if_splits)

lemma agrees_in_call [agreement]:
  assumes m: "agrees R any n m m'"
  shows "agrees R any n (in_call cx sp sc m) (in_call cx sp sc m')"
proof (rule agreesI)
  fix s assume s: "steps_within any n s"
  show "case in_call cx sp sc m s of
      Ended (r, s') \<Rightarrow> R s s' \<and> in_call cx sp sc m' s = in_call cx sp sc m s
    | Panicked \<Rightarrow> in_call cx sp sc m' s = Panicked | Exhausted \<Rightarrow> any"
  proof (cases "budget_enter_call (ev_budget s)")
    case None
    then show ?thesis by (simp add: in_call_def eseq_def ebind_def spend_def same)
  next
    case (Some b)
    from agreesD [OF m within_entered [OF s Some, of sc]] Some show ?thesis
      by (cases "m (s\<lparr>ev_budget := b, ev_scope := sc\<rparr>)")
         (auto simp: in_call_def eseq_def ebind_def spend_def split: option.split intro: called)
  qed
qed

lemma agrees_or_restore [agreement]:
  "agrees R any n m m' \<Longrightarrow> agrees R any n (or_restore_scope m) (or_restore_scope m')"
  by (fastforce simp: agrees_def or_restore_scope_def scope_restored split: fate.splits sum.splits bool.splits)

lemma agrees_catching [agreement]:
  assumes m: "agrees R any n m m'" and h: "\<And>err. agrees R any n (h err) (h' err)"
  shows "agrees R any n (catching m h) (catching m' h')"
proof (rule agreesI)
  fix s assume s: "steps_within any n s"
  note D = agreesD [OF m s]
  show "case catching m h s of Ended (r, s') \<Rightarrow> R s s' \<and> catching m' h' s = catching m h s
    | Panicked \<Rightarrow> catching m' h' s = Panicked | Exhausted \<Rightarrow> any"
  proof (cases "\<exists>err s1. m s = Ended (Inl (AbError err), s1)")
    case True
    then obtain err s1 where e: "m s = Ended (Inl (AbError err), s1)" by blast
    let ?s = "s1\<lparr>ev_scope := ev_scope s, ev_environment := ev_environment s\<rparr>"
    have R: "R s ?s" using D(1) [OF e] scope_restored environment_restored [of s "s1\<lparr>ev_scope := ev_scope s\<rparr>"]
      by simp
    note E = agreesD [OF h [of err] steps_left [OF R s]]
    show ?thesis using e D E trans [OF R] by (cases "h err ?s") (auto simp: catching_def)
  qed (use D in \<open>auto simp: catching_def split: fate.split sum.split abort.split\<close>)
qed

section \<open>Charges\<close>

lemma charges_charge:
  assumes "agrees R any n m m'"
  shows "charges any (Suc n) (eseq (charge cx sp) m)"
  unfolding charges_def
proof (intro allI impI)
  fix k s r s' assume k: "k < Suc n" and s: "steps_within any (Suc k) s"
    and e: "eseq (charge cx sp) m s = Ended (Inr r, s')"
  from e obtain b where b: "budget_charge (ev_budget s) = Some b" "m (s\<lparr>ev_budget := b\<rparr>) = Ended (Inr r, s')"
    by (auto simp: eseq_def ebind_def charge_def spend_def split: option.splits)
  have w: "steps_within any k (s\<lparr>ev_budget := b\<rparr>)"
    using s b(1) by (auto simp: steps_within_def budget_charge_def split: option.splits if_splits)
  then have "steps_within any n (s\<lparr>ev_budget := b\<rparr>)" by (rule steps_within_mono) (use k in simp)
  with assms b(2) have "R (s\<lparr>ev_budget := b\<rparr>) s'" by (blast dest: agreesD(1))
  then show "steps_within any k s'" using w by (rule steps_left)
qed

lemma agrees_charge:
  assumes m: "agrees R any n m m'"
  shows "agrees R any (Suc n) (eseq (charge cx sp) m) (eseq (charge cx sp) m')"
proof (rule agreesI)
  fix s assume s: "steps_within any (Suc n) s"
  show "case eseq (charge cx sp) m s of
      Ended (r, s') \<Rightarrow> R s s' \<and> eseq (charge cx sp) m' s = eseq (charge cx sp) m s
    | Panicked \<Rightarrow> eseq (charge cx sp) m' s = Panicked | Exhausted \<Rightarrow> any"
  proof (cases "budget_charge (ev_budget s)")
    case None
    then show ?thesis by (simp add: eseq_def ebind_def charge_def spend_def same)
  next
    case (Some b)
    have R: "R s (s\<lparr>ev_budget := b\<rparr>)" using Some by (rule charged)
    have "steps_within any n (s\<lparr>ev_budget := b\<rparr>)"
      using s Some by (auto simp: steps_within_def budget_charge_def split: option.splits if_splits)
    from agreesD [OF m this] Some trans [OF R] show ?thesis
      by (cases "m (s\<lparr>ev_budget := b\<rparr>)") (auto simp: eseq_def ebind_def charge_def spend_def)
  qed
qed

lemma charges_ebind:
  assumes m: "charges any n m" and f: "\<And>x. agrees R any n (f x) (f x)"
  shows "charges any n (ebind m f)"
  unfolding charges_def
proof (intro allI impI)
  fix k s r s' assume k: "k < n" and s: "steps_within any (Suc k) s" and e: "ebind m f s = Ended (Inr r, s')"
  from e obtain x s1 where x: "m s = Ended (Inr x, s1)" "f x s1 = Ended (Inr r, s')"
    by (auto simp: ebind_def split: fate.splits sum.splits)
  with m k s have w: "steps_within any k s1" unfolding charges_def by blast
  then have "steps_within any n s1" by (rule steps_within_mono) (use k in simp)
  with f x(2) have "R s1 s'" by (blast dest: agreesD(1))
  then show "steps_within any k s'" using w by (rule steps_left)
qed

end

end
