(* ===== verification/Eval_Methods.thy ===== *)
theory Eval_Methods
  imports Eval_Agreement
begin

text \<open>
  Every method of the evaluator keeps the relations of \<open>evaluation_relation\<close> and does not depend on its fuel:
  the methods of each theory of the evaluator in their order, then the levels.
\<close>

lemma policy_of_callee [simp]: "cx_policy (callee_context cx f subst) = cx_policy cx"
  by (simp add: callee_context_def)

context evaluation_relation begin

section \<open>Words\<close>

lemma agrees_methods [agreement]:
  assumes "methods_agree R any policy n M M'" and "cx_policy cx = policy"
  shows "agrees R any n (ms_statement M cx st) (ms_statement M' cx st)"
    and "agrees R any n (ms_expression M cx e t) (ms_expression M' cx e t)"
    and "agrees R any n (ms_part M cx p acc) (ms_part M' cx p acc)"
  using assms by (cases acc; simp add: methods_agree_def)+

lemma charges_expression:
  "methods_agree R any policy n M M' \<Longrightarrow> cx_policy cx = policy \<Longrightarrow> charges any n (ms_expression M cx e t)"
  by (simp add: methods_agree_def)

lemma agrees_literals [agreement]:
  "agrees R any n (integer cx sp) (integer cx sp)" "agrees R any n (float cx sp) (float cx sp)"
  "agrees R any n (ensure_lexical_name cx name sp) (ensure_lexical_name cx name sp)"
  "agrees R any n (binding_value cx name sp) (binding_value cx name sp)"
  by (auto simp: integer_def float_def ensure_lexical_name_def binding_value_def intro!: agreement
    split: option.split dynamic_binding.split)

lemma agrees_encode [agreement]: "agrees R any n (encode_scalar cx v sp) (encode_scalar cx v sp)"
  by (auto simp: encode_scalar_def Let_def intro!: agreement)


lemma agrees_part [agreement]:
  assumes "methods_agree R any policy n M M'" and "cx_policy cx = policy"
  shows "agrees R any n (part_text M cx p) (part_text M' cx p)"
  using assms
  by (cases "node_kind p") (auto simp: part_text_def Let_def intro!: agreement split: evaluation_policy.split)

lemma agrees_expand_part:
  assumes "methods_agree R any policy n M M'" and "cx_policy cx = policy"
  shows "agrees R any (Suc n) (expand_part M cx p acc) (expand_part M' cx p acc)"
  using assms
  by (cases "node_kind p") (auto simp: expand_part_def Let_def intro!: agrees_charge agreement)

lemma agrees_words [agreement]:
  assumes "methods_agree R any policy n M M'" and "cx_policy cx = policy"
  shows "agrees R any n (double_quoted_value M cx parts sp) (double_quoted_value M' cx parts sp)"
    and "agrees R any n (expand_word M cx w) (expand_word M' cx w)"
  using assms by (auto simp: double_quoted_value_def expand_word_def intro!: agreement)

lemma agrees_spread_words [agreement]: "agrees R any n (spread_words cx sp i vs) (spread_words cx sp i vs)"
  by (induction vs arbitrary: i) (auto intro!: agreement)

lemma agrees_spread [agreement]: "agrees R any n (expand_spread cx variable sp) (expand_spread cx variable sp)"
  by (auto simp: expand_spread_def intro!: agreement split: val.split)

lemma agrees_literal [agreement]:
  assumes "methods_agree R any policy n M M'" and "cx_policy cx = policy"
  shows "agrees R any n (literal_value M cx l) (literal_value M' cx l)"
  using assms by (cases "literal_kind l") (auto simp: literal_value_def Let_def intro!: agreement)

lemma agrees_record_key [agreement]:
  assumes "methods_agree R any policy n M M'" and "cx_policy cx = policy"
  shows "agrees R any n (record_key_text M cx k) (record_key_text M' cx k)"
  using assms by (cases k) (auto simp: record_key_text_def intro!: agreement)

section \<open>Patterns\<close>

text \<open>Two matchers that agree on every subject.\<close>

definition matchers_agree :: "nat \<Rightarrow> matcher \<Rightarrow> matcher \<Rightarrow> bool" where
  "matchers_agree n f g \<longleftrightarrow> (\<forall>v t. agrees R any n (f v t) (g v t))"

lemma agrees_declare_name [agreement]:
  "agrees R any n (declare_pattern_name cx i m v t) (declare_pattern_name cx i m v t)"
  by (auto simp: declare_pattern_name_def intro!: agreement)

lemma agrees_match_list:
  assumes "list_all2 (matchers_agree n) fs gs"
  shows "matchers_agree n (match_list cx m fs r) (match_list cx m gs r)"
proof -
  have "list_all2 (\<lambda>x y. agrees R any n (case x of (f, v) \<Rightarrow> f v t) (case y of (f, v) \<Rightarrow> f v t))
      (zip fs vs) (zip gs vs)" for vs and t
    using assms by (auto simp: list_all2_conv_all_nth matchers_agree_def)
  then show ?thesis using list_all2_lengthD [OF assms]
    by (auto simp: matchers_agree_def match_list_def intro!: agreement agrees_eall split: val.split)
qed

lemma agrees_match_record:
  assumes "\<And>f. f \<in> set fs \<Longrightarrow> matchers_agree n (g (pf_pattern f)) (h (pf_pattern f))"
  shows "matchers_agree n (match_nominal_record cx q (map (map_pattern_field g) fs))
    (match_nominal_record cx q (map (map_pattern_field h) fs))"
proof -
  have "agrees R any n (match_field cx nm subst es (map_pattern_field g f))
      (match_field cx nm subst es (map_pattern_field h f))" if "f \<in> set fs" for nm subst es f
    using assms [OF that] unfolding match_field_def matchers_agree_def
    by (auto simp: pattern_field.map_sel intro!: agreement)
  then show ?thesis
    by (auto simp: matchers_agree_def match_nominal_record_def list_all2_conv_all_nth
      intro!: agreement agrees_eall split: val.split)
qed

lemma agrees_match_payload:
  "list_all2 (matchers_agree n) fs gs
    \<Longrightarrow> agrees R any n (match_payload subst ts fs vs) (match_payload subst ts gs vs)"
proof (induction fs gs arbitrary: ts vs rule: list_all2_induct)
  case (Cons f fs g gs)
  then show ?case by (cases vs) (auto simp: matchers_agree_def intro!: agreement)
qed (simp add: agrees_return)

lemma agrees_match_variant:
  assumes "list_all2 (matchers_agree n) fs gs"
  shows "matchers_agree n (match_variant cx q fs) (match_variant cx q gs)"
  using agrees_match_payload [OF assms] list_all2_lengthD [OF assms]
  by (auto simp: matchers_agree_def match_variant_def intro!: agreement split: val.split)

lemma agrees_pattern:
  assumes M: "methods_agree R any policy n M M'" and cx: "cx_policy cx = policy"
  shows "matchers_agree n (pattern_matches M cx m p) (pattern_matches M' cx m p)"
proof (induction p)
  case (PatLiteral l)
  with assms show ?case by (auto simp: matchers_agree_def intro!: agreement)
next
  case (PatList ps r sp)
  then show ?case by (auto simp: list.rel_map intro!: agrees_match_list list.rel_refl_strong)
next
  case (PatNominalRecord q fs sp)
  then show ?case
    by (auto intro!: agrees_match_record) (meson pattern_field.set_sel)
next
  case (PatVariant q ps sp)
  then show ?case by (auto simp: list.rel_map intro!: agrees_match_variant list.rel_refl_strong)
qed (auto simp: matchers_agree_def intro!: agreement)

lemma agrees_pattern_matches [agreement]:
  assumes "methods_agree R any policy n M M'" and "cx_policy cx = policy"
  shows "agrees R any n (pattern_matches M cx m p v t) (pattern_matches M' cx m p v t)"
  using agrees_pattern [OF assms] by (simp add: matchers_agree_def)

section \<open>Chains\<close>

lemma agrees_conditions [agreement]:
  "agrees R any n (expect_logic_condition cx v sp) (expect_logic_condition cx v sp)"
  "agrees R any n (expect_logic_bool cx v sp) (expect_logic_bool cx v sp)"
  "agrees R any n (expect_condition cx v sp) (expect_condition cx v sp)"
  by (auto simp: expect_logic_condition_def expect_logic_bool_def expect_condition_def intro!: agreement
    split: val.split)

lemma agrees_stage [agreement]: "agrees R any n (operation_stage cx st v) (operation_stage cx st v)"
  by (auto simp: operation_stage_def intro!: agreement split: expression_kind.split)

lemma agrees_pipeline [agreement]:
  assumes "methods_agree R any policy n M M'" and "cx_policy cx = policy"
  shows "agrees R any n (eval_pipeline M cx p t) (eval_pipeline M' cx p t)"
  using assms by (auto simp: eval_pipeline_def Let_def intro!: agreement)

lemma agrees_operands:
  assumes "methods_agree R any policy n M M'" and "cx_policy cx = policy"
  shows "agrees R any n (and_operands M cx ps v sp) (and_operands M' cx ps v sp)"
  using assms by (induction ps arbitrary: v sp) (auto intro!: agreement)

lemma agrees_and_chain [agreement]:
  assumes "methods_agree R any policy n M M'" and "cx_policy cx = policy"
  shows "agrees R any n (eval_and_chain M cx c t) (eval_and_chain M' cx c t)"
  using assms by (auto simp: eval_and_chain_def intro!: agreement agrees_operands)

lemma agrees_or_operands:
  assumes "methods_agree R any policy n M M'" and "cx_policy cx = policy"
  shows "agrees R any n (or_operands M cx cs v sp) (or_operands M' cx cs v sp)"
  using assms by (induction cs arbitrary: v sp) (auto intro!: agreement)

lemma agrees_chain [agreement]:
  assumes "methods_agree R any policy n M M'" and "cx_policy cx = policy"
  shows "agrees R any n (eval_chain M cx c t) (eval_chain M' cx c t)"
  using assms by (auto simp: eval_chain_def intro!: agreement agrees_or_operands)

lemma agrees_condition [agreement]:
  assumes "methods_agree R any policy n M M'" and "cx_policy cx = policy"
  shows "agrees R any n (condition M cx c) (condition M' cx c)"
  using assms by (auto simp: condition_def intro!: agreement)

section \<open>Sequences and callables\<close>

lemma agrees_job [agreement]:
  assumes "methods_agree R any policy n M M'" and "cx_policy cx = policy"
  shows "agrees R any n (job_flow M cx c bg sp t) (job_flow M' cx c bg sp t)"
  using assms by (auto simp: job_flow_def intro!: agreement)

lemma agrees_statements [agreement]:
  assumes "methods_agree R any policy n M M'" and "cx_policy cx = policy"
  shows "agrees R any n (statements M cx sts) (statements M' cx sts)"
  using assms by (induction sts) (auto intro!: agreement split: flow.split)

lemma agrees_block [agreement]:
  assumes "methods_agree R any policy n M M'" and "cx_policy cx = policy"
  shows "agrees R any n (block_flow M cx b) (block_flow M' cx b)"
  using assms by (auto simp: block_flow_def intro!: agreement)

lemma agrees_body_statement [agreement]:
  assumes "methods_agree R any policy n M M'" and "cx_policy cx = policy"
  shows "agrees R any n (body_statement M cx final st) (body_statement M' cx final st)"
  using assms by (auto simp: body_statement_def intro!: agreement split: statement_kind.split)

lemma agrees_body_statements [agreement]:
  assumes "methods_agree R any policy n M M'" and "cx_policy cx = policy"
  shows "agrees R any n (body_statements M cx l sts) (body_statements M' cx l sts)"
  using assms by (induction sts arbitrary: l) (auto intro!: agreement split: flow.split)

lemma agrees_callables [agreement]:
  "agrees R any n (location_text cx sp) (location_text cx sp)"
  "agrees R any n (resolve_parameter cx ss p ps) (resolve_parameter cx ss p ps)"
  "agrees R any n (parameters cx ps' ss) (parameters cx ps' ss)"
  "agrees R any n (function_definition cx i ps' body) (function_definition cx i ps' body)"
  "agrees R any n (make_closure cx c) (make_closure cx c)"
  by (auto simp: location_text_def resolve_parameter_def parameters_def function_definition_def
    make_closure_def Let_def intro!: agreement)

lemma agrees_bind_parameter [agreement]:
  assumes "methods_agree R any policy n M M'" and "cx_policy cx = policy"
  shows "agrees R any n (bind_parameter M cx subst x) (bind_parameter M' cx subst x)"
  using assms by (auto simp: bind_parameter_def Let_def intro!: agreement)

lemma agrees_run_body [agreement]:
  assumes "methods_agree R any policy n M M'" and "cx_policy cx = policy"
  shows "agrees R any n (run_body M cx b) (run_body M' cx b)"
  using assms by (auto simp: run_body_def intro!: agreement split: callable_body.split)

lemma agrees_body_result [agreement]: "agrees R any n (body_result cx b f) (body_result cx b f)"
  by (auto simp: body_result_def Let_def intro!: agreement split: flow.split)

lemma agrees_run_call [agreement]:
  assumes "methods_agree R any policy n M M'" and "cx_policy cx = policy"
  shows "agrees R any n (run_call M cx i f args sp ts t) (run_call M' cx i f args sp ts t)"
  using assms by (auto simp: run_call_def Let_def intro!: agreement)

section \<open>Expressions\<close>

lemma agrees_constraints [agreement]:
  "agrees R any n (validate_nominal_constraints cx nm ts sp) (validate_nominal_constraints cx nm ts sp)"
  by (auto simp: validate_nominal_constraints_def intro!: agreement)

lemma agrees_field [agreement]:
  assumes "methods_agree R any policy n M M'" and "cx_policy cx = policy"
  shows "agrees R any n (evaluate_field M cx nm subst f es) (evaluate_field M' cx nm subst f es)"
  using assms by (auto simp: evaluate_field_def intro!: agreement)

lemma agrees_nominal_record [agreement]:
  assumes "methods_agree R any policy n M M'" and "cx_policy cx = policy"
  shows "agrees R any n (nominal_record M cx q fs sp t) (nominal_record M' cx q fs sp t)"
  using assms by (auto simp: nominal_record_def Let_def intro!: agreement)

lemma agrees_qualified [agreement]:
  "agrees R any n (qualified_value cx q sp t) (qualified_value cx q sp t)"
  by (auto simp: qualified_value_def Let_def intro!: agreement split: value_type.split)

lemma agrees_payload [agreement]:
  assumes "methods_agree R any policy n M M'" and "cx_policy cx = policy"
  shows "agrees R any n (payload_values M cx es ts subst) (payload_values M' cx es ts subst)"
  using assms by (induction M cx es ts subst rule: payload_values.induct) (auto intro!: agreement)

lemma agrees_variant [agreement]:
  assumes "methods_agree R any policy n M M'" and "cx_policy cx = policy"
  shows "agrees R any n (variant_value M cx q targs args sp t) (variant_value M' cx q targs args sp t)"
  using assms by (auto simp: variant_value_def Let_def intro!: agreement)

lemma agrees_glob [agreement]:
  "agrees R any n (glob_directory cx sp) (glob_directory cx sp)"
  "agrees R any n (expand_segments cx sp ss path) (expand_segments cx sp ss path)"
  "agrees R any n (glob_value cx v sp) (glob_value cx v sp)"
proof -
  show directory: "agrees R any n (glob_directory cx sp) (glob_directory cx sp)" for cx sp
    by (auto simp: glob_directory_def intro!: agreement)
  show segments: "agrees R any n (expand_segments cx sp ss path) (expand_segments cx sp ss path)" for cx sp ss path
    by (induction cx sp ss path rule: expand_segments.induct) (auto intro!: agreement directory)
  show "agrees R any n (glob_value cx v sp) (glob_value cx v sp)"
    by (auto simp: glob_value_def intro!: agreement segments split: evaluation_policy.split val.split)
qed

lemma agrees_operation_call [agreement]:
  assumes "methods_agree R any policy n M M'" and "cx_policy cx = policy"
  shows "agrees R any n (operation_call M cx q targs args sp) (operation_call M' cx q targs args sp)"
  using assms by (auto simp: operation_call_def intro!: agreement)

lemma agrees_read_environment [agreement]:
  "agrees R any n (read_environment cx v sp sp') (read_environment cx v sp sp')"
  by (auto simp: read_environment_def intro!: agreement split: val.split)

lemma agrees_intrinsic [agreement]:
  assumes "methods_agree R any policy n M M'" and "cx_policy cx = policy"
  shows "agrees R any n (intrinsic_call M cx i args sp) (intrinsic_call M' cx i args sp)"
  using assms by (auto simp: intrinsic_call_def intro!: agreement split: expression_intrinsic.split)

lemma agrees_callee [agreement]:
  assumes "methods_agree R any policy n M M'" and "cx_policy cx = policy"
  shows "agrees R any n (callee_value M cx e) (callee_value M' cx e)"
  using assms by (auto simp: callee_value_def intro!: agreement split: expression_kind.split)

lemma agrees_arguments [agreement]:
  assumes "methods_agree R any policy n M M'" and "cx_policy cx = policy"
  shows "agrees R any n (argument_values M cx infer es ps subst) (argument_values M' cx infer es ps subst)"
  using assms by (induction M cx infer es ps subst rule: argument_values.induct) (auto intro!: agreement)

lemma agrees_callable_call [agreement]:
  assumes "methods_agree R any policy n M M'" and "cx_policy cx = policy"
  shows "agrees R any n (callable_call M cx e targs args sp t) (callable_call M' cx e targs args sp t)"
  using assms by (auto simp: callable_call_def Let_def intro!: agreement split: val.split)

lemma agrees_or_else [agreement]:
  "agrees R any n m m' \<Longrightarrow> agrees R any n k k' \<Longrightarrow> agrees R any n (or_else_value m k) (or_else_value m' k')"
  by (auto simp: or_else_value_def intro!: agreement)

lemma agrees_call [agreement]:
  assumes "methods_agree R any policy n M M'" and "cx_policy cx = policy"
  shows "agrees R any n (call M cx e targs args sp t) (call M' cx e targs args sp t)"
  using assms by (auto simp: call_def Let_def intro!: agreement split: expression_kind.split)

lemma agrees_operators [agreement]:
  "agrees R any n (binary_value cx bop l r sp) (binary_value cx bop l r sp)"
  "agrees R any n (unary cx uop v sp) (unary cx uop v sp)"
  by (cases bop; cases uop; auto simp: binary_value_def unary_def Let_def intro!: agreement)+

lemma agrees_entry [agreement]:
  assumes "methods_agree R any policy n M M'" and "cx_policy cx = policy"
  shows "agrees R any n (record_entry_value M cx x) (record_entry_value M' cx x)"
  using assms by (auto simp: record_entry_value_def intro!: agreement)

lemma agrees_value:
  assumes "methods_agree R any policy n M M'" and "cx_policy cx = policy"
  shows "agrees R any n (expression_value M cx e t) (expression_value M' cx e t)"
  using assms by (cases "node_kind e") (auto simp: expression_value_def Let_def intro!: agreement)

lemma agrees_expression:
  assumes "methods_agree R any policy n M M'" and "cx_policy cx = policy"
  shows "agrees R any (Suc n) (expression_with_expected M cx e t) (expression_with_expected M' cx e t)"
    and "charges any (Suc n) (expression_with_expected M cx e t)"
  using agrees_value [OF assms] by (auto simp: expression_with_expected_def intro!: agrees_charge charges_charge)

section \<open>Statements\<close>

lemma agrees_declare [agreement]:
  "agrees R any n (declare_named cx i m v t sp) (declare_named cx i m v t sp)"
  by (auto simp: declare_named_def intro!: agreement)

lemma agrees_declaration [agreement]:
  assumes "methods_agree R any policy n M M'" and "cx_policy cx = policy"
  shows "agrees R any n (declaration_step M cx is_mut p i a e) (declaration_step M' cx is_mut p i a e)"
  using assms by (auto simp: declaration_step_def Let_def simp del: pattern_matches.simps intro!: agreement split: pattern.split)

lemma agrees_assignment [agreement]:
  assumes "methods_agree R any policy n M M'" and "cx_policy cx = policy"
  shows "agrees R any n (assignment M cx x e) (assignment M' cx x e)"
  using assms by (auto simp: assignment_def intro!: agreement)

lemma agrees_environment [agreement]:
  assumes "methods_agree R any policy n M M'" and "cx_policy cx = policy"
  shows "agrees R any n (environment_step M cx st) (environment_step M' cx st)"
  using assms by (auto simp: environment_step_def intro!: agreement split: environment_statement.split)

lemma agrees_if [agreement]:
  fixes st :: "statement if_statement"
  assumes "methods_agree R any policy n M M'" and "cx_policy cx = policy"
  shows "agrees R any n (if_flow M cx st) (if_flow M' cx st)"
proof (induction st rule: if_statement.induct
    [where ?P2.0 = "\<lambda>eb. agrees R any n (else_statement M cx eb) (else_statement M' cx eb)"])
  case (IfStatement c b eb)
  with assms show ?case by (cases eb) (auto intro!: agreement)
next
  case (ElseIf node)
  then show ?case by (auto simp: ast_node.map_sel ast_node.set_sel)
qed (use assms in \<open>auto intro!: agreement\<close>)

text \<open>A round of \<open>while\<close> charges a step in its condition.\<close>

lemma charges_failure:
  "charges any n (fail_at cx kind sp)" "charges any n epanic"
  by (simp_all add: charges_def fail_at_def eraise_def epanic_def)

lemma ebind_known: "ebind (eexpect (Some x)) f = f x"
  by (simp add: ebind_def eexpect_def eret_def)

lemma charges_pipeline:
  assumes "methods_agree R any policy n M M'" and "cx_policy cx = policy"
  shows "charges any n (eval_pipeline M cx p t)"
proof -
  have stages: "charges any n (ebind (ms_expression M cx e None) (efold (operation_stage cx) sts))" for e sts
    by (rule charges_ebind [OF charges_expression [OF assms]]) (auto intro!: agreement)
  show ?thesis
    using charges_expression [OF assms] stages
    by (auto simp: eval_pipeline_def Let_def ebind_known charges_failure split: option.split list.split)
qed

lemma charges_condition:
  assumes M: "methods_agree R any policy n M M'" and cx: "cx_policy cx = policy"
  shows "charges any n (condition M cx c)"
proof -
  note M = methods_self [OF M] cx
  have "charges any n (eval_and_chain M cx ac t)" for ac t
    using charges_pipeline [OF M]
    by (auto simp: eval_and_chain_def charges_failure simp del: and_operands.simps intro!: charges_ebind agrees_operands M split: list.split)
  then have "charges any n (eval_chain M cx c None)"
    by (auto simp: eval_chain_def charges_failure simp del: or_operands.simps intro!: charges_ebind agrees_or_operands M split: list.split)
  then show ?thesis unfolding condition_def by (rule charges_ebind) (rule agreement)
qed

text \<open>A method behind a charging one has a step less to use.\<close>

lemma agrees_after:
  assumes m: "agrees R any n m m'" "charges any n m" and k: "k < n"
    and f: "\<And>x. agrees R any k (f x) (f' x)"
  shows "agrees R any (Suc k) (ebind m f) (ebind m' f')"
proof (rule agreesI)
  fix s assume s: "steps_within any (Suc k) s"
  have "steps_within any n s" using s by (rule steps_within_mono) (use k in simp)
  note D = agreesD [OF m(1) this]
  show "case ebind m f s of Ended (r, s') \<Rightarrow> R s s' \<and> ebind m' f' s = ebind m f s
    | Panicked \<Rightarrow> ebind m' f' s = Panicked | Exhausted \<Rightarrow> any"
  proof (cases "\<exists>x s1. m s = Ended (Inr x, s1)")
    case True
    then obtain x s1 where x: "m s = Ended (Inr x, s1)" by blast
    have "steps_within any k s1" using m(2) k s x unfolding charges_def by blast
    note E = agreesD [OF f [of x] this]
    show ?thesis using x D E trans [OF D(1) [OF x]] by (cases "f x s1") (auto simp: ebind_def)
  qed (use D in \<open>auto simp: ebind_def split: fate.split sum.split\<close>)
qed

lemma agrees_while:
  assumes "methods_agree R any policy n M M'" and "cx_policy cx = policy" and "k \<le> n" and "k \<le> k'"
  shows "agrees R any k (while_rounds k M cx c body) (while_rounds k' M' cx c body)"
  using assms(3,4)
proof (induction k arbitrary: k')
  case 0
  then show ?case by (simp add: agrees_exhausted)
next
  case (Suc k)
  then obtain j where j: "k' = Suc j" "k \<le> j" by (cases k') auto
  have "agrees R any k (block_flow M cx body) (block_flow M' cx body)"
    using agrees_block [OF assms(1,2)] by (rule agrees_less) (use Suc.prems in simp)
  with Suc j show ?case
    by (auto intro!: agreement agrees_after [OF agrees_condition [OF assms(1,2)] charges_condition [OF assms(1,2)]])
qed

lemma agrees_iteration [agreement]:
  assumes "methods_agree R any policy n M M'" and "cx_policy cx = policy"
  shows "agrees R any n (iteration M cx name body v) (iteration M' cx name body v)"
  using assms by (auto simp: iteration_def intro!: agreement)

lemma agrees_for_items [agreement]:
  assumes "methods_agree R any policy n M M'" and "cx_policy cx = policy"
  shows "agrees R any n (for_items M cx name body sp vs) (for_items M' cx name body sp vs)"
  using assms by (induction vs) (auto intro!: agreement)

text \<open>The rounds of a range are enough for it: the distance from the end grows less in each.\<close>

lemma agrees_for_range:
  assumes "methods_agree R any policy n M M'" and "cx_policy cx = policy"
    and "nat (sint (range_end r) + 1 - sint i) < k"
  shows "agrees R any n (for_range k M cx name body sp r i) (for_range k M' cx name body sp r i)"
  using assms(3)
proof (induction k arbitrary: i)
  case (Suc k)
  show ?case
  proof (cases "range_contains r i")
    case True
    have "agrees R any n (for_range k M cx name body sp r j) (for_range k M' cx name body sp r j)"
      if "checked_i64 (sint i + 1) = Some j" for j
    proof (rule Suc.IH)
      from that have "sint j = sint i + 1" by (simp add: checked_i64_eq_Some)
      with True Suc.prems show "nat (sint (range_end r) + 1 - sint j) < k"
        by (cases r) (auto split: if_splits)
    qed
    with assms(1,2) True show ?thesis by (auto intro!: agreement)
  qed (auto intro!: agreement)
qed simp

lemma agrees_for [agreement]:
  assumes "methods_agree R any policy n M M'" and "cx_policy cx = policy"
  shows "agrees R any n (for_statement M cx i e body) (for_statement M' cx i e body)"
  using assms
  by (auto simp: for_statement_def range_rounds_def simp del: for_range.simps
    intro!: agreement agrees_for_range split: val.split)

lemma agrees_arm [agreement]:
  assumes "methods_agree R any policy n M M'" and "cx_policy cx = policy"
  shows "agrees R any n (arm M cx v a) (arm M' cx v a)"
  using assms by (auto simp: arm_def intro!: agreement)

lemma agrees_arms [agreement]:
  assumes "methods_agree R any policy n M M'" and "cx_policy cx = policy"
  shows "agrees R any n (arms M cx v sp as) (arms M' cx v sp as)"
  using assms by (induction as) (auto intro!: agreement)

lemma agrees_try [agreement]:
  assumes "methods_agree R any policy n M M'" and "cx_policy cx = policy"
  shows "agrees R any n (try_statement M cx b i h) (try_statement M' cx b i h)"
  using assms by (auto simp: try_statement_def intro!: agreement)

lemma agrees_throw [agreement]:
  assumes "methods_agree R any policy n M M'" and "cx_policy cx = policy"
  shows "agrees R any n (throw_statement M cx e) (throw_statement M' cx e)"
  using assms by (auto simp: throw_statement_def intro!: agreement split: val.split)

lemma agrees_control [agreement]:
  assumes "methods_agree R any policy n M M'" and "cx_policy cx = policy"
  shows "agrees R any n (control_statement M cx c sp) (control_statement M' cx c sp)"
  using assms by (auto simp: control_statement_def intro!: agreement split: control_transfer.split)

lemma agrees_no_flow [agreement]: "agrees R any n m m' \<Longrightarrow> agrees R any n (no_flow m) (no_flow m')"
  by (auto simp: no_flow_def intro!: agreement)

lemma agrees_module [agreement]:
  "agrees R any n (module_statement cx versioned sp) (module_statement cx versioned sp)"
  by (auto simp: module_statement_def intro!: agreement)

lemma agrees_flow:
  assumes M: "methods_agree R any policy n M M'" and "cx_policy cx = policy"
  shows "agrees R any n (statement_flow M cx st) (statement_flow M' cx st)"
proof -
  have "agrees R any n (while_rounds (ms_rounds M) M cx c b) (while_rounds (ms_rounds M') M' cx c b)" for c b
    by (rule agrees_while [OF assms, THEN agrees_less])
       (use M in \<open>simp_all add: methods_agree_def\<close>)
  with assms show ?thesis
    by (cases "node_kind st") (auto simp: statement_flow_def Let_def intro!: agreement)
qed

lemma agrees_statement:
  assumes "methods_agree R any policy n M M'" and "cx_policy cx = policy"
  shows "agrees R any (Suc n) (statement M cx st) (statement M' cx st)"
  using agrees_flow [OF assms] by (auto simp: statement_def intro!: agrees_charge)

section \<open>Levels\<close>

theorem agrees_level: "n \<le> m \<Longrightarrow> methods_agree R any policy n (level n) (level m)"
proof (induction n arbitrary: m)
  case 0
  then show ?case by (simp add: methods_agree_def agrees_exhausted charges_def)
next
  case (Suc n)
  then obtain k where k: "m = Suc k" "n \<le> k" by (cases m) auto
  note M = Suc.IH [OF k(2)]
  show ?case
    unfolding methods_agree_def k(1) level.simps Let_def methods.simps
    using k(2) agrees_statement [OF M] agrees_expression [OF M] agrees_expand_part [OF M] by simp
qed

lemma agrees_script:
  assumes "methods_agree R any policy n M M'" and "cx_policy cx = policy"
  shows "agrees R any n (script_rounds M cx v sts) (script_rounds M' cx v sts)"
  using assms by (induction sts arbitrary: v)
    (auto simp: outside_def intro!: agreement split: flow.split)

end

end
