(* ===== verification/Eval_Laws.thy ===== *)
theory Eval_Laws
  imports Eval_Methods
begin

text \<open>
  The relations that the evaluator keeps: its budget only grows and stays within its limits, the scope of the
  caller keeps its bindings and their types, and with the policy of Flash 2 the environment stays as it is.
  Each is an interpretation of \<open>evaluation_relation\<close>, and the properties follow for whole scripts.
\<close>

section \<open>The budget\<close>

definition budget_ok :: "budget \<Rightarrow> bool" where
  "budget_ok b \<longleftrightarrow>
     \<not> exceeds (bg_step_limit b) (bg_used_steps b) \<and> \<not> exceeds (bg_call_depth_limit b) (bg_peak_call_depth b) \<and>
     bg_call_depth b \<le> bg_peak_call_depth b \<and>
     \<not> exceeds (bg_item_limit b) (bg_items b) \<and> \<not> exceeds (bg_byte_limit b) (bg_bytes b)"

text \<open>The same limits, no less used, and the same depth of calls.\<close>

definition budget_grows :: "budget \<Rightarrow> budget \<Rightarrow> bool" where
  "budget_grows b c \<longleftrightarrow>
     bg_step_limit c = bg_step_limit b \<and> bg_call_depth_limit c = bg_call_depth_limit b \<and>
     bg_item_limit c = bg_item_limit b \<and> bg_byte_limit c = bg_byte_limit b \<and>
     bg_used_steps b \<le> bg_used_steps c \<and> bg_peak_call_depth b \<le> bg_peak_call_depth c \<and>
     bg_items b \<le> bg_items c \<and> bg_bytes b \<le> bg_bytes c \<and>
     bg_call_depth c = bg_call_depth b"

definition budget_kept :: "budget \<Rightarrow> budget \<Rightarrow> bool" where
  "budget_kept b c \<longleftrightarrow> budget_grows b c \<and> (budget_ok b \<longrightarrow> budget_ok c)"

lemma budget_kept_refl: "budget_kept b b"
  by (simp add: budget_kept_def budget_grows_def)

lemma budget_kept_trans: "budget_kept b c \<Longrightarrow> budget_kept c d \<Longrightarrow> budget_kept b d"
  by (auto simp: budget_kept_def budget_grows_def)

lemma budget_charge_kept: "budget_charge b = Some c \<Longrightarrow> budget_kept b c"
  by (auto simp: budget_charge_def budget_kept_def budget_grows_def budget_ok_def exceeds_def
    split: option.splits if_splits)

lemma budget_items_kept: "charge_collection_items k b = Some c \<Longrightarrow> budget_kept b c"
  by (auto simp: charge_collection_items_def Let_def budget_kept_def budget_grows_def budget_ok_def
    split: if_splits)

lemma budget_bytes_kept: "charge_collection_bytes k b = Some c \<Longrightarrow> budget_kept b c"
  by (auto simp: charge_collection_bytes_def Let_def budget_kept_def budget_grows_def budget_ok_def
    split: if_splits)

lemma exceeds_max: "exceeds l (max a b) \<longleftrightarrow> exceeds l a \<or> exceeds l b"
  by (auto simp: exceeds_def split: option.split)

lemma budget_call_kept:
  assumes "budget_enter_call b = Some c" and "budget_kept c d" and "budget_leave_call d = Some e"
  shows "budget_kept b e"
  using assms
  by (auto simp: budget_enter_call_def budget_leave_call_def Let_def budget_kept_def budget_grows_def budget_ok_def
    exceeds_max split: if_splits)

interpretation budget_law: evaluation_relation "\<lambda>s s'. budget_kept (ev_budget s) (ev_budget s')" any policy
  for any policy
proof
  show "budget_kept (ev_budget s) (ev_budget s'')"
    if "budget_kept (ev_budget s) (ev_budget s')" "budget_kept (ev_budget s') (ev_budget s'')" for s s' s''
    using that by (rule budget_kept_trans)
  show "steps_within any n s'" if "budget_kept (ev_budget s) (ev_budget s')" "steps_within any n s" for s s' n
    using that by (auto simp: budget_kept_def budget_grows_def steps_within_def)
qed (auto simp: budget_kept_refl intro: budget_charge_kept budget_items_kept budget_bytes_kept budget_call_kept)

section \<open>The scope\<close>

text \<open>A binding keeps its mutability and its type, and its value unless it is mutable.\<close>

fun binding_kept :: "binding \<Rightarrow> binding \<Rightarrow> bool" where
  "binding_kept (Binding m t v) (Binding m' t' v') \<longleftrightarrow> m' = m \<and> t' = t \<and> (m = Immutable \<longrightarrow> v' = v)"

definition frame_kept :: "scope_frame \<Rightarrow> scope_frame \<Rightarrow> bool" where
  "frame_kept f g \<longleftrightarrow> list_all2 (\<lambda>(n, b) (k, c). n = k \<and> binding_kept b c) f g"

text \<open>The frames around the last one keep their bindings; the last one may also have new ones.\<close>

definition scope_kept :: "scope_stack \<Rightarrow> scope_stack \<Rightarrow> bool" where
  "scope_kept s t \<longleftrightarrow>
     length t = length s \<and> list_all2 frame_kept (butlast s) (butlast t) \<and>
     (s \<noteq> [] \<longrightarrow> frame_kept (last s) (take (length (last s)) (last t)))"

text \<open>The names of a frame are distinct, and a binding with a type has a value of it.\<close>

definition binding_ok :: "binding \<Rightarrow> bool" where
  "binding_ok b \<longleftrightarrow> (case bi_type b of None \<Rightarrow> True | Some t \<Rightarrow> accepts t (bi_value b))"

definition frame_ok :: "scope_frame \<Rightarrow> bool" where
  "frame_ok f \<longleftrightarrow> distinct (map fst f) \<and> (\<forall>(n, b) \<in> set f. binding_ok b)"

definition scope_ok :: "scope_stack \<Rightarrow> bool" where
  "scope_ok s \<longleftrightarrow> (\<forall>f \<in> set s. frame_ok f)"

lemma binding_kept_refl: "binding_kept b b"
  by (cases b) simp

lemma binding_kept_trans: "binding_kept b c \<Longrightarrow> binding_kept c d \<Longrightarrow> binding_kept b d"
  by (cases b; cases c; cases d) auto

lemma frame_kept_refl: "frame_kept f f"
  by (auto simp: frame_kept_def binding_kept_refl intro!: list.rel_refl_strong)

lemma frame_kept_trans: "frame_kept f g \<Longrightarrow> frame_kept g h \<Longrightarrow> frame_kept f h"
  unfolding frame_kept_def
  by (erule (1) list_all2_trans [rotated]) (auto intro: binding_kept_trans)

lemma frame_kept_length: "frame_kept f g \<Longrightarrow> length g = length f"
  by (simp add: frame_kept_def list_all2_lengthD)

lemma frame_kept_take: "frame_kept f g \<Longrightarrow> frame_kept (take n f) (take n g)"
  by (simp add: frame_kept_def list_all2_takeI)

lemma scope_kept_refl: "scope_kept s s"
  by (simp add: scope_kept_def frame_kept_refl list.rel_refl_strong)

lemma scope_kept_trans:
  assumes "scope_kept s t" and "scope_kept t u"
  shows "scope_kept s u"
proof -
  have "list_all2 frame_kept (butlast s) (butlast u)"
    using list_all2_trans [of frame_kept frame_kept frame_kept, OF frame_kept_trans] assms
    by (auto simp: scope_kept_def)
  moreover have "frame_kept (last s) (take (length (last s)) (last u))" if s: "s \<noteq> []"
  proof -
    let ?n = "length (last s)"
    have 1: "frame_kept (last s) (take ?n (last t))" using assms(1) s by (simp add: scope_kept_def)
    have "t \<noteq> []" using assms(1) s by (auto simp: scope_kept_def)
    then have "frame_kept (take ?n (last t)) (take ?n (take (length (last t)) (last u)))"
      using assms(2) by (intro frame_kept_take) (simp add: scope_kept_def)
    moreover have "?n \<le> length (last t)" using frame_kept_length [OF 1] by simp
    ultimately show ?thesis using frame_kept_trans [OF 1] by (simp add: min_absorb1)
  qed
  ultimately show ?thesis using assms by (simp add: scope_kept_def)
qed

lemma scope_declared:
  assumes "declare_typed name m v t s = Some (Inr s')"
  shows "scope_kept s s'" and "scope_ok s \<Longrightarrow> scope_ok s'"
proof -
  from assms have s: "s \<noteq> []" and n: "name \<notin> fst ` set (last s)" and t: "binding_ok (Binding m t v)"
    and s': "s' = butlast s @ [last s @ [(name, Binding m t v)]]"
    by (auto simp: declare_typed_def binding_ok_def split: if_splits option.splits)
  show "scope_kept s s'" using s by (simp add: s' scope_kept_def frame_kept_refl list.rel_refl_strong)
  assume ok: "scope_ok s"
  then have "frame_ok (last s)" using s by (simp add: scope_ok_def)
  then have "frame_ok (last s @ [(name, Binding m t v)])" using n t by (auto simp: frame_ok_def)
  with ok show "scope_ok s'" by (auto simp: s' scope_ok_def dest: in_set_butlastD)
qed

lemma update_first_kept:
  assumes "map_of f name = Some b" and "binding_kept b c"
  shows "frame_kept f (update_first name c f)"
  using assms frame_kept_refl
  by (induction f) (auto simp: frame_kept_def binding_kept_refl split: if_splits)

lemma update_first_ok:
  assumes "frame_ok f" and "binding_ok c"
  shows "frame_ok (update_first name c f)"
proof -
  have "map fst (update_first name c f) = map fst f" by (induction f) auto
  moreover have "\<forall>(k, b) \<in> set (update_first name c f). binding_ok b"
    using assms by (induction f) (auto simp: frame_ok_def split: if_splits)
  ultimately show ?thesis using assms by (simp add: frame_ok_def)
qed

lemma assign_frames_kept:
  assumes "assign_frames name v fs = Inr gs"
  shows "list_all2 frame_kept fs gs \<and> ((\<forall>f \<in> set fs. frame_ok f) \<longrightarrow> (\<forall>g \<in> set gs. frame_ok g))"
  using assms
proof (induction fs arbitrary: gs)
  case (Cons f fs)
  show ?case
  proof (cases "map_of f name")
    case None
    with Cons show ?thesis by (auto simp: and_then_def frame_kept_refl split: sum.splits)
  next
    case (Some b)
    with Cons.prems obtain c where c: "assign_binding name v b = Inr c" "gs = update_first name c f # fs"
      by (auto simp: and_then_def split: sum.splits)
    from c(1) have "binding_kept b c" "binding_ok c"
      by (cases b; auto simp: assign_binding_def binding_ok_def split: if_splits option.splits)+
    with Some c(2) show ?thesis
      by (auto simp: update_first_kept update_first_ok frame_kept_refl intro!: list.rel_refl_strong)
  qed
qed simp

lemma list_all2_scope_kept: "list_all2 frame_kept s t \<Longrightarrow> scope_kept s t"
proof (cases s rule: rev_cases)
  case (snoc fs f)
  assume kept: "list_all2 frame_kept s t"
  with snoc obtain gs g where t: "t = gs @ [g]" "length fs = length gs"
    by (cases t rule: rev_cases) (auto dest: list_all2_lengthD)
  with kept snoc have "list_all2 frame_kept fs gs" "frame_kept f g" by (simp_all add: list_all2_append)
  then show ?thesis using snoc t by (simp add: scope_kept_def frame_kept_length [symmetric])
qed (simp add: scope_kept_def)

lemma scope_assigned:
  assumes "assign name v s = Inr s'"
  shows "scope_kept s s'" and "scope_ok s \<Longrightarrow> scope_ok s'"
proof -
  from assms obtain gs where gs: "assign_frames name v (rev s) = Inr gs" "s' = rev gs"
    by (auto simp: assign_def and_then_def split: sum.splits)
  note kept = assign_frames_kept [OF gs(1)]
  show "scope_kept s s'"
    using kept gs(2) by (intro list_all2_scope_kept) (metis list_all2_rev rev_rev_ident)
  show "scope_ok s \<Longrightarrow> scope_ok s'" using kept gs(2) by (simp add: scope_ok_def)
qed

lemma scope_framed:
  assumes "scope_kept (scope_push s) t" and "scope_pop t = Inr u"
  shows "scope_kept s u" and "scope_ok t \<Longrightarrow> scope_ok u"
proof -
  have u: "u = butlast t" using assms(2) by (simp add: scope_pop_def split: if_splits)
  show "scope_kept s u" using assms(1) by (intro list_all2_scope_kept) (simp add: u scope_kept_def scope_push_def)
  show "scope_ok t \<Longrightarrow> scope_ok u" by (auto simp: u scope_ok_def dest: in_set_butlastD)
qed

lemma scope_ok_push: "scope_ok s \<Longrightarrow> scope_ok (scope_push s)"
  by (simp add: scope_ok_def scope_push_def frame_ok_def)

definition scope_law :: "scope_stack \<Rightarrow> scope_stack \<Rightarrow> bool" where
  "scope_law s t \<longleftrightarrow> scope_kept s t \<and> (scope_ok s \<longrightarrow> scope_ok t)"

interpretation scope_law: evaluation_relation "\<lambda>s s'. scope_law (ev_scope s) (ev_scope s')" True policy
  for policy
proof
  show "scope_law (ev_scope s) (ev_scope s'')"
    if "scope_law (ev_scope s) (ev_scope s')" "scope_law (ev_scope s') (ev_scope s'')" for s s' s''
    using that by (auto simp: scope_law_def intro: scope_kept_trans)
  show "scope_law (ev_scope s) (ev_scope (s'\<lparr>ev_scope := sc\<rparr>))"
    if "scope_law (ev_scope (s\<lparr>ev_scope := scope_push (ev_scope s)\<rparr>)) (ev_scope s')"
      "scope_pop (ev_scope s') = Inr sc" for s s' sc
    using that scope_framed [of "ev_scope s" "ev_scope s'" sc] by (simp add: scope_law_def scope_ok_push)
qed (auto simp: scope_law_def scope_kept_refl steps_within_def dest: scope_declared scope_assigned)

section \<open>The environment\<close>

interpretation environment_law:
  evaluation_relation "\<lambda>s s'. ev_environment s' = ev_environment s" True PolicyPureV2
  by unfold_locales (simp_all add: steps_within_def)

section \<open>Whole scripts\<close>

definition evaluated ::
  "nat \<Rightarrow> (scalar \<Rightarrow> bool) \<Rightarrow> script \<Rightarrow> source_file \<Rightarrow> runtime_binding_types \<Rightarrow> eval_limits \<Rightarrow> evaluation
   \<Rightarrow> ((abort + val) \<times> evaluation) fate" where
  "evaluated n plain s src types limits st =
     script_rounds (level n) (initial_context plain src types limits) VNull (script_statements s) st"

lemma evaluate_in_environment_evaluated:
  "evaluate_in_environment n plain s src types limits sc env next =
     completed (evaluated n plain s src types limits (initial_evaluation sc env limits next))"
  by (simp add: evaluate_in_environment_def evaluated_def)

lemma policy_initial [simp]: "cx_policy (initial_context plain src types limits) = el_policy limits"
  by (simp add: initial_context_def)

lemma completed_Ended: "completed x = Ended (c, s') \<Longrightarrow> \<exists>r. x = Ended (r, s')"
  by (auto simp: completed_def split: fate.splits option.splits)

lemma completed_Exhausted: "completed x = Exhausted \<longleftrightarrow> x = Exhausted"
  by (auto simp: completed_def split: fate.splits option.splits)

lemma evaluated_agrees:
  assumes "n \<le> m"
  shows "agrees (\<lambda>s s'. budget_kept (ev_budget s) (ev_budget s')) any n
    (evaluated n plain s src types limits) (evaluated m plain s src types limits)"
  unfolding evaluated_def [abs_def]
  by (rule budget_law.agrees_script [OF budget_law.agrees_level [OF assms]]) simp

lemma evaluated_budget:
  "evaluated n plain s src types limits st = Ended (r, st') \<Longrightarrow> budget_kept (ev_budget st) (ev_budget st')"
  by (rule agreesD(1) [OF evaluated_agrees [of n n True]]) (simp_all add: steps_within_def)

lemma evaluated_scope:
  "evaluated n plain s src types limits st = Ended (r, st') \<Longrightarrow> scope_law (ev_scope st) (ev_scope st')"
  unfolding evaluated_def
  by (rule agreesD(1) [OF scope_law.agrees_script [OF scope_law.agrees_level [of n n]]])
     (simp_all add: steps_within_def)

lemma evaluated_environment:
  "el_policy limits = PolicyPureV2 \<Longrightarrow> evaluated n plain s src types limits st = Ended (r, st')
     \<Longrightarrow> ev_environment st' = ev_environment st"
  unfolding evaluated_def
  by (rule agreesD(1) [OF environment_law.agrees_script [OF environment_law.agrees_level [of n n]]])
     (simp_all add: steps_within_def)

section \<open>A sample\<close>

definition sample_span :: "nat \<Rightarrow> nat \<Rightarrow> span" where
  "sample_span a b = \<lparr>span_source_id = SourceId 0, span_start = a, span_end = b\<rparr>"

definition sample_script :: script where
  "sample_script =
     Script
       [AstNode
          (StDeclaration True (PatBinding (Identifier (sample_span 4 5))) (Identifier (sample_span 4 5)) None
             (AstNode (EkLiteral (Literal LkInteger (sample_span 8 9))) (sample_span 8 9)))
          (sample_span 0 9)]
       (sample_span 0 9)"

definition sample_limits :: eval_limits where
  "sample_limits = limits_default\<lparr>el_budget := budget_steps 4, el_policy := PolicyPureV2\<rparr>"

definition sample_source :: source_file where
  "sample_source = source_file_new (SourceId 0) ''sample'' ''mut x = 1''"

text \<open>The state that an evaluation leaves.\<close>

definition state_after :: "('a \<times> evaluation) fate \<Rightarrow> evaluation option" where
  "state_after x = (case x of Ended (_, s) \<Rightarrow> Some s | _ \<Rightarrow> None)"

lemma state_after_Some: "state_after x = Some s \<longleftrightarrow> (\<exists>r. x = Ended (r, s))"
  by (auto simp: state_after_def split: fate.split)

definition sample_run :: "evaluation option" where
  "sample_run =
     state_after (evaluate_in_environment 5 (\<lambda>_. True) sample_script sample_source binding_types_default
       sample_limits scope_new [] 0)"

lemma sample_runs:
  "map_option (\<lambda>s. (bg_used_steps (ev_budget s), map fst (last (ev_scope s)))) sample_run = Some (2, [''x''])"
  by code_simp

lemma sample_ends:
  obtains r st where "evaluate_in_environment 5 (\<lambda>_. True) sample_script sample_source binding_types_default
      sample_limits scope_new [] 0 = Ended (r, st)" "sample_run = Some st"
    "bg_used_steps (ev_budget st) = 2" "map fst (last (ev_scope st)) = [''x'']"
  using sample_runs by (auto simp: sample_run_def state_after_Some)

section \<open>Properties\<close>

text \<open>C4: With a step limit, evaluation ends: fuel above the number of steps that are left is enough, and more of it
  changes nothing.
\<close>

theorem evaluation_ends:
  assumes "bg_step_limit (el_budget limits) = Some l" and "l - bg_used_steps (el_budget limits) < n" and "n \<le> m"
  shows "evaluate_in_environment n plain s src types limits sc env next \<noteq> Exhausted \<and>
    evaluate_in_environment m plain s src types limits sc env next
      = evaluate_in_environment n plain s src types limits sc env next"
proof -
  let ?st = "initial_evaluation sc env limits next"
  have "steps_within False n ?st" using assms(1,2) by (simp add: steps_within_def initial_evaluation_def)
  note D = agreesD [OF evaluated_agrees [OF assms(3)] this]
  show ?thesis
    unfolding evaluate_in_environment_evaluated completed_Exhausted
    by (cases "evaluated n plain s src types limits ?st") (use D in \<open>auto split: prod.splits\<close>)
qed

lemma evaluation_ends_witness:
  "evaluate_in_environment 5 (\<lambda>_. True) sample_script sample_source binding_types_default sample_limits
     scope_new [] 0 \<noteq> Exhausted \<and>
   evaluate_in_environment 99 (\<lambda>_. True) sample_script sample_source binding_types_default sample_limits
     scope_new [] 0 =
   evaluate_in_environment 5 (\<lambda>_. True) sample_script sample_source binding_types_default sample_limits
     scope_new [] 0"
  by (rule evaluation_ends [of sample_limits 4])
     (simp_all add: sample_limits_def limits_default_def budget_steps_def budget_unlimited_def)

text \<open>C6: Evaluation respects its budget, also when it fails: the limits stay, nothing that was used is given back,
  every call is left, and the steps, the depth of calls, the items and the bytes stay within their limits.
\<close>

theorem evaluation_within_budget:
  assumes "evaluate_in_environment n plain s src types limits sc env next = Ended (r, st)"
    and "budget_ok (el_budget limits)"
  shows "budget_grows (el_budget limits) (ev_budget st) \<and> budget_ok (ev_budget st)"
  using assms
  by (auto simp: evaluate_in_environment_evaluated initial_evaluation_def budget_kept_def
    dest!: completed_Ended evaluated_budget)

lemma evaluation_within_budget_witness:
  "\<exists>st. sample_run = Some st \<and> bg_used_steps (ev_budget st) = 2 \<and> budget_ok (ev_budget st)"
proof -
  obtain r st where run: "evaluate_in_environment 5 (\<lambda>_. True) sample_script sample_source binding_types_default
      sample_limits scope_new [] 0 = Ended (r, st)" "sample_run = Some st"
    and used: "bg_used_steps (ev_budget st) = 2"
    by (rule sample_ends)
  have "budget_ok (el_budget sample_limits)"
    by (simp add: budget_ok_def exceeds_def sample_limits_def limits_default_def budget_steps_def budget_unlimited_def)
  from evaluation_within_budget [OF run(1) this] run(2) used show ?thesis by (intro exI [of _ st]) simp
qed

text \<open>C5: Evaluation keeps the scope that it is given, also when it fails: every frame stays, a binding keeps its
  mutability and its type and, when it is immutable, its value; a binding with a type always has a value of it;
  and only the last frame gets new bindings, with new names.
\<close>

theorem evaluation_keeps_scope:
  assumes "evaluate_in_environment n plain s src types limits sc env next = Ended (r, st)"
    and "scope_ok sc"
  shows "scope_kept sc (ev_scope st) \<and> scope_ok (ev_scope st)"
  using assms
  by (auto simp: evaluate_in_environment_evaluated initial_evaluation_def scope_law_def
    dest!: completed_Ended evaluated_scope)

lemma evaluation_keeps_scope_witness:
  "\<exists>st. sample_run = Some st \<and> map fst (last (ev_scope st)) = [''x''] \<and>
     scope_kept scope_new (ev_scope st) \<and> scope_ok (ev_scope st)"
proof -
  obtain r st where run: "evaluate_in_environment 5 (\<lambda>_. True) sample_script sample_source binding_types_default
      sample_limits scope_new [] 0 = Ended (r, st)" "sample_run = Some st"
    and names: "map fst (last (ev_scope st)) = [''x'']"
    by (rule sample_ends)
  have "scope_ok scope_new" by (simp add: scope_ok_def scope_new_def frame_ok_def)
  from evaluation_keeps_scope [OF run(1) this] run(2) names show ?thesis by (intro exI [of _ st]) simp
qed

text \<open>C7: With the policy of Flash 2, evaluation leaves the environment of child processes as it is, also when it
  fails or is refused.
\<close>

theorem pure_evaluation_keeps_environment:
  assumes "el_policy limits = PolicyPureV2"
    and "evaluate_with_host n plain s src types limits st = Ended (r, st')"
  shows "ev_environment st' = ev_environment st"
  using assms(2) evaluated_environment [OF assms(1), unfolded evaluated_def]
  by (auto simp: evaluate_with_host_def split: fate.splits)

lemma pure_evaluation_keeps_environment_witness:
  "\<exists>r st'. evaluate_with_host 5 (\<lambda>_. True) sample_script sample_source binding_types_default sample_limits
       (initial_evaluation scope_new [] sample_limits 0) = Ended (r, st') \<and> ev_environment st' = []"
proof -
  let ?st = "initial_evaluation scope_new [] sample_limits 0"
  obtain r st where "evaluate_in_environment 5 (\<lambda>_. True) sample_script sample_source binding_types_default
      sample_limits scope_new [] 0 = Ended (r, st)"
    by (rule sample_ends)
  then obtain r' where e: "evaluate_with_host 5 (\<lambda>_. True) sample_script sample_source binding_types_default
      sample_limits ?st = Ended (r', st)"
    by (auto simp: evaluate_in_environment_evaluated evaluated_def evaluate_with_host_def dest!: completed_Ended)
  have "el_policy sample_limits = PolicyPureV2" by (simp add: sample_limits_def)
  from pure_evaluation_keeps_environment [OF this e] e show ?thesis
    by (auto simp: initial_evaluation_def)
qed

end
