(* ===== verification/Operation_Laws.thy ===== *)
theory Operation_Laws
  imports Operation
begin

text \<open>
  What the operators compute: integer division is the floored division of the integers, comparisons of
  numbers are exact across integers and floats, and the equality of values is an equivalence.
\<close>

section \<open>Division\<close>

lemma sdiv_smod: "(a :: int) sdiv b * b + a smod b = a"
  by (rule sdiv_mult_smod_eq)

lemma smod_bound: "(b :: int) \<noteq> 0 \<Longrightarrow> \<bar>a smod b\<bar> < \<bar>b\<bar>"
  using smod_int_range [of b a] by auto

text \<open>The adjustment of the code turns the truncated quotient into the floored one.\<close>

lemma floored_quotient:
  assumes "(b :: int) \<noteq> 0"
  shows "a div b = (if a smod b \<noteq> 0 \<and> (a smod b < 0) \<noteq> (b < 0) then a sdiv b - 1 else a sdiv b)"
    and "a mod b = (if a smod b \<noteq> 0 \<and> (a smod b < 0) \<noteq> (b < 0) then a smod b + b else a smod b)"
proof -
  let ?q = "a sdiv b" and ?r = "a smod b"
  let ?fix = "?r \<noteq> 0 \<and> (?r < 0) \<noteq> (b < 0)"
  define q r where "q = (if ?fix then ?q - 1 else ?q)" and "r = (if ?fix then ?r + b else ?r)"
  have "a = b * q + r" using sdiv_smod [of a b] by (auto simp: q_def r_def algebra_simps)
  moreover have "(0 \<le> r \<and> r < b) \<or> (b < r \<and> r \<le> 0)"
    using smod_bound [OF assms, of a] assms by (auto simp: r_def)
  ultimately have "a div b = q" "a mod b = r"
    using int_div_pos_eq int_div_neg_eq int_mod_pos_eq int_mod_neg_eq by (metis, metis)
  then show "a div b = (if ?fix then ?q - 1 else ?q)" "a mod b = (if ?fix then ?r + b else ?r)"
    by (simp_all add: q_def r_def)
qed

lemma sint_nonzero: "b \<noteq> 0 \<longleftrightarrow> sint (b :: i64) \<noteq> 0"
  by (simp add: signed_eq_0_iff)

lemma sint_bounds: "- (2 ^ 63) \<le> sint (a :: i64)" "sint a < 2 ^ 63"
  using in_i64_sint [of a] by (simp_all only: in_i64_def)

text \<open>The truncated quotient overflows for the least number and \<open>-1\<close> only.\<close>

lemma sdiv_abs: "\<bar>(a :: int) sdiv b\<bar> = \<bar>a\<bar> div \<bar>b\<bar>"
proof (cases "a = 0 \<or> b = 0")
  case False
  moreover from this have "0 \<le> \<bar>a\<bar> div \<bar>b\<bar>" by (simp add: pos_imp_zdiv_nonneg_iff)
  ultimately show ?thesis by (simp add: signed_divide_int_def abs_mult abs_sgn_eq)
qed (auto simp: signed_divide_int_def)

lemma sdiv_small: "2 \<le> \<bar>sint b\<bar> \<Longrightarrow> \<bar>sint (a :: i64) sdiv sint (b :: i64)\<bar> \<le> 2 ^ 62"
proof -
  assume b: "2 \<le> \<bar>sint b\<bar>"
  have "\<bar>sint a\<bar> div \<bar>sint b\<bar> \<le> \<bar>sint a\<bar> div 2" using b by (intro zdiv_mono2) simp_all
  moreover have "\<bar>sint a\<bar> \<le> 2 ^ 63" using sint_bounds [of a] by linarith
  ultimately show ?thesis by (simp add: sdiv_abs)
qed

lemma abs_sint_cases: "b \<noteq> 0 \<Longrightarrow> sint (b :: i64) = 1 \<or> sint b = - 1 \<or> 2 \<le> \<bar>sint b\<bar>"
  unfolding sint_nonzero by linarith

lemma sdiv_in_i64:
  fixes a b :: i64
  assumes "b \<noteq> 0"
  shows "in_i64 (sint a sdiv sint b) \<longleftrightarrow> \<not> (sint (a :: i64) = - (2 ^ 63) \<and> sint b = - 1)"
  using abs_sint_cases [OF assms]
proof (elim disjE)
  assume "2 \<le> \<bar>sint b\<bar>"
  with sdiv_small [of b a] show ?thesis by (auto simp: in_i64_def)
qed (use sint_bounds [of a] in \<open>auto simp: in_i64_def\<close>)

lemma div_in_i64:
  fixes a b :: i64
  assumes "b \<noteq> 0"
  shows "in_i64 (sint a div sint b) \<longleftrightarrow> \<not> (sint (a :: i64) = - (2 ^ 63) \<and> sint b = - 1)"
  using abs_sint_cases [OF assms]
proof (elim disjE)
  assume "2 \<le> \<bar>sint b\<bar>"
  with sdiv_small [of b a] floored_quotient(1) [of "sint b" "sint a"] show ?thesis
    by (auto simp: in_i64_def split: if_splits)
qed (use sint_bounds [of a] in \<open>auto simp: in_i64_def\<close>)

lemma mod_in_i64:
  fixes a b :: i64
  assumes "b \<noteq> 0"
  shows "in_i64 (sint a mod sint b)"
proof (cases "0 < sint b")
  case True
  with pos_mod_sign [of "sint b" "sint a"] pos_mod_bound [of "sint b" "sint a"]
  have "0 \<le> sint a mod sint b" "sint a mod sint b < sint b" by simp_all
  with sint_bounds(2) [of b] show ?thesis unfolding in_i64_def by linarith
next
  case False
  with assms have "sint b < 0" unfolding sint_nonzero by linarith
  with neg_mod_sign [of "sint b" "sint a"] neg_mod_bound [of "sint b" "sint a"]
  have "sint a mod sint b \<le> 0" "sint b < sint a mod sint b" by simp_all
  with sint_bounds(1) [of b] show ?thesis unfolding in_i64_def by linarith
qed

lemma floored_div_exact:
  fixes a b :: i64
  assumes "b \<noteq> 0"
  shows "floored_div a b = ok_or (IntegerOverflow ''/'') (checked_i64 (sint a div sint b))"
proof (cases "in_i64 (sint a sdiv sint b)")
  case True
  note q = floored_quotient(1) [of "sint b" "sint a", OF assms [unfolded sint_nonzero]]
  show ?thesis
  proof (cases "sint a smod sint b \<noteq> 0 \<and> (sint a smod sint b < 0) \<noteq> (sint b < 0)")
    case adjusted: True
    then have "sint a div sint b = sint a sdiv sint b - 1" using q by simp
    with True assms adjusted show ?thesis by (simp add: floored_div_def checked_i64_def)
  next
    case adjusted: False
    then have "sint a div sint b = sint a sdiv sint b" using q by (simp only: if_False)
    with True assms adjusted show ?thesis by (auto simp: floored_div_def checked_i64_def)
  qed
next
  case False
  with sdiv_in_i64 [OF assms, of a] div_in_i64 [OF assms, of a] show ?thesis
    using assms by (simp add: floored_div_def checked_i64_def)
qed

lemma floored_rem_exact:
  fixes a b :: i64
  assumes "b \<noteq> 0"
  shows "floored_rem a b =
    (if sint a = - (2 ^ 63) \<and> sint b = - 1 then None else Some (Inr (word_of_int (sint a mod sint b))))"
proof (cases "in_i64 (sint a sdiv sint b)")
  case True
  note r = floored_quotient(2) [of "sint b" "sint a", OF assms [unfolded sint_nonzero]]
  show ?thesis
  proof (cases "sint a smod sint b \<noteq> 0 \<and> (sint a smod sint b < 0) \<noteq> (sint b < 0)")
    case adjusted: True
    then have "sint a mod sint b = sint a smod sint b + sint b" using r by simp
    with True assms adjusted mod_in_i64 [OF assms, of a] sdiv_in_i64 [OF assms, of a] show ?thesis
      by (simp add: floored_rem_def checked_i64_def)
  next
    case adjusted: False
    then have "sint a mod sint b = sint a smod sint b" using r by (simp only: if_False)
    with True assms adjusted sdiv_in_i64 [OF assms, of a] show ?thesis by (auto simp: floored_rem_def)
  qed
next
  case False
  with sdiv_in_i64 [OF assms, of a] show ?thesis using assms by (simp add: floored_rem_def)
qed

text \<open>C13: integer division rounds towards negative infinity and the remainder has the sign of the divisor. A
  zero divisor is an error of both operators. For the least integer by \<open>-1\<close> the division is an overflow, and the
  remainder, which the code takes with the plain operator of the language, panics.\<close>

theorem division_floors:
  fixes a b :: i64
  shows "if b = 0 then divide (VInt a) (VInt b) = Inl (DivisionByZero ''/'') \<and>
       remainder (VInt a) (VInt b) = Some (Inl (DivisionByZero ''%''))
     else if sint a = - (2 ^ 63) \<and> sint b = - 1
     then divide (VInt a) (VInt b) = Inl (IntegerOverflow ''/'') \<and> remainder (VInt a) (VInt b) = None
     else \<exists>q r. divide (VInt a) (VInt b) = Inr (VInt q) \<and> remainder (VInt a) (VInt b) = Some (Inr (VInt r))
       \<and> sint q = sint a div sint b \<and> sint r = sint a mod sint b"
proof (cases "b = 0")
  case True
  then show ?thesis by (simp add: divide_def remainder_def numeric_pair_def floored_div_def floored_rem_def)
next
  case False
  then show ?thesis
    using div_in_i64 [OF False, of a] mod_in_i64 [OF False, of a]
    by (cases "sint a = - (2 ^ 63) \<and> sint b = - 1")
      (simp_all add: divide_def remainder_def numeric_pair_def floored_div_exact [OF False]
        floored_rem_exact [OF False] checked_i64_def)
qed

theorem division_floors_witness:
  "divide (VInt (- 7)) (VInt 2) = Inr (VInt (- 4)) \<and> remainder (VInt (- 7)) (VInt 2) = Some (Inr (VInt 1)) \<and>
   divide (VInt 1) (VInt 0) = Inl (DivisionByZero ''/'')"
  using division_floors [of 2 "- 7"] division_floors [of 0 1] by (auto simp: signed_word_eqI)

section \<open>Numbers of both families\<close>

definition numeric_value :: "val \<Rightarrow> rat option" where
  "numeric_value v = (case v of VInt i \<Rightarrow> Some (of_int (sint i)) | VFloat f \<Rightarrow> Some (ff_get f) | _ \<Rightarrow> None)"

lemma numeric_value_cases:
  assumes "numeric_value v = Some x"
  obtains i where "v = VInt i" "x = of_int (sint i)" | f where "v = VFloat f" "x = ff_get f"
  using assms by (cases v) (auto simp: numeric_value_def)

lemma rat_trunc_between:
  "0 \<le> x \<Longrightarrow> of_int (rat_trunc x) \<le> x \<and> x < of_int (rat_trunc x) + 1"
  "x < 0 \<Longrightarrow> x \<le> of_int (rat_trunc x) \<and> of_int (rat_trunc x) - 1 < x"
  using of_int_floor_le [of x] floor_correct [of x] of_int_floor_le [of "- x"] floor_correct [of "- x"]
  by (simp_all add: rat_trunc_def, linarith)

lemma rat_trunc_of_int [simp]: "rat_trunc (of_int i) = i"
  by (simp add: rat_trunc_def)

declare of_int_sint [simp del]

lemma cmp_simps [simp]:
  "cmp a b = OrdLess \<longleftrightarrow> a < b" "cmp a b = OrdEqual \<longleftrightarrow> a = b" "cmp a b = OrdGreater \<longleftrightarrow> b < a"
  by (auto simp: cmp_def)

lemma reverse_cmp [simp]: "reverse_ordering (cmp a b) = cmp b a"
  by (auto simp: cmp_def)

lemma of_int_cmp [simp]: "cmp (of_int a :: rat) (of_int b) = cmp a b"
  by (simp add: cmp_def)

lemma compare_int_float_exact: "compare_int_float i x = cmp (of_int (sint i)) x"
proof -
  have i: "- (2 ^ 63) \<le> (of_int (sint i) :: rat)" "(of_int (sint i) :: rat) < 2 ^ 63"
    using sint_bounds [of i] of_int_le_iff [where 'a = rat, of "- (2 ^ 63)" "sint i"]
      of_int_less_iff [where 'a = rat, of "sint i" "2 ^ 63"] by simp_all
  let ?t = "rat_trunc x"
  have below: "of_int (sint i) < x" if "sint i < ?t"
  proof -
    from that have "(of_int (sint i + 1) :: rat) \<le> of_int ?t" by (simp only: of_int_le_iff)
    then show ?thesis using rat_trunc_between [of x] by (cases "0 \<le> x") auto
  qed
  have above: "x < of_int (sint i)" if "?t < sint i"
  proof -
    from that have "(of_int (?t + 1) :: rat) \<le> of_int (sint i)" by (simp only: of_int_le_iff)
    then show ?thesis using rat_trunc_between [of x] by (cases "0 \<le> x") auto
  qed
  consider "2 ^ 63 \<le> x" | "x < - (2 ^ 63)" | "x < 2 ^ 63" "- (2 ^ 63) \<le> x" by linarith
  then show ?thesis
  proof cases
    case 3
    consider "sint i < ?t" | "sint i = ?t" | "?t < sint i" by linarith
    then show ?thesis
      by cases (use 3 below above in \<open>simp_all add: compare_int_float_def cmp_def\<close>)
  qed (use i in \<open>simp_all add: compare_int_float_def cmp_def\<close>)
qed

lemma int_float_equal_exact: "int_float_equal i f \<longleftrightarrow> ff_get f = of_int (sint i)"
proof
  assume *: "int_float_equal i f"
  let ?t = "rat_trunc (ff_get f)"
  from * have f: "ff_get f = of_int ?t" and clamp: "max (- (2 ^ 127)) (min (2 ^ 127 - 1) ?t) = sint i"
    by (simp_all add: int_float_equal_def)
  from clamp have "?t = sint i" using sint_bounds [of i] by (simp add: max_def min_def split: if_splits)
  with f show "ff_get f = of_int (sint i)" by simp
next
  assume "ff_get f = of_int (sint i)"
  then show "int_float_equal i f"
    using sint_bounds [of i] by (simp add: int_float_equal_def)
qed

text \<open>C14: numbers are ordered and equal as their exact values are, also between integers and floats, where a
  conversion of the integer would round.\<close>

theorem numbers_compare_exactly:
  assumes "numeric_value v = Some x" and "numeric_value w = Some y"
  shows "order_values v w = Inr (cmp x y) \<and> (value_eq v w \<longleftrightarrow> x = y)"
  using assms
  by (elim numeric_value_cases)
    (auto simp: compare_int_float_exact int_float_equal_exact signed_word_eqI finite_float.expand)

theorem numbers_compare_exactly_witness:
  "order_values (VInt (2 ^ 53 + 1)) (VFloat (FiniteFloat (2 ^ 53))) = Inr OrdGreater"
  using numbers_compare_exactly
    [of "VInt (2 ^ 53 + 1)" "2 ^ 53 + 1" "VFloat (FiniteFloat (2 ^ 53))" "2 ^ 53"]
  by (simp add: numeric_value_def)

section \<open>Equality\<close>

lemma value_eq_lists [simp]:
  "list_all2 (\<lambda>f x. f x) (map value_eq vs) ws = list_all2 value_eq vs ws"
  "list_all2 (\<lambda>fs xs. list_all2 (\<lambda>f x. f x) fs xs) (map (map value_eq) rs) ss = list_all2 (list_all2 value_eq) rs ss"
  "list_all2 (\<lambda>(k, f) (l, x). k = l \<and> f x) (map (map_prod id value_eq) es) fs
     = list_all2 (rel_prod (=) value_eq) es fs"
  by (simp_all add: list_all2_map1 rel_prod_conv case_prod_beta' cong: list.rel_cong)

lemmas val_induct = val.induct [of _ "\<lambda>_. True" "\<lambda>_. True"]

lemma list_all2_flip: "list_all2 P xs ys \<Longrightarrow> (\<And>x y. x \<in> set xs \<Longrightarrow> P x y \<Longrightarrow> Q y x) \<Longrightarrow> list_all2 Q ys xs"
  by (auto simp: list_all2_conv_all_nth)

lemma list_all2_chain:
  "list_all2 P xs ys \<Longrightarrow> list_all2 P' ys zs \<Longrightarrow> (\<And>x y z. x \<in> set xs \<Longrightarrow> P x y \<Longrightarrow> P' y z \<Longrightarrow> Q x z) \<Longrightarrow> list_all2 Q xs zs"
  by (auto simp: list_all2_conv_all_nth)

lemma value_eq_VList: "value_eq (VList vs) w \<longleftrightarrow> (\<exists>ws. w = VList ws \<and> list_all2 value_eq vs ws)"
  by (cases w) auto

lemma value_eq_VRecord:
  "value_eq (VRecord es) w \<longleftrightarrow> (\<exists>fs. w = VRecord fs \<and> list_all2 (rel_prod (=) value_eq) es fs)"
  by (cases w) auto

lemma value_eq_VNominalRecord:
  "value_eq (VNominalRecord i ts es) w \<longleftrightarrow>
     (\<exists>fs. w = VNominalRecord i ts fs \<and> list_all2 (rel_prod (=) value_eq) es fs)"
  by (cases w) auto

lemma value_eq_VVariant:
  "value_eq (VVariant i ts c vs) w \<longleftrightarrow> (\<exists>ws. w = VVariant i ts c ws \<and> list_all2 value_eq vs ws)"
  by (cases w) auto

lemma value_eq_VTable:
  "value_eq (VTable cs rs) w \<longleftrightarrow> (\<exists>ss. w = VTable cs ss \<and> list_all2 (list_all2 value_eq) rs ss)"
  by (cases w) auto

lemma i64_eq_iff: "a = b \<longleftrightarrow> sint a = sint (b :: i64)"
  by (auto intro: signed_word_eqI)

lemma value_eq_VInt: "value_eq (VInt i) w \<longleftrightarrow> numeric_value w = Some (of_int (sint i))"
  by (cases w) (auto simp: numeric_value_def int_float_equal_exact i64_eq_iff)

lemma value_eq_VFloat: "value_eq (VFloat f) w \<longleftrightarrow> numeric_value w = Some (ff_get f)"
  by (cases w) (auto simp: numeric_value_def int_float_equal_exact finite_float.expand)

lemma value_eq_VCallable: "value_eq (VCallable i c) w \<longleftrightarrow> (\<exists>d. w = VCallable i d)"
  by (cases w) auto

lemmas value_eq_iffs = value_eq_VList value_eq_VRecord value_eq_VNominalRecord value_eq_VVariant
  value_eq_VTable value_eq_VInt value_eq_VFloat value_eq_VCallable

lemma value_eq_refl: "value_eq v v"
proof (induction v rule: val_induct)
  case (VTable cs rs)
  then have "list_all2 value_eq r r" if "r \<in> set rs" for r
    using that by (auto simp: list_all2_same)
  then show ?case by (simp add: list_all2_same)
qed (auto simp: list_all2_same rel_prod_conv)

lemma entries_flip:
  assumes "list_all2 (rel_prod (=) value_eq) es fs"
    and "\<And>e v w. e \<in> set es \<Longrightarrow> v \<in> Basic_BNFs.snds e \<Longrightarrow> value_eq v w \<Longrightarrow> value_eq w v"
  shows "list_all2 (rel_prod (=) value_eq) fs es"
  using assms(1) by (rule list_all2_flip) (auto simp: rel_prod_conv split: prod.splits intro: assms(2))

lemma value_eq_sym: "value_eq v w \<Longrightarrow> value_eq w v"
proof (induction v arbitrary: w rule: val_induct)
  case (VList vs)
  from VList.prems obtain ws where *: "w = VList ws" "list_all2 value_eq vs ws"
    unfolding value_eq_VList by blast
  have "list_all2 value_eq ws vs" using *(2) by (rule list_all2_flip) (rule VList.IH)
  with *(1) show ?case by simp
next
  case (VRecord es)
  from VRecord.prems obtain fs where *: "w = VRecord fs" "list_all2 (rel_prod (=) value_eq) es fs"
    unfolding value_eq_VRecord by blast
  have "list_all2 (rel_prod (=) value_eq) fs es" using *(2) by (rule entries_flip) (rule VRecord.IH)
  with *(1) show ?case by simp
next
  case (VNominalRecord i ts es)
  from VNominalRecord.prems obtain fs where *: "w = VNominalRecord i ts fs" "list_all2 (rel_prod (=) value_eq) es fs"
    unfolding value_eq_VNominalRecord by blast
  have "list_all2 (rel_prod (=) value_eq) fs es" using *(2) by (rule entries_flip) (rule VNominalRecord.IH)
  with *(1) show ?case by simp
next
  case (VVariant i ts c vs)
  from VVariant.prems obtain ws where *: "w = VVariant i ts c ws" "list_all2 value_eq vs ws"
    unfolding value_eq_VVariant by blast
  have "list_all2 value_eq ws vs" using *(2) by (rule list_all2_flip) (rule VVariant.IH)
  with *(1) show ?case by simp
next
  case (VTable cs rs)
  from VTable.prems obtain ss where *: "w = VTable cs ss" "list_all2 (list_all2 value_eq) rs ss"
    unfolding value_eq_VTable by blast
  have "list_all2 (list_all2 value_eq) ss rs"
    using *(2) by (rule list_all2_flip) (erule list_all2_flip, rule VTable.IH)
  with *(1) show ?case by simp
qed (auto simp: value_eq_iffs numeric_value_def split: val.splits)

lemma entries_chain:
  assumes "list_all2 (rel_prod (=) value_eq) es fs" and "list_all2 (rel_prod (=) value_eq) fs gs"
    and "\<And>e u v w. e \<in> set es \<Longrightarrow> u \<in> Basic_BNFs.snds e \<Longrightarrow> value_eq u v \<Longrightarrow> value_eq v w \<Longrightarrow> value_eq u w"
  shows "list_all2 (rel_prod (=) value_eq) es gs"
  using assms(1,2) by (rule list_all2_chain) (auto simp: rel_prod_conv split: prod.splits intro: assms(3))

lemma value_eq_trans: "value_eq u v \<Longrightarrow> value_eq v w \<Longrightarrow> value_eq u w"
proof (induction u arbitrary: v w rule: val_induct)
  case (VList vs)
  from VList.prems obtain ws xs where *: "w = VList xs" "list_all2 value_eq vs ws" "list_all2 value_eq ws xs"
    by (auto simp only: value_eq_VList)
  have "list_all2 value_eq vs xs" using *(2,3) by (rule list_all2_chain) (rule VList.IH)
  with *(1) show ?case by simp
next
  case (VRecord es)
  from VRecord.prems obtain fs gs where *: "w = VRecord gs" "list_all2 (rel_prod (=) value_eq) es fs"
    "list_all2 (rel_prod (=) value_eq) fs gs" by (auto simp only: value_eq_VRecord)
  have "list_all2 (rel_prod (=) value_eq) es gs" using *(2,3) by (rule entries_chain) (rule VRecord.IH)
  with *(1) show ?case by simp
next
  case (VNominalRecord i ts es)
  from VNominalRecord.prems obtain fs gs where *: "w = VNominalRecord i ts gs"
    "list_all2 (rel_prod (=) value_eq) es fs" "list_all2 (rel_prod (=) value_eq) fs gs"
    by (auto simp only: value_eq_VNominalRecord)
  have "list_all2 (rel_prod (=) value_eq) es gs" using *(2,3) by (rule entries_chain) (rule VNominalRecord.IH)
  with *(1) show ?case by simp
next
  case (VVariant i ts c vs)
  from VVariant.prems obtain ws xs where *: "w = VVariant i ts c xs" "list_all2 value_eq vs ws"
    "list_all2 value_eq ws xs" by (auto simp only: value_eq_VVariant)
  have "list_all2 value_eq vs xs" using *(2,3) by (rule list_all2_chain) (rule VVariant.IH)
  with *(1) show ?case by simp
next
  case (VTable cs rs)
  from VTable.prems obtain ss ts where *: "w = VTable cs ts" "list_all2 (list_all2 value_eq) rs ss"
    "list_all2 (list_all2 value_eq) ss ts" by (auto simp only: value_eq_VTable)
  have "list_all2 (list_all2 value_eq) rs ts"
    using *(2,3) by (rule list_all2_chain) (erule (1) list_all2_chain, rule VTable.IH)
  with *(1) show ?case by simp
next
  case (VInt i)
  then show ?case
    by (cases v; simp only: value_eq_VInt value_eq_VFloat) (auto simp: numeric_value_def value_eq_VInt value_eq_VFloat simp del: value_eq.simps)
next
  case (VFloat f)
  then show ?case
    by (cases v; simp only: value_eq_VInt value_eq_VFloat) (auto simp: numeric_value_def value_eq_VInt value_eq_VFloat simp del: value_eq.simps)
next
  case (VCallable i c)
  then show ?case by (cases v; cases w) simp_all
qed auto

text \<open>C40: the equality of values is an equivalence relation: it stays transitive between the families of
  numbers, through lists, records, variants, tables and errors, and for callables by identity.\<close>

theorem equality_is_equivalence: "equivp value_eq"
  by (intro equivpI reflpI sympI transpI) (blast intro: value_eq_refl value_eq_sym value_eq_trans)+

end
