(* ===== verification/Value_Stream.thy ===== *)
theory Value_Stream
  imports Operation
begin

text \<open>
  Lazy value and byte streams, from \<open>flash-runtime/src/stream.rs\<close>, and the standard operations that
  consume a stream, from \<open>operation.rs\<close>.

  A producer (\<open>FnMut\<close>) is the sequence of its answers with the number of calls so far; a cancellation token is
  the sequence of the answers to its polls; a cleanup action is its result. The owners of streams come from a
  counter of the process, which is passed on. An operation on a stream returns the stream that it leaves.
\<close>

section \<open>Schemas\<close>

text \<open>\<open>None\<close>: the panic of an exhausted counter.\<close>

definition fresh_owner :: "nat \<Rightarrow> (nat \<times> nat) option" where
  "fresh_owner counter = (if counter + 1 < 2 ^ 64 then Some (counter, counter + 1) else None)"

datatype stream_cardinality = CardExact nat | CardAtMost nat | CardUnknown

datatype stream_schema =
  StreamSchema (ss_element: value_type) (ss_cardinality: stream_cardinality) (ss_owner: nat)

definition stream_schema_new :: "value_type \<Rightarrow> stream_cardinality \<Rightarrow> nat \<Rightarrow> (stream_schema \<times> nat) option" where
  "stream_schema_new t cardinality counter =
     map_option (\<lambda>(owner, next). (StreamSchema t cardinality owner, next)) (fresh_owner counter)"

datatype contract_violation =
    ViolatesElementType value_type string
  | CardinalityExceeded stream_cardinality nat
  | CardinalityShortfall nat nat

section \<open>Byte streams\<close>

datatype byte_pull = ByteChunk string | ByteEnd | ByteFailed runtime_error | ByteCancelled cancel_reason

datatype byte_source = ByteChunks "string list" nat | BytePuller "nat \<Rightarrow> byte_pull" nat

fun byte_advance :: "byte_source \<Rightarrow> byte_pull \<times> byte_source" where
  "byte_advance (ByteChunks chunks cursor) =
     (case get_nth chunks cursor of
        Some chunk \<Rightarrow> (ByteChunk chunk, ByteChunks chunks (cursor + 1))
      | None \<Rightarrow> (ByteEnd, ByteChunks chunks cursor))"
| "byte_advance (BytePuller answers calls) = (answers calls, BytePuller answers (calls + 1))"

record cancellation_token =
  ct_cancelled :: "nat \<Rightarrow> bool"
  ct_reason :: cancel_reason
  ct_polls :: nat

definition token_never :: cancellation_token where
  "token_never = \<lparr>ct_cancelled = (\<lambda>_. False), ct_reason = CancelRequested, ct_polls = 0\<rparr>"

definition token_poll :: "cancellation_token \<Rightarrow> bool \<times> cancellation_token" where
  "token_poll t = (ct_cancelled t (ct_polls t), t\<lparr>ct_polls := ct_polls t + 1\<rparr>)"

record byte_stream =
  bs_source :: byte_source
  bs_cancel :: cancellation_token
  bs_owner :: nat
  bs_terminal :: bool

definition byte_stream_with_source :: "byte_source \<Rightarrow> nat \<Rightarrow> (byte_stream \<times> nat) option" where
  "byte_stream_with_source source counter =
     map_option (\<lambda>(owner, next).
       (\<lparr>bs_source = source, bs_cancel = token_never, bs_owner = owner, bs_terminal = False\<rparr>, next))
       (fresh_owner counter)"

definition byte_stream_from_chunks :: "string list \<Rightarrow> nat \<Rightarrow> (byte_stream \<times> nat) option" where
  "byte_stream_from_chunks chunks = byte_stream_with_source (ByteChunks chunks 0)"

definition byte_stream_from_pull_fn :: "(nat \<Rightarrow> byte_pull) \<Rightarrow> nat \<Rightarrow> (byte_stream \<times> nat) option" where
  "byte_stream_from_pull_fn answers = byte_stream_with_source (BytePuller answers 0)"

definition byte_stream_with_cancellation :: "cancellation_token \<Rightarrow> byte_stream \<Rightarrow> byte_stream" where
  "byte_stream_with_cancellation t s = s\<lparr>bs_cancel := t\<rparr>"

definition byte_stream_pull :: "byte_stream \<Rightarrow> byte_pull \<times> byte_stream" where
  "byte_stream_pull s =
     (if bs_terminal s then (ByteEnd, s)
      else
        (let (cancelled, t) = token_poll (bs_cancel s) in
         if cancelled then (ByteCancelled (ct_reason t), s\<lparr>bs_cancel := t, bs_terminal := True\<rparr>)
         else
           (let (pulled, source) = byte_advance (bs_source s);
                s' = s\<lparr>bs_cancel := t, bs_source := source\<rparr> in
            (pulled, case pulled of ByteChunk _ \<Rightarrow> s' | _ \<Rightarrow> s'\<lparr>bs_terminal := True\<rparr>))))"

section \<open>Bounded queues\<close>

record bounded_queue =
  bq_items :: "val list"
  bq_capacity :: nat

definition DEFAULT_CAPACITY :: nat where
  "DEFAULT_CAPACITY = 1024"

text \<open>\<open>None\<close>: the panic of a capacity of zero.\<close>

definition queue_with_capacity :: "nat \<Rightarrow> bounded_queue option" where
  "queue_with_capacity n = (if 1 \<le> n then Some \<lparr>bq_items = [], bq_capacity = n\<rparr> else None)"

definition queue_new :: "bounded_queue option" where
  "queue_new = queue_with_capacity DEFAULT_CAPACITY"

text \<open>\<open>Inl\<close>: \<open>QueueFull\<close> with the value.\<close>

definition try_push :: "val \<Rightarrow> bounded_queue \<Rightarrow> val + bounded_queue" where
  "try_push v q =
     (if bq_capacity q \<le> length (bq_items q) then Inl v else Inr (q\<lparr>bq_items := bq_items q @ [v]\<rparr>))"

definition queue_pop :: "bounded_queue \<Rightarrow> val option \<times> bounded_queue" where
  "queue_pop q = (case bq_items q of [] \<Rightarrow> (None, q) | v # vs \<Rightarrow> (Some v, q\<lparr>bq_items := vs\<rparr>))"

section \<open>Value streams\<close>

datatype stream_pull =
    PullItem val
  | PullEnd
  | PullFailed runtime_error
  | PullCancelled cancel_reason

datatype value_source =
    SourceOnce "val option"
  | SourceValues "val list" nat
  | SourceQueue bounded_queue
  | SourceProducer "nat \<Rightarrow> (runtime_error + val) option" nat
  | SourcePuller "nat \<Rightarrow> stream_pull" nat

definition item_or_end :: "val option \<Rightarrow> stream_pull" where
  "item_or_end v = (case v of Some x \<Rightarrow> PullItem x | None \<Rightarrow> PullEnd)"

fun source_advance :: "value_source \<Rightarrow> stream_pull \<times> value_source" where
  "source_advance (SourceOnce slot) = (item_or_end slot, SourceOnce None)"
| "source_advance (SourceValues values cursor) =
     (case get_nth values cursor of
        Some v \<Rightarrow> (PullItem v, SourceValues values (cursor + 1))
      | None \<Rightarrow> (PullEnd, SourceValues values cursor))"
| "source_advance (SourceQueue q) = (let (v, q') = queue_pop q in (item_or_end v, SourceQueue q'))"
| "source_advance (SourceProducer answers calls) =
     (case answers calls of
        Some (Inr v) \<Rightarrow> PullItem v
      | Some (Inl err) \<Rightarrow> PullFailed err
      | None \<Rightarrow> PullEnd, SourceProducer answers (calls + 1))"
| "source_advance (SourcePuller answers calls) = (answers calls, SourcePuller answers (calls + 1))"

record value_stream =
  vs_source :: value_source
  vs_cancel :: cancellation_token
  vs_schema :: stream_schema
  vs_checked_items :: nat
  vs_terminal :: bool
  vs_cleanup :: "(string + unit) option"
  vs_closed :: bool

definition stream_with_source ::
  "value_source \<Rightarrow> stream_cardinality \<Rightarrow> nat \<Rightarrow> (value_stream \<times> nat) option" where
  "stream_with_source source cardinality counter =
     map_option (\<lambda>(schema, next).
       (\<lparr>vs_source = source, vs_cancel = token_never, vs_schema = schema, vs_checked_items = 0,
         vs_terminal = False, vs_cleanup = None, vs_closed = False\<rparr>, next))
       (stream_schema_new VtAny cardinality counter)"

definition stream_once :: "val \<Rightarrow> nat \<Rightarrow> (value_stream \<times> nat) option" where
  "stream_once v = stream_with_source (SourceOnce (Some v)) (CardExact 1)"

definition stream_from_values :: "val list \<Rightarrow> nat \<Rightarrow> (value_stream \<times> nat) option" where
  "stream_from_values vs = stream_with_source (SourceValues vs 0) (CardExact (length vs))"

definition stream_from_queue :: "bounded_queue \<Rightarrow> nat \<Rightarrow> (value_stream \<times> nat) option" where
  "stream_from_queue q = stream_with_source (SourceQueue q) (CardExact (length (bq_items q)))"

definition stream_from_fn :: "(nat \<Rightarrow> (runtime_error + val) option) \<Rightarrow> nat \<Rightarrow> (value_stream \<times> nat) option" where
  "stream_from_fn answers = stream_with_source (SourceProducer answers 0) CardUnknown"

definition stream_from_pull_fn :: "(nat \<Rightarrow> stream_pull) \<Rightarrow> nat \<Rightarrow> (value_stream \<times> nat) option" where
  "stream_from_pull_fn answers = stream_with_source (SourcePuller answers 0) CardUnknown"

definition with_contract :: "value_type \<Rightarrow> stream_cardinality \<Rightarrow> value_stream \<Rightarrow> value_stream" where
  "with_contract t cardinality s = s\<lparr>vs_schema := StreamSchema t cardinality (ss_owner (vs_schema s))\<rparr>"

definition with_cleanup :: "string + unit \<Rightarrow> value_stream \<Rightarrow> value_stream" where
  "with_cleanup result s = s\<lparr>vs_cleanup := Some result\<rparr>"

definition with_cancellation :: "cancellation_token \<Rightarrow> value_stream \<Rightarrow> value_stream" where
  "with_cancellation t s = s\<lparr>vs_cancel := t\<rparr>"

definition pull :: "value_stream \<Rightarrow> stream_pull \<times> value_stream" where
  "pull s =
     (if vs_terminal s then (PullEnd, s)
      else
        (let (cancelled, t) = token_poll (vs_cancel s) in
         if cancelled then (PullCancelled (ct_reason t), s\<lparr>vs_cancel := t, vs_terminal := True\<rparr>)
         else
           (let (pulled, source) = source_advance (vs_source s);
                s' = s\<lparr>vs_cancel := t, vs_source := source\<rparr> in
            (pulled, case pulled of PullItem _ \<Rightarrow> s' | _ \<Rightarrow> s'\<lparr>vs_terminal := True\<rparr>))))"

datatype checked_pull =
    CheckedItem val
  | CheckedEnd
  | CheckedFailed runtime_error
  | CheckedCancelled cancel_reason
  | CheckedViolation contract_violation

definition exceeds_cardinality :: "stream_cardinality \<Rightarrow> nat \<Rightarrow> bool" where
  "exceeds_cardinality cardinality observed =
     (case cardinality of CardExact n \<Rightarrow> n < observed | CardAtMost n \<Rightarrow> n < observed | CardUnknown \<Rightarrow> False)"

definition pull_checked :: "value_stream \<Rightarrow> checked_pull \<times> value_stream" where
  "pull_checked s =
     (if vs_terminal s then (CheckedEnd, s)
      else
        (let (pulled, s') = pull s; schema = vs_schema s' in
         case pulled of
           PullItem v \<Rightarrow>
             (let observed = vs_checked_items s' + 1 in
              if exceeds_cardinality (ss_cardinality schema) observed then
                (CheckedViolation (CardinalityExceeded (ss_cardinality schema) observed), s'\<lparr>vs_terminal := True\<rparr>)
              else if \<not> accepts (ss_element schema) v then
                (CheckedViolation (ViolatesElementType (ss_element schema) (family_name v)), s'\<lparr>vs_terminal := True\<rparr>)
              else (CheckedItem v, s'\<lparr>vs_checked_items := observed\<rparr>))
         | PullEnd \<Rightarrow>
             (case ss_cardinality schema of
                CardExact expected \<Rightarrow>
                  if vs_checked_items s' < expected
                  then (CheckedViolation (CardinalityShortfall expected (vs_checked_items s')), s')
                  else (CheckedEnd, s')
              | _ \<Rightarrow> (CheckedEnd, s'))
         | PullFailed err \<Rightarrow> (CheckedFailed err, s')
         | PullCancelled reason \<Rightarrow> (CheckedCancelled reason, s')))"

definition close_stream :: "value_stream \<Rightarrow> (string + unit) \<times> value_stream" where
  "close_stream s =
     (if vs_closed s then (Inr (), s)
      else (case vs_cleanup s of Some result \<Rightarrow> result | None \<Rightarrow> Inr (), s\<lparr>vs_closed := True\<rparr>))"

text \<open>\<open>Drop\<close>: the stream is closed, and the result of its cleanup is not kept.\<close>

definition drop_stream :: "value_stream \<Rightarrow> value_stream" where
  "drop_stream s = snd (close_stream s)"

datatype collect_outcome =
    Collected "val list"
  | CollectLimitExceeded nat
  | CollectFailed runtime_error
  | CollectCancelled cancel_reason

text \<open>The recursion is on the number of items that may still be collected.\<close>

fun collect_rounds :: "nat \<Rightarrow> nat \<Rightarrow> val list \<Rightarrow> value_stream \<Rightarrow> collect_outcome \<times> value_stream" where
  "collect_rounds 0 limit collected s =
     (let (pulled, s') = pull s in
      (case pulled of
         PullEnd \<Rightarrow> Collected collected
       | PullItem _ \<Rightarrow> CollectLimitExceeded limit
       | PullFailed err \<Rightarrow> CollectFailed err
       | PullCancelled reason \<Rightarrow> CollectCancelled reason, s'))"
| "collect_rounds (Suc n) limit collected s =
     (let (pulled, s') = pull s in
      case pulled of
        PullItem v \<Rightarrow> collect_rounds n limit (collected @ [v]) s'
      | PullEnd \<Rightarrow> (Collected collected, s')
      | PullFailed err \<Rightarrow> (CollectFailed err, s')
      | PullCancelled reason \<Rightarrow> (CollectCancelled reason, s'))"

definition collect_bounded :: "nat \<Rightarrow> value_stream \<Rightarrow> collect_outcome \<times> value_stream" where
  "collect_bounded limit s = collect_rounds limit limit [] s"

section \<open>Operations on streams\<close>

datatype operation_stream_primary =
    OspValue val
  | OspLimitExceeded nat
  | OspFailed runtime_error
  | OspCancelled cancel_reason
  | OspContractViolation contract_violation
  | OspRejected operation_error
  | OspCleanupFailed string

record operation_stream_outcome =
  oso_primary :: operation_stream_primary
  oso_delivered_items :: nat
  oso_cleanup_failure :: "string option"

definition finish_stream_operation ::
  "value_stream \<Rightarrow> operation_stream_primary \<Rightarrow> nat \<Rightarrow> operation_stream_outcome \<times> value_stream" where
  "finish_stream_operation s primary delivered =
     (let (result, s') = close_stream s;
          failure = (case result of Inl m \<Rightarrow> Some m | Inr _ \<Rightarrow> None) in
      case (primary, failure) of
        (OspValue _, Some m) \<Rightarrow>
          (\<lparr>oso_primary = OspCleanupFailed m, oso_delivered_items = delivered, oso_cleanup_failure = None\<rparr>, s')
      | _ \<Rightarrow>
          (\<lparr>oso_primary = primary, oso_delivered_items = delivered, oso_cleanup_failure = failure\<rparr>, s'))"

text \<open>The loop of the length operation; the recursion is on the items that it may still deliver.\<close>

fun length_rounds ::
  "nat \<Rightarrow> nat \<Rightarrow> string \<Rightarrow> nat \<Rightarrow> value_stream \<Rightarrow> operation_stream_primary \<times> nat \<times> value_stream" where
  "length_rounds n limit operation delivered s =
     (let (pulled, s') = pull_checked s in
      case pulled of
        CheckedItem _ \<Rightarrow>
          (case n of
             0 \<Rightarrow> (OspLimitExceeded limit, delivered, s')
           | Suc k \<Rightarrow> length_rounds k limit operation (delivered + 1) s')
      | CheckedEnd \<Rightarrow>
          (case checked_i64 (int delivered) of
             Some i \<Rightarrow> OspValue (VInt i)
           | None \<Rightarrow> OspRejected (LengthOverflow operation), delivered, s')
      | CheckedFailed err \<Rightarrow> (OspFailed err, delivered, s')
      | CheckedCancelled reason \<Rightarrow> (OspCancelled reason, delivered, s')
      | CheckedViolation violation \<Rightarrow> (OspContractViolation violation, delivered, s'))"

definition has_stream_overload :: "operation_descriptor \<Rightarrow> bool" where
  "has_stream_overload d \<longleftrightarrow>
     list_ex (\<lambda>ov. case oo_input ov of InputValueStream _ \<Rightarrow> True | InputValue _ \<Rightarrow> False) (od_overloads d)"

definition execute_value_stream ::
  "operation_descriptor \<Rightarrow> value_stream \<Rightarrow> nat \<Rightarrow> operation_stream_outcome \<times> value_stream" where
  "execute_value_stream d s item_limit =
     (if \<not> has_stream_overload d then
        finish_stream_operation s
          (OspRejected (NoMatchingOverload (qualified_operation_name (od_id d)) ''ValueStream'')) 0
      else
        (let (primary, delivered, s') =
           length_rounds item_limit item_limit (qualified_operation_name (od_id d)) 0 s in
         finish_stream_operation s' primary delivered))"

end
