(* ===== verification/Stream_Laws.thy ===== *)
theory Stream_Laws
  imports Value_Stream
begin

text \<open>
  The contracts of streams: a source that has answered with anything but an item stays ended, and the length
  operation reports a number exactly for the streams that keep their schema.
\<close>

section \<open>Latched sources\<close>

primrec pulls :: "('s \<Rightarrow> 'a \<times> 's) \<Rightarrow> nat \<Rightarrow> 's \<Rightarrow> 'a list" where
  "pulls p 0 s = []"
| "pulls p (Suc n) s = (let (a, s') = p s in a # pulls p n s')"

lemma length_pulls [simp]: "length (pulls p n s) = n"
  by (induction n arbitrary: s) (simp_all split: prod.split)

locale latched_source =
  fixes next_item :: "'s \<Rightarrow> 'a \<times> 's"
    and item :: "'a \<Rightarrow> bool"
    and ended :: 'a
    and latched :: "'s \<Rightarrow> bool"
  assumes latched_pull: "latched s \<Longrightarrow> next_item s = (ended, s)"
    and not_item: "next_item s = (a, s') \<Longrightarrow> \<not> item a \<Longrightarrow> latched s'"
begin

lemma latched_pulls: "latched s \<Longrightarrow> pulls next_item n s = replicate n ended"
  by (induction n) (simp_all add: latched_pull)

lemma pulls_latch:
  "i < j \<Longrightarrow> j < n \<Longrightarrow> \<not> item (pulls next_item n s ! i) \<Longrightarrow> pulls next_item n s ! j = ended"
proof (induction n arbitrary: s i j)
  case (Suc n)
  obtain a s' where p: "next_item s = (a, s')" by fastforce
  from Suc.prems obtain k where k: "j = Suc k" by (cases j) auto
  show ?case
  proof (cases i)
    case 0
    with Suc.prems p have "latched s'" by (auto intro: not_item)
    with p k Suc.prems show ?thesis by (simp add: latched_pulls)
  next
    case (Suc h)
    with Suc.prems p k Suc.IH [of h k s'] show ?thesis by simp
  qed
qed simp

end

fun pulled_item :: "stream_pull \<Rightarrow> bool" where
  "pulled_item (PullItem _) = True"
| "pulled_item _ = False"

fun checked_item :: "checked_pull \<Rightarrow> bool" where
  "checked_item (CheckedItem _) = True"
| "checked_item _ = False"

fun pulled_chunk :: "byte_pull \<Rightarrow> bool" where
  "pulled_chunk (ByteChunk _) = True"
| "pulled_chunk _ = False"

interpretation plain_stream: latched_source pull pulled_item PullEnd vs_terminal
  by unfold_locales (auto simp: pull_def Let_def split: prod.splits if_splits stream_pull.splits)

interpretation byte_pulls: latched_source byte_stream_pull pulled_chunk ByteEnd bs_terminal
  by unfold_locales (auto simp: byte_stream_pull_def Let_def split: prod.splits if_splits byte_pull.splits)

interpretation checked_stream: latched_source pull_checked checked_item CheckedEnd vs_terminal
proof
  fix s a s'
  assume p: "pull_checked s = (a, s')" "\<not> checked_item a"
  obtain b t where b: "pull s = (b, t)" by fastforce
  with plain_stream.not_item [of s b t] p show "vs_terminal s'"
    by (cases b) (auto simp: pull_checked_def Let_def split: if_splits stream_cardinality.splits)
qed (simp add: pull_checked_def)

text \<open>C10: Once a contract-checked stream has answered with anything but an item, whether the end, a failure,
  a cancellation or a violation of its contract, every later pull answers that it has ended.\<close>

theorem stream_latches:
  assumes "i < j" and "j < n" and "\<not> checked_item (pulls pull_checked n s ! i)"
  shows "pulls pull_checked n s ! j = CheckedEnd"
  using assms by (rule checked_stream.pulls_latch)

theorem stream_latches_witness:
  "pulls pull_checked 2 \<lparr>vs_source = SourceOnce (Some (VInt 5)), vs_cancel = token_never,
      vs_schema = StreamSchema VtString CardUnknown 0, vs_checked_items = 0, vs_terminal = False,
      vs_cleanup = None, vs_closed = False\<rparr> ! 1 = CheckedEnd"
  by (rule stream_latches [of 0])
    (simp_all add: numeral_2_eq_2 pull_checked_def pull_def token_never_def token_poll_def item_or_end_def
      exceeds_cardinality_def)

section \<open>The length of a stream\<close>

definition fits :: "stream_cardinality \<Rightarrow> nat \<Rightarrow> bool" where
  "fits cardinality n = (case cardinality of CardExact m \<Rightarrow> n = m | CardAtMost m \<Rightarrow> n \<le> m | CardUnknown \<Rightarrow> True)"

text \<open>The number of checked items does not change what a stream answers.\<close>

lemma pull_checked_items:
  "pull (s\<lparr>vs_checked_items := k\<rparr>) = (fst (pull s), (snd (pull s))\<lparr>vs_checked_items := k\<rparr>)"
  by (simp add: pull_def Let_def split: prod.split stream_pull.split)

lemma pulls_checked_items: "pulls pull n (s\<lparr>vs_checked_items := k\<rparr>) = pulls pull n s"
  by (induction n arbitrary: s) (simp_all add: pull_checked_items split: prod.split)

lemma pull_keeps:
  "pull s = (a, t) \<Longrightarrow> vs_schema t = vs_schema s \<and> vs_checked_items t = vs_checked_items s"
  by (auto simp: pull_def Let_def split: prod.splits if_splits stream_pull.splits)

lemma pull_item_running: "pull s = (PullItem x, t) \<Longrightarrow> \<not> vs_terminal t"
  by (auto simp: pull_def Let_def split: prod.splits if_splits stream_pull.splits)

lemma exceeds_not_fits: "exceeds_cardinality c k \<Longrightarrow> k \<le> n \<Longrightarrow> \<not> fits c n"
  by (auto simp: fits_def exceeds_cardinality_def split: stream_cardinality.splits)

lemma checked_i64_nat: "checked_i64 (int n) = (if n < 2 ^ 63 then Some (of_nat n) else None)"
  by (auto simp: checked_i64_def in_i64_def)

text \<open>The answers of a stream that yields \<open>vs\<close> and ends.\<close>

definition runs_out :: "value_stream \<Rightarrow> val list \<Rightarrow> bool" where
  "runs_out s vs \<longleftrightarrow> pulls pull (Suc (length vs)) s = map PullItem vs @ [PullEnd]"

lemma runs_out_item:
  assumes "pull s = (PullItem x, t)"
  shows "runs_out s vs \<longleftrightarrow> (\<exists>us. vs = x # us \<and> runs_out t us)"
  using assms by (cases vs) (auto simp: runs_out_def)

lemma runs_out_end:
  assumes "pull s = (a, t)" and "\<not> pulled_item a"
  shows "runs_out s vs \<longleftrightarrow> a = PullEnd \<and> vs = []"
  using assms by (cases vs) (auto simp: runs_out_def)

definition fits_schema :: "stream_schema \<Rightarrow> nat \<Rightarrow> val list \<Rightarrow> bool" where
  "fits_schema schema k vs \<longleftrightarrow> list_all (accepts (ss_element schema)) vs \<and> fits (ss_cardinality schema) (k + length vs)"

declare length_rounds.simps [simp del]

lemma length_rounds_value:
  assumes "\<not> vs_terminal s" and "vs_checked_items s = k" and "\<not> exceeds_cardinality (ss_cardinality (vs_schema s)) k"
  shows "fst (length_rounds n limit operation k s) = OspValue v \<longleftrightarrow>
    (\<exists>vs. runs_out s vs \<and> length vs \<le> n \<and> k + length vs < 2 ^ 63 \<and> fits_schema (vs_schema s) k vs \<and>
       v = VInt (of_nat (k + length vs)))"
  using assms
proof (induction n arbitrary: k s)
  case (0 k s)
  obtain a t where a: "pull s = (a, t)" by fastforce
  show ?case
  proof (cases "pulled_item a")
    case True
    then obtain x where "a = PullItem x" by (cases a) auto
    with a 0 show ?thesis
      by (auto simp: length_rounds.simps [of 0] pull_checked_def runs_out_item [of s x t] Let_def split: prod.splits if_splits)
  next
    case False
    with a 0 pull_keeps [OF a] show ?thesis
      by (cases a) (auto simp: length_rounds.simps [of 0] pull_checked_def runs_out_end [OF a] fits_schema_def fits_def exceeds_cardinality_def
        checked_i64_nat split: prod.splits if_splits stream_cardinality.splits)
  qed
next
  case (Suc n k s)
  obtain a t where a: "pull s = (a, t)" by fastforce
  note keeps = pull_keeps [OF a]
  show ?case
  proof (cases "pulled_item a")
    case True
    then obtain x where x: "a = PullItem x" by (cases a) auto
    let ?t = "t\<lparr>vs_checked_items := Suc k\<rparr>" and ?schema = "vs_schema s"
    note out = runs_out_item [OF a [unfolded x]]
    have runs: "runs_out ?t us \<longleftrightarrow> runs_out t us" for us by (simp only: runs_out_def pulls_checked_items)
    show ?thesis
    proof (cases "exceeds_cardinality (ss_cardinality ?schema) (Suc k) \<or> \<not> accepts (ss_element ?schema) x")
      case True
      then have "fst (length_rounds (Suc n) limit operation k s) \<noteq> OspValue v"
        using a x Suc.prems keeps by (auto simp: length_rounds.simps [of "Suc n"] pull_checked_def Let_def)
      moreover have "\<not> fits_schema ?schema k (x # us)" for us
        using True exceeds_not_fits [of "ss_cardinality ?schema" "Suc k" "k + length (x # us)"]
        by (auto simp: fits_schema_def)
      ultimately show ?thesis by (auto simp: out)
    next
      case False
      then have "length_rounds (Suc n) limit operation k s = length_rounds n limit operation (Suc k) ?t"
        using a x Suc.prems keeps by (simp add: pull_checked_def Let_def length_rounds.simps [of "Suc n"])
      moreover have "fits_schema ?schema k (x # us) = fits_schema ?schema (Suc k) us" for us
        using False by (simp add: fits_schema_def)
      moreover have "fst (length_rounds n limit operation (Suc k) ?t) = OspValue v \<longleftrightarrow>
          (\<exists>us. runs_out t us \<and> length us \<le> n \<and> Suc k + length us < 2 ^ 63 \<and> fits_schema ?schema (Suc k) us \<and>
             v = VInt (of_nat (Suc k + length us)))"
        using Suc.IH [of ?t "Suc k", unfolded runs] False keeps pull_item_running [OF a [unfolded x]] by simp
      ultimately show ?thesis by (auto simp: out simp del: of_nat_Suc of_nat_add)
    qed
  next
    case False
    with a Suc.prems keeps show ?thesis
      by (cases a) (auto simp: length_rounds.simps [of "Suc n"] pull_checked_def runs_out_end [OF a] fits_schema_def fits_def exceeds_cardinality_def
        checked_i64_nat split: prod.splits if_splits stream_cardinality.splits)
  qed
qed

lemma finish_value:
  "oso_primary (fst (finish_stream_operation s p n)) = OspValue v \<longleftrightarrow> p = OspValue v \<and> (\<exists>u. fst (close_stream s) = Inr u)"
  by (cases "fst (close_stream s)"; cases p) (auto simp: finish_stream_operation_def split: prod.splits)

lemma pull_checked_cleanup:
  "pull_checked s = (a, s') \<Longrightarrow> vs_cleanup s' = vs_cleanup s \<and> vs_closed s' = vs_closed s"
  by (auto simp: pull_checked_def pull_def Let_def split: prod.splits if_splits stream_pull.splits
    stream_cardinality.splits)

lemma length_rounds_cleanup:
  "length_rounds n limit operation k s = (p, m, s') \<Longrightarrow> vs_cleanup s' = vs_cleanup s \<and> vs_closed s' = vs_closed s"
proof (induction n arbitrary: k s)
  case 0
  then show ?case
    by (auto simp: length_rounds.simps split: prod.splits checked_pull.splits dest: pull_checked_cleanup)
next
  case (Suc n)
  obtain a t where a: "pull_checked s = (a, t)" by fastforce
  from pull_checked_cleanup [OF a] Suc.prems Suc.IH [of "k + 1" t] a show ?case
    by (cases a) (simp_all add: length_rounds.simps [of "Suc n"])
qed

lemma standard_operation_overload: "standard_operation m name = Some d \<Longrightarrow> has_stream_overload d"
  by (cases "mi_origin m")
    (simp_all add: standard_operation_def split: if_splits, erule subst, simp add: has_stream_overload_def)

lemma finish_closes: "vs_closed (snd (finish_stream_operation s p n))"
  by (cases "fst (close_stream s)"; cases p) (auto simp: finish_stream_operation_def close_stream_def split: prod.splits)

text \<open>C9: The length operation on any stream that has not been pulled, eager or lazy, with any answers of its
  source and its cancellation token, reports a number exactly when the stream answers with items and then its end,
  with no more items than the limit and an \<open>Int\<close> allow, every item is of the declared element type, their number
  fits the declared cardinality and the cleanup succeeds; the number is that of the items. In every case the
  operation leaves the stream closed.\<close>

theorem length_of_stream:
  assumes "standard_operation m name = Some d" and "\<not> vs_terminal s" and "vs_checked_items s = 0"
  shows "(oso_primary (fst (execute_value_stream d s limit)) = OspValue v \<longleftrightarrow>
      (\<exists>vs. pulls pull (Suc (length vs)) s = map PullItem vs @ [PullEnd] \<and> length vs \<le> limit \<and> length vs < 2 ^ 63 \<and>
         list_all (accepts (ss_element (vs_schema s))) vs \<and> fits (ss_cardinality (vs_schema s)) (length vs) \<and>
         fst (close_stream s) = Inr () \<and> v = VInt (of_nat (length vs)))) \<and>
    vs_closed (snd (execute_value_stream d s limit))"
proof -
  let ?op = "qualified_operation_name (od_id d)"
  obtain p m s' where r: "length_rounds limit limit ?op 0 s = (p, m, s')" by (metis prod.exhaust)
  have "fst (close_stream s') = fst (close_stream s)"
    using length_rounds_cleanup [OF r] by (simp add: close_stream_def)
  moreover have "\<not> exceeds_cardinality (ss_cardinality (vs_schema s)) 0"
    by (simp add: exceeds_cardinality_def split: stream_cardinality.split)
  note length_rounds_value [OF assms(2,3) this, of limit limit ?op v]
  ultimately show ?thesis
    using standard_operation_overload [OF assms(1)] r
    by (auto simp: execute_value_stream_def finish_value finish_closes runs_out_def fits_schema_def)
qed

theorem length_of_stream_witness:
  "let s = \<lparr>vs_source = SourceQueue \<lparr>bq_items = [VInt 5], bq_capacity = 1\<rparr>, vs_cancel = token_never,
       vs_schema = StreamSchema VtInt (CardAtMost 2) 0, vs_checked_items = 0, vs_terminal = False,
       vs_cleanup = Some (Inr ()), vs_closed = False\<rparr>;
     d = the (standard_operation (module_standard ''std'' ''value'' MajorV2) ''length'')
   in oso_primary (fst (execute_value_stream d s 3)) = OspValue (VInt 1) \<and> vs_closed (snd (execute_value_stream d s 3))"
proof -
  let ?s = "\<lparr>vs_source = SourceQueue \<lparr>bq_items = [VInt 5], bq_capacity = 1\<rparr>, vs_cancel = token_never,
       vs_schema = StreamSchema VtInt (CardAtMost 2) 0, vs_checked_items = 0, vs_terminal = False,
       vs_cleanup = Some (Inr ()), vs_closed = False\<rparr>"
  have "standard_operation (module_standard ''std'' ''value'' MajorV2) ''length'' =
      Some (the (standard_operation (module_standard ''std'' ''value'' MajorV2) ''length''))"
    by (simp add: standard_operation_def module_standard_def)
  note law = length_of_stream [OF this, of ?s 3 "VInt 1"]
  have "pulls pull (Suc (length [VInt 5])) ?s = map PullItem [VInt 5] @ [PullEnd]"
    by (simp add: pull_def token_never_def token_poll_def queue_pop_def item_or_end_def)
  moreover have "fits (CardAtMost 2) (length [VInt 5])" "fst (close_stream ?s) = Inr ()"
    by (simp_all add: fits_def close_stream_def)
  ultimately show ?thesis using law by (auto simp: Let_def intro!: exI [of _ "[VInt 5]"])
qed

end
