(* ===== verification/Convert.thy ===== *)
theory Convert
  imports Value_Stream
begin

text \<open>
  The codec boundary between bytes and values, from \<open>flash-runtime/src/convert.rs\<close>: decoders of byte chunks
  and encoders of values, and that decoding does not depend on how its input is cut into chunks.

  A chunk source (\<open>FnMut\<close>) is the sequence of its answers with the number of calls so far. A pull is \<open>None\<close>
  when its loop never ends, on a source that answers with empty chunks for ever, and \<open>Some None\<close> when it
  panics.
\<close>

section \<open>Decoding\<close>

datatype codec = CodecUtf8 bool | CodecBytes

datatype decode_step = DecodeValue val | DecodeEnd | DecodeMalformed nat

record decoder =
  dc_codec :: codec
  dc_chunks :: "nat \<Rightarrow> string option"
  dc_calls :: nat
  dc_carry :: string
  dc_offset :: nat
  dc_done :: bool

type_synonym decoding = "(decode_step \<times> decoder) option"

definition decode :: "codec \<Rightarrow> (nat \<Rightarrow> string option) \<Rightarrow> decoder" where
  "decode k chunks =
     \<lparr>dc_codec = k, dc_chunks = chunks, dc_calls = 0, dc_carry = [], dc_offset = 0, dc_done = False\<rparr>"

definition next_chunk :: "decoder \<Rightarrow> string option \<times> decoder" where
  "next_chunk d = (dc_chunks d (dc_calls d), d\<lparr>dc_calls := dc_calls d + 1\<rparr>)"

partial_function (option) next_bytes :: "decoder \<Rightarrow> decoding option" where
  "next_bytes d =
     (let (chunk, d') = next_chunk d in
      case chunk of
        Some c \<Rightarrow>
          if c = [] then next_bytes d'
          else Some (Some (DecodeValue (VBytes c), d'\<lparr>dc_offset := dc_offset d' + length c\<rparr>))
      | None \<Rightarrow> Some (Some (DecodeEnd, d'\<lparr>dc_done := True\<rparr>)))"

text \<open>\<open>carry\<close> as a text of \<open>n\<close> bytes, which leaves the rest.\<close>

definition emit_text :: "string \<Rightarrow> nat \<Rightarrow> decoder \<Rightarrow> decode_step \<times> decoder" where
  "emit_text text n d =
     (DecodeValue (VString text), d\<lparr>dc_offset := dc_offset d + n, dc_carry := drop n (dc_carry d)\<rparr>)"

definition emit_valid_prefix :: "nat \<Rightarrow> decoder \<Rightarrow> decoding" where
  "emit_valid_prefix valid d =
     map_option (\<lambda>prefix. emit_text prefix valid d) (expect_ok (from_utf8 (take valid (dc_carry d))))"

definition malformed_here :: "decoder \<Rightarrow> decode_step \<times> decoder" where
  "malformed_here d = (DecodeMalformed (dc_offset d), d\<lparr>dc_done := True\<rparr>)"

text \<open>What the loop returns before it pulls another chunk, if anything.\<close>

definition strict_ready :: "decoder \<Rightarrow> decoding option" where
  "strict_ready d =
     (case from_utf8 (dc_carry d) of
        Inr text \<Rightarrow> if text = [] then None else Some (Some (emit_text text (length (dc_carry d)) d))
      | Inl (valid, error_len) \<Rightarrow>
          if 0 < valid then Some (emit_valid_prefix valid d)
          else if error_len \<noteq> None then Some (Some (malformed_here d))
          else None)"

definition flush_utf8_strict_at_eof :: "decoder \<Rightarrow> decoding" where
  "flush_utf8_strict_at_eof d =
     (if dc_carry d = [] then Some (DecodeEnd, d\<lparr>dc_done := True\<rparr>)
      else
        (case from_utf8 (dc_carry d) of
           Inr text \<Rightarrow> Some (emit_text text (length (dc_carry d)) d)
         | Inl (valid, _) \<Rightarrow> if 0 < valid then emit_valid_prefix valid d else Some (malformed_here d)))"

partial_function (option) next_utf8_strict :: "decoder \<Rightarrow> decoding option" where
  "next_utf8_strict d =
     (case strict_ready d of
        Some r \<Rightarrow> Some r
      | None \<Rightarrow>
          (let (chunk, d') = next_chunk d in
           case chunk of
             Some c \<Rightarrow> next_utf8_strict (d'\<lparr>dc_carry := dc_carry d' @ c\<rparr>)
           | None \<Rightarrow> Some (flush_utf8_strict_at_eof d')))"

text \<open>U+FFFD\<close>

definition REPLACEMENT :: string where
  "REPLACEMENT = utf8_encode 0xFFFD"

lemma utf8_error_len_pos: "utf8_error s = Some (n, Some l) \<Longrightarrow> 0 < l \<and> s \<noteq> []"
proof (induction s arbitrary: n rule: utf8_error.induct)
  case (1 s)
  have head: "0 < l" if "utf8_head s = Inl (Some l)"
    using that by (cases s) (auto simp: utf8_head.simps(2) Let_def split: if_splits list.splits)
  from 1 head show ?case
    by (auto simp: utf8_error.simps [of s] split: if_splits sum.splits)
qed

text \<open>\<open>String::from_utf8_lossy\<close> of the standard library.\<close>

function from_utf8_lossy :: "string \<Rightarrow> string" where
  "from_utf8_lossy s =
     (case utf8_error s of
        None \<Rightarrow> s
      | Some (n, None) \<Rightarrow> take n s @ REPLACEMENT
      | Some (n, Some l) \<Rightarrow> take n s @ REPLACEMENT @ from_utf8_lossy (drop (n + l) s))"
  by pat_completeness auto
termination by (relation "measure length") (auto dest: utf8_error_len_pos)

function decode_utf8_lossy_holding_incomplete :: "string \<Rightarrow> (string \<times> nat) option" where
  "decode_utf8_lossy_holding_incomplete s =
     (case utf8_error s of
        None \<Rightarrow> Some (s, length s)
      | Some (valid, error_len) \<Rightarrow>
          Option.bind (expect_ok (from_utf8 (take valid s))) (\<lambda>prefix.
            case error_len of
              Some l \<Rightarrow>
                map_option (\<lambda>(text, consumed). (prefix @ REPLACEMENT @ text, valid + l + consumed))
                  (decode_utf8_lossy_holding_incomplete (drop (valid + l) s))
            | None \<Rightarrow> Some (prefix, valid)))"
  by pat_completeness auto
termination by (relation "measure length") (auto dest: utf8_error_len_pos)

declare from_utf8_lossy.simps [simp del] decode_utf8_lossy_holding_incomplete.simps [simp del]

partial_function (option) next_utf8_lossy :: "decoder \<Rightarrow> decoding option" where
  "next_utf8_lossy d =
     (let (chunk, d') = next_chunk d in
      case chunk of
        Some c \<Rightarrow>
          if c = [] then next_utf8_lossy d'
          else
            (let d'' = d'\<lparr>dc_carry := dc_carry d' @ c\<rparr> in
             case decode_utf8_lossy_holding_incomplete (dc_carry d'') of
               None \<Rightarrow> Some None
             | Some (text, consumed) \<Rightarrow>
                 if text = [] then
                   next_utf8_lossy
                     (d''\<lparr>dc_offset := dc_offset d'' + consumed, dc_carry := drop consumed (dc_carry d'')\<rparr>)
                 else Some (Some (emit_text text consumed d'')))
      | None \<Rightarrow>
          Some (Some
            (if dc_carry d' = [] then (DecodeEnd, d'\<lparr>dc_done := True\<rparr>)
             else emit_text (from_utf8_lossy (dc_carry d')) (length (dc_carry d')) d')))"

definition decoder_pull :: "decoder \<Rightarrow> decoding option" where
  "decoder_pull d =
     (if dc_done d then Some (Some (DecodeEnd, d))
      else
        (case dc_codec d of
           CodecBytes \<Rightarrow> next_bytes d
         | CodecUtf8 lossy \<Rightarrow> if lossy then next_utf8_lossy d else next_utf8_strict d))"

section \<open>Encoding\<close>

datatype encode_step =
    EncodeChunk string
  | EncodeEnd
  | EncodeNotEncodable string
  | EncodeFailed runtime_error
  | EncodeCancelled cancel_reason

record encoder =
  en_codec :: codec
  en_input :: value_stream
  en_done :: bool

definition encode :: "codec \<Rightarrow> value_stream \<Rightarrow> encoder" where
  "encode k input = \<lparr>en_codec = k, en_input = input, en_done = False\<rparr>"

definition encode_value :: "codec \<Rightarrow> val \<Rightarrow> string + string" where
  "encode_value k v =
     (case k of
        CodecUtf8 _ \<Rightarrow> (case v of VString text \<Rightarrow> Inr text | _ \<Rightarrow> Inl (family_name v))
      | CodecBytes \<Rightarrow> (case v of VBytes bytes \<Rightarrow> Inr bytes | _ \<Rightarrow> Inl (family_name v)))"

definition encoder_pull :: "encoder \<Rightarrow> encode_step \<times> encoder" where
  "encoder_pull en =
     (if en_done en then (EncodeEnd, en)
      else
        (let (pulled, input) = pull (en_input en); e = en\<lparr>en_input := input\<rparr>; stopped = e\<lparr>en_done := True\<rparr> in
         case pulled of
           PullItem v \<Rightarrow>
             (case encode_value (en_codec en) v of
                Inr bytes \<Rightarrow> (EncodeChunk bytes, e)
              | Inl actual \<Rightarrow> (EncodeNotEncodable actual, stopped))
         | PullEnd \<Rightarrow> (EncodeEnd, stopped)
         | PullFailed err \<Rightarrow> (EncodeFailed err, stopped)
         | PullCancelled reason \<Rightarrow> (EncodeCancelled reason, stopped)))"

section \<open>The validator on a cut text\<close>

lemma from_utf8_eq: "from_utf8 s = Inr t \<longleftrightarrow> utf8_valid s \<and> t = s"
  by (auto simp: from_utf8_def utf8_valid_def split: option.splits)

lemma utf8_head_error_extends:
  "utf8_head s = Inl (Some l) \<Longrightarrow> utf8_head (s @ t) = Inl (Some l)"
  by (cases s) (auto simp: utf8_head.simps(2) Let_def split: if_splits list.splits)

text \<open>An error cuts the text into its valid prefix and a rest that is in error at once.\<close>

lemma utf8_error_split:
  assumes "utf8_error s = Some (n, e)"
  shows "\<exists>p r. s = p @ r \<and> n = length p \<and> utf8_valid p \<and> utf8_error r = Some (0, e) \<and> r \<noteq> []"
  using assms
proof (induction s arbitrary: n rule: utf8_error.induct)
  case (1 s)
  from "1.prems" have s: "s \<noteq> []" by (auto simp: utf8_error.simps [of s])
  show ?case
  proof (cases "utf8_head s")
    case (Inl e')
    with "1.prems" s show ?thesis by (intro exI [of _ "[]"] exI [of _ s]) (auto simp: utf8_error.simps [of s])
  next
    case (Inr cw)
    obtain c w where cw: "cw = (c, w)" by fastforce
    with Inr obtain r where r: "is_scalar c" "w = len_utf8 c" "s = utf8_encode c @ r"
      using utf8_headD [of s c w] by auto
    from "1.prems" Inr cw s obtain m where m: "utf8_error (drop w s) = Some (m, e)" "n = w + m"
      by (auto simp: utf8_error.simps [of s])
    from "1.IH" [OF s Inr cw [symmetric] m(1)] obtain p q where "drop w s = p @ q" "m = length p"
      "utf8_valid p" "utf8_error q = Some (0, e)" "q \<noteq> []" by blast
    with r m show ?thesis by (intro exI [of _ "utf8_encode c @ p"] exI [of _ q]) auto
  qed
qed

lemma utf8_error_valid_append:
  "utf8_valid p \<Longrightarrow> utf8_error (p @ r) = map_option (\<lambda>(n, e). (length p + n, e)) (utf8_error r)"
  by (induction p rule: utf8_valid_induct) (auto simp: option.map_comp comp_def case_prod_beta' option.map_ident add.assoc)

lemma utf8_error_at_once:
  assumes "utf8_error r = Some (0, Some l)"
  shows "utf8_error (r @ t) = Some (0, Some l)"
proof -
  from assms have r: "r \<noteq> []" by auto
  then have "utf8_head r = Inl (Some l)"
    using assms utf8_head_width_pos [of r] by (auto simp: utf8_error.simps [of r] split: sum.splits prod.splits)
  from utf8_head_error_extends [OF this] r show ?thesis by (simp add: utf8_error.simps [of "r @ t"])
qed

section \<open>Decoding a list of chunks\<close>

text \<open>The values that a decoder yields, and the step that ends them.\<close>

partial_function (option) drain :: "decoder \<Rightarrow> (val list \<times> decode_step) option" where
  "drain d =
     (case decoder_pull d of
        Some (Some (DecodeValue v, d')) \<Rightarrow> Option.bind (drain d') (\<lambda>(vs, e). Some (v # vs, e))
      | Some (Some (step, _)) \<Rightarrow> Some ([], step)
      | _ \<Rightarrow> None)"

text \<open>The bytes that a decoder has still to decode, when its chunks are those of a list.\<close>

definition undecoded :: "string list \<Rightarrow> decoder \<Rightarrow> string" where
  "undecoded cs d = dc_carry d @ concat (drop (dc_calls d) cs)"

definition decodes :: "codec \<Rightarrow> string list \<Rightarrow> decoder \<Rightarrow> bool" where
  "decodes k cs d \<longleftrightarrow> dc_codec d = k \<and> dc_chunks d = get_nth cs \<and> \<not> dc_done d"

lemma next_chunk_Some:
  assumes "decodes k cs d" and "dc_calls d < length cs"
  obtains c where "next_chunk d = (Some c, d\<lparr>dc_calls := dc_calls d + 1\<rparr>)"
    "drop (dc_calls d) cs = c # drop (dc_calls d + 1) cs"
  using assms by (auto simp: next_chunk_def decodes_def get_nth_def Cons_nth_drop_Suc)

lemma next_chunk_None:
  "decodes k cs d \<Longrightarrow> \<not> dc_calls d < length cs \<Longrightarrow> next_chunk d = (None, d\<lparr>dc_calls := dc_calls d + 1\<rparr>)"
  by (simp add: next_chunk_def decodes_def get_nth_def)

text \<open>A step of a decoder that has decoded \<open>t\<close>, and one that has ended.\<close>

definition decoded_text :: "codec \<Rightarrow> string list \<Rightarrow> decoder \<Rightarrow> string \<Rightarrow> string \<Rightarrow> decoding option \<Rightarrow> bool" where
  "decoded_text k cs d u t r \<longleftrightarrow>
     (\<exists>d'. r = Some (Some (DecodeValue (VString t), d')) \<and> decodes k cs d' \<and>
        undecoded cs d = u @ undecoded cs d' \<and> dc_offset d' = dc_offset d + length u \<and> u \<noteq> [])"

definition ended_with :: "decode_step \<Rightarrow> decoding option \<Rightarrow> bool" where
  "ended_with e r \<longleftrightarrow> (\<exists>d'. r = Some (Some (e, d')))"

lemma emit_text_decoded:
  assumes "decodes k cs d" and "dc_carry d = u @ v" and "n = length u" and "u \<noteq> []"
  shows "decoded_text k cs d u t (Some (Some (emit_text t n d)))"
  using assms by (auto simp: decoded_text_def emit_text_def decodes_def undecoded_def)

lemma emit_valid_prefix_eq:
  "utf8_valid (take n (dc_carry d)) \<Longrightarrow> emit_valid_prefix n d = Some (emit_text (take n (dc_carry d)) n d)"
  by (simp add: emit_valid_prefix_def from_utf8_def utf8_valid_def)

text \<open>What the strict decoder does with its carry.\<close>

lemma strict_ready_cases:
  assumes d: "decodes (CodecUtf8 False) cs d"
  shows "(\<exists>u. utf8_valid u \<and> decoded_text (CodecUtf8 False) cs d u u (strict_ready d)) \<or>
    (ended_with (DecodeMalformed (dc_offset d)) (strict_ready d) \<and>
       (\<exists>l. utf8_error (undecoded cs d) = Some (0, Some l))) \<or>
    (strict_ready d = None \<and> (dc_carry d = [] \<or> utf8_error (dc_carry d) = Some (0, None)))"
proof (cases "utf8_error (dc_carry d)")
  case None
  then have v: "utf8_valid (dc_carry d)" by (simp add: utf8_valid_def)
  show ?thesis
  proof (cases "dc_carry d = []")
    case True
    then show ?thesis by (simp add: strict_ready_def from_utf8_def)
  next
    case False
    then have "strict_ready d = Some (Some (emit_text (dc_carry d) (length (dc_carry d)) d))"
      using None by (simp add: strict_ready_def from_utf8_def)
    with emit_text_decoded [OF d, of "dc_carry d" "[]"] v False show ?thesis by auto
  qed
next
  case (Some ne)
  then obtain n e where e: "utf8_error (dc_carry d) = Some (n, e)" by (cases ne) auto
  from utf8_error_split [OF e] obtain p r where p: "dc_carry d = p @ r" "n = length p" "utf8_valid p"
    "utf8_error r = Some (0, e)" "r \<noteq> []" by blast
  show ?thesis
  proof (cases "p = []")
    case False
    then have "strict_ready d = Some (Some (emit_text p n d))"
      using e p by (simp add: strict_ready_def from_utf8_def emit_valid_prefix_eq)
    with emit_text_decoded [OF d p(1,2) False] p(3) show ?thesis by auto
  next
    case True
    show ?thesis
    proof (cases e)
      case None
      with e p True show ?thesis by (simp add: strict_ready_def from_utf8_def)
    next
      case (Some l)
      with e p True have "strict_ready d = Some (Some (malformed_here d))"
        by (simp add: strict_ready_def from_utf8_def)
      moreover have "utf8_error (undecoded cs d) = Some (0, Some l)"
        using utf8_error_at_once [of r l] p True Some by (simp add: undecoded_def)
      ultimately show ?thesis by (auto simp: ended_with_def malformed_here_def)
    qed
  qed
qed

lemma strict_flush_cases:
  assumes d: "decodes (CodecUtf8 False) cs d" and "\<not> dc_calls d < length cs"
    and "dc_carry d = [] \<or> utf8_error (dc_carry d) = Some (0, None)"
  shows "(ended_with DecodeEnd (Some (flush_utf8_strict_at_eof d)) \<and> undecoded cs d = []) \<or>
    (ended_with (DecodeMalformed (dc_offset d)) (Some (flush_utf8_strict_at_eof d)) \<and>
       utf8_error (undecoded cs d) = Some (0, None))"
  using assms
  by (auto simp: flush_utf8_strict_at_eof_def ended_with_def undecoded_def from_utf8_def malformed_here_def)

text \<open>One pull of the strict decoder.\<close>

definition strict_step :: "string list \<Rightarrow> decoder \<Rightarrow> decoding option \<Rightarrow> bool" where
  "strict_step cs d r \<longleftrightarrow>
     (\<exists>u. utf8_valid u \<and> decoded_text (CodecUtf8 False) cs d u u r) \<or>
     (ended_with DecodeEnd r \<and> undecoded cs d = []) \<or>
     (ended_with (DecodeMalformed (dc_offset d)) r \<and> (\<exists>e. utf8_error (undecoded cs d) = Some (0, e)))"

lemma strict_step_same:
  assumes "strict_step cs d' r" and "undecoded cs d' = undecoded cs d" and "dc_offset d' = dc_offset d"
  shows "strict_step cs d r"
  using assms by (auto simp: strict_step_def decoded_text_def)

lemma next_utf8_strict_step:
  assumes "decodes (CodecUtf8 False) cs d"
  shows "strict_step cs d (next_utf8_strict d)"
  using assms
proof (induction "length cs - dc_calls d" arbitrary: d rule: less_induct)
  case less
  note d = less.prems
  from strict_ready_cases [OF d] show ?case
  proof (elim disjE)
    assume "\<exists>u. utf8_valid u \<and> decoded_text (CodecUtf8 False) cs d u u (strict_ready d)"
    then show ?thesis by (subst next_utf8_strict.simps) (auto simp: strict_step_def decoded_text_def)
  next
    assume "ended_with (DecodeMalformed (dc_offset d)) (strict_ready d) \<and>
       (\<exists>l. utf8_error (undecoded cs d) = Some (0, Some l))"
    then show ?thesis by (subst next_utf8_strict.simps) (auto simp: strict_step_def ended_with_def)
  next
    assume none: "strict_ready d = None \<and> (dc_carry d = [] \<or> utf8_error (dc_carry d) = Some (0, None))"
    let ?d = "d\<lparr>dc_calls := dc_calls d + 1\<rparr>"
    show ?thesis
    proof (cases "dc_calls d < length cs")
      case True
      from next_chunk_Some [OF d True] obtain c where c: "next_chunk d = (Some c, ?d)"
        "drop (dc_calls d) cs = c # drop (dc_calls d + 1) cs" .
      let ?e = "?d\<lparr>dc_carry := dc_carry ?d @ c\<rparr>"
      have "strict_step cs ?e (next_utf8_strict ?e)"
        using True d by (intro less.hyps) (auto simp: decodes_def)
      then have "strict_step cs d (next_utf8_strict ?e)"
        by (rule strict_step_same) (use c(2) in \<open>simp_all add: undecoded_def\<close>)
      then show ?thesis using none c(1) by (subst next_utf8_strict.simps) simp
    next
      case False
      have f: "strict_step cs ?d (Some (flush_utf8_strict_at_eof ?d))"
        using strict_flush_cases [of cs ?d] d False none by (auto simp: strict_step_def decodes_def)
      have "strict_step cs d (Some (flush_utf8_strict_at_eof ?d))"
        by (rule strict_step_same [OF f]) (use False in \<open>simp_all add: undecoded_def\<close>)
      then show ?thesis using none next_chunk_None [OF d False] by (subst next_utf8_strict.simps) simp
    qed
  qed
qed

lemma drain_ended:
  "ended_with e (decoder_pull d) \<Longrightarrow> (\<And>v. e \<noteq> DecodeValue v) \<Longrightarrow> drain d = Some ([], e)"
  by (subst drain.simps) (auto simp: ended_with_def split: decode_step.split)

lemma drain_value:
  "decoder_pull d = Some (Some (DecodeValue v, d')) \<Longrightarrow> drain d' = Some (vs, e) \<Longrightarrow> drain d = Some (v # vs, e)"
  by (subst drain.simps) simp

lemma strict_drains:
  assumes "decodes (CodecUtf8 False) cs d"
  shows "\<exists>ts. drain d = Some (map VString ts,
      case utf8_error (undecoded cs d) of None \<Rightarrow> DecodeEnd | Some (n, _) \<Rightarrow> DecodeMalformed (dc_offset d + n)) \<and>
    concat ts = (case utf8_error (undecoded cs d) of None \<Rightarrow> undecoded cs d | Some (n, _) \<Rightarrow> take n (undecoded cs d)) \<and>
    list_all utf8_valid ts"
  using assms
proof (induction "length (undecoded cs d)" arbitrary: d rule: less_induct)
  case less
  note d = less.prems
  have pull: "decoder_pull d = next_utf8_strict d" using d by (simp add: decoder_pull_def decodes_def)
  from next_utf8_strict_step [OF d, unfolded strict_step_def] show ?case
  proof (elim disjE exE conjE)
    fix u assume v: "utf8_valid u" and t: "decoded_text (CodecUtf8 False) cs d u u (next_utf8_strict d)"
    from t obtain d' where d': "next_utf8_strict d = Some (Some (DecodeValue (VString u), d'))"
      "decodes (CodecUtf8 False) cs d'" "undecoded cs d = u @ undecoded cs d'"
      "dc_offset d' = dc_offset d + length u" "u \<noteq> []" by (auto simp: decoded_text_def)
    from less.hyps [OF _ d'(2)] d'(3,5) obtain ts where ts: "drain d' = Some (map VString ts,
        case utf8_error (undecoded cs d') of None \<Rightarrow> DecodeEnd | Some (n, _) \<Rightarrow> DecodeMalformed (dc_offset d' + n))"
      "concat ts = (case utf8_error (undecoded cs d') of None \<Rightarrow> undecoded cs d' | Some (n, _) \<Rightarrow> take n (undecoded cs d'))"
      "list_all utf8_valid ts" by auto
    show ?thesis
      using drain_value [OF d'(1) [folded pull] ts(1)] ts(2,3) d'(3,4) v
      by (intro exI [of _ "u # ts"]) (auto simp: utf8_error_valid_append add.assoc split: option.splits)
  next
    assume "ended_with DecodeEnd (next_utf8_strict d)" and "undecoded cs d = []"
    then show ?thesis using drain_ended [of DecodeEnd d] pull by (intro exI [of _ "[]"]) simp
  next
    fix e assume "ended_with (DecodeMalformed (dc_offset d)) (next_utf8_strict d)"
      and "utf8_error (undecoded cs d) = Some (0, e)"
    then show ?thesis using drain_ended [of "DecodeMalformed (dc_offset d)" d] pull
      by (intro exI [of _ "[]"]) simp
  qed
qed

section \<open>Lossy decoding\<close>

lemma from_utf8_lossy_Nil [simp]: "from_utf8_lossy [] = []"
  by (simp add: from_utf8_lossy.simps)

lemma utf8_head_error_len: "utf8_head s = Inl (Some l) \<Longrightarrow> l \<le> length s"
  by (cases s) (auto simp: utf8_head.simps(2) Let_def split: if_splits list.splits)

lemma utf8_error_len: "utf8_error r = Some (0, Some l) \<Longrightarrow> l \<le> length r"
  using utf8_head_width_pos [of r]
  by (auto simp: utf8_error.simps [of r] split: if_splits sum.splits prod.splits intro: utf8_head_error_len)

lemma from_utf8_lossy_valid: "utf8_valid p \<Longrightarrow> from_utf8_lossy (p @ r) = p @ from_utf8_lossy r"
  by (auto simp: from_utf8_lossy.simps [of "p @ r"] from_utf8_lossy.simps [of r] utf8_error_valid_append
    add.assoc split: option.split)

lemma from_utf8_lossy_error:
  "utf8_error r = Some (0, Some l) \<Longrightarrow> from_utf8_lossy (r @ t) = REPLACEMENT @ from_utf8_lossy (drop l r @ t)"
  using utf8_error_len [of r l] utf8_error_at_once [of r l t] by (simp add: from_utf8_lossy.simps [of "r @ t"])

text \<open>What is held back is nothing or an incomplete sequence, and the rest is decoded as it would be in place.\<close>

lemma lossy_holding:
  "\<exists>t k. decode_utf8_lossy_holding_incomplete s = Some (t, k) \<and> k \<le> length s \<and> (t \<noteq> [] \<longrightarrow> 0 < k) \<and>
     (\<forall>r. from_utf8_lossy (s @ r) = t @ from_utf8_lossy (drop k s @ r))"
proof (induction s rule: decode_utf8_lossy_holding_incomplete.induct)
  case (1 s)
  show ?case
  proof (cases "utf8_error s")
    case None
    then have "utf8_valid s" by (simp add: utf8_valid_def)
    then show ?thesis
      using None by (auto simp: decode_utf8_lossy_holding_incomplete.simps [of s] from_utf8_lossy_valid)
  next
    case (Some ne)
    then obtain n e where e: "utf8_error s = Some (n, e)" by (cases ne) auto
    from utf8_error_split [OF e] obtain p r where p: "s = p @ r" "n = length p" "utf8_valid p"
      "utf8_error r = Some (0, e)" by blast
    then have prefix: "expect_ok (from_utf8 (take n s)) = Some p" by (simp add: from_utf8_def utf8_valid_def)
    show ?thesis
    proof (cases e)
      case None
      with e prefix have "decode_utf8_lossy_holding_incomplete s = Some (p, n)"
        by (simp add: decode_utf8_lossy_holding_incomplete.simps [of s])
      with p show ?thesis by (auto simp: from_utf8_lossy_valid)
    next
      case (Some l)
      have "p = take n s" using p by simp
      from "1.IH" [OF e refl _ Some, of p] prefix obtain t k where tk:
        "decode_utf8_lossy_holding_incomplete (drop l r) = Some (t, k)" "k \<le> length (drop l r)"
        "\<forall>u. from_utf8_lossy (drop l r @ u) = t @ from_utf8_lossy (drop k (drop l r) @ u)"
        using p by auto
      have l: "0 < l" "l \<le> length r" using p(4) Some utf8_error_len_pos [of r 0 l] utf8_error_len [of r l] by auto
      have "decode_utf8_lossy_holding_incomplete s = Some (p @ REPLACEMENT @ t, n + l + k)"
      proof -
        have "drop (n + l) s = drop l r" using p(1,2) by simp
        with e Some prefix tk(1) show ?thesis
          by (simp add: decode_utf8_lossy_holding_incomplete.simps [of s])
      qed
      moreover have "from_utf8_lossy (s @ u) = (p @ REPLACEMENT @ t) @ from_utf8_lossy (drop (n + l + k) s @ u)" for u
        using p Some tk(3) from_utf8_lossy_error [of r l u]
        by (simp add: from_utf8_lossy_valid add.commute [of k l])
      ultimately show ?thesis using l tk(2) p(1,2) by auto
    qed
  qed
qed

text \<open>One pull of the lossy decoder.\<close>

definition lossy_step :: "string list \<Rightarrow> decoder \<Rightarrow> decoding option \<Rightarrow> bool" where
  "lossy_step cs d r \<longleftrightarrow>
     (\<exists>t d'. r = Some (Some (DecodeValue (VString t), d')) \<and> decodes (CodecUtf8 True) cs d' \<and>
        length (undecoded cs d') < length (undecoded cs d) \<and>
        from_utf8_lossy (undecoded cs d) = t @ from_utf8_lossy (undecoded cs d')) \<or>
     (ended_with DecodeEnd r \<and> from_utf8_lossy (undecoded cs d) = [])"

lemma lossy_step_same:
  assumes "lossy_step cs d' r" and "from_utf8_lossy (undecoded cs d') = from_utf8_lossy (undecoded cs d)"
    and "length (undecoded cs d') \<le> length (undecoded cs d)"
  shows "lossy_step cs d r"
  using assms unfolding lossy_step_def by (auto dest: less_le_trans)

lemma lossy_flush:
  assumes "decodes (CodecUtf8 True) cs d" and "\<not> dc_calls d < length cs"
  shows "lossy_step cs d (next_utf8_lossy d)"
  using next_chunk_None [OF assms] assms(1,2)
  by (subst next_utf8_lossy.simps)
    (auto simp: lossy_step_def ended_with_def undecoded_def emit_text_def decodes_def)

lemma lossy_emit:
  assumes "decodes (CodecUtf8 True) cs d" and "k \<le> length (dc_carry d)" and "0 < k"
    and "\<forall>r. from_utf8_lossy (dc_carry d @ r) = t @ from_utf8_lossy (drop k (dc_carry d) @ r)"
  shows "lossy_step cs d (Some (Some (emit_text t k d)))"
  using assms by (auto simp: lossy_step_def emit_text_def decodes_def undecoded_def)

lemma next_utf8_lossy_step:
  assumes "decodes (CodecUtf8 True) cs d"
  shows "lossy_step cs d (next_utf8_lossy d)"
  using assms
proof (induction "length cs - dc_calls d" arbitrary: d rule: less_induct)
  case less
  note d = less.prems
  let ?d = "d\<lparr>dc_calls := dc_calls d + 1\<rparr>"
  show ?case
  proof (cases "dc_calls d < length cs")
    case False
    with d show ?thesis by (rule lossy_flush)
  next
    case True
    from next_chunk_Some [OF d True] obtain c where c: "next_chunk d = (Some c, ?d)"
      "drop (dc_calls d) cs = c # drop (dc_calls d + 1) cs" .
    let ?e = "?d\<lparr>dc_carry := dc_carry ?d @ c\<rparr>"
    from lossy_holding [of "dc_carry ?e"] obtain t k where tk:
      "decode_utf8_lossy_holding_incomplete (dc_carry ?e) = Some (t, k)" "k \<le> length (dc_carry ?e)"
      "t \<noteq> [] \<longrightarrow> 0 < k"
      "\<forall>r. from_utf8_lossy (dc_carry ?e @ r) = t @ from_utf8_lossy (drop k (dc_carry ?e) @ r)" by blast
    have u: "undecoded cs ?e = undecoded cs d" using c(2) by (simp add: undecoded_def)
    have e: "decodes (CodecUtf8 True) cs ?e" using d by (simp add: decodes_def)
    consider "c = []" | "c \<noteq> []" "t = []" | "c \<noteq> []" "t \<noteq> []" by blast
    then show ?thesis
    proof cases
      case 1
      have "lossy_step cs ?d (next_utf8_lossy ?d)"
        using True d by (intro less.hyps) (auto simp: decodes_def)
      then have "lossy_step cs d (next_utf8_lossy ?d)"
        by (rule lossy_step_same) (use c(2) 1 in \<open>simp_all add: undecoded_def\<close>)
      then show ?thesis using c(1) 1 by (subst next_utf8_lossy.simps) simp
    next
      case 2
      let ?f = "?e\<lparr>dc_offset := dc_offset ?e + k, dc_carry := drop k (dc_carry ?e)\<rparr>"
      have "lossy_step cs ?f (next_utf8_lossy ?f)"
        using True d by (intro less.hyps) (auto simp: decodes_def)
      then have "lossy_step cs ?e (next_utf8_lossy ?f)"
        by (rule lossy_step_same) (use tk(2,4) 2 in \<open>simp_all add: undecoded_def del: append_assoc\<close>)
      then have "lossy_step cs d (next_utf8_lossy ?f)" by (rule lossy_step_same) (simp_all only: u order_refl)
      moreover have "next_utf8_lossy d = next_utf8_lossy ?f"
        using c(1) 2 tk(1) by (subst next_utf8_lossy.simps) simp
      ultimately show ?thesis by simp
    next
      case 3
      from tk(3) 3 have "0 < k" by simp
      have "lossy_step cs ?e (Some (Some (emit_text t k ?e)))" by (rule lossy_emit) fact+
      then have "lossy_step cs d (Some (Some (emit_text t k ?e)))" by (rule lossy_step_same) (simp_all only: u order_refl)
      moreover have "next_utf8_lossy d = Some (Some (emit_text t k ?e))"
        using c(1) 3 tk(1) by (subst next_utf8_lossy.simps) simp
      ultimately show ?thesis by simp
    qed
  qed
qed

lemma lossy_drains:
  assumes "decodes (CodecUtf8 True) cs d"
  shows "\<exists>ts. drain d = Some (map VString ts, DecodeEnd) \<and> concat ts = from_utf8_lossy (undecoded cs d)"
  using assms
proof (induction "length (undecoded cs d)" arbitrary: d rule: less_induct)
  case less
  note d = less.prems
  have pull: "decoder_pull d = next_utf8_lossy d" using d by (simp add: decoder_pull_def decodes_def)
  from next_utf8_lossy_step [OF d, unfolded lossy_step_def] show ?case
  proof (elim disjE exE conjE)
    fix t d' assume t: "next_utf8_lossy d = Some (Some (DecodeValue (VString t), d'))"
      "decodes (CodecUtf8 True) cs d'" "length (undecoded cs d') < length (undecoded cs d)"
      "from_utf8_lossy (undecoded cs d) = t @ from_utf8_lossy (undecoded cs d')"
    from less.hyps [OF t(3,2)] obtain ts where "drain d' = Some (map VString ts, DecodeEnd)"
      "concat ts = from_utf8_lossy (undecoded cs d')" by blast
    with drain_value [OF t(1) [folded pull]] t(4) show ?thesis by (intro exI [of _ "t # ts"]) simp
  next
    assume "ended_with DecodeEnd (next_utf8_lossy d)" and "from_utf8_lossy (undecoded cs d) = []"
    then show ?thesis using drain_ended [of DecodeEnd d] pull by (intro exI [of _ "[]"]) simp
  qed
qed

lemma undecoded_decode: "undecoded cs (decode k (get_nth cs)) = concat cs" "dc_offset (decode k (get_nth cs)) = 0"
  "decodes k cs (decode k (get_nth cs))"
  by (simp_all add: undecoded_def decode_def decodes_def)

text \<open>C8: What a UTF-8 decoder yields does not depend on how its input is cut into chunks. The strict decoder
  yields valid texts that make up the valid prefix of the whole input, and then ends or reports the offset of the
  first malformed sequence; the lossy decoder yields the lossy decoding of the whole input, and ends.\<close>

theorem decoding_ignores_chunks:
  "(\<exists>ts. drain (decode (CodecUtf8 False) (get_nth cs)) =
       Some (map VString ts, case utf8_error (concat cs) of None \<Rightarrow> DecodeEnd | Some (n, _) \<Rightarrow> DecodeMalformed n) \<and>
     concat ts = (case utf8_error (concat cs) of None \<Rightarrow> concat cs | Some (n, _) \<Rightarrow> take n (concat cs)) \<and>
     list_all utf8_valid ts) \<and>
   (\<exists>ts. drain (decode (CodecUtf8 True) (get_nth cs)) = Some (map VString ts, DecodeEnd) \<and>
     concat ts = from_utf8_lossy (concat cs))"
  using strict_drains [OF undecoded_decode(3) [of "CodecUtf8 False" cs], unfolded undecoded_decode add_0]
    lossy_drains [OF undecoded_decode(3) [of "CodecUtf8 True" cs], unfolded undecoded_decode]
  by (rule conjI)

end
