(* ===== verification/Spec2Isabelle.thy ===== *)
theory Spec2Isabelle
  imports Diagnostic Lexer_Languages Classification Language Formatter Completion_Target Glob Job
    Key_Decoder Edit_Buffer History_Ring History_Store Document_Uri Parser_Results Eval_Laws Operation_Laws
    Stream_Laws Convert
begin

text \<open>
  Flash, the shell language of FlashOS: a model of its toolchain and of its evaluator, with the theorems that
  make them correct. The program is the Rust workspace \<open>src/components/flash/crates\<close>; the paths below are
  relative to it.

  \<^bold>\<open>The program.\<close> \<open>flash-syntax\<close> turns a text into tokens (\<open>lexer.rs\<close>), decides whether an interactive input
  is complete (\<open>classification.rs\<close>), detects the language major (\<open>language.rs\<close>), parses (\<open>parser.rs\<close>, \<open>ast.rs\<close>),
  formats (\<open>formatter.rs\<close>), finds completion targets (\<open>completion.rs\<close>) and renders diagnostics over the source map
  (\<open>source.rs\<close>, \<open>diagnostic.rs\<close>). \<open>flash-runtime\<close> evaluates the tree over values and scopes (\<open>value.rs\<close>,
  \<open>operation.rs\<close>, \<open>scope.rs\<close>, \<open>environment.rs\<close>, \<open>eval.rs\<close>), with lazy streams and codecs (\<open>stream.rs\<close>,
  \<open>convert.rs\<close>), glob patterns (\<open>glob.rs\<close>) and the jobs of the shell (\<open>job.rs\<close>). \<open>flash-cli\<close> edits the
  command line (\<open>terminal_editor\<close>) and keeps its history; \<open>flash-lsp\<close> serves editors.

  \<^bold>\<open>Representation\<close> (theory \<open>Prelude\<close>). \<open>usize\<close> is \<open>nat\<close>: offsets and counts are bounded by the length of a
  text in memory, and every subtraction is guarded as the code guards it. \<open>i64\<close> is a \<open>64 word\<close>, with the
  checked operations of the standard library; a binary64 float is its exact value, a rational number (\<open>Float64\<close>).
  A \<open>str\<close> is the list of its UTF-8 bytes, a \<open>char\<close> its scalar value (\<open>Utf8\<close>, \<open>Char_Classes\<close>). A \<open>Result\<close> is a
  sum with \<open>Inl\<close> for the error; a panic is \<open>None\<close> of an option around it, or a case of the result type of
  the parser and the evaluator. A \<open>BTreeMap\<close> is a sorted association list. Closures over the outside world are
  their answers as a function of the number of the call. Code outside the repository and the operating system
  enter as parameters.

  \<^bold>\<open>Syntax.\<close> \<open>Source\<close> models \<open>source.rs\<close> (identities, spans, the line index, positions in UTF-8 and UTF-16),
  \<open>Diagnostic\<close> models \<open>diagnostic.rs\<close>: positions and offsets determine each other, a location lies in its line, and
  an excerpt shows it. \<open>Lexer\<close> has one definition per method of the lexer; \<open>Lexer_Proofs\<close> shows that each either
  declines or emits one nonempty token (\<open>emits\<close>), so that the tokens are a partition of the text, and
  \<open>Lexer_Languages\<close> that the two language majors differ in reserved words only. \<open>Classification\<close>, \<open>Language\<close>,
  \<open>Formatter\<close> and \<open>Completion_Target\<close> model the files of their names over these tokens.

  \<^bold>\<open>Parser.\<close> \<open>Ast\<close> is the tree; \<open>Parser_Core\<close>, \<open>Parser_Expressions\<close> and \<open>Parser\<close> have one definition per method of
  the recursive descent parser, \<open>Parser_Entry\<close> the entry points. The mutual recursion of the methods is tied by
  levels: \<open>statement_level n\<close> and \<open>syntax_level n\<close> are records of the methods that may be re-entered, level
  \<open>n + 1\<close> calls level \<open>n\<close>, and level 0 is out of fuel. \<open>Parser_Proofs\<close> is a program logic in which \<open>ok\<close> says
  that a method neither panics nor runs out of fuel and reads a node inside the source; \<open>Tree_Spans\<close> is the
  specification of the trees, grouped by precedence and with nested spans;
  \<open>Parser_Brackets\<close>, \<open>Parser_Nodes\<close>, \<open>Parser_Terms\<close>, \<open>Parser_Statements\<close>, \<open>Parser_Scripts\<close> and \<open>Parser_Returns\<close>
  give the specification of every method, by induction on the tokens that remain, and \<open>Parser_Results\<close> the
  theorems. The fuel is \<open>parser_fuel\<close>, the number of tokens and two more: every re-entry has consumed a token.
  The theorems say that the entry points return with this fuel.

  \<^bold>\<open>Evaluator.\<close> \<open>Value_Type\<close>, \<open>Runtime_Error\<close>, \<open>Value\<close>, \<open>Value_Text\<close>, \<open>Operation\<close> and \<open>Scope\<close> model the
  data, the text, the operators and the scopes. \<open>Eval_Core\<close>, \<open>Eval_Words\<close>, \<open>Eval_Calls\<close>, \<open>Evaluator\<close> and \<open>Eval\<close> have one
  definition per method of \<open>eval.rs\<close>. The code takes its host as a trait object; the model is the evaluator over one
  host, the \<open>PureEvaluationHost\<close> of the file itself, which refuses to execute or capture a command and to read a
  directory: these calls are inlined as the errors that it answers. There is no host parameter, and the theorems
  say nothing of the evaluator over the session's host, which runs processes and re-enters evaluation. \<open>level n\<close>
  ties the recursion: each re-entry has charged a step of the budget, so a level above the steps that are left is
  enough, and \<open>evaluation_ends\<close> says so for every script, over the pure host and with a step limit.
  \<open>Eval_Agreement\<close> states what every method promises as a locale, \<open>evaluation_relation\<close>: a relation
  of the states before and after that is kept by each primitive step is kept by every method, and the result does
  not depend on the fuel. \<open>Eval_Methods\<close> proves it once, method by method; \<open>Eval_Laws\<close> interprets it for the
  budget, the scope and the environment. \<open>Operation_Laws\<close> shows what the operators compute.

  \<^bold>\<open>Streams.\<close> \<open>Value_Stream\<close> models \<open>stream.rs\<close> and the stream operations of \<open>operation.rs\<close>, \<open>Stream_Laws\<close> their
  contracts. \<open>Convert\<close> models \<open>convert.rs\<close>: what a decoder yields is the decoding of the whole input, however it
  is cut into chunks. Loops over sources are \<open>partial_function (option)\<close>, as a source may answer with empty chunks
  for ever; on lists of chunks they are shown to return.

  \<^bold>\<open>Shell and editors.\<close> \<open>Glob\<close>, \<open>Job\<close>, \<open>Key_Decoder\<close>, \<open>Edit_Buffer\<close>, \<open>History_Ring\<close>, \<open>History_Store\<close> and
  \<open>Document_Uri\<close> model the files of their names. Matching of globs is equivalent to an inductive
  reference; a job's status is a function of its processes and its lifecycle only moves forwards; the edit buffer refines a
  zipper of characters; the history keeps the newest entries; paths and document URIs round trip.

  \<^bold>\<open>Not modelled.\<close> The session's host of the evaluator and the operating system (\<open>execute.rs\<close>, \<open>command.rs\<close>,
  \<open>resolve.rs\<close>, \<open>directory.rs\<close>, \<open>file.rs\<close>, \<open>background.rs\<close>, the platform crates), sessions and built-ins
  (\<open>session.rs\<close>, \<open>builtin.rs\<close>, \<open>internal.rs\<close> and the help and query files): their content is the order of system
  effects. The static checker, modules and capsules (\<open>module.rs\<close> but for the type tables of \<open>Value_Type\<close>, \<open>capsule.rs\<close>):
  a program of its own on top of the tree. The structured commands over streams and the closures they
  call (\<open>structured.rs\<close>, \<open>closure.rs\<close>), formats over \<open>serde_json\<close> (\<open>format.rs\<close>). The command
  line, the editor loops, the language server's dispatch, the migration and cookbook tools: drivers over
  files, processes and third-party crates.
\<close>

end
